(* ===== verification/Prelude.thy ===== *)
theory Prelude
  imports Main "HOL-Library.Word" "HOL-Library.Signed_Division" "HOL-Library.State_Monad"
begin

unbundle bit_operations_syntax

section \<open>Prelude: machine types, alignment macros, intervals\<close>

text \<open>
  Shared by every component of the development: the names of the machine types, the
  alignment macros of \<^verbatim>\<open>startup.h\<close>, sets of addresses as half-open intervals, C's
  conversions between \<open>int\<close> and \<open>unsigned\<close>, and the generic lemmas and collections
  that the component proofs use.

  Sizes and physical addresses that the code keeps in \<open>paddr_t\<close> are \<open>nat\<close> values below
  \<open>2 ^ 32\<close> (this board builds the library with 32-bit \<open>paddr_t\<close>), those it keeps in
  \<open>paddr64_t\<close> are \<open>nat\<close> values below \<open>2 ^ 64\<close>; every addition and subtraction whose
  result C truncates to the width is written \<open>add32\<close>, \<open>sub32\<close>, \<open>add64\<close>, \<open>sub64\<close>.
  Register values and flag words are of type \<open>32 word\<close>.
\<close>

type_synonym u8 = "8 word"
type_synonym u16 = "16 word"
type_synonym u32 = "32 word"
type_synonym u64 = "64 word"

named_theorems wrap_simps \<open>wrapping additions and subtractions that do not wrap\<close>
named_theorems chip_simps \<open>equations of the chip access layer of the clock drivers\<close>

subsection \<open>Arithmetic at a width\<close>

definition add32 :: "nat \<Rightarrow> nat \<Rightarrow> nat" where
  "add32 a b = (a + b) mod 2 ^ 32"

definition sub32 :: "nat \<Rightarrow> nat \<Rightarrow> nat" where
  "sub32 a b = (a + 2 ^ 32 - b) mod 2 ^ 32"

definition add64 :: "nat \<Rightarrow> nat \<Rightarrow> nat" where
  "add64 a b = (a + b) mod 2 ^ 64"

definition sub64 :: "nat \<Rightarrow> nat \<Rightarrow> nat" where
  "sub64 a b = (a + 2 ^ 64 - b) mod 2 ^ 64"

definition to_paddr :: "nat \<Rightarrow> nat" where
  \<comment> \<open>a conversion of a 64-bit value to \<open>paddr_t\<close>\<close>
  "to_paddr a = a mod 2 ^ 32"

lemma add32_eq [wrap_simps]: "a + b < 2 ^ 32 \<Longrightarrow> add32 a b = a + b"
  by (simp add: add32_def)

lemma add64_eq [wrap_simps]: "a + b < 2 ^ 64 \<Longrightarrow> add64 a b = a + b"
  by (simp add: add64_def)

lemma sub_mod_eq:
  fixes a b N :: nat
  assumes "b \<le> a" and "a < N"
  shows "(a + N - b) mod N = a - b"
proof -
  have "a + N - b = (a - b) + N" using assms by simp
  then have "(a + N - b) mod N = (a - b) mod N" by simp
  then show ?thesis using assms by simp
qed

lemma sub32_eq [wrap_simps]: "b \<le> a \<Longrightarrow> a < 2 ^ 32 \<Longrightarrow> sub32 a b = a - b"
  unfolding sub32_def by (rule sub_mod_eq)

lemma sub64_eq [wrap_simps]: "b \<le> a \<Longrightarrow> a < 2 ^ 64 \<Longrightarrow> sub64 a b = a - b"
  unfolding sub64_def by (rule sub_mod_eq)

lemma to_paddr_eq [wrap_simps]: "a < 2 ^ 32 \<Longrightarrow> to_paddr a = a"
  by (simp add: to_paddr_def)

lemma add32_less [simp]: "add32 a b < 2 ^ 32"
  by (simp add: add32_def)

subsection \<open>Numbers as words of 32 bits\<close>

lemma unat_of_nat32: "n < 2 ^ 32 \<Longrightarrow> unat (word_of_nat n :: u32) = n"
  by (simp add: unsigned_of_nat take_bit_nat_eq_self)

lemma unat32_less: "unat (w :: u32) < 2 ^ 32"
  using unsigned_less [of w] by simp

lemma div_of_nat32: "a < 2 ^ 32 \<Longrightarrow> b < 2 ^ 32 \<Longrightarrow> (word_of_nat a :: u32) div word_of_nat b = word_of_nat (a div b)"
  by (simp add: word_arith_nat_div unat_of_nat32)

lemma mod_of_nat32: "a < 2 ^ 32 \<Longrightarrow> b < 2 ^ 32 \<Longrightarrow> (word_of_nat a :: u32) mod word_of_nat b = word_of_nat (a mod b)"
  by (simp add: word_arith_nat_mod unat_of_nat32)

lemma of_nat32_zero: "a < 2 ^ 32 \<Longrightarrow> (word_of_nat a :: u32) = 0 \<longleftrightarrow> a = 0"
  by (metis unat_of_nat32 unat_eq_zero)

lemma of_nat32_le: "a < 2 ^ 32 \<Longrightarrow> b < 2 ^ 32 \<Longrightarrow> (word_of_nat a :: u32) \<le> word_of_nat b \<longleftrightarrow> a \<le> b"
  by (simp add: word_le_nat_alt unat_of_nat32)

subsection \<open>Alignment\<close>

text \<open>
  \<open>TRUNC(x, a)\<close> clears the bits of \<open>a - 1\<close> from \<open>x\<close>, \<open>ROUND(x, a)\<close> adds \<open>a - 1\<close> first;
  both work on \<open>paddr_t\<close>, so \<open>ROUND\<close> wraps around at the top of the address space.
\<close>

definition TRUNC :: "nat \<Rightarrow> nat \<Rightarrow> nat" where
  "TRUNC x a = unat ((of_nat x :: u32) AND NOT (of_nat a - 1))"

definition ROUND :: "nat \<Rightarrow> nat \<Rightarrow> nat" where
  "ROUND x a = TRUNC (unat ((of_nat x :: u32) + (of_nat a - 1))) a"

lemma and_not_mask_eq: "w AND NOT (mask k) = push_bit k (drop_bit k w)" for w :: "'a::len word"
  by (rule bit_word_eqI) (auto simp: bit_simps)

lemma and_not_mask_unat: "unat (w AND NOT (mask k)) = unat w - unat w mod 2 ^ k" for w :: "'a::len word"
proof -
  have "unat (push_bit k (drop_bit k w)) = take_bit LENGTH('a) (unat w div 2 ^ k * 2 ^ k)"
    by (simp only: unsigned_push_bit_eq unsigned_drop_bit_eq)
      (simp add: push_bit_eq_mult drop_bit_eq_div take_bit_nat_eq_self [OF unsigned_less, of w])
  also have "\<dots> = unat w div 2 ^ k * 2 ^ k"
    by (rule take_bit_nat_eq_self) (meson div_times_less_eq_dividend le_less_trans unsigned_less)
  finally show ?thesis by (simp add: and_not_mask_eq minus_mod_eq_div_mult)
qed

lemma TRUNC_pow2: "x < 2 ^ 32 \<Longrightarrow> TRUNC x (2 ^ k) = x - x mod 2 ^ k"
  by (simp add: TRUNC_def and_not_mask_unat flip: mask_eq_exp_minus_1)
    (simp add: take_bit_nat_eq_self unat_of_nat take_bit_eq_mod)

lemma TRUNC_less: "TRUNC x a < 2 ^ 32"
  using unsigned_less [of "(of_nat x :: u32) AND NOT (of_nat a - 1)"] by (simp add: TRUNC_def)

lemma ROUND_less: "ROUND x a < 2 ^ 32"
  unfolding ROUND_def by (rule TRUNC_less)

lemma ROUND_pow2:
  assumes "x + 2 ^ k \<le> 2 ^ 32"
  shows "ROUND x (2 ^ k) = (x + (2 ^ k - 1)) - (x + (2 ^ k - 1)) mod 2 ^ k"
proof -
  have "(of_nat (2 ^ k - 1) :: u32) = of_nat (2 ^ k) - 1"
    by (subst of_nat_diff) auto
  then have "(of_nat x :: u32) + (of_nat (2 ^ k) - 1) = of_nat (x + (2 ^ k - 1))"
    by (simp only: of_nat_add)
  moreover have lt: "x + (2 ^ k - 1) < 2 ^ 32"
    using assms zero_less_power [of "2::nat" k] by linarith
  ultimately have "unat ((of_nat x :: u32) + (of_nat (2 ^ k) - 1)) = x + (2 ^ k - 1)"
    by (simp only: unat_of_nat take_bit_nat_eq_self) (simp add: take_bit_nat_eq_self)
  with lt show ?thesis by (simp only: ROUND_def TRUNC_pow2)
qed

lemma ROUND_bounds:
  assumes "x + 2 ^ k \<le> 2 ^ 32"
  shows "x \<le> ROUND x (2 ^ k)" and "ROUND x (2 ^ k) < x + 2 ^ k" and "2 ^ k dvd ROUND x (2 ^ k)"
proof -
  let ?y = "x + (2 ^ k - 1)"
  have eq: "ROUND x (2 ^ k) = ?y - ?y mod 2 ^ k" by (rule ROUND_pow2 [OF assms])
  have "?y mod 2 ^ k < 2 ^ k" by simp
  then show "x \<le> ROUND x (2 ^ k)" unfolding eq by linarith
  show "ROUND x (2 ^ k) < x + 2 ^ k"
    unfolding eq using zero_less_power [of "2::nat" k] by linarith
  show "2 ^ k dvd ROUND x (2 ^ k)" unfolding eq by (rule dvd_minus_mod)
qed

lemma TRUNC_bounds:
  assumes "x < 2 ^ 32"
  shows "TRUNC x (2 ^ k) \<le> x" and "x < TRUNC x (2 ^ k) + 2 ^ k" and "2 ^ k dvd TRUNC x (2 ^ k)"
proof -
  have eq: "TRUNC x (2 ^ k) = x - x mod 2 ^ k" by (rule TRUNC_pow2 [OF assms])
  have "x mod 2 ^ k < 2 ^ k" by simp
  then show "x < TRUNC x (2 ^ k) + 2 ^ k" unfolding eq by linarith
  show "TRUNC x (2 ^ k) \<le> x" unfolding eq by simp
  show "2 ^ k dvd TRUNC x (2 ^ k)" unfolding eq by (rule dvd_minus_mod)
qed

subsection \<open>Calls that may stop the program\<close>

text \<open>A call of \<open>crash\<close> ends the program: the rest of the caller does not run.\<close>

definition bindE :: "'e + 'a \<Rightarrow> ('a \<Rightarrow> 'e + 'b) \<Rightarrow> 'e + 'b" where
  "bindE m f = (case m of Inl e \<Rightarrow> Inl e | Inr a \<Rightarrow> f a)"

lemma bindE_simps [simp]: "bindE (Inl e) f = Inl e" "bindE (Inr a) f = f a"
  by (simp_all add: bindE_def)

lemma bindE_Inr_iff: "bindE m f = Inr b \<longleftrightarrow> (\<exists>a. m = Inr a \<and> f a = Inr b)"
  by (cases m) auto

lemma bindE_cong [fundef_cong]: "m = m' \<Longrightarrow> (\<And>a. m' = Inr a \<Longrightarrow> f a = g a) \<Longrightarrow> bindE m f = bindE m' g"
  by (cases m') auto

end
