(* ===== verification/Syspage.thy ===== *)
theory Syspage
  imports Prelude
begin

section \<open>The temporary system page\<close>

text \<open>
  \<^verbatim>\<open>startup/lib/syspage_memory.c\<close>: the startup program builds the system page in one block of
  memory that holds the sections of \<open>struct local_syspage\<close> one behind the other. Growing a
  section moves everything behind it up and zeroes the gap.

  The state is the memory itself (a function from addresses to bytes), the table \<open>lsp\<close> of
  section pointers and sizes, the two size fields of the page header and the list of
  registered callout patch owners that \<^verbatim>\<open>callouts.c\<close> relocates when the storage moves.
  The sizes of the structures that are declared in headers outside this repository are a
  parameter (\<open>sp_sizes\<close>). \<open>mdriver_check\<close>, which \<open>grow_syspage_section\<close> calls first, polls the
  mini-drivers and does not touch this state.
\<close>

subsection \<open>Data\<close>

datatype sect_id =
    S_syspage | S_system_private | S_meminfo | S_asinfo | S_hwinfo | S_cpuinfo | S_cacheattr
  | S_qtime | S_callout | S_callin | S_typed_strings | S_strings | S_intrinfo | S_smp
  | S_pminfo | S_mdriver | S_arm_boxinfo | S_arm_cpu

record sect =
  sp :: nat      \<comment> \<open>address of the section\<close>
  ssize :: nat   \<comment> \<open>its size in bytes\<close>

record syspage_mem =
  mem :: "nat \<Rightarrow> u8"
  lsp :: "sect_id \<Rightarrow> sect"
  total_size :: nat         \<comment> \<open>\<open>lsp.syspage.p->total_size\<close>\<close>
  max_size :: nat           \<comment> \<open>\<open>lsp.syspage.p->size\<close> while the page is being built\<close>
  fixed_size :: nat
  num_cpu :: nat            \<comment> \<open>\<open>lsp.syspage.p->num_cpu\<close>\<close>
  patch_owners :: "nat list"

datatype startup_error =
    Syspage_overflow nat nat       \<comment> \<open>"Syspage memory request of %d exceeds maximum of %d bytes."\<close>
  | RAM_entry_overflow             \<comment> \<open>"RAM entry array overflow"\<close>
  | Remove_whole_sysram            \<comment> \<open>"Can't remove whole sysram entry."\<close>
  | Reserve_failed nat             \<comment> \<open>"Could not reserve 0x%l bytes of memory."\<close>
  | No_watcher_memory              \<comment> \<open>"No memory for watcher"\<close>
  | Timer_freq_zero                \<comment> \<open>"Timer frequency is zero"\<close>
  | Null_name                      \<comment> \<open>"%s: NULL name argument"\<close>
  | Bad_section sect_id            \<comment> \<open>not a message of the code: it would read past the section\<close>

record sp_sizes =
  sizeof_syspage :: nat
  sizeof_callout :: nat
  sizeof_callin :: nat
  sizeof_hwi_prefix :: nat
  sizeof_arm_cpu :: nat

subsection \<open>Memory primitives\<close>

definition memmove :: "nat \<Rightarrow> nat \<Rightarrow> nat \<Rightarrow> (nat \<Rightarrow> u8) \<Rightarrow> nat \<Rightarrow> u8" where
  "memmove dst src len m = (\<lambda>a. if dst \<le> a \<and> a < dst + len then m (src + (a - dst)) else m a)"

definition memset :: "nat \<Rightarrow> u8 \<Rightarrow> nat \<Rightarrow> (nat \<Rightarrow> u8) \<Rightarrow> nat \<Rightarrow> u8" where
  "memset dst v len m = (\<lambda>a. if dst \<le> a \<and> a < dst + len then v else m a)"

definition bytes_at :: "(nat \<Rightarrow> u8) \<Rightarrow> nat \<Rightarrow> nat \<Rightarrow> u8 list" where
  "bytes_at m a n = map m [a..<a + n]"

subsection \<open>Operations\<close>

definition callout_reloc_data :: "nat \<Rightarrow> nat \<Rightarrow> int \<Rightarrow> nat list \<Rightarrow> nat list" where
  "callout_reloc_data base len diff pd =
     map (\<lambda>owner. if base \<le> owner \<and> owner < base + len then nat (int owner + diff) else owner) pd"

definition grow_syspage_section :: "sect_id \<Rightarrow> nat \<Rightarrow> syspage_mem \<Rightarrow> startup_error + syspage_mem" where
  "grow_syspage_section i add0 s =
     (if add0 > 0 then
        let add = ROUND add0 8;
            new_size = add32 (total_size s) add
        in if new_size > max_size s then Inl (Syspage_overflow new_size (max_size s))
        else
          let bottom = sp (lsp s i) + ssize (lsp s i);
              base = sp (lsp s S_syspage);
              lsp1 = (\<lambda>j. if j \<noteq> i \<and> sp (lsp s j) \<ge> bottom
                           then (lsp s j)\<lparr>sp := sp (lsp s j) + add\<rparr> else lsp s j);
              len = total_size s - (bottom - base);
              m1 = memmove (bottom + add) bottom len (mem s);
              po = callout_reloc_data bottom len (int add) (patch_owners s);
              m2 = memset bottom 0 add m1
          in Inr (s\<lparr>mem := m2,
                    lsp := lsp1(i := (lsp1 i)\<lparr>ssize := ssize (lsp1 i) + add\<rparr>),
                    total_size := new_size,
                    patch_owners := po\<rparr>)
      else Inr s)"

definition place_section :: "sect_id \<Rightarrow> nat \<Rightarrow> syspage_mem \<Rightarrow> syspage_mem" where
  \<comment> \<open>the two assignments of \<open>set_syspage_section\<close>\<close>
  "place_section i n s =
     s\<lparr>lsp := (lsp s)(i := (lsp s i)\<lparr>sp := sp (lsp s S_syspage) + fixed_size s\<rparr>),
       fixed_size := fixed_size s + n\<rparr>"

definition set_syspage_section :: "sect_id \<Rightarrow> nat \<Rightarrow> syspage_mem \<Rightarrow> startup_error + syspage_mem" where
  "set_syspage_section i sz s =
     (let n = ROUND sz 8 in grow_syspage_section i n (place_section i n s))"

definition reloc_syspage_memory :: "nat \<Rightarrow> nat \<Rightarrow> syspage_mem \<Rightarrow> syspage_mem" where
  "reloc_syspage_memory base maxs s =
     (let old = sp (lsp s S_syspage);
          diff = int base - int old
      in s\<lparr>mem := memmove base old (total_size s) (mem s),
           patch_owners := callout_reloc_data old (total_size s) diff (patch_owners s),
           lsp := (\<lambda>j. (lsp s j)\<lparr>sp := nat (int (sp (lsp s j)) + diff)\<rparr>),
           max_size := maxs\<rparr>)"

definition cpu_init_syspage_memory :: "sp_sizes \<Rightarrow> syspage_mem \<Rightarrow> startup_error + syspage_mem" where
  "cpu_init_syspage_memory z s = set_syspage_section S_arm_cpu (sizeof_arm_cpu z) s"

definition init_syspage_memory :: "sp_sizes \<Rightarrow> nat \<Rightarrow> nat \<Rightarrow> syspage_mem \<Rightarrow> startup_error + syspage_mem" where
  \<comment> \<open>everything up to the call of \<open>hwi_default\<close>, which is modelled with the hardware
     information section\<close>
  "init_syspage_memory z base maxs s =
     (let spsize = ROUND (sizeof_syspage z) 8;
          s1 = s\<lparr>lsp := (\<lambda>_. \<lparr>sp = base + spsize, ssize = 0\<rparr>)\<rparr>;
          s2 = s1\<lparr>lsp := (lsp s1)(S_syspage := \<lparr>sp = base, ssize = spsize\<rparr>),
                  mem := memset base 0 spsize (mem s1),
                  fixed_size := spsize, total_size := spsize, max_size := maxs\<rparr>
      in case set_syspage_section S_callout (sizeof_callout z) s2 of Inl e \<Rightarrow> Inl e | Inr s3 \<Rightarrow>
         (case set_syspage_section S_callin (sizeof_callin z) s3 of Inl e \<Rightarrow> Inl e | Inr s4 \<Rightarrow>
         (case grow_syspage_section S_typed_strings 4 s4 of Inl e \<Rightarrow> Inl e | Inr s5 \<Rightarrow>
         (case grow_syspage_section S_strings 1 s5 of Inl e \<Rightarrow> Inl e | Inr s6 \<Rightarrow>
         (case grow_syspage_section S_hwinfo (sizeof_hwi_prefix z) s6 of Inl e \<Rightarrow> Inl e | Inr s7 \<Rightarrow>
          cpu_init_syspage_memory z (s7\<lparr>num_cpu := 1\<rparr>))))))"

definition poke :: "sect_id \<Rightarrow> nat \<Rightarrow> u8 list \<Rightarrow> syspage_mem \<Rightarrow> syspage_mem" where
  \<comment> \<open>a store of bytes through the pointer of a section\<close>
  "poke i off bs s =
     s\<lparr>mem := (\<lambda>a. if sp (lsp s i) + off \<le> a \<and> a < sp (lsp s i) + off + length bs
                    then bs ! (a - (sp (lsp s i) + off)) else mem s a)\<rparr>"

subsection \<open>Sections as byte lists\<close>

definition sect_end :: "syspage_mem \<Rightarrow> sect_id \<Rightarrow> nat" where
  "sect_end s i = sp (lsp s i) + ssize (lsp s i)"

definition contents :: "syspage_mem \<Rightarrow> sect_id \<Rightarrow> u8 list" where
  "contents s i = bytes_at (mem s) (sp (lsp s i)) (ssize (lsp s i))"

definition syspage_inv :: "syspage_mem \<Rightarrow> bool" where
  \<comment> \<open>the header comes first, the sections lie one behind the other inside the page, and the
     page is within its limit\<close>
  "syspage_inv s \<longleftrightarrow>
     0 < ssize (lsp s S_syspage) \<and>
     (\<forall>i. i \<noteq> S_syspage \<longrightarrow> sect_end s S_syspage \<le> sp (lsp s i)) \<and>
     (\<forall>i j. i \<noteq> j \<longrightarrow> sect_end s i \<le> sp (lsp s j) \<or> sect_end s j \<le> sp (lsp s i)) \<and>
     (\<forall>i. sect_end s i \<le> sp (lsp s S_syspage) + total_size s) \<and>
     total_size s \<le> max_size s \<and> max_size s < 2 ^ 32"

lemma bytes_at_cong:
  "(\<And>k. k < n \<Longrightarrow> m' (a' + k) = m (a + k)) \<Longrightarrow> bytes_at m' a' n = bytes_at m a n"
  by (rule nth_equalityI) (auto simp: bytes_at_def)

lemma bytes_at_append: "bytes_at m a (n + k) = bytes_at m a n @ bytes_at m (a + n) k"
  using upt_add_eq_append [of a "a + n" k] by (simp add: bytes_at_def add.assoc flip: map_append)

lemma bytes_at_const: "(\<And>k. k < n \<Longrightarrow> m (a + k) = v) \<Longrightarrow> bytes_at m a n = replicate n v"
  by (rule nth_equalityI) (auto simp: bytes_at_def)

lemma length_contents [simp]: "length (contents s i) = ssize (lsp s i)"
  by (simp add: contents_def bytes_at_def)

subsection \<open>Growing a section\<close>

definition grow_fits :: "nat \<Rightarrow> syspage_mem \<Rightarrow> bool" where
  \<comment> \<open>the request itself does not wrap around 32 bits\<close>
  "grow_fits add s \<longleftrightarrow> total_size s + add + 8 \<le> 2 ^ 32"

lemma ROUND8: "x + 8 \<le> 2 ^ 32 \<Longrightarrow> x \<le> ROUND x 8 \<and> ROUND x 8 < x + 8 \<and> 8 dvd ROUND x 8"
  using ROUND_bounds [of x 3] by simp

lemma grow_new_size: "grow_fits add s \<Longrightarrow> add32 (total_size s) (ROUND add 8) = total_size s + ROUND add 8"
  using ROUND8 [of add] by (auto simp: grow_fits_def intro!: add32_eq)

lemma grow_Inl_iff:
  "grow_fits add s \<Longrightarrow>
   (\<exists>e. grow_syspage_section i add s = Inl e) \<longleftrightarrow> 0 < add \<and> max_size s < total_size s + ROUND add 8"
  by (simp add: grow_syspage_section_def Let_def grow_new_size)

lemma grow_sects:
  assumes "grow_syspage_section i add s = Inr s'" and "0 < add" and "grow_fits add s"
  shows "lsp s' i = (lsp s i)\<lparr>ssize := ssize (lsp s i) + ROUND add 8\<rparr>"
    and "j \<noteq> i \<Longrightarrow> lsp s' j =
      (if sp (lsp s j) \<ge> sect_end s i then (lsp s j)\<lparr>sp := sp (lsp s j) + ROUND add 8\<rparr> else lsp s j)"
    and "total_size s' = total_size s + ROUND add 8"
    and "max_size s' = max_size s" and "fixed_size s' = fixed_size s"
    and "total_size s' \<le> max_size s"
    and "num_cpu s' = num_cpu s"
  using assms
  by (auto simp: grow_syspage_section_def Let_def grow_new_size sect_end_def split: if_splits)

lemma grow_mem:
  assumes "grow_syspage_section i add s = Inr s'" and "0 < add" and "grow_fits add s"
  defines "b \<equiv> sect_end s i" and "n \<equiv> ROUND add 8"
    and "len \<equiv> total_size s - (sect_end s i - sp (lsp s S_syspage))"
  shows "a < b \<Longrightarrow> mem s' a = mem s a"
    and "b \<le> a \<Longrightarrow> a < b + n \<Longrightarrow> mem s' a = 0"
    and "b + n \<le> a \<Longrightarrow> a < b + n + len \<Longrightarrow> mem s' a = mem s (a - n)"
  using assms
  by (auto simp: grow_syspage_section_def Let_def grow_new_size sect_end_def memset_def memmove_def
      split: if_splits)

lemma grow_zero: "grow_syspage_section i 0 s = Inr s"
  by (simp add: grow_syspage_section_def)

lemma grow_contents_self:
  assumes "grow_syspage_section i add s = Inr s'" and "0 < add" and "grow_fits add s"
  shows "contents s' i = contents s i @ replicate (ROUND add 8) 0"
proof -
  note sects = grow_sects [OF assms] and m = grow_mem [OF assms]
  have "contents s' i = bytes_at (mem s') (sp (lsp s i)) (ssize (lsp s i)) @
      bytes_at (mem s') (sect_end s i) (ROUND add 8)"
    by (simp add: contents_def sects(1) bytes_at_append sect_end_def)
  moreover have "bytes_at (mem s') (sp (lsp s i)) (ssize (lsp s i)) = contents s i"
    unfolding contents_def by (rule bytes_at_cong) (simp add: m(1) sect_end_def)
  moreover have "bytes_at (mem s') (sect_end s i) (ROUND add 8) = replicate (ROUND add 8) 0"
    by (rule bytes_at_const) (simp add: m(2))
  ultimately show ?thesis by simp
qed

lemma syspage_inv_base: "syspage_inv s \<Longrightarrow> sp (lsp s S_syspage) \<le> sp (lsp s i)"
  by (cases "i = S_syspage") (auto simp: syspage_inv_def sect_end_def dest!: spec [where x = i])

lemma syspage_inv_limit: "syspage_inv s \<Longrightarrow> sect_end s i \<le> sp (lsp s S_syspage) + total_size s"
  by (simp add: syspage_inv_def)

lemma syspage_inv_apart:
  "syspage_inv s \<Longrightarrow> i \<noteq> j \<Longrightarrow> sect_end s i \<le> sp (lsp s j) \<or> sect_end s j \<le> sp (lsp s i)"
  unfolding syspage_inv_def by blast

lemma grow_contents_other:
  assumes "grow_syspage_section i add s = Inr s'" and "0 < add" and "grow_fits add s"
    and inv: "syspage_inv s" and "j \<noteq> i"
  shows "contents s' j = contents s j"
proof (cases "sect_end s i \<le> sp (lsp s j)")
  case True
  note m = grow_mem [OF assms(1-3)]
  have "sect_end s j \<le> sp (lsp s S_syspage) + total_size s" "sp (lsp s S_syspage) \<le> sp (lsp s i)"
    using inv by (rule syspage_inv_limit syspage_inv_base)+
  with True show ?thesis
    unfolding contents_def grow_sects(2) [OF assms(1-3) \<open>j \<noteq> i\<close>]
    by (auto intro!: bytes_at_cong trans [OF m(3)] arg_cong [where f = "mem s"] simp: sect_end_def)
next
  case False
  with syspage_inv_apart [OF inv \<open>j \<noteq> i\<close>] have "sect_end s j \<le> sp (lsp s i)" by simp
  with False show ?thesis
    unfolding contents_def grow_sects(2) [OF assms(1-3) \<open>j \<noteq> i\<close>]
    by (auto intro!: bytes_at_cong grow_mem(1) [OF assms(1-3)] simp: sect_end_def)
qed

lemma grow_header:
  assumes "grow_syspage_section i add s = Inr s'" and "0 < add" and "grow_fits add s" and inv: "syspage_inv s"
  shows "sp (lsp s' S_syspage) = sp (lsp s S_syspage)"
    and "i \<noteq> S_syspage \<Longrightarrow> lsp s' S_syspage = lsp s S_syspage"
proof -
  show *: "lsp s' S_syspage = lsp s S_syspage" if "i \<noteq> S_syspage"
  proof -
    have "sect_end s S_syspage \<le> sp (lsp s i)" "0 < ssize (lsp s S_syspage)"
      using inv that by (auto simp: syspage_inv_def)
    then have "sp (lsp s S_syspage) < sect_end s i" by (simp add: sect_end_def)
    then show ?thesis using grow_sects(2) [OF assms(1-3), of S_syspage] that by simp
  qed
  then show "sp (lsp s' S_syspage) = sp (lsp s S_syspage)"
    using grow_sects(1) [OF assms(1-3)] by (cases "i = S_syspage") simp_all
qed

lemma grow_apart:
  assumes "grow_syspage_section i add s = Inr s'" and "0 < add" and "grow_fits add s" and inv: "syspage_inv s"
    and "j \<noteq> k"
  shows "sect_end s' j \<le> sp (lsp s' k) \<or> sect_end s' k \<le> sp (lsp s' j)"
proof -
  note g = grow_sects(1,2) [OF assms(1-3)]
  have "k \<noteq> i \<Longrightarrow> sect_end s i \<le> sp (lsp s k) \<or> sect_end s k \<le> sp (lsp s i)"
    "j \<noteq> i \<Longrightarrow> sect_end s i \<le> sp (lsp s j) \<or> sect_end s j \<le> sp (lsp s i)"
    using syspage_inv_apart [OF inv] by blast+
  with syspage_inv_apart [OF inv \<open>j \<noteq> k\<close>] \<open>j \<noteq> k\<close> show ?thesis
    by (cases "j = i"; cases "k = i") (auto simp: sect_end_def g)
qed

lemma grow_limit:
  assumes "grow_syspage_section i add s = Inr s'" and "0 < add" and "grow_fits add s" and inv: "syspage_inv s"
  shows "sect_end s' j \<le> sp (lsp s' S_syspage) + total_size s'"
  using syspage_inv_limit [OF inv, of j] syspage_inv_limit [OF inv, of i]
  by (cases "j = i") (auto simp: sect_end_def grow_sects [OF assms(1-3)] grow_header(1) [OF assms])

lemma grow_after_header:
  assumes "grow_syspage_section i add s = Inr s'" and "0 < add" and "grow_fits add s" and inv: "syspage_inv s"
    and "j \<noteq> S_syspage"
  shows "sect_end s' S_syspage \<le> sp (lsp s' j)"
proof -
  have "sect_end s S_syspage \<le> sp (lsp s j)" "i \<noteq> S_syspage \<Longrightarrow> sect_end s S_syspage \<le> sp (lsp s i)"
    using inv \<open>j \<noteq> S_syspage\<close> by (auto simp: syspage_inv_def)
  with \<open>j \<noteq> S_syspage\<close> show ?thesis
    using grow_sects(1) [OF assms(1-3)] grow_sects(2) [OF assms(1-3), of j] grow_header(2) [OF assms(1-4)]
    by (cases "i = S_syspage"; cases "j = i") (auto simp: sect_end_def)
qed

lemma grow_inv:
  assumes "grow_syspage_section i add s = Inr s'" and "grow_fits add s" and inv: "syspage_inv s"
  shows "syspage_inv s'"
proof (cases "0 < add")
  case False
  with assms show ?thesis by (simp add: grow_zero)
next
  case True
  note g = assms(1) True assms(2)
  have "0 < ssize (lsp s' S_syspage)"
    using inv grow_sects(1) [OF g] grow_header(2) [OF g inv]
    by (cases "i = S_syspage") (auto simp: syspage_inv_def)
  moreover have "total_size s' \<le> max_size s' \<and> max_size s' < 2 ^ 32"
    using inv grow_sects(4,6) [OF g] by (simp add: syspage_inv_def)
  ultimately show ?thesis
    using grow_apart [OF g inv] grow_limit [OF g inv] grow_after_header [OF g inv]
    unfolding syspage_inv_def by blast
qed

subsection \<open>Moving the page and laying out the fixed sections\<close>

lemma reloc_contents:
  assumes "syspage_inv s"
  shows "contents (reloc_syspage_memory base maxs s) j = contents s j"
proof -
  have "sp (lsp s S_syspage) \<le> sp (lsp s j)" "sect_end s j \<le> sp (lsp s S_syspage) + total_size s"
    using assms by (rule syspage_inv_base syspage_inv_limit)+
  then show ?thesis
    unfolding contents_def reloc_syspage_memory_def Let_def
    by (auto simp: memmove_def sect_end_def nat_add_distrib nat_diff_distrib
        intro!: bytes_at_cong arg_cong [where f = "mem s"])
qed

lemma reloc_inv:
  assumes "syspage_inv s" and "total_size s \<le> maxs" and "maxs < 2 ^ 32"
  shows "syspage_inv (reloc_syspage_memory base maxs s)"
proof -
  let ?o = "sp (lsp s S_syspage)" and ?s = "reloc_syspage_memory base maxs s"
  have sp': "sp (lsp ?s j) = base + (sp (lsp s j) - ?o)" "ssize (lsp ?s j) = ssize (lsp s j)" for j
    using syspage_inv_base [OF assms(1), of j] by (auto simp: reloc_syspage_memory_def Let_def)
  have rest: "total_size ?s = total_size s" "max_size ?s = maxs"
    by (simp_all add: reloc_syspage_memory_def Let_def)
  have "sect_end ?s j \<le> sp (lsp ?s k) \<longleftrightarrow> sect_end s j \<le> sp (lsp s k)" for j k
    using syspage_inv_base [OF assms(1), of j] syspage_inv_base [OF assms(1), of k]
    unfolding sect_end_def sp' by linarith
  moreover have "sect_end ?s j \<le> sp (lsp ?s S_syspage) + total_size ?s" for j
    using syspage_inv_base [OF assms(1), of j] syspage_inv_limit [OF assms(1), of j]
    by (simp add: sect_end_def sp' rest)
  ultimately show ?thesis
    using assms unfolding syspage_inv_def rest sp' by blast
qed

definition fixed_ok :: "syspage_mem \<Rightarrow> bool" where
  \<comment> \<open>no section straddles the end of the fixed sections\<close>
  "fixed_ok s \<longleftrightarrow> ssize (lsp s S_syspage) \<le> fixed_size s \<and> fixed_size s \<le> total_size s \<and>
     (\<forall>j. sect_end s j \<le> sp (lsp s S_syspage) + fixed_size s \<or>
          sp (lsp s S_syspage) + fixed_size s \<le> sp (lsp s j))"

lemma ROUND_ROUND8: "x + 8 \<le> 2 ^ 32 \<Longrightarrow> ROUND (ROUND x 8) 8 = ROUND x 8"
proof -
  assume x: "x + 8 \<le> 2 ^ 32"
  note r = ROUND8 [OF x]
  then obtain k where k: "ROUND x 8 = 8 * k" by (auto elim: dvdE)
  have "ROUND x 8 < 2 ^ 32" by (rule ROUND_less)
  then have "8 * k + 8 \<le> 2 ^ 32" unfolding k by simp
  from ROUND_pow2 [of "8 * k" 3] this have "ROUND (8 * k) 8 = (8 * k + 7) - (8 * k + 7) mod 8" by simp
  also have "\<dots> = 8 * k" by presburger
  finally show ?thesis unfolding k .
qed

text \<open>
  Placing a fixed section: the pointer is set to the end of the fixed area before the section
  grows, so the new section takes the place right behind the other fixed ones.
\<close>

lemma place_simps [simp]:
  "j \<noteq> i \<Longrightarrow> lsp (place_section i n s) j = lsp s j"
  "sp (lsp (place_section i n s) i) = sp (lsp s S_syspage) + fixed_size s"
  "ssize (lsp (place_section i n s) j) = ssize (lsp s j)"
  "total_size (place_section i n s) = total_size s" "max_size (place_section i n s) = max_size s"
  "fixed_size (place_section i n s) = fixed_size s + n" "mem (place_section i n s) = mem s"
  by (auto simp: place_section_def)

lemma place_contents: "j \<noteq> i \<Longrightarrow> contents (place_section i n s) j = contents s j"
  by (simp add: contents_def)

lemma place_inv:
  assumes inv: "syspage_inv s" and fix_ok: "fixed_ok s" and "ssize (lsp s i) = 0" and "i \<noteq> S_syspage"
  shows "syspage_inv (place_section i n s)" (is "syspage_inv ?t")
proof -
  have split: "sect_end s j \<le> sp (lsp s S_syspage) + fixed_size s \<or>
      sp (lsp s S_syspage) + fixed_size s \<le> sp (lsp s j)" for j
    using fix_ok by (simp add: fixed_ok_def)
  have "sect_end ?t j \<le> sp (lsp ?t k) \<or> sect_end ?t k \<le> sp (lsp ?t j)" if "j \<noteq> k" for j k
    using that syspage_inv_apart [OF inv that] split [of j] split [of k] assms(3)
    by (cases "j = i"; cases "k = i") (auto simp: sect_end_def)
  moreover have "sect_end ?t j \<le> sp (lsp ?t S_syspage) + total_size ?t" for j
    using syspage_inv_limit [OF inv, of j] fix_ok assms(3,4)
    by (cases "j = i") (auto simp: sect_end_def fixed_ok_def)
  moreover have "sect_end ?t S_syspage \<le> sp (lsp ?t j)" if "j \<noteq> S_syspage" for j
    using that inv fix_ok assms(4)
    by (cases "j = i") (auto simp: sect_end_def syspage_inv_def fixed_ok_def)
  ultimately show ?thesis
    using inv unfolding syspage_inv_def by simp
qed

lemma set_section_grow:
  assumes "set_syspage_section i sz s = Inr s'" and "total_size s + sz + 16 \<le> 2 ^ 32"
  shows "grow_syspage_section i (ROUND sz 8) (place_section i (ROUND sz 8) s) = Inr s'"
    and "grow_fits (ROUND sz 8) (place_section i (ROUND sz 8) s)"
    and "ROUND (ROUND sz 8) 8 = ROUND sz 8"
  using assms ROUND8 [of sz] ROUND_ROUND8 [of sz]
  by (auto simp: set_syspage_section_def Let_def grow_fits_def)

lemma set_section_inv:
  assumes "set_syspage_section i sz s = Inr s'" and "total_size s + sz + 16 \<le> 2 ^ 32"
    and "syspage_inv s" and "fixed_ok s" and "ssize (lsp s i) = 0" and "i \<noteq> S_syspage"
  shows "syspage_inv s'"
  by (rule grow_inv [OF set_section_grow(1,2) [OF assms(1,2)] place_inv [OF assms(3-6)]])

lemma set_section_contents:
  assumes "set_syspage_section i sz s = Inr s'" and "total_size s + sz + 16 \<le> 2 ^ 32"
    and "syspage_inv s" and "fixed_ok s" and "ssize (lsp s i) = 0" and "i \<noteq> S_syspage"
  shows "contents s' i = replicate (ROUND sz 8) 0" and "j \<noteq> i \<Longrightarrow> contents s' j = contents s j"
proof -
  note g = set_section_grow [OF assms(1,2)]
  have nil: "contents (place_section i n s) i = []" for n
    using assms(5) by (simp add: contents_def bytes_at_def)
  have pos: "0 < ROUND sz 8 \<or> ROUND sz 8 = 0" by blast
  show "contents s' i = replicate (ROUND sz 8) 0"
    using pos g grow_contents_self [OF g(1) _ g(2)] nil [of 0] nil [of "ROUND sz 8"]
    by (elim disjE) (auto simp: grow_zero)
  show "contents s' j = contents s j" if "j \<noteq> i"
    using pos g(1) grow_contents_other [OF g(1) _ g(2) place_inv [OF assms(3-6)] that]
    by (elim disjE) (auto simp: grow_zero place_contents that)
qed

lemma set_section_fixed_ok:
  assumes "set_syspage_section i sz s = Inr s'" and "total_size s + sz + 16 \<le> 2 ^ 32"
    and "syspage_inv s" and "fixed_ok s" and "ssize (lsp s i) = 0" and "i \<noteq> S_syspage"
  shows "fixed_ok s'"
proof (cases "0 < ROUND sz 8")
  case False
  then have "s' = place_section i 0 s" using set_section_grow(1) [OF assms(1,2)] by (simp add: grow_zero)
  then show ?thesis using assms(4-6) by (auto simp: fixed_ok_def sect_end_def place_section_def)
next
  case True
  let ?t = "place_section i (ROUND sz 8) s"
  note g0 = set_section_grow [OF assms(1,2)]
  note g = g0(1) True g0(2)
  have "sect_end s' j \<le> sp (lsp s S_syspage) + fixed_size s + ROUND sz 8 \<or>
      sp (lsp s S_syspage) + fixed_size s + ROUND sz 8 \<le> sp (lsp s' j)" for j
    using assms(4-6) grow_sects(1) [OF g] grow_sects(2) [OF g, of j] g0(3)
    by (cases "j = i") (auto simp: fixed_ok_def sect_end_def dest!: spec [where x = j])
  moreover have "lsp s' S_syspage = lsp s S_syspage"
    using grow_header(2) [OF g place_inv [OF assms(3-6)]] assms(6) by simp
  ultimately show ?thesis
    using assms(4) grow_sects(3,5) [OF g] g0(3) by (simp add: fixed_ok_def add.assoc)
qed

lemma grow_fixed_ok:
  assumes "grow_syspage_section i add s = Inr s'" and "grow_fits add s" and "syspage_inv s" and "fixed_ok s"
    and "sp (lsp s S_syspage) + fixed_size s \<le> sp (lsp s i)" and "i \<noteq> S_syspage"
  shows "fixed_ok s'"
proof (cases "0 < add")
  case True
  note g = assms(1) True assms(2)
  have "sect_end s' j \<le> sp (lsp s S_syspage) + fixed_size s \<or>
      sp (lsp s S_syspage) + fixed_size s \<le> sp (lsp s' j)" for j
    using assms(4-6) grow_sects(1) [OF g] grow_sects(2) [OF g, of j]
    by (cases "j = i") (auto simp: fixed_ok_def sect_end_def dest!: spec [where x = j])
  then show ?thesis
    using assms(4) grow_header(2) [OF g assms(3,6)] grow_sects(3,5) [OF g] by (simp add: fixed_ok_def)
qed (use assms in \<open>simp add: grow_zero\<close>)

subsection \<open>The interface the users of the page rely on\<close>

text \<open>
  The string tables, the address space list and the hardware information list see a section as
  a growable list of bytes; this is what they may assume of the page.
\<close>

locale section_store =
  fixes grow :: "sect_id \<Rightarrow> nat \<Rightarrow> 's \<Rightarrow> 'e + 's"
    and put :: "sect_id \<Rightarrow> nat \<Rightarrow> u8 list \<Rightarrow> 's \<Rightarrow> 's"
    and bytes :: "'s \<Rightarrow> sect_id \<Rightarrow> u8 list"
    and inv :: "'s \<Rightarrow> bool"
    and fits :: "nat \<Rightarrow> 's \<Rightarrow> bool"
  assumes grow_self: "grow i n s = Inr s' \<Longrightarrow> 0 < n \<Longrightarrow> fits n s \<Longrightarrow>
      bytes s' i = bytes s i @ replicate (ROUND n 8) 0"
    and grow_size: "grow i n s = Inr s' \<Longrightarrow> fits n s \<Longrightarrow> n \<le> ROUND n 8"
    and grow_other: "grow i n s = Inr s' \<Longrightarrow> 0 < n \<Longrightarrow> fits n s \<Longrightarrow> inv s \<Longrightarrow> j \<noteq> i \<Longrightarrow>
      bytes s' j = bytes s j"
    and grow_keeps: "grow i n s = Inr s' \<Longrightarrow> fits n s \<Longrightarrow> inv s \<Longrightarrow> inv s'"
    and put_self: "off + length bs \<le> length (bytes s i) \<Longrightarrow>
      bytes (put i off bs s) i = take off (bytes s i) @ bs @ drop (off + length bs) (bytes s i)"
    and put_other: "inv s \<Longrightarrow> off + length bs \<le> length (bytes s i) \<Longrightarrow> j \<noteq> i \<Longrightarrow>
      bytes (put i off bs s) j = bytes s j"
    and put_keeps: "inv s \<Longrightarrow> inv (put i off bs s)"
begin

text \<open>The users make room behind an offset and then write there.\<close>

lemma store_self:
  assumes "(if need > length (bytes s i) - off then grow i (need - (length (bytes s i) - off)) s else Inr s) = Inr s'"
    and "off \<le> length (bytes s i)" and "length bs \<le> need" and "fits (need - (length (bytes s i) - off)) s"
  shows "\<exists>k. bytes s' i = bytes s i @ replicate k 0 \<and> off + need \<le> length (bytes s i) + k \<and>
    bytes (put i off bs s') i =
      take off (bytes s i) @ bs @ drop (off + length bs) (bytes s i @ replicate k 0)"
proof (cases "need > length (bytes s i) - off")
  case True
  then have g: "grow i (need - (length (bytes s i) - off)) s = Inr s'"
    and pos: "0 < need - (length (bytes s i) - off)" using assms(1) by auto
  note b = grow_self [OF g pos assms(4)] and sz = grow_size [OF g assms(4)]
  then show ?thesis
    using assms(2,3) True
    by (intro exI [of _ "ROUND (need - (length (bytes s i) - off)) 8"]) (simp add: put_self)
next
  case False
  with assms show ?thesis by (intro exI [of _ 0]) (auto simp: put_self)
qed

end

lemma poke_simps [simp]:
  "lsp (poke i off bs s) = lsp s" "total_size (poke i off bs s) = total_size s"
  "max_size (poke i off bs s) = max_size s"
  by (simp_all add: poke_def)

lemma contents_poke_self:
  assumes "off + length bs \<le> length (contents s i)"
  shows "contents (poke i off bs s) i = take off (contents s i) @ bs @ drop (off + length bs) (contents s i)"
  using assms by (intro nth_equalityI) (auto simp: contents_def bytes_at_def poke_def nth_append)

lemma contents_poke_other:
  assumes "syspage_inv s" and "off + length bs \<le> length (contents s i)" and "j \<noteq> i"
  shows "contents (poke i off bs s) j = contents s j"
  using syspage_inv_apart [OF assms(1,3)] assms(2) unfolding contents_def poke_simps
  by (intro bytes_at_cong) (auto simp: poke_def sect_end_def bytes_at_def)

lemma poke_inv: "syspage_inv s \<Longrightarrow> syspage_inv (poke i off bs s)"
  by (simp add: syspage_inv_def poke_def sect_end_def)

interpretation page: section_store grow_syspage_section poke contents syspage_inv grow_fits
proof unfold_locales
  show "n \<le> ROUND n 8" if "grow_fits n s" for n s
    using that ROUND8 [of n] by (simp add: grow_fits_def)
  show "contents s' j = contents s j"
    if "grow_syspage_section i n s = Inr s'" "0 < n" "grow_fits n s" "syspage_inv s" "j \<noteq> i" for i n s s' j
    using that by (rule grow_contents_other)
  show "syspage_inv s'"
    if "grow_syspage_section i n s = Inr s'" "grow_fits n s" "syspage_inv s" for i n s s'
    using that by (rule grow_inv)
qed (simp_all add: grow_contents_self contents_poke_self contents_poke_other poke_inv)

subsection \<open>Initialisation\<close>

lemma start_inv:
  fixes n :: nat
  assumes "0 < n" and "n \<le> maxs" and "maxs < 2 ^ 32"
    and "lsp s = (\<lambda>_. \<lparr>sp = base + n, ssize = 0\<rparr>)(S_syspage := \<lparr>sp = base, ssize = n\<rparr>)"
    and "total_size s = n" and "max_size s = maxs" and "fixed_size s = n"
  shows "syspage_inv s \<and> fixed_ok s"
  using assms by (auto simp: syspage_inv_def fixed_ok_def sect_end_def)

definition free_sect :: "syspage_mem \<Rightarrow> sect_id \<Rightarrow> bool" where
  \<comment> \<open>an empty section behind the fixed ones\<close>
  "free_sect s i \<longleftrightarrow> i \<noteq> S_syspage \<and> ssize (lsp s i) = 0 \<and> sp (lsp s S_syspage) + fixed_size s \<le> sp (lsp s i)"

lemma set_section_free:
  assumes "set_syspage_section i sz s = Inr s'" and "total_size s + sz + 16 \<le> 2 ^ 32"
    and "syspage_inv s" and "fixed_ok s" and "free_sect s i" and "free_sect s j" and "j \<noteq> i"
  shows "free_sect s' j"
proof -
  note i = assms(5) [unfolded free_sect_def]
  note g = set_section_grow [OF assms(1,2)]
  show ?thesis
  proof (cases "0 < ROUND sz 8")
    case False
    then have "s' = place_section i 0 s" using g(1) by (simp add: grow_zero)
    moreover have "lsp (place_section i 0 s) S_syspage = lsp s S_syspage" using i by (metis place_simps(1))
    ultimately show ?thesis using assms(6,7) by (simp add: free_sect_def)
  next
    case True
    note gg = g(1) True g(2)
    have "lsp s' S_syspage = lsp s S_syspage"
      using grow_header(2) [OF gg place_inv [OF assms(3,4)]] i by (metis place_simps(1))
    then show ?thesis
      using assms(6,7) i grow_sects(2) [OF gg, of j] grow_sects(5) [OF gg] g(3)
      by (simp add: free_sect_def sect_end_def)
  qed
qed

lemma grow_free:
  assumes "grow_syspage_section i add s = Inr s'" and "grow_fits add s" and "0 < add"
    and "syspage_inv s" and "free_sect s i" and "free_sect s j" and "j \<noteq> i"
  shows "free_sect s' j"
proof -
  note g = assms(1,3,2)
  have "lsp s' S_syspage = lsp s S_syspage"
    using grow_header(2) [OF g assms(4)] assms(5) by (simp add: free_sect_def)
  then show ?thesis
    using assms(5-7) grow_sects(2) [OF g, of j] grow_sects(5) [OF g] by (simp add: free_sect_def)
qed

definition page_ok :: "sect_id set \<Rightarrow> nat \<Rightarrow> syspage_mem \<Rightarrow> bool" where
  \<comment> \<open>a page under construction: the sections of \<open>F\<close> have not been given any space yet\<close>
  "page_ok F maxs s \<longleftrightarrow> syspage_inv s \<and> fixed_ok s \<and> max_size s = maxs \<and> (\<forall>i \<in> F. free_sect s i)"

lemma page_ok_total: "page_ok F maxs s \<Longrightarrow> total_size s \<le> maxs"
  by (simp add: page_ok_def syspage_inv_def)

lemma page_ok_mono: "page_ok F maxs s \<Longrightarrow> G \<subseteq> F \<Longrightarrow> page_ok G maxs s"
  unfolding page_ok_def by blast

lemma page_ok_num_cpu [simp]: "page_ok F maxs (s\<lparr>num_cpu := n\<rparr>) = page_ok F maxs s"
  by (simp add: page_ok_def syspage_inv_def fixed_ok_def free_sect_def sect_end_def)

lemma contents_num_cpu [simp]: "contents (s\<lparr>num_cpu := n\<rparr>) j = contents s j"
  by (simp add: contents_def)

lemma page_ok_set:
  assumes "set_syspage_section i sz s = Inr s'" and "maxs + sz + 16 \<le> 2 ^ 32" and ok: "page_ok (insert i F) maxs s"
  shows "page_ok (F - {i}) maxs s'" and "j \<noteq> i \<Longrightarrow> contents s' j = contents s j"
proof -
  have fits: "total_size s + sz + 16 \<le> 2 ^ 32" using assms(2) page_ok_total [OF ok] by simp
  from ok have inv: "syspage_inv s" "fixed_ok s" and fr: "\<And>j. j \<in> insert i F \<Longrightarrow> free_sect s j"
    and mx: "max_size s = maxs" by (auto simp: page_ok_def)
  have i: "ssize (lsp s i) = 0" "i \<noteq> S_syspage" using fr [of i] by (auto simp: free_sect_def)
  note g = set_section_grow [OF assms(1) fits]
  have "max_size s' = maxs"
    using g(1) grow_sects(4) [OF g(1) _ g(2)] mx by (cases "0 < ROUND sz 8") (auto simp: grow_zero)
  then show "page_ok (F - {i}) maxs s'"
    using set_section_inv [OF assms(1) fits inv i] set_section_fixed_ok [OF assms(1) fits inv i]
      set_section_free [OF assms(1) fits inv fr [of i]] fr
    by (auto simp: page_ok_def)
  show "j \<noteq> i \<Longrightarrow> contents s' j = contents s j"
    by (rule set_section_contents(2) [OF assms(1) fits inv i])
qed

lemma page_ok_grow:
  assumes "grow_syspage_section i add s = Inr s'" and "maxs + add + 8 \<le> 2 ^ 32" and "0 < add"
    and ok: "page_ok (insert i F) maxs s"
  shows "page_ok (F - {i}) maxs s'" and "j \<noteq> i \<Longrightarrow> contents s' j = contents s j"
    and "contents s' i = replicate (ROUND add 8) 0"
proof -
  have fits: "grow_fits add s" using assms(2) page_ok_total [OF ok] by (simp add: grow_fits_def)
  from ok have inv: "syspage_inv s" "fixed_ok s" and fr: "\<And>j. j \<in> insert i F \<Longrightarrow> free_sect s j"
    and mx: "max_size s = maxs" by (auto simp: page_ok_def)
  note g = assms(1,3) fits
  have i: "ssize (lsp s i) = 0" "i \<noteq> S_syspage" "sp (lsp s S_syspage) + fixed_size s \<le> sp (lsp s i)"
    using fr [of i] by (auto simp: free_sect_def)
  show "page_ok (F - {i}) maxs s'"
    using grow_inv [OF assms(1) fits inv(1)] grow_fixed_ok [OF assms(1) fits inv i(3,2)]
      grow_free [OF assms(1) fits assms(3) inv(1) fr [of i]] fr grow_sects(4) [OF g] mx
    by (auto simp: page_ok_def)
  show "j \<noteq> i \<Longrightarrow> contents s' j = contents s j" by (rule grow_contents_other [OF g inv(1)])
  have "contents s i = []" using i(1) by (simp add: contents_def bytes_at_def)
  then show "contents s' i = replicate (ROUND add 8) 0" using grow_contents_self [OF g] by simp
qed

definition init_bounds :: "sp_sizes \<Rightarrow> nat \<Rightarrow> bool" where
  \<comment> \<open>the limit and the structure sizes are far below the 32-bit range\<close>
  "init_bounds z maxs \<longleftrightarrow> 0 < sizeof_syspage z \<and> 0 < sizeof_hwi_prefix z \<and>
     sizeof_syspage z + 8 \<le> 2 ^ 32 \<and> ROUND (sizeof_syspage z) 8 \<le> maxs \<and>
     maxs + sizeof_callout z + 16 \<le> 2 ^ 32 \<and> maxs + sizeof_callin z + 16 \<le> 2 ^ 32 \<and>
     maxs + sizeof_hwi_prefix z + 16 \<le> 2 ^ 32 \<and> maxs + sizeof_arm_cpu z + 16 \<le> 2 ^ 32"

lemma init_steps:
  assumes "init_syspage_memory z base maxs s = Inr s'" and b: "init_bounds z maxs"
  shows "\<exists>s2 s3 s4 s5 s6 s7.
    page_ok (- {S_syspage}) maxs s2 \<and>
    set_syspage_section S_callout (sizeof_callout z) s2 = Inr s3 \<and>
    set_syspage_section S_callin (sizeof_callin z) s3 = Inr s4 \<and>
    grow_syspage_section S_typed_strings 4 s4 = Inr s5 \<and>
    grow_syspage_section S_strings 1 s5 = Inr s6 \<and>
    grow_syspage_section S_hwinfo (sizeof_hwi_prefix z) s6 = Inr s7 \<and>
    set_syspage_section S_arm_cpu (sizeof_arm_cpu z) (s7\<lparr>num_cpu := 1\<rparr>) = Inr s'"
proof -
  let ?n = "ROUND (sizeof_syspage z) 8"
  define s2 where "s2 = s\<lparr>lsp := (\<lambda>_. \<lparr>sp = base + ?n, ssize = 0\<rparr>)(S_syspage := \<lparr>sp = base, ssize = ?n\<rparr>),
    mem := memset base 0 ?n (mem s), fixed_size := ?n, total_size := ?n, max_size := maxs\<rparr>"
  have n: "0 < ?n" "?n \<le> maxs" "maxs < 2 ^ 32"
    using b ROUND8 [of "sizeof_syspage z"] by (auto simp: init_bounds_def)
  have "syspage_inv s2 \<and> fixed_ok s2"
    by (rule start_inv [OF n]) (simp_all add: s2_def)
  then have "page_ok (- {S_syspage}) maxs s2" by (auto simp: page_ok_def free_sect_def s2_def)
  then show ?thesis
    using assms(1) unfolding init_syspage_memory_def cpu_init_syspage_memory_def Let_def
    by (auto simp: s2_def fun_upd_def split: sum.splits)
qed

lemma init_ok:
  assumes "init_syspage_memory z base maxs s = Inr s'" and b: "init_bounds z maxs"
  shows "page_ok (- {S_syspage, S_callout, S_callin, S_typed_strings, S_strings, S_hwinfo, S_arm_cpu}) maxs s'"
    and "contents s' S_typed_strings = replicate 8 0" and "contents s' S_strings = replicate 8 0"
proof -
  obtain s2 s3 s4 s5 s6 s7 where ok: "page_ok (- {S_syspage}) maxs s2" and
    st: "set_syspage_section S_callout (sizeof_callout z) s2 = Inr s3"
      "set_syspage_section S_callin (sizeof_callin z) s3 = Inr s4"
      "grow_syspage_section S_typed_strings 4 s4 = Inr s5" "grow_syspage_section S_strings 1 s5 = Inr s6"
      "grow_syspage_section S_hwinfo (sizeof_hwi_prefix z) s6 = Inr s7"
      "set_syspage_section S_arm_cpu (sizeof_arm_cpu z) (s7\<lparr>num_cpu := 1\<rparr>) = Inr s'"
    using init_steps [OF assms] by blast
  have bb: "maxs + sizeof_callout z + 16 \<le> 2 ^ 32" "maxs + sizeof_callin z + 16 \<le> 2 ^ 32"
    "maxs + 4 + 8 \<le> 2 ^ 32" "maxs + 1 + 8 \<le> 2 ^ 32" "maxs + sizeof_hwi_prefix z + 8 \<le> 2 ^ 32"
    "maxs + sizeof_arm_cpu z + 16 \<le> 2 ^ 32" "0 < sizeof_hwi_prefix z"
    using b by (auto simp: init_bounds_def)
  have "page_ok (insert S_callout (- {S_syspage})) maxs s2" by (rule page_ok_mono [OF ok]) auto
  note 3 = page_ok_set [OF st(1) bb(1) this]
  have "page_ok (insert S_callin (- {S_syspage, S_callout})) maxs s3" by (rule page_ok_mono [OF 3(1)]) auto
  note 4 = page_ok_set [OF st(2) bb(2) this]
  have "page_ok (insert S_typed_strings (- {S_syspage, S_callout, S_callin})) maxs s4"
    by (rule page_ok_mono [OF 4(1)]) auto
  note 5 = page_ok_grow [OF st(3) bb(3) zero_less_numeral this]
  have "page_ok (insert S_strings (- {S_syspage, S_callout, S_callin, S_typed_strings})) maxs s5"
    by (rule page_ok_mono [OF 5(1)]) auto
  note 6 = page_ok_grow [OF st(4) bb(4) zero_less_one this]
  have "page_ok (insert S_hwinfo (- {S_syspage, S_callout, S_callin, S_typed_strings, S_strings})) maxs s6"
    by (rule page_ok_mono [OF 6(1)]) auto
  note 7 = page_ok_grow [OF st(5) bb(5,7) this]
  have "page_ok (insert S_arm_cpu (- {S_syspage, S_callout, S_callin, S_typed_strings, S_strings, S_hwinfo}))
      maxs (s7\<lparr>num_cpu := 1\<rparr>)"
    unfolding page_ok_num_cpu by (rule page_ok_mono [OF 7(1)]) auto
  note 8 = page_ok_set [OF st(6) bb(6) this]
  show "page_ok (- {S_syspage, S_callout, S_callin, S_typed_strings, S_strings, S_hwinfo, S_arm_cpu}) maxs s'"
    by (rule page_ok_mono [OF 8(1)]) auto
  have r: "ROUND 4 8 = 8" "ROUND 1 8 = 8" by (simp_all add: ROUND_def TRUNC_def)
  show "contents s' S_typed_strings = replicate 8 0" "contents s' S_strings = replicate 8 0"
    using 5(3) 6(2,3) 7(2) 8(2) r by simp_all
qed

text \<open>The calls return when the page has room for what they ask for.\<close>

lemma grow_returns:
  assumes "grow_fits add s" and "total_size s + ROUND add 8 \<le> max_size s"
  shows "\<exists>s'. grow_syspage_section i add s = Inr s' \<and> total_size s' = total_size s + ROUND add 8 \<and>
    max_size s' = max_size s"
proof (cases "add = 0")
  case True
  then show ?thesis by (simp add: grow_zero ROUND_def TRUNC_def)
next
  case False
  with assms show ?thesis by (simp add: grow_syspage_section_def Let_def grow_new_size)
qed

lemma set_section_returns:
  assumes "total_size s + sz + 16 \<le> 2 ^ 32" and "total_size s + ROUND sz 8 \<le> max_size s"
  shows "\<exists>s'. set_syspage_section i sz s = Inr s' \<and> total_size s' = total_size s + ROUND sz 8 \<and>
    max_size s' = max_size s"
proof -
  have "sz \<le> ROUND sz 8" "ROUND sz 8 < sz + 8" "ROUND (ROUND sz 8) 8 = ROUND sz 8"
    using assms(1) ROUND8 [of sz] ROUND_ROUND8 [of sz] by auto
  then show ?thesis
    using assms grow_returns [of "ROUND sz 8" "place_section i (ROUND sz 8) s" i]
    by (simp add: set_syspage_section_def grow_fits_def Let_def)
qed

definition init_need :: "sp_sizes \<Rightarrow> nat" where
  "init_need z = ROUND (sizeof_syspage z) 8 + ROUND (sizeof_callout z) 8 + ROUND (sizeof_callin z) 8 + 16 +
     ROUND (sizeof_hwi_prefix z) 8 + ROUND (sizeof_arm_cpu z) 8"

lemma init_returns:
  assumes b: "init_bounds z maxs" and need: "init_need z \<le> maxs"
  shows "\<exists>s'. init_syspage_memory z base maxs s = Inr s'"
proof -
  note bb = b [unfolded init_bounds_def] and nn = need [unfolded init_need_def]
  define s2 where "s2 = s\<lparr>lsp := (\<lambda>_. \<lparr>sp = base + ROUND (sizeof_syspage z) 8, ssize = 0\<rparr>)
      (S_syspage := \<lparr>sp = base, ssize = ROUND (sizeof_syspage z) 8\<rparr>),
    mem := memset base 0 (ROUND (sizeof_syspage z) 8) (mem s), fixed_size := ROUND (sizeof_syspage z) 8,
    total_size := ROUND (sizeof_syspage z) 8, max_size := maxs\<rparr>"
  have t2: "total_size s2 = ROUND (sizeof_syspage z) 8" "max_size s2 = maxs" by (simp_all add: s2_def)
  have r: "ROUND 4 8 = 8" "ROUND 1 8 = 8" by (simp_all add: ROUND_def TRUNC_def)
  obtain s3 where s3: "set_syspage_section S_callout (sizeof_callout z) s2 = Inr s3"
    "total_size s3 = total_size s2 + ROUND (sizeof_callout z) 8" "max_size s3 = maxs"
    using set_section_returns [of s2 "sizeof_callout z" S_callout] bb nn t2 by auto
  obtain s4 where s4: "set_syspage_section S_callin (sizeof_callin z) s3 = Inr s4"
    "total_size s4 = total_size s3 + ROUND (sizeof_callin z) 8" "max_size s4 = maxs"
    using set_section_returns [of s3 "sizeof_callin z" S_callin] bb nn t2 s3 by auto
  obtain s5 where s5: "grow_syspage_section S_typed_strings 4 s4 = Inr s5"
    "total_size s5 = total_size s4 + 8" "max_size s5 = maxs"
    using grow_returns [of 4 s4 S_typed_strings] bb nn t2 s3 s4 r by (auto simp: grow_fits_def)
  obtain s6 where s6: "grow_syspage_section S_strings 1 s5 = Inr s6"
    "total_size s6 = total_size s5 + 8" "max_size s6 = maxs"
    using grow_returns [of 1 s5 S_strings] bb nn t2 s3 s4 s5 r by (auto simp: grow_fits_def)
  obtain s7 where s7: "grow_syspage_section S_hwinfo (sizeof_hwi_prefix z) s6 = Inr s7"
    "total_size s7 = total_size s6 + ROUND (sizeof_hwi_prefix z) 8" "max_size s7 = maxs"
    using grow_returns [of "sizeof_hwi_prefix z" s6 S_hwinfo] bb nn t2 s3 s4 s5 s6 by (auto simp: grow_fits_def)
  obtain s8 where s8: "set_syspage_section S_arm_cpu (sizeof_arm_cpu z) (s7\<lparr>num_cpu := 1\<rparr>) = Inr s8"
    using set_section_returns [of "s7\<lparr>num_cpu := 1\<rparr>" "sizeof_arm_cpu z" S_arm_cpu] bb nn t2 s3 s4 s5 s6 s7
    by auto
  from s3(1) s4(1) s5(1) s6(1) s7(1) s8 show ?thesis
    unfolding init_syspage_memory_def cpu_init_syspage_memory_def Let_def
    by (simp add: s2_def fun_upd_def)
qed

subsection \<open>Properties\<close>

definition demo_page :: syspage_mem where
  \<comment> \<open>a page of 4 KB at address \<open>0x1000\<close> with a header of 64 bytes and nothing else\<close>
  "demo_page = \<lparr>mem = (\<lambda>_. 0),
     lsp = (\<lambda>_. \<lparr>sp = 0x1040, ssize = 0\<rparr>)(S_syspage := \<lparr>sp = 0x1000, ssize = 64\<rparr>),
     total_size = 64, max_size = 4096, fixed_size = 64, num_cpu = 1, patch_owners = []\<rparr>"

lemma demo_page_ok: "syspage_inv demo_page \<and> fixed_ok demo_page"
  by (rule start_inv [where n = 64 and maxs = 4096 and base = "0x1000"]) (simp_all add: demo_page_def)

lemma ROUND8_examples: "ROUND 5 8 = 8" "ROUND 1 8 = 8" "ROUND 4 8 = 8" "ROUND 8 8 = 8"
  by (simp_all add: ROUND_def TRUNC_def)

text \<open>
  C7: \<open>grow_syspage_section\<close> either reports that the request exceeds the limit of the page (and
  only then), or appends zero bytes, a multiple of eight, to the section, leaves the contents of
  every other section as they were, and keeps the layout: no two sections overlap and all of
  them lie inside the page.
\<close>

theorem grow_syspage_section_correct:
  assumes "syspage_inv s" and "grow_fits add s" and "0 < add"
  shows "case grow_syspage_section i add s of
      Inl e \<Rightarrow> e = Syspage_overflow (total_size s + ROUND add 8) (max_size s) \<and>
               max_size s < total_size s + ROUND add 8
    | Inr s' \<Rightarrow> total_size s + ROUND add 8 \<le> max_size s \<and> syspage_inv s' \<and>
               contents s' i = contents s i @ replicate (ROUND add 8) 0 \<and>
               (\<forall>j. j \<noteq> i \<longrightarrow> contents s' j = contents s j)"
proof (cases "grow_syspage_section i add s")
  case (Inl e)
  with assms show ?thesis
    by (simp add: grow_syspage_section_def Let_def grow_new_size split: if_splits)
next
  case (Inr s')
  note g = Inr assms(3,2)
  have "total_size s + ROUND add 8 \<le> max_size s" using grow_sects(3,6) [OF g] by simp
  then show ?thesis
    using Inr assms(1) grow_inv [OF Inr assms(2,1)] page.grow_self [OF g] page.grow_other [OF g assms(1)]
    by simp
qed

theorem grow_syspage_section_correct_witness:
  "syspage_inv demo_page \<and> grow_fits 5 demo_page \<and>
   (case grow_syspage_section S_strings 5 demo_page of Inl e \<Rightarrow> False
    | Inr s' \<Rightarrow> syspage_inv s' \<and> contents s' S_strings = replicate 8 0)"
proof -
  have f: "grow_fits 5 demo_page" by (simp add: grow_fits_def demo_page_def)
  have c: "contents demo_page S_strings = []" by (simp add: contents_def bytes_at_def demo_page_def)
  have "total_size demo_page = 64" "max_size demo_page = 4096" by (simp_all add: demo_page_def)
  then show ?thesis
    using demo_page_ok f c grow_syspage_section_correct [of demo_page 5 S_strings]
    by (auto simp: ROUND8_examples split: sum.splits)
qed

text \<open>
  C34: \<open>reloc_syspage_memory\<close> moves the page to the bigger block that \<open>add_ram\<close> found: every
  section has the bytes it had, the layout invariant holds at the new address and the new limit
  is in force.
\<close>

theorem reloc_syspage_memory_correct:
  assumes "syspage_inv s" and "total_size s \<le> maxs" and "maxs < 2 ^ 32"
  shows "syspage_inv (reloc_syspage_memory base maxs s) \<and>
    sp (lsp (reloc_syspage_memory base maxs s) S_syspage) = base \<and>
    max_size (reloc_syspage_memory base maxs s) = maxs \<and>
    (\<forall>j. contents (reloc_syspage_memory base maxs s) j = contents s j)"
  using reloc_inv [OF assms] reloc_contents [OF assms(1)]
  by (simp add: reloc_syspage_memory_def Let_def)

theorem reloc_syspage_memory_correct_witness:
  "syspage_inv (reloc_syspage_memory 0x8000 32768 demo_page) \<and>
   sp (lsp (reloc_syspage_memory 0x8000 32768 demo_page) S_syspage) = 0x8000"
  using demo_page_ok reloc_syspage_memory_correct [of demo_page 32768 "0x8000"]
  by (simp add: demo_page_def)

text \<open>
  \<open>init_syspage_memory\<close> returns whenever the limit has room for the fixed structures, and
  then leaves a well laid out page whose two string tables are empty (eight zero bytes each) and
  in which no section straddles the end of the fixed ones, whatever the sizes of those
  structures are.
\<close>

theorem init_syspage_memory_correct:
  assumes "init_bounds z maxs" and "init_need z \<le> maxs"
  shows "\<exists>s'. init_syspage_memory z base maxs s = Inr s' \<and> syspage_inv s' \<and> fixed_ok s' \<and>
    max_size s' = maxs \<and>
    contents s' S_typed_strings = replicate 8 0 \<and> contents s' S_strings = replicate 8 0"
proof -
  obtain s' where s': "init_syspage_memory z base maxs s = Inr s'"
    using init_returns [OF assms] by blast
  with init_ok [OF s' assms(1)] show ?thesis by (auto simp: page_ok_def)
qed

definition demo_sizes :: sp_sizes where
  "demo_sizes = \<lparr>sizeof_syspage = 64, sizeof_callout = 16, sizeof_callin = 8,
     sizeof_hwi_prefix = 4, sizeof_arm_cpu = 8\<rparr>"

theorem init_syspage_memory_correct_witness:
  "init_bounds demo_sizes 4096 \<and> init_need demo_sizes \<le> 4096 \<and>
   (\<exists>s'. init_syspage_memory demo_sizes 0x2000 4096 demo_page = Inr s' \<and> syspage_inv s' \<and>
     contents s' S_strings = replicate 8 0)"
proof -
  have b: "init_bounds demo_sizes 4096" "init_need demo_sizes \<le> 4096"
    by (simp_all add: init_bounds_def init_need_def demo_sizes_def ROUND_def TRUNC_def)
  then show ?thesis using init_syspage_memory_correct [OF b] by blast
qed

end
