(* ===== verification/Strings.thy ===== *)
theory Strings
  imports Syspage
begin

section \<open>String tables\<close>

text \<open>
  \<^verbatim>\<open>startup/lib/strings.c\<close> and the string lookup of \<^verbatim>\<open>hwi_alloc.c\<close>. The \<open>strings\<close> section holds
  zero-terminated strings one behind the other, ended by an empty string; \<open>add_string\<close> returns
  the offset of a string, entering it only when it is not there. The \<open>typed_strings\<close> section
  holds pairs of a 32-bit type and a zero-terminated string, padded to four bytes, ended by the
  type \<open>_CS_NONE\<close>; that this is 0 is what \<open>init_syspage_memory\<close> relies on, which only zeroes the
  section.

  A C string is the list of its bytes without the terminator. Where the code would run past the
  end of the section the model returns \<open>Bad_section\<close> (\<open>None\<close> in the scanning loops).
\<close>

type_synonym cstr = "u8 list"

definition str :: "string \<Rightarrow> cstr" where
  "str s = map of_char s"

definition cstr_of :: "u8 list \<Rightarrow> cstr" where
  "cstr_of bs = takeWhile (\<lambda>c. c \<noteq> 0) bs"

definition strlen :: "u8 list \<Rightarrow> nat" where
  "strlen bs = length (cstr_of bs)"

definition hwi_find_string :: "syspage_mem \<Rightarrow> nat \<Rightarrow> cstr" where
  "hwi_find_string s off = cstr_of (drop off (contents s S_strings))"

subsection \<open>The table of strings\<close>

function str_scan :: "cstr \<Rightarrow> nat \<Rightarrow> u8 list \<Rightarrow> (bool \<times> nat) option" where
  \<comment> \<open>the loop of \<open>add_string\<close>: whether the name was found, and the offset it stopped at\<close>
  "str_scan name i [] = None"
| "str_scan name i (b # bs) =
     (if b = 0 then Some (False, i)
      else if 0 \<notin> set (b # bs) then None
      else if name = cstr_of (b # bs) then Some (True, i)
      else str_scan name (i + (strlen (b # bs) + 1)) (drop (strlen (b # bs) + 1) (b # bs)))"
  by pat_completeness auto
termination
  by (relation "measure (\<lambda>(name, i, bs). length bs)") auto

definition add_string :: "cstr \<Rightarrow> syspage_mem \<Rightarrow> startup_error + nat \<times> syspage_mem" where
  "add_string name s =
     (case str_scan name 0 (contents s S_strings) of
        None \<Rightarrow> Inl (Bad_section S_strings)
      | Some (True, i) \<Rightarrow> Inr (i, s)
      | Some (False, i) \<Rightarrow>
          let len = length name + 2;
              spare = length (contents s S_strings) - i
          in case (if len > spare then grow_syspage_section S_strings (len - spare) s else Inr s) of
               Inl e \<Rightarrow> Inl e
             | Inr s' \<Rightarrow> Inr (i, poke S_strings i (name @ [0]) s'))"

subsection \<open>The table of typed strings\<close>

definition le32 :: "u8 list \<Rightarrow> u32" where
  \<comment> \<open>the 32-bit value at the start of a list of bytes, little endian\<close>
  "le32 bs = ucast (bs ! 0) OR push_bit 8 (ucast (bs ! 1)) OR
             push_bit 16 (ucast (bs ! 2)) OR push_bit 24 (ucast (bs ! 3))"

definition bytes32 :: "u32 \<Rightarrow> u8 list" where
  "bytes32 w = [ucast w, ucast (drop_bit 8 w), ucast (drop_bit 16 w), ucast (drop_bit 24 w)]"

definition CS_NONE :: u32 where
  "CS_NONE = 0"

function find_typed :: "u32 \<Rightarrow> u8 list \<Rightarrow> nat \<Rightarrow> int option" where
  \<comment> \<open>the loop of \<open>find_typed_string\<close>; \<open>None\<close> when it leaves the section\<close>
  "find_typed ty p i =
     (if i + 4 > length p then None
      else if le32 (drop i p) = ty then Some (int i)
      else if le32 (drop i p) = CS_NONE then Some (- 1)
      else let i1 = i + 4;
               i2 = ROUND (i1 + (strlen (drop i1 p) + 1)) 4
           in if i2 \<le> i then None else find_typed ty p i2)"
  by pat_completeness auto
termination
  by (relation "measure (\<lambda>(ty, p, i). length p - i)") auto

declare find_typed.simps [simp del]

definition find_typed_string :: "u32 \<Rightarrow> u8 list \<Rightarrow> int option" where
  "find_typed_string ty p = find_typed ty p 0"

function copy_down :: "u8 list \<Rightarrow> nat \<Rightarrow> nat \<Rightarrow> nat \<Rightarrow> u8 list \<times> nat \<times> nat" where
  "copy_down p i j e = (if j < e then copy_down (p[i := p ! j]) (i + 1) (j + 1) e else (p, i, j))"
  by pat_completeness auto
termination
  by (relation "measure (\<lambda>(p, i, j, e). e - j)") auto

function zero_fill :: "u8 list \<Rightarrow> nat \<Rightarrow> nat \<Rightarrow> u8 list" where
  "zero_fill p i j = (if i < j then zero_fill (p[i := 0]) (i + 1) j else p)"
  by pat_completeness auto
termination
  by (relation "measure (\<lambda>(p, i, j). j - i)") auto

declare copy_down.simps [simp del] zero_fill.simps [simp del]

definition del_typed :: "u32 \<Rightarrow> u8 list \<Rightarrow> (bool \<times> u8 list) option" where
  \<comment> \<open>\<open>del_typed_string\<close> on the bytes of the section\<close>
  "del_typed ty p =
     (case find_typed_string ty p of
        None \<Rightarrow> None
      | Some i \<Rightarrow>
          if i < 0 then Some (False, p)
          else
            let i = nat i;
                j = ROUND (i + (strlen (drop (i + 4) p) + 1)) 4
            in case find_typed_string CS_NONE p of
                 None \<Rightarrow> None
               | Some e \<Rightarrow>
                   let (p1, i1, j1) = copy_down p i j (nat e)
                   in Some (True, zero_fill p1 i1 j1))"

definition add_typed_string :: "u32 \<Rightarrow> cstr \<Rightarrow> syspage_mem \<Rightarrow> startup_error + nat \<times> syspage_mem" where
  "add_typed_string ty name s =
     (case del_typed ty (contents s S_typed_strings) of
        None \<Rightarrow> Inl (Bad_section S_typed_strings)
      | Some (_, p) \<Rightarrow>
          (case find_typed_string CS_NONE p of
             None \<Rightarrow> Inl (Bad_section S_typed_strings)
           | Some i \<Rightarrow>
               let s1 = poke S_typed_strings 0 p s;
                   len = ROUND (length name + 1) 4;
                   need = len + 8;
                   spare = length p - nat i
               in case (if spare < need then grow_syspage_section S_typed_strings (need - spare) s1
                        else Inr s1) of
                    Inl e \<Rightarrow> Inl e
                  | Inr s2 \<Rightarrow>
                      Inr (nat i, poke S_typed_strings (nat i + 4) (name @ [0])
                                    (poke S_typed_strings (nat i) (bytes32 ty) s2))))"

subsection \<open>The table of strings as a list of names\<close>

definition packed :: "cstr list \<Rightarrow> u8 list" where
  "packed ss = concat (map (\<lambda>s. s @ [0]) ss)"

definition good_name :: "cstr \<Rightarrow> bool" where
  "good_name s \<longleftrightarrow> s \<noteq> [] \<and> 0 \<notin> set s"

definition str_table :: "cstr list \<Rightarrow> syspage_mem \<Rightarrow> bool" where
  \<comment> \<open>the section holds exactly these names, each of them once\<close>
  "str_table ss s \<longleftrightarrow> distinct ss \<and> (\<forall>x \<in> set ss. good_name x) \<and>
     (\<exists>k > 0. contents s S_strings = packed ss @ replicate k 0)"

definition str_off :: "cstr \<Rightarrow> cstr list \<Rightarrow> nat" where
  \<comment> \<open>where a name of the list is in the table\<close>
  "str_off name ss = length (packed (takeWhile (\<lambda>s. s \<noteq> name) ss))"

lemma packed_simps [simp]:
  "packed [] = []" "packed (x # xs) = x @ 0 # packed xs" "packed (xs @ ys) = packed xs @ packed ys"
  by (simp_all add: packed_def)

lemma cstr_of_append [simp]: "0 \<notin> set x \<Longrightarrow> cstr_of (x @ 0 # bs) = x"
  by (induction x) (auto simp: cstr_of_def)

lemma strlen_append [simp]: "0 \<notin> set x \<Longrightarrow> strlen (x @ 0 # bs) = length x"
  by (simp add: strlen_def)

lemma str_scan_step:
  assumes "good_name x"
  shows "str_scan name i (x @ 0 # bs) =
    (if name = x then Some (True, i) else str_scan name (i + length x + 1) bs)"
proof -
  obtain c cs where x: "x = c # cs" using assms by (cases x) (auto simp: good_name_def)
  have n0: "0 \<notin> set x" "c \<noteq> 0" using assms by (auto simp: good_name_def x)
  have "cstr_of (c # cs @ 0 # bs) = x" "strlen (c # cs @ 0 # bs) = length x"
    using n0(1) cstr_of_append [of x bs] strlen_append [of x bs] by (simp_all add: x)
  then show ?thesis using n0 by (simp add: x)
qed

lemma str_scan_table:
  assumes "\<forall>x \<in> set ss. good_name x" and "0 < k"
  shows "str_scan name i (packed ss @ replicate k 0) =
    Some (name \<in> set ss, i + str_off name ss)"
  using assms(1)
proof (induction ss arbitrary: i)
  case Nil
  then show ?case using assms(2) by (cases k) (auto simp: str_off_def)
next
  case (Cons x xs)
  then show ?case by (auto simp: str_scan_step str_off_def)
qed

lemma str_off_snoc: "name \<notin> set ss \<Longrightarrow> str_off name (ss @ [name]) = length (packed ss)"
  by (simp add: str_off_def takeWhile_append)

lemma str_off_new: "name \<notin> set ss \<Longrightarrow> str_off name ss = length (packed ss)"
proof -
  assume "name \<notin> set ss"
  then have eq: "takeWhile (\<lambda>s. s \<noteq> name) ss = ss" by (auto simp: takeWhile_eq_all_conv)
  show ?thesis unfolding str_off_def eq ..
qed

lemma str_off_old: "x \<in> set ss \<Longrightarrow> str_off x (ss @ ys) = str_off x ss"
  by (simp add: str_off_def takeWhile_append1)

lemma drop_str_off:
  assumes "x \<in> set ss"
  shows "\<exists>zs. drop (str_off x ss) (packed ss @ ys) = x @ 0 # zs"
  using assms
proof (induction ss)
  case (Cons y ss)
  then show ?case by (cases "x = y") (auto simp: str_off_def)
qed simp

lemma find_string_table:
  assumes "str_table ss s" and "x \<in> set ss"
  shows "hwi_find_string s (str_off x ss) = x"
proof -
  obtain k where "contents s S_strings = packed ss @ replicate k 0" and "good_name x"
    using assms by (auto simp: str_table_def)
  with drop_str_off [OF assms(2), of "replicate k 0"] show ?thesis
    by (auto simp: hwi_find_string_def good_name_def)
qed

lemma add_string_found:
  assumes "str_table ss s" and "name \<in> set ss"
  shows "add_string name s = Inr (str_off name ss, s)"
  using assms by (auto simp: add_string_def str_table_def str_scan_table)

lemma add_string_new:
  assumes inv: "syspage_inv s" and tab: "str_table ss s" and "name \<notin> set ss" and "good_name name"
    and fits: "grow_fits (length name + 2) s" and add: "add_string name s = Inr (i, s')"
  shows "i = length (packed ss)" and "str_table (ss @ [name]) s'" and "syspage_inv s'"
    and "j \<noteq> S_strings \<Longrightarrow> contents s' j = contents s j"
proof -
  obtain k where k: "0 < k" "contents s S_strings = packed ss @ replicate k 0"
    and ss: "\<forall>x \<in> set ss. good_name x" "distinct ss"
    using tab by (auto simp: str_table_def)
  let ?n = "length (packed ss)" and ?len = "length name + 2"
  have scan: "str_scan name 0 (contents s S_strings) = Some (False, ?n)"
    using str_scan_table [OF ss(1) k(1), of name 0] assms(3) by (simp add: k(2) str_off_new)
  define st where "st = (if ?len > length (contents s S_strings) - ?n
    then grow_syspage_section S_strings (?len - (length (contents s S_strings) - ?n)) s else Inr s)"
  have "case st of Inl e \<Rightarrow> False | Inr t \<Rightarrow> i = ?n \<and> s' = poke S_strings ?n (name @ [0]) t"
    using add scan by (auto simp: add_string_def st_def Let_def split: sum.splits)
  then obtain t where t: "st = Inr t" and i: "i = ?n" and s': "s' = poke S_strings ?n (name @ [0]) t"
    by (cases st) auto
  show "i = length (packed ss)" by (rule i)
  have f: "grow_fits (?len - (length (contents s S_strings) - ?n)) s"
    using fits by (auto simp: grow_fits_def)
  obtain m where m: "contents t S_strings = contents s S_strings @ replicate m 0"
    "?n + ?len \<le> length (contents s S_strings) + m"
    "contents s' S_strings = take ?n (contents s S_strings) @ (name @ [0]) @
       drop (?n + length (name @ [0])) (contents s S_strings @ replicate m 0)"
    using page.store_self [OF t [unfolded st_def] _ _ f, of "name @ [0]"] unfolding s' k(2) by auto
  have "contents s' S_strings = packed (ss @ [name]) @ replicate (k + m - Suc (length name)) 0"
    unfolding m(3) k(2) by (simp add: replicate_add [symmetric])
  moreover have "0 < k + m - Suc (length name)" using m(2) by (simp add: k(2))
  ultimately show "str_table (ss @ [name]) s'"
    using ss assms(3,4) unfolding str_table_def by auto
  have inv_t: "syspage_inv t"
    using t inv f page.grow_keeps unfolding st_def by (auto split: if_splits)
  then show "syspage_inv s'" unfolding s' by (rule page.put_keeps)
  have room: "?n + length (name @ [0]) \<le> length (contents t S_strings)" using m(1,2) by simp
  show "contents s' j = contents s j" if "j \<noteq> S_strings"
  proof -
    have "contents s' j = contents t j" unfolding s' by (rule page.put_other [OF inv_t room that])
    also have "\<dots> = contents s j"
      using t inv f that page.grow_other unfolding st_def by (auto split: if_splits)
    finally show ?thesis .
  qed
qed

lemma grow_max: "grow_syspage_section i n s = Inr s' \<Longrightarrow> max_size s' = max_size s"
  by (auto simp: grow_syspage_section_def Let_def split: if_splits)

lemma add_string_max: "add_string name s = Inr (i, s') \<Longrightarrow> max_size s' = max_size s"
  by (auto simp: add_string_def Let_def grow_max split: option.splits bool.splits sum.splits if_splits)

text \<open>What the users of the table need of a successful call.\<close>

lemma add_string_ok:
  assumes "syspage_inv s" and "str_table ss s" and "good_name name" and "grow_fits (length name + 2) s"
    and "add_string name s = Inr (i, s')"
  shows "\<exists>ys. str_table (ss @ ys) s' \<and> syspage_inv s' \<and> name \<in> set (ss @ ys) \<and> i = str_off name (ss @ ys)"
proof (cases "name \<in> set ss")
  case True
  then show ?thesis using assms add_string_found [OF assms(2) True] by (intro exI [of _ "[]"]) auto
next
  case False
  note n = add_string_new [OF assms(1,2) False assms(3,4,5)]
  then show ?thesis using str_off_snoc [OF False] by (intro exI [of _ "[name]"]) auto
qed

lemma add_string_Inl:
  assumes "str_table ss s" and "add_string name s = Inl e" and "grow_fits (length name + 2) s"
  shows "name \<notin> set ss \<and> (\<exists>n. e = Syspage_overflow n (max_size s))"
proof -
  have "name \<notin> set ss" using assms(1,2) add_string_found by fastforce
  moreover from this assms(1) have "str_scan name 0 (contents s S_strings) = Some (False, str_off name ss)"
    by (auto simp: str_table_def str_scan_table)
  ultimately show ?thesis
    using assms(2)
    by (auto simp: add_string_def grow_syspage_section_def Let_def split: sum.splits if_splits)
qed

lemma add_string_returns:
  assumes "str_table ss s" and "grow_fits (length name + 2) s" and "total_size s + length name + 9 \<le> max_size s"
  shows "\<exists>i s'. add_string name s = Inr (i, s') \<and> total_size s' \<le> total_size s + length name + 9"
proof (cases "name \<in> set ss")
  case True
  then show ?thesis using add_string_found [OF assms(1) True] by auto
next
  case False
  then have scan: "str_scan name 0 (contents s S_strings) = Some (False, str_off name ss)"
    using assms(1) by (auto simp: str_table_def str_scan_table)
  define n where "n = length name + 2 - (length (contents s S_strings) - str_off name ss)"
  have n: "n \<le> length name + 2" by (simp add: n_def)
  have f: "grow_fits n s" using assms(2) n by (simp add: grow_fits_def)
  have "ROUND n 8 < n + 8" using ROUND_bounds(2) [of n 3] f by (simp add: grow_fits_def)
  then have "total_size s + ROUND n 8 \<le> max_size s" using assms(3) n by simp
  from grow_returns [OF f this, of S_strings] obtain t where
    t: "grow_syspage_section S_strings n s = Inr t" "total_size t = total_size s + ROUND n 8" by blast
  have "\<exists>b. add_string name s = (case (if b then grow_syspage_section S_strings n s else Inr s) of
      Inl e \<Rightarrow> Inl e | Inr s' \<Rightarrow> Inr (str_off name ss, poke S_strings (str_off name ss) (name @ [0]) s'))"
    unfolding add_string_def scan n_def Let_def option.case prod.case bool.case by (rule exI) (rule refl)
  then show ?thesis
    using t \<open>ROUND n 8 < n + 8\<close> n by (auto simp: poke_def split: if_splits)
qed

subsection \<open>The table of typed strings as a list of pairs\<close>

definition pad :: "cstr \<Rightarrow> nat" where
  "pad n = ROUND (length n + 1) 4 - length n"

definition entry_bytes :: "u32 \<times> cstr \<Rightarrow> u8 list" where
  "entry_bytes e = bytes32 (fst e) @ snd e @ replicate (pad (snd e)) 0"

definition typed_packed :: "(u32 \<times> cstr) list \<Rightarrow> u8 list" where
  "typed_packed es = concat (map entry_bytes es)"

definition good_entry :: "u32 \<times> cstr \<Rightarrow> bool" where
  "good_entry e \<longleftrightarrow> fst e \<noteq> CS_NONE \<and> 0 \<notin> set (snd e) \<and> length (snd e) + 5 \<le> 2 ^ 32"

definition typed_off :: "u32 \<Rightarrow> (u32 \<times> cstr) list \<Rightarrow> nat" where
  "typed_off ty es = length (typed_packed (takeWhile (\<lambda>e. fst e \<noteq> ty) es))"

lemma ROUND4: "x + 4 \<le> 2 ^ 32 \<Longrightarrow> x \<le> ROUND x 4 \<and> ROUND x 4 < x + 4 \<and> 4 dvd ROUND x 4"
  using ROUND_bounds [of x 2] by simp

lemma ROUND4_unique:
  fixes x y :: nat
  assumes "x + 4 \<le> 2 ^ 32" and "4 dvd y" and "x \<le> y" and "y < x + 4"
  shows "ROUND x 4 = y"
  using ROUND4 [OF assms(1)] assms(2-4) by presburger

lemma le32_bytes32 [simp]: "le32 (bytes32 w @ xs) = w"
proof (rule bit_word_eqI)
  fix n assume "n < LENGTH(32)"
  then show "bit (le32 (bytes32 w @ xs)) n \<longleftrightarrow> bit w n"
    by (cases "n < 8"; cases "n < 16"; cases "n < 24") (auto simp: le32_def bytes32_def bit_simps)
qed

lemma length_bytes32 [simp]: "length (bytes32 w) = 4"
  by (simp add: bytes32_def)

lemma length_entry:
  assumes "length (snd e) + 5 \<le> 2 ^ 32"
  shows "length (entry_bytes e) = 4 + ROUND (length (snd e) + 1) 4"
  using ROUND4 [of "length (snd e) + 1"] assms by (simp add: entry_bytes_def pad_def)

lemma strlen_padded: "0 \<notin> set n \<Longrightarrow> 0 < k \<Longrightarrow> strlen (n @ replicate k 0 @ rest) = length n"
  by (cases k) auto

lemma cstr_of_padded: "0 \<notin> set n \<Longrightarrow> 0 < k \<Longrightarrow> cstr_of (n @ replicate k 0 @ rest) = n"
  by (cases k) auto

lemma pad_pos: "length n + 5 \<le> 2 ^ 32 \<Longrightarrow> 0 < pad n"
  using ROUND4 [of "length n + 1"] by (simp add: pad_def)

lemma find_typed_step:
  assumes p: "p = pre @ entry_bytes e @ rest" and "4 dvd length pre" and e: "good_entry e"
    and "length p + 4 \<le> 2 ^ 32"
  shows "find_typed ty p (length pre) =
    (if fst e = ty then Some (int (length pre))
     else find_typed ty p (length pre + length (entry_bytes e)))"
proof -
  have len: "length (snd e) + 5 \<le> 2 ^ 32" using e by (simp add: good_entry_def)
  note r = ROUND4 [of "length (snd e) + 1"] and le = length_entry [OF len]
  have d: "le32 (drop (length pre) p) = fst e" "length pre + 4 \<le> length p"
    by (simp_all add: p entry_bytes_def)
  have "drop (length pre + 4) p = snd e @ replicate (pad (snd e)) 0 @ rest"
    by (simp add: p entry_bytes_def)
  then have sl: "strlen (drop (length pre + 4) p) = length (snd e)"
    using e pad_pos [OF len] by (simp add: strlen_padded good_entry_def)
  have nxt: "ROUND (length pre + 4 + (strlen (drop (length pre + 4) p) + 1)) 4 = length pre + length (entry_bytes e)"
    unfolding sl le
    using r len assms(2,4) le by (intro ROUND4_unique) (auto simp: p)
  show ?thesis
    using e d nxt le by (subst find_typed.simps) (auto simp: good_entry_def Let_def)
qed

lemma typed_packed_simps [simp]:
  "typed_packed [] = []" "typed_packed (e # es) = entry_bytes e @ typed_packed es"
  "typed_packed (es @ fs) = typed_packed es @ typed_packed fs"
  by (simp_all add: typed_packed_def)

lemma entry_align: "good_entry e \<Longrightarrow> 4 dvd length (entry_bytes e)"
  using ROUND4 [of "length (snd e) + 1"] by (simp add: good_entry_def length_entry)

lemma packed_align: "\<forall>e \<in> set es. good_entry e \<Longrightarrow> 4 dvd length (typed_packed es)"
  by (induction es) (auto simp: entry_align)

lemma find_typed_table:
  assumes "\<forall>e \<in> set es. good_entry e" and "4 dvd length pre" and "4 \<le> k"
    and "length pre + length (typed_packed es) + k + 4 \<le> 2 ^ 32"
  shows "find_typed ty (pre @ typed_packed es @ replicate k 0) (length pre) =
    (if ty \<in> fst ` set es \<or> ty = CS_NONE then Some (int (length pre + typed_off ty es)) else Some (- 1))"
  using assms
proof (induction es arbitrary: pre)
  case Nil
  have "le32 (replicate k 0) = 0" using Nil.prems(3) by (simp add: le32_def)
  then show ?case using Nil.prems(3) by (subst find_typed.simps) (simp add: typed_off_def CS_NONE_def)
next
  case (Cons e es)
  have e: "good_entry e" and es: "\<forall>e \<in> set es. good_entry e" using Cons.prems(1) by auto
  let ?p = "pre @ typed_packed (e # es) @ replicate k 0"
  have "find_typed ty ?p (length pre) = (if fst e = ty then Some (int (length pre))
     else find_typed ty ?p (length pre + length (entry_bytes e)))"
    using Cons.prems(2,4) e by (intro find_typed_step [where rest = "typed_packed es @ replicate k 0"]) auto
  moreover have "find_typed ty ?p (length pre + length (entry_bytes e)) =
      (if ty \<in> fst ` set es \<or> ty = CS_NONE
       then Some (int (length pre + length (entry_bytes e) + typed_off ty es)) else Some (- 1))"
    using Cons.IH [of "pre @ entry_bytes e"] es entry_align [OF e] Cons.prems(2-4) by simp
  moreover have "fst e \<noteq> CS_NONE" using e by (simp add: good_entry_def)
  ultimately show ?case by (auto simp: typed_off_def)
qed

definition typed_table :: "(u32 \<times> cstr) list \<Rightarrow> syspage_mem \<Rightarrow> bool" where
  \<comment> \<open>the section holds exactly these typed strings, each type once\<close>
  "typed_table es s \<longleftrightarrow> distinct (map fst es) \<and> (\<forall>e \<in> set es. good_entry e) \<and>
     (\<exists>k \<ge> 4. contents s S_typed_strings = typed_packed es @ replicate k 0) \<and>
     length (contents s S_typed_strings) + 4 \<le> 2 ^ 32"

lemma find_typed_string_table:
  assumes "typed_table es s"
  shows "find_typed_string ty (contents s S_typed_strings) =
    (if ty \<in> fst ` set es \<or> ty = CS_NONE then Some (int (typed_off ty es)) else Some (- 1))"
proof -
  obtain k where "4 \<le> k" "contents s S_typed_strings = typed_packed es @ replicate k 0"
    using assms by (auto simp: typed_table_def)
  moreover have "\<forall>e \<in> set es. good_entry e" "length (contents s S_typed_strings) + 4 \<le> 2 ^ 32"
    using assms by (auto simp: typed_table_def)
  ultimately show ?thesis
    using find_typed_table [of es "[]" k ty] by (simp add: find_typed_string_def)
qed

lemma typed_off_new: "ty \<notin> fst ` set es \<Longrightarrow> typed_off ty es = length (typed_packed es)"
proof -
  assume "ty \<notin> fst ` set es"
  then have eq: "takeWhile (\<lambda>e. fst e \<noteq> ty) es = es" by (auto simp: takeWhile_eq_all_conv)
  show ?thesis unfolding typed_off_def eq ..
qed

lemma typed_off_old: "ty \<in> fst ` set es \<Longrightarrow> typed_off ty (es @ fs) = typed_off ty es"
  by (auto simp: typed_off_def takeWhile_append1)

lemma poke_id: "poke i 0 (contents s i) s = s"
  by (cases s) (auto simp: poke_def contents_def bytes_at_def fun_eq_iff)

lemma drop_typed_off:
  assumes "(ty, name) \<in> set es" and "distinct (map fst es)" and "\<forall>e \<in> set es. good_entry e"
  shows "\<exists>zs. drop (typed_off ty es) (typed_packed es @ ys) = entry_bytes (ty, name) @ zs"
  using assms
proof (induction es)
  case (Cons e es)
  show ?case
  proof (cases "fst e = ty")
    case True
    with Cons.prems have "e = (ty, name)" by (cases e) (auto simp: image_iff dest: bspec)
    with True show ?thesis by (auto simp: typed_off_def)
  next
    case False
    then show ?thesis using Cons by (auto simp: typed_off_def)
  qed
qed simp

lemma typed_table_string:
  assumes "typed_table es s" and "(ty, name) \<in> set es"
  shows "cstr_of (drop (typed_off ty es + 4) (contents s S_typed_strings)) = name"
proof -
  obtain k where k: "contents s S_typed_strings = typed_packed es @ replicate k 0"
    and g: "good_entry (ty, name)"
    using assms by (auto simp: typed_table_def)
  obtain zs where "drop (typed_off ty es) (contents s S_typed_strings) = entry_bytes (ty, name) @ zs"
    using drop_typed_off [OF assms(2), of "replicate k 0"] assms(1) k by (auto simp: typed_table_def)
  then have "drop 4 (drop (typed_off ty es) (contents s S_typed_strings)) = name @ replicate (pad name) 0 @ zs"
    by (simp add: entry_bytes_def)
  then show ?thesis
    using g pad_pos [of name] by (simp add: drop_drop add.commute good_entry_def cstr_of_padded)
qed

lemma contents_le_max: "syspage_inv s \<Longrightarrow> length (contents s i) \<le> max_size s"
proof -
  assume inv: "syspage_inv s"
  then have "total_size s \<le> max_size s" by (simp add: syspage_inv_def)
  with syspage_inv_limit [OF inv, of i] syspage_inv_base [OF inv, of i] show ?thesis
    unfolding sect_end_def length_contents by linarith
qed

lemma poke_twice:
  assumes "contents t i = xs @ replicate m 0" and "length bs + length cs \<le> m"
  shows "contents (poke i (length xs + length bs) cs (poke i (length xs) bs t)) i =
    xs @ bs @ cs @ replicate (m - (length bs + length cs)) 0"
  using assms by (simp add: contents_poke_self)

lemma del_typed_absent:
  assumes "typed_table es s" and "ty \<notin> fst ` set es" and "ty \<noteq> CS_NONE"
  shows "del_typed ty (contents s S_typed_strings) = Some (False, contents s S_typed_strings)"
  using assms by (simp add: del_typed_def find_typed_string_table)

lemma add_typed_new:
  assumes inv: "syspage_inv s" and tab: "typed_table es s" and new: "ty \<notin> fst ` set es"
    and e: "good_entry (ty, name)"
    and fits: "grow_fits (length name + 16) s" and mx: "max_size s + 4 \<le> 2 ^ 32"
    and add: "add_typed_string ty name s = Inr (i, s')"
  shows "i = length (typed_packed es)" and "typed_table (es @ [(ty, name)]) s'"
proof -
  obtain k where k: "4 \<le> k" "contents s S_typed_strings = typed_packed es @ replicate k 0"
    and es: "\<forall>e \<in> set es. good_entry e" "distinct (map fst es)"
    using tab by (auto simp: typed_table_def)
  let ?n = "length (typed_packed es)" and ?need = "ROUND (length name + 1) 4 + 8"
  have len: "length name + 5 \<le> 2 ^ 32" and ty: "ty \<noteq> CS_NONE" using e by (auto simp: good_entry_def)
  note r = ROUND4 [of "length name + 1"]
  have "CS_NONE \<notin> fst ` set es" using es(1) by (auto simp: good_entry_def)
  then have fe: "find_typed_string CS_NONE (contents s S_typed_strings) = Some (int ?n)"
    using find_typed_string_table [OF tab] by (simp add: typed_off_new)
  define st where "st = (if ?need > length (contents s S_typed_strings) - ?n
    then grow_syspage_section S_typed_strings (?need - (length (contents s S_typed_strings) - ?n)) s else Inr s)"
  have "case st of Inl e \<Rightarrow> False | Inr t \<Rightarrow> i = ?n \<and>
      s' = poke S_typed_strings (?n + 4) (name @ [0]) (poke S_typed_strings ?n (bytes32 ty) t)"
    using add del_typed_absent [OF tab new ty] fe poke_id [of S_typed_strings s]
    by (auto simp: add_typed_string_def st_def Let_def split: sum.splits)
  then obtain t where t: "st = Inr t" and i: "i = ?n"
    and s': "s' = poke S_typed_strings (?n + 4) (name @ [0]) (poke S_typed_strings ?n (bytes32 ty) t)"
    by (cases st) auto
  show "i = ?n" by (rule i)
  have f: "grow_fits (?need - (length (contents s S_typed_strings) - ?n)) s"
    using fits r len by (auto simp: grow_fits_def)
  obtain m where m: "contents t S_typed_strings = contents s S_typed_strings @ replicate m 0"
    "?n + ?need \<le> length (contents s S_typed_strings) + m"
    using page.store_self [OF t [unfolded st_def] _ _ f, of "[]"] unfolding k(2) by auto
  have ct: "contents t S_typed_strings = typed_packed es @ replicate (k + m) 0"
    by (simp add: m(1) k(2) replicate_add)
  have room: "?need \<le> k + m" using m(2) by (simp add: k(2))
  have num: "Suc (k + m - (4 + Suc (length name))) = pad name + (k + m - (4 + ROUND (length name + 1) 4))"
    using r len room unfolding pad_def by linarith
  have "contents s' S_typed_strings = typed_packed es @ bytes32 ty @ (name @ [0]) @
      replicate (k + m - (4 + Suc (length name))) 0"
    using poke_twice [OF ct, of "bytes32 ty" "name @ [0]"] r len room unfolding s' by simp
  also have "[0 :: u8] @ replicate (k + m - (4 + Suc (length name))) 0 =
      replicate (pad name) 0 @ replicate (k + m - (4 + ROUND (length name + 1) 4)) 0"
    unfolding replicate_add [symmetric] num [symmetric] by simp
  then have "(name @ [0]) @ replicate (k + m - (4 + Suc (length name))) 0 =
      name @ replicate (pad name) 0 @ replicate (k + m - (4 + ROUND (length name + 1) 4)) 0" by simp
  finally have c: "contents s' S_typed_strings =
      typed_packed (es @ [(ty, name)]) @ replicate (k + m - (4 + ROUND (length name + 1) 4)) 0"
    by (simp add: entry_bytes_def)
  have "syspage_inv t" "max_size t = max_size s"
    using t inv f page.grow_keeps grow_max unfolding st_def by (auto split: if_splits)
  then have "length (contents s' S_typed_strings) \<le> max_size s"
    using contents_le_max [of s' S_typed_strings] unfolding s' by (simp add: poke_inv)
  then show "typed_table (es @ [(ty, name)]) s'"
    using es e new c room mx unfolding typed_table_def
    by (auto intro!: exI [of _ "k + m - (4 + ROUND (length name + 1) 4)"])
qed

subsection \<open>Properties\<close>

definition demo_strings :: syspage_mem where
  \<comment> \<open>the page with two empty string tables\<close>
  "demo_strings = demo_page\<lparr>total_size := 80,
     lsp := (\<lambda>_. \<lparr>sp = 0x1050, ssize = 0\<rparr>)(S_syspage := \<lparr>sp = 0x1000, ssize = 64\<rparr>,
       S_strings := \<lparr>sp = 0x1040, ssize = 8\<rparr>, S_typed_strings := \<lparr>sp = 0x1048, ssize = 8\<rparr>)\<rparr>"

lemma demo_strings_inv: "syspage_inv demo_strings"
  by (auto simp: syspage_inv_def demo_strings_def demo_page_def sect_end_def)

lemma demo_strings_contents:
  "contents demo_strings S_strings = replicate 8 0" "contents demo_strings S_typed_strings = replicate 8 0"
  by (simp_all add: contents_def bytes_at_def demo_strings_def demo_page_def upt_conv_Cons numeral_eq_Suc)

lemma demo_strings_tables: "str_table [] demo_strings" "typed_table [] demo_strings"
proof -
  show "str_table [] demo_strings"
    by (auto simp: str_table_def demo_strings_contents intro!: exI [of _ 8])
  show "typed_table [] demo_strings"
    by (auto simp: typed_table_def demo_strings_contents intro!: exI [of _ 8])
qed

text \<open>
  C32: the string table. On a table that holds the names \<open>ss\<close>, \<open>add_string\<close> returns an offset at
  which the lookup finds the name; a name that is already there is not entered a second time; the
  other names are found where they were and no other section changes. The only failure is a page
  that is full.
\<close>

theorem add_string_correct:
  assumes "syspage_inv s" and "str_table ss s" and "good_name name" and "grow_fits (length name + 2) s"
  shows "case add_string name s of
      Inl e \<Rightarrow> name \<notin> set ss \<and> (\<exists>n. e = Syspage_overflow n (max_size s))
    | Inr (i, s') \<Rightarrow>
        str_table (if name \<in> set ss then ss else ss @ [name]) s' \<and> syspage_inv s' \<and>
        hwi_find_string s' i = name \<and>
        (\<forall>x \<in> set ss. hwi_find_string s' (str_off x ss) = x) \<and>
        (\<forall>j. j \<noteq> S_strings \<longrightarrow> contents s' j = contents s j)"
proof (cases "add_string name s")
  case (Inl e)
  with add_string_Inl [OF assms(2) Inl assms(4)] show ?thesis by simp
next
  case (Inr r)
  obtain i s' where r: "r = (i, s')" by (cases r)
  show ?thesis
  proof (cases "name \<in> set ss")
    case True
    with add_string_found [OF assms(2) True] assms(1,2) find_string_table [OF assms(2)] show ?thesis
      by simp
  next
    case False
    note n = add_string_new [OF assms(1,2) False assms(3,4) Inr [unfolded r]]
    have "hwi_find_string s' i = name"
      using find_string_table [OF n(2), of name] str_off_snoc [OF False] n(1) by simp
    moreover have "\<forall>x \<in> set ss. hwi_find_string s' (str_off x ss) = x"
      using find_string_table [OF n(2)] str_off_old by fastforce
    ultimately show ?thesis using False n Inr r by simp
  qed
qed

theorem add_string_correct_witness:
  "syspage_inv demo_strings \<and> str_table [] demo_strings \<and> good_name (str ''ram'') \<and>
   (case add_string (str ''ram'') demo_strings of Inl e \<Rightarrow> False
    | Inr (i, s') \<Rightarrow> str_table [str ''ram''] s' \<and> hwi_find_string s' i = str ''ram'')"
proof -
  have g: "good_name (str ''ram'')" by (simp add: good_name_def str_def of_char_def)
  have f: "grow_fits (length (str ''ram'') + 2) demo_strings"
    by (simp add: grow_fits_def demo_strings_def str_def)
  have "\<exists>r. add_string (str ''ram'') demo_strings = Inr r"
    using str_scan_table [of "[]" 8 "str ''ram''" 0]
    by (simp add: add_string_def demo_strings_contents str_def str_off_def)
  then show ?thesis
    using add_string_correct [OF demo_strings_inv demo_strings_tables(1) g f] demo_strings_inv
      demo_strings_tables(1) g
    by (auto split: sum.splits)
qed

lemma add_typed_facts:
  assumes "syspage_inv s" and "typed_table es s" and "ty \<notin> fst ` set es" and "good_entry (ty, name)"
    and "grow_fits (length name + 16) s" and "max_size s + 4 \<le> 2 ^ 32"
    and "add_typed_string ty name s = Inr (i, s')"
  shows "find_typed_string ty (contents s' S_typed_strings) = Some (int i)"
    and "cstr_of (drop (i + 4) (contents s' S_typed_strings)) = name"
    and "\<forall>(ty', name') \<in> set es.
      find_typed_string ty' (contents s' S_typed_strings) =
        find_typed_string ty' (contents s S_typed_strings) \<and>
      cstr_of (drop (typed_off ty' es + 4) (contents s' S_typed_strings)) = name'"
proof -
  note n = add_typed_new [OF assms]
  have off: "typed_off ty (es @ [(ty, name)]) = i"
    using assms(3) typed_off_new [OF assms(3)] n(1) by (auto simp: typed_off_def takeWhile_append)
  show "find_typed_string ty (contents s' S_typed_strings) = Some (int i)"
    using find_typed_string_table [OF n(2), of ty] off by simp
  show "cstr_of (drop (i + 4) (contents s' S_typed_strings)) = name"
    using typed_table_string [OF n(2), of ty name] off by simp
  show "\<forall>(ty', name') \<in> set es.
      find_typed_string ty' (contents s' S_typed_strings) =
        find_typed_string ty' (contents s S_typed_strings) \<and>
      cstr_of (drop (typed_off ty' es + 4) (contents s' S_typed_strings)) = name'"
  proof safe
    fix t' n' assume m: "(t', n') \<in> set es"
    then have t': "t' \<in> fst ` set es" by force
    show "find_typed_string t' (contents s' S_typed_strings) = find_typed_string t' (contents s S_typed_strings)"
      using find_typed_string_table [OF n(2), of t'] find_typed_string_table [OF assms(2), of t'] t'
        typed_off_old [OF t'] by simp
    show "cstr_of (drop (typed_off t' es + 4) (contents s' S_typed_strings)) = n'"
      using typed_table_string [OF n(2), of t' n'] m typed_off_old [OF t'] by simp
  qed
qed

text \<open>
  C33: the table of typed strings. Adding a string under a type that is not there returns the
  offset at which \<open>find_typed_string\<close> then finds the type, with the string behind it; every entry
  that was there is still found at its old offset with its string.
\<close>

theorem add_typed_string_correct:
  assumes "syspage_inv s" and "typed_table es s" and "ty \<notin> fst ` set es" and "good_entry (ty, name)"
    and "grow_fits (length name + 16) s" and "max_size s + 4 \<le> 2 ^ 32"
    and "add_typed_string ty name s = Inr (i, s')"
  shows "find_typed_string ty (contents s' S_typed_strings) = Some (int i) \<and>
    cstr_of (drop (i + 4) (contents s' S_typed_strings)) = name \<and>
    (\<forall>(ty', name') \<in> set es.
      find_typed_string ty' (contents s' S_typed_strings) =
        find_typed_string ty' (contents s S_typed_strings) \<and>
      cstr_of (drop (typed_off ty' es + 4) (contents s' S_typed_strings)) = name')"
  using add_typed_facts [OF assms] by blast

theorem add_typed_string_correct_witness:
  "\<exists>i s'. add_typed_string 3 (str ''imx'') demo_strings = Inr (i, s') \<and>
     find_typed_string 3 (contents s' S_typed_strings) = Some (int i) \<and>
     cstr_of (drop (i + 4) (contents s' S_typed_strings)) = str ''imx''"
proof -
  have g: "good_entry (3, str ''imx'')" by (simp add: good_entry_def CS_NONE_def str_def of_char_def)
  have f: "grow_fits (length (str ''imx'') + 16) demo_strings" "max_size demo_strings + 4 \<le> 2 ^ 32"
    by (simp_all add: grow_fits_def demo_strings_def demo_page_def str_def)
  have "find_typed_string CS_NONE (replicate 8 0) = Some 0"
    using find_typed_string_table [OF demo_strings_tables(2), of CS_NONE]
    by (simp add: typed_off_def demo_strings_contents)
  moreover have "del_typed 3 (replicate 8 0) = Some (False, replicate 8 0)"
    using del_typed_absent [OF demo_strings_tables(2), of 3] by (simp add: CS_NONE_def demo_strings_contents)
  moreover have "\<exists>t. grow_syspage_section S_typed_strings 4 demo_strings = Inr t"
    using grow_returns [of 4 demo_strings S_typed_strings]
    by (auto simp: grow_fits_def ROUND8_examples demo_strings_def demo_page_def)
  moreover have "poke S_typed_strings 0 (replicate 8 0) demo_strings = demo_strings"
    using poke_id [of S_typed_strings demo_strings] by (simp add: demo_strings_contents)
  moreover have "ROUND (length (str ''imx'') + 1) 4 = 4" by (simp add: str_def ROUND_def TRUNC_def)
  ultimately have "\<exists>i s'. add_typed_string 3 (str ''imx'') demo_strings = Inr (i, s')"
    by (auto simp: add_typed_string_def demo_strings_contents Let_def)
  then show ?thesis
    using add_typed_string_correct [OF demo_strings_inv demo_strings_tables(2) _ g f] by force
qed

subsection \<open>Deleting a typed string\<close>

lemma copy_down_eq:
  assumes "i \<le> j" and "j \<le> e" and "e \<le> length p"
  shows "copy_down p i j e = (take i p @ take (e - j) (drop j p) @ drop (i + (e - j)) p, i + (e - j), e)"
  using assms
proof (induction p i j e rule: copy_down.induct)
  case (1 p i j e)
  show ?case
  proof (cases "j < e")
    case True
    have "copy_down p i j e = copy_down (p[i := p ! j]) (i + 1) (j + 1) e"
      using True by (subst copy_down.simps) simp
    moreover have "take (i + 1) (p[i := p ! j]) = take i p @ [p ! j]"
      using 1(2-4) True by (simp add: take_Suc_conv_app_nth)
    moreover have "take (e - j) (drop j p) = p ! j # take (e - (j + 1)) (drop (j + 1) p)"
    proof -
      have "drop j p = p ! j # drop (Suc j) p" using 1(2-4) True by (simp add: Cons_nth_drop_Suc)
      moreover have "e - j = Suc (e - (j + 1))" using True by simp
      ultimately show ?thesis by simp
    qed
    moreover have "Suc (i + e - Suc j) = i + e - j" using True by simp
    ultimately show ?thesis using 1 True by simp
  next
    case False
    then show ?thesis using 1(2-4) by (subst copy_down.simps) simp
  qed
qed

lemma zero_fill_eq:
  assumes "i \<le> j" and "j \<le> length p"
  shows "zero_fill p i j = take i p @ replicate (j - i) 0 @ drop j p"
  using assms
proof (induction p i j rule: zero_fill.induct)
  case (1 p i j)
  show ?case
  proof (cases "i < j")
    case True
    then have "j - i = Suc (j - (i + 1))" by simp
    then show ?thesis
      using 1 True by (subst zero_fill.simps) (simp add: take_Suc_conv_app_nth)
  next
    case False
    then show ?thesis using 1(2,3) by (subst zero_fill.simps) simp
  qed
qed

lemma find_typed_skip:
  assumes "\<forall>e \<in> set es. good_entry e" and "4 dvd length pre" and "ty \<notin> fst ` set es"
    and "length (pre @ typed_packed es @ rest) + 4 \<le> 2 ^ 32"
  shows "find_typed ty (pre @ typed_packed es @ rest) (length pre) =
    find_typed ty (pre @ typed_packed es @ rest) (length pre + length (typed_packed es))"
  using assms
proof (induction es arbitrary: pre)
  case (Cons e es)
  have e: "good_entry e" "fst e \<noteq> ty" using Cons.prems by auto
  have "find_typed ty (pre @ typed_packed (e # es) @ rest) (length pre) =
      find_typed ty (pre @ typed_packed (e # es) @ rest) (length pre + length (entry_bytes e))"
    using Cons.prems(2,4) e by (subst find_typed_step [where rest = "typed_packed es @ rest"]) auto
  then show ?case
    using Cons.IH [of "pre @ entry_bytes e"] Cons.prems entry_align [OF e(1)] by (simp add: add.assoc)
qed simp

definition name_tail :: "cstr \<Rightarrow> u8 list" where
  \<comment> \<open>the last word of a name as an entry stores it\<close>
  "name_tail n = drop (ROUND (length n + 1) 4 - 4) (n @ replicate (pad n) 0)"

lemma length_name_tail:
  assumes "length n + 5 \<le> 2 ^ 32"
  shows "length (name_tail n) = 4" and "4 \<le> ROUND (length n + 1) 4" and "4 dvd ROUND (length n + 1) 4"
proof -
  note r = ROUND4 [of "length n + 1"]
  show "4 dvd ROUND (length n + 1) 4" using r assms by simp
  show "4 \<le> ROUND (length n + 1) 4" using r assms by (auto elim!: dvdE)
  then show "length (name_tail n) = 4" using r assms by (simp add: name_tail_def pad_def)
qed

lemma name_tail_zero:
  assumes "length n + 5 \<le> 2 ^ 32" and "4 dvd length n"
  shows "name_tail n = [0, 0, 0, 0]"
proof -
  have "ROUND (length n + 1) 4 = length n + 4" using assms by (intro ROUND4_unique) auto
  then show ?thesis by (simp add: name_tail_def pad_def numeral_eq_Suc)
qed

lemma del_typed_bytes:
  assumes es: "\<forall>e \<in> set (es @ (ty, name) # fs). good_entry e" and new: "ty \<notin> fst ` set es" and k: "4 \<le> k"
    and p: "p = typed_packed (es @ (ty, name) # fs) @ replicate k 0" and len: "length p + 4 \<le> 2 ^ 32"
  shows "del_typed ty p =
    Some (True, typed_packed es @ name_tail name @ typed_packed fs @ replicate (k + ROUND (length name + 1) 4) 0)"
proof -
  let ?n = "length (typed_packed es)" and ?L = "ROUND (length name + 1) 4"
  let ?e = "?n + 4 + ?L + length (typed_packed fs)"
  have g: "good_entry (ty, name)" and n: "length name + 5 \<le> 2 ^ 32" using es by (auto simp: good_entry_def)
  note nt = length_name_tail [OF n]
  have le: "length (entry_bytes (ty, name)) = 4 + ?L" using length_entry [of "(ty, name)"] n by simp
  have al: "4 dvd ?n" using es by (intro packed_align) auto
  have off: "typed_off ty (es @ (ty, name) # fs) = ?n"
  proof -
    have "takeWhile (\<lambda>e. fst e \<noteq> ty) (es @ (ty, name) # fs) = es" using new by (induction es) auto
    then show ?thesis by (simp add: typed_off_def)
  qed
  have none: "CS_NONE \<notin> fst ` set (es @ (ty, name) # fs)" using es by (force simp: good_entry_def)
  have f: "find_typed_string ty p = Some (int ?n)"
    using find_typed_table [of "es @ (ty, name) # fs" "[]" k ty] es k len off by (simp add: p find_typed_string_def)
  have fe: "find_typed_string CS_NONE p = Some (int ?e)"
    using find_typed_table [of "es @ (ty, name) # fs" "[]" k CS_NONE] es k len typed_off_new [OF none] le
    by (simp add: p find_typed_string_def)
  have "drop (?n + 4) p = name @ replicate (pad name) 0 @ typed_packed fs @ replicate k 0"
    by (simp add: p entry_bytes_def)
  then have sl: "strlen (drop (?n + 4) p) = length name"
    using g pad_pos [OF n] by (simp add: strlen_padded good_entry_def)
  have lp: "length p = ?e + k" by (simp add: p le)
  have j: "ROUND (?n + (length name + 1)) 4 = ?n + ?L"
    using ROUND4 [of "length name + 1"] n al lp len k by (intro ROUND4_unique) auto
  have E: "entry_bytes (ty, name) = take ?L (entry_bytes (ty, name)) @ name_tail name"
  proof -
    have "drop ?L (entry_bytes (ty, name)) = name_tail name"
      using nt(2) by (simp add: entry_bytes_def name_tail_def drop_append)
    then show ?thesis by (metis append_take_drop_id)
  qed
  define E1 where "E1 = take ?L (entry_bytes (ty, name))"
  have E1: "length E1 = ?L" using le by (simp add: E1_def)
  have pe: "p = typed_packed es @ E1 @ name_tail name @ typed_packed fs @ replicate k 0"
    using E by (simp add: p E1_def)
  have c: "copy_down p ?n (?n + ?L) ?e =
      (typed_packed es @ name_tail name @ typed_packed fs @ drop (4 + length (typed_packed fs)) (E1 @ name_tail name @ typed_packed fs @ replicate k 0),
       ?n + 4 + length (typed_packed fs), ?e)"
    using lp nt(1) E1 by (subst copy_down_eq) (auto simp: pe)
  have "zero_fill (fst (copy_down p ?n (?n + ?L) ?e)) (?n + 4 + length (typed_packed fs)) ?e =
      typed_packed es @ name_tail name @ typed_packed fs @ replicate ?L 0 @ replicate k 0"
    unfolding c using nt(1) E1 by (subst zero_fill_eq) auto
  then obtain A i e where A: "copy_down p ?n (?n + ?L) e = (A, i, e)" "e = ?e"
    "zero_fill A i e = typed_packed es @ name_tail name @ typed_packed fs @ replicate ?L 0 @ replicate k 0"
    using c by auto
  have fe': "find_typed_string CS_NONE p = Some (int e)" unfolding A(2) by (rule fe)
  have j': "ROUND (Suc (?n + length name)) 4 = ?n + ?L" using j by simp
  have r: "replicate ?L 0 @ replicate k 0 = replicate (k + ?L) (0 :: u8)" by (simp add: replicate_add [symmetric] add.commute)
  show ?thesis
    using A(1,3) r by (simp add: del_typed_def f fe' sl j' Let_def del: of_nat_add)
qed

text \<open>
  C35: \<open>del_typed_string\<close> leaves the last word of the string it deletes in the table, because it
  computes the start of the next entry without the four bytes of the type. The theorem gives the
  bytes of the table after the deletion of any entry of any table: the entries before it, the last
  four bytes of its padded string, the entries behind it, zeros. That word is found as a type from
  then on; and when the length of the string is a multiple of four the word is zero, which ends the
  table, so that every entry behind the deleted one is lost.
\<close>

theorem del_typed_string_loses_entries:
  assumes "\<forall>e \<in> set (es @ (ty, name) # fs). good_entry e" and "distinct (map fst (es @ (ty, name) # fs))" and "4 \<le> k"
    and "p = typed_packed (es @ (ty, name) # fs) @ replicate k 0" and "length p + 4 \<le> 2 ^ 32"
  shows "\<exists>q. del_typed ty p = Some (True, q) \<and>
    q = typed_packed es @ name_tail name @ typed_packed fs @ replicate (k + ROUND (length name + 1) 4) 0 \<and>
    (le32 (name_tail name) \<notin> fst ` set es \<longrightarrow>
       find_typed_string (le32 (name_tail name)) q = Some (int (length (typed_packed es)))) \<and>
    (4 dvd length name \<longrightarrow> (\<forall>e \<in> set fs. find_typed_string (fst e) p \<noteq> Some (- 1) \<and> find_typed_string (fst e) q = Some (- 1)))"
proof -
  let ?q = "typed_packed es @ name_tail name @ typed_packed fs @ replicate (k + ROUND (length name + 1) 4) 0"
  have n: "length name + 5 \<le> 2 ^ 32" using assms(1) by (simp add: good_entry_def)
  note nt = length_name_tail [OF n]
  have lq: "length ?q = length p"
    using nt(1) length_entry [of "(ty, name)"] n by (simp add: assms(4))
  have g: "\<forall>e \<in> set es. good_entry e" using assms(1) by simp
  have skip: "find_typed_string t ?q = find_typed t ?q (length (typed_packed es))" if "t \<notin> fst ` set es" for t
    using find_typed_skip [OF g, of "[]" t "name_tail name @ typed_packed fs @ replicate (k + ROUND (length name + 1) 4) 0"]
      that lq assms(5) unfolding find_typed_string_def by simp
  have w: "le32 (drop (length (typed_packed es)) ?q) = le32 (name_tail name)"
    using nt(1) by (simp add: le32_def nth_append)
  have at: "find_typed t ?q (length (typed_packed es)) =
      (if le32 (name_tail name) = t then Some (int (length (typed_packed es))) else Some (- 1))"
    if "le32 (name_tail name) = t \<or> le32 (name_tail name) = CS_NONE" for t
    using w nt(1) that by (subst find_typed.simps) auto
  have "find_typed_string (fst e) p \<noteq> Some (- 1) \<and> find_typed_string (fst e) ?q = Some (- 1)"
    if "4 dvd length name" "e \<in> set fs" for e
  proof -
    have "le32 (name_tail name) = CS_NONE" using name_tail_zero [OF n that(1)] by (simp add: le32_def CS_NONE_def)
    moreover have "fst e \<notin> fst ` set es" "fst e \<noteq> CS_NONE" using that assms(1,2) by (auto simp: good_entry_def)
    moreover have "find_typed_string (fst e) p = Some (int (typed_off (fst e) (es @ (ty, name) # fs)))"
      using find_typed_table [of "es @ (ty, name) # fs" "[]" k "fst e"] assms that(2)
      by (auto simp: find_typed_string_def)
    ultimately show ?thesis using skip at [of "fst e"] by auto
  qed
  moreover have "del_typed ty p = Some (True, ?q)"
    using assms by (intro del_typed_bytes) auto
  ultimately show ?thesis using skip at [of "le32 (name_tail name)"] by auto
qed

theorem del_typed_string_loses_entries_witness:
  "let p = entry_bytes (3, str ''imx6'') @ entry_bytes (5, str ''x'') @ replicate 8 0
   in find_typed_string 5 p \<noteq> Some (- 1) \<and>
      (\<exists>q. del_typed 3 p = Some (True, q) \<and> find_typed_string 5 q = Some (- 1))"
proof -
  let ?n = "str ''imx6''"
  have l: "length ?n = 4" by (simp add: str_def)
  have "\<forall>e \<in> set ([] @ (3, ?n) # [(5, str ''x'')]). good_entry e"
    by (simp add: good_entry_def CS_NONE_def str_def of_char_def)
  from del_typed_string_loses_entries [OF this _ _ refl, of 8]
  obtain q where q: "del_typed 3 (typed_packed ([] @ (3, ?n) # [(5, str ''x'')]) @ replicate 8 0) = Some (True, q)"
    "4 dvd length ?n \<Longrightarrow> find_typed_string 5 (typed_packed ([] @ (3, ?n) # [(5, str ''x'')]) @ replicate 8 0) \<noteq> Some (- 1) \<and>
       find_typed_string 5 q = Some (- 1)"
    using l by (auto simp: length_entry ROUND_def TRUNC_def str_def)
  then show ?thesis using l by (simp add: Let_def)
qed
end
