(* ===== verification/Asinfo.thy ===== *)
theory Asinfo
  imports Strings
begin

section \<open>The list of address spaces\<close>

text \<open>
  \<^verbatim>\<open>startup/lib/as_*.c\<close>: the \<open>asinfo\<close> section of the system page is an array of address
  ranges, each with a name (an offset in the string table) and an owner, the range it is part of.

  The section is the list of its entries. An offset into it is counted in entries (the code's
  offset divided by \<open>sizeof(struct asinfo_entry)\<close>), and \<open>AS_NULL_OFF\<close> is \<open>None\<close>. The size of the
  structure and the attribute bits that are declared outside the repository are fields of
  \<open>as_cfg\<close>. Following an owner that does not lie before its entry, which the code would do
  without end, and reading past the array are the error \<open>Bad_section S_asinfo\<close>.
\<close>

record as_entry =
  as_start :: nat
  as_end :: nat
  as_owner :: "nat option"
  as_name :: nat
  as_attr :: u32
  as_priority :: u32
  as_checker :: "nat option"    \<comment> \<open>address of the allocation checker callout\<close>

record as_cfg =
  sizeof_as :: nat
  AS_ATTR_NONE :: u32
  AS_ATTR_KIDS :: u32
  AS_ATTR_CONTINUED :: u32
  AS_ATTR_RAM :: u32
  AS_PRIORITY_DEFAULT :: u32

record as_state =
  as_page :: syspage_mem
  asinfo :: "as_entry list"
  as_conf :: as_cfg
  as_hooked :: bool      \<comment> \<open>\<open>as_prev_output_rtn\<close> has been set\<close>

definition AS_OVERLAY_IO :: u32 where
  "AS_OVERLAY_IO = 0x80000000"

subsection \<open>Adding an entry\<close>

definition as_append :: "nat \<Rightarrow> nat \<Rightarrow> u32 \<Rightarrow> cstr \<Rightarrow> nat option \<Rightarrow> as_state \<Rightarrow> startup_error + nat \<times> as_state" where
  \<comment> \<open>\<open>as_add64\<close> up to the test for the overlay\<close>
  "as_append start fin attr name owner st =
     bindE (add_string name (as_page st)) (\<lambda>(name_off, pg).
     bindE (grow_syspage_section S_asinfo (sizeof_as (as_conf st)) pg) (\<lambda>pg'.
     let as = \<lparr>as_start = start, as_end = fin, as_owner = owner, as_name = name_off,
               as_attr = attr AND 0xffff, as_priority = AS_PRIORITY_DEFAULT (as_conf st),
               as_checker = None\<rparr>;
         es = asinfo st @ [as];
         es' = (case owner of None \<Rightarrow> es
                | Some o' \<Rightarrow> es[o' := (es ! o')\<lparr>as_attr := as_attr (es ! o') OR AS_ATTR_KIDS (as_conf st)\<rparr>])
     in Inr (length (asinfo st), st\<lparr>as_page := pg', asinfo := es'\<rparr>)))"

function as_add64 :: "nat \<Rightarrow> nat \<Rightarrow> u32 \<Rightarrow> cstr \<Rightarrow> nat option \<Rightarrow> as_state \<Rightarrow> startup_error + nat \<times> as_state" where
  "as_add64 start fin attr name owner st =
     bindE (as_append start fin attr name owner st) (\<lambda>(off, st').
     if attr AND AS_OVERLAY_IO \<noteq> 0
     then bindE (as_add64 (to_paddr start) (to_paddr fin) (attr AND NOT AS_OVERLAY_IO) (str ''io'') (Some off) st')
            (\<lambda>(_, st''). Inr (off, st''))
     else Inr (off, st'))"
  by pat_completeness auto
termination
  by (relation "measure (\<lambda>(_, _, attr, _). if attr AND AS_OVERLAY_IO \<noteq> 0 then 1 else (0 :: nat))")
    (simp_all add: AS_OVERLAY_IO_def and.assoc)

declare as_add64.simps [simp del]

definition as_add :: "nat \<Rightarrow> nat \<Rightarrow> u32 \<Rightarrow> cstr \<Rightarrow> nat option \<Rightarrow> as_state \<Rightarrow> startup_error + nat \<times> as_state" where
  "as_add start fin attr name owner st = as_add64 (to_paddr start) (to_paddr fin) attr name owner st"

definition as_default :: "as_state \<Rightarrow> startup_error + nat \<times> as_state" where
  \<comment> \<open>with \<open>paddr_bits\<close> 32\<close>
  "as_default st = as_add 0 (2 ^ 32 - 1) (AS_ATTR_NONE (as_conf st)) (str ''memory'') None st"

subsection \<open>Finding entries\<close>

definition as_nm :: "as_state \<Rightarrow> nat \<Rightarrow> cstr" where
  "as_nm st i = hwi_find_string (as_page st) (as_name (asinfo st ! i))"

function match_name :: "as_state \<Rightarrow> cstr \<Rightarrow> nat \<Rightarrow> startup_error + bool" where
  "match_name st name i =
     (if i \<ge> length (asinfo st) then Inl (Bad_section S_asinfo)
      else if as_nm st i = name then Inr True
      else case as_owner (asinfo st ! i) of
             None \<Rightarrow> Inr False
           | Some o' \<Rightarrow> if o' < i then match_name st name o' else Inl (Bad_section S_asinfo))"
  by pat_completeness auto
termination
  by (relation "measure (\<lambda>(st, name, i). i)") auto

declare match_name.simps [simp del]

definition overlaps :: "nat \<Rightarrow> nat \<Rightarrow> as_entry \<Rightarrow> bool" where
  "overlaps start fin as \<longleftrightarrow>
     (start \<ge> as_start as \<and> start \<le> as_end as) \<or>
     (fin \<ge> as_start as \<and> fin \<le> as_end as) \<or>
     (start \<le> as_start as \<and> fin \<ge> as_end as)"

function find_containing_from :: "as_state \<Rightarrow> nat \<Rightarrow> nat \<Rightarrow> nat \<Rightarrow> cstr \<Rightarrow> startup_error + nat option" where
  \<comment> \<open>the loop of \<open>as_find_containing\<close> from entry \<open>i\<close> on\<close>
  "find_containing_from st i start fin container =
     (if i \<ge> length (asinfo st) then Inr None
      else bindE (match_name st container i) (\<lambda>m.
        if m \<and> overlaps start fin (asinfo st ! i) then Inr (Some i)
        else find_containing_from st (i + 1) start fin container))"
  by pat_completeness auto
termination
  by (relation "measure (\<lambda>(st, i, _). length (asinfo st) - i)") auto

declare find_containing_from.simps [simp del]

definition after :: "nat option \<Rightarrow> nat" where
  "after off = (case off of None \<Rightarrow> 0 | Some i \<Rightarrow> i + 1)"

definition as_find_containing :: "nat option \<Rightarrow> nat \<Rightarrow> nat \<Rightarrow> cstr \<Rightarrow> as_state \<Rightarrow> startup_error + nat option" where
  "as_find_containing off start fin container st = find_containing_from st (after off) start fin container"

fun match_item :: "as_state \<Rightarrow> nat \<Rightarrow> cstr list \<Rightarrow> bool" where
  "match_item st i [] = True"
| "match_item st i (n # ns) =
     (if n \<noteq> as_nm st i then False
      else if ns = [] then True
      else case as_owner (asinfo st ! i) of None \<Rightarrow> False | Some o' \<Rightarrow> match_item st o' ns)"

definition as_find :: "nat option \<Rightarrow> cstr list \<Rightarrow> as_state \<Rightarrow> startup_error + nat option" where
  "as_find start names st =
     (if names = [] then Inl Null_name
      else Inr (List.find (\<lambda>i. match_item st i (rev names)) [after start..<length (asinfo st)]))"

subsection \<open>Adding a range inside its containers\<close>

record as_range =
  ar_start :: nat
  ar_end :: nat
  ar_owner :: nat

fun add_piece :: "nat \<Rightarrow> nat \<Rightarrow> nat \<Rightarrow> as_range list \<Rightarrow> as_range list" where
  \<comment> \<open>the inner loop of \<open>as_add_containing\<close>\<close>
  "add_piece ps pe ow [] = [\<lparr>ar_start = ps, ar_end = pe, ar_owner = ow\<rparr>]"
| "add_piece ps pe ow (c # cs) =
     (if ar_start c \<le> ps \<and> ar_end c \<ge> ps then
        if ar_start c = ps \<and> ar_end c = pe then c\<lparr>ar_owner := ow\<rparr> # cs
        else
          let new = \<lparr>ar_start = ps, ar_end = pe, ar_owner = ow\<rparr> in
          if ar_start c = ps then new # c\<lparr>ar_start := add32 pe 1\<rparr> # cs
          else c\<lparr>ar_end := sub32 ps 1\<rparr> # new #
               (if ar_end c \<noteq> pe
                then \<lparr>ar_start = add32 pe 1, ar_end = ar_end c, ar_owner = ar_owner c\<rparr> # cs else cs)
      else c # add_piece ps pe ow cs)"

lemma find_containing_from_le:
  "find_containing_from st i start fin c = Inr (Some j) \<Longrightarrow> i \<le> j \<and> j < length (asinfo st)"
  by (induction st i start fin c rule: find_containing_from.induct)
    (subst (asm) (2) find_containing_from.simps, auto simp: bindE_Inr_iff split: if_splits, fastforce+)

function collect_pieces :: "as_state \<Rightarrow> nat \<Rightarrow> nat \<Rightarrow> cstr \<Rightarrow> nat option \<Rightarrow> as_range list \<Rightarrow> startup_error + as_range list" where
  \<comment> \<open>the outer loop of \<open>as_add_containing\<close>\<close>
  "collect_pieces st start fin container owner l =
     bindE (as_find_containing owner start fin container st) (\<lambda>r.
     case r of
       None \<Rightarrow> Inr l
     | Some i \<Rightarrow>
         let as = asinfo st ! i;
             piece_start = (if as_start as > start then to_paddr (as_start as) else start);
             piece_end = (if as_end as < fin then to_paddr (as_end as) else fin)
         in collect_pieces st start fin container (Some i) (add_piece piece_start piece_end i l))"
  by pat_completeness auto
termination
  by (relation "measure (\<lambda>(st, _, _, _, off, _). length (asinfo st) - after off)")
    (auto simp: as_find_containing_def after_def dest!: find_containing_from_le)

declare collect_pieces.simps [simp del]

fun add_ranges :: "as_range list \<Rightarrow> u32 \<Rightarrow> cstr \<Rightarrow> nat option \<Rightarrow> nat \<Rightarrow> as_state \<Rightarrow>
    startup_error + nat option \<times> nat \<times> as_state" where
  \<comment> \<open>the loop that enters the pieces; it carries \<open>start_off\<close> and \<open>off\<close>\<close>
  "add_ranges [] piece_attr name start_off off st = Inr (start_off, off, st)"
| "add_ranges (r # rs) piece_attr name start_off off st =
     (if ar_start r \<le> ar_end r
      then bindE (as_add (ar_start r) (ar_end r) piece_attr name (Some (ar_owner r)) st) (\<lambda>(o', st').
             add_ranges rs piece_attr name (if start_off = None then Some o' else start_off) o' st')
      else add_ranges rs piece_attr name start_off off st)"

definition upd_entry :: "nat \<Rightarrow> (as_entry \<Rightarrow> as_entry) \<Rightarrow> as_state \<Rightarrow> as_state" where
  "upd_entry i f st = st\<lparr>asinfo := (asinfo st)[i := f (asinfo st ! i)]\<rparr>"

fun overlay_loop :: "nat \<Rightarrow> nat \<Rightarrow> u32 \<Rightarrow> cstr \<Rightarrow> as_state \<Rightarrow> startup_error + as_state" where
  \<comment> \<open>the loop over the pieces for \<open>AS_OVERLAY_IO\<close>; the fuel is the number of pieces\<close>
  "overlay_loop 0 off attr name st = Inl (Bad_section S_asinfo)"
| "overlay_loop (Suc n) off attr name st =
     (if off \<ge> length (asinfo st) then Inl (Bad_section S_asinfo)
      else
        let as = asinfo st ! off in
        bindE (as_add (as_start as) (as_end as) (attr AND NOT AS_OVERLAY_IO) name (Some off) st) (\<lambda>(_, st').
        if as_attr (asinfo st' ! off) AND AS_ATTR_CONTINUED (as_conf st') = 0 then Inr st'
        else overlay_loop n (off + 1) attr name st'))"

definition as_add_containing :: "nat \<Rightarrow> nat \<Rightarrow> u32 \<Rightarrow> cstr \<Rightarrow> cstr \<Rightarrow> as_state \<Rightarrow>
    startup_error + nat option \<times> as_state" where
  "as_add_containing start fin attr name container st =
     bindE (collect_pieces st start fin container None []) (\<lambda>l.
     let cont = AS_ATTR_CONTINUED (as_conf st);
         piece_attr = (attr AND NOT AS_OVERLAY_IO) OR cont
     in bindE (add_ranges l piece_attr name None 0 st) (\<lambda>(start_off, off, st1).
        case start_off of
          None \<Rightarrow> Inr (None, st1)
        | Some first \<Rightarrow>
            let st2 = upd_entry off (\<lambda>as. as\<lparr>as_attr := as_attr as AND NOT cont\<rparr>) st1
            in if attr AND AS_OVERLAY_IO \<noteq> 0
               then bindE (overlay_loop (Suc (off - first)) first attr name st2) (\<lambda>st3. Inr (Some first, st3))
               else Inr (Some first, st2)))"

subsection \<open>Changing entries\<close>

function as_set_priority :: "nat \<Rightarrow> u32 \<Rightarrow> as_state \<Rightarrow> startup_error + as_state" where
  "as_set_priority off prio st =
     (if off \<ge> length (asinfo st) then Inl (Bad_section S_asinfo)
      else
        let st' = upd_entry off (\<lambda>as. as\<lparr>as_priority := prio\<rparr>) st
        in if as_attr (asinfo st' ! off) AND AS_ATTR_CONTINUED (as_conf st) = 0 then Inr st'
           else as_set_priority (off + 1) prio st')"
  by pat_completeness auto
termination
  by (relation "measure (\<lambda>(off, prio, st). length (asinfo st) - off)") (auto simp: upd_entry_def)

declare as_set_priority.simps [simp del]

definition as_set_checker :: "nat \<Rightarrow> nat option \<Rightarrow> as_state \<Rightarrow> as_state" where
  \<comment> \<open>the first call also hooks the section into the list of callout writers\<close>
  "as_set_checker off rtn st =
     (upd_entry off (\<lambda>as. as\<lparr>as_checker := rtn\<rparr>) st)\<lparr>as_hooked := True\<rparr>"

subsection \<open>Well-formed lists\<close>

definition as_wf :: "cstr list \<Rightarrow> as_state \<Rightarrow> bool" where
  \<comment> \<open>names are in the string table, owners come before the entries they own\<close>
  "as_wf ss st \<longleftrightarrow> syspage_inv (as_page st) \<and> str_table ss (as_page st) \<and>
     (\<forall>i < length (asinfo st).
        (\<exists>x \<in> set ss. as_name (asinfo st ! i) = str_off x ss) \<and>
        (\<forall>o'. as_owner (asinfo st ! i) = Some o' \<longrightarrow> o' < i))"

lemma match_name_total:
  assumes "as_wf ss st" and "i < length (asinfo st)"
  shows "\<exists>b. match_name st c i = Inr b"
  using assms(2)
proof (induction i rule: less_induct)
  case (less i)
  then have "\<And>o'. as_owner (asinfo st ! i) = Some o' \<Longrightarrow> o' < i"
    using assms(1) by (auto simp: as_wf_def)
  with less show ?case
    by (subst match_name.simps) (auto split: option.split)
qed

definition in_container :: "as_state \<Rightarrow> cstr \<Rightarrow> nat \<Rightarrow> bool" where
  \<comment> \<open>the entry or one of its owners has the name\<close>
  "in_container st c i \<longleftrightarrow> match_name st c i = Inr True"

definition hit :: "as_state \<Rightarrow> nat \<Rightarrow> nat \<Rightarrow> cstr \<Rightarrow> nat \<Rightarrow> bool" where
  "hit st start fin c i \<longleftrightarrow> i < length (asinfo st) \<and> in_container st c i \<and> overlaps start fin (asinfo st ! i)"

lemma find_containing_from_spec:
  assumes "as_wf ss st"
  shows "\<exists>r. find_containing_from st i start fin c = Inr r \<and>
    (case r of None \<Rightarrow> \<forall>j \<ge> i. \<not> hit st start fin c j
     | Some j \<Rightarrow> i \<le> j \<and> hit st start fin c j \<and> (\<forall>k. i \<le> k \<and> k < j \<longrightarrow> \<not> hit st start fin c k))"
proof (induction "length (asinfo st) - i" arbitrary: i)
  case 0
  then show ?case by (subst find_containing_from.simps) (auto simp: hit_def)
next
  case (Suc n)
  then have i: "i < length (asinfo st)" by simp
  obtain b where b: "match_name st c i = Inr b" using match_name_total [OF assms i] by blast
  show ?case
  proof (cases "b \<and> overlaps start fin (asinfo st ! i)")
    case True
    then show ?thesis using i b by (subst find_containing_from.simps) (auto simp: hit_def in_container_def)
  next
    case False
    then have no: "\<not> hit st start fin c i" using b by (auto simp: hit_def in_container_def)
    have eq: "find_containing_from st i start fin c = find_containing_from st (i + 1) start fin c"
      using i b False by (subst find_containing_from.simps) auto
    have n: "n = length (asinfo st) - (i + 1)" using Suc.hyps(2) by simp
    obtain r where r: "find_containing_from st (i + 1) start fin c = Inr r"
      "case r of None \<Rightarrow> \<forall>j \<ge> i + 1. \<not> hit st start fin c j
       | Some j \<Rightarrow> i + 1 \<le> j \<and> hit st start fin c j \<and> (\<forall>k. i + 1 \<le> k \<and> k < j \<longrightarrow> \<not> hit st start fin c k)"
      using Suc.hyps(1) [OF n] by blast
    moreover have "k = i \<or> i + 1 \<le> k" if "i \<le> k" for k using that by auto
    ultimately show ?thesis
      unfolding eq using no by (cases r) (fastforce, fastforce)
  qed
qed

subsection \<open>The pieces of a range\<close>

definition rset :: "as_range \<Rightarrow> nat set" where
  "rset r = {ar_start r..ar_end r}"

definition eset :: "as_entry \<Rightarrow> nat set" where
  "eset e = {as_start e..as_end e}"

definition piece_start :: "as_state \<Rightarrow> nat \<Rightarrow> nat \<Rightarrow> nat" where
  "piece_start st start i = (if as_start (asinfo st ! i) > start then to_paddr (as_start (asinfo st ! i)) else start)"

definition piece_end :: "as_state \<Rightarrow> nat \<Rightarrow> nat \<Rightarrow> nat" where
  "piece_end st fin i = (if as_end (asinfo st ! i) < fin then to_paddr (as_end (asinfo st ! i)) else fin)"

definition hits :: "as_state \<Rightarrow> nat \<Rightarrow> nat \<Rightarrow> cstr \<Rightarrow> nat \<Rightarrow> nat list" where
  "hits st start fin c k = filter (hit st start fin c) [k..<length (asinfo st)]"

lemma hits_step:
  assumes "k \<le> j" and "hit st start fin c j" and "\<forall>i. k \<le> i \<and> i < j \<longrightarrow> \<not> hit st start fin c i"
  shows "hits st start fin c k = j # hits st start fin c (j + 1)"
proof -
  have "j < length (asinfo st)" using assms(2) by (simp add: hit_def)
  then have "[k..<length (asinfo st)] = [k..<j] @ j # [j + 1..<length (asinfo st)]"
    using assms(1) upt_add_eq_append [of k j "length (asinfo st) - j"] upt_conv_Cons [of j "length (asinfo st)"]
    by simp
  moreover have "filter (hit st start fin c) [k..<j] = []"
    using assms(3) by (simp add: filter_empty_conv)
  ultimately show ?thesis using assms(2) by (simp add: hits_def)
qed

lemma collect_pieces_spec:
  assumes "as_wf ss st"
  shows "collect_pieces st start fin c off l =
    Inr (fold (\<lambda>i. add_piece (piece_start st start i) (piece_end st fin i) i) (hits st start fin c (after off)) l)"
proof (induction "length (asinfo st) - after off" arbitrary: off l rule: less_induct)
  case less
  obtain r where r: "as_find_containing off start fin c st = Inr r" and
    spec: "case r of None \<Rightarrow> \<forall>j \<ge> after off. \<not> hit st start fin c j
      | Some j \<Rightarrow> after off \<le> j \<and> hit st start fin c j \<and>
          (\<forall>k. after off \<le> k \<and> k < j \<longrightarrow> \<not> hit st start fin c k)"
    using find_containing_from_spec [OF assms, of "after off" start fin c]
    by (auto simp: as_find_containing_def)
  show ?case
  proof (cases r)
    case None
    then have "hits st start fin c (after off) = []"
      using spec by (auto simp: hits_def filter_empty_conv)
    then show ?thesis using r None by (subst collect_pieces.simps) simp
  next
    case (Some j)
    with spec have j: "after off \<le> j" "hit st start fin c j"
      "\<forall>k. after off \<le> k \<and> k < j \<longrightarrow> \<not> hit st start fin c k" by auto
    have "length (asinfo st) - after (Some j) < length (asinfo st) - after off"
      using j by (auto simp: after_def hit_def)
    from less [OF this] show ?thesis
      using r Some hits_step [OF j]
      by (subst collect_pieces.simps) (simp add: after_def Let_def piece_start_def piece_end_def)
  qed
qed

lemma union_add_piece:
  assumes "ps \<le> pe" and "pe + 1 < 2 ^ 32"
  shows "(\<Union>r \<in> set (add_piece ps pe ow l). rset r) = (\<Union>r \<in> set l. rset r) \<union> {ps..pe}"
proof (induction l)
  case Nil
  then show ?case by (simp add: rset_def)
next
  case (Cons c l)
  have a: "add32 pe 1 = Suc pe" using assms(2) by (simp add: wrap_simps)
  consider "\<not> (ar_start c \<le> ps \<and> ps \<le> ar_end c)" | "ar_start c = ps" "ps \<le> ar_end c"
    | "ar_start c < ps" "ps \<le> ar_end c" by linarith
  then show ?case
  proof cases
    case 1
    then show ?thesis using Cons by auto
  next
    case 2
    then have "rset c \<union> {ps..pe} = {ps..pe} \<union> {Suc pe..ar_end c}" using assms(1) by (auto simp: rset_def)
    then show ?thesis using 2 a by (auto simp: rset_def Let_def)
  next
    case 3
    then have b: "sub32 ps 1 = ps - 1" using assms by (simp add: sub32_eq)
    have "rset c \<union> {ps..pe} = {ar_start c..ps - 1} \<union> {ps..pe} \<union> {Suc pe..ar_end c}"
      using 3 assms(1) by (auto simp: rset_def)
    then show ?thesis using 3 a b by (auto simp: rset_def Let_def)
  qed
qed

lemma add_piece_sound:
  assumes "\<forall>r \<in> set l. P (ar_owner r) (rset r)" and "P ow {ps..pe}"
    and mono: "\<And>o' A B. P o' A \<Longrightarrow> B \<subseteq> A \<Longrightarrow> P o' B" and "ps \<le> pe" and "pe + 1 < 2 ^ 32"
  shows "\<forall>r \<in> set (add_piece ps pe ow l). P (ar_owner r) (rset r)"
  using assms(1)
proof (induction l)
  case Nil
  then show ?case using assms(2) by (simp add: rset_def)
next
  case (Cons c l)
  have a: "add32 pe 1 = Suc pe" using assms(5) by (simp add: wrap_simps)
  have b: "ar_start c < ps \<Longrightarrow> sub32 ps 1 = ps - 1" using assms(4,5) by (simp add: sub32_eq)
  have c: "P (ar_owner c) {ar_start c..ar_end c}" using Cons.prems by (simp add: rset_def)
  have "P (ar_owner c) {Suc pe..ar_end c}" if "ar_start c \<le> ps" by (rule mono [OF c]) (use that assms(4) in auto)
  moreover have "P (ar_owner c) {ar_start c..ps - 1}" if "ar_start c < ps" "ps \<le> ar_end c"
    by (rule mono [OF c]) (use that in auto)
  ultimately show ?case using Cons assms(2) a b by (auto simp: rset_def Let_def)
qed

subsection \<open>What adding an entry does\<close>

definition strip :: "as_entry \<Rightarrow> as_entry" where
  \<comment> \<open>an entry without its attribute bits: adding a child only changes those of its owner\<close>
  "strip e = e\<lparr>as_attr := 0\<rparr>"

lemma strip_simps [simp]:
  "as_start (strip e) = as_start e" "as_end (strip e) = as_end e" "as_owner (strip e) = as_owner e"
  "as_name (strip e) = as_name e" "strip (e\<lparr>as_attr := a\<rparr>) = strip e"
  by (simp_all add: strip_def)

definition as_room :: "cstr \<Rightarrow> as_state \<Rightarrow> bool" where
  \<comment> \<open>requests for space do not wrap around 32 bits\<close>
  "as_room name st \<longleftrightarrow> 0 < sizeof_as (as_conf st) \<and>
     max_size (as_page st) + length name + sizeof_as (as_conf st) + 16 \<le> 2 ^ 32"

definition new_entry :: "cstr \<Rightarrow> nat \<Rightarrow> nat \<Rightarrow> nat option \<Rightarrow> as_state \<Rightarrow> as_entry \<Rightarrow> bool" where
  "new_entry name start fin owner st e \<longleftrightarrow> as_start e = start \<and> as_end e = fin \<and> as_owner e = owner \<and>
     hwi_find_string (as_page st) (as_name e) = name"

definition extends :: "as_state \<Rightarrow> as_entry list \<Rightarrow> as_state \<Rightarrow> bool" where
  \<comment> \<open>the list has been extended by the entries \<open>es\<close>, and the old ones keep their ranges, names
     and owners\<close>
  "extends st es st' \<longleftrightarrow> map strip (asinfo st') = map strip (asinfo st) @ map strip es \<and>
     (\<forall>i < length (asinfo st). as_nm st' i = as_nm st i) \<and>
     as_conf st' = as_conf st \<and> max_size (as_page st') = max_size (as_page st)"

lemma grow_str_table:
  assumes "grow_syspage_section i n s = Inr s'" and "grow_fits n s" and "syspage_inv s" and "i \<noteq> S_strings"
  shows "contents s' S_strings = contents s S_strings" and "str_table ss s' = str_table ss s"
proof -
  show *: "contents s' S_strings = contents s S_strings"
    using assms page.grow_other [OF assms(1) _ assms(2,3)] by (cases "n = 0") (auto simp: grow_zero)
  then show "str_table ss s' = str_table ss s" by (simp add: str_table_def)
qed

lemma as_wf_fits: "as_wf ss st \<Longrightarrow> as_room name st \<Longrightarrow> n \<le> length name + sizeof_as (as_conf st) + 8 \<Longrightarrow>
    grow_fits n (as_page st)"
  by (auto simp: as_wf_def as_room_def grow_fits_def syspage_inv_def)

lemma as_append_page:
  assumes wf: "as_wf ss st" and room: "as_room name st" and "good_name name"
    and s: "add_string name (as_page st) = Inr (i, pg)"
    and g: "grow_syspage_section S_asinfo (sizeof_as (as_conf st)) pg = Inr pg'"
  shows "\<exists>ys. str_table (ss @ ys) pg' \<and> syspage_inv pg' \<and> name \<in> set (ss @ ys) \<and> i = str_off name (ss @ ys) \<and>
    max_size pg' = max_size (as_page st)"
proof -
  have inv: "syspage_inv (as_page st)" "str_table ss (as_page st)" using wf by (auto simp: as_wf_def)
  obtain ys where ys: "str_table (ss @ ys) pg" "syspage_inv pg" "name \<in> set (ss @ ys)" "i = str_off name (ss @ ys)"
    using add_string_ok [OF inv assms(3) as_wf_fits [OF wf room] s] by auto
  have mx: "max_size pg = max_size (as_page st)" by (rule add_string_max [OF s])
  have f: "grow_fits (sizeof_as (as_conf st)) pg"
    using room ys(2) mx by (auto simp: as_room_def grow_fits_def syspage_inv_def)
  show ?thesis
    using ys mx grow_str_table(2) [OF g f ys(2)] grow_inv [OF g f ys(2)] grow_max [OF g] by auto
qed

lemma as_append_spec:
  assumes wf: "as_wf ss st" and room: "as_room name st" and gn: "good_name name"
    and ow: "\<And>o'. owner = Some o' \<Longrightarrow> o' < length (asinfo st)"
    and app: "as_append start fin attr name owner st = Inr (off, st')"
  shows "off = length (asinfo st)"
    and "\<exists>e. extends st [e] st' \<and> new_entry name start fin owner st' e"
    and "\<exists>ys. as_wf (ss @ ys) st'"
proof -
  obtain i pg pg' where s: "add_string name (as_page st) = Inr (i, pg)"
    and g: "grow_syspage_section S_asinfo (sizeof_as (as_conf st)) pg = Inr pg'"
    and off: "off = length (asinfo st)"
    and pg': "as_page st' = pg'" and cf: "as_conf st' = as_conf st"
    using app by (auto simp: as_append_def bindE_Inr_iff Let_def)
  define e where "e = \<lparr>as_start = start, as_end = fin, as_owner = owner, as_name = i,
    as_attr = attr AND 0xffff, as_priority = AS_PRIORITY_DEFAULT (as_conf st), as_checker = None\<rparr>"
  have es: "asinfo st' = (case owner of None \<Rightarrow> asinfo st @ [e]
      | Some o' \<Rightarrow> (asinfo st @ [e])[o' := ((asinfo st @ [e]) ! o')
          \<lparr>as_attr := as_attr ((asinfo st @ [e]) ! o') OR AS_ATTR_KIDS (as_conf st)\<rparr>])"
    using app s g by (auto simp: as_append_def Let_def e_def split: option.splits)
  have strips: "map strip (asinfo st') = map strip (asinfo st) @ [strip e]"
    using ow by (cases owner) (auto simp: es list_update_append map_update nth_append list_update_same_conv)
  obtain ys where ys: "str_table (ss @ ys) pg'" "syspage_inv pg'" "name \<in> set (ss @ ys)"
    "i = str_off name (ss @ ys)" "max_size pg' = max_size (as_page st)"
    using as_append_page [OF wf room gn s g] by blast
  have len: "length (asinfo st') = Suc (length (asinfo st))" using arg_cong [OF strips, of length] by simp
  have nth: "strip (asinfo st' ! k) = (if k < length (asinfo st) then strip (asinfo st ! k) else strip e)"
    if "k < length (asinfo st')" for k
    using arg_cong [OF strips, of "\<lambda>l. l ! k"] that len by (auto simp: nth_append)
  note nths = nth [THEN arg_cong [of _ _ as_name]] nth [THEN arg_cong [of _ _ as_owner]]
  have names: "\<exists>x \<in> set ss. as_name (asinfo st ! k) = str_off x ss" if "k < length (asinfo st)" for k
    using wf that by (auto simp: as_wf_def)
  show "off = length (asinfo st)" by (rule off)
  have "as_nm st' k = as_nm st k" if k: "k < length (asinfo st)" for k
  proof -
    obtain x where x: "x \<in> set ss" "as_name (asinfo st ! k) = str_off x ss" using names [OF k] by blast
    have "as_name (asinfo st' ! k) = as_name (asinfo st ! k)" using nths(1) [of k] k len by simp
    then show ?thesis
      using x find_string_table [OF ys(1), of x] find_string_table [of ss "as_page st" x] wf
      by (simp add: as_nm_def pg' as_wf_def str_off_old)
  qed
  then show "\<exists>e. extends st [e] st' \<and> new_entry name start fin owner st' e"
    using strips cf ys(3,4,5) find_string_table [OF ys(1,3)]
    by (intro exI [of _ e]) (simp add: extends_def new_entry_def pg' e_def)
  have "(\<exists>x \<in> set (ss @ ys). as_name (asinfo st' ! k) = str_off x (ss @ ys)) \<and>
      (\<forall>o'. as_owner (asinfo st' ! k) = Some o' \<longrightarrow> o' < k)" if k: "k < length (asinfo st')" for k
  proof (cases "k < length (asinfo st)")
    case True
    obtain x where x: "x \<in> set ss" "as_name (asinfo st ! k) = str_off x ss" using names [OF True] by blast
    then show ?thesis using nths [OF k] True wf by (auto simp: as_wf_def str_off_old intro!: bexI [of _ x])
  next
    case False
    then show ?thesis using nths [OF k] k len ys(3,4) ow by (auto simp: e_def)
  qed
  then show "\<exists>ys. as_wf (ss @ ys) st'" using ys(1,2) by (auto simp: as_wf_def pg')
qed

lemma as_append_Inl:
  assumes "as_wf ss st" and "as_room name st" and "good_name name"
    and "as_append start fin attr name owner st = Inl e"
  shows "\<exists>n m. e = Syspage_overflow n m"
proof (cases "add_string name (as_page st)")
  case (Inl a)
  then show ?thesis
    using add_string_Inl [of ss "as_page st" name a] as_wf_fits [OF assms(1,2)] assms
    by (auto simp: as_append_def as_wf_def)
next
  case (Inr r)
  obtain i pg where r: "r = (i, pg)" by (cases r)
  then have "grow_syspage_section S_asinfo (sizeof_as (as_conf st)) pg = Inl e"
    using Inr assms(4) by (cases "grow_syspage_section S_asinfo (sizeof_as (as_conf st)) pg") (auto simp: as_append_def Let_def)
  then show ?thesis by (auto simp: grow_syspage_section_def Let_def split: if_splits)
qed

lemma as_append_returns:
  assumes "as_wf ss st" and "as_room name st" and "good_name name"
    and "total_size (as_page st) + length name + sizeof_as (as_conf st) + 17 \<le> max_size (as_page st)"
  shows "\<exists>off st'. as_append start fin attr name owner st = Inr (off, st')"
proof -
  obtain i pg where s: "add_string name (as_page st) = Inr (i, pg)"
    and t: "total_size pg \<le> total_size (as_page st) + length name + 9"
    using add_string_returns [of ss "as_page st" name] as_wf_fits [OF assms(1,2)] assms
    by (auto simp: as_wf_def)
  have f: "grow_fits (sizeof_as (as_conf st)) pg"
    using t assms(2,4) by (simp add: grow_fits_def as_room_def)
  have "ROUND (sizeof_as (as_conf st)) 8 < sizeof_as (as_conf st) + 8"
    using ROUND_bounds(2) [of "sizeof_as (as_conf st)" 3] assms(2) by (simp add: as_room_def)
  then have "total_size pg + ROUND (sizeof_as (as_conf st)) 8 \<le> max_size pg"
    using t assms(4) add_string_max [OF s] by simp
  from grow_returns [OF f this, of S_asinfo] show ?thesis
    using s by (auto simp: as_append_def Let_def)
qed

lemma extends_refl [simp]: "extends st [] st"
  by (simp add: extends_def)

lemma extends_length: "extends st es st' \<Longrightarrow> length (asinfo st') = length (asinfo st) + length es"
  by (metis extends_def length_append length_map)

lemma extends_nth:
  assumes "extends st es st'" and "i < length (asinfo st)"
  shows "strip (asinfo st' ! i) = strip (asinfo st ! i)"
proof -
  have "map strip (asinfo st') ! i = (map strip (asinfo st) @ map strip es) ! i"
    using assms(1) by (simp add: extends_def)
  then show ?thesis using assms(2) extends_length [OF assms(1)] by (simp add: nth_append)
qed

lemma extends_nth_new:
  assumes "extends st es st'" and "k < length es"
  shows "strip (asinfo st' ! (length (asinfo st) + k)) = strip (es ! k)"
proof -
  have "map strip (asinfo st') ! (length (asinfo st) + k) = (map strip (asinfo st) @ map strip es) ! (length (asinfo st) + k)"
    using assms(1) by (simp add: extends_def)
  then show ?thesis using assms(2) extends_length [OF assms(1)] by (simp add: nth_append)
qed

lemma extends_trans:
  assumes "extends st es st'" and "extends st' fs st''"
  shows "extends st (es @ fs) st''"
  using assms extends_length [OF assms(1)] by (auto simp: extends_def)

lemma extends_room: "extends st es st' \<Longrightarrow> as_room name st' = as_room name st"
  by (simp add: extends_def as_room_def)

lemma as_add_append:
  assumes "attr AND AS_OVERLAY_IO = 0" and "start < 2 ^ 32" and "fin < 2 ^ 32"
  shows "as_add start fin attr name owner st = as_append start fin attr name owner st"
  using assms by (subst as_add_def, subst as_add64.simps) (auto simp: bindE_def wrap_simps split: sum.split)

definition piece_ok :: "as_state \<Rightarrow> as_range \<Rightarrow> bool" where
  "piece_ok st r \<longleftrightarrow> ar_owner r < length (asinfo st) \<and> ar_end r < 2 ^ 32"

definition entry_of :: "as_range \<Rightarrow> as_entry \<Rightarrow> bool" where
  "entry_of r e \<longleftrightarrow> as_start e = ar_start r \<and> as_end e = ar_end r \<and> as_owner e = Some (ar_owner r)"

definition solid :: "as_range list \<Rightarrow> as_range list" where
  \<comment> \<open>the pieces that are not empty\<close>
  "solid l = filter (\<lambda>r. ar_start r \<le> ar_end r) l"

lemma new_entry_later:
  assumes "as_wf ss st'" and "extends st es st'" and "extends st' fs st''" and "e \<in> set es"
    and "hwi_find_string (as_page st') (as_name e) = name"
  shows "hwi_find_string (as_page st'') (as_name e) = name"
proof -
  obtain k where k: "k < length es" "e = es ! k" using assms(4) by (auto simp: in_set_conv_nth)
  let ?k = "length (asinfo st) + k"
  have len: "length (asinfo st') = length (asinfo st) + length es"
    "length (asinfo st'') = length (asinfo st') + length fs"
    using extends_length assms(2,3) by blast+
  have "strip (asinfo st' ! ?k) = strip e" using extends_nth_new [OF assms(2) k(1)] k(2) by simp
  moreover have "strip (asinfo st'' ! ?k) = strip (asinfo st' ! ?k)" using extends_nth [OF assms(3)] k len by simp
  ultimately have "as_name (asinfo st' ! ?k) = as_name e" "as_name (asinfo st'' ! ?k) = as_name e"
    by (auto dest: arg_cong [of _ _ as_name])
  moreover have "as_nm st'' ?k = as_nm st' ?k" using assms(3) k len by (simp add: extends_def)
  ultimately show ?thesis using assms(5) by (simp add: as_nm_def)
qed

definition ranges_added :: "cstr list \<Rightarrow> cstr \<Rightarrow> as_range list \<Rightarrow> nat option \<Rightarrow> nat \<Rightarrow> as_state \<Rightarrow>
    nat option \<times> nat \<times> as_state \<Rightarrow> bool" where
  \<comment> \<open>what \<open>add_ranges\<close> returns when it returns\<close>
  "ranges_added ss name l so off st = (\<lambda>(so', off', st'). \<exists>es ys. extends st es st' \<and> as_wf (ss @ ys) st' \<and>
     list_all2 entry_of (solid l) es \<and>
     (\<forall>e \<in> set es. hwi_find_string (as_page st') (as_name e) = name) \<and>
     (if es = [] then so' = so \<and> off' = off
      else so' = (if so = None then Some (length (asinfo st)) else so) \<and>
           off' + 1 = length (asinfo st) + length es))"

lemma ranges_added_step:
  assumes e1: "extends st [e1] st1" "new_entry name (ar_start r) (ar_end r) (Some (ar_owner r)) st1 e1"
    and wf1: "as_wf (ss @ ys1) st1" and r: "ar_start r \<le> ar_end r"
    and IH: "ranges_added (ss @ ys1) name l (if so = None then Some (length (asinfo st)) else so)
      (length (asinfo st)) st1 res"
  shows "ranges_added ss name (r # l) so off st res"
proof -
  obtain so2 off2 st2 where q2: "res = (so2, off2, st2)" by (cases res)
  have len1: "length (asinfo st1) = length (asinfo st) + 1" using extends_length [OF e1(1)] by simp
  obtain es2 ys2 where 2: "extends st1 es2 st2" "as_wf (ss @ ys1 @ ys2) st2"
    "list_all2 entry_of (solid l) es2"
    "\<forall>e \<in> set es2. hwi_find_string (as_page st2) (as_name e) = name"
    "so2 = (if so = None then Some (length (asinfo st)) else so) \<and> off2 + 1 = length (asinfo st1) + length es2"
    using IH q2 len1 by (auto simp: ranges_added_def split: if_splits)
  have n1: "hwi_find_string (as_page st2) (as_name e1) = name"
    using new_entry_later [OF wf1 e1(1) 2(1)] e1(2) by (simp add: new_entry_def)
  have all: "list_all2 entry_of (solid (r # l)) (e1 # es2)"
    using 2(3) r e1(2) by (simp add: solid_def entry_of_def new_entry_def)
  have ext: "extends st (e1 # es2) st2" using extends_trans [OF e1(1) 2(1)] by simp
  have names: "\<forall>e \<in> set (e1 # es2). hwi_find_string (as_page st2) (as_name e) = name"
    using n1 2(4) by simp
  show ?thesis
    unfolding ranges_added_def q2 prod.case
    by (rule exI [of _ "e1 # es2"], rule exI [of _ "ys1 @ ys2"]) (use ext 2(2,5) all names len1 in auto)
qed

lemma add_ranges_spec:
  assumes "as_wf ss st" and "as_room name st" and "good_name name" and "attr AND AS_OVERLAY_IO = 0"
    and "\<forall>r \<in> set l. piece_ok st r"
  shows "case add_ranges l attr name so off st of
      Inl e \<Rightarrow> \<exists>n m. e = Syspage_overflow n m
    | Inr res \<Rightarrow> ranges_added ss name l so off st res"
  using assms
proof (induction l arbitrary: st so off ss)
  case Nil
  then show ?case by (auto simp: solid_def ranges_added_def intro!: exI [of _ "[]"])
next
  case (Cons r l)
  show ?case
  proof (cases "ar_start r \<le> ar_end r")
    case False
    then have "ranges_added ss name (r # l) so off st = ranges_added ss name l so off st"
      by (simp add: solid_def ranges_added_def)
    with Cons.IH [of ss st so off] Cons.prems False show ?thesis
      by (cases "add_ranges l attr name so off st") simp_all
  next
    case True
    have r: "\<And>o'. Some (ar_owner r) = Some o' \<Longrightarrow> o' < length (asinfo st)" "ar_end r < 2 ^ 32" "ar_start r < 2 ^ 32"
      using Cons.prems(5) True by (auto simp: piece_ok_def)
    note add = as_add_append [OF Cons.prems(4) r(3,2), of name "Some (ar_owner r)" st]
    show ?thesis
    proof (cases "as_append (ar_start r) (ar_end r) attr name (Some (ar_owner r)) st")
      case (Inl e)
      then show ?thesis using as_append_Inl [OF Cons.prems(1,2,3) Inl] True add by simp
    next
      case (Inr q)
      obtain o1 st1 where q: "q = (o1, st1)" by (cases q)
      note app = Inr [unfolded q]
      note sp = as_append_spec [OF Cons.prems(1,2,3) r(1) app]
      obtain e1 ys1 where e1: "extends st [e1] st1"
        "new_entry name (ar_start r) (ar_end r) (Some (ar_owner r)) st1 e1" "as_wf (ss @ ys1) st1"
        using sp(2,3) by blast
      have ok1: "\<forall>r \<in> set l. piece_ok st1 r"
        using Cons.prems(5) extends_length [OF e1(1)] by (auto simp: piece_ok_def)
      have room1: "as_room name st1" using Cons.prems(2) extends_room [OF e1(1)] by simp
      let ?so = "if so = None then Some o1 else so"
      have "add_ranges (r # l) attr name so off st = add_ranges l attr name ?so o1 st1"
        using True add app by simp
      then show ?thesis
        using Cons.IH [OF e1(3) room1 Cons.prems(3,4) ok1, of ?so o1]
          ranges_added_step [OF e1 True, of l so _ off]
        unfolding sp(1) by (cases "add_ranges l attr name ?so o1 st1") (simp_all only: sp(1) sum.case)
    qed
  qed
qed

subsection \<open>The pieces lie in the containers and cover the range\<close>

definition as_below4G :: "as_state \<Rightarrow> bool" where
  "as_below4G st \<longleftrightarrow> (\<forall>e \<in> set (asinfo st). as_start e \<le> as_end e \<and> as_end e < 2 ^ 32)"

definition containers :: "as_state \<Rightarrow> cstr \<Rightarrow> nat set" where
  "containers st c = {i. i < length (asinfo st) \<and> in_container st c i}"

lemma piece_of_hit:
  assumes "as_below4G st" and "start \<le> fin" and "hit st start fin c i"
  shows "piece_start st start i \<le> piece_end st fin i"
    and "{piece_start st start i..piece_end st fin i} = {start..fin} \<inter> eset (asinfo st ! i)"
    and "piece_end st fin i \<le> fin"
proof -
  have e: "as_start (asinfo st ! i) \<le> as_end (asinfo st ! i)" "as_end (asinfo st ! i) < 2 ^ 32"
    using assms(1,3) by (auto simp: as_below4G_def hit_def)
  have o: "overlaps start fin (asinfo st ! i)" using assms(3) by (simp add: hit_def)
  have p: "piece_start st start i = max start (as_start (asinfo st ! i))"
    "piece_end st fin i = min fin (as_end (asinfo st ! i))"
    using e by (auto simp: piece_start_def piece_end_def wrap_simps)
  show "piece_start st start i \<le> piece_end st fin i"
    unfolding p using o e assms(2) by (auto simp: overlaps_def)
  show "{piece_start st start i..piece_end st fin i} = {start..fin} \<inter> eset (asinfo st ! i)"
    unfolding p by (auto simp: eset_def)
  show "piece_end st fin i \<le> fin" unfolding p by simp
qed

abbreviation "add_pieces st start fin \<equiv> fold (\<lambda>i. add_piece (piece_start st start i) (piece_end st fin i) i)"

lemma fold_pieces:
  assumes "as_below4G st" and "start \<le> fin" and "fin + 1 < 2 ^ 32" and "\<forall>i \<in> set js. hit st start fin c i"
  shows "(\<Union>r \<in> set (add_pieces st start fin js l). rset r) =
    (\<Union>r \<in> set l. rset r) \<union> (\<Union>i \<in> set js. {start..fin} \<inter> eset (asinfo st ! i))"
  using assms(4)
proof (induction js arbitrary: l)
  case (Cons i js)
  have h: "hit st start fin c i" using Cons.prems(1) by simp
  note p = piece_of_hit [OF assms(1,2) h]
  have "piece_end st fin i + 1 < 2 ^ 32" using p(3) assms(3) by simp
  from union_add_piece [OF p(1) this, of i l] show ?case using Cons.IH Cons.prems by (simp add: p(2) Un_assoc)
qed simp

definition part_of :: "as_state \<Rightarrow> nat \<Rightarrow> nat \<Rightarrow> cstr \<Rightarrow> nat \<Rightarrow> nat set \<Rightarrow> bool" where
  "part_of st start fin c o' A \<longleftrightarrow> hit st start fin c o' \<and> A \<subseteq> {start..fin} \<inter> eset (asinfo st ! o')"

lemma fold_pieces_sound:
  assumes "as_below4G st" and "start \<le> fin" and "fin + 1 < 2 ^ 32" and "\<forall>i \<in> set js. hit st start fin c i"
    and "\<forall>r \<in> set l. part_of st start fin c (ar_owner r) (rset r)"
  shows "\<forall>r \<in> set (add_pieces st start fin js l). part_of st start fin c (ar_owner r) (rset r)"
  using assms(4,5)
proof (induction js arbitrary: l)
  case (Cons i js)
  have h: "hit st start fin c i" using Cons.prems(1) by simp
  note p = piece_of_hit [OF assms(1,2) h]
  have "\<forall>r \<in> set (add_piece (piece_start st start i) (piece_end st fin i) i l).
      part_of st start fin c (ar_owner r) (rset r)"
  proof (rule add_piece_sound [OF Cons.prems(2) _ _ p(1)])
    show "part_of st start fin c i {piece_start st start i..piece_end st fin i}"
      using h p(2) by (simp add: part_of_def)
    show "part_of st start fin c o' B" if "part_of st start fin c o' A" "B \<subseteq> A" for o' A B
      using that by (auto simp: part_of_def)
    show "piece_end st fin i + 1 < 2 ^ 32" using p(3) assms(3) by simp
  qed
  then show ?case using Cons.IH Cons.prems(1) by simp
qed simp

lemma not_hit_disjoint:
  "\<not> overlaps start fin e \<Longrightarrow> as_start e \<le> as_end e \<Longrightarrow> {start..fin} \<inter> eset e = {}"
  by (auto simp: overlaps_def eset_def)

lemma collect_pieces_correct:
  assumes "as_wf ss st" and "as_below4G st" and "start \<le> fin" and "fin + 1 < 2 ^ 32"
  shows "\<exists>l. collect_pieces st start fin c None [] = Inr l \<and>
    (\<Union>r \<in> set l. rset r) = {start..fin} \<inter> (\<Union>i \<in> containers st c. eset (asinfo st ! i)) \<and>
    (\<forall>r \<in> set l. ar_owner r \<in> containers st c \<and> rset r \<subseteq> {start..fin} \<inter> eset (asinfo st ! ar_owner r))"
proof -
  let ?js = "hits st start fin c 0"
  have all: "\<forall>i \<in> set ?js. hit st start fin c i" by (simp add: hits_def)
  note f = fold_pieces [OF assms(2-4) all, of "[]"] fold_pieces_sound [OF assms(2-4) all, of "[]"]
  have "(\<Union>i \<in> set ?js. {start..fin} \<inter> eset (asinfo st ! i)) =
      {start..fin} \<inter> (\<Union>i \<in> containers st c. eset (asinfo st ! i))"
  proof -
    have "{start..fin} \<inter> eset (asinfo st ! i) = {}" if "i \<in> containers st c" "i \<notin> set ?js" for i
      using that assms(2) by (intro not_hit_disjoint) (auto simp: containers_def hits_def hit_def as_below4G_def)
    moreover have "set ?js \<subseteq> containers st c" by (auto simp: hits_def hit_def containers_def)
    ultimately show ?thesis by blast
  qed
  moreover have "ar_owner r \<in> containers st c \<and> rset r \<subseteq> {start..fin} \<inter> eset (asinfo st ! ar_owner r)"
    if "part_of st start fin c (ar_owner r) (rset r)" for r
    using that by (simp add: part_of_def hit_def containers_def)
  ultimately show ?thesis
    using collect_pieces_spec [OF assms(1), of start fin c None "[]"] f by (simp add: after_def)
qed

lemma solid_union: "(\<Union>r \<in> set (solid l). rset r) = (\<Union>r \<in> set l. rset r)"
  by (auto simp: solid_def rset_def)

lemma entries_union: "list_all2 entry_of l es \<Longrightarrow> (\<Union>e \<in> set es. eset e) = (\<Union>r \<in> set l. rset r)"
  by (induction rule: list_all2_induct) (auto simp: entry_of_def eset_def rset_def)

lemma entry_of_mem: "list_all2 entry_of l es \<Longrightarrow> e \<in> set es \<Longrightarrow> \<exists>r \<in> set l. entry_of r e"
  by (induction rule: list_all2_induct) auto

lemma upd_attr_extends:
  assumes "extends st es st'" and "\<And>e. strip (f e) = strip e"
  shows "extends st es (upd_entry i f st')"
proof -
  have "map strip ((asinfo st')[i := f (asinfo st' ! i)]) = map strip (asinfo st')"
    by (simp add: map_update assms(2)) (metis list_update_id list_update_beyond map_update nth_map not_le)
  moreover have "as_name (asinfo st' ! k) = as_name ((asinfo st')[i := f (asinfo st' ! i)] ! k)" for k
    using assms(2) [of "asinfo st' ! i"] by (cases "k = i"; cases "i < length (asinfo st')")
      (auto simp: list_update_beyond dest: arg_cong [of _ _ as_name])
  ultimately show ?thesis using assms(1) by (auto simp: extends_def upd_entry_def as_nm_def)
qed

lemma upd_attr_wf: "as_wf ss st \<Longrightarrow> as_wf ss (upd_entry i (\<lambda>e. e\<lparr>as_attr := f e\<rparr>) st)"
  by (cases "i < length (asinfo st)") (auto simp: as_wf_def upd_entry_def nth_list_update list_update_beyond)

definition demo_as :: as_state where
  \<comment> \<open>the page after \<open>as_default\<close>: the string table holds one name and the list one entry\<close>
  "demo_as = \<lparr>as_page = demo_strings\<lparr>mem := (\<lambda>a. if 0x1040 \<le> a \<and> a < 0x1046 then str ''memory'' ! (a - 0x1040) else 0)\<rparr>,
     asinfo = [\<lparr>as_start = 0, as_end = 2 ^ 32 - 1, as_owner = None, as_name = 0, as_attr = 0,
                as_priority = 100, as_checker = None\<rparr>],
     as_conf = \<lparr>sizeof_as = 48, AS_ATTR_NONE = 0, AS_ATTR_KIDS = 0x8000, AS_ATTR_CONTINUED = 0x4000, AS_ATTR_RAM = 0x20,
                AS_PRIORITY_DEFAULT = 100\<rparr>,
     as_hooked = False\<rparr>"

lemma demo_as_asinfo: "length (asinfo demo_as) = 1" "as_start (asinfo demo_as ! 0) = 0"
  "as_end (asinfo demo_as ! 0) = 2 ^ 32 - 1" "as_owner (asinfo demo_as ! 0) = None" "as_name (asinfo demo_as ! 0) = 0"
  by (simp_all add: demo_as_def)

lemma demo_as_strings: "contents (as_page demo_as) S_strings = str ''memory'' @ [0, 0]"
proof -
  have "[0..<8] = [0, 1, 2, 3, 4, 5, 6, 7 :: nat]" by (simp add: upt_rec)
  then show ?thesis by (simp add: contents_def bytes_at_def demo_as_def demo_strings_def demo_page_def str_def)
qed

lemma demo_as_wf: "as_wf [str ''memory''] demo_as"
proof -
  have "syspage_inv (as_page demo_as)" by (simp add: demo_as_def syspage_inv_def demo_strings_def demo_page_def sect_end_def)
  moreover have "str_table [str ''memory''] (as_page demo_as)"
    by (auto simp: str_table_def demo_as_strings good_name_def str_def of_char_def intro!: exI [of _ 1])
  moreover have "str_off (str ''memory'') [str ''memory''] = 0" by (simp add: str_off_def)
  ultimately show ?thesis by (simp add: as_wf_def demo_as_def)
qed

lemma demo_as_name: "as_nm demo_as 0 = str ''memory''"
  by (simp add: as_nm_def hwi_find_string_def demo_as_strings demo_as_asinfo) (simp add: str_def of_char_def cstr_of_def)

lemma demo_as_container: "containers demo_as (str ''memory'') = {0}"
  by (auto simp: containers_def in_container_def demo_as_asinfo) (simp add: match_name.simps demo_as_name demo_as_asinfo)

lemma demo_as_hit:
  assumes "a \<le> b" and "b < 2 ^ 32"
  shows "hit demo_as a b (str ''memory'') j \<longleftrightarrow> j = 0"
proof -
  have "hit demo_as a b (str ''memory'') j \<longleftrightarrow>
      j \<in> containers demo_as (str ''memory'') \<and> overlaps a b (asinfo demo_as ! j)"
    by (auto simp: hit_def containers_def)
  then show ?thesis using assms by (cases "j = 0") (simp_all add: demo_as_container overlaps_def demo_as_asinfo)
qed

lemma demo_as_add:
  assumes "a \<le> b" and "b < 2 ^ 32"
  shows "\<exists>r st'. as_add_containing a b 0x20 (str ''ram'') (str ''memory'') demo_as = Inr (r, st')"
proof -
  let ?attr = "((0x20 :: u32) AND NOT AS_OVERLAY_IO) OR AS_ATTR_CONTINUED (as_conf demo_as)"
  have g: "good_name (str ''ram'')" by (simp add: good_name_def str_def of_char_def)
  have h: "as_room (str ''ram'') demo_as" "?attr AND AS_OVERLAY_IO = 0" "(0x20 :: u32) AND AS_OVERLAY_IO = 0"
    "total_size (as_page demo_as) + length (str ''ram'') + sizeof_as (as_conf demo_as) + 17 \<le> max_size (as_page demo_as)"
    by (simp_all add: demo_as_def as_room_def demo_strings_def demo_page_def str_def AS_OVERLAY_IO_def)
  have "hits demo_as a b (str ''memory'') 0 = [0]"
    using demo_as_hit [OF assms] by (simp add: hits_def demo_as_asinfo)
  then have c: "collect_pieces demo_as a b (str ''memory'') None [] = Inr [\<lparr>ar_start = a, ar_end = b, ar_owner = 0\<rparr>]"
    using collect_pieces_spec [OF demo_as_wf, of a b "str ''memory''" None "[]"] assms
    by (auto simp: after_def piece_start_def piece_end_def demo_as_asinfo)
  obtain off st' where "as_append a b ?attr (str ''ram'') (Some 0) demo_as = Inr (off, st')"
    using as_append_returns [OF demo_as_wf h(1) g h(4)] by blast
  then have "as_add a b ?attr (str ''ram'') (Some 0) demo_as = Inr (off, st')"
    using as_add_append [OF h(2), of a b] assms by simp
  then show ?thesis using c assms(1) h(3) by (simp add: as_add_containing_def Let_def)
qed

text \<open>
  \<open>as_find_containing\<close> returns the first entry after the given offset that overlaps the range
  and lies in an address space of the given name (it or one of its owners has the name), and
  returns nothing only when there is no such entry; it always returns.
\<close>

theorem as_find_containing_correct:
  assumes "as_wf ss st"
  shows "\<exists>r. as_find_containing off start fin container st = Inr r \<and>
    (case r of
       None \<Rightarrow> \<forall>j \<ge> after off. \<not> hit st start fin container j
     | Some j \<Rightarrow> after off \<le> j \<and> hit st start fin container j \<and>
         (\<forall>k. after off \<le> k \<and> k < j \<longrightarrow> \<not> hit st start fin container k))"
  unfolding as_find_containing_def by (rule find_containing_from_spec [OF assms])

theorem as_find_containing_correct_witness:
  "as_wf [str ''memory''] demo_as \<and>
   as_find_containing None 0x10000000 0x1fffffff (str ''memory'') demo_as = Inr (Some 0)"
proof -
  have "hit demo_as 0x10000000 0x1fffffff (str ''memory'') j \<longleftrightarrow> j = 0" for j
    by (rule demo_as_hit) simp_all
  then show ?thesis
    using as_find_containing_correct [OF demo_as_wf, of None "0x10000000" "0x1fffffff" "str ''memory''"] demo_as_wf
    by (auto simp: after_def split: option.splits)
qed

definition covers :: "as_state \<Rightarrow> nat \<Rightarrow> nat \<Rightarrow> cstr \<Rightarrow> cstr \<Rightarrow> as_entry list \<Rightarrow> as_state \<Rightarrow> bool" where
  \<comment> \<open>the entries \<open>es\<close> are the part of the range that lies in the containers, with the given name,
     each inside its owner\<close>
  "covers st start fin name c es st' \<longleftrightarrow>
     (\<Union>e \<in> set es. eset e) = {start..fin} \<inter> (\<Union>i \<in> containers st c. eset (asinfo st ! i)) \<and>
     (\<forall>e \<in> set es. hwi_find_string (as_page st') (as_name e) = name \<and>
        (\<exists>o' \<in> containers st c. as_owner e = Some o' \<and> eset e \<subseteq> eset (asinfo st ! o')))"

lemma ranges_cover:
  assumes "ranges_added ss name l None 0 st (so', off', st')"
    and "(\<Union>r \<in> set l. rset r) = {start..fin} \<inter> (\<Union>i \<in> containers st c. eset (asinfo st ! i))"
    and "\<forall>r \<in> set l. ar_owner r \<in> containers st c \<and> rset r \<subseteq> {start..fin} \<inter> eset (asinfo st ! ar_owner r)"
  shows "\<exists>es ys. extends st es st' \<and> as_wf (ss @ ys) st' \<and> covers st start fin name c es st' \<and>
    (if es = [] then so' = None else so' = Some (length (asinfo st)))"
proof -
  obtain es ys where es: "extends st es st'" "as_wf (ss @ ys) st'" "list_all2 entry_of (solid l) es"
      "\<forall>e \<in> set es. hwi_find_string (as_page st') (as_name e) = name"
      "if es = [] then so' = None else so' = Some (length (asinfo st))"
    using assms(1) by (auto simp: ranges_added_def split: if_splits)
  have "\<exists>o' \<in> containers st c. as_owner e = Some o' \<and> eset e \<subseteq> eset (asinfo st ! o')" if "e \<in> set es" for e
    using entry_of_mem [OF es(3) that] assms(3)
    by (fastforce simp: solid_def entry_of_def eset_def rset_def)
  then have "covers st start fin name c es st'"
    using es(4) assms(2) entries_union [OF es(3)] by (simp add: covers_def solid_union)
  then show ?thesis using es by blast
qed

lemma pieces_ok:
  assumes "fin + 1 < 2 ^ 32"
    and "\<forall>r \<in> set l. ar_owner r \<in> containers st c \<and> rset r \<subseteq> {start..fin} \<inter> eset (asinfo st ! ar_owner r)"
  shows "\<forall>r \<in> set (solid l). piece_ok st r"
  using assms by (fastforce simp: solid_def piece_ok_def containers_def rset_def)

lemma add_ranges_solid: "add_ranges (solid l) attr name so off st = add_ranges l attr name so off st"
proof (induction l arbitrary: so off st)
  case (Cons r l)
  then show ?case
    by (auto simp: solid_def bindE_def split: sum.split)
qed (simp add: solid_def)

lemma ranges_added_solid: "ranges_added ss name (solid l) so off st = ranges_added ss name l so off st"
  by (simp add: ranges_added_def solid_def)

text \<open>
  C6: \<open>as_add_containing\<close> enters exactly the part of the range that lies in address spaces of the
  given container name: the new entries together cover the intersection of the range with those
  address spaces, each has the given name, and each lies inside the address space that is its
  owner. Entries that were there keep their ranges, names and owners, the list stays well formed,
  and the offset returned is that of the first new entry, or none when there is none. The only
  failure is a full system page.
\<close>

theorem as_add_containing_correct:
  assumes "as_wf ss st" and "as_below4G st" and "as_room name st" and "good_name name"
    and "start \<le> fin" and "fin + 1 < 2 ^ 32"
    and "attr AND AS_OVERLAY_IO = 0" and "AS_ATTR_CONTINUED (as_conf st) AND AS_OVERLAY_IO = 0"
  shows "case as_add_containing start fin attr name container st of
      Inl e \<Rightarrow> \<exists>n m. e = Syspage_overflow n m
    | Inr (r, st') \<Rightarrow> \<exists>es ys. extends st es st' \<and> as_wf (ss @ ys) st' \<and>
        covers st start fin name container es st' \<and>
        r = (if es = [] then None else Some (length (asinfo st)))"
proof -
  let ?cont = "AS_ATTR_CONTINUED (as_conf st)"
  let ?attr = "(attr AND NOT AS_OVERLAY_IO) OR ?cont"
  have attr: "?attr AND AS_OVERLAY_IO = 0"
    using assms(8) by (simp add: bit.conj_disj_distrib2 and.assoc)
  obtain l where l: "collect_pieces st start fin container None [] = Inr l"
    "(\<Union>r \<in> set l. rset r) = {start..fin} \<inter> (\<Union>i \<in> containers st container. eset (asinfo st ! i))"
    "\<forall>r \<in> set l. ar_owner r \<in> containers st container \<and> rset r \<subseteq> {start..fin} \<inter> eset (asinfo st ! ar_owner r)"
    using collect_pieces_correct [OF assms(1,2,5,6), of container] by blast
  note add = add_ranges_spec [OF assms(1,3,4) attr pieces_ok [OF assms(6) l(3)], of None 0,
      unfolded add_ranges_solid ranges_added_solid]
  show ?thesis
  proof (cases "add_ranges l ?attr name None 0 st")
    case (Inl e)
    then show ?thesis using add l(1) by (simp add: as_add_containing_def Let_def)
  next
    case (Inr res)
    obtain so off st1 where res: "res = (so, off, st1)" by (cases res)
    obtain es ys where es: "extends st es st1" "as_wf (ss @ ys) st1" "covers st start fin name container es st1"
      "if es = [] then so = None else so = Some (length (asinfo st))"
      using ranges_cover [OF _ l(2,3), of ss name so off st1] add Inr res by auto
    let ?f = "\<lambda>as :: as_entry. as\<lparr>as_attr := as_attr as AND NOT ?cont\<rparr>"
    have "extends st es (upd_entry off ?f st1)" by (rule upd_attr_extends [OF es(1)]) simp
    moreover have "as_wf (ss @ ys) (upd_entry off ?f st1)" by (rule upd_attr_wf [OF es(2)])
    moreover have "covers st start fin name container es (upd_entry off ?f st1)"
      using es(3) by (simp add: covers_def upd_entry_def)
    ultimately show ?thesis
      using l(1) Inr res es assms(7)
      by (cases so) (auto simp: as_add_containing_def Let_def split: if_splits)
  qed
qed

theorem as_add_containing_correct_witness:
  "case as_add_containing 0x10000000 0x1fffffff 0x20 (str ''ram'') (str ''memory'') demo_as of
     Inl e \<Rightarrow> False
   | Inr (r, st') \<Rightarrow> \<exists>es. (\<Union>e \<in> set es. eset e) = {0x10000000..0x1fffffff} \<and> r = Some 1 \<and> extends demo_as es st'"
proof -
  have g: "good_name (str ''ram'')" by (simp add: good_name_def str_def of_char_def)
  have h: "as_below4G demo_as" "as_room (str ''ram'') demo_as" "AS_ATTR_CONTINUED (as_conf demo_as) AND AS_OVERLAY_IO = 0"
    by (simp_all add: demo_as_def as_below4G_def as_room_def demo_strings_def demo_page_def str_def AS_OVERLAY_IO_def)
  have u: "{0x10000000..0x1fffffff} \<inter> (\<Union>i \<in> containers demo_as (str ''memory''). eset (asinfo demo_as ! i)) =
      {0x10000000..0x1fffffff}"
    unfolding demo_as_container by (auto simp: eset_def demo_as_asinfo)
  have "(0x20 :: u32) AND AS_OVERLAY_IO = 0" by (simp add: AS_OVERLAY_IO_def)
  note t = as_add_containing_correct [OF demo_as_wf h(1,2) g _ _ this h(3), of "0x10000000" "0x1fffffff" "str ''memory''"]
  show ?thesis
  proof (cases "as_add_containing 0x10000000 0x1fffffff 0x20 (str ''ram'') (str ''memory'') demo_as")
    case (Inl e)
    then show ?thesis using demo_as_add [of "0x10000000" "0x1fffffff"] by simp
  next
    case (Inr q)
    obtain r st' where q: "q = (r, st')" by (cases q)
    obtain es where es: "extends demo_as es st'" "covers demo_as 0x10000000 0x1fffffff (str ''ram'') (str ''memory'') es st'"
      "r = (if es = [] then None else Some (length (asinfo demo_as)))"
      using t Inr q by auto
    moreover have "(\<Union>e \<in> set es. eset e) = {0x10000000..0x1fffffff}" using es(2) u by (simp only: covers_def)
    ultimately show ?thesis using Inr q demo_as_asinfo(1) by (auto split: if_splits)
  qed
qed

end
