(* ===== verification/Ram.thy ===== *)
theory Ram
  imports Asinfo
begin

section \<open>Physical memory\<close>

text \<open>
  \<^verbatim>\<open>startup/lib/ram.c\<close>: the list of free memory, the list of ranges to avoid, the scratch
  allocator \<open>ws_alloc\<close>, and the operations that add, allocate and reserve memory.

  \<open>ram_list\<close> is the list of entries before the one of size zero that ends the array; the code's
  \<open>ram_list_size\<close> is 16 bytes for each entry and for the end marker. \<open>avoid_list\<close> is the list
  of entries without the end marker; since an entry whose end is zero stops the loops over the
  array, they run over \<open>takeWhile\<close> of it. The code has no check that the avoid list stays inside
  its block of 1 KB. Addresses of \<open>ram_entry\<close> are 64 bits wide, every other address 32 bits.
  Pointers made by \<open>MAKE_1TO1_PTR\<close> are the addresses themselves. The watchers, functions that
  other code may register, are identified by numbers, and calling one is recorded in a log.
\<close>

record ram_entry =
  addr :: nat
  rsize :: nat

record avoid_entry =
  a_start :: nat
  a_end :: nat

record shdr_info =
  ram_paddr :: nat
  ram_size :: nat
  startup_size :: nat

record ram_state =
  r_as :: as_state
  shdr :: shdr_info
  secure_system :: bool
  sysram_added :: bool
  ws_early_next :: nat
  temp_syspage :: nat
  avoid_init :: bool               \<comment> \<open>\<open>avoid_list\<close> is not \<open>NULL\<close>\<close>
  avoid_list :: "avoid_entry list"
  ram_list :: "ram_entry list"
  watch_list :: "nat list"
  watch_log :: "(nat \<times> nat \<times> nat) list"

definition NULL_PADDR :: nat where "NULL_PADDR = 2 ^ 32 - 1"
definition MAX_PADDR32 :: nat where "MAX_PADDR32 = 0xffffffff"
definition PAGESIZE :: nat where "PAGESIZE = 0x1000"
definition TEMP_SYSPAGE_SIZE :: nat where "TEMP_SYSPAGE_SIZE = ROUND (32 * 1024) PAGESIZE"
definition MAX_RAM_LIST_SIZE :: nat where "MAX_RAM_LIST_SIZE = 3 * 1024"
definition MAX_AVOID_LIST_SIZE :: nat where "MAX_AVOID_LIST_SIZE = 1024"

definition ram_list_size :: "ram_entry list \<Rightarrow> nat" where
  "ram_list_size l = 16 * (length l + 1)"

subsection \<open>The list of free memory\<close>

fun add_mem_insert :: "ram_entry \<Rightarrow> ram_entry list \<Rightarrow> ram_entry list" where
  \<comment> \<open>the first loop of \<open>add_mem\<close> and the \<open>memmove\<close> that makes room\<close>
  "add_mem_insert n [] = [n]"
| "add_mem_insert n (r # rs) = (if addr r > addr n then n # r # rs else r # add_mem_insert n rs)"

fun add_mem_merge :: "ram_entry list \<Rightarrow> ram_entry list" where
  \<comment> \<open>the second loop: an entry that starts no later than its predecessor ends is merged into it\<close>
  "add_mem_merge (p # r # rs) =
     (let e = add64 (addr p) (rsize p);
          s = addr r
      in if s \<le> e
         then let e' = (if add64 s (rsize r) > e then add64 s (rsize r) else e)
              in add_mem_merge (p\<lparr>rsize := sub64 e' (addr p)\<rparr> # rs)
         else p # add_mem_merge (r # rs))"
| "add_mem_merge rs = rs"

definition add_mem :: "nat \<Rightarrow> nat \<Rightarrow> ram_entry list \<Rightarrow> startup_error + ram_entry list" where
  "add_mem start len l =
     (if len > 0 then
        if ram_list_size l > MAX_RAM_LIST_SIZE - 16 then Inl RAM_entry_overflow
        else Inr (add_mem_merge (add_mem_insert \<lparr>addr = start, rsize = len\<rparr> l))
      else Inr l)"

lemma length_insert [simp]: "length (add_mem_insert n l) = Suc (length l)"
  by (induction l) auto

lemma length_merge: "length (add_mem_merge l) \<le> length l"
  by (induction l rule: add_mem_merge.induct) (auto simp: Let_def intro: le_SucI)

lemma add_mem_length: "add_mem a n l = Inr l' \<Longrightarrow> length l' \<le> max 191 (length l)"
  using length_merge [of "add_mem_insert \<lparr>addr = a, rsize = n\<rparr> l"]
  by (auto simp: add_mem_def ram_list_size_def MAX_RAM_LIST_SIZE_def split: if_splits)

datatype alloc_effect =
    Keep
  | Remove
  | Change ram_entry             \<comment> \<open>the entry is replaced\<close>
  | Split ram_entry nat nat      \<comment> \<open>the entry is replaced and \<open>add_mem\<close> called\<close>

definition alloc_act :: "nat \<Rightarrow> nat \<Rightarrow> ram_entry \<Rightarrow> alloc_effect" where
  \<comment> \<open>the body of the loop of \<open>alloc_ram\<close> for one entry\<close>
  "alloc_act ad fin r =
     (let s0 = addr r;
          e0 = add64 s0 (rsize r)
      in if (ad \<le> s0 \<and> fin > s0) \<or> (ad \<ge> s0 \<and> ad < e0) \<or> (fin \<ge> s0 \<and> fin < e0) then
           let e = (if fin > e0 then fin else e0);
               s = (if ad < s0 then ad else s0)
           in if ad = s \<and> fin = e then Remove
              else if ad = s then Change \<lparr>addr = fin, rsize = sub64 e fin\<rparr>
              else if e \<noteq> fin then Split (r\<lparr>rsize := sub64 ad s\<rparr>) (to_paddr fin) (to_paddr (sub64 e fin))
              else Change (r\<lparr>rsize := sub64 ad s\<rparr>)
         else Keep)"

function alloc_loop :: "nat \<Rightarrow> nat \<Rightarrow> nat \<Rightarrow> ram_entry list \<Rightarrow> startup_error + ram_entry list" where
  \<comment> \<open>the loop of \<open>alloc_ram\<close> over the entries from index \<open>i\<close> on\<close>
  "alloc_loop ad fin i l =
     (if i \<ge> length l then Inr l
      else
        case alloc_act ad fin (l ! i) of
          Keep \<Rightarrow> alloc_loop ad fin (i + 1) l
        | Remove \<Rightarrow> alloc_loop ad fin i (take i l @ drop (i + 1) l)
        | Change r \<Rightarrow> alloc_loop ad fin (i + 1) (l[i := r])
        | Split r a n \<Rightarrow> bindE (add_mem a n (l[i := r])) (\<lambda>l'. alloc_loop ad fin (i + 1) l'))"
  by pat_completeness auto
termination
proof (relation "measures [\<lambda>(_, _, i, l). max 191 (length l) - i, \<lambda>(_, _, i, l). length l]", goal_cases)
  case (5 ad fin i l r a n l')
  then have "length l' \<le> max 191 (length l)" using add_mem_length [of a n "l[i := r]" l'] by simp
  then show ?case using 5(1) by (simp add: max_def split: if_splits) linarith+
qed auto

declare alloc_loop.simps [simp del]

subsection \<open>Searching\<close>

definition fix_size :: "nat \<Rightarrow> nat \<Rightarrow> avoid_entry \<Rightarrow> (nat \<times> nat) option" where
  \<comment> \<open>\<open>None\<close> is the return value 0\<close>
  "fix_size s e a =
     (let as = a_start a; ae = a_end a in
      if s \<ge> ae \<or> e \<le> as then Some (s, e)
      else if s \<ge> as then
        if e \<le> ae then None else Some (ae, e)
      else if e < ae then Some (s, as)
      else if as - s > e - ae then Some (s, as)
      else Some (ae, e))"

fun fix_all :: "avoid_entry list \<Rightarrow> nat \<Rightarrow> nat \<Rightarrow> (nat \<times> nat) option" where
  "fix_all [] s e = Some (s, e)"
| "fix_all (a # as) s e =
     (if a_end a = 0 then Some (s, e)
      else case fix_size s e a of None \<Rightarrow> None | Some (s', e') \<Rightarrow> fix_all as s' e')"

fun find_top_loop :: "nat \<Rightarrow> nat \<Rightarrow> avoid_entry list \<Rightarrow> nat \<Rightarrow> ram_entry list \<Rightarrow> nat" where
  "find_top_loop len align av topa [] = topa"
| "find_top_loop len align av topa (r # rs) =
     (case fix_all av (addr r) (add64 (addr r) (rsize r)) of
        None \<Rightarrow> find_top_loop len align av topa rs
      | Some (s, e) \<Rightarrow>
          if e - s \<ge> len then
            let chk = (if align \<noteq> 0 then TRUNC (e - len) align else to_paddr (e - len))
            in find_top_loop len align av (if chk \<ge> s \<and> chk > topa then chk else topa) rs
          else find_top_loop len align av topa rs)"

definition find_top_ram_aligned :: "nat \<Rightarrow> nat \<Rightarrow> nat \<Rightarrow> ram_state \<Rightarrow> nat" where
  "find_top_ram_aligned len align pagesize st =
     (let topa = find_top_loop (ROUND len pagesize) align (avoid_list st) 0 (ram_list st)
      in if topa = 0 then NULL_PADDR else topa)"

definition find_top_ram :: "nat \<Rightarrow> nat \<Rightarrow> ram_state \<Rightarrow> nat" where
  \<comment> \<open>the second argument is \<open>lsp.system_private.p->pagesize\<close>\<close>
  "find_top_ram len pagesize st = find_top_ram_aligned len 0 pagesize st"

definition colour_addr :: "nat \<Rightarrow> u32 \<Rightarrow> u32 \<Rightarrow> nat" where
  "colour_addr a colour msk =
     (if (of_nat a :: u32) AND msk \<noteq> colour
      then let incr = ((msk - 1) OR msk) + 1
           in unat ((((of_nat a :: u32) + incr) AND NOT msk) OR colour)
      else a)"

fun find_loop :: "nat \<Rightarrow> nat \<Rightarrow> nat \<Rightarrow> nat \<Rightarrow> u32 \<Rightarrow> u32 \<Rightarrow> avoid_entry list \<Rightarrow> ram_entry list \<Rightarrow> nat" where
  "find_loop range_start range_end len align colour msk av [] = NULL_PADDR"
| "find_loop range_start range_end len align colour msk av (r # rs) =
     (case fix_all av (addr r) (add64 (addr r) (rsize r)) of
        None \<Rightarrow> find_loop range_start range_end len align colour msk av rs
      | Some (s, e0) \<Rightarrow>
          let a0 = colour_addr (ROUND s align) colour msk;
              a = (if range_start \<noteq> 0 \<and> a0 < range_start then range_start else a0);
              e = (if range_end \<noteq> 0 \<and> e0 > range_end then range_end else e0)
          in if a \<ge> e then find_loop range_start range_end len align colour msk av rs
             else if len \<le> e - a then a
             else find_loop range_start range_end len align colour msk av rs)"

definition find_ram_in_range :: "nat \<Rightarrow> nat \<Rightarrow> nat \<Rightarrow> nat \<Rightarrow> u32 \<Rightarrow> u32 \<Rightarrow> ram_state \<Rightarrow> nat" where
  "find_ram_in_range range_start range_end len align colour msk st =
     find_loop range_start range_end len align colour msk (avoid_list st) (ram_list st)"

definition find_ram :: "nat \<Rightarrow> nat \<Rightarrow> u32 \<Rightarrow> u32 \<Rightarrow> ram_state \<Rightarrow> nat" where
  "find_ram len align colour msk st = find_ram_in_range 0 MAX_PADDR32 len align colour msk st"

subsection \<open>Allocation\<close>

definition zero_ram :: "nat \<Rightarrow> nat \<Rightarrow> ram_state \<Rightarrow> ram_state" where
  \<comment> \<open>a \<open>memset\<close> of physical memory to zero\<close>
  "zero_ram a n st =
     (let pg = as_page (r_as st)
      in st\<lparr>r_as := (r_as st)\<lparr>as_page := pg\<lparr>mem := memset a 0 n (mem pg)\<rparr>\<rparr>\<rparr>)"

primrec adjust_sysram :: "nat \<Rightarrow> nat option \<Rightarrow> nat \<Rightarrow> nat \<Rightarrow> as_state \<Rightarrow> startup_error + as_state" where
  \<comment> \<open>the second part of \<open>alloc_ram\<close>; the first argument bounds the number of entries it visits\<close>
  "adjust_sysram 0 off ad fin st = Inl (Bad_section S_asinfo)"
| "adjust_sysram (Suc n) off ad fin st =
     bindE (as_find_containing off ad (to_paddr fin) (str ''sysram'') st) (\<lambda>r.
     case r of
       None \<Rightarrow> Inr st
     | Some i \<Rightarrow>
         let as = asinfo st ! i;
             e = (if fin > as_end as then fin else as_end as);
             s = (if ad < as_start as then ad else as_start as)
         in if ad = s \<and> fin = e then Inl Remove_whole_sysram
            else if ad = s then
              adjust_sysram n (Some i) ad fin (upd_entry i (\<lambda>as. as\<lparr>as_start := add64 fin 1\<rparr>) st)
            else
              let st1 = upd_entry i (\<lambda>as. as\<lparr>as_end := sub32 ad 1\<rparr>) st
              in if e \<noteq> fin
                 then bindE (as_add (add64 fin 1) e (AS_ATTR_RAM (as_conf st)) (str ''sysram'') (as_owner as) st1)
                        (\<lambda>(_, st2). adjust_sysram n (Some i) ad fin st2)
                 else adjust_sysram n (Some i) ad fin st1)"

definition alloc_at :: "nat \<Rightarrow> nat \<Rightarrow> ram_state \<Rightarrow> startup_error + ram_state" where
  \<comment> \<open>\<open>alloc_ram\<close> once the address is known\<close>
  "alloc_at ad len st =
     (let fin = add32 ad len in
      bindE (alloc_loop ad fin 0 (ram_list st)) (\<lambda>l.
      let st1 = st\<lparr>ram_list := l\<rparr> in
      if sysram_added st1
      then bindE (adjust_sysram (Suc (length (asinfo (r_as st1)))) None ad (sub64 fin 1) (r_as st1))
             (\<lambda>as. Inr (st1\<lparr>r_as := as\<rparr>))
      else Inr st1))"

definition alloc_ram :: "nat \<Rightarrow> nat \<Rightarrow> nat \<Rightarrow> ram_state \<Rightarrow> startup_error + nat \<times> ram_state" where
  "alloc_ram ad len align st =
     (if ad = NULL_PADDR then
        let a = find_ram len align 0 0 st in
        if a = NULL_PADDR then Inr (NULL_PADDR, st)
        else bindE (alloc_at a len (if secure_system st then zero_ram a len st else st))
               (\<lambda>st'. Inr (a, st'))
      else bindE (alloc_at ad len st) (\<lambda>st'. Inr (ad, st')))"

definition calloc_ram :: "nat \<Rightarrow> nat \<Rightarrow> ram_state \<Rightarrow> startup_error + nat \<times> ram_state" where
  "calloc_ram len align st =
     bindE (alloc_ram NULL_PADDR len align st) (\<lambda>(a, st').
     Inr (a, if a \<noteq> NULL_PADDR \<and> \<not> secure_system st' then zero_ram a len st' else st'))"

subsection \<open>Scratch memory\<close>

definition avoid_push :: "nat \<Rightarrow> nat \<Rightarrow> ram_state \<Rightarrow> ram_state" where
  \<comment> \<open>\<open>avoid_ram\<close> once the list is there\<close>
  "avoid_push start len st =
     st\<lparr>avoid_list := avoid_list st @ [\<lparr>a_start = start, a_end = add32 start len\<rparr>]\<rparr>"

definition ws_get :: "nat \<Rightarrow> ram_state \<Rightarrow> nat option \<times> ram_state" where
  \<comment> \<open>\<open>ws_alloc\<close> once the list is there; \<open>None\<close> is \<open>NULL\<close>\<close>
  "ws_get sz st =
     (let len = ROUND sz 8 in
      if ram_list_size (ram_list st) \<le> 16
      then (Some (ws_early_next st),
            avoid_push (ws_early_next st) len (st\<lparr>ws_early_next := add32 (ws_early_next st) len\<rparr>))
      else
        let paddr = find_ram len 8 0 0 st in
        if paddr = NULL_PADDR then (None, st) else (Some paddr, avoid_push paddr len st))"

definition ws_init :: "ram_state \<Rightarrow> ram_state" where
  "ws_init st =
     (let n0 = ROUND (add32 (ram_paddr (shdr st)) (ram_size (shdr st))) 8;
          n1 = add32 n0 (ROUND MAX_AVOID_LIST_SIZE 8);
          st1 = st\<lparr>ws_early_next := n1, avoid_init := True,
                   avoid_list := [\<lparr>a_start = n0, a_end = n1\<rparr>], ram_list := []\<rparr>;
          st2 = snd (ws_get MAX_RAM_LIST_SIZE st1)
      in avoid_push (ram_paddr (shdr st2)) (startup_size (shdr st2)) st2)"

definition avoid_ram :: "nat \<Rightarrow> nat \<Rightarrow> ram_state \<Rightarrow> ram_state" where
  "avoid_ram start len st = avoid_push start len (if avoid_init st then st else ws_init st)"

definition ws_alloc :: "nat \<Rightarrow> ram_state \<Rightarrow> nat option \<times> ram_state" where
  "ws_alloc len st = ws_get len (if avoid_init st then st else ws_init st)"

subsection \<open>Adding and reserving memory\<close>

definition call_watchers :: "nat \<Rightarrow> nat \<Rightarrow> ram_state \<Rightarrow> ram_state" where
  "call_watchers start len st =
     st\<lparr>watch_log := watch_log st @ map (\<lambda>w. (w, start, len)) (watch_list st)\<rparr>"

definition watch_add_ram :: "nat \<Rightarrow> nat \<Rightarrow> ram_state \<Rightarrow> startup_error + ram_state" where
  \<comment> \<open>the first argument is \<open>sizeof(struct watch_entry)\<close>\<close>
  "watch_add_ram sizeof_watch func st =
     (case ws_alloc sizeof_watch st of
        (None, st') \<Rightarrow> Inl No_watcher_memory
      | (Some _, st') \<Rightarrow> Inr (st'\<lparr>watch_list := func # watch_list st'\<rparr>))"

definition init_asinfo :: "nat \<Rightarrow> as_state \<Rightarrow> as_state" where
  "init_asinfo mem_off st = st"

definition lift_as :: "(as_state \<Rightarrow> startup_error + 'a \<times> as_state) \<Rightarrow> ram_state \<Rightarrow> startup_error + 'a \<times> ram_state" where
  "lift_as f st = bindE (f (r_as st)) (\<lambda>(x, as). Inr (x, st\<lparr>r_as := as\<rparr>))"

definition first_asinfo :: "ram_state \<Rightarrow> startup_error + ram_state" where
  \<comment> \<open>the block of \<open>add_ram\<close> that runs while the section is empty\<close>
  "first_asinfo st =
     (if asinfo (r_as st) = [] then
        bindE (lift_as as_default st) (\<lambda>(m, st1).
        bindE (lift_as (as_add 0 (2 ^ 32 - 1) 0 (str ''below4G'') (Some m)) st1) (\<lambda>(_, st2).
        Inr (st2\<lparr>r_as := init_asinfo m (r_as st2)\<rparr>)))
      else Inr st)"

definition move_syspage :: "ram_state \<Rightarrow> ram_state" where
  \<comment> \<open>the block of \<open>add_ram\<close> that gets more space for the temporary system page\<close>
  "move_syspage st =
     (if temp_syspage st = NULL_PADDR then
        let t = find_ram TEMP_SYSPAGE_SIZE PAGESIZE 0 0 st;
            st1 = st\<lparr>temp_syspage := t\<rparr>
        in if t \<noteq> NULL_PADDR
           then let st2 = avoid_ram t TEMP_SYSPAGE_SIZE st1
                in st2\<lparr>r_as := (r_as st2)\<lparr>as_page := reloc_syspage_memory t TEMP_SYSPAGE_SIZE (as_page (r_as st2))\<rparr>\<rparr>
           else st1
      else st)"

definition add_ram :: "nat \<Rightarrow> nat \<Rightarrow> ram_state \<Rightarrow> startup_error + ram_state" where
  "add_ram start len st =
     bindE (first_asinfo st) (\<lambda>st1.
     bindE (lift_as (as_add_containing start (sub32 (add32 start len) 1) (AS_ATTR_RAM (as_conf (r_as st1)))
              (str ''ram'') (str ''memory'')) st1) (\<lambda>(_, st2).
     bindE (add_mem start len (ram_list st2)) (\<lambda>l.
     let st3 = st2\<lparr>ram_list := l\<rparr>; h = shdr st3 in
     bindE (alloc_ram (add32 (ram_paddr h) (startup_size h)) (sub32 (ram_size h) (startup_size h)) 1 st3)
       (\<lambda>(_, st4).
     Inr (call_watchers start len (move_syspage st4))))))"

fun sysram_loop :: "ram_entry list \<Rightarrow> ram_state \<Rightarrow> startup_error + ram_state" where
  "sysram_loop [] st = Inr st"
| "sysram_loop (r # rs) st =
     bindE (lift_as (as_add_containing (to_paddr (addr r)) (to_paddr (sub64 (add64 (addr r) (rsize r)) 1))
              (AS_ATTR_RAM (as_conf (r_as st))) (str ''sysram'') (str ''ram'')) st)
       (\<lambda>(_, st'). sysram_loop rs st')"

definition add_sysram :: "ram_state \<Rightarrow> startup_error + ram_state" where
  "add_sysram st =
     (let st1 = call_watchers 0 0 st in
      bindE (sysram_loop (ram_list st1) st1) (\<lambda>st2. Inr (st2\<lparr>sysram_added := True\<rparr>)))"

definition reserve_ram :: "nat \<Rightarrow> nat \<Rightarrow> nat \<Rightarrow> ram_state \<Rightarrow> startup_error + ram_state" where
  "reserve_ram len align pagesize st =
     (if len = 0 then Inr st
      else
        let al = (if align \<noteq> 0 then align else pagesize);
            reserved = find_top_ram_aligned len al pagesize st
        in if reserved = NULL_PADDR then Inl (Reserve_failed len)
           else bindE (alloc_ram reserved len al st) (\<lambda>(_, st1).
                bindE (lift_as (as_add_containing reserved (sub32 (add32 reserved len) 1)
                    (AS_ATTR_RAM (as_conf (r_as st1))) (str ''reserved'') (str ''ram'')) st1)
                  (\<lambda>(_, st2). Inr st2)))"

subsection \<open>The list as a set of addresses\<close>

definition ram_end :: "ram_entry \<Rightarrow> nat" where
  "ram_end r = addr r + rsize r"

definition ram_inv :: "ram_entry list \<Rightarrow> bool" where
  \<comment> \<open>entries are not empty, end below 4 GB, come in order and do not touch\<close>
  "ram_inv l \<longleftrightarrow> sorted_wrt (\<lambda>x y. ram_end x < addr y) l \<and> (\<forall>r \<in> set l. 0 < rsize r \<and> ram_end r \<le> 2 ^ 32)"

definition eset_ram :: "ram_entry \<Rightarrow> nat set" where
  "eset_ram r = {addr r..<ram_end r}"

definition ram_set :: "ram_entry list \<Rightarrow> nat set" where
  "ram_set l = (\<Union>r \<in> set l. eset_ram r)"

lemma ram_set_simps [simp]: "ram_set [] = {}" "ram_set (r # l) = eset_ram r \<union> ram_set l"
  "ram_set (k @ l) = ram_set k \<union> ram_set l"
  by (simp_all add: ram_set_def)

definition ram_bounded :: "ram_entry list \<Rightarrow> bool" where
  "ram_bounded l \<longleftrightarrow> (\<forall>r \<in> set l. 0 < rsize r \<and> ram_end r \<le> 2 ^ 32)"

lemma set_insert [simp]: "set (add_mem_insert n l) = insert n (set l)"
  by (induction l) auto

lemma sorted_insert:
  assumes "sorted_wrt (\<lambda>x y. addr x \<le> addr y) l"
  shows "sorted_wrt (\<lambda>x y. addr x \<le> addr y) (add_mem_insert n l)"
  using assms by (induction l) auto

lemma ram_end64: "0 < rsize r \<and> ram_end r \<le> 2 ^ 32 \<Longrightarrow> add64 (addr r) (rsize r) = ram_end r"
  by (simp add: ram_end_def add64_eq)

lemma merge_addr: "x \<in> set (add_mem_merge l) \<Longrightarrow> \<exists>y \<in> set l. addr x = addr y"
proof (induction l rule: add_mem_merge.induct)
  case (1 p r rs)
  then show ?case by (auto simp: Let_def split: if_splits)
qed auto

lemma merge_two:
  assumes "ram_bounded [p, r]" and "addr p \<le> addr r" and "addr r \<le> ram_end p"
  defines "q \<equiv> p\<lparr>rsize := sub64 (if add64 (addr r) (rsize r) > ram_end p then add64 (addr r) (rsize r) else ram_end p) (addr p)\<rparr>"
  shows "ram_bounded [q]" and "addr q = addr p" and "eset_ram q = eset_ram p \<union> eset_ram r"
proof -
  have "add64 (addr r) (rsize r) = ram_end r" using assms(1) by (simp add: ram_bounded_def ram_end64)
  then have q: "q = p\<lparr>rsize := max (ram_end r) (ram_end p) - addr p\<rparr>"
    using assms(1) by (auto simp: q_def ram_bounded_def sub64_eq ram_end_def max_def)
  show "addr q = addr p" by (simp add: q)
  have e: "ram_end q = max (ram_end r) (ram_end p)" by (simp add: q ram_end_def)
  show "ram_bounded [q]" using assms(1) e by (auto simp: ram_bounded_def q ram_end_def)
  show "eset_ram q = eset_ram p \<union> eset_ram r" using e assms(2,3) by (auto simp: eset_ram_def q)
qed

lemma merge_spec:
  assumes "sorted_wrt (\<lambda>x y. addr x \<le> addr y) l" and "ram_bounded l"
  shows "ram_inv (add_mem_merge l) \<and> ram_set (add_mem_merge l) = ram_set l"
  using assms
proof (induction l rule: add_mem_merge.induct)
  case (1 p r rs)
  have e: "add64 (addr p) (rsize p) = ram_end p" using 1(4) by (simp add: ram_bounded_def ram_end64)
  show ?case
  proof (cases "addr r \<le> ram_end p")
    case True
    let ?q = "p\<lparr>rsize := sub64 (if add64 (addr r) (rsize r) > ram_end p then add64 (addr r) (rsize r) else ram_end p) (addr p)\<rparr>"
    have b: "ram_bounded [p, r]" "addr p \<le> addr r" using 1(3,4) by (auto simp: ram_bounded_def)
    note m = merge_two [OF b True]
    have "sorted_wrt (\<lambda>x y. addr x \<le> addr y) (?q # rs)" using 1(3) m(2) by auto
    moreover have "ram_bounded (?q # rs)" using 1(4) m(1) by (auto simp: ram_bounded_def)
    ultimately have "ram_inv (add_mem_merge (?q # rs)) \<and> ram_set (add_mem_merge (?q # rs)) = ram_set (?q # rs)"
      using 1(1) e True by simp
    then show ?thesis using e True m(3) by (simp add: Let_def Un_assoc)
  next
    case False
    then have IH: "ram_inv (add_mem_merge (r # rs))" "ram_set (add_mem_merge (r # rs)) = ram_set (r # rs)"
      using 1(2-4) e by (auto simp: ram_bounded_def)
    have "ram_end p < addr x" if "x \<in> set (add_mem_merge (r # rs))" for x
      using merge_addr [OF that] 1(3) False by auto
    then show ?thesis using IH e False 1(4) by (simp add: ram_inv_def Let_def ram_bounded_def)
  qed
qed (auto simp: ram_inv_def ram_bounded_def)

lemma ram_inv_sorted: "ram_inv l \<Longrightarrow> sorted_wrt (\<lambda>x y. addr x \<le> addr y) l"
  unfolding ram_inv_def by (rule sorted_wrt_mono_rel [of l "\<lambda>x y. ram_end x < addr y"]) (auto simp: ram_end_def)

lemma ram_inv_bounded: "ram_inv l \<Longrightarrow> ram_bounded l"
  by (simp add: ram_inv_def ram_bounded_def)

lemma add_mem_spec:
  assumes "ram_inv l" and "start + len \<le> 2 ^ 32" and "add_mem start len l = Inr l'"
  shows "ram_inv l'" and "ram_set l' = ram_set l \<union> {start..<start + len}"
proof -
  let ?n = "\<lparr>addr = start, rsize = len\<rparr>"
  have "ram_inv l' \<and> ram_set l' = ram_set l \<union> {start..<start + len}"
  proof (cases "len > 0")
    case True
    have "ram_bounded (add_mem_insert ?n l)"
      using ram_inv_bounded [OF assms(1)] assms(2) True by (auto simp: ram_bounded_def ram_end_def)
    from merge_spec [OF sorted_insert [OF ram_inv_sorted [OF assms(1)]] this] show ?thesis
      using assms(3) True
      by (auto simp: add_mem_def ram_set_def eset_ram_def ram_end_def split: if_splits)
  next
    case False
    then show ?thesis using assms(1,3) by (simp add: add_mem_def)
  qed
  then show "ram_inv l'" and "ram_set l' = ram_set l \<union> {start..<start + len}" by auto
qed

lemma add_mem_returns: "length l < 191 \<Longrightarrow> \<exists>l'. add_mem start len l = Inr l'"
  by (simp add: add_mem_def ram_list_size_def MAX_RAM_LIST_SIZE_def)

lemma add_mem_Inl: "add_mem start len l = Inl e \<Longrightarrow> e = RAM_entry_overflow \<and> 191 \<le> length l \<and> 0 < len"
  by (auto simp: add_mem_def ram_list_size_def MAX_RAM_LIST_SIZE_def split: if_splits)

subsection \<open>Allocating removes a range\<close>

lemma ram_inv_nth:
  assumes "ram_inv l" and "i < length l"
  shows "0 < rsize (l ! i)" and "ram_end (l ! i) \<le> 2 ^ 32" and "add64 (addr (l ! i)) (rsize (l ! i)) = ram_end (l ! i)"
  using assms by (auto simp: ram_inv_def ram_end64)

lemma ram_inv_disjoint:
  assumes "ram_inv l" and "i < length l" and "j < length l" and "i \<noteq> j"
  shows "ram_end (l ! i) < addr (l ! j) \<or> ram_end (l ! j) < addr (l ! i)"
  using assms sorted_wrt_nth_less [of "\<lambda>x y. ram_end x < addr y" l] unfolding ram_inv_def
  by (metis linorder_neqE_nat)

lemma ram_inv_update:
  assumes "ram_inv l" and "i < length l" and "0 < rsize r"
    and "addr (l ! i) \<le> addr r" and "ram_end r \<le> ram_end (l ! i)"
  shows "ram_inv (l[i := r])"
proof -
  have "sorted_wrt (\<lambda>x y. ram_end x < addr y) (l[i := r])"
    unfolding sorted_wrt_iff_nth_less length_list_update
  proof safe
    fix j k assume jk: "j < k" "k < length l"
    have "ram_end (l ! j) < addr (l ! k)"
      using assms(1) jk by (simp add: ram_inv_def sorted_wrt_iff_nth_less)
    then show "ram_end (l[i := r] ! j) < addr (l[i := r] ! k)"
      using assms jk by (cases "j = i"; cases "k = i") auto
  qed
  moreover have "0 < rsize x \<and> ram_end x \<le> 2 ^ 32" if "x \<in> set (l[i := r])" for x
    using set_update_subset_insert [of l i r] that assms(1,3,5) ram_inv_nth(2) [OF assms(1,2)]
    by (cases "x = r") (auto simp: ram_inv_def)
  ultimately show ?thesis by (simp add: ram_inv_def)
qed

lemma ram_inv_remove: "ram_inv l \<Longrightarrow> ram_inv (take i l @ drop (i + 1) l)"
proof -
  assume *: "ram_inv l"
  let ?P = "\<lambda>x y. ram_end x < addr y"
  have "sorted_wrt ?P (take (i + 1) l @ drop (i + 1) l)" using * by (simp only: append_take_drop_id ram_inv_def)
  then have "sorted_wrt ?P (drop (i + 1) l)" "\<forall>x \<in> set (take (i + 1) l). \<forall>y \<in> set (drop (i + 1) l). ?P x y"
    unfolding sorted_wrt_append by auto
  moreover have "set (take i l) \<subseteq> set (take (i + 1) l)" by (rule set_take_subset_set_take) simp
  moreover have "sorted_wrt ?P (take i l)" using * by (simp add: ram_inv_def sorted_wrt_take)
  ultimately have "sorted_wrt ?P (take i l @ drop (i + 1) l)" unfolding sorted_wrt_append by blast
  then show ?thesis using * by (auto simp: ram_inv_def dest: in_set_takeD in_set_dropD)
qed

lemma ram_set_nth: "ram_set l = (\<Union>j \<in> {..<length l}. eset_ram (l ! j))"
  by (fastforce simp: ram_set_def in_set_conv_nth)

lemma ram_set_split:
  assumes "i < length l"
  shows "ram_set l = eset_ram (l ! i) \<union> ram_set (take i l @ drop (i + 1) l)"
proof -
  have "l = take i l @ l ! i # drop (i + 1) l" using assms by (simp add: id_take_nth_drop)
  then have "ram_set l = ram_set (take i l @ l ! i # drop (i + 1) l)" by (rule arg_cong)
  then show ?thesis by auto
qed

lemma ram_set_update:
  assumes "i < length l"
  shows "ram_set (l[i := r]) = eset_ram r \<union> ram_set (take i l @ drop (i + 1) l)"
  using assms by (auto simp: upd_conv_take_nth_drop)

lemma ram_rest_disjoint:
  assumes "ram_inv l" and "i < length l"
  shows "ram_set (take i l @ drop (i + 1) l) \<inter> {addr (l ! i)..ram_end (l ! i)} = {}"
proof -
  have "eset_ram x \<inter> {addr (l ! i)..ram_end (l ! i)} = {}" if "x \<in> set (take i l @ drop (i + 1) l)" for x
  proof -
    have "\<exists>j. j < length l \<and> j \<noteq> i \<and> x = l ! j"
    proof (cases "x \<in> set (take i l)")
      case True
      then obtain k where "k < i" "x = l ! k" by (auto simp: in_set_conv_nth)
      then show ?thesis using assms(2) by (intro exI [of _ k]) auto
    next
      case False
      then have "x \<in> set (drop (i + 1) l)" using that by auto
      then obtain k where "k < length l - (i + 1)" "x = l ! (i + 1 + k)" by (auto simp: in_set_conv_nth)
      then show ?thesis by (intro exI [of _ "i + 1 + k"]) auto
    qed
    then obtain j where "j < length l" "j \<noteq> i" "x = l ! j" by blast
    then show ?thesis using ram_inv_disjoint [OF assms(1,2), of j] by (auto simp: eset_ram_def)
  qed
  then show ?thesis by (auto simp: ram_set_def)
qed

lemma alloc_act_spec:
  assumes "0 < rsize r" and "ram_end r \<le> 2 ^ 32" and "ad < fin" and "fin < 2 ^ 32"
  shows "case alloc_act ad fin r of
      Keep \<Rightarrow> eset_ram r \<inter> {ad..<fin} = {}
    | Remove \<Rightarrow> eset_ram r \<subseteq> {ad..<fin}
    | Change r' \<Rightarrow> 0 < rsize r' \<and> addr r \<le> addr r' \<and> ram_end r' \<le> ram_end r \<and> eset_ram r' = eset_ram r - {ad..<fin} \<and>
        (eset_ram r \<inter> {ad..<fin} = {} \<longrightarrow> r' = r)
    | Split r' a n \<Rightarrow> 0 < rsize r' \<and> addr r = addr r' \<and> ram_end r' \<le> ram_end r \<and>
        {ad..<fin} \<subseteq> eset_ram r \<and> a + n \<le> 2 ^ 32 \<and> eset_ram r' \<union> {a..<a + n} = eset_ram r - {ad..<fin}"
proof -
  have e0: "add64 (addr r) (rsize r) = ram_end r" using assms by (simp add: ram_end64)
  have lt: "addr r < ram_end r" using assms(1) by (simp add: ram_end_def)
  consider (out) "fin < addr r \<or> ram_end r \<le> ad" | (touch) "fin = addr r"
    | (all) "ad \<le> addr r" "ram_end r \<le> fin"
    | (low) "ad \<le> addr r" "addr r < fin" "fin < ram_end r"
    | (high) "addr r < ad" "ad < ram_end r" "ram_end r \<le> fin"
    | (mid) "addr r < ad" "fin < ram_end r"
    using assms(3) by linarith
  then show ?thesis
  proof cases
    case out
    then have "alloc_act ad fin r = Keep" using assms(3) lt by (auto simp: alloc_act_def e0)
    then show ?thesis using out by (auto simp: eset_ram_def)
  next
    case touch
    then have "alloc_act ad fin r = Change \<lparr>addr = fin, rsize = ram_end r - fin\<rparr>"
      using assms lt by (auto simp: alloc_act_def e0 Let_def sub64_eq)
    moreover have "\<lparr>addr = fin, rsize = ram_end r - fin\<rparr> = r" using touch by (simp add: ram_end_def)
    ultimately show ?thesis using assms(1) touch by (auto simp: eset_ram_def)
  next
    case all
    then have "alloc_act ad fin r = Remove" using lt assms by (auto simp: alloc_act_def e0 Let_def)
    then show ?thesis using all by (auto simp: eset_ram_def)
  next
    case low
    then have "alloc_act ad fin r = Change \<lparr>addr = fin, rsize = ram_end r - fin\<rparr>"
      using assms lt by (auto simp: alloc_act_def e0 Let_def sub64_eq)
    then show ?thesis using low assms(3) by (auto simp: eset_ram_def ram_end_def)
  next
    case high
    then have "alloc_act ad fin r = Change (r\<lparr>rsize := ad - addr r\<rparr>)"
      using assms lt by (auto simp: alloc_act_def e0 Let_def sub64_eq)
    then show ?thesis using high assms(3) by (auto simp: eset_ram_def ram_end_def)
  next
    case mid
    then have "alloc_act ad fin r = Split (r\<lparr>rsize := ad - addr r\<rparr>) fin (ram_end r - fin)"
      using assms lt by (auto simp: alloc_act_def e0 Let_def sub64_eq to_paddr_eq)
    then show ?thesis using mid assms(2,3) by (auto simp: eset_ram_def ram_end_def)
  qed
qed

lemma alloc_loop_disjoint:
  assumes "ram_inv l" and "ram_set l \<inter> {ad..<fin} = {}" and "ad < fin" and "fin < 2 ^ 32"
  shows "alloc_loop ad fin i l = Inr l"
proof (induction "length l - i" arbitrary: i)
  case 0
  then show ?case by (simp add: alloc_loop.simps)
next
  case (Suc n)
  then have i: "i < length l" by simp
  note nth = ram_inv_nth [OF assms(1) i]
  have d: "eset_ram (l ! i) \<inter> {ad..<fin} = {}" using assms(2) ram_set_split [OF i] by auto
  have "addr (l ! i) \<in> eset_ram (l ! i)" using nth(1) by (simp add: eset_ram_def ram_end_def)
  moreover have "\<not> {ad..<fin} \<subseteq> eset_ram (l ! i)" using d assms(3) by fastforce
  ultimately have "alloc_act ad fin (l ! i) = Keep \<or> alloc_act ad fin (l ! i) = Change (l ! i)"
    using alloc_act_spec [OF nth(1,2) assms(3,4)] d assms(3)
    by (cases "alloc_act ad fin (l ! i)") auto
  then show ?case using i Suc by (subst alloc_loop.simps) auto
qed

lemma alloc_split:
  assumes "ram_inv l" and "i < length l"
    and r: "0 < rsize r" "addr (l ! i) \<le> addr r" "ram_end r \<le> ram_end (l ! i)" "{ad..<fin} \<subseteq> eset_ram (l ! i)"
      "a + n \<le> 2 ^ 32" "eset_ram r \<union> {a..<a + n} = eset_ram (l ! i) - {ad..<fin}"
    and "ad < fin" and "fin < 2 ^ 32"
  shows "case add_mem a n (l[i := r]) of
      Inl e \<Rightarrow> e = RAM_entry_overflow \<and> 191 \<le> length l
    | Inr l' \<Rightarrow> ram_inv l' \<and> ram_set l' = ram_set l - {ad..<fin} \<and> (\<forall>k. alloc_loop ad fin k l' = Inr l')"
proof (cases "add_mem a n (l[i := r])")
  case (Inl e)
  then show ?thesis using add_mem_Inl [OF Inl] by simp
next
  case (Inr l')
  note add = add_mem_spec [OF ram_inv_update [OF assms(1,2) r(1-3)] r(5) Inr]
  have rest: "ram_set (take i l @ drop (i + 1) l) \<inter> eset_ram (l ! i) = {}"
    using ram_rest_disjoint [OF assms(1,2)] by (auto simp: eset_ram_def)
  have "ram_set l' = ram_set (take i l @ drop (i + 1) l) \<union> (eset_ram (l ! i) - {ad..<fin})"
    unfolding add(2) ram_set_update [OF assms(2)] using r(6) by blast
  then have s: "ram_set l' = ram_set l - {ad..<fin}"
    using ram_set_split [OF assms(2)] rest r(4) by blast
  then show ?thesis
    using Inr add(1) alloc_loop_disjoint [OF add(1) _ assms(9,10)] by auto
qed

lemma alloc_loop_spec:
  assumes "ram_inv l" and "\<forall>j < i. j < length l \<longrightarrow> eset_ram (l ! j) \<inter> {ad..<fin} = {}"
    and "ad < fin" and "fin < 2 ^ 32"
  shows "case alloc_loop ad fin i l of
      Inl e \<Rightarrow> e = RAM_entry_overflow \<and> 191 \<le> length l
    | Inr l' \<Rightarrow> ram_inv l' \<and> ram_set l' = ram_set l - {ad..<fin}"
  using assms
proof (induction ad fin i l rule: alloc_loop.induct)
  case (1 ad fin i l)
  show ?case
  proof (cases "i < length l")
    case False
    then have "\<forall>j < length l. eset_ram (l ! j) \<inter> {ad..<fin} = {}" using 1(6) by simp
    then have "ram_set l \<inter> {ad..<fin} = {}" unfolding ram_set_nth by blast
    then show ?thesis using False 1(5) by (subst alloc_loop.simps) auto
  next
    case True
    then have i: "\<not> length l \<le> i" by simp
    note nth = ram_inv_nth [OF 1(5) True]
    note act = alloc_act_spec [OF nth(1,2) 1(7,8)]
    note step = alloc_loop.simps [of ad fin i l]
    show ?thesis
    proof (cases "alloc_act ad fin (l ! i)")
      case Keep
      have "\<forall>j < i + 1. j < length l \<longrightarrow> eset_ram (l ! j) \<inter> {ad..<fin} = {}"
        using 1(6) act Keep by (auto simp: less_Suc_eq)
      then show ?thesis using 1(1) [OF i Keep] 1(5,7,8) i Keep step by simp
    next
      case Remove
      let ?l = "take i l @ drop (i + 1) l"
      have "\<forall>j < i. j < length ?l \<longrightarrow> eset_ram (?l ! j) \<inter> {ad..<fin} = {}"
        using 1(6) True by (auto simp: nth_append)
      moreover have "ram_set ?l - {ad..<fin} = ram_set l - {ad..<fin}"
        using ram_set_split [OF True] act Remove by auto
      moreover have "length ?l \<le> length l" using True by simp
      ultimately show ?thesis
        using 1(2) [OF i Remove ram_inv_remove [OF 1(5)]] 1(7,8) i Remove step by (auto split: sum.splits)
    next
      case (Change r)
      have r: "0 < rsize r" "addr (l ! i) \<le> addr r" "ram_end r \<le> ram_end (l ! i)"
        "eset_ram r = eset_ram (l ! i) - {ad..<fin}" using act Change by auto
      have "\<forall>j < i + 1. j < length (l[i := r]) \<longrightarrow> eset_ram (l[i := r] ! j) \<inter> {ad..<fin} = {}"
        using 1(6) r(4) by (auto simp: less_Suc_eq nth_list_update)
      moreover have "ram_set (l[i := r]) - {ad..<fin} = ram_set l - {ad..<fin}"
        using ram_set_split [OF True] ram_set_update [OF True, of r] r(4) by auto
      ultimately show ?thesis
        using 1(3) [OF i Change ram_inv_update [OF 1(5) True r(1-3)]] 1(7,8) i Change step
        by (auto split: sum.splits)
    next
      case (Split r a n)
      have r: "0 < rsize r" "addr (l ! i) \<le> addr r" "ram_end r \<le> ram_end (l ! i)" "{ad..<fin} \<subseteq> eset_ram (l ! i)"
        "a + n \<le> 2 ^ 32" "eset_ram r \<union> {a..<a + n} = eset_ram (l ! i) - {ad..<fin}"
        using act Split by auto
      show ?thesis
        using alloc_split [OF 1(5) True r 1(7,8)] i Split step
        by (cases "add_mem a n (l[i := r])") auto
    qed
  qed
qed

subsection \<open>What the searches return\<close>

definition avoid_set :: "avoid_entry list \<Rightarrow> nat set" where
  \<comment> \<open>the addresses that the entries before the end marker keep free\<close>
  "avoid_set av = (\<Union>a \<in> set (takeWhile (\<lambda>a. a_end a \<noteq> 0) av). {a_start a..<a_end a})"

definition usable :: "ram_entry list \<Rightarrow> avoid_entry list \<Rightarrow> nat \<Rightarrow> nat \<Rightarrow> bool" where
  \<comment> \<open>the block lies in free memory and misses every range to avoid\<close>
  "usable l av a len \<longleftrightarrow> {a..<a + len} \<subseteq> ram_set l - avoid_set av"

lemma fix_size_spec:
  assumes "fix_size s e a = Some (s', e')" and "s < e"
  shows "s \<le> s' \<and> s' < e' \<and> e' \<le> e \<and> {s'..<e'} \<inter> {a_start a..<a_end a} = {}"
  using assms by (auto simp: fix_size_def Let_def split: if_splits)

lemma fix_all_spec:
  assumes "fix_all av s e = Some (s', e')" and "s < e"
  shows "s \<le> s' \<and> s' < e' \<and> e' \<le> e \<and> {s'..<e'} \<inter> avoid_set av = {}"
  using assms
proof (induction av arbitrary: s e)
  case Nil
  then show ?case by (simp add: avoid_set_def)
next
  case (Cons a av)
  show ?case
  proof (cases "a_end a = 0")
    case True
    then show ?thesis using Cons.prems by (simp add: avoid_set_def)
  next
    case False
    then obtain s1 e1 where f: "fix_size s e a = Some (s1, e1)" "fix_all av s1 e1 = Some (s', e')"
      using Cons.prems(1) by (auto split: option.splits)
    note 1 = fix_size_spec [OF f(1) Cons.prems(2)]
    have 2: "s1 \<le> s' \<and> s' < e' \<and> e' \<le> e1 \<and> {s'..<e'} \<inter> avoid_set av = {}" using Cons.IH [OF f(2)] 1 by simp
    have "{s'..<e'} \<subseteq> {s1..<e1}" using 2 by auto
    then have "{s'..<e'} \<inter> {a_start a..<a_end a} = {}" using 1 by blast
    moreover have "avoid_set (a # av) = {a_start a..<a_end a} \<union> avoid_set av" using False by (simp add: avoid_set_def)
    ultimately show ?thesis using 1 2 by auto
  qed
qed

lemma fix_all_free:
  assumes "{s..<e} \<inter> avoid_set av = {}" and "s < e"
    and "\<forall>a \<in> set (takeWhile (\<lambda>a. a_end a \<noteq> 0) av). a_start a < a_end a"
  shows "fix_all av s e = Some (s, e)"
  using assms
proof (induction av)
  case (Cons a av)
  show ?case
  proof (cases "a_end a = 0")
    case False
    then have *: "avoid_set (a # av) = {a_start a..<a_end a} \<union> avoid_set av" by (simp add: avoid_set_def)
    have "s \<ge> a_end a \<or> e \<le> a_start a"
    proof (rule ccontr)
      assume "\<not> (s \<ge> a_end a \<or> e \<le> a_start a)"
      then have "max s (a_start a) \<in> {s..<e} \<inter> {a_start a..<a_end a}" using assms(2) Cons.prems(3) False by auto
      then show False using Cons.prems(1) * by blast
    qed
    then have "fix_size s e a = Some (s, e)" by (auto simp: fix_size_def Let_def)
    then show ?thesis using Cons False * by auto
  qed simp
qed simp

lemma usable_Cons: "usable rs av a len \<Longrightarrow> usable (r # rs) av a len"
  by (auto simp: usable_def)

lemma usable_part:
  assumes "fix_all av (addr r) (ram_end r) = Some (s, e)" and "0 < rsize r" and "s \<le> a" and "a + len \<le> e"
  shows "usable (r # rs) av a len"
proof -
  have f: "addr r \<le> s" "e \<le> ram_end r" "{s..<e} \<inter> avoid_set av = {}"
    using fix_all_spec [OF assms(1)] assms(2) by (auto simp: ram_end_def)
  have "{a..<a + len} \<subseteq> {s..<e}" using assms(3,4) by auto
  moreover have "{s..<e} \<subseteq> eset_ram r" using f(1,2) by (auto simp: eset_ram_def)
  ultimately show ?thesis using f(3) unfolding usable_def ram_set_simps by blast
qed

lemma colour_none [simp]: "colour_addr a 0 0 = a"
  by (simp add: colour_addr_def)

lemma find_loop_sound:
  assumes "ram_bounded l" and "\<forall>r \<in> set l. ram_end r + 2 ^ k \<le> 2 ^ 32"
    and "find_loop rs re len (2 ^ k) 0 0 av l = a" and "a \<noteq> NULL_PADDR"
  shows "usable l av a len \<and> rs \<le> a \<and> (re \<noteq> 0 \<longrightarrow> a + len \<le> re) \<and> (rs = 0 \<longrightarrow> 2 ^ k dvd a)"
  using assms
proof (induction l)
  case (Cons r l)
  have r: "0 < rsize r" "ram_end r + 2 ^ k \<le> 2 ^ 32" "add64 (addr r) (rsize r) = ram_end r"
    using Cons.prems by (auto simp: ram_bounded_def intro!: ram_end64)
  show ?case
  proof (cases "fix_all av (addr r) (ram_end r)")
    case None
    then show ?thesis using Cons r by (auto simp: ram_bounded_def usable_Cons)
  next
    case (Some q)
    obtain s e where q: "q = (s, e)" by (cases q)
    have se: "addr r \<le> s" "s < e" "e \<le> ram_end r"
      using fix_all_spec [of av "addr r" "ram_end r" s e] Some q r(1) by (auto simp: ram_end_def)
    then have "s + 2 ^ k \<le> 2 ^ 32" using r(2) by simp
    note R = ROUND_bounds [OF this]
    define b where "b = (if rs \<noteq> 0 \<and> ROUND s (2 ^ k) < rs then rs else ROUND s (2 ^ k))"
    define e' where "e' = (if re \<noteq> 0 \<and> e > re then re else e)"
    have b: "s \<le> b" "rs \<le> b" "rs = 0 \<longrightarrow> 2 ^ k dvd b" using R by (auto simp: b_def)
    have eq: "find_loop rs re len (2 ^ k) 0 0 av (r # l) =
        (if b \<ge> e' \<or> \<not> len \<le> e' - b then find_loop rs re len (2 ^ k) 0 0 av l else b)"
      using Some q r(3) by (auto simp: b_def e'_def Let_def)
    show ?thesis
    proof (cases "b \<ge> e' \<or> \<not> len \<le> e' - b")
      case True
      then show ?thesis using Cons eq by (auto simp: ram_bounded_def usable_Cons)
    next
      case False
      then have ab: "a = b" "b + len \<le> e'" using eq Cons.prems(3) by auto
      then have "b + len \<le> e" by (auto simp: e'_def split: if_splits)
      then have "usable (r # l) av b len" by (intro usable_part [OF Some [unfolded q] r(1) b(1)])
      then show ?thesis using ab b by (auto simp: e'_def split: if_splits)
    qed
  qed
qed simp

lemma find_loop_complete:
  assumes "ram_bounded l" and "r \<in> set l" and "{addr r..<ram_end r} \<inter> avoid_set av = {}"
    and "\<forall>a \<in> set (takeWhile (\<lambda>a. a_end a \<noteq> 0) av). a_start a < a_end a"
    and "len + 2 ^ k \<le> rsize r" and "\<forall>r \<in> set l. ram_end r + 2 ^ k \<le> 2 ^ 32"
  shows "find_loop 0 MAX_PADDR32 len (2 ^ k) 0 0 av l \<noteq> NULL_PADDR"
  using assms(1,2,6)
proof (induction l)
  case (Cons x l)
  have x: "0 < rsize x" "ram_end x + 2 ^ k \<le> 2 ^ 32" "add64 (addr x) (rsize x) = ram_end x"
    using Cons.prems by (auto simp: ram_bounded_def intro!: ram_end64)
  have pos: "(1 :: nat) \<le> 2 ^ k" by simp
  have not_null: "ROUND s (2 ^ k) \<noteq> NULL_PADDR" if "ROUND s (2 ^ k) < e" "e \<le> ram_end x" for s e
    using that x(2) pos unfolding NULL_PADDR_def by linarith
  show ?case
  proof (cases "x = r")
    case True
    have "fix_all av (addr x) (ram_end x) = Some (addr x, ram_end x)"
      using True assms(3,4) x(1) by (intro fix_all_free) (auto simp: ram_end_def)
    moreover have "addr x + 2 ^ k \<le> 2 ^ 32" using x by (simp add: ram_end_def)
    note R = ROUND_bounds [OF this]
    ultimately show ?thesis
      using True assms(5) x not_null [of "addr x" "ram_end x"] R(2) pos
      by (auto simp: Let_def MAX_PADDR32_def ram_end_def)
  next
    case False
    then have IH: "find_loop 0 MAX_PADDR32 len (2 ^ k) 0 0 av l \<noteq> NULL_PADDR"
      using Cons by (auto simp: ram_bounded_def)
    show ?thesis
    proof (cases "fix_all av (addr x) (ram_end x)")
      case (Some q)
      obtain s e where q: "q = (s, e)" by (cases q)
      have "e \<le> ram_end x" using fix_all_spec [of av "addr x" "ram_end x" s e] Some q x(1) by (auto simp: ram_end_def)
      then show ?thesis
        using IH Some q x not_null [of s e] pos by (auto simp: Let_def MAX_PADDR32_def)
    qed (use IH x in auto)
  qed
qed simp

lemma find_top_sound:
  assumes "ram_bounded l" and "0 < len" and "align = 0 \<or> align = 2 ^ k"
    and "topa = 0 \<or> usable l0 av topa len \<and> (align \<noteq> 0 \<longrightarrow> align dvd topa)" and "set l \<subseteq> set l0"
  defines "t \<equiv> find_top_loop len align av topa l"
  shows "t = 0 \<or> usable l0 av t len \<and> (align \<noteq> 0 \<longrightarrow> align dvd t)"
  using assms(1,4,5) unfolding t_def
proof (induction l arbitrary: topa)
  case (Cons r l)
  have r: "0 < rsize r" "ram_end r \<le> 2 ^ 32" "add64 (addr r) (rsize r) = ram_end r" "r \<in> set l0" "set l \<subseteq> set l0" "ram_bounded l"
    using Cons.prems by (auto simp: ram_bounded_def intro!: ram_end64)
  show ?case
  proof (cases "fix_all av (addr r) (ram_end r)")
    case None
    then show ?thesis using Cons r by simp
  next
    case (Some q)
    obtain s e where q: "q = (s, e)" by (cases q)
    have se: "s < e" "e \<le> ram_end r"
      using fix_all_spec [of av "addr r" "ram_end r" s e] Some q r(1) by (auto simp: ram_end_def)
    define chk where "chk = (if align \<noteq> 0 then TRUNC (e - len) align else to_paddr (e - len))"
    have "usable l0 av chk len \<and> (align \<noteq> 0 \<longrightarrow> align dvd chk)" if "len \<le> e - s" "s \<le> chk"
    proof -
      have lt: "e - len < 2 ^ 32" using se r(2) assms(2) by simp
      have "chk \<le> e - len" "align \<noteq> 0 \<longrightarrow> align dvd chk"
        using TRUNC_bounds [OF lt, of k] assms(3) lt by (auto simp: chk_def wrap_simps)
      moreover from this have "usable [r] av chk len"
        using that by (intro usable_part [OF Some [unfolded q] r(1)]) auto
      moreover have "ram_set [r] \<subseteq> ram_set l0" using r(4) by (auto simp: ram_set_def)
      ultimately show ?thesis by (auto simp: usable_def)
    qed
    then show ?thesis
      using Cons.IH [of "if s \<le> chk \<and> topa < chk then chk else topa"] Cons.IH [of topa] Cons.prems r Some q
      by (auto simp: chk_def Let_def)
  qed
qed simp

subsection \<open>The allocator\<close>

definition free_set :: "ram_state \<Rightarrow> nat set" where
  "free_set st = ram_set (ram_list st)"

definition ram_ok :: "nat \<Rightarrow> ram_state \<Rightarrow> bool" where
  \<comment> \<open>the list is in order and ends low enough for an alignment of \<open>2 ^ k\<close> not to wrap around\<close>
  "ram_ok k st \<longleftrightarrow> ram_inv (ram_list st) \<and> (\<forall>r \<in> set (ram_list st). ram_end r + 2 ^ k \<le> 2 ^ 32)"

lemma ram_ok_bound: "ram_ok k st \<longleftrightarrow> ram_inv (ram_list st) \<and> (\<forall>x \<in> free_set st. x + 1 + 2 ^ k \<le> 2 ^ 32)"
proof -
  have "ram_end r + 2 ^ k \<le> 2 ^ 32 \<longleftrightarrow> (\<forall>x \<in> eset_ram r. x + 1 + 2 ^ k \<le> 2 ^ 32)"
    if "ram_inv (ram_list st)" "r \<in> set (ram_list st)" for r
  proof -
    have "0 < rsize r" using that by (simp add: ram_inv_def)
    then have "ram_end r - 1 \<in> eset_ram r" "1 \<le> ram_end r" by (auto simp: eset_ram_def ram_end_def)
    moreover have "x + 1 \<le> ram_end r" if "x \<in> eset_ram r" for x using that by (simp add: eset_ram_def)
    ultimately show ?thesis by fastforce
  qed
  then show ?thesis by (auto simp: ram_ok_def free_set_def ram_set_def)
qed

lemma alloc_at_spec:
  assumes "ram_inv (ram_list st)" and "0 < len" and "ad + len < 2 ^ 32" and "alloc_at ad len st = Inr st'"
  shows "ram_inv (ram_list st')" and "free_set st' = free_set st - {ad..<ad + len}"
    and "avoid_list st' = avoid_list st" and "shdr st' = shdr st" and "avoid_init st' = avoid_init st"
    and "temp_syspage st' = temp_syspage st"
proof -
  have fin: "add32 ad len = ad + len" using assms(3) by (rule add32_eq)
  obtain l where l: "alloc_loop ad (ad + len) 0 (ram_list st) = Inr l"
    and st': "ram_list st' = l" "avoid_list st' = avoid_list st" "shdr st' = shdr st"
      "avoid_init st' = avoid_init st" "temp_syspage st' = temp_syspage st"
    using assms(4) by (auto simp: alloc_at_def Let_def fin bindE_Inr_iff simp del: adjust_sysram.simps split: if_splits)
  have "ad < ad + len" using assms(2) by simp
  from alloc_loop_spec [OF assms(1) _ this assms(3), of 0] l
  have "ram_inv l" "ram_set l = ram_set (ram_list st) - {ad..<ad + len}" by auto
  then show "ram_inv (ram_list st')" and "free_set st' = free_set st - {ad..<ad + len}"
    and "avoid_list st' = avoid_list st" and "shdr st' = shdr st" and "avoid_init st' = avoid_init st"
    and "temp_syspage st' = temp_syspage st"
    using st' by (auto simp: free_set_def)
qed

lemma alloc_at_Inl:
  assumes "ram_inv (ram_list st)" and "0 < len" and "ad + len < 2 ^ 32" and "length (ram_list st) < 191"
    and "\<not> sysram_added st"
  shows "\<exists>st'. alloc_at ad len st = Inr st'"
proof -
  have fin: "add32 ad len = ad + len" using assms(3) by (rule add32_eq)
  have lt: "ad < ad + len" using assms(2) by simp
  have "\<exists>l. alloc_loop ad (ad + len) 0 (ram_list st) = Inr l"
    using alloc_loop_spec [OF assms(1) _ lt assms(3), of 0] assms(4)
    by (cases "alloc_loop ad (ad + len) 0 (ram_list st)") auto
  then show ?thesis using assms(5) by (auto simp: alloc_at_def Let_def fin)
qed

lemma find_ram_sound:
  assumes "ram_ok k st" and "find_ram len (2 ^ k) 0 0 st = a" and "a \<noteq> NULL_PADDR"
  shows "usable (ram_list st) (avoid_list st) a len" and "2 ^ k dvd a" and "a + len < 2 ^ 32"
  using find_loop_sound [of "ram_list st" k 0 MAX_PADDR32 len "avoid_list st" a] assms
    ram_inv_bounded [of "ram_list st"]
  by (auto simp: ram_ok_def find_ram_def find_ram_in_range_def MAX_PADDR32_def)

lemma zero_ram_fields [simp]:
  "ram_list (zero_ram a n st) = ram_list st" "avoid_list (zero_ram a n st) = avoid_list st"
  "sysram_added (zero_ram a n st) = sysram_added st" "free_set (zero_ram a n st) = free_set st"
  by (simp_all add: zero_ram_def Let_def free_set_def)

lemma alloc_ram_spec:
  assumes "ram_ok k st" and "0 < len" and "alloc_ram NULL_PADDR len (2 ^ k) st = Inr (a, st')" and "a \<noteq> NULL_PADDR"
  shows "usable (ram_list st) (avoid_list st) a len" and "2 ^ k dvd a" and "ram_ok k st'"
    and "free_set st' = free_set st - {a..<a + len}" and "avoid_list st' = avoid_list st"
proof -
  define st1 where "st1 = (if secure_system st then zero_ram a len st else st)"
  have a: "a = find_ram len (2 ^ k) 0 0 st" and al: "alloc_at a len st1 = Inr st'"
    using assms(3,4) by (auto simp: alloc_ram_def Let_def bindE_Inr_iff st1_def split: if_splits)
  note f = find_ram_sound [OF assms(1) a [symmetric] assms(4)]
  show "usable (ram_list st) (avoid_list st) a len" and "2 ^ k dvd a" using f by auto
  have st1: "ram_list st1 = ram_list st" "avoid_list st1 = avoid_list st" "free_set st1 = free_set st"
    by (simp_all add: st1_def)
  have "ram_inv (ram_list st1)" using assms(1) st1 by (simp add: ram_ok_def)
  note s = alloc_at_spec [OF this assms(2) f(3) al]
  show fs: "free_set st' = free_set st - {a..<a + len}" and "avoid_list st' = avoid_list st" using s st1 by auto
  show "ram_ok k st'" using s(1) fs assms(1) by (auto simp: ram_ok_bound)
qed

text \<open>
  The contract of an allocator that serves requests of different kinds: a call that returns grants
  a block or nothing, what it grants is no longer free afterwards, and a request whose block is
  searched for gets one that was free.
\<close>

fun oblk :: "(nat \<times> nat) option \<Rightarrow> nat set" where
  "oblk None = {}"
| "oblk (Some (a, n)) = {a..<a + n}"

locale allocator =
  fixes inv :: "'s \<Rightarrow> bool" and free :: "'s \<Rightarrow> nat set" and ok :: "'r \<Rightarrow> bool" and searched :: "'r \<Rightarrow> bool"
    and alloc :: "'r \<Rightarrow> 's \<Rightarrow> 'e + (nat \<times> nat) option \<times> 's"
  assumes alloc_inv: "inv s \<Longrightarrow> ok r \<Longrightarrow> alloc r s = Inr (b, s') \<Longrightarrow> inv s'"
    and alloc_block: "inv s \<Longrightarrow> ok r \<Longrightarrow> alloc r s = Inr (b, s') \<Longrightarrow> searched r \<Longrightarrow> oblk b \<subseteq> free s"
    and alloc_free: "inv s \<Longrightarrow> ok r \<Longrightarrow> alloc r s = Inr (b, s') \<Longrightarrow> free s' = free s - oblk b"

fun alloc_seq :: "('r \<Rightarrow> 's \<Rightarrow> 'e + (nat \<times> nat) option \<times> 's) \<Rightarrow> 'r list \<Rightarrow> 's \<Rightarrow>
    'e + (nat \<times> nat) option list \<times> 's" where
  \<comment> \<open>calls one after the other; a crash ends the sequence\<close>
  "alloc_seq f [] s = Inr ([], s)"
| "alloc_seq f (r # rs) s =
     bindE (f r s) (\<lambda>(b, s1). bindE (alloc_seq f rs s1) (\<lambda>(bs, t). Inr (b # bs, t)))"

context allocator
begin

lemma seq_spec:
  assumes "inv s" and "\<forall>r \<in> set rs. ok r" and "alloc_seq alloc rs s = Inr (bs, t)"
  shows "inv t \<and> length bs = length rs \<and> free t = free s - (\<Union>b \<in> set bs. oblk b) \<and>
    (\<forall>j < length bs. searched (rs ! j) \<longrightarrow> oblk (bs ! j) \<subseteq> free s - (\<Union>i < j. oblk (bs ! i)))"
  using assms
proof (induction rs arbitrary: s bs)
  case (Cons r rs)
  obtain b s1 bs' where r: "alloc r s = Inr (b, s1)" "alloc_seq alloc rs s1 = Inr (bs', t)" "bs = b # bs'"
    using Cons.prems(3) by (auto simp: bindE_Inr_iff)
  have ok: "ok r" using Cons.prems(2) by simp
  note al = alloc_inv [OF Cons.prems(1) ok r(1)] alloc_block [OF Cons.prems(1) ok r(1)] alloc_free [OF Cons.prems(1) ok r(1)]
  have IH: "inv t" "length bs' = length rs" "free t = free s1 - (\<Union>b \<in> set bs'. oblk b)"
    "\<forall>j < length bs'. searched (rs ! j) \<longrightarrow> oblk (bs' ! j) \<subseteq> free s1 - (\<Union>i < j. oblk (bs' ! i))"
    using Cons.IH [OF al(1) _ r(2)] Cons.prems(2) by auto
  have "oblk (bs ! j) \<subseteq> free s - (\<Union>i < j. oblk (bs ! i))" if "j < length bs" "searched ((r # rs) ! j)" for j
  proof (cases j)
    case (Suc k)
    have "(\<Union>i < Suc k. oblk (bs ! i)) = oblk b \<union> (\<Union>i < k. oblk (bs' ! i))"
      unfolding r(3) lessThan_Suc_eq_insert_0 by auto
    then show ?thesis using IH(4) that al(3) r(3) Suc by auto
  qed (use that al(2) r(3) in auto)
  then show ?case using IH al(3) r(3) by auto
qed simp

end

record ram_request =
  rq_addr :: nat
  rq_len :: nat
  rq_align :: nat

definition ram_alloc :: "ram_request \<Rightarrow> ram_state \<Rightarrow> startup_error + (nat \<times> nat) option \<times> ram_state" where
  \<comment> \<open>a call of \<open>alloc_ram\<close> seen by its caller\<close>
  "ram_alloc r st =
     bindE (alloc_ram (rq_addr r) (rq_len r) (rq_align r) st)
       (\<lambda>(a, st'). Inr (if a = NULL_PADDR then None else Some (a, rq_len r), st'))"

definition request_ok :: "nat \<Rightarrow> ram_request \<Rightarrow> bool" where
  \<comment> \<open>an address of its own ends below 4 GB; a search has an alignment of at most \<open>2 ^ k\<close>\<close>
  "request_ok k r \<longleftrightarrow> 0 < rq_len r \<and>
     (if rq_addr r = NULL_PADDR then rq_align r \<in> (\<lambda>j. 2 ^ j) ` {..k} else rq_addr r + rq_len r < 2 ^ 32)"

definition searches :: "ram_request \<Rightarrow> bool" where
  "searches r \<longleftrightarrow> rq_addr r = NULL_PADDR"

definition available :: "ram_state \<Rightarrow> nat set" where
  "available st = free_set st - avoid_set (avoid_list st)"

lemma ram_ok_mono: "ram_ok k st \<Longrightarrow> j \<le> k \<Longrightarrow> ram_ok j st"
proof -
  assume "ram_ok k st" and "j \<le> k"
  moreover from this have "(2 :: nat) ^ j \<le> 2 ^ k" by (intro power_increasing) auto
  ultimately show ?thesis unfolding ram_ok_def by (meson add_left_mono order_trans)
qed

lemma ram_alloc_spec:
  assumes "ram_ok k st" and "request_ok k r" and "ram_alloc r st = Inr (b, st')"
  shows "ram_ok k st'" and "avoid_list st' = avoid_list st" and "free_set st' = free_set st - oblk b"
    and "searches r \<Longrightarrow> oblk b \<subseteq> available st"
proof -
  obtain a where al: "alloc_ram (rq_addr r) (rq_len r) (rq_align r) st = Inr (a, st')"
    and b: "b = (if a = NULL_PADDR then None else Some (a, rq_len r))"
    using assms(3) by (auto simp: ram_alloc_def bindE_Inr_iff)
  have "ram_ok k st' \<and> avoid_list st' = avoid_list st \<and> free_set st' = free_set st - oblk b \<and>
    (searches r \<longrightarrow> oblk b \<subseteq> available st)"
  proof (cases "searches r")
    case True
    then obtain j where j: "j \<le> k" "rq_align r = 2 ^ j" and l: "0 < rq_len r" and n: "rq_addr r = NULL_PADDR"
      using assms(2) by (auto simp: request_ok_def searches_def)
    have f: "\<And>x. x \<in> free_set st \<Longrightarrow> x + 1 + 2 ^ k \<le> 2 ^ 32" using assms(1) by (simp add: ram_ok_bound)
    show ?thesis
    proof (cases "a = NULL_PADDR")
      case True
      then have "st' = st" using al n
        by (auto simp: alloc_ram_def Let_def bindE_Inr_iff split: if_splits)
      then show ?thesis using True b assms(1) by simp
    next
      case False
      note sp = alloc_ram_spec [OF ram_ok_mono [OF assms(1) j(1)] l al [unfolded n j(2)] False]
      have "ram_ok k st'" using sp(3,4) f by (auto simp: ram_ok_bound)
      then show ?thesis using sp b False by (auto simp: usable_def available_def free_set_def)
    qed
  next
    case False
    then have n: "rq_addr r \<noteq> NULL_PADDR" "0 < rq_len r" "rq_addr r + rq_len r < 2 ^ 32"
      using assms(2) by (auto simp: request_ok_def searches_def)
    then have a: "a = rq_addr r" "alloc_at (rq_addr r) (rq_len r) st = Inr st'"
      using al by (auto simp: alloc_ram_def bindE_Inr_iff)
    have "ram_inv (ram_list st)" using assms(1) by (simp add: ram_ok_def)
    note s = alloc_at_spec [OF this n(2,3) a(2)]
    have "ram_ok k st'" using s(1,2) assms(1) by (auto simp: ram_ok_bound)
    then show ?thesis using s b a n False by auto
  qed
  then show "ram_ok k st'" and "avoid_list st' = avoid_list st" and "free_set st' = free_set st - oblk b"
    and "searches r \<Longrightarrow> oblk b \<subseteq> available st" by auto
qed

interpretation ram: allocator "ram_ok k" free_set "request_ok k" searches ram_alloc for k
proof
  fix s r b s'
  assume "ram_ok k s" and "request_ok k r" and "ram_alloc r s = Inr (b, s')"
  note sp = ram_alloc_spec [OF this]
  show "ram_ok k s'" by (rule sp)
  show "oblk b \<subseteq> free_set s" if "searches r" using sp(4) [OF that] by (auto simp: available_def)
  show "free_set s' = free_set s - oblk b" by (rule sp)
qed

interpretation ram_avail: allocator "ram_ok k" available "request_ok k" searches ram_alloc for k
proof
  fix s r b s'
  assume "ram_ok k s" and "request_ok k r" and "ram_alloc r s = Inr (b, s')"
  note sp = ram_alloc_spec [OF this]
  show "ram_ok k s'" by (rule sp)
  show "oblk b \<subseteq> available s" if "searches r" by (rule sp(4) [OF that])
  show "available s' = available s - oblk b" using sp(2,3) by (auto simp: available_def)
qed

subsection \<open>Properties\<close>

definition demo_ram :: ram_state where
  \<comment> \<open>one block of 2 GB at \<open>0x10000000\<close>, the first 8 MB of it to be avoided\<close>
  "demo_ram = \<lparr>r_as = demo_as, shdr = \<lparr>ram_paddr = 0x10800000, ram_size = 0x100000, startup_size = 0x20000\<rparr>,
     secure_system = False, sysram_added = False, ws_early_next = 0x10900000, temp_syspage = NULL_PADDR,
     avoid_init = True, avoid_list = [\<lparr>a_start = 0x10000000, a_end = 0x10800000\<rparr>],
     ram_list = [\<lparr>addr = 0x10000000, rsize = 0x80000000\<rparr>], watch_list = [], watch_log = []\<rparr>"

lemma demo_ram_ok: "k \<le> 12 \<Longrightarrow> ram_ok k demo_ram"
proof -
  assume "k \<le> 12"
  then have "(2 :: nat) ^ k \<le> 2 ^ 12" by (rule power_increasing) simp
  then show ?thesis by (simp add: ram_ok_def demo_ram_def ram_inv_def ram_end_def)
qed


text \<open>
  C9: \<open>add_mem\<close> keeps the list of free memory in order (entries ascend, are not empty and do not
  touch) and adds exactly the range it is given to the set of free addresses; it fails only when
  the array of 192 entries is full.
\<close>

theorem add_mem_correct:
  assumes "ram_inv l" and "start + len \<le> 2 ^ 32"
  shows "case add_mem start len l of
      Inl e \<Rightarrow> e = RAM_entry_overflow \<and> 191 \<le> length l
    | Inr l' \<Rightarrow> ram_inv l' \<and> ram_set l' = ram_set l \<union> {start..<start + len}"
  using add_mem_spec [OF assms] add_mem_Inl [of start len l] by (cases "add_mem start len l") auto

theorem add_mem_correct_witness:
  "ram_inv (ram_list demo_ram) \<and>
   (case add_mem 0x90000000 0x1000 (ram_list demo_ram) of Inl e \<Rightarrow> False
    | Inr l' \<Rightarrow> ram_inv l' \<and> ram_set l' = {0x10000000..<0x90000000} \<union> {0x90000000..<0x90001000})"
proof -
  have i: "ram_inv (ram_list demo_ram)" using demo_ram_ok [of 0] by (simp add: ram_ok_def)
  have "length (ram_list demo_ram) = 1" "ram_set (ram_list demo_ram) = {0x10000000..<0x90000000}"
    by (simp_all add: demo_ram_def ram_set_def eset_ram_def ram_end_def)
  then show ?thesis
    using i add_mem_correct [OF i, of "0x90000000" "0x1000"] by (auto split: sum.splits)
qed



lemmas ram_calc = alloc_ram_def alloc_at_def alloc_loop.simps alloc_act_def find_ram_def find_ram_in_range_def
  fix_size_def add64_def sub64_def add32_def ROUND_def TRUNC_def MAX_PADDR32_def to_paddr_def NULL_PADDR_def

definition demo_requests :: "ram_request list" where
  \<comment> \<open>the image in memory at its address, a page for the system page, scratch memory\<close>
  "demo_requests =
     [\<lparr>rq_addr = 0x10800000, rq_len = 0x100000, rq_align = 1\<rparr>,
      \<lparr>rq_addr = NULL_PADDR, rq_len = 0x10000, rq_align = 0x1000\<rparr>,
      \<lparr>rq_addr = NULL_PADDR, rq_len = 0x4010, rq_align = 8\<rparr>]"

lemma demo_alloc_seq:
  "\<exists>st'. alloc_seq ram_alloc demo_requests demo_ram =
     Inr ([Some (0x10800000, 0x100000), Some (0x10900000, 0x10000), Some (0x10910000, 0x4010)], st')"
  by (simp add: demo_requests_def ram_alloc_def demo_ram_def ram_calc add_mem_def Let_def MAX_RAM_LIST_SIZE_def ram_list_size_def)

text \<open>
  C2: allocations never overlap. Of any sequence of calls of \<open>alloc_ram\<close>, at given addresses and
  searches of any alignments up to \<open>2 ^ k\<close> in any order, that runs to its end, every block found by
  a search lies in memory that was free at the beginning and misses the ranges to be avoided and
  every block granted before it, whether found or at a given address; the memory that is free at
  the end is what is left of it. The memory has to end \<open>2 ^ k\<close> bytes below 4 GB, and the given
  ranges below 4 GB.
\<close>

theorem alloc_ram_disjoint:
  assumes "ram_ok k st" and "\<forall>r \<in> set rs. request_ok k r" and "alloc_seq ram_alloc rs st = Inr (bs, st')"
  shows "length bs = length rs \<and>
    (\<forall>j < length bs. rq_addr (rs ! j) = NULL_PADDR \<longrightarrow>
       oblk (bs ! j) \<subseteq> free_set st - avoid_set (avoid_list st) \<and> (\<forall>i < j. disjnt (oblk (bs ! i)) (oblk (bs ! j)))) \<and>
    free_set st' = free_set st - (\<Union>b \<in> set bs. oblk b) \<and> ram_ok k st'"
proof -
  note s = ram.seq_spec [OF assms] ram_avail.seq_spec [OF assms]
  have "oblk (bs ! j) \<subseteq> available st - (\<Union>i < j. oblk (bs ! i))" if "j < length bs" "rq_addr (rs ! j) = NULL_PADDR" for j
    using s that by (simp add: searches_def)
  then show ?thesis using s by (fastforce simp: available_def disjnt_def)
qed

theorem alloc_ram_disjoint_witness:
  "\<exists>bs st'. alloc_seq ram_alloc demo_requests demo_ram = Inr (bs, st') \<and>
     bs = [Some (0x10800000, 0x100000), Some (0x10900000, 0x10000), Some (0x10910000, 0x4010)] \<and>
     disjnt (oblk (bs ! 0)) (oblk (bs ! 1)) \<and> disjnt (oblk (bs ! 1)) (oblk (bs ! 2)) \<and>
     oblk (bs ! 2) \<subseteq> free_set demo_ram - avoid_set (avoid_list demo_ram)"
proof -
  obtain bs st' where s: "alloc_seq ram_alloc demo_requests demo_ram = Inr (bs, st')"
    and bs: "bs = [Some (0x10800000, 0x100000), Some (0x10900000, 0x10000), Some (0x10910000, 0x4010)]"
    using demo_alloc_seq by auto
  have p: "n \<in> (\<lambda>j. 2 ^ j) ` {..12}" if "n = 2 ^ j" and "j \<le> 12" for n j :: nat using that by blast
  have "\<forall>r \<in> set demo_requests. request_ok 12 r"
    using p [of 1 0] p [of "0x1000" 12] p [of 8 3] by (simp add: demo_requests_def request_ok_def NULL_PADDR_def)
  note d = alloc_ram_disjoint [OF demo_ram_ok [OF order_refl] this s, THEN conjunct2, THEN conjunct1]
  have "rq_addr (demo_requests ! 1) = NULL_PADDR" "rq_addr (demo_requests ! 2) = NULL_PADDR" "length bs = 3"
    by (simp_all add: demo_requests_def bs)
  note q = this
  have sub: "oblk (bs ! j) \<subseteq> free_set demo_ram - avoid_set (avoid_list demo_ram)"
    and dis: "i < j \<Longrightarrow> disjnt (oblk (bs ! i)) (oblk (bs ! j))"
    if "j < 3" "rq_addr (demo_requests ! j) = NULL_PADDR" for i j
    using d q(3) that by simp_all
  have "disjnt (oblk (bs ! 0)) (oblk (bs ! 1))" "disjnt (oblk (bs ! 1)) (oblk (bs ! 2))"
    using dis [OF _ q(1), of 0] dis [OF _ q(2), of 1] by simp_all
  then show ?thesis using s bs sub [OF _ q(2)] by (intro exI [of _ bs] exI [of _ st']) simp
qed
text \<open>
  C30: \<open>find_ram\<close> does find memory: when the free list has a block that misses every range to be
  avoided and is longer than the request by the alignment, it returns an address, which is aligned
  and whose block is usable.
\<close>

theorem find_ram_complete:
  assumes "ram_ok k st" and "r \<in> set (ram_list st)" and "eset_ram r \<inter> avoid_set (avoid_list st) = {}"
    and "\<forall>a \<in> set (takeWhile (\<lambda>a. a_end a \<noteq> 0) (avoid_list st)). a_start a < a_end a"
    and "len + 2 ^ k \<le> rsize r"
  shows "find_ram len (2 ^ k) 0 0 st \<noteq> NULL_PADDR \<and>
    usable (ram_list st) (avoid_list st) (find_ram len (2 ^ k) 0 0 st) len \<and> 2 ^ k dvd find_ram len (2 ^ k) 0 0 st"
proof -
  have "find_ram len (2 ^ k) 0 0 st \<noteq> NULL_PADDR"
    using find_loop_complete [of "ram_list st" r "avoid_list st" len k] assms ram_inv_bounded [of "ram_list st"]
    by (simp add: find_ram_def find_ram_in_range_def ram_ok_def eset_ram_def)
  then show ?thesis using find_ram_sound [OF assms(1) refl] by blast
qed

theorem find_ram_complete_witness:
  "find_ram 0x10000 (2 ^ 12) 0 0 (demo_ram\<lparr>avoid_list := []\<rparr>) \<noteq> NULL_PADDR \<and>
   2 ^ 12 dvd find_ram 0x10000 (2 ^ 12) 0 0 (demo_ram\<lparr>avoid_list := []\<rparr>)"
proof -
  have "ram_ok 12 (demo_ram\<lparr>avoid_list := []\<rparr>)" using demo_ram_ok [of 12] by (simp add: ram_ok_def)
  from find_ram_complete [OF this, of "\<lparr>addr = 0x10000000, rsize = 0x80000000\<rparr>" "0x10000"] show ?thesis
    by (simp add: demo_ram_def avoid_set_def)
qed

text \<open>
  \<open>alloc_ram\<close> at a given address takes exactly the given range from the free memory, whatever
  blocks it cuts, removes or splits, and keeps the list in order. The range has to end below 4 GB.
\<close>

theorem alloc_ram_at_correct:
  assumes "ram_inv (ram_list st)" and "0 < len" and "ad + len < 2 ^ 32" and "length (ram_list st) < 191"
    and "\<not> sysram_added st"
  shows "\<exists>st'. alloc_ram ad len align st = Inr (ad, st') \<and> ram_inv (ram_list st') \<and>
    free_set st' = free_set st - {ad..<ad + len}"
proof -
  obtain st' where st': "alloc_at ad len st = Inr st'" using alloc_at_Inl [OF assms] by blast
  have "ad \<noteq> NULL_PADDR" using assms(2,3) by (simp add: NULL_PADDR_def)
  then show ?thesis using alloc_at_spec(1,2) [OF assms(1-3) st'] st' by (simp add: alloc_ram_def)
qed

theorem alloc_ram_at_correct_witness:
  "\<exists>st'. alloc_ram 0x10820000 0xe0000 1 demo_ram = Inr (0x10820000, st') \<and>
     free_set st' = {0x10000000..<0x90000000} - {0x10820000..<0x10900000}"
proof -
  have "free_set demo_ram = {0x10000000..<0x90000000}" "length (ram_list demo_ram) < 191" "\<not> sysram_added demo_ram"
    by (simp_all add: demo_ram_def free_set_def ram_set_def eset_ram_def ram_end_def)
  then show ?thesis
    using alloc_ram_at_correct [of demo_ram "0xe0000" "0x10820000" 1] demo_ram_ok [of 0]
    by (auto simp: ram_ok_def)
qed

lemma alloc_loop_keeps:
  assumes "\<forall>x \<in> set l1. 0 < addr x \<and> add64 (addr x) (rsize x) < ad" and "i = length l0"
  shows "alloc_loop ad 0 i (l0 @ l1 @ l2) = alloc_loop ad 0 (i + length l1) (l0 @ l1 @ l2)"
  using assms
proof (induction l1 arbitrary: i l0)
  case (Cons x l1)
  have "alloc_act ad 0 x = Keep" using Cons.prems by (simp add: alloc_act_def Let_def)
  then have "alloc_loop ad 0 i (l0 @ (x # l1) @ l2) = alloc_loop ad 0 (i + 1) ((l0 @ [x]) @ l1 @ l2)"
    using Cons.prems by (subst alloc_loop.simps) (simp add: nth_append)
  also have "\<dots> = alloc_loop ad 0 (i + 1 + length l1) ((l0 @ [x]) @ l1 @ l2)"
    by (rule Cons.IH) (use Cons.prems in auto)
  finally show ?case by simp
qed simp

lemma alloc_loop_top:
  assumes "ram_inv (l @ [r])" and "\<forall>x \<in> set l. 0 < addr x" and "ram_end r = 2 ^ 32" and "0 < addr r"
  shows "alloc_loop (addr r) 0 0 (l @ [r]) = Inr (l @ [\<lparr>addr = 0, rsize = 2 ^ 32\<rparr>])"
proof -
  have "0 < addr x \<and> add64 (addr x) (rsize x) < addr r" if "x \<in> set l" for x
    using assms(1,2) that by (auto simp: ram_inv_def sorted_wrt_append ram_end_def add64_def)
  then have "alloc_loop (addr r) 0 0 (l @ [r]) = alloc_loop (addr r) 0 (length l) (l @ [r])"
    using alloc_loop_keeps [of l "addr r" 0 "[]" "[r]"] by simp
  also have "\<dots> = Inr (l @ [\<lparr>addr = 0, rsize = 2 ^ 32\<rparr>])"
  proof -
    have "rsize r = 2 ^ 32 - addr r" "addr r < 2 ^ 32" using assms(1,3) by (auto simp: ram_inv_def ram_end_def)
    then have "alloc_act (addr r) 0 r = Change \<lparr>addr = 0, rsize = 2 ^ 32\<rparr>"
      using assms(4) by (simp add: alloc_act_def add64_def sub64_def Let_def)
    then show ?thesis
      by (subst alloc_loop.simps) (simp add: nth_append list_update_append alloc_loop.simps [of _ _ "Suc _"])
  qed
  finally show ?thesis .
qed

text \<open>
  The addition \<open>addr + size\<close> in \<open>alloc_ram\<close> is 32 bits wide. A request by address for the
  whole last block of the free memory, when that block ends at 4 GB, therefore does not take it
  away: its entry is replaced by one that is said to hold all of the 4 GB, and every address counts
  as free afterwards.
\<close>

theorem alloc_ram_at_top_wraps:
  assumes "ram_inv (ram_list st)" and "ram_list st = l @ [r]" and "ram_end r = 2 ^ 32" and "1 < rsize r"
    and "\<forall>x \<in> set (ram_list st). 0 < addr x" and "\<not> sysram_added st"
  shows "\<exists>st'. alloc_ram (addr r) (rsize r) align st = Inr (addr r, st') \<and>
    ram_list st' = l @ [\<lparr>addr = 0, rsize = 2 ^ 32\<rparr>] \<and> free_set st' = {0..<2 ^ 32}"
proof -
  have "addr r \<noteq> NULL_PADDR" using assms(3,4) by (simp add: ram_end_def NULL_PADDR_def)
  moreover have "add32 (addr r) (rsize r) = 0" using assms(3) by (simp add: ram_end_def add32_def)
  moreover have "ram_set l \<subseteq> {0..<2 ^ 32}" using assms(1,2) by (auto simp: ram_inv_def ram_set_def eset_ram_def)
  ultimately show ?thesis
    using alloc_loop_top [of l r] assms
    by (auto simp: alloc_ram_def alloc_at_def Let_def free_set_def eset_ram_def ram_end_def)
qed

theorem alloc_ram_at_top_wraps_witness:
  "\<exists>st'. alloc_ram 0xc0000000 0x40000000 1
       (demo_ram\<lparr>ram_list := [\<lparr>addr = 0x10000000, rsize = 0x80000000\<rparr>, \<lparr>addr = 0xc0000000, rsize = 0x40000000\<rparr>]\<rparr>) =
       Inr (0xc0000000, st') \<and> free_set st' = {0..<2 ^ 32}"
  using alloc_ram_at_top_wraps [of
      "demo_ram\<lparr>ram_list := [\<lparr>addr = 0x10000000, rsize = 0x80000000\<rparr>, \<lparr>addr = 0xc0000000, rsize = 0x40000000\<rparr>]\<rparr>"
      "[\<lparr>addr = 0x10000000, rsize = 0x80000000\<rparr>]" "\<lparr>addr = 0xc0000000, rsize = 0x40000000\<rparr>" 1]
  by (auto simp: ram_inv_def ram_end_def demo_ram_def)

text \<open>
  \<open>find_top_ram_aligned\<close>, the search from the top of memory that \<open>reserve_ram\<close> uses: unless it
  reports failure, the block it returns, rounded up to whole pages, is usable and aligned.
\<close>

theorem find_top_ram_aligned_correct:
  assumes "ram_inv (ram_list st)" and "align = 0 \<or> align = 2 ^ k" and "0 < ROUND len pagesize"
    and "find_top_ram_aligned len align pagesize st \<noteq> NULL_PADDR"
  shows "usable (ram_list st) (avoid_list st) (find_top_ram_aligned len align pagesize st) (ROUND len pagesize) \<and>
    (align \<noteq> 0 \<longrightarrow> align dvd find_top_ram_aligned len align pagesize st)"
  using find_top_sound [OF ram_inv_bounded [OF assms(1)] assms(3,2), of 0 "ram_list st" "avoid_list st"] assms(4)
  by (auto simp: find_top_ram_aligned_def Let_def split: if_splits)

theorem find_top_ram_aligned_correct_witness:
  "find_top_ram_aligned 0x100 0x1000 0x1000 demo_ram = 0x8ffff000 \<and>
   usable (ram_list demo_ram) (avoid_list demo_ram) 0x8ffff000 0x1000"
proof -
  have r: "ROUND 0x100 0x1000 = 0x1000" by (simp add: ROUND_def TRUNC_def)
  have f: "find_top_ram_aligned 0x100 0x1000 0x1000 demo_ram = 0x8ffff000"
    by (simp add: find_top_ram_aligned_def r demo_ram_def fix_size_def add64_def TRUNC_def)
  have "ram_inv (ram_list demo_ram)" using demo_ram_ok [of 0] by (simp add: ram_ok_def)
  from find_top_ram_aligned_correct [OF this, of "0x1000" 12 "0x100" "0x1000"] f r show ?thesis
    by (simp add: NULL_PADDR_def)
qed

definition avoid_ok :: "ram_state \<Rightarrow> bool" where
  "avoid_ok st \<longleftrightarrow> avoid_init st \<and> (\<forall>a \<in> set (avoid_list st). a_end a \<noteq> 0)"

lemma avoid_set_push:
  assumes "\<forall>a \<in> set av. a_end a \<noteq> 0" and "start + len < 2 ^ 32" and "0 < len"
  shows "avoid_set (av @ [\<lparr>a_start = start, a_end = add32 start len\<rparr>]) = avoid_set av \<union> {start..<start + len}"
proof -
  have "takeWhile (\<lambda>a. a_end a \<noteq> 0) av = av" using assms(1) by (simp add: takeWhile_eq_all_conv)
  moreover have "takeWhile (\<lambda>a. a_end a \<noteq> 0) (av @ [\<lparr>a_start = start, a_end = start + len\<rparr>]) =
      av @ [\<lparr>a_start = start, a_end = start + len\<rparr>]" using assms(1,3) by (simp add: takeWhile_eq_all_conv)
  ultimately show ?thesis using assms(2) by (simp only: avoid_set_def add32_eq) auto
qed

text \<open>
  C31: once memory is known, \<open>ws_alloc\<close> returns a block of usable memory, aligned to eight bytes, and
  adds it to the ranges to be avoided, so no later search returns a block that overlaps it; or it
  returns no block and changes nothing. The free list itself is not changed.
\<close>

theorem ws_alloc_correct:
  assumes "ram_ok 3 st" and "avoid_ok st" and "ram_list st \<noteq> []" and "0 < len" and "len + 8 \<le> 2 ^ 32"
  shows "case ws_alloc len st of
      (None, st') \<Rightarrow> st' = st
    | (Some a, st') \<Rightarrow> len \<le> ROUND len 8 \<and> usable (ram_list st) (avoid_list st) a (ROUND len 8) \<and> 8 dvd a \<and>
        ram_list st' = ram_list st \<and> avoid_ok st' \<and>
        avoid_set (avoid_list st') = avoid_set (avoid_list st) \<union> {a..<a + ROUND len 8}"
proof (cases "find_ram (ROUND len 8) 8 0 0 st = NULL_PADDR")
  case True
  then show ?thesis using assms(2,3) by (simp add: ws_alloc_def ws_get_def avoid_ok_def ram_list_size_def)
next
  case False
  let ?a = "find_ram (ROUND len 8) 8 0 0 st" and ?n = "ROUND len 8"
  have n: "len \<le> ?n" using ROUND_bounds(1) [of len 3] assms(5) by simp
  note f = find_ram_sound [OF assms(1), of ?n ?a, simplified]
  have ws: "ws_alloc len st = (Some ?a, avoid_push ?a ?n st)"
    using assms(2,3) False by (simp add: ws_alloc_def ws_get_def avoid_ok_def ram_list_size_def Let_def)
  have "add32 ?a ?n = ?a + ?n" using f(3) False by (simp add: add32_eq)
  then have ok: "avoid_ok (avoid_push ?a ?n st)"
    using assms(2,4) n by (auto simp: avoid_ok_def avoid_push_def)
  have "avoid_set (avoid_list (avoid_push ?a ?n st)) = avoid_set (avoid_list st) \<union> {?a..<?a + ?n}"
    unfolding avoid_push_def using avoid_set_push [of "avoid_list st" ?a ?n] assms(2,4) f(3) False n
    by (simp add: avoid_ok_def)
  then show ?thesis using ws ok f False n by (simp add: avoid_push_def)
qed

theorem ws_alloc_correct_witness:
  "case ws_alloc 100 demo_ram of (None, st') \<Rightarrow> st' = demo_ram
   | (Some a, st') \<Rightarrow> usable (ram_list demo_ram) (avoid_list demo_ram) a (ROUND 100 8) \<and> 8 dvd a"
  using ws_alloc_correct [OF demo_ram_ok, of 100]
  by (auto simp: avoid_ok_def demo_ram_def split: prod.splits option.splits)

lemma first_asinfo_ram:
  "first_asinfo st = Inr st' \<Longrightarrow> ram_list st' = ram_list st \<and> shdr st' = shdr st \<and> avoid_init st' = avoid_init st \<and>
     sysram_added st' = sysram_added st"
  by (auto simp: first_asinfo_def lift_as_def bindE_Inr_iff split: if_splits)

lemma lift_as_ram:
  "lift_as f st = Inr (x, st') \<Longrightarrow> ram_list st' = ram_list st \<and> shdr st' = shdr st \<and> avoid_init st' = avoid_init st \<and>
     sysram_added st' = sysram_added st"
  by (auto simp: lift_as_def bindE_Inr_iff)

lemma move_syspage_ram: "avoid_init st \<Longrightarrow> ram_list (move_syspage st) = ram_list st"
  by (simp add: move_syspage_def Let_def avoid_ram_def avoid_push_def)

text \<open>
  C8: \<open>add_ram\<close>, when it returns, has added the range to the free memory and taken the boot image
  from it; the list stays in order, whatever moving the temporary system page and the address space
  entries do besides.
\<close>

theorem add_ram_correct:
  assumes "ram_inv (ram_list st)" and "avoid_init st" and "start + len \<le> 2 ^ 32"
    and "startup_size (shdr st) < ram_size (shdr st)" and "ram_paddr (shdr st) + ram_size (shdr st) < 2 ^ 32"
    and "ram_paddr (shdr st) + startup_size (shdr st) \<noteq> NULL_PADDR"
    and "add_ram start len st = Inr st'"
  shows "ram_inv (ram_list st') \<and>
    free_set st' = (free_set st \<union> {start..<start + len}) -
      {ram_paddr (shdr st) + startup_size (shdr st)..<ram_paddr (shdr st) + ram_size (shdr st)}"
proof -
  let ?h = "shdr st"
  let ?ad = "ram_paddr ?h + startup_size ?h" and ?n = "ram_size ?h - startup_size ?h"
  have w: "add32 (ram_paddr ?h) (startup_size ?h) = ?ad" "sub32 (ram_size ?h) (startup_size ?h) = ?n"
    using assms(4,5) by (simp_all add: wrap_simps)
  obtain st1 x st2 l y st4 where s: "first_asinfo st = Inr st1"
    "lift_as (as_add_containing start (sub32 (add32 start len) 1) (AS_ATTR_RAM (as_conf (r_as st1)))
       (str ''ram'') (str ''memory'')) st1 = Inr (x, st2)"
    "add_mem start len (ram_list st2) = Inr l"
    "alloc_ram (add32 (ram_paddr (shdr st2)) (startup_size (shdr st2)))
       (sub32 (ram_size (shdr st2)) (startup_size (shdr st2))) 1 (st2\<lparr>ram_list := l\<rparr>) = Inr (y, st4)"
    "st' = call_watchers start len (move_syspage st4)"
    using assms(7) by (auto simp: add_ram_def bindE_Inr_iff Let_def)
  note k = first_asinfo_ram [OF s(1)] lift_as_ram [OF s(2)]
  have add: "ram_inv l" "ram_set l = ram_set (ram_list st) \<union> {start..<start + len}"
    using add_mem_spec [OF _ assms(3) s(3)] assms(1) k by auto
  have "alloc_at ?ad ?n (st2\<lparr>ram_list := l\<rparr>) = Inr st4"
    using s(4) k w assms(6) by (auto simp: alloc_ram_def bindE_Inr_iff)
  from alloc_at_spec [OF _ _ _ this] add(1) assms(4,5)
  have "ram_inv (ram_list st4)" "free_set st4 = free_set (st2\<lparr>ram_list := l\<rparr>) - {?ad..<?ad + ?n}"
    "avoid_init st4 = avoid_init st2" by auto
  moreover have "ram_list st' = ram_list st4"
    using s(5) move_syspage_ram [of st4] calculation(3) k assms(2) by (simp add: call_watchers_def)
  moreover have "?ad + ?n = ram_paddr ?h + ram_size ?h" using assms(4) by simp
  ultimately show ?thesis using add(2) by (simp add: free_set_def)
qed

theorem add_ram_correct_witness:
  "\<exists>st'. add_ram 0x90000000 0x1000 demo_ram = Inr st' \<and> ram_inv (ram_list st') \<and>
     free_set st' = ({0x10000000..<0x90000000} \<union> {0x90000000..<0x90001000}) - {0x10820000..<0x10900000}"
proof -
  have inv: "ram_inv (ram_list demo_ram)" using demo_ram_ok [of 0] by (simp add: ram_ok_def)
  have f: "free_set demo_ram = {0x10000000..<0x90000000}" "avoid_init demo_ram" "first_asinfo demo_ram = Inr demo_ram"
    "shdr demo_ram = \<lparr>ram_paddr = 0x10800000, ram_size = 0x100000, startup_size = 0x20000\<rparr>" "\<not> sysram_added demo_ram"
    "AS_ATTR_RAM (as_conf (r_as demo_ram)) = 0x20" "r_as demo_ram = demo_as" "length (ram_list demo_ram) = 1"
    by (simp_all add: demo_ram_def free_set_def ram_set_def eset_ram_def ram_end_def first_asinfo_def demo_as_def)
  obtain r as where "as_add_containing 0x90000000 0x90000fff 0x20 (str ''ram'') (str ''memory'') demo_as = Inr (r, as)"
    using demo_as_add [of "0x90000000" "0x90000fff"] by auto
  moreover have "sub32 (add32 0x90000000 0x1000) 1 = 0x90000fff" by (simp add: sub32_def add32_def)
  ultimately have as: "lift_as (as_add_containing 0x90000000 (sub32 (add32 0x90000000 0x1000) 1)
      (AS_ATTR_RAM (as_conf (r_as demo_ram))) (str ''ram'') (str ''memory'')) demo_ram = Inr (r, demo_ram\<lparr>r_as := as\<rparr>)"
    using f by (simp add: lift_as_def)
  obtain l where l: "add_mem 0x90000000 0x1000 (ram_list demo_ram) = Inr l" "length l = 1"
    by (simp add: add_mem_def demo_ram_def ram_list_size_def MAX_RAM_LIST_SIZE_def add64_def)
  have "\<exists>st4. alloc_at 0x10820000 0xe0000 (demo_ram\<lparr>r_as := as, ram_list := l\<rparr>) = Inr st4"
    by (rule alloc_at_Inl) (use l f add_mem_spec(1) [OF inv _ l(1)] in auto)
  then obtain st4 where "alloc_ram 0x10820000 0xe0000 1 (demo_ram\<lparr>r_as := as, ram_list := l\<rparr>) = Inr (0x10820000, st4)"
    by (auto simp: alloc_ram_def NULL_PADDR_def)
  then have "\<exists>st'. add_ram 0x90000000 0x1000 demo_ram = Inr st'"
    using as l f by (simp add: add_ram_def Let_def add32_def sub32_def)
  then show ?thesis
    using add_ram_correct [OF inv f(2), of "0x90000000" "0x1000"] f by (auto simp: NULL_PADDR_def)
qed

end
