(* ===== verification/Rtc_Chip.thy ===== *)
theory Rtc_Chip
  imports Prelude
begin

section \<open>The chip access layer of the clock utility\<close>

text \<open>
  \<^verbatim>\<open>utils/r/rtc/rtc.h\<close> and the access functions of \<^verbatim>\<open>qnxrtc.c\<close>: where the clock chip is
  (\<open>chip_loc\<close>), how its registers are read and written, and the BCD conversions the drivers use.

  What is outside the program, the hardware and the services of the system, is the parameter
  \<open>chip_env\<close>, a record of operations on a state of type \<open>'s\<close>: accesses to mapped memory and to
  ports at each width, \<open>pread\<close> and \<open>pwrite\<close> on the device of a resource manager (the bytes moved),
  \<open>nanosleep\<close> and the interrupt flag. The drivers are state transformers over it. The interface
  \<open>rtc_regs\<close> states what they rely on: a register gives back what was written to it. It is
  interpreted for memory-mapped and for port-mapped chips on the access functions themselves.
\<close>

record tm =
  tm_sec :: int
  tm_min :: int
  tm_hour :: int
  tm_mday :: int
  tm_mon :: int
  tm_year :: int
  tm_wday :: int
  tm_yday :: int
  tm_isdst :: int

record chip_loc =
  phys :: u64
  reg_shift :: u32
  century_reg :: int
  access_type :: int
  dev_write_addr :: u8
  dev_read_addr :: u8
  resmgr_path :: string
  optstr :: "string option"

definition NIL_PADDR :: u64 where "NIL_PADDR = - 1"
definition UNSET :: int where "UNSET = - 2"
definition NONE :: int where "NONE = UNSET"
definition IOMAPPED :: int where "IOMAPPED = 0"
definition MEMMAPPED :: int where "MEMMAPPED = 1"
definition RESMGR :: int where "RESMGR = 2"

record 's chip_env =
  chip :: chip_loc
  port :: u32                                       \<comment> \<open>\<open>chip_base.port\<close>\<close>
  pread :: "nat \<Rightarrow> u32 \<Rightarrow> ('s, u8 list) state"      \<comment> \<open>the bytes read, at most as many as asked for\<close>
  pwrite :: "u8 list \<Rightarrow> u32 \<Rightarrow> ('s, unit) state"
  mem8 :: "u32 \<Rightarrow> ('s, u8) state"                   \<comment> \<open>accesses relative to \<open>chip_base.p\<close>\<close>
  mem16 :: "u32 \<Rightarrow> ('s, u16) state"
  mem32 :: "u32 \<Rightarrow> ('s, u32) state"
  set_mem8 :: "u32 \<Rightarrow> u8 \<Rightarrow> ('s, unit) state"
  set_mem16 :: "u32 \<Rightarrow> u16 \<Rightarrow> ('s, unit) state"
  set_mem32 :: "u32 \<Rightarrow> u32 \<Rightarrow> ('s, unit) state"
  in8 :: "u32 \<Rightarrow> ('s, u8) state"
  in16 :: "u32 \<Rightarrow> ('s, u16) state"
  in32 :: "u32 \<Rightarrow> ('s, u32) state"
  out8 :: "u32 \<Rightarrow> u8 \<Rightarrow> ('s, unit) state"
  out16 :: "u32 \<Rightarrow> u16 \<Rightarrow> ('s, unit) state"
  out32 :: "u32 \<Rightarrow> u32 \<Rightarrow> ('s, unit) state"
  nanosleep :: "nat \<Rightarrow> ('s, unit) state"            \<comment> \<open>nanoseconds\<close>
  interrupts :: "bool \<Rightarrow> ('s, unit) state"          \<comment> \<open>\<open>InterruptEnable\<close> and \<open>InterruptDisable\<close>\<close>

abbreviation ret :: "'a \<Rightarrow> ('s, 'a) state" where
  "ret \<equiv> State_Monad.return"

subsection \<open>Access to registers\<close>

definition le_value :: "u8 list \<Rightarrow> u32" where
  \<comment> \<open>bytes stored at the address of a variable that was zero\<close>
  "le_value bs = (\<Sum>i < length bs. push_bit (8 * i) (ucast (bs ! i)))"

definition le_bytes :: "nat \<Rightarrow> u32 \<Rightarrow> u8 list" where
  "le_bytes n v = map (\<lambda>i. ucast (drop_bit (8 * i) v)) [0..<n]"

definition chip_read :: "'s chip_env \<Rightarrow> u32 \<Rightarrow> nat \<Rightarrow> ('s, u32) state" where
  "chip_read E off width =
     (let c = chip E;
          disp = push_bit (unat (reg_shift c)) off
      in if access_type c = RESMGR then
           let roff = off OR push_bit 16 (ucast (dev_read_addr c)) in
           if width = 8 then do { bs \<leftarrow> pread E 1 roff; ret (le_value bs) }
           else if width = 16 then do { bs \<leftarrow> pread E 2 roff; ret (le_value bs) }
           else if width = 32 then do { bs \<leftarrow> pread E 4 roff; ret (le_value bs) }
           else ret 0
         else if access_type c = IOMAPPED then
           if width = 8 then do { v \<leftarrow> in8 E (port E + disp); ret (ucast v) }
           else if width = 16 then do { v \<leftarrow> in16 E (port E + disp); ret (ucast v) }
           else if width = 32 then in32 E (port E + disp)
           else ret 0
         else
           if width = 8 then do { v \<leftarrow> mem8 E disp; ret (ucast v) }
           else if width = 16 then do { v \<leftarrow> mem16 E disp; ret (ucast v) }
           else if width = 32 then mem32 E disp
           else ret 0)"

definition chip_write :: "'s chip_env \<Rightarrow> u32 \<Rightarrow> u32 \<Rightarrow> nat \<Rightarrow> ('s, unit) state" where
  "chip_write E off val width =
     (let c = chip E;
          disp = push_bit (unat (reg_shift c)) off
      in if access_type c = RESMGR then
           let woff = off OR push_bit 16 (ucast (dev_write_addr c)) in
           if width = 8 then pwrite E (le_bytes 1 val) woff
           else if width = 16 then pwrite E (le_bytes 2 val) woff
           else if width = 32 then pwrite E (le_bytes 4 val) woff
           else ret ()
         else if access_type c = IOMAPPED then
           if width = 8 then out8 E (port E + disp) (ucast val)
           else if width = 16 then out16 E (port E + disp) (ucast val)
           else if width = 32 then out32 E (port E + disp) val
           else ret ()
         else
           if width = 8 then set_mem8 E disp (ucast val)
           else if width = 16 then set_mem16 E disp (ucast val)
           else if width = 32 then set_mem32 E disp val
           else ret ())"

abbreviation "chip_read8 E off \<equiv> chip_read E off 8"
abbreviation "chip_write8 E off v \<equiv> chip_write E off v 8"
abbreviation "chip_read16 E off \<equiv> chip_read E off 16"
abbreviation "chip_write16 E off v \<equiv> chip_write E off v 16"
abbreviation "chip_read32 E off \<equiv> chip_read E off 32"
abbreviation "chip_write32 E off v \<equiv> chip_write E off v 32"

subsection \<open>BCD\<close>

text \<open>
  The two macros of \<^verbatim>\<open>rtc.h\<close>. \<open>BIN2BCD\<close> is applied to values of type \<open>int\<close>, whose division
  and remainder truncate; one driver applies it to values of type \<open>unsigned\<close> (\<open>BIN2BCDu\<close>).
  \<open>BCD2BIN\<close> is applied to values of type \<open>unsigned\<close>, or of type \<open>int\<close> that are not negative.
\<close>

definition BIN2BCD :: "int \<Rightarrow> int" where
  "BIN2BCD A = push_bit 12 (A smod 10000 sdiv 1000) + push_bit 8 (A smod 1000 sdiv 100) +
     push_bit 4 (A smod 100 sdiv 10) + A smod 10"

definition BIN2BCDu :: "u32 \<Rightarrow> u32" where
  "BIN2BCDu A = push_bit 12 (A mod 10000 div 1000) + push_bit 8 (A mod 1000 div 100) +
     push_bit 4 (A mod 100 div 10) + A mod 10"

definition BCD2BIN :: "u32 \<Rightarrow> u32" where
  "BCD2BIN A = drop_bit 12 (A AND 0xf000) * 1000 + drop_bit 8 (A AND 0xf00) * 100 +
     drop_bit 4 (A AND 0xf0) * 10 + (A AND 0x0f)"

abbreviation u :: "int \<Rightarrow> u32" where
  \<comment> \<open>C's conversion from \<open>int\<close> to \<open>unsigned\<close>\<close>
  "u \<equiv> word_of_int"

lemma bcd_table:
  "\<forall>x \<in> set [0..99]. BCD2BIN (take_bit 8 (u (BIN2BCD x))) = u x \<and> BCD2BIN (u (BIN2BCD x)) = u x \<and>
     take_bit 8 (u (BIN2BCD x)) = u (BIN2BCD x) \<and> BIN2BCDu (u x) = u (BIN2BCD x)"
  by code_simp

lemma bcd_masks:
  "\<forall>x \<in> set [0..79]. take_bit 8 (u (BIN2BCD x)) AND 0x7f = u (BIN2BCD x) \<and> u (BIN2BCD x) AND 0x80 = 0"
  "\<forall>x \<in> set [0..39]. take_bit 8 (u (BIN2BCD x)) AND 0x3f = u (BIN2BCD x) \<and> u (BIN2BCD x) AND 0x40 = 0"
  "\<forall>x \<in> set [0..19]. take_bit 8 (u (BIN2BCD x)) AND 0x1f = u (BIN2BCD x) \<and> u (BIN2BCD x) AND 0x20 = 0"
  "\<forall>x \<in> set [0..7]. take_bit 8 (u (BIN2BCD x)) AND 0x07 = u (BIN2BCD x)"
  by code_simp+

lemma int_in_table: "0 \<le> x \<Longrightarrow> x < b \<Longrightarrow> x \<in> set [0..b - 1]" for x :: int
  by simp

lemma bcd_round:
  assumes "0 \<le> x" and "x < 100"
  shows "BCD2BIN (take_bit 8 (u (BIN2BCD x))) = u x" and "BCD2BIN (u (BIN2BCD x)) = u x"
    and "take_bit 8 (u (BIN2BCD x)) = u (BIN2BCD x)" and "BIN2BCDu (u x) = u (BIN2BCD x)"
  using bcd_table assms by simp_all

lemma bcd_mask7f: "0 \<le> x \<Longrightarrow> x < 80 \<Longrightarrow> u (BIN2BCD x) AND 0x7f = u (BIN2BCD x)"
  and bcd_mask80: "0 \<le> x \<Longrightarrow> x < 80 \<Longrightarrow> u (BIN2BCD x) AND 0x80 = 0"
  and bcd_mask3f: "0 \<le> x \<Longrightarrow> x < 40 \<Longrightarrow> u (BIN2BCD x) AND 0x3f = u (BIN2BCD x)"
  and bcd_mask40: "0 \<le> x \<Longrightarrow> x < 40 \<Longrightarrow> u (BIN2BCD x) AND 0x40 = 0"
  and bcd_mask1f: "0 \<le> x \<Longrightarrow> x < 20 \<Longrightarrow> u (BIN2BCD x) AND 0x1f = u (BIN2BCD x)"
  and bcd_mask20: "0 \<le> x \<Longrightarrow> x < 20 \<Longrightarrow> u (BIN2BCD x) AND 0x20 = 0"
  and bcd_mask07: "0 \<le> x \<Longrightarrow> x < 8 \<Longrightarrow> u (BIN2BCD x) AND 0x07 = u (BIN2BCD x)"
  using bcd_masks bcd_table by simp_all

lemmas bcd_simps = bcd_round bcd_mask7f bcd_mask80 bcd_mask3f bcd_mask40 bcd_mask1f bcd_mask20 bcd_mask07

lemma sint_small: "- (2 ^ 31) \<le> x \<Longrightarrow> x < 2 ^ 31 \<Longrightarrow> sint (u x) = x"
  by (simp add: sint_sbintrunc' signed_take_bit_int_eq_self)

lemma sint_small_minus1: "0 \<le> x \<Longrightarrow> x < 2 ^ 31 \<Longrightarrow> sint (u (x + 1) - 1) = x"
proof -
  assume x: "0 \<le> x" "x < 2 ^ 31"
  have "u (x + 1) - 1 = u x" by (metis add_diff_cancel_right' wi_hom_sub word_of_int_1)
  then show ?thesis using sint_small [of x] x by simp
qed

lemma smod_pos: "0 \<le> x \<Longrightarrow> 0 < y \<Longrightarrow> x smod y = x mod y" for x y :: int
  by (simp add: smod_mod_positive)

lemma sdiv_pos: "0 \<le> x \<Longrightarrow> 0 < y \<Longrightarrow> x sdiv y = x div y" for x y :: int
  by (simp add: signed_divide_int_def sgn_if)

subsection \<open>What the drivers rely on\<close>

definition tm_ok :: "int \<Rightarrow> int \<Rightarrow> tm \<Rightarrow> bool" where
  \<comment> \<open>a valid broken-down time of a year between \<open>lo\<close> and \<open>hi\<close> (counted from 1900)\<close>
  "tm_ok lo hi t \<longleftrightarrow> 0 \<le> tm_sec t \<and> tm_sec t < 60 \<and> 0 \<le> tm_min t \<and> tm_min t < 60 \<and> 0 \<le> tm_hour t \<and> tm_hour t < 24 \<and>
     1 \<le> tm_mday t \<and> tm_mday t \<le> 31 \<and> 0 \<le> tm_mon t \<and> tm_mon t < 12 \<and> lo \<le> tm_year t \<and> tm_year t < hi \<and>
     0 \<le> tm_wday t \<and> tm_wday t < 7"

definition copy_time :: "tm \<Rightarrow> tm \<Rightarrow> tm" where
  \<comment> \<open>the second time with the six fields of the first that every clock keeps\<close>
  "copy_time t t0 = t0\<lparr>tm_sec := tm_sec t, tm_min := tm_min t, tm_hour := tm_hour t, tm_mday := tm_mday t,
     tm_mon := tm_mon t, tm_year := tm_year t\<rparr>"

lemma tm_bounds:
  assumes "tm_ok lo hi t"
  shows "0 \<le> tm_sec t" "tm_sec t < 60" "0 \<le> tm_min t" "tm_min t < 60" "0 \<le> tm_hour t" "tm_hour t < 24"
    "0 \<le> tm_mday t" "tm_mday t < 32" "0 \<le> tm_mon t" "tm_mon t < 12" "0 \<le> tm_wday t" "tm_wday t < 7"
    "lo \<le> tm_year t" "tm_year t < hi"
  using assms by (auto simp: tm_ok_def)

definition fill_tm :: "tm \<Rightarrow> int \<Rightarrow> int \<Rightarrow> int \<Rightarrow> int \<Rightarrow> int \<Rightarrow> int \<Rightarrow> tm" where
  "fill_tm t sec mi hour mday mon year = t\<lparr>tm_sec := sec, tm_min := mi, tm_hour := hour, tm_mday := mday,
     tm_mon := mon, tm_year := year\<rparr>"

lemma fill_copy: "fill_tm t0 (tm_sec t) (tm_min t) (tm_hour t) (tm_mday t) (tm_mon t) (tm_year t) = copy_time t t0"
  by (simp add: fill_tm_def copy_time_def)

lemma take8: "take_bit 8 v = v AND 0xff" for v :: u32
  by (simp add: take_bit_eq_mask mask_eq_exp_minus_1)

lemma bcd_ff: "0 \<le> x \<Longrightarrow> x < 100 \<Longrightarrow> u (BIN2BCD x) AND 0xff = u (BIN2BCD x)"
  using bcd_round(3) [of x] by (simp add: take8)

lemmas mask_simps = bcd_ff bcd_mask7f bcd_mask80 bcd_mask3f bcd_mask40 bcd_mask1f bcd_mask20 bcd_mask07

lemma bcd_back: "0 \<le> x \<Longrightarrow> x < 100 \<Longrightarrow> sint (BCD2BIN (u (BIN2BCD x))) = x"
  by (simp add: bcd_round sint_small)

lemma bcd_back1: "0 \<le> x \<Longrightarrow> x < 99 \<Longrightarrow> sint (BCD2BIN (u (BIN2BCD (x + 1))) - 1) = x"
  using bcd_round(2) [of "x + 1"] sint_small_minus1 [of x] by simp

lemma year_mod: "0 \<le> y \<Longrightarrow> y smod 100 = y mod 100" "0 \<le> y \<Longrightarrow> y sdiv 100 = y div 100" for y :: int
  by (simp_all add: smod_pos sdiv_pos)

lemma year_cases:
  fixes y :: int
  assumes "70 \<le> y" "y < 170"
  obtains "y mod 100 = y" "y div 100 = 0" "y < 100" | "y mod 100 = y - 100" "y div 100 = 1" "100 \<le> y" "y mod 100 < 70"
proof (cases "y < 100")
  case True
  then show ?thesis using assms that(1) by simp
next
  case False
  then have "y mod 100 = y - 100" "y div 100 = 1" using assms by presburger+
  then show ?thesis using assms False that(2) by simp
qed

lemma year_pivot: "70 \<le> y \<Longrightarrow> y < 170 \<Longrightarrow> (if y mod 100 < 70 then y mod 100 + 100 else y mod 100) = y" for y :: int
  by (rule year_cases [of y]) auto

lemma year_cent: "70 \<le> y \<Longrightarrow> y < 170 \<Longrightarrow>
    (if BCD2BIN (u (BIN2BCD (y div 100 + 19))) = 20 then y mod 100 + 100 else y mod 100) = y" for y :: int
  by (rule year_cases [of y]) (auto simp: bcd_round)

lemma year_cent_raw: "70 \<le> y \<Longrightarrow> y < 170 \<Longrightarrow>
    (if u (BIN2BCD (y div 100 + 19)) = 0x20 then y mod 100 + 100 else y mod 100) = y" for y :: int
  by (rule year_cases [of y]) (auto simp: BIN2BCD_def smod_pos sdiv_pos)

locale rtc_regs =
  fixes E :: "'s chip_env" and w :: nat and reg :: "'s \<Rightarrow> u32 \<Rightarrow> u32" and put :: "u32 \<Rightarrow> u32 \<Rightarrow> 's \<Rightarrow> 's"
    and has :: "u32 \<Rightarrow> bool"
  assumes read_reg: "has r \<Longrightarrow> run_state (chip_read E r w) s = (reg s r, s)"
    and write_reg: "has r \<Longrightarrow> run_state (chip_write E r v w) s = ((), put r v s)"
    and reg_put: "has r \<Longrightarrow> has q \<Longrightarrow> reg (put r v s) q = (if q = r then take_bit w v else reg s q)"
    and reg_width: "has r \<Longrightarrow> take_bit w (reg s r) = reg s r"
    and sleep_reg: "run_state (nanosleep E n) s = ((), s)"
    and interrupts_reg: "run_state (interrupts E b) s = ((), s)"
begin

lemmas reg_simps = read_reg write_reg reg_put reg_width sleep_reg interrupts_reg

lemma write_read:
  assumes "has r"
  shows "run_state (do { chip_write E r v w; chip_read E r w }) s = (take_bit w v, put r v s)"
  using assms by (simp add: reg_simps)

end

text \<open>A register file behind the accesses to memory or to ports: one cell for each displacement.\<close>

type_synonym reg_file = "u32 \<Rightarrow> u32"

definition rd_cell :: "u32 \<Rightarrow> (reg_file, 'a::len word) state" where
  "rd_cell d = State (\<lambda>f. (ucast (f d), f))"

definition wr_cell :: "u32 \<Rightarrow> 'a::len word \<Rightarrow> (reg_file, unit) state" where
  "wr_cell d v = State (\<lambda>f. ((), f(d := ucast v)))"

definition file_env :: "chip_loc \<Rightarrow> u32 \<Rightarrow> reg_file chip_env" where
  "file_env c p = \<lparr>chip = c, port = p, pread = (\<lambda>n off. ret []), pwrite = (\<lambda>bs off. ret ()),
     mem8 = rd_cell, mem16 = rd_cell, mem32 = rd_cell,
     set_mem8 = wr_cell, set_mem16 = wr_cell, set_mem32 = wr_cell,
     in8 = rd_cell, in16 = rd_cell, in32 = rd_cell, out8 = wr_cell, out16 = wr_cell, out32 = wr_cell,
     nanosleep = (\<lambda>n. ret ()), interrupts = (\<lambda>b. ret ())\<rparr>"

definition at_mem :: "chip_loc \<Rightarrow> chip_loc" where "at_mem c = c\<lparr>access_type := MEMMAPPED\<rparr>"
definition at_io :: "chip_loc \<Rightarrow> chip_loc" where "at_io c = c\<lparr>access_type := IOMAPPED\<rparr>"

definition addressed :: "chip_loc \<Rightarrow> u32 \<Rightarrow> bool" where
  \<comment> \<open>the displacement of the register does not overflow\<close>
  "addressed c r \<longleftrightarrow> drop_bit (unat (reg_shift c)) (push_bit (unat (reg_shift c)) r) = r"

lemma addressed_inj:
  "addressed c r \<Longrightarrow> addressed c q \<Longrightarrow> push_bit (unat (reg_shift c)) r = push_bit (unat (reg_shift c)) q \<longleftrightarrow> r = q"
  by (metis addressed_def)

lemma ucast8: "ucast (ucast v :: u8) = take_bit 8 v" for v :: u32
  by (simp add: unsigned_ucast_eq)

lemma ucast16: "ucast (ucast v :: u16) = take_bit 16 v" for v :: u32
  by (simp add: unsigned_ucast_eq)

lemma take32: "take_bit 32 v = v" for v :: u32
  by (rule bit_word_eqI) (simp add: bit_simps)

lemmas file_simps = file_env_def at_mem_def at_io_def chip_read_def chip_write_def rd_cell_def wr_cell_def
  MEMMAPPED_def IOMAPPED_def RESMGR_def ucast8 ucast16 take32 addressed_inj addressed_def [symmetric]

interpretation mem_chip8: rtc_regs "file_env (at_mem c) p" 8
    "\<lambda>f r. take_bit 8 (f (push_bit (unat (reg_shift c)) r))" "\<lambda>r v f. f(push_bit (unat (reg_shift c)) r := take_bit 8 v)"
    "addressed c" for c p
  by unfold_locales (auto simp: file_simps)

interpretation mem_chip32: rtc_regs "file_env (at_mem c) p" 32
    "\<lambda>f r. f (push_bit (unat (reg_shift c)) r)" "\<lambda>r v f. f(push_bit (unat (reg_shift c)) r := v)"
    "addressed c" for c p
  by unfold_locales (auto simp: file_simps)

interpretation mem_chip16: rtc_regs "file_env (at_mem c) p" 16
    "\<lambda>f r. take_bit 16 (f (push_bit (unat (reg_shift c)) r))" "\<lambda>r v f. f(push_bit (unat (reg_shift c)) r := take_bit 16 v)"
    "addressed c" for c p
  by unfold_locales (auto simp: file_simps)

interpretation io_chip8: rtc_regs "file_env (at_io c) p" 8
    "\<lambda>f r. take_bit 8 (f (p + push_bit (unat (reg_shift c)) r))"
    "\<lambda>r v f. f(p + push_bit (unat (reg_shift c)) r := take_bit 8 v)" "addressed c" for c p
  by unfold_locales (auto simp: file_simps)

lemma mem_regs8: "rtc_regs (file_env (at_mem c) p) 8
    (\<lambda>f r. take_bit 8 (f (push_bit (unat (reg_shift c)) r))) (\<lambda>r v f. f(push_bit (unat (reg_shift c)) r := take_bit 8 v))
    (addressed c)"
  by (rule mem_chip8.rtc_regs_axioms)

lemma mem_regs32: "rtc_regs (file_env (at_mem c) p) 32
    (\<lambda>f r. f (push_bit (unat (reg_shift c)) r)) (\<lambda>r v f. f(push_bit (unat (reg_shift c)) r := v)) (addressed c)"
  by (rule mem_chip32.rtc_regs_axioms)

definition demo_chip :: chip_loc where
  "demo_chip = \<lparr>phys = 0x20cc000, reg_shift = 0, century_reg = - 1, access_type = MEMMAPPED, dev_write_addr = 0,
     dev_read_addr = 0, resmgr_path = '''', optstr = None\<rparr>"

definition demo_tm :: tm where
  \<comment> \<open>Monday 15 September 2014, 13:45:30\<close>
  "demo_tm = \<lparr>tm_sec = 30, tm_min = 45, tm_hour = 13, tm_mday = 15, tm_mon = 8, tm_year = 114, tm_wday = 1,
     tm_yday = 257, tm_isdst = 0\<rparr>"

lemma demo_addressed [simp]: "addressed demo_chip r"
  by (simp add: addressed_def demo_chip_def)

lemma demo_tm_ok: "tm_ok 100 170 demo_tm"
  by (simp add: tm_ok_def demo_tm_def)

end
