(* ===== verification/Rtc_Parallel.thy ===== *)
theory Rtc_Parallel
  imports Rtc_Chip
begin

section \<open>Drivers of clock chips with parallel registers\<close>

text \<open>
  \<^verbatim>\<open>utils/r/rtc/clk_*.c\<close> for the chips whose registers are mapped to memory or to ports: each
  driver has \<open>init\<close> (where the chip is and how many bytes of it are mapped, or \<open>- 1\<close>), \<open>get\<close> and
  \<open>set\<close>. Both return what the C function returns; \<open>get\<close> also returns the time it fills in. The
  messages printed to the terminal are left out. A loop that waits for the chip takes a bound on
  the number of its rounds, and the result is \<open>None\<close> when the bound is reached.
\<close>

definition init_chip :: "int \<Rightarrow> int \<Rightarrow> int \<Rightarrow> chip_loc \<Rightarrow> int \<times> chip_loc" where
  \<comment> \<open>what the \<open>init\<close> functions that need a base address have in common: the default century
     register, the default access type and the size\<close>
  "init_chip cent acc sz c =
     (if phys c = NIL_PADDR then (- 1, c)
      else let c1 = (if century_reg c = UNSET then c\<lparr>century_reg := cent\<rparr> else c);
               c2 = (if access_type c1 = NONE then c1\<lparr>access_type := acc\<rparr> else c1)
           in (sz, c2))"

subsection \<open>DS1386\<close>

definition init_ds1386 :: "chip_loc \<Rightarrow> int \<times> chip_loc" where
  "init_ds1386 c = init_chip 0x0e MEMMAPPED 16 c"

definition get_ds1386 :: "'s chip_env \<Rightarrow> int \<Rightarrow> tm \<Rightarrow> ('s, int \<times> tm) state" where
  "get_ds1386 E cent_reg t =
     do {
       c \<leftarrow> chip_read8 E 11;
       (if c AND 0x80 = 0
        then do { c \<leftarrow> chip_read8 E 11; chip_write8 E 11 (c OR 0x80); nanosleep E 10000000 }
        else ret ());
       c \<leftarrow> chip_read8 E 11;
       chip_write8 E 11 (c AND NOT 0x80);
       sec \<leftarrow> chip_read8 E 1;
       min \<leftarrow> chip_read8 E 2;
       hour \<leftarrow> chip_read8 E 4;
       mday \<leftarrow> chip_read8 E 8;
       mon \<leftarrow> chip_read8 E 9;
       year \<leftarrow> chip_read8 E 10;
       let t1 = t\<lparr>tm_sec := sint (BCD2BIN sec), tm_min := sint (BCD2BIN min),
                  tm_hour := sint (BCD2BIN (hour AND 0x3f)), tm_mday := sint (BCD2BIN mday),
                  tm_mon := sint (BCD2BIN (mon AND 0x3f) - 1), tm_year := sint (BCD2BIN year)\<rparr>;
       t2 \<leftarrow> (if cent_reg \<ge> 0
              then do { cent \<leftarrow> chip_read8 E (u cent_reg);
                        ret (if BCD2BIN cent = 20 then t1\<lparr>tm_year := tm_year t1 + 100\<rparr> else t1) }
              else ret (if tm_year t1 < 70 then t1\<lparr>tm_year := tm_year t1 + 100\<rparr> else t1));
       c \<leftarrow> chip_read8 E 11;
       chip_write8 E 11 (c OR 0x80);
       ret (0, t2)
     }"

definition set_ds1386 :: "'s chip_env \<Rightarrow> int \<Rightarrow> tm \<Rightarrow> ('s, int) state" where
  "set_ds1386 E cent_reg t =
     do {
       let month = u (BIN2BCD (tm_mon t + 1));
       m9 \<leftarrow> chip_read8 E 9;
       let month = month OR (m9 AND 0x40);
       chip_write8 E 9 0;
       chip_write8 E 0 0;
       chip_write8 E 1 (u (BIN2BCD (tm_sec t)));
       chip_write8 E 2 (u (BIN2BCD (tm_min t)));
       chip_write8 E 4 (u (BIN2BCD (tm_hour t)) OR 0);
       chip_write8 E 6 (u (tm_wday t + 1));
       chip_write8 E 8 (u (BIN2BCD (tm_mday t)));
       chip_write8 E 10 (u (BIN2BCD (tm_year t smod 100)));
       (if cent_reg \<ge> 0 then chip_write8 E (u cent_reg) (u (BIN2BCD (tm_year t sdiv 100 + 19))) else ret ());
       chip_write8 E 9 (month AND 0x5f);
       c \<leftarrow> chip_read8 E 11;
       chip_write8 E 11 (c OR 0x80);
       ret 0
     }"

subsection \<open>DS15x1\<close>

definition init_ds15x1 :: "chip_loc \<Rightarrow> int \<times> chip_loc" where
  "init_ds15x1 c = init_chip 0x07 MEMMAPPED 16 c"

definition get_ds15x1 :: "'s chip_env \<Rightarrow> int \<Rightarrow> tm \<Rightarrow> ('s, int \<times> tm) state" where
  "get_ds15x1 E cent_reg t =
     do {
       ctrlb \<leftarrow> chip_read8 E 0x0f;
       (if ctrlb AND 0x80 = 0
        then do { chip_write8 E 0x0f (ctrlb OR 0x80); nanosleep E 10000000 }
        else ret ());
       chip_write8 E 0x0f (ctrlb AND NOT 0x80);
       sec \<leftarrow> chip_read8 E 0;
       min \<leftarrow> chip_read8 E 1;
       hour \<leftarrow> chip_read8 E 2;
       mday \<leftarrow> chip_read8 E 4;
       mon \<leftarrow> chip_read8 E 5;
       year \<leftarrow> chip_read8 E 6;
       let t1 = t\<lparr>tm_sec := sint (BCD2BIN sec), tm_min := sint (BCD2BIN min),
                  tm_hour := sint (BCD2BIN hour), tm_mday := sint (BCD2BIN mday),
                  tm_mon := sint (BCD2BIN (mon AND 0x1f) - 1), tm_year := sint (BCD2BIN year)\<rparr>;
       t2 \<leftarrow> (if cent_reg \<ge> 0
              then do { cent \<leftarrow> chip_read8 E (u cent_reg);
                        ret (if cent = 0x20 then t1\<lparr>tm_year := tm_year t1 + 100\<rparr> else t1) }
              else ret (if tm_year t1 < 70 then t1\<lparr>tm_year := tm_year t1 + 100\<rparr> else t1));
       chip_write8 E 0x0f (ctrlb OR 0x80);
       ret (0, t2)
     }"

definition set_ds15x1 :: "'s chip_env \<Rightarrow> int \<Rightarrow> tm \<Rightarrow> ('s, int) state" where
  "set_ds15x1 E cent_reg t =
     do {
       let month = u (BIN2BCD (tm_mon t + 1));
       m5 \<leftarrow> chip_read8 E 5;
       let month = month OR (m5 AND 0xe0);
       ctrlb \<leftarrow> chip_read8 E 0x0f;
       chip_write8 E 0x0f (ctrlb AND NOT 0x80);
       chip_write8 E 0 (u (BIN2BCD (tm_sec t)));
       chip_write8 E 1 (u (BIN2BCD (tm_min t)));
       chip_write8 E 2 (u (BIN2BCD (tm_hour t)));
       chip_write8 E 3 (u (tm_wday t + 1));
       chip_write8 E 4 (u (BIN2BCD (tm_mday t)));
       chip_write8 E 5 month;
       chip_write8 E 6 (u (BIN2BCD (tm_year t smod 100)));
       (if cent_reg \<ge> 0 then chip_write8 E (u cent_reg) (u (BIN2BCD (tm_year t sdiv 100 + 19))) else ret ());
       chip_write8 E 0x0f (ctrlb OR 0x80);
       ret 0
     }"

subsection \<open>DS1743\<close>

definition init_ds1743 :: "chip_loc \<Rightarrow> int \<times> chip_loc" where
  "init_ds1743 c =
     (if phys c = NIL_PADDR then (- 1, c)
      else (0x1fff + 1, if access_type c = NONE then c\<lparr>access_type := MEMMAPPED\<rparr> else c))"

definition get_ds1743 :: "'s chip_env \<Rightarrow> int \<Rightarrow> tm \<Rightarrow> ('s, int \<times> tm) state" where
  "get_ds1743 E cent_reg t =
     do {
       c \<leftarrow> chip_read8 E 0x1ff8;
       chip_write8 E 0x1ff8 (c OR 0x40);
       r \<leftarrow> chip_read8 E 0x1ff9;
       (if r AND 0x80 \<noteq> 0 then chip_write8 E 0x1ff9 (r AND NOT 0x80) else ret ());
       r \<leftarrow> chip_read8 E 0x1ffc;
       (if r AND 0x40 \<noteq> 0 then chip_write8 E 0x1ffc (r AND NOT 0x40) else ret ());
       sec \<leftarrow> chip_read8 E 0x1ff9;
       min \<leftarrow> chip_read8 E 0x1ffa;
       hour \<leftarrow> chip_read8 E 0x1ffb;
       mday \<leftarrow> chip_read8 E 0x1ffd;
       mon \<leftarrow> chip_read8 E 0x1ffe;
       year \<leftarrow> chip_read8 E 0x1fff;
       cent \<leftarrow> chip_read8 E 0x1ff8;
       c \<leftarrow> chip_read8 E 0x1ff8;
       chip_write8 E 0x1ff8 (c AND NOT 0x40);
       ret (0, t\<lparr>tm_sec := sint (BCD2BIN (sec AND 0x7f)), tm_min := sint (BCD2BIN (min AND 0x7f)),
                 tm_hour := sint (BCD2BIN (hour AND 0x3f)), tm_mday := sint (BCD2BIN (mday AND 0x3f)),
                 tm_mon := sint (BCD2BIN (mon AND 0x1f) - 1),
                 tm_year := sint (BCD2BIN year + (BCD2BIN (cent AND 0x3f) - 19) * 100)\<rparr>)
     }"

definition set_ds1743 :: "'s chip_env \<Rightarrow> int \<Rightarrow> tm \<Rightarrow> ('s, int) state" where
  "set_ds1743 E cent_reg t =
     do {
       c \<leftarrow> chip_read8 E 0x1ff8;
       chip_write8 E 0x1ff8 (c OR 0x80);
       chip_write8 E 0x1ff9 (u (BIN2BCD (tm_sec t)));
       chip_write8 E 0x1ffa (u (BIN2BCD (tm_min t)));
       chip_write8 E 0x1ffb (u (BIN2BCD (tm_hour t)));
       chip_write8 E 0x1ffd (u (BIN2BCD (tm_mday t)));
       chip_write8 E 0x1ffe (u (BIN2BCD (tm_mon t + 1)));
       chip_write8 E 0x1fff (u (BIN2BCD (tm_year t smod 100)));
       chip_write8 E 0x1ff8 (u (BIN2BCD (tm_year t sdiv 100 + 19)));
       c \<leftarrow> chip_read8 E 0x1ff8;
       chip_write8 E 0x1ff8 (c AND NOT 0x80);
       ret 0
     }"

subsection \<open>M48T37\<close>

definition init_m48t37 :: "chip_loc \<Rightarrow> int \<times> chip_loc" where
  "init_m48t37 c = init_chip (- 1) MEMMAPPED 0x8000 c"

definition m48t37_raw :: "'s chip_env \<Rightarrow> int \<Rightarrow> ('s, u32 \<times> u32 \<times> u32 \<times> u32 \<times> u32 \<times> u32 \<times> u32 \<times> bool) state" where
  \<comment> \<open>one round of the loop of \<open>get\<close>: the registers and whether they are consistent. The century
     keeps its value when there is no register for it, so it is zero then\<close>
  "m48t37_raw E cent_reg =
     do {
       sec \<leftarrow> chip_read8 E (0x7ff0 + 0x9);
       min \<leftarrow> chip_read8 E (0x7ff0 + 0xa);
       hour \<leftarrow> chip_read8 E (0x7ff0 + 0xb);
       mday \<leftarrow> chip_read8 E (0x7ff0 + 0xd);
       mon \<leftarrow> chip_read8 E (0x7ff0 + 0xe);
       year \<leftarrow> chip_read8 E (0x7ff0 + 0xf);
       cent \<leftarrow> (if cent_reg \<ge> 0 then chip_read8 E (0x7ff0 + u cent_reg) else ret 0);
       sec' \<leftarrow> chip_read8 E (0x7ff0 + 0x9);
       ret (sec, min, hour, mday, mon, year, cent, sec = sec')
     }"

primrec get_m48t37 :: "nat \<Rightarrow> 's chip_env \<Rightarrow> int \<Rightarrow> tm \<Rightarrow> ('s, (int \<times> tm) option) state" where
  "get_m48t37 0 E cent_reg t = ret None"
| "get_m48t37 (Suc n) E cent_reg t =
     do {
       (sec, min, hour, mday, mon, year, cent, same) \<leftarrow> m48t37_raw E cent_reg;
       if \<not> same then get_m48t37 n E cent_reg t
       else
         let t1 = t\<lparr>tm_sec := sint (BCD2BIN (sec AND NOT 0x80)), tm_min := sint (BCD2BIN min),
                    tm_hour := sint (BCD2BIN hour), tm_mday := sint (BCD2BIN mday),
                    tm_mon := sint (BCD2BIN mon - 1), tm_year := sint (BCD2BIN year)\<rparr>;
             c = BCD2BIN cent;
             y = (if cent_reg \<ge> 0
                  then if c > 19 then sint (u (tm_year t1) + (c - 19) * 100) else tm_year t1
                  else if tm_year t1 < 70 then tm_year t1 + 100 else tm_year t1)
         in ret (Some (0, t1\<lparr>tm_year := y\<rparr>))
     }"

definition set_m48t37 :: "'s chip_env \<Rightarrow> int \<Rightarrow> tm \<Rightarrow> ('s, int) state" where
  "set_m48t37 E cent_reg t =
     do {
       control \<leftarrow> chip_read8 E (0x7ff0 + 0x8);
       chip_write8 E (0x7ff0 + 0x8) (control OR 0x80);
       chip_write8 E (0x7ff0 + 0x9) (u (BIN2BCD (tm_sec t)));
       chip_write8 E (0x7ff0 + 0xa) (u (BIN2BCD (tm_min t)));
       chip_write8 E (0x7ff0 + 0xb) (u (BIN2BCD (tm_hour t)));
       chip_write8 E (0x7ff0 + 0xd) (u (BIN2BCD (tm_mday t)));
       chip_write8 E (0x7ff0 + 0xe) (u (BIN2BCD (tm_mon t + 1)));
       chip_write8 E (0x7ff0 + 0xf) (u (BIN2BCD (tm_year t smod 100)));
       (if cent_reg \<ge> 0
        then chip_write8 E (0x7ff0 + u cent_reg) (u (BIN2BCD (tm_year t sdiv 100 + 19))) else ret ());
       chip_write8 E (0x7ff0 + 0x8) (control AND NOT 0x80);
       ret 0
     }"

subsection \<open>M48T5x\<close>

definition m48t5x_rdcmos :: "'s chip_env \<Rightarrow> u32 \<Rightarrow> ('s, u32) state" where
  "m48t5x_rdcmos E i =
     do {
       interrupts E False;
       chip_write8 E 0 (i AND 0xff);
       chip_write8 E 1 (drop_bit 8 i AND 0xff);
       temp \<leftarrow> chip_read8 E 3;
       interrupts E True;
       ret temp
     }"

definition m48t5x_wrcmos :: "'s chip_env \<Rightarrow> u32 \<Rightarrow> u32 \<Rightarrow> ('s, unit) state" where
  "m48t5x_wrcmos E i d =
     do {
       interrupts E False;
       chip_write8 E 0 i;
       chip_write8 E 1 d;
       chip_write8 E 0 (i AND 0xff);
       chip_write8 E 1 (drop_bit 8 i AND 0xff);
       chip_write8 E 3 d;
       interrupts E True
     }"

definition init_m48t5x :: "chip_loc \<Rightarrow> int \<times> chip_loc" where
  "init_m48t5x c = init_chip (- 1) MEMMAPPED 4 c"

primrec get_m48t5x :: "nat \<Rightarrow> 's chip_env \<Rightarrow> int \<Rightarrow> tm \<Rightarrow> ('s, (int \<times> tm) option) state" where
  "get_m48t5x 0 E cent_reg t = ret None"
| "get_m48t5x (Suc n) E cent_reg t =
     do {
       sec \<leftarrow> m48t5x_rdcmos E (0x1ff0 + 0x9);
       min \<leftarrow> m48t5x_rdcmos E (0x1ff0 + 0xa);
       hour \<leftarrow> m48t5x_rdcmos E (0x1ff0 + 0xb);
       mday \<leftarrow> m48t5x_rdcmos E (0x1ff0 + 0xd);
       mon \<leftarrow> m48t5x_rdcmos E (0x1ff0 + 0xe);
       year \<leftarrow> m48t5x_rdcmos E (0x1ff0 + 0xf);
       sec' \<leftarrow> m48t5x_rdcmos E (0x1ff0 + 0x9);
       if sec \<noteq> sec' then get_m48t5x n E cent_reg t
       else
         let t1 = t\<lparr>tm_sec := sint (BCD2BIN (sec AND NOT 0x80)), tm_min := sint (BCD2BIN min),
                    tm_hour := sint (BCD2BIN hour), tm_mday := sint (BCD2BIN mday),
                    tm_mon := sint (BCD2BIN mon - 1), tm_year := sint (BCD2BIN year)\<rparr>
         in if cent_reg \<ge> 0
            then do { cent \<leftarrow> m48t5x_rdcmos E (u cent_reg);
                      ret (Some (0, if BCD2BIN cent = 20 then t1\<lparr>tm_year := tm_year t1 + 100\<rparr> else t1)) }
            else ret (Some (0, if tm_year t1 < 70 then t1\<lparr>tm_year := tm_year t1 + 100\<rparr> else t1))
     }"

definition set_m48t5x :: "'s chip_env \<Rightarrow> int \<Rightarrow> tm \<Rightarrow> ('s, int) state" where
  "set_m48t5x E cent_reg t =
     do {
       control \<leftarrow> m48t5x_rdcmos E (0x1ff0 + 0x8);
       m48t5x_wrcmos E (0x1ff0 + 0x8) (control OR 0x80);
       m48t5x_wrcmos E (0x1ff0 + 0x9) (u (BIN2BCD (tm_sec t)));
       m48t5x_wrcmos E (0x1ff0 + 0xa) (u (BIN2BCD (tm_min t)));
       m48t5x_wrcmos E (0x1ff0 + 0xb) (u (BIN2BCD (tm_hour t)));
       m48t5x_wrcmos E (0x1ff0 + 0xd) (u (BIN2BCD (tm_mday t)));
       m48t5x_wrcmos E (0x1ff0 + 0xe) (u (BIN2BCD (tm_mon t + 1)));
       m48t5x_wrcmos E (0x1ff0 + 0xf) (u (BIN2BCD (tm_year t smod 100)));
       (if cent_reg \<ge> 0 then m48t5x_wrcmos E (u cent_reg) (u (BIN2BCD (tm_year t sdiv 100 + 19))) else ret ());
       m48t5x_wrcmos E (0x1ff0 + 0x8) (control AND NOT 0x80);
       ret 0
     }"

subsection \<open>RTC-72423\<close>

definition init_rtc72423 :: "chip_loc \<Rightarrow> int \<times> chip_loc" where
  "init_rtc72423 c =
     (if phys c = NIL_PADDR then (- 1, c)
      else (16, if access_type c = NONE then c\<lparr>access_type := IOMAPPED\<rparr> else c))"

primrec rtc72423_hold :: "nat \<Rightarrow> 's chip_env \<Rightarrow> ('s, bool) state" where
  \<comment> \<open>wait until the chip is not busy; the result is false when the bound is reached\<close>
  "rtc72423_hold 0 E = ret False"
| "rtc72423_hold (Suc n) E =
     do {
       d \<leftarrow> chip_read8 E 0xd;
       if d AND 0x20 \<noteq> 0
       then do { chip_write8 E 0xd 0; nanosleep E 190000; chip_write8 E 0xd 0x10; rtc72423_hold n E }
       else ret True
     }"

definition rtc72423_pair :: "'s chip_env \<Rightarrow> u32 \<Rightarrow> u32 \<Rightarrow> u32 \<Rightarrow> ('s, u32) state" where
  \<comment> \<open>two digits: \<open>((chip_read8(hi) & m) << 4) | chip_read8(lo)\<close>\<close>
  "rtc72423_pair E hi m lo =
     do { h \<leftarrow> chip_read8 E hi; l \<leftarrow> chip_read8 E lo; ret (push_bit 4 (h AND m) OR l) }"

definition get_rtc72423 :: "nat \<Rightarrow> 's chip_env \<Rightarrow> int \<Rightarrow> tm \<Rightarrow> ('s, (int \<times> tm) option) state" where
  "get_rtc72423 n E cent_reg t =
     do {
       chip_write8 E 0xd 0x10;
       ok \<leftarrow> rtc72423_hold n E;
       if \<not> ok then ret None
       else do {
         seconds \<leftarrow> rtc72423_pair E 1 (- 1) 0;
         minutes \<leftarrow> rtc72423_pair E 3 (- 1) 2;
         hours \<leftarrow> rtc72423_pair E 5 3 4;
         day \<leftarrow> rtc72423_pair E 7 (- 1) 6;
         month \<leftarrow> rtc72423_pair E 9 (- 1) 8;
         year \<leftarrow> rtc72423_pair E 11 (- 1) 10;
         chip_write8 E 0xd 0;
         let y = sint (BCD2BIN year);
         ret (Some (0, t\<lparr>tm_sec := sint (BCD2BIN seconds), tm_min := sint (BCD2BIN minutes),
                         tm_hour := sint (BCD2BIN hours), tm_mday := sint (BCD2BIN day),
                         tm_mon := sint (BCD2BIN month - 1),
                         tm_year := (if y < 70 then y + 100 else y)\<rparr>))
       }
     }"

definition rtc72423_put :: "'s chip_env \<Rightarrow> u32 \<Rightarrow> u32 \<Rightarrow> ('s, unit) state" where
  \<comment> \<open>\<open>chip_write8(r, v); chip_write8(r + 1, v >> 4)\<close>\<close>
  "rtc72423_put E r v = do { chip_write8 E r v; chip_write8 E (r + 1) (drop_bit 4 v) }"

definition set_rtc72423 :: "'s chip_env \<Rightarrow> int \<Rightarrow> tm \<Rightarrow> ('s, int) state" where
  "set_rtc72423 E cent_reg t =
     do {
       chip_write8 E 0xf (0x10 OR 0x40 OR 0x20);
       rtc72423_put E 0 (u (BIN2BCD (tm_sec t)));
       rtc72423_put E 2 (u (BIN2BCD (tm_min t)));
       rtc72423_put E 4 (u (BIN2BCD (tm_hour t)));
       rtc72423_put E 6 (u (BIN2BCD (tm_mday t)));
       rtc72423_put E 8 (u (BIN2BCD (tm_mon t + 1)));
       rtc72423_put E 10 (u (BIN2BCD (tm_year t smod 100)));
       chip_write8 E 0xe 0;
       chip_write8 E 0xd 0;
       chip_write8 E 0xf 0x40;
       ret 0
     }"

subsection \<open>MC146818\<close>

definition cmos :: "'s chip_env \<Rightarrow> u32 \<Rightarrow> ('s, u32) state" where
  "cmos E i =
     do { interrupts E False; chip_write8 E 0 i; temp \<leftarrow> chip_read8 E 1; interrupts E True; ret temp }"

definition cmos_set :: "'s chip_env \<Rightarrow> u32 \<Rightarrow> u32 \<Rightarrow> ('s, unit) state" where
  "cmos_set E i d =
     do { interrupts E False; chip_write8 E 0 i; chip_write8 E 1 d; interrupts E True }"

definition init_mc146818 :: "chip_loc \<Rightarrow> int \<times> chip_loc" where
  "init_mc146818 c =
     (if phys c = NIL_PADDR then (- 1, c)
      else (2, if access_type c = NONE then c\<lparr>access_type := IOMAPPED\<rparr> else c))"

definition CMOS_CNT :: nat where "CMOS_CNT = 0xffff"

primrec uip_wait :: "nat \<Rightarrow> bool \<Rightarrow> 's chip_env \<Rightarrow> u32 \<Rightarrow> ('s, u32 \<times> nat) state" where
  \<comment> \<open>read register A until the update bit has the value asked for, at most \<open>count\<close> times; the last
     value and what is left of the count\<close>
  "uip_wait 0 on E x = ret (x, 0)"
| "uip_wait (Suc n) on E x =
     (if (x AND 0x80 \<noteq> 0) = on then ret (x, Suc n)
      else do { x' \<leftarrow> cmos E 0x0a; uip_wait n on E x' })"

definition mc146818_raw :: "'s chip_env \<Rightarrow> int \<Rightarrow> u32 \<Rightarrow> ('s, u32 list \<times> u32) state" where
  \<comment> \<open>the registers of one round and register B; the second argument is the value that the seventh
     element keeps when there is no century register\<close>
  "mc146818_raw E cent_reg old =
     do {
       b0 \<leftarrow> cmos E 0; b1 \<leftarrow> cmos E 2; b2 \<leftarrow> cmos E 4; b3 \<leftarrow> cmos E 7; b4 \<leftarrow> cmos E 8; b5 \<leftarrow> cmos E 9;
       b6 \<leftarrow> (if cent_reg \<ge> 0 then cmos E (u cent_reg) else ret old);
       x \<leftarrow> cmos E 0x0b;
       ret ([b0, b1, b2, b3, b4, b5, b6], x)
     }"

primrec mc146818_read :: "nat \<Rightarrow> 's chip_env \<Rightarrow> int \<Rightarrow> u32 list \<Rightarrow> ('s, (u32 list \<times> u32 list \<times> u32) option option) state" where
  \<comment> \<open>the loop that reads until two rounds agree: \<open>None\<close> when the bound is reached, \<open>Some None\<close> when
     the update bit does not go off\<close>
  "mc146818_read 0 E cent_reg prev = ret None"
| "mc146818_read (Suc n) E cent_reg prev =
     do {
       (x, count) \<leftarrow> uip_wait CMOS_CNT False E 0x80;
       if count = 0 then ret (Some None)
       else do {
         (buf, x) \<leftarrow> mc146818_raw E cent_reg (prev ! 6);
         if buf = prev then ret (Some (Some (buf, prev, x)))
         else mc146818_read n E cent_reg buf
       }
     }"

definition mc146818_tm :: "int \<Rightarrow> u32 list \<Rightarrow> u32 list \<Rightarrow> u32 \<Rightarrow> tm \<Rightarrow> tm" where
  \<comment> \<open>from the registers to the time\<close>
  "mc146818_tm cent_reg buf0 buf1 x t =
     (let b = (if x AND 0x04 = 0
               then map BCD2BIN (buf0[2 := buf0 ! 2 AND 0x7f]) else buf0);
          hour = sint (b ! 2 AND 0x7f);
          hour' = (if x AND 0x02 = 0 \<and> buf1 ! 2 AND 0x80 \<noteq> 0 then hour + 12 else hour);
          year = sint (b ! 5);
          year' = (if cent_reg \<ge> 0 then if b ! 6 \<noteq> 0 then year + 100 else year
                   else if year < 70 then year + 100 else year)
      in t\<lparr>tm_sec := sint (b ! 0), tm_min := sint (b ! 1), tm_hour := hour', tm_mday := sint (b ! 3),
           tm_mon := sint (b ! 4 - 1), tm_year := year'\<rparr>)"

definition get_mc146818 :: "nat \<Rightarrow> 's chip_env \<Rightarrow> int \<Rightarrow> tm \<Rightarrow> ('s, (int \<times> tm) option) state" where
  "get_mc146818 n E cent_reg t =
     do {
       x \<leftarrow> cmos E 0x0a;
       ok \<leftarrow> (if x AND 0x60 \<noteq> 0x20
              then do {
                chip_write8 E 1 (x OR 0x60);
                y \<leftarrow> cmos E 0x0a;
                if y AND 0x60 \<noteq> 0 then do { chip_write8 E 1 x; ret False } else ret True
              }
              else ret True);
       if \<not> ok then ret (Some (- 1, t))
       else do {
         (x1, _) \<leftarrow> uip_wait CMOS_CNT True E 0;
         (if x1 AND 0x80 = 0 then do { _ \<leftarrow> uip_wait CMOS_CNT True E x1; ret () } else ret ());
         r \<leftarrow> mc146818_read n E cent_reg (replicate 7 0);
         case r of
           None \<Rightarrow> ret None
         | Some None \<Rightarrow> ret (Some (- 1, t))
         | Some (Some (buf0, buf1, x)) \<Rightarrow> ret (Some (0, mc146818_tm cent_reg buf0 buf1 x t))
       }
     }"

definition set_mc146818 :: "'s chip_env \<Rightarrow> int \<Rightarrow> tm \<Rightarrow> ('s, int) state" where
  "set_mc146818 E cent_reg t =
     do {
       x \<leftarrow> cmos E 0x0a;
       cmos_set E 0x0a ((x AND 0xf) OR 0x20);
       x \<leftarrow> cmos E 0x0b;
       let x = x OR 0x80 OR 0x02;
       cmos_set E 0x0b x;
       let f = (if x AND 0x04 = 0 then BIN2BCDu else id);
       cmos_set E 7 (f (u (tm_mday t)));
       cmos_set E 8 (f (u (tm_mon t + 1)));
       cmos_set E 9 (f (u (tm_year t smod 100)));
       (if cent_reg \<ge> 0 then cmos_set E (u cent_reg) (f (u (tm_year t sdiv 100 + 19))) else ret ());
       cmos_set E 4 (f (u (tm_hour t)));
       cmos_set E 2 (f (u (tm_min t)));
       cmos_set E 0 (f (u (tm_sec t)));
       cmos_set E 0x0b (x AND NOT 0x80);
       ret 0
     }"

subsection \<open>Setting a clock and reading it back\<close>

lemma has16: "\<forall>r < 16. has r \<Longrightarrow> has 0 \<and> has 1 \<and> has 2 \<and> has 3 \<and> has 4 \<and> has 5 \<and> has 6 \<and> has 7 \<and> has 8 \<and> has 9 \<and>
   has 10 \<and> has 11 \<and> has 12 \<and> has 13 \<and> has 14 \<and> has (15 :: u32)"
  by simp

lemma ds1386_get:
  assumes R: "rtc_regs E 8 reg put has" and has: "\<forall>r < 16. has r" and c: "cent_reg < 0 \<or> cent_reg = 14"
  shows "fst (run_state (get_ds1386 E cent_reg t0) s) = (0, fill_tm t0 (sint (BCD2BIN (reg s 1))) (sint (BCD2BIN (reg s 2)))
    (sint (BCD2BIN (reg s 4 AND 0x3f))) (sint (BCD2BIN (reg s 8))) (sint (BCD2BIN (reg s 9 AND 0x3f) - 1))
    (let y = sint (BCD2BIN (reg s 10)) in
     if (if cent_reg < 0 then y < 70 else BCD2BIN (reg s 14) = 20) then y + 100 else y))"
  using has16 [OF has] c
  by (cases "reg s 11 AND 128 = 0"; elim disjE)
    (simp_all add: get_ds1386_def rtc_regs.reg_simps [OF R] Let_def fill_tm_def)

lemma ds1386_set:
  assumes R: "rtc_regs E 8 reg put has" and has: "\<forall>r < 16. has r" and c: "cent_reg < 0 \<or> cent_reg = 14"
    and t: "tm_ok 70 170 t" and s': "s' = snd (run_state (set_ds1386 E cent_reg t) s)"
  shows "reg s' 1 = u (BIN2BCD (tm_sec t))" "reg s' 2 = u (BIN2BCD (tm_min t))" "reg s' 4 = u (BIN2BCD (tm_hour t))"
    "reg s' 8 = u (BIN2BCD (tm_mday t))" "reg s' 9 AND 0x3f = u (BIN2BCD (tm_mon t + 1))"
    "reg s' 10 = u (BIN2BCD (tm_year t mod 100))" "0 \<le> cent_reg \<Longrightarrow> reg s' 14 = u (BIN2BCD (tm_year t div 100 + 19))"
  using has16 [OF has] c tm_bounds [OF t] unfolding s'
  by (elim disjE; simp add: set_ds1386_def rtc_regs.reg_simps [OF R] Let_def take8 mask_simps year_mod and.assoc
      bit.conj_disj_distrib2)+

lemma ds15x1_get:
  assumes R: "rtc_regs E 8 reg put has" and has: "\<forall>r < 16. has r" and c: "cent_reg < 0 \<or> cent_reg = 7"
  shows "fst (run_state (get_ds15x1 E cent_reg t0) s) = (0, fill_tm t0 (sint (BCD2BIN (reg s 0))) (sint (BCD2BIN (reg s 1)))
    (sint (BCD2BIN (reg s 2))) (sint (BCD2BIN (reg s 4))) (sint (BCD2BIN (reg s 5 AND 0x1f) - 1))
    (let y = sint (BCD2BIN (reg s 6)) in
     if (if cent_reg < 0 then y < 70 else reg s 7 = 0x20) then y + 100 else y))"
  using has16 [OF has] c
  by (cases "reg s 15 AND 128 = 0"; elim disjE)
    (simp_all add: get_ds15x1_def rtc_regs.reg_simps [OF R] Let_def fill_tm_def)

lemma ds15x1_set:
  assumes R: "rtc_regs E 8 reg put has" and has: "\<forall>r < 16. has r" and c: "cent_reg < 0 \<or> cent_reg = 7"
    and t: "tm_ok 70 170 t" and s': "s' = snd (run_state (set_ds15x1 E cent_reg t) s)"
  shows "reg s' 0 = u (BIN2BCD (tm_sec t))" "reg s' 1 = u (BIN2BCD (tm_min t))" "reg s' 2 = u (BIN2BCD (tm_hour t))"
    "reg s' 4 = u (BIN2BCD (tm_mday t))" "reg s' 5 AND 0x1f = u (BIN2BCD (tm_mon t + 1))"
    "reg s' 6 = u (BIN2BCD (tm_year t mod 100))" "0 \<le> cent_reg \<Longrightarrow> reg s' 7 = u (BIN2BCD (tm_year t div 100 + 19))"
  using has16 [OF has] c tm_bounds [OF t] unfolding s'
  by (elim disjE; simp add: set_ds15x1_def rtc_regs.reg_simps [OF R] Let_def take8 mask_simps year_mod and.assoc
      bit.conj_disj_distrib2)+

text \<open>
  Setting the DS1386 and reading it back gives the time that was set, for the years 1970 to 2069, with the
  default century register and without one, whatever the chip held before. The registers of the chip are assumed
  to hold what is written to them.
\<close>

theorem ds1386_round_trip:
  assumes R: "rtc_regs E 8 reg put has" and has: "\<forall>r < 16. has r" and c: "cent_reg < 0 \<or> cent_reg = 14"
    and t: "tm_ok 70 170 t"
  shows "fst (run_state (get_ds1386 E cent_reg t0) (snd (run_state (set_ds1386 E cent_reg t) s))) = (0, copy_time t t0)"
  unfolding ds1386_get [OF R has c] fill_copy [symmetric]
  using tm_bounds [OF t] c ds1386_set [OF R has c t refl, of s]
  by (elim disjE) (simp_all add: mask_simps bcd_back bcd_back1 Let_def year_pivot year_cent del: if_split)

theorem ds1386_round_trip_witness:
  "tm_ok 70 170 demo_tm \<and>
   fst (run_state (get_ds1386 (file_env (at_mem demo_chip) 0) 14 demo_tm)
     (snd (run_state (set_ds1386 (file_env (at_mem demo_chip) 0) 14 demo_tm) (\<lambda>_. 0)))) = (0, demo_tm)"
  using ds1386_round_trip [OF mem_regs8, of demo_chip 14 demo_tm]
  by (simp add: tm_ok_def copy_time_def demo_tm_def)

text \<open>
  Setting the DS15x1 and reading it back gives the time that was set, for the years 1970 to 2069, with the
  default century register and without one; the control bits in the month register do not disturb it.
\<close>

theorem ds15x1_round_trip:
  assumes R: "rtc_regs E 8 reg put has" and has: "\<forall>r < 16. has r" and c: "cent_reg < 0 \<or> cent_reg = 7"
    and t: "tm_ok 70 170 t"
  shows "fst (run_state (get_ds15x1 E cent_reg t0) (snd (run_state (set_ds15x1 E cent_reg t) s))) = (0, copy_time t t0)"
  unfolding ds15x1_get [OF R has c] fill_copy [symmetric]
  using tm_bounds [OF t] c ds15x1_set [OF R has c t refl, of s]
  by (elim disjE) (simp_all add: mask_simps bcd_back bcd_back1 Let_def year_pivot year_cent_raw del: if_split)

theorem ds15x1_round_trip_witness:
  "fst (run_state (get_ds15x1 (file_env (at_mem demo_chip) 0) 7 demo_tm)
     (snd (run_state (set_ds15x1 (file_env (at_mem demo_chip) 0) 7 demo_tm) (\<lambda>_. 0)))) = (0, demo_tm)"
  using ds15x1_round_trip [OF mem_regs8, of demo_chip 7 demo_tm]
  by (simp add: tm_ok_def copy_time_def demo_tm_def)

subsubsection \<open>DS1743 and M48T37\<close>

lemma has_ds1743: "\<forall>r < 0x2000. has r \<Longrightarrow> has 0x1ff8 \<and> has 0x1ff9 \<and> has 0x1ffa \<and> has 0x1ffb \<and> has 0x1ffc \<and>
    has 0x1ffd \<and> has 0x1ffe \<and> has (0x1fff :: u32)"
  by simp

lemma ds1743_get:
  assumes R: "rtc_regs E 8 reg put has" and has: "\<forall>r < 0x2000. has r" and sec: "reg s 0x1ff9 AND 0x80 = 0"
  shows "fst (run_state (get_ds1743 E cent_reg t0) s) = (0, fill_tm t0 (sint (BCD2BIN (reg s 0x1ff9 AND 0x7f)))
    (sint (BCD2BIN (reg s 0x1ffa AND 0x7f))) (sint (BCD2BIN (reg s 0x1ffb AND 0x3f)))
    (sint (BCD2BIN (reg s 0x1ffd AND 0x3f))) (sint (BCD2BIN (reg s 0x1ffe AND 0x1f) - 1))
    (sint (BCD2BIN (reg s 0x1fff) + (BCD2BIN (reg s 0x1ff8 AND 0x3f) - 19) * 100)))"
  using has_ds1743 [OF has] sec
  by (cases "reg s 0x1ffc AND 0x40 = 0")
    (simp_all add: get_ds1743_def rtc_regs.reg_simps [OF R] Let_def fill_tm_def take8 and.assoc bit.conj_disj_distrib2)

lemma ds1743_set:
  assumes R: "rtc_regs E 8 reg put has" and has: "\<forall>r < 0x2000. has r" and t: "tm_ok 0 2100 t"
    and s': "s' = snd (run_state (set_ds1743 E cent_reg t) s)"
  shows "reg s' 0x1ff9 = u (BIN2BCD (tm_sec t))" "reg s' 0x1ffa = u (BIN2BCD (tm_min t))"
    "reg s' 0x1ffb = u (BIN2BCD (tm_hour t))" "reg s' 0x1ffd = u (BIN2BCD (tm_mday t))"
    "reg s' 0x1ffe = u (BIN2BCD (tm_mon t + 1))" "reg s' 0x1fff = u (BIN2BCD (tm_year t mod 100))"
    "reg s' 0x1ff8 AND 0x3f = u (BIN2BCD (tm_year t div 100 + 19))"
  using has_ds1743 [OF has] tm_bounds [OF t] unfolding s'
  by (simp_all add: set_ds1743_def rtc_regs.reg_simps [OF R] take8 mask_simps year_mod and.assoc)

lemma year_word:
  assumes "0 \<le> y" and "y < 2100"
  shows "sint (BCD2BIN (u (BIN2BCD (y mod 100))) + (BCD2BIN (u (BIN2BCD (y div 100 + 19))) - 19) * 100) = y"
proof -
  have "BCD2BIN (u (BIN2BCD (y mod 100))) = u (y mod 100)" by (rule bcd_round) simp_all
  moreover have "BCD2BIN (u (BIN2BCD (y div 100 + 19))) = u (y div 100 + 19)" by (rule bcd_round) (use assms in simp_all)
  moreover have "u a + (u (b + 19) - 19) * 100 = u (a + b * 100)" for a b by simp
  moreover have "y mod 100 + y div 100 * 100 = y" by simp
  ultimately have "sint (BCD2BIN (u (BIN2BCD (y mod 100))) + (BCD2BIN (u (BIN2BCD (y div 100 + 19))) - 19) * 100) = sint (u y)"
    by (simp only:)
  then show ?thesis using sint_small [of y] assms by simp
qed

lemma year_word2:
  assumes "0 \<le> y" and "y < 2100"
  shows "sint (BCD2BIN (u (BIN2BCD (y mod 100))) + (BCD2BIN (u (BIN2BCD (y div 100 + 19))) * 100 - 1900)) = y"
  using year_word [OF assms] by (simp add: left_diff_distrib)

lemma bcd_not80: "0 \<le> x \<Longrightarrow> x < 80 \<Longrightarrow> u (BIN2BCD x) AND - 129 = u (BIN2BCD x)"
proof -
  assume "0 \<le> x" "x < 80"
  then have x: "u (BIN2BCD x) AND 0x7f = u (BIN2BCD x)" by (rule bcd_mask7f)
  have "(u (BIN2BCD x) AND 0x7f) AND - 129 = u (BIN2BCD x) AND 0x7f" by (simp add: and.assoc)
  then show ?thesis unfolding x .
qed

text \<open>
  Setting the DS1743 and reading it back gives the time that was set, for every year from 1900 to 3999: the two
  digits of the century are part of the control register and survive the writes that stop and restart the clock.
\<close>

theorem ds1743_round_trip:
  assumes R: "rtc_regs E 8 reg put has" and has: "\<forall>r < 0x2000. has r" and t: "tm_ok 0 2100 t"
  shows "fst (run_state (get_ds1743 E cent_reg t0) (snd (run_state (set_ds1743 E cent_reg t) s))) = (0, copy_time t t0)"
proof -
  let ?s = "snd (run_state (set_ds1743 E cent_reg t) s)"
  note r = ds1743_set [OF R has t refl, of cent_reg s] and b = tm_bounds [OF t]
  have "reg ?s 0x1ff9 AND 0x80 = 0" using r(1) b by (simp add: mask_simps)
  from ds1743_get [OF R has this] show ?thesis
    using b by (simp add: r fill_copy [symmetric] mask_simps bcd_back bcd_back1 year_word2)
qed

theorem ds1743_round_trip_witness:
  "fst (run_state (get_ds1743 (file_env (at_mem demo_chip) 0) 0 demo_tm)
     (snd (run_state (set_ds1743 (file_env (at_mem demo_chip) 0) 0 demo_tm) (\<lambda>_. 0)))) = (0, demo_tm)"
  using ds1743_round_trip [OF mem_regs8, of demo_chip demo_tm]
  by (simp add: tm_ok_def copy_time_def demo_tm_def)

lemma has_m48t37: "\<forall>r < 0x8000. has r \<Longrightarrow> has 0x7ff1 \<and> has 0x7ff8 \<and> has 0x7ff9 \<and> has 0x7ffa \<and> has 0x7ffb \<and> has 0x7ffd \<and>
    has 0x7ffe \<and> has (0x7fff :: u32)"
  by simp

lemma m48t37_get:
  assumes R: "rtc_regs E 8 reg put has" and has: "\<forall>r < 0x8000. has r" and c: "cent_reg < 0 \<or> cent_reg = 1"
  shows "fst (run_state (get_m48t37 (Suc n) E cent_reg t0) s) = Some (0, fill_tm t0 (sint (BCD2BIN (reg s 0x7ff9 AND NOT 0x80)))
    (sint (BCD2BIN (reg s 0x7ffa))) (sint (BCD2BIN (reg s 0x7ffb)))
    (sint (BCD2BIN (reg s 0x7ffd))) (sint (BCD2BIN (reg s 0x7ffe) - 1))
    (let y = sint (BCD2BIN (reg s 0x7fff)); c = BCD2BIN (reg s 0x7ff1) in
     if cent_reg < 0 then if y < 70 then y + 100 else y else if c > 19 then sint (u y + (c - 19) * 100) else y))"
  using has_m48t37 [OF has] c
  by (elim disjE) (simp_all add: m48t37_raw_def rtc_regs.reg_simps [OF R] Let_def fill_tm_def)

lemma m48t37_set:
  assumes R: "rtc_regs E 8 reg put has" and has: "\<forall>r < 0x8000. has r" and c: "cent_reg < 0 \<or> cent_reg = 1"
    and t: "tm_ok 70 170 t" and s': "s' = snd (run_state (set_m48t37 E cent_reg t) s)"
  shows "reg s' 0x7ff9 = u (BIN2BCD (tm_sec t))" "reg s' 0x7ffa = u (BIN2BCD (tm_min t))"
    "reg s' 0x7ffb = u (BIN2BCD (tm_hour t))" "reg s' 0x7ffd = u (BIN2BCD (tm_mday t))"
    "reg s' 0x7ffe = u (BIN2BCD (tm_mon t + 1))" "reg s' 0x7fff = u (BIN2BCD (tm_year t mod 100))"
    "0 \<le> cent_reg \<Longrightarrow> reg s' 0x7ff1 = u (BIN2BCD (tm_year t div 100 + 19))"
  using has_m48t37 [OF has] tm_bounds [OF t] c unfolding s'
  by (elim disjE; simp add: set_m48t37_def rtc_regs.reg_simps [OF R] take8 mask_simps year_mod)+

lemma year_cent_gt: "70 \<le> y \<Longrightarrow> y < 170 \<Longrightarrow>
    (if 19 < BCD2BIN (u (BIN2BCD (y div 100 + 19)))
     then sint (u (y mod 100) + (BCD2BIN (u (BIN2BCD (y div 100 + 19))) - 19) * 100) else y mod 100) = y"
  by (rule year_cases [of y]) (auto simp: bcd_round(2) sint_small)

text \<open>
  Setting the M48T37 and reading it back gives the time that was set, for the years 1970 to 2069, with the
  century register of the chip and without one, and the loop that reads the registers ends in its first round.
\<close>

theorem m48t37_round_trip:
  assumes R: "rtc_regs E 8 reg put has" and has: "\<forall>r < 0x8000. has r" and c: "cent_reg < 0 \<or> cent_reg = 1"
    and t: "tm_ok 70 170 t"
  shows "fst (run_state (get_m48t37 (Suc n) E cent_reg t0) (snd (run_state (set_m48t37 E cent_reg t) s))) =
    Some (0, copy_time t t0)"
  unfolding m48t37_get [OF R has c] fill_copy [symmetric]
  using tm_bounds [OF t] c m48t37_set [OF R has c t refl, of s]
  by (elim disjE) (simp_all add: mask_simps bcd_not80 bcd_back bcd_back1 year_pivot year_cent_gt Let_def split del: if_split)

theorem m48t37_round_trip_witness:
  "fst (run_state (get_m48t37 1 (file_env (at_mem demo_chip) 0) 1 demo_tm)
     (snd (run_state (set_m48t37 (file_env (at_mem demo_chip) 0) 1 demo_tm) (\<lambda>_. 0)))) = Some (0, demo_tm)"
  using m48t37_round_trip [OF mem_regs8, of demo_chip 1 demo_tm 0]
  by (simp add: tm_ok_def copy_time_def demo_tm_def)

subsubsection \<open>RTC-72423\<close>

lemma bcd_nibbles:
  "\<forall>x \<in> set [0..99]. push_bit 4 (drop_bit 4 (u (BIN2BCD x)) AND 0xff) OR (u (BIN2BCD x) AND 0xff) = u (BIN2BCD x)"
  "\<forall>x \<in> set [0..39]. push_bit 4 (drop_bit 4 (u (BIN2BCD x)) AND 3) OR (u (BIN2BCD x) AND 0xff) = u (BIN2BCD x)"
  by code_simp+

lemma push_and: "push_bit 4 (x AND 0xff) = push_bit 4 x AND 0xff0" "push_bit 4 (x AND 3) = push_bit 4 x AND 0x30" for x :: u32
  by (simp_all add: push_bit_and)

lemma nibble_all: "0 \<le> x \<Longrightarrow> x < 100 \<Longrightarrow>
    push_bit 4 (drop_bit 4 (u (BIN2BCD x))) AND 0xff0 OR u (BIN2BCD x) = u (BIN2BCD x)"
proof -
  assume x: "0 \<le> x" "x < 100"
  then have "x \<in> set [0..99]" by simp
  from bspec [OF bcd_nibbles(1) this] show ?thesis unfolding push_and bcd_ff [OF x] .
qed

lemma nibble_hour: "0 \<le> x \<Longrightarrow> x < 40 \<Longrightarrow>
    push_bit 4 (drop_bit 4 (u (BIN2BCD x))) AND 0x30 OR u (BIN2BCD x) = u (BIN2BCD x)"
proof -
  assume x: "0 \<le> x" "x < 40"
  then have y: "x \<in> set [0..39]" "x < 100" by simp_all
  from bspec [OF bcd_nibbles(2) y(1)] show ?thesis unfolding push_and bcd_ff [OF x(1) y(2)] .
qed

lemma rtc72423_set:
  assumes R: "rtc_regs E 8 reg put has" and has: "\<forall>r < 16. has r" and t: "tm_ok 70 170 t"
    and s': "s' = snd (run_state (set_rtc72423 E cent_reg t) s)"
  shows "reg s' 0 = u (BIN2BCD (tm_sec t))" "reg s' 1 = drop_bit 4 (u (BIN2BCD (tm_sec t))) AND 0xff"
    "reg s' 2 = u (BIN2BCD (tm_min t))" "reg s' 3 = drop_bit 4 (u (BIN2BCD (tm_min t))) AND 0xff"
    "reg s' 4 = u (BIN2BCD (tm_hour t))" "reg s' 5 = drop_bit 4 (u (BIN2BCD (tm_hour t))) AND 0xff"
    "reg s' 6 = u (BIN2BCD (tm_mday t))" "reg s' 7 = drop_bit 4 (u (BIN2BCD (tm_mday t))) AND 0xff"
    "reg s' 8 = u (BIN2BCD (tm_mon t + 1))" "reg s' 9 = drop_bit 4 (u (BIN2BCD (tm_mon t + 1))) AND 0xff"
    "reg s' 10 = u (BIN2BCD (tm_year t mod 100))" "reg s' 11 = drop_bit 4 (u (BIN2BCD (tm_year t mod 100))) AND 0xff"
  using has16 [OF has] tm_bounds [OF t] unfolding s'
  by (simp_all add: set_rtc72423_def rtc72423_put_def rtc_regs.reg_simps [OF R] take8 mask_simps year_mod)

lemma rtc72423_get:
  assumes R: "rtc_regs E 8 reg put has" and has: "\<forall>r < 16. has r"
  shows "fst (run_state (get_rtc72423 (Suc n) E cent_reg t0) s) =
    Some (0, fill_tm t0 (sint (BCD2BIN (push_bit 4 (reg s 1) OR reg s 0))) (sint (BCD2BIN (push_bit 4 (reg s 3) OR reg s 2)))
      (sint (BCD2BIN (push_bit 4 (reg s 5 AND 3) OR reg s 4))) (sint (BCD2BIN (push_bit 4 (reg s 7) OR reg s 6)))
      (sint (BCD2BIN (push_bit 4 (reg s 9) OR reg s 8) - 1))
      (let y = sint (BCD2BIN (push_bit 4 (reg s 11) OR reg s 10)) in if y < 70 then y + 100 else y))"
  using has16 [OF has]
  by (simp add: get_rtc72423_def rtc72423_pair_def rtc_regs.reg_simps [OF R] take8 fill_tm_def Let_def)

text \<open>
  Setting the RTC-72423, which keeps one decimal digit in each register, and reading it back gives the time
  that was set, for the years 1970 to 2069; the loop that holds the chip ends in its first round.
\<close>

theorem rtc72423_round_trip:
  assumes R: "rtc_regs E 8 reg put has" and has: "\<forall>r < 16. has r" and t: "tm_ok 70 170 t"
  shows "fst (run_state (get_rtc72423 (Suc n) E cent_reg t0) (snd (run_state (set_rtc72423 E cent_reg t) s))) =
    Some (0, copy_time t t0)"
  unfolding rtc72423_get [OF R has] fill_copy [symmetric]
  using tm_bounds [OF t]
  by (simp add: rtc72423_set [OF R has t refl] nibble_all nibble_hour and.assoc mask_simps bcd_back bcd_back1 year_pivot
      Let_def split del: if_split)

theorem rtc72423_round_trip_witness:
  "fst (run_state (get_rtc72423 1 (file_env (at_mem demo_chip) 0) 0 demo_tm)
     (snd (run_state (set_rtc72423 (file_env (at_mem demo_chip) 0) 0 demo_tm) (\<lambda>_. 0)))) = Some (0, demo_tm)"
  using rtc72423_round_trip [OF mem_regs8, of demo_chip demo_tm 0]
  by (simp add: tm_ok_def copy_time_def demo_tm_def)

subsubsection \<open>MC146818\<close>

lemma bin_ff: "0 \<le> x \<Longrightarrow> x < 256 \<Longrightarrow> u x AND 0xff = u x"
  unfolding take8 [symmetric] take_bit_of_int by (simp add: take_bit_int_def)
lemma bin_7f: "0 \<le> x \<Longrightarrow> x < 128 \<Longrightarrow> u x AND 0x7f = u x"
proof -
  assume x: "0 \<le> x" "x < 128"
  have "u x AND 0x7f = take_bit 7 (u x)" by (simp add: take_bit_eq_mask mask_eq_exp_minus_1)
  then show ?thesis unfolding take_bit_of_int using x by (simp add: take_bit_int_def)
qed

locale cmos_chip =
  fixes E :: "'s chip_env" and reg :: "'s \<Rightarrow> u32 \<Rightarrow> u32" and put :: "u32 \<Rightarrow> u32 \<Rightarrow> 's \<Rightarrow> 's"
    and sel :: "u32 \<Rightarrow> 's \<Rightarrow> 's"
  assumes cmos_read: "i < 0x100 \<Longrightarrow> run_state (cmos E i) s = (reg s i, sel i s)"
    and cmos_write: "i < 0x100 \<Longrightarrow> run_state (cmos_set E i d) s = ((), put i d s)"
    and reg_sel: "reg (sel i s) j = reg s j"
    and reg_put: "i < 0x100 \<Longrightarrow> j < 0x100 \<Longrightarrow> reg (put i d s) j = (if j = i then d AND 0xff else reg s j)"
begin

lemma uip_on:
  assumes "reg s 0x0a AND 0x80 = 0" and "x AND 0x80 = 0"
  shows "\<exists>s' y. run_state (uip_wait n True E x) s = ((y, 0), s') \<and> y AND 0x80 = 0 \<and> (\<forall>j. reg s' j = reg s j)"
  using assms
proof (induction n arbitrary: x s)
  case (Suc n)
  then show ?case using Suc.IH [of "sel 0x0a s" "reg s 0x0a"] by (simp add: cmos_read reg_sel)
qed simp

lemma uip_off2:
  assumes "reg s 0x0a AND 0x80 = 0"
  shows "run_state (uip_wait (Suc (Suc n)) False E 0x80) s = ((reg s 0x0a, Suc n), sel 0x0a s)"
  using assms by (simp add: cmos_read)

lemma uip_off:
  assumes "reg s 0x0a AND 0x80 = 0"
  shows "\<exists>y m s'. run_state (uip_wait CMOS_CNT False E 0x80) s = ((y, Suc m), s') \<and> (\<forall>j. reg s' j = reg s j)"
proof -
  have "CMOS_CNT = Suc (Suc 0xfffd)" by (simp add: CMOS_CNT_def)
  with uip_off2 [OF assms, of "0xfffd"] show ?thesis by (metis reg_sel)
qed

definition bank :: "int \<Rightarrow> 's \<Rightarrow> u32 list" where
  "bank cent_reg s = [reg s 0, reg s 2, reg s 4, reg s 7, reg s 8, reg s 9, if cent_reg \<ge> 0 then reg s (u cent_reg) else 0]"

lemma raw:
  assumes "cent_reg < 0 \<or> cent_reg = 50" and "cent_reg < 0 \<Longrightarrow> old = 0"
  shows "\<exists>s'. run_state (mc146818_raw E cent_reg old) s = ((bank cent_reg s, reg s 0x0b), s') \<and> (\<forall>j. reg s' j = reg s j)"
  using assms by (auto simp: mc146818_raw_def bank_def cmos_read reg_sel)

lemma bank_cong: "\<forall>j. reg s' j = reg s j \<Longrightarrow> bank c s' = bank c s"
  by (simp add: bank_def)

lemma read_once:
  assumes "reg s 0x0a AND 0x80 = 0" and "cent_reg < 0 \<or> cent_reg = 50" and "cent_reg < 0 \<Longrightarrow> prev ! 6 = 0"
  shows "\<exists>s'. run_state (mc146818_read (Suc n) E cent_reg prev) s =
     (if bank cent_reg s = prev then (Some (Some (bank cent_reg s, prev, reg s 0x0b)), s')
      else run_state (mc146818_read n E cent_reg (bank cent_reg s)) s') \<and> (\<forall>j. reg s' j = reg s j)"
proof -
  obtain y m s1 where u: "run_state (uip_wait CMOS_CNT False E 0x80) s = ((y, Suc m), s1)" "\<forall>j. reg s1 j = reg s j"
    using uip_off [OF assms(1)] by blast
  obtain s2 where r: "run_state (mc146818_raw E cent_reg (prev ! 6)) s1 = ((bank cent_reg s1, reg s1 0x0b), s2)"
    "\<forall>j. reg s2 j = reg s1 j" using raw [OF assms(2,3), of s1] by blast
  have b: "bank cent_reg s1 = bank cent_reg s" by (rule bank_cong [OF u(2)])
  show ?thesis by (rule exI [of _ s2]) (use u r b in auto)
qed

lemma read_twice:
  assumes "reg s 0x0a AND 0x80 = 0" and "cent_reg < 0 \<or> cent_reg = 50"
  shows "\<exists>s'. run_state (mc146818_read (Suc (Suc n)) E cent_reg (replicate 7 0)) s =
     (Some (Some (bank cent_reg s, bank cent_reg s, reg s 0x0b)), s')"
proof -
  obtain s1 where 1: "run_state (mc146818_read (Suc (Suc n)) E cent_reg (replicate 7 0)) s =
     (if bank cent_reg s = replicate 7 0 then (Some (Some (bank cent_reg s, replicate 7 0, reg s 0x0b)), s1)
      else run_state (mc146818_read (Suc n) E cent_reg (bank cent_reg s)) s1)" "\<forall>j. reg s1 j = reg s j"
    using read_once [OF assms, of "replicate 7 0" "Suc n"] by auto
  have a: "reg s1 0x0a AND 0x80 = 0" "bank cent_reg s1 = bank cent_reg s" using 1(2) assms(1) bank_cong by auto
  obtain s2 where 2: "run_state (mc146818_read (Suc n) E cent_reg (bank cent_reg s)) s1 =
      (Some (Some (bank cent_reg s, bank cent_reg s, reg s 0x0b)), s2)"
    using read_once [OF a(1) assms(2), of "bank cent_reg s" n] a(2) 1(2) by (auto simp: bank_def)
  show ?thesis
    by (cases "bank cent_reg s = replicate 7 0") (use 1 2 in auto)
qed

lemma get_spec:
  assumes "reg s 0x0a AND 0x80 = 0" and "reg s 0x0a AND 0x60 = 0x20" and "cent_reg < 0 \<or> cent_reg = 50"
  shows "fst (run_state (get_mc146818 (Suc (Suc n)) E cent_reg t0) s) =
    Some (0, mc146818_tm cent_reg (bank cent_reg s) (bank cent_reg s) (reg s 0x0b) t0)"
proof -
  let ?s0 = "sel 0x0a s"
  have r0: "reg ?s0 j = reg s j" for j by (rule reg_sel)
  obtain s1 y where u1: "run_state (uip_wait CMOS_CNT True E 0) ?s0 = ((y, 0), s1)" "y AND 0x80 = 0" "\<forall>j. reg s1 j = reg s j"
    using uip_on [of ?s0 0 CMOS_CNT] assms(1) r0 by auto
  obtain s2 z where u2: "run_state (uip_wait CMOS_CNT True E y) s1 = ((z, 0), s2)" "\<forall>j. reg s2 j = reg s j"
    using uip_on [of s1 y CMOS_CNT] assms(1) u1 by auto
  have b: "bank cent_reg s2 = bank cent_reg s" by (rule bank_cong [OF u2(2)])
  obtain s3 where "run_state (mc146818_read (Suc (Suc n)) E cent_reg (replicate 7 0)) s2 =
      (Some (Some (bank cent_reg s, bank cent_reg s, reg s 0x0b)), s3)"
    using read_twice [of s2 cent_reg n] assms(1,3) u2(2) b by auto
  then show ?thesis
    using assms(2) u1 u2 by (simp add: get_mc146818_def cmos_read del: mc146818_read.simps replicate.simps uip_wait.simps)
qed


definition enc :: "'s \<Rightarrow> int \<Rightarrow> u32" where
  "enc s x = (if reg s 0x0b AND 4 = 0 then u (BIN2BCD x) else u x)"

lemma set_run:
  assumes c: "cent_reg < 0 \<or> cent_reg = 50" and t: "tm_ok 0 200 t"
  shows "\<exists>s1. snd (run_state (set_mc146818 E cent_reg t) s) =
     put 0x0b ((reg s 0x0b OR 0x80 OR 2) AND NOT 0x80) (put 0 (enc s (tm_sec t)) (put 2 (enc s (tm_min t)) (put 4 (enc s (tm_hour t))
       ((if cent_reg < 0 then id else put 50 (enc s (tm_year t div 100 + 19)))
       (put 9 (enc s (tm_year t mod 100)) (put 8 (enc s (tm_mon t + 1)) (put 7 (enc s (tm_mday t)) 
         (put 0x0b (reg s 0x0b OR 0x80 OR 2) s1)))))))) \<and> reg s1 0x0a = (reg s 0x0a AND 0xf OR 0x20) AND 0xff"
proof -
  let ?s1 = "sel 0x0b (put 0x0a (reg s 0x0a AND 0xf OR 0x20) (sel 0x0a s))"
  let ?f = "if (reg s 11 OR 130) AND 4 = 0 then BIN2BCDu else id"
  have f: "(reg s 0x0b OR 130) AND 4 = reg s 0x0b AND 4" by (simp add: bit.conj_disj_distrib2)
  have e: "?f (u x) = enc s x" if "0 \<le> x" "x < 100" for x
    unfolding f using that by (simp add: enc_def bcd_round)
  have e': "?f (u (tm_mon t) + 1) = enc s (tm_mon t + 1)" "?f (u (tm_year t div 100) + 19) = enc s (tm_year t div 100 + 19)"
    using e [of "tm_mon t + 1"] e [of "tm_year t div 100 + 19"] tm_bounds [OF t] by simp_all
  show ?thesis
    by (rule exI [of _ ?s1], rule disjE [OF c])
     (use tm_bounds [OF t] in \<open>simp_all add: set_mc146818_def cmos_read cmos_write reg_sel reg_put Let_def e e' year_mod split del: if_split\<close>)
qed

lemma enc_ff: "0 \<le> x \<Longrightarrow> x < 100 \<Longrightarrow> enc s x AND 0xff = enc s x"
  by (simp add: enc_def bcd_ff bin_ff)

lemma set_spec:
  assumes c: "cent_reg < 0 \<or> cent_reg = 50" and t: "tm_ok 0 200 t" 
    and s': "s' = snd (run_state (set_mc146818 E cent_reg t) s)"
  shows "reg s' 0 = enc s (tm_sec t)" "reg s' 2 = enc s (tm_min t)" "reg s' 4 = enc s (tm_hour t)"
    "reg s' 7 = enc s (tm_mday t)" "reg s' 8 = enc s (tm_mon t + 1)" "reg s' 9 = enc s (tm_year t mod 100)"
    "0 \<le> cent_reg \<Longrightarrow> reg s' 50 = enc s (tm_year t div 100 + 19)"
    "reg s' 0x0a AND 0x80 = 0" "reg s' 0x0a AND 0x60 = 0x20"
    "reg s' 0x0b AND 4 = reg s 0x0b AND 4" "reg s' 0x0b AND 2 = 2"
proof -
  obtain s1 where s1: "s' = put 0x0b ((reg s 0x0b OR 0x80 OR 2) AND NOT 0x80) (put 0 (enc s (tm_sec t)) (put 2 (enc s (tm_min t)) (put 4 (enc s (tm_hour t))
       ((if cent_reg < 0 then id else put 50 (enc s (tm_year t div 100 + 19)))
       (put 9 (enc s (tm_year t mod 100)) (put 8 (enc s (tm_mon t + 1)) (put 7 (enc s (tm_mday t)) 
         (put 0x0b (reg s 0x0b OR 0x80 OR 2) s1))))))))" "reg s1 0x0a = (reg s 0x0a AND 0xf OR 0x20) AND 0xff"
    using set_run [OF c t] s' by blast
  have y: "0 \<le> tm_year t div 100 + 19" "tm_year t div 100 + 19 < 100" "0 \<le> tm_mon t + 1" "tm_mon t + 1 < 100"
    using tm_bounds [OF t] by presburger+
  note k = s1 reg_put enc_ff
  show "reg s' 0 = enc s (tm_sec t)" "reg s' 2 = enc s (tm_min t)" "reg s' 4 = enc s (tm_hour t)"
    using y tm_bounds [OF t] by (simp_all add: k)
  show "reg s' 7 = enc s (tm_mday t)" "reg s' 8 = enc s (tm_mon t + 1)" "reg s' 9 = enc s (tm_year t mod 100)"
    "0 \<le> cent_reg \<Longrightarrow> reg s' 50 = enc s (tm_year t div 100 + 19)"
    using y tm_bounds [OF t] by (simp_all add: k)
  show "reg s' 0x0a AND 0x80 = 0" "reg s' 0x0a AND 0x60 = 0x20"
    by (simp_all add: k bit.conj_disj_distrib2 and.assoc)
  show "reg s' 0x0b AND 4 = reg s 0x0b AND 4" "reg s' 0x0b AND 2 = 2"
    by (simp_all add: k bit.conj_disj_distrib2 and.assoc)
qed


lemma round_trip:
  assumes c: "cent_reg < 0 \<or> cent_reg = 50" and t: "tm_ok 0 200 t"
  shows "fst (run_state (get_mc146818 (Suc (Suc n)) E cent_reg t0) (snd (run_state (set_mc146818 E cent_reg t) s))) =
    Some (0, copy_time t t0\<lparr>tm_year := tm_year t mod 100 + (if 0 \<le> cent_reg \<or> tm_year t mod 100 < 70 then 100 else 0)\<rparr>)"
proof -
  define s' where "s' = snd (run_state (set_mc146818 E cent_reg t) s)"
  note f = set_spec [OF c t s'_def]
  have b: "bank cent_reg s' = map (enc s) [tm_sec t, tm_min t, tm_hour t, tm_mday t, tm_mon t + 1, tm_year t mod 100] @
     [if cent_reg < 0 then 0 else enc s (tm_year t div 100 + 19)]"
    using c f by (auto simp: bank_def)
  have y: "0 \<le> tm_year t div 100 + 19" "tm_year t div 100 + 19 < 100" "tm_year t div 100 + 19 \<noteq> 0"
    using tm_bounds [OF t] by presburger+
  have nz: "u (tm_year t div 100 + 19) \<noteq> 0" using y sint_small [of "tm_year t div 100 + 19"] by auto
  have "mc146818_tm cent_reg (bank cent_reg s') (bank cent_reg s') (reg s' 0x0b) t0 =
    copy_time t t0\<lparr>tm_year := tm_year t mod 100 + (if 0 \<le> cent_reg \<or> tm_year t mod 100 < 70 then 100 else 0)\<rparr>"
    using tm_bounds [OF t] y nz unfolding b mc146818_tm_def f enc_def
    by (cases "reg s 11 AND 4 = 0") (auto simp: Let_def bcd_round bin_7f bcd_mask7f sint_small sint_small_minus1 copy_time_def simp del: of_int_add)
  then show ?thesis using get_spec [OF f(8,9) c, of n t0] unfolding s'_def by simp
qed

end

text \<open>The chip behind an index port and a data port, with its registers of eight bits.\<close>

type_synonym cmos_state = "u8 \<times> (u8 \<Rightarrow> u8)"

definition cmos_in :: "u32 \<Rightarrow> u32 \<Rightarrow> (cmos_state, 'a::len word) state" where
  "cmos_in p a = State (\<lambda>(i, f). (if a = p + 1 then ucast (f i) else 0, (i, f)))"

definition cmos_out :: "u32 \<Rightarrow> u32 \<Rightarrow> 'a::len word \<Rightarrow> (cmos_state, unit) state" where
  "cmos_out p a v = State (\<lambda>(i, f). ((), if a = p then (ucast v, f) else if a = p + 1 then (i, f(i := ucast v)) else (i, f)))"

definition cmos_env :: "chip_loc \<Rightarrow> u32 \<Rightarrow> cmos_state chip_env" where
  "cmos_env c p = \<lparr>chip = c\<lparr>access_type := IOMAPPED, reg_shift := 0\<rparr>, port = p,
     pread = (\<lambda>n off. ret []), pwrite = (\<lambda>bs off. ret ()),
     mem8 = cmos_in p, mem16 = cmos_in p, mem32 = cmos_in p,
     set_mem8 = cmos_out p, set_mem16 = cmos_out p, set_mem32 = cmos_out p,
     in8 = cmos_in p, in16 = cmos_in p, in32 = cmos_in p, out8 = cmos_out p, out16 = cmos_out p, out32 = cmos_out p,
     nanosleep = (\<lambda>n. ret ()), interrupts = (\<lambda>b. ret ())\<rparr>"

lemma ucast8_inj: "i < 0x100 \<Longrightarrow> j < 0x100 \<Longrightarrow> (ucast i :: u8) = ucast j \<longleftrightarrow> i = j" for i j :: u32
proof
  assume "i < 0x100" "j < 0x100" and e: "(ucast i :: u8) = ucast j"
  then have "take_bit 8 i = i" "take_bit 8 j = j" by (simp_all add: word_unat_eq_iff unsigned_take_bit_eq take_bit_nat_def word_less_nat_alt)
  then show "i = j" using e by (metis ucast8)
qed simp

interpretation port_cmos: cmos_chip "cmos_env c p" "\<lambda>s i. ucast (snd s (ucast i))"
    "\<lambda>i d s. (ucast i, (snd s)(ucast i := ucast d))" "\<lambda>i s. (ucast i, snd s)" for c p
  by unfold_locales
    (auto simp: cmos_env_def cmos_def cmos_set_def chip_read_def chip_write_def cmos_in_def cmos_out_def IOMAPPED_def RESMGR_def
      ucast8 ucast8_inj take8)

lemma port_cmos_chip: "cmos_chip (cmos_env c p) (\<lambda>s i. ucast (snd s (ucast i)))
    (\<lambda>i d s. (ucast i, (snd s)(ucast i := ucast d))) (\<lambda>i s. (ucast i, snd s))"
  by (rule port_cmos.cmos_chip_axioms)

text \<open>
  Setting the MC146818 and reading it back, without a century register, gives the time that was set for the
  years 1970 to 2069, in the BCD mode and in the binary mode of the chip and whatever mode it was left in: \<open>set\<close> selects the
  24 hour mode, and \<open>get\<close> ends after two rounds that agree.
\<close>

theorem mc146818_round_trip:
  assumes R: "cmos_chip E reg put sel" and c: "cent_reg < 0" and t: "tm_ok 70 170 t"
  shows "fst (run_state (get_mc146818 (Suc (Suc n)) E cent_reg t0) (snd (run_state (set_mc146818 E cent_reg t) s))) =
    Some (0, copy_time t t0)"
proof -
  have t': "tm_ok 0 200 t" using t by (auto simp: tm_ok_def)
  have y: "tm_year t mod 100 + (if tm_year t mod 100 < 70 then 100 else 0) = tm_year t"
    using year_pivot [of "tm_year t"] tm_bounds [OF t] by (auto split: if_splits)
  show ?thesis
    unfolding cmos_chip.round_trip [OF R disjI1 [OF c] t'] using c y by (simp add: copy_time_def split del: if_split)
qed

theorem mc146818_round_trip_witness:
  "fst (run_state (get_mc146818 2 (cmos_env demo_chip 0x70) (- 1) demo_tm)
     (snd (run_state (set_mc146818 (cmos_env demo_chip 0x70) (- 1) demo_tm) (0, \<lambda>_. 0)))) = Some (0, demo_tm)"
  using mc146818_round_trip [OF port_cmos_chip, of "- 1" demo_tm 0 demo_chip "0x70" demo_tm "(0, \<lambda>_. 0)"]
  by (simp add: tm_ok_def copy_time_def demo_tm_def numeral_2_eq_2)

text \<open>
  With the century register of the PC (50), \<open>get\<close> adds a hundred years whenever the register is not zero. \<open>set\<close>
  stores 19 there for a year before 2000, so a time of the years 1970 to 1999 is read back a hundred years late.
\<close>

theorem mc146818_century_misread:
  assumes R: "cmos_chip E reg put sel" and t: "tm_ok 70 100 t"
  shows "fst (run_state (get_mc146818 (Suc (Suc n)) E 50 t0) (snd (run_state (set_mc146818 E 50 t) s))) =
    Some (0, (copy_time t t0)\<lparr>tm_year := tm_year t + 100\<rparr>)"
proof -
  have t': "tm_ok 0 200 t" and y: "tm_year t mod 100 = tm_year t" using t by (auto simp: tm_ok_def)
  show ?thesis
    using cmos_chip.round_trip [OF R _ t', of 50] y by simp
qed

theorem mc146818_century_misread_witness:
  "fst (run_state (get_mc146818 2 (cmos_env demo_chip 0x70) 50 demo_tm)
     (snd (run_state (set_mc146818 (cmos_env demo_chip 0x70) 50 (demo_tm\<lparr>tm_year := 99\<rparr>)) (0, \<lambda>_. 0)))) =
   Some (0, demo_tm\<lparr>tm_year := 199\<rparr>)"
  using mc146818_century_misread [OF port_cmos_chip, of "demo_tm\<lparr>tm_year := 99\<rparr>" 0 demo_chip "0x70" demo_tm "(0, \<lambda>_. 0)"]
  by (simp add: tm_ok_def copy_time_def demo_tm_def numeral_2_eq_2)

end
