(* ===== verification/Numbers.thy ===== *)
theory Numbers
  imports Prelude
begin

section \<open>Numbers as text\<close>

text \<open>
  \<^verbatim>\<open>strtoul.c\<close>, \<^verbatim>\<open>getsize.c\<close>, \<^verbatim>\<open>ultoa_end.c\<close>, \<^verbatim>\<open>bcd2bin.c\<close> and \<^verbatim>\<open>calc_cksum.c\<close> of the startup
  library. A C string is a list of characters without the terminating zero, a pointer into it the rest of the
  list from there on; \<open>paddr_t\<close> and \<open>unsigned long\<close> have 32 bits. \<open>ultoa_end\<close> fills a buffer of 33 bytes
  from its end; running out of it gives \<open>None\<close>.
\<close>

definition code :: "char \<Rightarrow> int" where
  "code c = int (of_char c :: nat)"

definition radix_value :: "char \<Rightarrow> int" where
  "radix_value c =
     (if code c \<ge> code CHR ''0'' \<and> code c \<le> code CHR ''9'' then code c - code CHR ''0''
      else if code c \<ge> code CHR ''a'' \<and> code c \<le> code CHR ''f'' then code c - code CHR ''a'' + 10
      else if code c \<ge> code CHR ''A'' \<and> code c \<le> code CHR ''F'' then code c - code CHR ''A'' + 10
      else 37)"

definition hexstr :: "string \<Rightarrow> bool" where
  "hexstr p \<longleftrightarrow> (case p of c # d # _ \<Rightarrow> c = CHR ''0'' \<and> (d = CHR ''x'' \<or> d = CHR ''X'') | _ \<Rightarrow> False)"

fun radix_loop :: "int \<Rightarrow> u32 \<Rightarrow> string \<Rightarrow> u32 \<times> string" where
  \<comment> \<open>the loop over the digits; the terminating zero is no digit of any base up to 37\<close>
  "radix_loop base value [] = (value, [])"
| "radix_loop base value (c # p) =
     (if radix_value c \<ge> base then (value, c # p)
      else radix_loop base (value * word_of_int base + word_of_int (radix_value c)) p)"

definition strtopaddr :: "string \<Rightarrow> int \<Rightarrow> u32 \<times> string" where
  "strtopaddr nptr base =
     (let base = (if base = 0
                  then if hexstr nptr then 16 else if nptr \<noteq> [] \<and> hd nptr = CHR ''0'' then 8 else 10
                  else base);
          startp = (if base = 16 \<and> hexstr nptr then drop 2 nptr else nptr);
          (value, p) = radix_loop base 0 startp
      in (value, if p = startp then nptr else p))"

definition strtoul :: "string \<Rightarrow> int \<Rightarrow> u32 \<times> string" where
  "strtoul nptr base = strtopaddr nptr base"

definition getsize :: "string \<Rightarrow> u32 \<times> string" where
  "getsize str =
     (let (v, str) = strtopaddr str 0
      in case str of
           [] \<Rightarrow> (v, str)
         | c # rest \<Rightarrow>
             if c = CHR ''G'' \<or> c = CHR ''g'' then (v * 1024 * 1024 * 1024, rest)
             else if c = CHR ''M'' \<or> c = CHR ''m'' then (v * 1024 * 1024, rest)
             else if c = CHR ''K'' \<or> c = CHR ''k'' then (v * 1024, rest)
             else (v, str))"

definition digit_chars :: string where
  "digit_chars = ''0123456789abcdef''"

primrec ultoa_loop :: "nat \<Rightarrow> u32 \<Rightarrow> u32 \<Rightarrow> string \<Rightarrow> string option" where
  \<comment> \<open>the loop that writes digits down from the end of the buffer, with the room that is left in it\<close>
  "ultoa_loop 0 v radix acc = None"
| "ultoa_loop (Suc room) v radix acc =
     (let acc = digit_chars ! unat (v mod radix) # acc;
          v = v div radix
      in if v = 0 then Some acc else ultoa_loop room v radix acc)"

definition ultoa_end :: "u32 \<Rightarrow> string \<Rightarrow> int \<Rightarrow> string option" where
  \<comment> \<open>what \<open>d\<close> points to: the text before it and the digits behind that\<close>
  "ultoa_end v d radix = map_option (\<lambda>s. d @ s) (ultoa_loop 32 v (word_of_int radix) [])"

definition bcd2bin :: "u32 \<Rightarrow> u32" where
  "bcd2bin a = drop_bit 12 (a AND 0xf000) * 1000 + drop_bit 8 (a AND 0xf00) * 100 + drop_bit 4 (a AND 0xf0) * 10 + (a AND 0xf)"

fun cksum_loop :: "u32 \<Rightarrow> u8 list \<Rightarrow> u32" where
  "cksum_loop acc [] = acc"
| "cksum_loop acc (c # cp) = cksum_loop (acc + ucast c) cp"

definition calc_cksum :: "u8 list \<Rightarrow> u32" where
  \<comment> \<open>the bytes from \<open>start\<close> on\<close>
  "calc_cksum bytes = cksum_loop 0 bytes AND 0xff"

subsection \<open>Reading what was written\<close>

lemma digit_table:
  "\<forall>d \<in> set [0..<16]. radix_value (digit_chars ! d) = int d"
  by code_simp

lemma digit_value: "d < 16 \<Longrightarrow> radix_value (digit_chars ! d) = int d"
  using digit_table by simp

definition digits_val :: "nat \<Rightarrow> nat \<Rightarrow> nat list \<Rightarrow> nat" where
  "digits_val b a ds = foldl (\<lambda>a d. a * b + d) a ds"

lemma radix_loop_digits:
  assumes "\<forall>d \<in> set ds. d < b" and "b \<le> 16" and "p = [] \<or> radix_value (hd p) \<ge> int b"
  shows "radix_loop (int b) (word_of_nat a) (map ((!) digit_chars) ds @ p) = (word_of_nat (digits_val b a ds), p)"
  using assms
proof (induction ds arbitrary: a)
  case Nil
  then show ?case by (cases p) (auto simp: digits_val_def)
next
  case (Cons d ds)
  have "radix_value (digit_chars ! d) = int d" using Cons.prems by (intro digit_value) auto
  then show ?case using Cons.prems Cons.IH [of "a * b + d"] by (simp add: digits_val_def)
qed

lemma ultoa_digits:
  assumes "2 \<le> b" "b \<le> 16" "v < b ^ n" "n \<le> room" "0 < n" "v < 2 ^ 32"
  shows "\<exists>ds. ultoa_loop room (word_of_nat v) (word_of_nat b) acc = Some (map ((!) digit_chars) ds @ acc) \<and>
     (\<forall>d \<in> set ds. d < b) \<and> (\<forall>a. digits_val b a ds = a * b ^ length ds + v) \<and> ds \<noteq> [] \<and> length ds \<le> n"
  using assms
proof (induction n arbitrary: v room acc)
  case (Suc n)
  obtain r where r: "room = Suc r" using Suc.prems by (cases room) auto
  have b: "b < 2 ^ 32" "v < 2 ^ 32" using Suc.prems by simp_all
  have m: "unat ((word_of_nat v :: u32) mod word_of_nat b) = v mod b"
    using b by (simp add: unat_mod unat_of_nat32)
  have d: "(word_of_nat v :: u32) div word_of_nat b = word_of_nat (v div b)" by (rule div_of_nat32) (use b in simp_all)
  have z: "(word_of_nat (v div b) :: u32) = 0 \<longleftrightarrow> v div b = 0"
    by (rule of_nat32_zero) (use b(2) div_le_dividend [of v b] in linarith)
  show ?case
  proof (cases "v div b = 0")
    case True
    then have "v < b" using Suc.prems by (simp add: div_eq_0_iff)
    then show ?thesis using z True by (intro exI [of _ "[v]"]) (simp add: r Let_def m d digits_val_def)
  next
    case False
    then have n: "0 < n" using Suc.prems by (cases n) auto
    have q: "v div b < b ^ n" using Suc.prems(3) by (simp add: less_mult_imp_div_less mult.commute)
    have "v div b < 2 ^ 32" using Suc.prems(6) by (meson div_le_dividend le_less_trans)
    then obtain ds where ds: "ultoa_loop r (word_of_nat (v div b)) (word_of_nat b) (digit_chars ! (v mod b) # acc) =
        Some (map ((!) digit_chars) ds @ digit_chars ! (v mod b) # acc)" "\<forall>d \<in> set ds. d < b"
        "\<forall>a. digits_val b a ds = a * b ^ length ds + v div b" "length ds \<le> n"
      using Suc.IH [OF Suc.prems(1,2) q, of r] n Suc.prems r by fastforce
    have "digits_val b a (ds @ [v mod b]) = a * b ^ length (ds @ [v mod b]) + v" for a
      using ds(3) by (simp add: digits_val_def distrib_right)
    then show ?thesis
      using ds z False Suc.prems(1) by (intro exI [of _ "ds @ [v mod b]"]) (auto simp: r Let_def m d)
  qed
qed simp

text \<open>
  C39: \<open>strtopaddr\<close> reads back what \<open>ultoa_end\<close> writes, for every value of 32 bits and every base from 2 to 16: the digits
  fit the buffer of 33 bytes, and reading them in the same base ends behind them with the value.
\<close>

theorem ultoa_round_trip:
  assumes "2 \<le> radix" and "radix \<le> 16"
  shows "\<exists>s. ultoa_end v d radix = Some (d @ s) \<and> length s \<le> 32 \<and> strtopaddr s radix = (v, [])"
proof -
  define b where "b = nat radix"
  have b: "radix = int b" "2 \<le> b" "b \<le> 16" using assms by (auto simp: b_def)
  have "unat v < 2 ^ 32" by (rule unat32_less)
  moreover then have "unat v < b ^ 32" using power_mono [of 2 b 32] b by simp
  ultimately obtain ds where ds: "ultoa_loop 32 (word_of_nat (unat v)) (word_of_nat b) [] = Some (map ((!) digit_chars) ds @ [])"
      "\<forall>d \<in> set ds. d < b" "\<forall>a. digits_val b a ds = a * b ^ length ds + unat v" "ds \<noteq> []" "length ds \<le> 32"
    using ultoa_digits [of b "unat v" 32 32 "[]"] b by auto
  let ?s = "map ((!) digit_chars) ds"
  have "digit_chars ! d \<noteq> CHR ''x'' \<and> digit_chars ! d \<noteq> CHR ''X''" if "d \<in> set ds" for d
    using digit_value [of d] ds(2) b that by (force simp: radix_value_def code_def)
  then have "\<not> hexstr ?s" by (auto simp: hexstr_def split: list.splits)
  then have "strtopaddr ?s radix = (v, [])"
    using radix_loop_digits [OF ds(2) b(3), of "[]" 0] ds b by (simp add: strtopaddr_def)
  then show ?thesis using ds b by (intro exI [of _ ?s]) (simp add: ultoa_end_def)
qed

theorem ultoa_round_trip_witness:
  "\<exists>s. ultoa_end 0xdeadbeef ''addr='' 16 = Some (''addr='' @ s) \<and> length s \<le> 32 \<and> strtopaddr s 16 = (0xdeadbeef, [])"
  by (rule ultoa_round_trip) simp_all

subsection \<open>Checksums\<close>

lemma cksum_loop_sum: "cksum_loop (word_of_nat a) bs = word_of_nat (a + sum_list (map unat bs))"
proof (induction bs arbitrary: a)
  case (Cons c bs)
  have "ucast c = (word_of_nat (unat c) :: u32)" by simp
  then show ?case using Cons [of "a + unat c"] by (simp add: add.assoc)
qed simp

lemma low_byte: "(word_of_nat n :: u32) AND 0xff = word_of_nat (n mod 256)"
proof -
  have "(word_of_nat n :: u32) AND 0xff = take_bit 8 (word_of_nat n)" by (simp add: take_bit_eq_mask mask_eq_exp_minus_1)
  also have "\<dots> = word_of_nat (n mod 256)" unfolding take_bit_of_nat by (simp add: take_bit_nat_def)
  finally show ?thesis .
qed

text \<open>
  \<open>calc_cksum\<close> is the sum of the bytes modulo 256, so a block that ends with the byte that complements the rest to
  a multiple of 256, as the images of the boot loader do, has the checksum zero.
\<close>

theorem calc_cksum_correct:
  "calc_cksum bs = word_of_nat (sum_list (map unat bs) mod 256) \<and> calc_cksum (bs @ [- ucast (calc_cksum bs)]) = 0"
proof -
  have s: "calc_cksum xs = word_of_nat (sum_list (map unat xs) mod 256)" for xs
    using cksum_loop_sum [of 0 xs] low_byte by (simp add: calc_cksum_def)
  let ?n = "sum_list (map unat bs)"
  have l: "?n mod 256 < 2 ^ 32" by (rule less_trans [of _ 256]) simp_all
  have "(ucast (calc_cksum bs) :: u8) = word_of_nat ?n"
  proof -
    have "(ucast (calc_cksum bs) :: u8) = ucast (word_of_nat (?n mod 256) :: u32)" using s by simp
    also have "\<dots> = word_of_nat (?n mod 256)"
      by (metis of_nat_unat unat_of_nat32 [OF l])
    also have "\<dots> = word_of_nat ?n" by (simp add: word_of_nat_eq_iff take_bit_nat_def)
    finally show ?thesis .
  qed
  then have "word_of_nat (?n + unat (- ucast (calc_cksum bs) :: u8)) = (0 :: u8)" by simp
  then have "2 ^ LENGTH(8) dvd ?n + unat (- ucast (calc_cksum bs) :: u8)" by (simp only: word_of_nat_eq_0_iff)
  then have "(?n + unat (- ucast (calc_cksum bs) :: u8)) mod 256 = 0" by (simp only: dvd_eq_mod_eq_0) simp
  then show ?thesis using s [of "bs @ [- ucast (calc_cksum bs)]"] s [of bs] by simp
qed

end
