(* ===== verification/Calendar.thy ===== *)
theory Calendar
  imports Rtc_Chip
begin

section \<open>Calendar time\<close>

text \<open>
  \<^verbatim>\<open>calc_time_t.c\<close> and \<^verbatim>\<open>gmtime.c\<close> of the startup library: from a broken-down time to the
  seconds since 1970 and back. \<open>unsigned long\<close> and \<open>time_t\<close> have 32 bits. An index out of the range of
  the table of the months, which is undefined in C, gives \<open>None\<close>.
\<close>

definition SEC_PER_MIN :: u32 where "SEC_PER_MIN = 60"
definition SEC_PER_HOUR :: u32 where "SEC_PER_HOUR = 60 * SEC_PER_MIN"
definition SEC_PER_DAY :: u32 where "SEC_PER_DAY = 24 * SEC_PER_HOUR"

definition month_sec :: "u32 list" where
  "month_sec = [0, 2678400, 5097600, 7776000, 10368000, 13046400,
     15638400, 18316800, 20995200, 23587200, 26265600, 28857600]"

definition calc_time_t :: "tm \<Rightarrow> u32 option" where
  "calc_time_t t =
     (if tm_mon t < 0 \<or> tm_mon t \<ge> 12 then None
      else
        let year = u (tm_year t - 70);
            sec = (year * 365 + drop_bit 2 (year + 1)) * SEC_PER_DAY;
            sec = sec + month_sec ! nat (tm_mon t);
            year = u (tm_year t + 1900);
            sec = (if tm_mon t \<ge> 2 \<and> year mod 4 = 0 \<and> (year mod 100 \<noteq> 0 \<or> year mod 400 = 0)
                   then sec + SEC_PER_DAY else sec);
            sec = sec + u (tm_mday t - 1) * SEC_PER_DAY;
            sec = sec + u (tm_hour t) * SEC_PER_HOUR;
            sec = sec + u (tm_min t) * SEC_PER_MIN
        in Some (sec + u (tm_sec t)))"

definition mdays :: "bool \<Rightarrow> nat list" where
  "mdays leap = [31, if leap then 29 else 28, 31, 30, 31, 30, 31, 31, 30, 31, 30, 31]"

definition leap4 :: "nat \<Rightarrow> bool" where
  "leap4 year \<longleftrightarrow> (year + 2) mod 4 = 0"

definition year_days :: "nat \<Rightarrow> nat" where
  "year_days year = 365 + (if leap4 year then 1 else 0)"

function gm_year :: "nat \<Rightarrow> nat \<Rightarrow> nat \<times> nat" where
  \<comment> \<open>the loop over the years: the year (from 1970) and the day in it\<close>
  "gm_year year days = (if year_days year > days then (year, days) else gm_year (year + 1) (days - year_days year))"
  by pat_completeness auto
termination by (relation "measure snd") (auto simp: year_days_def split: if_splits)

declare gm_year.simps [simp del]

primrec gm_mon :: "nat \<Rightarrow> nat list \<Rightarrow> nat \<Rightarrow> nat \<times> nat" where
  \<comment> \<open>the loop over the months: the month and the day in it, counted from zero\<close>
  "gm_mon mon [] days = (mon, days)"
| "gm_mon mon (t # ts) days = (if t > days then (mon, days) else gm_mon (mon + 1) ts (days - t))"

definition gmtime :: "u32 \<Rightarrow> tm \<Rightarrow> tm" where
  "gmtime timer tmbuf =
     (let days = unat timer div (60 * 60 * 24);
          secs = unat timer mod (60 * 60 * 24);
          (year, yday) = gm_year 0 days;
          (mon, mday) = gm_mon 0 (mdays (leap4 year)) yday
      in tmbuf\<lparr>tm_wday := int ((days + 4) mod 7), tm_yday := int yday, tm_sec := int (secs mod 60),
           tm_min := int (secs div 60 mod 60), tm_hour := int (secs div 60 div 60), tm_mday := int (mday + 1),
           tm_mon := int mon, tm_year := int (year + 70)\<rparr>)"

subsection \<open>The two conversions are inverse\<close>

definition days_before :: "nat \<Rightarrow> nat" where
  \<comment> \<open>days from 1970 to the first day of the year\<close>
  "days_before year = year * 365 + (year + 1) div 4"

lemma days_before_Suc: "days_before (Suc y) = days_before y + year_days y"
  by (simp add: days_before_def year_days_def leap4_def) presburger

lemma gm_year_add:
  "d < year_days (k + n) \<Longrightarrow> gm_year k (days_before (k + n) - days_before k + d) = (k + n, d)"
proof (induction n arbitrary: k)
  case 0
  then show ?case by (simp add: gm_year.simps)
next
  case (Suc n)
  have m: "days_before (Suc k) \<le> days_before (Suc k + n)" by (simp add: days_before_def div_le_mono add_mono)
  show ?case
    using Suc.IH [of "Suc k"] Suc.prems m
    by (subst gm_year.simps) (simp add: days_before_Suc)
qed

lemma gm_year_inverse: "d < year_days y \<Longrightarrow> gm_year 0 (days_before y + d) = (y, d)"
  using gm_year_add [of d 0 y] by (simp add: days_before_def)

lemma gm_year_spec: "gm_year 0 days = (y, d) \<Longrightarrow> d < year_days y \<and> days = days_before y + d"
proof -
  have "gm_year k n = (y, d) \<Longrightarrow> d < year_days y \<and> n + days_before k = days_before y + d" for k n
  proof (induction k n rule: gm_year.induct)
    case (1 year days)
    then show ?case
      using gm_year.simps [of year days] by (auto simp: days_before_Suc split: if_splits)
  qed
  from this [of 0 days] show "gm_year 0 days = (y, d) \<Longrightarrow> d < year_days y \<and> days = days_before y + d"
    by (simp add: days_before_def)
qed

lemma gm_mon_inverse:
  "m < length ts \<Longrightarrow> d < ts ! m \<Longrightarrow> gm_mon k ts (sum_list (take m ts) + d) = (k + m, d)"
proof (induction ts arbitrary: m k)
  case (Cons t ts)
  then show ?case by (cases m) auto
qed simp

lemma gm_mon_spec:
  "d < sum_list ts \<Longrightarrow> gm_mon k ts d = (m, e) \<Longrightarrow> k \<le> m \<and> m < k + length ts \<and> e < ts ! (m - k) \<and> d = sum_list (take (m - k) ts) + e"
proof (induction ts arbitrary: d k)
  case (Cons t ts)
  show ?case
  proof (cases "t > d")
    case True
    then show ?thesis using Cons.prems by auto
  next
    case False
    then have "Suc k \<le> m \<and> m < Suc k + length ts \<and> e < ts ! (m - Suc k) \<and> d - t = sum_list (take (m - Suc k) ts) + e"
      using Cons.IH [of "d - t" "Suc k"] Cons.prems by auto
    moreover then have "m - k = Suc (m - Suc k)" by arith
    ultimately show ?thesis using False by auto
  qed
qed simp


lemma leap_rule:
  "\<forall>y \<in> set [0..<131]. (u (int y + 1970) mod 4 = 0 \<and> (u (int y + 1970) mod 100 \<noteq> 0 \<or> u (int y + 1970) mod 400 = 0)) =
     (leap4 y \<and> y \<noteq> 130)"
  by code_simp

lemma month_table:
  assumes "m < 12"
  shows "month_sec ! m + (if 2 \<le> m \<and> l then 86400 else 0) = word_of_nat (sum_list (take m (mdays l)) * 86400)"
proof -
  have "m = 0 \<or> m = 1 \<or> m = 2 \<or> m = 3 \<or> m = 4 \<or> m = 5 \<or> m = 6 \<or> m = 7 \<or> m = 8 \<or> m = 9 \<or> m = 10 \<or> m = 11"
    using assms by arith
  then show ?thesis by (elim disjE; cases l; simp add: month_sec_def mdays_def)
qed

lemma quarter: "drop_bit 2 (word_of_nat n :: u32) = word_of_nat (n div 4)" if "n < 2 ^ 32"
  using that by (simp add: drop_bit_eq_div unat_of_nat word_unat_eq_iff unat_div) 

lemma calc_value:
  assumes "tm_year t = int y + 70" "tm_mon t = int m" "m < 12" "tm_mday t = int d + 1" "tm_hour t = int h"
    "tm_min t = int mi" "tm_sec t = int sc" "y < 130 \<or> y = 130 \<and> m < 2"
  shows "calc_time_t t = Some (word_of_nat ((days_before y + sum_list (take m (mdays (leap4 y))) + d) * 86400 +
     h * 3600 + mi * 60 + sc))"
proof -
  have l: "(u (int y + 1970) mod 4 = 0 \<and> (u (int y + 1970) mod 100 \<noteq> 0 \<or> u (int y + 1970) mod 400 = 0)) =
     (leap4 y \<and> y \<noteq> 130)" by (rule bspec [OF leap_rule]) (use assms(8) in auto)
  have mt: "month_sec ! m + (if 2 \<le> m \<and> leap4 y then 86400 else 0) = word_of_nat (sum_list (take m (mdays (leap4 y))) * 86400)"
    by (rule month_table [OF assms(3)])
  have q: "drop_bit 2 (word_of_nat y + 1 :: u32) = word_of_nat ((y + 1) div 4)"
    using quarter [of "y + 1"] assms(8) by (auto simp: add.commute)
  have c: "(2 \<le> int m \<and> leap4 y \<and> y \<noteq> 130) = (2 \<le> m \<and> leap4 y)" using assms(8) by auto
  have "calc_time_t t = Some ((word_of_nat y * 365 + word_of_nat ((y + 1) div 4)) * 86400 +
     word_of_nat (sum_list (take m (mdays (leap4 y))) * 86400) + word_of_nat d * 86400 + word_of_nat h * 3600 +
     word_of_nat mi * 60 + word_of_nat sc)"
    unfolding mt [symmetric]
    using assms l c q
    by (auto simp: calc_time_t_def SEC_PER_DAY_def SEC_PER_HOUR_def SEC_PER_MIN_def Let_def add.commute)
  then show ?thesis by (simp add: days_before_def algebra_simps)
qed

definition date_ok :: "tm \<Rightarrow> bool" where
  \<comment> \<open>a valid date of the years 1970 to 2099\<close>
  "date_ok t \<longleftrightarrow> tm_ok 70 200 t \<and> tm_mday t \<le> int (mdays (leap4 (nat (tm_year t - 70))) ! nat (tm_mon t))"

lemma mdays_sum: "sum_list (mdays l) = 365 + (if l then 1 else 0)" and mdays_length [simp]: "length (mdays l) = 12"
  by (simp_all add: mdays_def)

lemma clock_parts:
  fixes h mi sc :: nat
  assumes "h < 24" "mi < 60" "sc < 60"
  shows "(n * 86400 + h * 3600 + mi * 60 + sc) div 86400 = n"
    "(n * 86400 + h * 3600 + mi * 60 + sc) mod 86400 div 60 div 60 = h"
    "(n * 86400 + h * 3600 + mi * 60 + sc) mod 86400 div 60 mod 60 = mi"
    "(n * 86400 + h * 3600 + mi * 60 + sc) mod 86400 mod 60 = sc"
proof -
  let ?r = "h * 3600 + mi * 60 + sc"
  have r: "?r < 86400" using assms by linarith
  have e: "n * 86400 + h * 3600 + mi * 60 + sc = n * 86400 + ?r" by simp
  show "(n * 86400 + h * 3600 + mi * 60 + sc) div 86400 = n" unfolding e using r by simp
  have m: "(n * 86400 + ?r) mod 86400 = ?r" using r by simp
  have f: "?r = (h * 60 + mi) * 60 + sc" by simp
  have g: "(a * 60 + sc) mod 60 = sc" for a using assms by simp
  have g': "?r mod 60 = sc" unfolding f by (rule g)
  have d: "?r div 60 = h * 60 + mi" unfolding f using assms by simp
  show "(n * 86400 + h * 3600 + mi * 60 + sc) mod 86400 div 60 div 60 = h"
    "(n * 86400 + h * 3600 + mi * 60 + sc) mod 86400 div 60 mod 60 = mi"
    unfolding e m d using assms by simp_all
  show "(n * 86400 + h * 3600 + mi * 60 + sc) mod 86400 mod 60 = sc"
    unfolding e m by (rule g')
qed

lemma gmtime_value:
  assumes "unat s = n * 86400 + h * 3600 + mi * 60 + sc" "h < 24" "mi < 60" "sc < 60"
    "gm_year 0 n = (y, yd)" "gm_mon 0 (mdays (leap4 y)) yd = (m, d)"
  shows "gmtime s t0 = t0\<lparr>tm_wday := int ((n + 4) mod 7), tm_yday := int yd, tm_sec := int sc, tm_min := int mi,
     tm_hour := int h, tm_mday := int d + 1, tm_mon := int m, tm_year := int y + 70\<rparr>"
  using assms(5,6) by (simp add: gmtime_def assms(1) clock_parts [OF assms(2-4)] Let_def)

lemma take_sum_less:
  assumes "m < length ts" "d < ts ! m"
  shows "sum_list (take m ts) + d < sum_list (ts :: nat list)"
proof -
  have "sum_list ts = sum_list (take m ts) + (ts ! m + sum_list (drop (Suc m) ts))"
    by (metis append_take_drop_id sum_list_append Cons_nth_drop_Suc [OF assms(1)] sum_list.Cons)
  then show ?thesis using assms(2) by simp
qed

lemma gmtime_calc:
  assumes "date_ok t"
  shows "\<exists>s. calc_time_t t = Some s \<and> copy_time (gmtime s t0) t1 = copy_time t t1"
proof -
  define y m d h mi sc where v: "y = nat (tm_year t - 70)" "m = nat (tm_mon t)" "d = nat (tm_mday t - 1)" "h = nat (tm_hour t)"
    "mi = nat (tm_min t)" "sc = nat (tm_sec t)"
  have t: "tm_ok 70 200 t" and md: "tm_mday t \<le> int (mdays (leap4 y) ! m)" using assms by (auto simp: date_ok_def v)
  have b: "y < 130" "m < 12" "h < 24" "mi < 60" "sc < 60" "d < mdays (leap4 y) ! m"
    using t md by (auto simp: tm_ok_def v)
  have f: "tm_year t = int y + 70" "tm_mon t = int m" "tm_mday t = int d + 1" "tm_hour t = int h" "tm_min t = int mi" "tm_sec t = int sc"
    using t by (auto simp: tm_ok_def v)
  let ?yd = "sum_list (take m (mdays (leap4 y))) + d"
  let ?days = "days_before y + ?yd"
  let ?n = "(days_before y + sum_list (take m (mdays (leap4 y))) + d) * 86400 + h * 3600 + mi * 60 + sc"
  have yd: "?yd < year_days y"
    using take_sum_less [of m "mdays (leap4 y)" d] b by (simp add: mdays_sum year_days_def)
  have "days_before y \<le> 47483" using b(1) by (simp add: days_before_def)
  then have n: "?n < 2 ^ 32" using yd b by (auto simp: year_days_def split: if_splits)
  have s: "calc_time_t t = Some (word_of_nat ?n)" using calc_value [OF f(1,2) b(2) f(3-6)] b(1) by blast
  have un: "unat (word_of_nat ?n :: u32) = ?n" unfolding unsigned_of_nat of_nat_id by (rule take_bit_nat_eq_self) (use n in simp)
  have gy: "gm_year 0 (days_before y + sum_list (take m (mdays (leap4 y))) + d) = (y, ?yd)"
    using gm_year_inverse [OF yd] by (simp add: add.assoc)
  have gm: "gm_mon 0 (mdays (leap4 y)) ?yd = (m, d)" using gm_mon_inverse [of m "mdays (leap4 y)" d 0] b by simp
  have "copy_time (gmtime (word_of_nat ?n) t0) t1 = copy_time t t1"
    unfolding gmtime_value [OF un b(3-5) gy gm] by (simp add: copy_time_def f)
  then show ?thesis using s by blast
qed

definition utc_seconds :: "tm \<Rightarrow> int" where
  \<comment> \<open>the seconds from 1970 to the date and time of day, read as UTC\<close>
  "utc_seconds t =
     (let y = nat (tm_year t - 70)
      in (int (days_before y + sum_list (take (nat (tm_mon t)) (mdays (leap4 y)))) + tm_mday t - 1) * 86400 +
         tm_hour t * 3600 + tm_min t * 60 + tm_sec t)"

lemma calc_time_t_seconds:
  assumes "date_ok t"
  shows "calc_time_t t = Some (word_of_int (utc_seconds t))"
proof -
  define y m d h mi sc where v: "y = nat (tm_year t - 70)" "m = nat (tm_mon t)" "d = nat (tm_mday t - 1)" "h = nat (tm_hour t)"
    "mi = nat (tm_min t)" "sc = nat (tm_sec t)"
  have t: "tm_ok 70 200 t" using assms by (auto simp: date_ok_def v)
  have f: "tm_year t = int y + 70" "tm_mon t = int m" "tm_mday t = int d + 1" "tm_hour t = int h" "tm_min t = int mi" "tm_sec t = int sc"
    and b: "m < 12" "y < 130" using t by (auto simp: tm_ok_def v)
  have "utc_seconds t = int ((days_before y + sum_list (take m (mdays (leap4 y))) + d) * 86400 + h * 3600 + mi * 60 + sc)"
    unfolding utc_seconds_def Let_def f by simp
  then show ?thesis using calc_value [OF f(1,2) b(1) f(3-6)] b(2) by simp
qed

text \<open>
  C36: for a valid date of the years 1970 to 2099, \<open>calc_time_t\<close> gives a number of seconds from which \<open>gmtime\<close> recovers the
  date and the time of day.
\<close>

theorem gmtime_calc_time_t:
  assumes "date_ok t"
  shows "\<exists>s. calc_time_t t = Some s \<and> copy_time (gmtime s t0) t1 = copy_time t t1"
  using assms by (rule gmtime_calc)

theorem gmtime_calc_time_t_witness:
  "date_ok demo_tm \<and> (\<exists>s. calc_time_t demo_tm = Some s \<and> copy_time (gmtime s demo_tm) demo_tm = demo_tm)"
proof -
  have d: "date_ok demo_tm" by (simp add: date_ok_def tm_ok_def demo_tm_def leap4_def mdays_def)
  have "copy_time demo_tm demo_tm = demo_tm" by (simp add: copy_time_def)
  then show ?thesis using gmtime_calc_time_t [OF d, of demo_tm demo_tm] d by simp
qed

text \<open>
  \<open>calc_time_t\<close> is the inverse of \<open>gmtime\<close> on every number of seconds up to the end of February 2100, all intermediate
  results of 32 bits included.
\<close>

theorem calc_time_t_gmtime:
  assumes "s < 4107628800"
  shows "calc_time_t (gmtime s t0) = Some s"
proof -
  obtain y yd where gy: "gm_year 0 (unat s div 86400) = (y, yd)" by fastforce
  then have yd: "yd < year_days y" "unat s div 86400 = days_before y + yd" using gm_year_spec by auto
  obtain m d where gm: "gm_mon 0 (mdays (leap4 y)) yd = (m, d)" by fastforce
  have md: "m < 12" "d < mdays (leap4 y) ! m" "yd = sum_list (take m (mdays (leap4 y))) + d"
    using gm_mon_spec [OF _ gm] yd(1) by (auto simp: mdays_sum year_days_def)
  have "unat s < 4107628800" using assms by (simp add: word_less_nat_alt)
  then have days: "days_before y + yd < 47542" unfolding yd(2) [symmetric] by (intro less_mult_imp_div_less) simp
  have y: "y < 130 \<or> y = 130 \<and> m < 2"
  proof (cases "y < 130")
    case False
    have "days_before 131 \<le> days_before y" if "131 \<le> y"
      unfolding days_before_def using that by (intro add_mono mult_le_mono1 div_le_mono) auto
    then have y: "y = 130" using False days by (cases "131 \<le> y") (auto simp: days_before_def)
    have "m < 2"
    proof (rule ccontr)
      assume "\<not> m < 2"
      then obtain k where k: "m = 2 + k" using le_iff_add [of 2 m] by auto
      have "60 \<le> sum_list (take m (mdays (leap4 y)))"
        by (simp add: k take_add y leap4_def mdays_def)
      then show False using days md(3) y by (simp add: days_before_def)
    qed
    then show ?thesis using y by simp
  qed simp
  let ?r = "unat s mod 86400"
  have f: "tm_year (gmtime s t0) = int y + 70" "tm_mon (gmtime s t0) = int m" "tm_mday (gmtime s t0) = int d + 1"
    "tm_hour (gmtime s t0) = int (?r div 60 div 60)" "tm_min (gmtime s t0) = int (?r div 60 mod 60)" "tm_sec (gmtime s t0) = int (?r mod 60)"
    by (simp_all add: gmtime_def gy gm Let_def)
  have "(days_before y + sum_list (take m (mdays (leap4 y))) + d) * 86400 + ?r = unat s"
    using div_mult_mod_eq [of "unat s" 86400] yd(2) md(3) by (simp only: add.assoc)
  moreover have "?r div 60 div 60 * 3600 + ?r div 60 mod 60 * 60 + ?r mod 60 = ?r"
    using div_mult_mod_eq [of ?r 60] div_mult_mod_eq [of "?r div 60" 60] by linarith
  ultimately have "(days_before y + sum_list (take m (mdays (leap4 y))) + d) * 86400 + ?r div 60 div 60 * 3600 + ?r div 60 mod 60 * 60 + ?r mod 60
    = unat s" by (simp only: add.assoc)
  then show ?thesis using calc_value [OF f(1,2) md(1) f(3-6) y] by simp
qed

theorem calc_time_t_gmtime_witness:
  "calc_time_t (gmtime 1410788730 demo_tm) = Some 1410788730"
  by (rule calc_time_t_gmtime) simp

text \<open>
  The two conversions disagree about the year 2100. \<open>gmtime\<close> takes every fourth year for a leap year, and so does
  \<open>calc_time_t\<close> for the years that have passed, but within a year it knows that 2100 is not one: the second that \<open>gmtime\<close>
  breaks down into 1 March 2100 is taken back to the first second of the day before.
\<close>

theorem calc_time_t_2100:
  "tm_mon (gmtime 4107628800 t0) = 2 \<and> tm_mday (gmtime 4107628800 t0) = 1 \<and> tm_year (gmtime 4107628800 t0) = 200 \<and>
   calc_time_t (gmtime 4107628800 t0) = Some (4107628800 - 86400)"
proof -
  have y: "gm_year 0 47542 = (130, 60)"
    using gm_year_inverse [of 60 130] by (simp add: days_before_def year_days_def leap4_def)
  have m: "gm_mon 0 (mdays (leap4 130)) 60 = (2, 0)" by (simp add: mdays_def leap4_def)
  have g: "gmtime 4107628800 t0 = t0\<lparr>tm_wday := int ((47542 + 4) mod 7), tm_yday := int 60, tm_sec := int 0, tm_min := int 0,
     tm_hour := int 0, tm_mday := int 0 + 1, tm_mon := int 2, tm_year := int 130 + 70\<rparr>"
    by (rule gmtime_value [OF _ _ _ _ y m]) simp_all
  show ?thesis
    unfolding g by (simp add: calc_time_t_def Let_def month_sec_def SEC_PER_DAY_def SEC_PER_HOUR_def SEC_PER_MIN_def)
qed

subsection \<open>The C library\<close>

text \<open>
  The clock utility calls \<open>gmtime\<close> and \<open>mktime\<close> of the C library and reads its variable \<open>timezone\<close>. They depend on the
  time zone of the system and are a parameter, \<open>c_time\<close>. What is relied on is stated in \<open>c_calendar\<close>, as the C library
  documents it: \<open>mktime\<close> of a time in standard time (\<open>tm_isdst\<close> zero) is the number of seconds of its fields plus
  \<open>timezone\<close>, the seconds by which local standard time is behind UTC, when that number can be represented; and \<open>gmtime\<close>
  of the number of seconds of a date is that date. Nothing is said of a time in daylight saving time. Every zone, with the
  functions of the startup library for the arithmetic, is an instance.
\<close>

record c_time =
  c_gmtime :: "u32 \<Rightarrow> tm"
  c_mktime :: "tm \<Rightarrow> u32"
  c_timezone :: int

locale c_calendar =
  fixes C :: c_time
  assumes mktime_standard: "date_ok t \<Longrightarrow> tm_isdst t = 0 \<Longrightarrow> 0 \<le> utc_seconds t + c_timezone C \<Longrightarrow>
      utc_seconds t + c_timezone C < 2 ^ 32 - 1 \<Longrightarrow> uint (c_mktime C t) = utc_seconds t + c_timezone C"
    and gmtime_utc: "date_ok t \<Longrightarrow> copy_time (c_gmtime C (word_of_int (utc_seconds t))) t1 = copy_time t t1"

definition representable :: "c_time \<Rightarrow> tm \<Rightarrow> bool" where
  \<comment> \<open>the time, as local standard time, is one that \<open>time_t\<close> can hold\<close>
  "representable C t \<longleftrightarrow> 0 \<le> utc_seconds t + c_timezone C \<and> utc_seconds t + c_timezone C < 2 ^ 32 - 1"

context c_calendar
begin

lemma gmtime_mktime:
  assumes "date_ok t" and "tm_isdst t = 0" and "representable C t"
  shows "copy_time (c_gmtime C (c_mktime C t - word_of_int (c_timezone C))) t1 = copy_time t t1"
proof -
  have "uint (c_mktime C t) = utc_seconds t + c_timezone C"
    using assms by (intro mktime_standard) (auto simp: representable_def)
  then have "c_mktime C t = word_of_int (utc_seconds t + c_timezone C)" by (metis word_of_int_uint)
  then show ?thesis using gmtime_utc [OF assms(1)] by simp
qed

end

definition epoch_tm :: tm where
  "epoch_tm = \<lparr>tm_sec = 0, tm_min = 0, tm_hour = 0, tm_mday = 1, tm_mon = 0, tm_year = 70, tm_wday = 4, tm_yday = 0, tm_isdst = 0\<rparr>"

definition zone_time :: "int \<Rightarrow> c_time" where
  \<comment> \<open>a zone without daylight saving time\<close>
  "zone_time z =
     \<lparr>c_gmtime = (\<lambda>s. gmtime s epoch_tm),
      c_mktime = (\<lambda>t. case calc_time_t t of None \<Rightarrow> - 1 | Some s \<Rightarrow> s + word_of_int z), c_timezone = z\<rparr>"

interpretation zone: c_calendar "zone_time z" for z
proof
  fix t t1
  assume d: "date_ok t"
  note s = calc_time_t_seconds [OF d]
  show "copy_time (c_gmtime (zone_time z) (word_of_int (utc_seconds t))) t1 = copy_time t t1"
    using gmtime_calc [OF d, of epoch_tm t1] s by (simp add: zone_time_def)
  assume "0 \<le> utc_seconds t + c_timezone (zone_time z)" and "utc_seconds t + c_timezone (zone_time z) < 2 ^ 32 - 1"
  then have r: "0 \<le> utc_seconds t + z" "utc_seconds t + z < 2 ^ 32" by (simp_all add: zone_time_def)
  have "c_mktime (zone_time z) t = word_of_int (utc_seconds t + z)" using s by (simp add: zone_time_def)
  then show "uint (c_mktime (zone_time z) t) = utc_seconds t + c_timezone (zone_time z)"
    using r by (simp only: uint_word_of_int) (simp add: zone_time_def)
qed

end
