(* ===== verification/Rtc_I2c.thy ===== *)
theory Rtc_I2c
  imports Numbers Calendar
begin

section \<open>Drivers of clock chips on the I2C bus\<close>

text \<open>
  \<^verbatim>\<open>utils/r/rtc/clk_*.c\<close> and \<^verbatim>\<open>nto/arm/clk_*.c\<close> for the chips that are reached over the I2C bus. The device of the bus
  is the parameter \<open>i2c_env\<close>: \<open>open\<close> and \<open>close\<close>, and the commands \<open>DCMD_I2C_SENDRECV\<close>, \<open>DCMD_I2C_SEND\<close> and
  \<open>DCMD_I2C_RECV\<close> with the address of the slave, the bytes sent and the number of bytes asked for; a command returns what
  \<open>devctl\<close> returns (zero or an error number) and the bytes received, which may be none. The static variables of the driver are the record
  \<open>i2c_st\<close>. A buffer on the stack is an argument of \<open>get\<close>, so that what is in it before a transfer fails to fill it is
  not assumed to be anything. The interface \<open>i2c_regs\<close> states what the round trips rely on: consecutive
  registers behind the address of the slave.
\<close>

record 'w i2c_env =
  i2c_open :: "string \<Rightarrow> ('w, int) state"
  i2c_close :: "int \<Rightarrow> ('w, unit) state"
  dcmd_sendrecv :: "int \<Rightarrow> u32 \<Rightarrow> u8 list \<Rightarrow> nat \<Rightarrow> ('w, int \<times> u8 list) state"
  dcmd_send :: "int \<Rightarrow> u32 \<Rightarrow> u8 list \<Rightarrow> ('w, int) state"
  dcmd_recv :: "int \<Rightarrow> u32 \<Rightarrow> nat \<Rightarrow> ('w, int \<times> u8 list) state"

record 'w i2c_st =
  fd :: int
  slave :: int
  ctrl_value :: u8
  world :: 'w

definition EOK :: int where "EOK = 0"

definition dev_op :: "('w, 'a) state \<Rightarrow> ('w i2c_st, 'a) state" where
  "dev_op f = State (\<lambda>s. case run_state f (world s) of (r, w) \<Rightarrow> (r, s\<lparr>world := w\<rparr>))"

definition get_fd :: "('w i2c_st, int) state" where "get_fd = State (\<lambda>s. (fd s, s))"
definition set_fd :: "int \<Rightarrow> ('w i2c_st, unit) state" where "set_fd f = State (\<lambda>s. ((), s\<lparr>fd := f\<rparr>))"
definition get_slave :: "('w i2c_st, int) state" where "get_slave = State (\<lambda>s. (slave s, s))"
definition set_slave :: "int \<Rightarrow> ('w i2c_st, unit) state" where "set_slave a = State (\<lambda>s. ((), s\<lparr>slave := a\<rparr>))"
definition get_ctrl :: "('w i2c_st, u8) state" where "get_ctrl = State (\<lambda>s. (ctrl_value s, s))"
definition set_ctrl :: "u8 \<Rightarrow> ('w i2c_st, unit) state" where "set_ctrl v = State (\<lambda>s. ((), s\<lparr>ctrl_value := v\<rparr>))"

definition fill_buf :: "nat \<Rightarrow> u8 list \<Rightarrow> u8 list \<Rightarrow> u8 list" where
  \<comment> \<open>a buffer after at most \<open>num\<close> bytes were received into it\<close>
  "fill_buf num bs val = take num bs @ drop (length (take num bs)) val"

definition reg_read :: "'w i2c_env \<Rightarrow> u32 \<Rightarrow> u8 list \<Rightarrow> u8 list \<Rightarrow> nat \<Rightarrow> ('w i2c_st, int \<times> u8 list) state" where
  \<comment> \<open>send the number of the register, receive into the buffer: the status and the buffer\<close>
  "reg_read I addr send val num =
     do {
       f \<leftarrow> get_fd;
       (st, bs) \<leftarrow> dev_op (dcmd_sendrecv I f addr send num);
       ret (st, fill_buf num bs val)
     }"

definition reg_write :: "'w i2c_env \<Rightarrow> u32 \<Rightarrow> u8 list \<Rightarrow> u8 list \<Rightarrow> nat \<Rightarrow> ('w i2c_st, int) state" where
  "reg_write I addr send val num =
     do { f \<leftarrow> get_fd; dev_op (dcmd_send I f addr (send @ take num val)) }"

definition open_bus :: "'w i2c_env \<Rightarrow> string option \<Rightarrow> string \<Rightarrow> ('w i2c_st, int) state" where
  \<comment> \<open>\<open>fd = open((argv && argv[0] && argv[0][0]) ? argv[0] : devname, O_RDWR)\<close> and the result of \<open>init\<close>\<close>
  "open_bus I argv devname =
     do {
       f \<leftarrow> dev_op (i2c_open I (case argv of Some a \<Rightarrow> if a \<noteq> [] then a else devname | None \<Rightarrow> devname));
       set_fd f;
       ret (if f < 0 then - 1 else 0)
     }"

abbreviation at :: "u8 list \<Rightarrow> nat \<Rightarrow> u32" where
  \<comment> \<open>an element of a buffer, promoted to \<open>int\<close>\<close>
  "at date i \<equiv> ucast (date ! i)"

abbreviation bcd :: "u32 \<Rightarrow> int" where
  "bcd x \<equiv> sint (BCD2BIN x)"

abbreviation bin8 :: "int \<Rightarrow> u8" where
  \<comment> \<open>\<open>BIN2BCD\<close> stored to an \<open>unsigned char\<close>\<close>
  "bin8 x \<equiv> word_of_int (BIN2BCD x)"

subsection \<open>M41T00\<close>

definition m41t00_i2c_read :: "'w i2c_env \<Rightarrow> u8 \<Rightarrow> u8 list \<Rightarrow> nat \<Rightarrow> ('w i2c_st, int \<times> u8 list) state" where
  "m41t00_i2c_read I reg val num = reg_read I 0x68 [reg] val num"

definition m41t00_i2c_write :: "'w i2c_env \<Rightarrow> u8 \<Rightarrow> u8 list \<Rightarrow> nat \<Rightarrow> ('w i2c_st, int) state" where
  "m41t00_i2c_write I reg val num = reg_write I 0x68 [reg] val num"

definition init_m41t00 :: "'w i2c_env \<Rightarrow> string option \<Rightarrow> ('w i2c_st, int) state" where
  "init_m41t00 I argv = open_bus I argv ''/dev/i2c0''"

definition m41t00_tm :: "u8 list \<Rightarrow> tm \<Rightarrow> tm" where
  "m41t00_tm date t =
     (let y = bcd (at date 6);
          y' = (if at date 2 AND 0x80 \<noteq> 0
                then if at date 2 AND 0x40 \<noteq> 0 then if y < 70 then y + 200 else y
                     else y + 100
                else if y < 70 then y + 100 else y)
      in t\<lparr>tm_sec := bcd (at date 0 AND NOT 0x80), tm_min := bcd (at date 1),
           tm_hour := bcd (at date 2 AND NOT (0x80 OR 0x40)), tm_mday := bcd (at date 4),
           tm_mon := bcd (at date 5) - 1, tm_year := y', tm_wday := bcd (at date 3) - 1\<rparr>)"

definition get_m41t00 :: "'w i2c_env \<Rightarrow> u8 list \<Rightarrow> int \<Rightarrow> tm \<Rightarrow> ('w i2c_st, int \<times> tm) state" where
  "get_m41t00 I date cent_reg t =
     do { (st, date) \<leftarrow> m41t00_i2c_read I 0 date 7; ret (0, m41t00_tm date t) }"

definition m41t00_date :: "tm \<Rightarrow> u8 list" where
  "m41t00_date t =
     (let century = word_of_int (tm_year t sdiv 100 - 1) :: u8;
          hour = bin8 (tm_hour t) OR 0x80;
          hour = (if century \<noteq> 0 then hour OR 0x40 else hour)
      in [bin8 (tm_sec t), bin8 (tm_min t), hour, bin8 (tm_wday t + 1), bin8 (tm_mday t), bin8 (tm_mon t + 1),
          bin8 (tm_year t smod 100)])"

definition set_m41t00 :: "'w i2c_env \<Rightarrow> int \<Rightarrow> tm \<Rightarrow> ('w i2c_st, int) state" where
  "set_m41t00 I cent_reg t = do { st \<leftarrow> m41t00_i2c_write I 0 (m41t00_date t) 7; ret 0 }"

subsection \<open>M41T6x\<close>

definition m41t6x_i2c_read :: "'w i2c_env \<Rightarrow> u8 \<Rightarrow> u8 list \<Rightarrow> nat \<Rightarrow> ('w i2c_st, int \<times> u8 list) state" where
  "m41t6x_i2c_read I reg val num = reg_read I 0x68 [reg] val num"

definition m41t6x_i2c_write :: "'w i2c_env \<Rightarrow> u8 \<Rightarrow> u8 list \<Rightarrow> nat \<Rightarrow> ('w i2c_st, int) state" where
  "m41t6x_i2c_write I reg val num = reg_write I 0x68 [reg] val num"

definition init_m41t6x :: "'w i2c_env \<Rightarrow> string option \<Rightarrow> ('w i2c_st, int) state" where
  "init_m41t6x I argv = open_bus I argv ''/dev/i2c0''"

definition m41t6x_tm :: "u8 list \<Rightarrow> tm \<Rightarrow> tm" where
  "m41t6x_tm date t =
     (let y = bcd (at date 6);
          cb = at date 5 AND 0xC0;
          y' = (if cb = 0x00 then y + 100 else if cb = 0x40 then y + 200 else if cb = 0x80 then y + 300
                else if cb = 0xC0 then y + 400 else y)
      in t\<lparr>tm_sec := bcd (at date 0 AND NOT 0x80), tm_min := bcd (at date 1 AND NOT 0x80),
           tm_hour := bcd (at date 2 AND 0x3F), tm_mday := bcd (at date 4 AND 0x3F),
           tm_mon := bcd (at date 5 AND 0x1F) - 1, tm_year := y', tm_wday := bcd (at date 3 AND 0x07) - 1\<rparr>)"

definition get_m41t6x :: "'w i2c_env \<Rightarrow> u8 list \<Rightarrow> int \<Rightarrow> tm \<Rightarrow> ('w i2c_st, int \<times> tm) state" where
  "get_m41t6x I date cent_reg t =
     do { (st, date) \<leftarrow> m41t6x_i2c_read I 1 date 7; ret (0, m41t6x_tm date t) }"

definition m41t6x_date :: "tm \<Rightarrow> u8 list" where
  "m41t6x_date t =
     (let century = word_of_int (tm_year t sdiv 100 - 1) :: u8
      in [bin8 (tm_sec t), bin8 (tm_min t), bin8 (tm_hour t), bin8 (tm_wday t + 1), bin8 (tm_mday t),
          bin8 (tm_mon t + 1) OR push_bit 6 century, bin8 (tm_year t smod 100)])"

definition set_m41t6x :: "'w i2c_env \<Rightarrow> int \<Rightarrow> tm \<Rightarrow> ('w i2c_st, int) state" where
  "set_m41t6x I cent_reg t = do { st \<leftarrow> m41t6x_i2c_write I 1 (m41t6x_date t) 7; ret 0 }"

subsection \<open>S-35390A\<close>

definition flip_byte :: "u8 \<Rightarrow> u8" where
  \<comment> \<open>the loop over the bits: \<open>temp1 |= ((val[i] >> j) & 1) << (7 - j)\<close>\<close>
  "flip_byte v = fold (\<lambda>j temp1. temp1 OR push_bit (7 - j) (drop_bit j v AND 1)) [0..<8] 0"

definition s35390_fixup :: "u8 list \<Rightarrow> nat \<Rightarrow> u8 list" where
  "s35390_fixup val num = map flip_byte (take num val) @ drop num val"

definition s35390_i2c_read :: "'w i2c_env \<Rightarrow> u8 list \<Rightarrow> u8 \<Rightarrow> u8 list \<Rightarrow> nat \<Rightarrow> ('w i2c_st, int \<times> u8 list) state" where
  \<comment> \<open>the second argument is what the receive buffer holds before\<close>
  "s35390_i2c_read I rbuf reg val num =
     do {
       f \<leftarrow> get_fd;
       (st, bs) \<leftarrow> dev_op (dcmd_recv I f (0x30 + ucast reg) num);
       ret (if st \<noteq> EOK then (- 1, val) else (0, take num (fill_buf num bs rbuf) @ drop num val))
     }"

definition s35390_i2c_write :: "'w i2c_env \<Rightarrow> u8 \<Rightarrow> u8 list \<Rightarrow> nat \<Rightarrow> ('w i2c_st, int) state" where
  "s35390_i2c_write I reg val num =
     do {
       f \<leftarrow> get_fd;
       st \<leftarrow> dev_op (dcmd_send I f (0x30 + ucast reg) (take num val));
       ret (if st \<noteq> EOK then - 1 else 0)
     }"

definition init_s35390 :: "'w i2c_env \<Rightarrow> string option \<Rightarrow> ('w i2c_st, int) state" where
  "init_s35390 I argv = open_bus I argv ''/dev/i2c1''"

definition s35390_tm :: "u8 list \<Rightarrow> u8 \<Rightarrow> tm \<Rightarrow> tm" where
  "s35390_tm date status t =
     (let h = bcd (at date 4 AND 0x3f);
          h' = (if ucast status AND (0x02 :: u32) = 0 \<and> at date 4 AND 0x40 \<noteq> 0 then h + 12 else h);
          y = bcd (at date 0)
      in t\<lparr>tm_sec := bcd (at date 6), tm_min := bcd (at date 5), tm_hour := h', tm_mday := bcd (at date 2),
           tm_mon := bcd (at date 1) - 1, tm_year := (if y < 70 then y + 100 else y), tm_wday := bcd (at date 3)\<rparr>)"

definition get_s35390 :: "'w i2c_env \<Rightarrow> u8 list \<Rightarrow> int \<Rightarrow> tm \<Rightarrow> ('w i2c_st, int \<times> tm) state" where
  "get_s35390 I buf cent_reg t =
     do {
       (st, date) \<leftarrow> s35390_i2c_read I buf 2 buf 7;
       if st \<noteq> 0 then ret (- 1, t)
       else do {
         let date = s35390_fixup date 7;
         (st, status) \<leftarrow> s35390_i2c_read I buf 0 [0] 1;
         if st \<noteq> 0 then ret (- 1, t)
         else ret (0, s35390_tm date (hd (s35390_fixup status 1)) t)
       }
     }"

definition s35390_date :: "u8 \<Rightarrow> tm \<Rightarrow> u8 list" where
  "s35390_date status t =
     (let hour = (if ucast status AND (0x02 :: u32) \<noteq> 0 then bin8 (tm_hour t)
                  else if tm_hour t < 12 then bin8 (tm_hour t) else 0x40 OR bin8 (tm_hour t - 12))
      in [bin8 (tm_year t smod 100), bin8 (tm_mon t + 1), bin8 (tm_mday t), bin8 (tm_wday t), hour,
          bin8 (tm_min t), bin8 (tm_sec t)])"

definition set_s35390 :: "'w i2c_env \<Rightarrow> u8 list \<Rightarrow> int \<Rightarrow> tm \<Rightarrow> ('w i2c_st, int) state" where
  "set_s35390 I buf cent_reg t =
     do {
       (st, status) \<leftarrow> s35390_i2c_read I buf 0 [0] 1;
       if st \<noteq> 0 then ret (- 1)
       else do {
         st \<leftarrow> s35390_i2c_write I 2 (s35390_fixup (s35390_date (hd (s35390_fixup status 1)) t) 7) 7;
         ret (if st \<noteq> EOK then - 1 else 0)
       }
     }"

subsection \<open>MCP7940N\<close>

definition mcp7940n_i2c_read :: "'w i2c_env \<Rightarrow> u8 \<Rightarrow> u8 list \<Rightarrow> nat \<Rightarrow> ('w i2c_st, int \<times> u8 list) state" where
  "mcp7940n_i2c_read I reg val num = reg_read I 0x6f [reg] val num"

definition mcp7940n_i2c_write :: "'w i2c_env \<Rightarrow> u8 \<Rightarrow> u8 list \<Rightarrow> nat \<Rightarrow> ('w i2c_st, int) state" where
  "mcp7940n_i2c_write I reg val num = reg_write I 0x6f [reg] val num"

definition init_mcp7940n :: "'w i2c_env \<Rightarrow> string option \<Rightarrow> ('w i2c_st, int) state" where
  "init_mcp7940n I argv = open_bus I argv ''/dev/i2c0''"

definition mcp7940n_tm :: "u8 list \<Rightarrow> tm \<Rightarrow> tm" where
  "mcp7940n_tm date t =
     (let h =
         (if at date 2 AND 0x40 \<noteq> 0
               then let hour = bcd (at date 2 AND 0x1f)
                    in if at date 2 AND 0x20 \<noteq> 0 then if hour = 12 then 12 else hour + 12
                       else if hour = 12 then 0 else hour
               else bcd (at date 2 AND 0x3f));
          y = bcd (at date 6 AND 0xff)
      in t\<lparr>tm_sec := bcd (at date 0 AND 0x7f), tm_min := bcd (at date 1 AND 0x7f), tm_hour := h,
           tm_mday := bcd (at date 4 AND 0x3f), tm_mon := bcd (at date 5 AND 0x1f) - 1,
           tm_year := (if y < 70 then y + 100 else y), tm_wday := bcd (at date 3 AND 0x7) - 1\<rparr>)"

definition get_mcp7940n :: "'w i2c_env \<Rightarrow> u8 list \<Rightarrow> int \<Rightarrow> tm \<Rightarrow> ('w i2c_st, int \<times> tm) state" where
  "get_mcp7940n I date cent_reg t =
     do {
       (st, date) \<leftarrow> mcp7940n_i2c_read I 0 date 7;
       (st, date) \<leftarrow> (if st < 0 then mcp7940n_i2c_read I 0 date 7 else ret (st, date));
       if st < 0 then ret (st, t) else ret (0, mcp7940n_tm date t)
     }"

definition mcp7940n_date :: "u8 list \<Rightarrow> tm \<Rightarrow> u8 list" where
  \<comment> \<open>from the registers read before, of which the seconds, the day and the control register matter\<close>
  "mcp7940n_date old t =
     (let off = at old 0 AND 0x80 = 0 \<and> at old 7 AND 0x08 = 0;
          sec = (if off then old ! 0 OR 0x80 else old ! 0);
          day = (if off then old ! 3 OR 0x08 else old ! 3)
      in [bin8 (tm_sec t) OR (sec AND 0x80), bin8 (tm_min t), bin8 (tm_hour t), bin8 (tm_wday t + 1) OR (day AND 0x08),
          bin8 (tm_mday t), bin8 (tm_mon t + 1), bin8 (tm_year t smod 100), old ! 7])"

definition set_mcp7940n :: "'w i2c_env \<Rightarrow> u8 list \<Rightarrow> int \<Rightarrow> tm \<Rightarrow> ('w i2c_st, int) state" where
  "set_mcp7940n I date cent_reg t =
     do {
       (st, date) \<leftarrow> mcp7940n_i2c_read I 0 date 8;
       if st < 0 then ret st else mcp7940n_i2c_write I 0 (mcp7940n_date date t) 7
     }"

subsection \<open>MAX8925\<close>

definition max8925_i2c_read :: "'w i2c_env \<Rightarrow> u8 \<Rightarrow> u8 list \<Rightarrow> nat \<Rightarrow> ('w i2c_st, int \<times> u8 list) state" where
  "max8925_i2c_read I reg val num = reg_read I 0x68 [reg] val num"

definition max8925_i2c_write :: "'w i2c_env \<Rightarrow> u8 \<Rightarrow> u8 list \<Rightarrow> nat \<Rightarrow> ('w i2c_st, int) state" where
  "max8925_i2c_write I reg val num = reg_write I 0x68 [reg] val num"

definition init_max8925 :: "'w i2c_env \<Rightarrow> string option \<Rightarrow> ('w i2c_st, int) state" where
  "init_max8925 I argv = open_bus I argv ''/dev/i2c0''"

definition max8925_tm :: "u8 list \<Rightarrow> tm \<Rightarrow> tm" where
  "max8925_tm date t =
     t\<lparr>tm_sec := bcd (at date 0 AND 0x7F), tm_min := bcd (at date 1 AND 0x7F), tm_hour := bcd (at date 2 AND 0xBF),
       tm_wday := bcd (at date 3 AND 0x07) - 1, tm_mday := bcd (at date 4 AND 0x3F),
       tm_mon := bcd (at date 5 AND 0x1F) - 1, tm_year := bcd (at date 6) + 100 * bcd (at date 7) - 1900\<rparr>"

definition get_max8925 :: "'w i2c_env \<Rightarrow> u8 list \<Rightarrow> int \<Rightarrow> tm \<Rightarrow> ('w i2c_st, int \<times> tm) state" where
  "get_max8925 I date cent_reg t =
     do {
       (st, date) \<leftarrow> max8925_i2c_read I 0 date 8;
       ret (if EOK \<noteq> st then (- 1, t) else (0, max8925_tm date t))
     }"

definition max8925_date :: "tm \<Rightarrow> u8 list" where
  "max8925_date t =
     [bin8 (tm_sec t), bin8 (tm_min t), bin8 (tm_hour t), bin8 (tm_wday t + 1), bin8 (tm_mday t), bin8 (tm_mon t + 1),
      bin8 ((tm_year t + 1900) smod 100), bin8 ((tm_year t + 1900) sdiv 100)]"

definition set_max8925 :: "'w i2c_env \<Rightarrow> int \<Rightarrow> tm \<Rightarrow> ('w i2c_st, int) state" where
  "set_max8925 I cent_reg t =
     do { st \<leftarrow> max8925_i2c_write I 0 (max8925_date t) 8; ret (if EOK \<noteq> st then - 1 else 0) }"

subsection \<open>MC9S08DZ60\<close>

definition mc9s08dz60_i2c_read :: "'w i2c_env \<Rightarrow> u8 \<Rightarrow> u8 list \<Rightarrow> nat \<Rightarrow> ('w i2c_st, int \<times> u8 list) state" where
  "mc9s08dz60_i2c_read I reg val num = reg_read I 0x69 [reg] val num"

definition mc9s08dz60_i2c_write :: "'w i2c_env \<Rightarrow> u8 \<Rightarrow> u8 list \<Rightarrow> nat \<Rightarrow> ('w i2c_st, int) state" where
  "mc9s08dz60_i2c_write I reg val num = reg_write I 0x69 [reg] val num"

definition init_mc9s08dz60 :: "'w i2c_env \<Rightarrow> u8 \<Rightarrow> string option \<Rightarrow> ('w i2c_st, int) state" where
  \<comment> \<open>the second argument is what the variable for the control register holds before\<close>
  "init_mc9s08dz60 I ctrl argv =
     do {
       r \<leftarrow> open_bus I argv ''/dev/i2c0'';
       if r < 0 then ret (- 1)
       else do {
         f \<leftarrow> get_fd;
         (st, c) \<leftarrow> mc9s08dz60_i2c_read I 2 [ctrl] 1;
         if st \<noteq> EOK then do { dev_op (i2c_close I f); ret (- 1) }
         else do {
           st \<leftarrow> mc9s08dz60_i2c_write I 2 [hd c OR 0x80] 1;
           if st \<noteq> EOK then do { dev_op (i2c_close I f); ret (- 1) } else ret 0
         }
       }
     }"

definition mc9s08dz60_tm :: "u8 list \<Rightarrow> tm \<Rightarrow> tm" where
  "mc9s08dz60_tm date t =
     (let y = bcd (at date 6)
      in t\<lparr>tm_sec := bcd (at date 0 AND 0x7f), tm_min := bcd (at date 1 AND 0x7f), tm_hour := bcd (at date 2 AND 0x3f),
           tm_mday := bcd (at date 4 AND 0x3f) + 1, tm_mon := bcd (at date 5 AND 0x1f),
           tm_year := (if y < 70 then y + 100 else y), tm_wday := bcd (at date 3 AND 0x7) - 1\<rparr>)"

definition get_mc9s08dz60 :: "'w i2c_env \<Rightarrow> u8 list \<Rightarrow> int \<Rightarrow> tm \<Rightarrow> ('w i2c_st, int \<times> tm) state" where
  "get_mc9s08dz60 I date cent_reg t =
     do {
       (st, date) \<leftarrow> mc9s08dz60_i2c_read I 2 date 7;
       ret (if st \<noteq> 0 then (- 1, t) else (0, mc9s08dz60_tm date t))
     }"

definition mc9s08dz60_date :: "tm \<Rightarrow> u8 list" where
  "mc9s08dz60_date t =
     [bin8 (tm_sec t) OR 0x80, bin8 (tm_min t), bin8 (tm_hour t), bin8 (tm_wday t + 1), bin8 (tm_mday t - 1),
      bin8 (tm_mon t), bin8 (tm_year t smod 100)]"

definition set_mc9s08dz60 :: "'w i2c_env \<Rightarrow> int \<Rightarrow> tm \<Rightarrow> ('w i2c_st, int) state" where
  "set_mc9s08dz60 I cent_reg t =
     do { st \<leftarrow> mc9s08dz60_i2c_write I 2 (mc9s08dz60_date t) 7; ret (if st \<noteq> EOK then - 1 else 0) }"

subsection \<open>DS3232\<close>

definition ds3232_i2c_read :: "'w i2c_env \<Rightarrow> u8 \<Rightarrow> u8 list \<Rightarrow> nat \<Rightarrow> ('w i2c_st, int \<times> u8 list) state" where
  "ds3232_i2c_read I reg val num = reg_read I 0x68 [reg] val num"

definition ds3232_i2c_write :: "'w i2c_env \<Rightarrow> u8 \<Rightarrow> u8 list \<Rightarrow> nat \<Rightarrow> ('w i2c_st, int) state" where
  "ds3232_i2c_write I reg val num = reg_write I 0x68 [reg] val num"

definition init_ds3232 :: "'w i2c_env \<Rightarrow> string option \<Rightarrow> ('w i2c_st, int) state" where
  "init_ds3232 I argv = open_bus I argv ''/dev/i2c1''"

definition ds3232_tm :: "u8 list \<Rightarrow> tm \<Rightarrow> tm" where
  "ds3232_tm date t =
     (let h =
         (if at date 2 AND 0x40 \<noteq> 0
               then let hour = bcd (at date 2 AND 0x1f)
                    in if at date 2 AND 0x20 \<noteq> 0 then if hour = 12 then 12 else hour + 12
                       else if hour = 12 then 0 else hour
               else bcd (at date 2 AND 0x3f));
          y = bcd (at date 6 AND 0xff)
      in t\<lparr>tm_sec := bcd (at date 0 AND 0x7f), tm_min := bcd (at date 1 AND 0x7f), tm_hour := h,
           tm_mday := bcd (at date 4 AND 0x3f), tm_mon := bcd (at date 5 AND 0x1f) - 1,
           tm_year := (if at date 5 AND 0x80 \<noteq> 0 then y + 100 else y), tm_wday := bcd (at date 3 AND 0x7) - 1\<rparr>)"

definition get_ds3232 :: "'w i2c_env \<Rightarrow> u8 list \<Rightarrow> int \<Rightarrow> tm \<Rightarrow> ('w i2c_st, int \<times> tm) state" where
  "get_ds3232 I date cent_reg t = do { (st, date) \<leftarrow> ds3232_i2c_read I 0 date 7; ret (0, ds3232_tm date t) }"

definition ds3232_date :: "tm \<Rightarrow> u8 list" where
  "ds3232_date t =
     (let month = bin8 (tm_mon t + 1)
      in [bin8 (tm_sec t), bin8 (tm_min t), bin8 (tm_hour t), bin8 (tm_wday t + 1), bin8 (tm_mday t),
          if tm_year t \<ge> 100 then month OR 0x80 else month, bin8 (tm_year t smod 100)])"

definition set_ds3232 :: "'w i2c_env \<Rightarrow> int \<Rightarrow> tm \<Rightarrow> ('w i2c_st, int) state" where
  "set_ds3232 I cent_reg t = do { st \<leftarrow> ds3232_i2c_write I 0 (ds3232_date t) 7; ret 0 }"

subsection \<open>DS1337 and DS1339C\<close>

definition ds133x_tm :: "u8 list \<Rightarrow> tm \<Rightarrow> tm" where
  \<comment> \<open>the two drivers have the same conversions\<close>
  "ds133x_tm date t =
     (let y = bcd (at date 6)
      in t\<lparr>tm_sec := bcd (at date 0), tm_min := bcd (at date 1), tm_hour := bcd (at date 2),
           tm_mday := bcd (at date 4), tm_mon := bcd (at date 5) - 1,
           tm_year := (if y < 70 then y + 100 else y), tm_wday := bcd (at date 3) - 1\<rparr>)"

definition ds133x_date :: "tm \<Rightarrow> u8 list" where
  "ds133x_date t =
     [bin8 (tm_sec t), bin8 (tm_min t), bin8 (tm_hour t), bin8 (tm_wday t + 1), bin8 (tm_mday t), bin8 (tm_mon t + 1),
      bin8 (tm_year t smod 100)]"

definition ds1337_i2c_read :: "'w i2c_env \<Rightarrow> u8 \<Rightarrow> u8 list \<Rightarrow> nat \<Rightarrow> ('w i2c_st, int \<times> u8 list) state" where
  "ds1337_i2c_read I reg val num = reg_read I 0x68 [reg] val num"

definition ds1337_i2c_write :: "'w i2c_env \<Rightarrow> u8 \<Rightarrow> u8 list \<Rightarrow> nat \<Rightarrow> ('w i2c_st, int) state" where
  "ds1337_i2c_write I reg val num = reg_write I 0x68 [reg] val num"

definition init_ds1337 :: "'w i2c_env \<Rightarrow> string option \<Rightarrow> ('w i2c_st, int) state" where
  "init_ds1337 I argv = open_bus I argv ''/dev/i2c0''"

definition get_ds1337 :: "'w i2c_env \<Rightarrow> u8 list \<Rightarrow> int \<Rightarrow> tm \<Rightarrow> ('w i2c_st, int \<times> tm) state" where
  "get_ds1337 I date cent_reg t = do { (st, date) \<leftarrow> ds1337_i2c_read I 0 date 7; ret (0, ds133x_tm date t) }"

definition set_ds1337 :: "'w i2c_env \<Rightarrow> int \<Rightarrow> tm \<Rightarrow> ('w i2c_st, int) state" where
  "set_ds1337 I cent_reg t = do { st \<leftarrow> ds1337_i2c_write I 0 (ds133x_date t) 7; ret 0 }"

definition ds1339c_i2c_read :: "'w i2c_env \<Rightarrow> u8 \<Rightarrow> u8 list \<Rightarrow> nat \<Rightarrow> ('w i2c_st, int \<times> u8 list) state" where
  "ds1339c_i2c_read I reg val num = reg_read I 0x68 [reg] val num"

definition ds1339c_i2c_write :: "'w i2c_env \<Rightarrow> u8 \<Rightarrow> u8 list \<Rightarrow> nat \<Rightarrow> ('w i2c_st, int) state" where
  "ds1339c_i2c_write I reg val num = reg_write I 0x68 [reg] val num"

definition init_ds1339c :: "'w i2c_env \<Rightarrow> string option \<Rightarrow> ('w i2c_st, int) state" where
  "init_ds1339c I argv = open_bus I argv ''/dev/i2c0''"

definition get_ds1339c :: "'w i2c_env \<Rightarrow> u8 list \<Rightarrow> int \<Rightarrow> tm \<Rightarrow> ('w i2c_st, int \<times> tm) state" where
  "get_ds1339c I date cent_reg t = do { (st, date) \<leftarrow> ds1339c_i2c_read I 0 date 7; ret (0, ds133x_tm date t) }"

definition set_ds1339c :: "'w i2c_env \<Rightarrow> int \<Rightarrow> tm \<Rightarrow> ('w i2c_st, int) state" where
  "set_ds1339c I cent_reg t = do { st \<leftarrow> ds1339c_i2c_write I 0 (ds133x_date t) 7; ret 0 }"

subsection \<open>RTC-8564\<close>

definition i2c_send_data :: "'w i2c_env \<Rightarrow> u8 \<Rightarrow> u8 \<Rightarrow> ('w i2c_st, int) state" where
  "i2c_send_data I addr data =
     do { f \<leftarrow> get_fd; error \<leftarrow> dev_op (dcmd_send I f (ucast addr) [data]); ret (if error \<noteq> 0 then - 1 else 0) }"

definition rtc8564_i2c_read :: "'w i2c_env \<Rightarrow> u8 \<Rightarrow> u8 list \<Rightarrow> nat \<Rightarrow> ('w i2c_st, int \<times> u8 list) state" where
  "rtc8564_i2c_read I reg val num = reg_read I 0x51 [reg] val num"

definition rtc8564_i2c_write :: "'w i2c_env \<Rightarrow> u8 \<Rightarrow> u8 list \<Rightarrow> nat \<Rightarrow> ('w i2c_st, int) state" where
  "rtc8564_i2c_write I reg val num = reg_write I 0x51 [reg] val num"

definition init_rtc8564 :: "'w i2c_env \<Rightarrow> string option \<Rightarrow> ('w i2c_st, int) state" where
  "init_rtc8564 I argv =
     do { r \<leftarrow> open_bus I argv ''/dev/i2c1''; if r < 0 then ret (- 1) else i2c_send_data I 0x74 0x10 }"

definition rtc8564_tm :: "u8 list \<Rightarrow> tm \<Rightarrow> tm" where
  "rtc8564_tm date t =
     (let y = bcd (at date 6)
      in t\<lparr>tm_sec := bcd (at date 0 AND 0x7F), tm_min := bcd (at date 1 AND 0x7F), tm_hour := bcd (at date 2 AND 0x3F),
           tm_mday := bcd (at date 3 AND 0x3F), tm_wday := sint (at date 4 AND 0x7), tm_mon := sint (at date 5 AND 0x1F) - 1,
           tm_year := (if y < 70 then y + 100 else y)\<rparr>)"

definition get_rtc8564 :: "'w i2c_env \<Rightarrow> u8 list \<Rightarrow> int \<Rightarrow> tm \<Rightarrow> ('w i2c_st, int \<times> tm) state" where
  "get_rtc8564 I date cent_reg t = do { (st, date) \<leftarrow> rtc8564_i2c_read I 2 date 7; ret (0, rtc8564_tm date t) }"

definition rtc8564_date :: "tm \<Rightarrow> u8 list" where
  "rtc8564_date t =
     [bin8 (tm_sec t), bin8 (tm_min t), bin8 (tm_hour t), bin8 (tm_mday t), bin8 (tm_wday t AND 0x7), bin8 (tm_mon t + 1),
      bin8 (tm_year t smod 100)]"

definition set_rtc8564 :: "'w i2c_env \<Rightarrow> int \<Rightarrow> tm \<Rightarrow> ('w i2c_st, int) state" where
  "set_rtc8564 I cent_reg t = do { st \<leftarrow> rtc8564_i2c_write I 2 (rtc8564_date t) 7; ret 0 }"

subsection \<open>Phoenix\<close>

text \<open>
  The options of \<open>init\<close> go through \<open>getsubopt\<close> and \<open>strtol\<close> of the C library: suboptions end at a comma, the name ends
  at an equals sign. A value that is missing, or a name of a device too long for its buffer of 20 bytes, is undefined behaviour of
  the code; the result is \<open>None\<close> then.
\<close>

definition isspace :: "char \<Rightarrow> bool" where
  "isspace c \<longleftrightarrow> c = CHR '' '' \<or> (9 \<le> code c \<and> code c \<le> 13)"

fun int_digits :: "int \<Rightarrow> int \<Rightarrow> string \<Rightarrow> int" where
  "int_digits base v [] = v"
| "int_digits base v (c # p) = (if radix_value c \<ge> base then v else int_digits base (v * base + radix_value c) p)"

definition strtol0 :: "string \<Rightarrow> int" where
  \<comment> \<open>\<open>strtol(s, 0, 0)\<close> with \<open>long\<close> of 32 bits\<close>
  "strtol0 s =
     (let s = dropWhile isspace s;
          (neg, s) = (case s of c # r \<Rightarrow> if c = CHR ''-'' then (True, r) else if c = CHR ''+'' then (False, r) else (False, s)
                                | [] \<Rightarrow> (False, s));
          v = (if hexstr s then int_digits 16 0 (drop 2 s)
               else if s \<noteq> [] \<and> hd s = CHR ''0'' then int_digits 8 0 s else int_digits 10 0 s)
      in if neg then max (- (2 ^ 31)) (- v) else min (2 ^ 31 - 1) v)"

function subopts :: "string \<Rightarrow> string list" where
  "subopts [] = []"
| "subopts (c # s) =
     takeWhile (\<lambda>x. x \<noteq> CHR '','') (c # s) # subopts (drop 1 (dropWhile (\<lambda>x. x \<noteq> CHR '','') (c # s)))"
  by pat_completeness auto
termination
proof (relation "measure length")
  fix c s
  have "length (dropWhile (\<lambda>x. x \<noteq> CHR '','') (c # s)) \<le> length (c # s)" by (rule length_dropWhile_le)
  then show "(drop 1 (dropWhile (\<lambda>x. x \<noteq> CHR '','') (c # s)), c # s) \<in> measure length" by simp
qed simp

definition subopt_value :: "string \<Rightarrow> string option" where
  "subopt_value o1 = (case dropWhile (\<lambda>x. x \<noteq> CHR ''='') o1 of [] \<Rightarrow> None | _ # v \<Rightarrow> Some v)"

fun phoenix_options :: "string list \<Rightarrow> string \<times> int \<Rightarrow> (string \<times> int) option" where
  "phoenix_options [] (dev, sl) = Some (dev, sl)"
| "phoenix_options (o1 # os) (dev, sl) =
     (let name = takeWhile (\<lambda>x. x \<noteq> CHR ''='') o1
      in if name = ''i2c''
         then case subopt_value o1 of
                None \<Rightarrow> None
              | Some v \<Rightarrow> if length v < 20 then phoenix_options os (v, sl) else None
         else if name = ''slave''
         then case subopt_value o1 of None \<Rightarrow> None | Some v \<Rightarrow> phoenix_options os (dev, strtol0 v)
         else Some (dev, sl))"

definition phoenix_i2c_read :: "'w i2c_env \<Rightarrow> u8 \<Rightarrow> u8 list \<Rightarrow> nat \<Rightarrow> ('w i2c_st, int \<times> u8 list) state" where
  "phoenix_i2c_read I reg val num = do { a \<leftarrow> get_slave; reg_read I (u a) [reg] val num }"

definition phoenix_i2c_write :: "'w i2c_env \<Rightarrow> u8 \<Rightarrow> u8 list \<Rightarrow> nat \<Rightarrow> ('w i2c_st, int) state" where
  "phoenix_i2c_write I reg val num = do { a \<leftarrow> get_slave; reg_write I (u a) [reg] val num }"

definition init_phoenix :: "'w i2c_env \<Rightarrow> string option \<Rightarrow> ('w i2c_st, int option) state" where
  "init_phoenix I argv =
     do {
       sl \<leftarrow> get_slave;
       case phoenix_options (case argv of None \<Rightarrow> [] | Some a \<Rightarrow> subopts a) (''/dev/i2c0'', sl) of
         None \<Rightarrow> ret None
       | Some (dev, sl) \<Rightarrow> do {
           set_slave sl;
           f \<leftarrow> dev_op (i2c_open I dev);
           set_fd f;
           if f < 0 then ret (Some (- 1))
           else do {
             c \<leftarrow> get_ctrl;
             (st, cs) \<leftarrow> phoenix_i2c_read I 16 [c] 1;
             set_ctrl (hd cs);
             if EOK \<noteq> st then ret (Some (- 1))
             else if hd cs AND 0x01 = 0
             then do {
               set_ctrl (hd cs OR 0x01);
               st \<leftarrow> phoenix_i2c_write I 16 [hd cs OR 0x01] 1;
               ret (Some (if EOK \<noteq> st then - 1 else 0))
             }
             else ret (Some 0)
           }
         }
     }"

definition phoenix_tm :: "u8 \<Rightarrow> u8 list \<Rightarrow> tm \<Rightarrow> tm" where
  "phoenix_tm ctrl date t =
     (let h = bcd (at date 2 AND 0x3F)
      in t\<lparr>tm_sec := bcd (at date 0 AND 0x7F), tm_min := bcd (at date 1 AND 0x7F),
           tm_hour := (if ctrl AND 0x08 \<noteq> 0 \<and> at date 2 AND 0x80 \<noteq> 0 then h + 12 else h),
           tm_mday := bcd (at date 3 AND 0x3F), tm_mon := bcd (at date 4 AND 0x1F) - 1,
           tm_year := bcd (at date 5 AND 0xFF) + 2000 - 1900, tm_wday := bcd (at date 6 AND 0x07)\<rparr>)"

definition get_phoenix :: "'w i2c_env \<Rightarrow> u8 list \<Rightarrow> int \<Rightarrow> tm \<Rightarrow> ('w i2c_st, int \<times> tm) state" where
  "get_phoenix I date cent_reg t =
     do {
       (st, date) \<leftarrow> phoenix_i2c_read I 0 date 7;
       c \<leftarrow> get_ctrl;
       ret (if EOK \<noteq> st then (- 1, t) else (0, phoenix_tm c date t))
     }"

definition phoenix_date :: "u8 \<Rightarrow> tm \<Rightarrow> u8 list" where
  "phoenix_date ctrl t =
     (let hour = (if ctrl AND 0x08 \<noteq> 0 \<and> tm_hour t = 12 then bin8 (tm_hour t) OR 0x80
                  else if ctrl AND 0x08 \<noteq> 0 \<and> tm_hour t > 12 then bin8 (tm_hour t - 12) OR 0x80
                  else bin8 (tm_hour t))
      in [bin8 (tm_sec t), bin8 (tm_min t), hour, bin8 (tm_mday t), bin8 (tm_mon t + 1), bin8 (tm_year t smod 100),
          bin8 (tm_wday t)])"

definition set_phoenix :: "'w i2c_env \<Rightarrow> int \<Rightarrow> tm \<Rightarrow> ('w i2c_st, int) state" where
  "set_phoenix I cent_reg t =
     do {
       c \<leftarrow> get_ctrl;
       if tm_year t < 100 then ret (- 1)
       else do { st \<leftarrow> phoenix_i2c_write I 0 (phoenix_date c t) 7; ret (if EOK \<noteq> st then - 1 else 0) }
     }"

subsection \<open>Rocket\<close>

definition reg_utc_count :: "u8 list" where
  "reg_utc_count = [0x11, 0x12, 0x13, 0x14, 0x15, 0x16, 0x17, 0x18]"

definition rocket_i2c_read :: "'w i2c_env \<Rightarrow> u8 \<Rightarrow> u8 list \<Rightarrow> nat \<Rightarrow> ('w i2c_st, int \<times> u8 list) state" where
  \<comment> \<open>the identification of the device goes before the register\<close>
  "rocket_i2c_read I reg val num = reg_read I 0x4A [0, reg] val num"

definition rocket_i2c_write :: "'w i2c_env \<Rightarrow> u8 \<Rightarrow> u8 list \<Rightarrow> nat \<Rightarrow> ('w i2c_st, int) state" where
  "rocket_i2c_write I reg val num = reg_write I 0x4A [0, reg] val num"

fun rocket_put :: "'w i2c_env \<Rightarrow> u8 list \<Rightarrow> u8 list \<Rightarrow> ('w i2c_st, int) state" where
  \<comment> \<open>write one byte to each register, up to the first failure\<close>
  "rocket_put I (reg # regs) (b # bs) =
     do { st \<leftarrow> rocket_i2c_write I reg [b] 1; if st \<noteq> 0 then ret (- 1) else rocket_put I regs bs }"
| "rocket_put I _ _ = ret EOK"

fun rocket_count :: "'w i2c_env \<Rightarrow> u8 \<Rightarrow> nat \<Rightarrow> u8 list \<Rightarrow> u64 \<Rightarrow> ('w i2c_st, u64 option) state" where
  \<comment> \<open>read one byte from each register into the counter\<close>
  "rocket_count I data i [] now = ret (Some now)"
| "rocket_count I data i (reg # regs) now =
     do {
       (st, d) \<leftarrow> rocket_i2c_read I reg [data] 1;
       if st \<noteq> 0 then ret None
       else rocket_count I (hd d) (i + 1) regs (now OR push_bit (8 * i) (ucast (hd d)))
     }"

definition init_rocket :: "'w i2c_env \<Rightarrow> string option \<Rightarrow> ('w i2c_st, int) state" where
  "init_rocket I argv =
     do {
       r \<leftarrow> open_bus I argv ''/dev/i2c0'';
       if r < 0 then ret (- 1)
       else do {
         c \<leftarrow> get_ctrl;
         (st, cs) \<leftarrow> rocket_i2c_read I 0x10 [c] 1;
         set_ctrl (hd cs);
         if st \<noteq> 0 then ret (- 1)
         else if hd cs AND 1 \<noteq> 0 then rocket_put I reg_utc_count (replicate 8 0)
         else ret EOK
       }
     }"

definition get_rocket :: "'w i2c_env \<Rightarrow> c_time \<Rightarrow> u8 \<Rightarrow> int \<Rightarrow> tm \<Rightarrow> ('w i2c_st, int \<times> tm) state" where
  "get_rocket I C data cent_reg t =
     do {
       c \<leftarrow> get_ctrl;
       (st, cs) \<leftarrow> rocket_i2c_read I 0x10 [c] 1;
       set_ctrl (hd cs);
       if st \<noteq> 0 then ret (- 1, t)
       else if hd cs AND 1 \<noteq> 0 then ret (- 1, t)
       else do {
         r \<leftarrow> rocket_count I data 0 reg_utc_count 0;
         case r of
           None \<Rightarrow> ret (- 1, t)
         | Some now_time_ms \<Rightarrow>
             let p_tm = c_gmtime C (ucast (now_time_ms div 1000))
             in ret (EOK, t\<lparr>tm_year := tm_year p_tm, tm_mon := tm_mon p_tm, tm_mday := tm_mday p_tm, tm_hour := tm_hour p_tm,
                  tm_min := tm_min p_tm, tm_sec := tm_sec p_tm, tm_wday := tm_wday p_tm\<rparr>)
       }
     }"

definition set_rocket :: "'w i2c_env \<Rightarrow> c_time \<Rightarrow> int \<Rightarrow> tm \<Rightarrow> ('w i2c_st, int) state" where
  "set_rocket I C cent_reg t =
     do {
       let new_time_ms = (ucast (c_mktime C t) * 1000 :: u64);
       set_ctrl 1;
       st \<leftarrow> rocket_i2c_write I 0x10 [1] 1;
       if st \<noteq> 0 then ret (- 1)
       else rocket_put I reg_utc_count (map (\<lambda>i. ucast (drop_bit (8 * i) new_time_ms AND 0xff)) [0..<8])
     }"

subsection \<open>What the round trips rely on\<close>

locale i2c_regs =
  fixes I :: "'w i2c_env" and regs :: "'w \<Rightarrow> u32 \<Rightarrow> u8 \<Rightarrow> u8" and upd :: "u32 \<Rightarrow> u8 \<Rightarrow> u8 list \<Rightarrow> 'w \<Rightarrow> 'w"
  assumes sendrecv: "run_state (dcmd_sendrecv I f a [r] n) w = ((0, map (\<lambda>i. regs w a (r + of_nat i)) [0..<n]), w)"
    and send: "run_state (dcmd_send I f a (r # bs)) w = (0, upd a r bs w)"
    and regs_upd: "regs (upd a r bs w) b q = (if b = a \<and> unat (q - r) < length bs then bs ! unat (q - r) else regs w b q)"
begin

lemma read_back:
  assumes "length bs \<le> 256"
  shows "map (\<lambda>i. regs (upd a r bs w) a (r + of_nat i)) [0..<length bs] = bs"
proof (rule nth_equalityI)
  fix i
  assume "i < length (map (\<lambda>i. regs (upd a r bs w) a (r + of_nat i)) [0..<length bs])"
  then have i: "i < length bs" by simp
  then have "unat (of_nat i :: u8) = i" using assms by (simp add: unsigned_of_nat take_bit_nat_eq_self)
  then show "map (\<lambda>i. regs (upd a r bs w) a (r + of_nat i)) [0..<length bs] ! i = bs ! i"
    using i by (simp add: regs_upd)
qed simp

lemma write_run:
  "run_state (reg_write I a [r] bs n) s = (0, s\<lparr>world := upd a r (take n bs) (world s)\<rparr>)"
  by (simp add: reg_write_def get_fd_def dev_op_def send)

lemma read_run:
  "run_state (reg_read I a [r] val n) s =
     ((0, map (\<lambda>i. regs (world s) a (r + of_nat i)) [0..<n] @ drop n val), s)"
  by (simp add: reg_read_def get_fd_def dev_op_def sendrecv fill_buf_def)

lemma read_after_write:
  assumes "length bs = n" "n \<le> 256"
  shows "run_state (reg_read I a [r] val n) (s\<lparr>world := upd a r bs w\<rparr>) = ((0, bs @ drop n val), s\<lparr>world := upd a r bs w\<rparr>)"
  using read_back [of bs a r w] assms by (simp add: read_run)

end

text \<open>A bus with one register file for each slave.\<close>

definition bus_env :: "(u32 \<Rightarrow> u8 \<Rightarrow> u8) i2c_env" where
  "bus_env = \<lparr>i2c_open = (\<lambda>name. ret 3), i2c_close = (\<lambda>f. ret ()),
     dcmd_sendrecv = (\<lambda>f a bs n. State (\<lambda>w. ((0, map (\<lambda>i. w a (hd bs + of_nat i)) [0..<n]), w))),
     dcmd_send = (\<lambda>f a bs. State (\<lambda>w. (0, w(a := (\<lambda>q. if unat (q - hd bs) < length (tl bs) then tl bs ! unat (q - hd bs) else w a q))))),
     dcmd_recv = (\<lambda>f a n. State (\<lambda>w. ((0, map (\<lambda>i. w a (of_nat i)) [0..<n]), w)))\<rparr>"

interpretation bus: i2c_regs bus_env "\<lambda>w. w"
    "\<lambda>a r bs w. w(a := (\<lambda>q. if unat (q - r) < length bs then bs ! unat (q - r) else w a q))"
  by unfold_locales (auto simp: bus_env_def cong: if_cong)

lemma bus_regs: "i2c_regs bus_env (\<lambda>w. w) (\<lambda>a r bs w. w(a := (\<lambda>q. if unat (q - r) < length bs then bs ! unat (q - r) else w a q)))"
  by (rule bus.i2c_regs_axioms)

definition copy_all :: "tm \<Rightarrow> tm \<Rightarrow> tm" where
  \<comment> \<open>the fields of \<open>copy_time\<close> and the day of the week\<close>
  "copy_all t t0 = (copy_time t t0)\<lparr>tm_wday := tm_wday t\<rparr>"

lemma copy_all_eq: "copy_all t t0 = t0\<lparr>tm_sec := tm_sec t, tm_min := tm_min t, tm_hour := tm_hour t, tm_mday := tm_mday t,
     tm_mon := tm_mon t, tm_year := tm_year t, tm_wday := tm_wday t\<rparr>"
  by (simp add: copy_all_def copy_time_def)

text \<open>
  Most of the drivers are a codec between the broken-down time and a block of consecutive registers. The
  contract of the codec gives the round trip of the driver.
\<close>

locale clock_codec =
  fixes enc :: "tm \<Rightarrow> u8 list" and dec :: "u8 list \<Rightarrow> tm \<Rightarrow> tm" and n :: nat and lo hi :: int
  assumes enc_length: "length (enc t) = n" and n_small: "n \<le> 256"
    and dec_enc: "tm_ok lo hi t \<Longrightarrow> dec (enc t @ rest) t0 = copy_all t t0"
begin

lemma set_get:
  assumes R: "i2c_regs I regs upd" and t: "tm_ok lo hi t"
    and s: "s' = snd (run_state (reg_write I a [r] (enc t) n) s)"
  shows "run_state (do { (st, date) \<leftarrow> reg_read I a [r] date n; ret (0, dec date t0) }) s' = ((0, copy_all t t0), s')"
  unfolding s i2c_regs.write_run [OF R]
  using i2c_regs.read_after_write [OF R enc_length n_small] t
  by (simp add: enc_length dec_enc)

end

lemma at_bin8: "0 \<le> x \<Longrightarrow> x < 100 \<Longrightarrow> (ucast (bin8 x :: u8) :: u32) = u (BIN2BCD x)"
proof -
  assume x: "0 \<le> x" "x < 100"
  have "(ucast (bin8 x :: u8) :: u32) = take_bit 8 (u (BIN2BCD x))"
    by (simp add: unsigned_of_int take_bit_of_int)
  then show ?thesis using bcd_round(3) [OF x] by simp
qed

lemma bcd_not_masks:
  "\<forall>x \<in> set [0..79]. u (BIN2BCD x) AND - 129 = u (BIN2BCD x)"
  "\<forall>x \<in> set [0..39]. u (BIN2BCD x) AND - 193 = u (BIN2BCD x) \<and> u (BIN2BCD x) AND 0xbf = u (BIN2BCD x)"
  "\<forall>x \<in> set [0..19]. u (BIN2BCD x) AND 0xc0 = 0"
  by code_simp+

lemma and_not80: "0 \<le> x \<Longrightarrow> x < 80 \<Longrightarrow> u (BIN2BCD x) AND - 129 = u (BIN2BCD x)"
  and and_notc0: "0 \<le> x \<Longrightarrow> x < 40 \<Longrightarrow> u (BIN2BCD x) AND - 193 = u (BIN2BCD x)"
  and and_bf: "0 \<le> x \<Longrightarrow> x < 40 \<Longrightarrow> u (BIN2BCD x) AND 0xbf = u (BIN2BCD x)"
  and and_c0: "0 \<le> x \<Longrightarrow> x < 20 \<Longrightarrow> u (BIN2BCD x) AND 0xc0 = 0"
  using bcd_not_masks by simp_all

lemma bcd_back': "0 \<le> x \<Longrightarrow> x < 99 \<Longrightarrow> bcd (u (BIN2BCD (x + 1))) = x + 1"
  using bcd_back [of "x + 1"] by simp

lemmas byte_simps = at_bin8 bcd_back bcd_back' mask_simps and_not80 and_notc0 and_bf and_c0 unsigned_or_eq bit.conj_disj_distrib2
  unsigned_and_eq year_mod

interpretation ds133x: clock_codec ds133x_date ds133x_tm 7 70 170
proof
  fix t rest t0
  assume t: "tm_ok 70 170 t"
  show "ds133x_tm (ds133x_date t @ rest) t0 = copy_all t t0"
    using tm_bounds [OF t] by (simp add: ds133x_tm_def ds133x_date_def byte_simps copy_all_eq Let_def year_pivot split del: if_split)
qed (simp_all add: ds133x_date_def)

subsection \<open>Codecs of the chips\<close>

lemma cent_cases:
  fixes y :: int
  assumes "70 \<le> y" "y < 270"
  obtains "y div 100 = 0" "y mod 100 = y" "y < 100" | "y div 100 = 1" "y mod 100 = y - 100" "100 \<le> y" "y < 200"
   | "y div 100 = 2" "y mod 100 = y - 200" "200 \<le> y" "y mod 100 < 70"
proof -
  consider "y < 100" | "100 \<le> y \<and> y < 200" | "200 \<le> y" by linarith
  then show thesis
  proof cases
    case 1
    then show ?thesis using assms that(1) by simp
  next
    case 2
    then have "y div 100 = 1" "y mod 100 = y - 100" by presburger+
    then show ?thesis using 2 that(2) by simp
  next
    case 3
    then have "y div 100 = 2" "y mod 100 = y - 200" using assms by presburger+
    then show ?thesis using 3 assms that(3) by simp
  qed
qed

interpretation m41t00: clock_codec m41t00_date m41t00_tm 7 70 270
proof
  fix t rest t0
  assume t: "tm_ok 70 270 t"
  note b = tm_bounds [OF t]
  show "m41t00_tm (m41t00_date t @ rest) t0 = copy_all t t0"
    by (rule cent_cases [OF b(13,14)])
      (use b in \<open>simp_all add: m41t00_tm_def m41t00_date_def byte_simps copy_all_eq Let_def and.assoc\<close>)
qed (simp_all add: m41t00_date_def Let_def)

interpretation ds3232: clock_codec ds3232_date ds3232_tm 7 0 200
proof
  fix t rest t0
  assume t: "tm_ok 0 200 t"
  note b = tm_bounds [OF t]
  have y: "tm_year t mod 100 = (if 100 \<le> tm_year t then tm_year t - 100 else tm_year t)"
    using b(13,14) by presburger
  show "ds3232_tm (ds3232_date t @ rest) t0 = copy_all t t0"
    by (cases "100 \<le> tm_year t")
     (use b y in \<open>simp_all add: ds3232_tm_def ds3232_date_def byte_simps copy_all_eq Let_def and.assoc\<close>)
qed (simp_all add: ds3232_date_def Let_def)

interpretation mc9s08dz60: clock_codec mc9s08dz60_date mc9s08dz60_tm 7 70 170
proof
  fix t rest t0
  assume t: "tm_ok 70 170 t"
  have m: "0 \<le> tm_mday t - 1" using t by (simp add: tm_ok_def)
  show "mc9s08dz60_tm (mc9s08dz60_date t @ rest) t0 = copy_all t t0"
    using tm_bounds [OF t] m
    by (simp add: mc9s08dz60_tm_def mc9s08dz60_date_def byte_simps copy_all_eq Let_def year_pivot split del: if_split)
qed (simp_all add: mc9s08dz60_date_def)

interpretation max8925: clock_codec max8925_date max8925_tm 8 0 8100
proof
  fix t rest t0
  assume t: "tm_ok 0 8100 t"
  have y: "(tm_year t + 1900) mod 100 + 100 * ((tm_year t + 1900) div 100) - 1900 = tm_year t" by presburger
  have c: "0 \<le> (tm_year t + 1900) div 100" "(tm_year t + 1900) div 100 < 100" using tm_bounds [OF t] by auto
  show "max8925_tm (max8925_date t @ rest) t0 = copy_all t t0"
    using tm_bounds [OF t] c y by (simp add: max8925_tm_def max8925_date_def byte_simps copy_all_eq)
qed (simp_all add: max8925_date_def)

lemma cb_cases:
  fixes y :: int
  assumes "100 \<le> y" "y < 500"
  obtains "y div 100 = 1" "y mod 100 = y - 100" | "y div 100 = 2" "y mod 100 = y - 200"
   | "y div 100 = 3" "y mod 100 = y - 300" | "y div 100 = 4" "y mod 100 = y - 400"
proof -
  have "y div 100 = 1 \<or> y div 100 = 2 \<or> y div 100 = 3 \<or> y div 100 = 4" using assms by presburger
  moreover have "y mod 100 = y - y div 100 * 100" by presburger
  ultimately show thesis using that by auto
qed

interpretation m41t6x: clock_codec m41t6x_date m41t6x_tm 7 100 500
proof
  fix t rest t0
  assume t: "tm_ok 100 500 t"
  note b = tm_bounds [OF t]
  show "m41t6x_tm (m41t6x_date t @ rest) t0 = copy_all t t0"
    by (rule cb_cases [OF b(13,14)])
      (use b in \<open>simp_all add: m41t6x_tm_def m41t6x_date_def byte_simps copy_all_eq Let_def and.assoc\<close>)
qed (simp_all add: m41t6x_date_def Let_def)

subsection \<open>S-35390A\<close>

lemma bit_flip: "bit (flip_byte v) i \<longleftrightarrow> i < 8 \<and> bit v (7 - i)"
proof (cases "i < 8")
  case True
  then have "i = 0 \<or> i = 1 \<or> i = 2 \<or> i = 3 \<or> i = 4 \<or> i = 5 \<or> i = 6 \<or> i = 7" by arith
  moreover have "[0..<8] = [0, 1, 2, 3, 4, 5, 6, 7]" by (simp add: upt_conv_Cons)
  ultimately show ?thesis by (elim disjE) (simp_all add: flip_byte_def bit_simps mult.commute [of _ "2 :: u8"] bit_double_iff)
next
  case False
  then show ?thesis using bit_imp_le_length [of "flip_byte v" i] by auto
qed

lemma flip_flip [simp]: "flip_byte (flip_byte v) = v"
  by (rule bit_word_eqI) (auto simp: bit_flip)

lemma fixup_twice: "length val = n \<Longrightarrow> s35390_fixup (s35390_fixup val n) n = val"
  by (simp add: s35390_fixup_def comp_def)

locale i2c_blocks =
  fixes I :: "'w i2c_env" and blk :: "'w \<Rightarrow> u32 \<Rightarrow> u8 list" and put :: "u32 \<Rightarrow> u8 list \<Rightarrow> 'w \<Rightarrow> 'w"
  assumes recv: "run_state (dcmd_recv I f a n) w = ((0, take n (blk w a)), w)"
    and send: "run_state (dcmd_send I f a bs) w = (0, put a bs w)"
    and blk_put: "blk (put a bs w) b = (if b = a then bs else blk w b)"
begin

lemma recv_run:
  assumes "n \<le> length (blk (world s) (0x30 + ucast reg))" "length val = n"
  shows "run_state (s35390_i2c_read I rbuf reg val n) s = ((0, take n (blk (world s) (0x30 + ucast reg))), s)"
  using assms by (simp add: s35390_i2c_read_def get_fd_def dev_op_def recv fill_buf_def EOK_def)

lemma send_run:
  "run_state (s35390_i2c_write I reg val n) s = (0, s\<lparr>world := put (0x30 + ucast reg) (take n val) (world s)\<rparr>)"
  by (simp add: s35390_i2c_write_def get_fd_def dev_op_def send EOK_def)

end

definition block_env :: "(u32 \<Rightarrow> u8 list) i2c_env" where
  "block_env = \<lparr>i2c_open = (\<lambda>name. ret 3), i2c_close = (\<lambda>f. ret ()),
     dcmd_sendrecv = (\<lambda>f a bs n. State (\<lambda>w. ((0, take n (w a)), w))),
     dcmd_send = (\<lambda>f a bs. State (\<lambda>w. (0, w(a := bs)))),
     dcmd_recv = (\<lambda>f a n. State (\<lambda>w. ((0, take n (w a)), w)))\<rparr>"

interpretation blocks: i2c_blocks block_env "\<lambda>w. w" "\<lambda>a bs w. w(a := bs)"
  by unfold_locales (simp_all add: block_env_def)

lemma block_regs: "i2c_blocks block_env (\<lambda>w. w) (\<lambda>a bs w. w(a := bs))"
  by (rule blocks.i2c_blocks_axioms)

lemma s35390_codec:
  assumes t: "tm_ok 70 170 t"
  shows "s35390_tm (s35390_date status t) status t0 = copy_all t t0"
proof -
  note b = tm_bounds [OF t]
  show ?thesis
  proof (cases "ucast status AND (2 :: u32) = 0")
    case True
    then show ?thesis
      by (cases "tm_hour t < 12")
        (use b in \<open>simp_all add: s35390_tm_def s35390_date_def byte_simps copy_all_eq Let_def year_pivot and.assoc split del: if_split\<close>)
  next
    case False
    then show ?thesis
      using b by (simp add: s35390_tm_def s35390_date_def byte_simps copy_all_eq Let_def year_pivot split del: if_split)
  qed
qed

lemma s35390_length: "length (s35390_date status t) = 7"
  by (simp add: s35390_date_def Let_def)

text \<open>
  Setting the S-35390A and reading it back gives the time that was set, for the years 1970 to 2069, in the 12 hour
  and in the 24 hour mode of the chip: mirroring the bits of every byte is its own inverse, and the mode is taken from the status
  register both times.
\<close>

theorem s35390_round_trip:
  assumes R: "i2c_blocks I blk put" and t: "tm_ok 70 170 t" and st: "blk (world s) 0x30 \<noteq> []" and buf: "length buf = 7"
  shows "fst (run_state (get_s35390 I buf c t0) (snd (run_state (set_s35390 I buf c t) s))) = (0, copy_all t t0)"
proof -
  let ?status = "flip_byte (hd (blk (world s) 0x30))"
  let ?date = "s35390_fixup (s35390_date ?status t) 7"
  have l: "length ?date = 7" by (simp add: s35390_fixup_def s35390_length)
  have one: "s35390_fixup (take 1 (blk (world s) 0x30)) 1 = [?status]"
    using st by (cases "blk (world s) 0x30") (simp_all add: s35390_fixup_def)
  have n1: "1 \<le> length (blk (world s) (0x30 + ucast (0 :: u8)))" using st by (cases "blk (world s) 0x30") simp_all
  let ?s = "s\<lparr>world := put 0x32 ?date (world s)\<rparr>"
  have set: "snd (run_state (set_s35390 I buf c t) s) = ?s"
    using i2c_blocks.recv_run [OF R n1, of "[0]" buf] one l
    by (simp add: set_s35390_def i2c_blocks.send_run [OF R] EOK_def)
  have b: "blk (world ?s) 0x32 = ?date" "blk (world ?s) 0x30 = blk (world s) 0x30" by (simp_all add: i2c_blocks.blk_put [OF R])
  have r2: "run_state (s35390_i2c_read I buf 2 buf 7) ?s = ((0, ?date), ?s)"
    using i2c_blocks.recv_run [OF R, of 7 ?s 2 buf buf] b l buf by simp
  have r0: "run_state (s35390_i2c_read I buf 0 [0] 1) ?s = ((0, take 1 (blk (world s) 0x30)), ?s)"
    using i2c_blocks.recv_run [OF R, of 1 ?s 0 "[0]" buf] n1 b by simp
  show ?thesis
    unfolding set using r2 r0 one fixup_twice [OF s35390_length] s35390_codec [OF t]
    by (simp add: get_s35390_def Let_def)
qed

theorem s35390_round_trip_witness:
  "fst (run_state (get_s35390 block_env (replicate 7 0) 0 demo_tm) (snd (run_state (set_s35390 block_env (replicate 7 0) 0 demo_tm)
     \<lparr>fd = 3, slave = 0, ctrl_value = 0, world = (\<lambda>_. [0])\<rparr>))) = (0, demo_tm)"
  using s35390_round_trip [OF block_regs, of demo_tm "\<lparr>fd = 3, slave = 0, ctrl_value = 0, world = (\<lambda>_. [0])\<rparr>" "replicate 7 0" 0 demo_tm]
  by (simp add: tm_ok_def copy_all_def copy_time_def demo_tm_def)

subsection \<open>Setting a clock and reading it back\<close>

lemma tm_ok_mono: "tm_ok lo hi t \<Longrightarrow> lo' \<le> lo \<Longrightarrow> hi \<le> hi' \<Longrightarrow> tm_ok lo' hi' t"
  by (simp add: tm_ok_def)

lemmas i2c_defs = m41t00_i2c_read_def m41t00_i2c_write_def m41t6x_i2c_read_def m41t6x_i2c_write_def
  mcp7940n_i2c_read_def mcp7940n_i2c_write_def max8925_i2c_read_def max8925_i2c_write_def
  mc9s08dz60_i2c_read_def mc9s08dz60_i2c_write_def ds3232_i2c_read_def ds3232_i2c_write_def
  ds1337_i2c_read_def ds1337_i2c_write_def ds1339c_i2c_read_def ds1339c_i2c_write_def
  rtc8564_i2c_read_def rtc8564_i2c_write_def

lemmas i2c_get_defs = get_m41t00_def get_m41t6x_def get_ds3232_def get_ds1337_def get_ds1339c_def get_mc9s08dz60_def
  get_max8925_def get_rtc8564_def get_mcp7940n_def

lemmas i2c_set_defs = set_m41t00_def set_m41t6x_def set_ds3232_def set_ds1337_def set_ds1339c_def set_mc9s08dz60_def
  set_max8925_def set_rtc8564_def set_mcp7940n_def

context i2c_regs
begin

lemma codec_run:
  assumes "clock_codec e d n lo hi" and "tm_ok lo hi t"
  shows "run_state (reg_read I a [r] date n) (s\<lparr>world := upd a r (e t) (world s)\<rparr>) =
     ((0, e t @ drop n date), s\<lparr>world := upd a r (e t) (world s)\<rparr>)"
    and "d (e t @ drop n date) t0 = copy_all t t0" and "take n (e t) = e t"
proof -
  have l: "length (e t) = n" "n \<le> 256"
    using clock_codec.enc_length [OF assms(1)] clock_codec.n_small [OF assms(1)] by auto
  show "run_state (reg_read I a [r] date n) (s\<lparr>world := upd a r (e t) (world s)\<rparr>) =
     ((0, e t @ drop n date), s\<lparr>world := upd a r (e t) (world s)\<rparr>)" by (rule read_after_write [OF l])
  show "d (e t @ drop n date) t0 = copy_all t t0" by (rule clock_codec.dec_enc [OF assms])
  show "take n (e t) = e t" using l by simp
qed

lemmas drv = i2c_defs i2c_get_defs i2c_set_defs write_run EOK_def

lemma m41t00_drv: "tm_ok 70 270 t \<Longrightarrow> fst (run_state (get_m41t00 I date c t0) (snd (run_state (set_m41t00 I c t) s))) = (0, copy_all t t0)"
  using codec_run [OF m41t00.clock_codec_axioms] by (simp add: drv)

lemma m41t6x_drv: "tm_ok 100 500 t \<Longrightarrow> fst (run_state (get_m41t6x I date c t0) (snd (run_state (set_m41t6x I c t) s))) = (0, copy_all t t0)"
  using codec_run [OF m41t6x.clock_codec_axioms] by (simp add: drv)

lemma ds3232_drv: "tm_ok 0 200 t \<Longrightarrow> fst (run_state (get_ds3232 I date c t0) (snd (run_state (set_ds3232 I c t) s))) = (0, copy_all t t0)"
  using codec_run [OF ds3232.clock_codec_axioms] by (simp add: drv)

lemma ds1337_drv: "tm_ok 70 170 t \<Longrightarrow> fst (run_state (get_ds1337 I date c t0) (snd (run_state (set_ds1337 I c t) s))) = (0, copy_all t t0)"
  using codec_run [OF ds133x.clock_codec_axioms] by (simp add: drv)

lemma ds1339c_drv: "tm_ok 70 170 t \<Longrightarrow> fst (run_state (get_ds1339c I date c t0) (snd (run_state (set_ds1339c I c t) s))) = (0, copy_all t t0)"
  using codec_run [OF ds133x.clock_codec_axioms] by (simp add: drv)

lemma mc9s08dz60_drv: "tm_ok 70 170 t \<Longrightarrow> fst (run_state (get_mc9s08dz60 I date c t0) (snd (run_state (set_mc9s08dz60 I c t) s))) = (0, copy_all t t0)"
  using codec_run [OF mc9s08dz60.clock_codec_axioms] by (simp add: drv)

lemma max8925_drv: "tm_ok 0 8100 t \<Longrightarrow> fst (run_state (get_max8925 I date c t0) (snd (run_state (set_max8925 I c t) s))) = (0, copy_all t t0)"
  using codec_run [OF max8925.clock_codec_axioms] by (simp add: drv)

lemma mcp7940n_codec:
  assumes t: "tm_ok 70 170 t"
  shows "mcp7940n_tm (take 7 (mcp7940n_date old t) @ rest) t0 = copy_all t t0"
  using tm_bounds [OF t]
  by (simp add: mcp7940n_tm_def mcp7940n_date_def byte_simps copy_all_eq Let_def year_pivot and.assoc split del: if_split)

lemma mcp7940n_drv:
  assumes t: "tm_ok 70 170 t"
  shows "fst (run_state (get_mcp7940n I date c t0) (snd (run_state (set_mcp7940n I date c t) s))) = (0, copy_all t t0)"
proof -
  let ?old = "map (\<lambda>i. regs (world s) 0x6f (0 + of_nat i)) [0..<8] @ drop 8 date"
  let ?d = "take 7 (mcp7940n_date ?old t)"
  have l: "length ?d = 7" by (simp add: mcp7940n_date_def Let_def)
  have "snd (run_state (set_mcp7940n I date c t) s) = s\<lparr>world := upd 0x6f 0 ?d (world s)\<rparr>"
    by (simp only: set_mcp7940n_def mcp7940n_i2c_read_def mcp7940n_i2c_write_def) (simp add: read_run write_run)
  then show ?thesis
    using read_after_write [OF l] mcp7940n_codec [OF t, of ?old "drop 7 date" t0]
    by (simp add: get_mcp7940n_def mcp7940n_i2c_read_def)
qed

end

text \<open>
  C38: for each of eight drivers on the I2C bus, setting the clock and reading it back gives the time that was set with
  the day of the week, for the years the encoding of the century covers: M41T00 1970 to 2169, M41T6x 2000 to 2399, DS3232 1900 to
  2099, MAX8925 1900 to 9999, the others 1970 to 2069. The registers of the chip are assumed to hold what is written to them.
\<close>

theorem i2c_clocks_round_trip:
  assumes "i2c_regs I regs upd"
  shows "(tm_ok 70 270 t \<longrightarrow> fst (run_state (get_m41t00 I date c t0) (snd (run_state (set_m41t00 I c t) s))) = (0, copy_all t t0)) \<and>
    (tm_ok 100 500 t \<longrightarrow> fst (run_state (get_m41t6x I date c t0) (snd (run_state (set_m41t6x I c t) s))) = (0, copy_all t t0)) \<and>
    (tm_ok 0 200 t \<longrightarrow> fst (run_state (get_ds3232 I date c t0) (snd (run_state (set_ds3232 I c t) s))) = (0, copy_all t t0)) \<and>
    (tm_ok 70 170 t \<longrightarrow> fst (run_state (get_ds1337 I date c t0) (snd (run_state (set_ds1337 I c t) s))) = (0, copy_all t t0)) \<and>
    (tm_ok 70 170 t \<longrightarrow> fst (run_state (get_ds1339c I date c t0) (snd (run_state (set_ds1339c I c t) s))) = (0, copy_all t t0)) \<and>
    (tm_ok 70 170 t \<longrightarrow> fst (run_state (get_mc9s08dz60 I date c t0) (snd (run_state (set_mc9s08dz60 I c t) s))) = (0, copy_all t t0)) \<and>
    (tm_ok 0 8100 t \<longrightarrow> fst (run_state (get_max8925 I date c t0) (snd (run_state (set_max8925 I c t) s))) = (0, copy_all t t0)) \<and>
    (tm_ok 70 170 t \<longrightarrow> fst (run_state (get_mcp7940n I date c t0) (snd (run_state (set_mcp7940n I date c t) s))) = (0, copy_all t t0))"
  by (simp add: i2c_regs.m41t00_drv [OF assms] i2c_regs.m41t6x_drv [OF assms] i2c_regs.ds3232_drv [OF assms]
    i2c_regs.ds1337_drv [OF assms] i2c_regs.ds1339c_drv [OF assms] i2c_regs.mc9s08dz60_drv [OF assms]
    i2c_regs.max8925_drv [OF assms] i2c_regs.mcp7940n_drv [OF assms])

theorem i2c_clocks_round_trip_witness:
  "fst (run_state (get_m41t00 bus_env [] 0 demo_tm) (snd (run_state (set_m41t00 bus_env 0 demo_tm)
     \<lparr>fd = 3, slave = 0, ctrl_value = 0, world = (\<lambda>_ _. 0)\<rparr>))) = (0, demo_tm)"
  using i2c_clocks_round_trip [OF bus_regs, of demo_tm "[]" 0 demo_tm "\<lparr>fd = 3, slave = 0, ctrl_value = 0, world = (\<lambda>_ _. 0)\<rparr>"]
  by (simp add: tm_ok_def copy_all_def copy_time_def demo_tm_def)

lemma small_month: "\<forall>m \<in> set [0..11]. sint (u (BIN2BCD (m + 1)) AND 0x1f) = m + 1 + (if 9 \<le> m then 6 else 0)"
  by code_simp

lemma small_wday: "\<forall>d \<in> set [0..6]. sint (u (BIN2BCD (d AND 7)) AND 7) = d \<and> 0 \<le> d AND 7 \<and> d AND 7 < 100"
  by code_simp

text \<open>
  The driver of the RTC-8564 stores the month as BCD and reads it as binary: the months January to September come
  back, October to December come back six months late.
\<close>

theorem rtc8564_month:
  assumes R: "i2c_regs I regs upd" and t: "tm_ok 70 170 t"
  shows "fst (run_state (get_rtc8564 I date c t0) (snd (run_state (set_rtc8564 I c t) s))) =
    (0, (copy_all t t0)\<lparr>tm_mon := tm_mon t + (if 9 \<le> tm_mon t then 6 else 0)\<rparr>)"
proof -
  note b = tm_bounds [OF t]
  have l: "length (rtc8564_date t) = 7" by (simp add: rtc8564_date_def)
  have m: "sint (u (BIN2BCD (tm_mon t + 1)) AND 0x1f) = tm_mon t + 1 + (if 9 \<le> tm_mon t then 6 else 0)"
    using small_month b by simp
  have d: "sint (u (BIN2BCD (tm_wday t AND 7)) AND 7) = tm_wday t" "0 \<le> tm_wday t AND 7" "tm_wday t AND 7 < 100"
    using small_wday b by simp_all
  have "rtc8564_tm (rtc8564_date t @ rest) t0 = (copy_all t t0)\<lparr>tm_mon := tm_mon t + (if 9 \<le> tm_mon t then 6 else 0)\<rparr>" for rest
    using b m d by (simp add: rtc8564_tm_def rtc8564_date_def byte_simps copy_all_eq Let_def year_pivot split del: if_split)
  then show ?thesis
    using i2c_regs.read_after_write [OF R l]
    by (simp add: get_rtc8564_def set_rtc8564_def i2c_defs i2c_regs.write_run [OF R] l)
qed

theorem rtc8564_month_witness:
  "tm_mon (snd (fst (run_state (get_rtc8564 bus_env [] 0 demo_tm) (snd (run_state (set_rtc8564 bus_env 0 (demo_tm\<lparr>tm_mon := 9\<rparr>))
     \<lparr>fd = 3, slave = 0, ctrl_value = 0, world = (\<lambda>_ _. 0)\<rparr>))))) = 15"
  using rtc8564_month [OF bus_regs, of "demo_tm\<lparr>tm_mon := 9\<rparr>" "[]" 0 demo_tm "\<lparr>fd = 3, slave = 0, ctrl_value = 0, world = (\<lambda>_ _. 0)\<rparr>"]
  by (simp add: tm_ok_def demo_tm_def)

text \<open>
  The driver of the Phoenix clock stores noon in the 12 hour mode as 12 PM and reads it back as hour 24; every other
  time of the years 2000 to 2099 comes back as it was set.
\<close>

theorem phoenix_hours:
  assumes R: "i2c_regs I regs upd" and t: "tm_ok 100 200 t"
  shows "fst (run_state (get_phoenix I date c t0) (snd (run_state (set_phoenix I c t) s))) =
    (0, (copy_all t t0)\<lparr>tm_hour := if ctrl_value s AND 8 \<noteq> 0 \<and> tm_hour t = 12 then 24 else tm_hour t\<rparr>)"
proof -
  note b = tm_bounds [OF t]
  let ?d = "phoenix_date (ctrl_value s) t"
  have l: "length ?d = 7" by (simp add: phoenix_date_def Let_def)
  have y: "tm_year t mod 100 + 2000 - 1900 = tm_year t" using b(13,14) by presburger
  have "phoenix_tm (ctrl_value s) (?d @ rest) t0 =
      (copy_all t t0)\<lparr>tm_hour := if ctrl_value s AND 8 \<noteq> 0 \<and> tm_hour t = 12 then 24 else tm_hour t\<rparr>" for rest
    by (cases "ctrl_value s AND 8 = 0"; cases "tm_hour t = 12"; cases "12 < tm_hour t")
      (use b y in \<open>simp_all add: phoenix_tm_def phoenix_date_def byte_simps copy_all_eq Let_def and.assoc\<close>)
  then show ?thesis
    using i2c_regs.read_after_write [OF R l] b
    by (simp add: get_phoenix_def set_phoenix_def phoenix_i2c_read_def phoenix_i2c_write_def get_slave_def get_ctrl_def
      i2c_regs.write_run [OF R] l EOK_def)
qed

theorem phoenix_hours_witness:
  "tm_hour (snd (fst (run_state (get_phoenix bus_env [] 0 demo_tm) (snd (run_state (set_phoenix bus_env 0 (demo_tm\<lparr>tm_hour := 12\<rparr>))
     \<lparr>fd = 3, slave = 0x48, ctrl_value = 8, world = (\<lambda>_ _. 0)\<rparr>))))) = 24"
  using phoenix_hours [OF bus_regs, of "demo_tm\<lparr>tm_hour := 12\<rparr>" "[]" 0 demo_tm "\<lparr>fd = 3, slave = 0x48, ctrl_value = 8, world = (\<lambda>_ _. 0)\<rparr>"]
  by (simp add: tm_ok_def demo_tm_def)

lemma read_fails:
  assumes "\<forall>f a bs n w. run_state (dcmd_sendrecv I f a bs n) w = ((e, []), w)"
  shows "run_state (reg_read I a bs val n) s = ((e, val), s)"
  using assms by (simp add: reg_read_def get_fd_def dev_op_def fill_buf_def)

text \<open>
  C40: when the transfer fails, MAX8925, MC9S08DZ60 and Phoenix report it and leave the time alone. M41T00, DS3232 and
  RTC-8564 do not look at the result, and MCP7940N looks for a negative one although \<open>devctl\<close> returns positive error numbers: they
  report success and a time made from what the buffer on the stack happened to hold.
\<close>

theorem i2c_failed_read:
  assumes F: "\<forall>f a bs n w. run_state (dcmd_sendrecv I f a bs n) w = ((e, []), w)" and e: "0 < e"
  shows "fst (run_state (get_max8925 I date c t0) s) = (- 1, t0) \<and>
    fst (run_state (get_mc9s08dz60 I date c t0) s) = (- 1, t0) \<and>
    fst (run_state (get_phoenix I date c t0) s) = (- 1, t0) \<and>
    fst (run_state (get_mcp7940n I date c t0) s) = (0, mcp7940n_tm date t0) \<and>
    fst (run_state (get_m41t00 I date c t0) s) = (0, m41t00_tm date t0) \<and>
    fst (run_state (get_ds3232 I date c t0) s) = (0, ds3232_tm date t0) \<and>
    fst (run_state (get_rtc8564 I date c t0) s) = (0, rtc8564_tm date t0)"
  using e by (simp add: i2c_get_defs i2c_defs read_fails [OF F] EOK_def get_phoenix_def phoenix_i2c_read_def get_slave_def get_ctrl_def)

definition dead_bus :: "unit i2c_env" where
  "dead_bus = \<lparr>i2c_open = (\<lambda>name. ret 3), i2c_close = (\<lambda>f. ret ()), dcmd_sendrecv = (\<lambda>f a bs n. ret (5, [])),
     dcmd_send = (\<lambda>f a bs. ret 5), dcmd_recv = (\<lambda>f a n. ret (5, []))\<rparr>"

theorem i2c_failed_read_witness:
  "fst (run_state (get_mcp7940n dead_bus (replicate 7 0x99) 0 demo_tm) \<lparr>fd = 3, slave = 0, ctrl_value = 0, world = ()\<rparr>) =
     (0, mcp7940n_tm (replicate 7 0x99) demo_tm)"
  using i2c_failed_read [of dead_bus 5 "replicate 7 0x99" 0 demo_tm "\<lparr>fd = 3, slave = 0, ctrl_value = 0, world = ()\<rparr>"]
  by (simp add: dead_bus_def)

lemma not_mask6: "(NOT (mask 6) :: u8) = 0xc0"
  by (simp add: mask_eq_exp_minus_1)

lemma m41t6x_19xx:
  assumes t: "tm_ok 0 100 t"
  shows "m41t6x_tm (m41t6x_date t) t0 = (copy_all t t0)\<lparr>tm_year := tm_year t + 400\<rparr>"
proof -
  note b = tm_bounds [OF t]
  have y: "tm_year t mod 100 = tm_year t" "tm_year t div 100 = 0" using b by auto
  show ?thesis using b y by (simp add: m41t6x_tm_def m41t6x_date_def byte_simps copy_all_eq Let_def and.assoc not_mask6)
qed

end
