(* ===== verification/Rtc_Soc.thy ===== *)
theory Rtc_Soc
  imports Calendar
begin

section \<open>Drivers of clocks inside a processor\<close>

text \<open>
  \<^verbatim>\<open>utils/r/rtc/nto/arm/clk_*.c\<close> for the clocks that are part of the processor, \<^verbatim>\<open>mx6srtc\<close> of the i.MX6 among
  them, and for the board that drives a DS1339 by two pins (\<^verbatim>\<open>triton\<close>). Messages are left out. Loops that wait for
  the chip take a bound, and \<open>None\<close> is the result when it is reached.
\<close>

definition init_soc :: "u64 \<Rightarrow> int \<Rightarrow> int \<Rightarrow> chip_loc \<Rightarrow> int \<times> chip_loc" where
  \<comment> \<open>what the \<open>init\<close> functions have in common: the default base address, the default access type and the size\<close>
  "init_soc base acc sz c =
     (let c1 = (if phys c = NIL_PADDR then c\<lparr>phys := base\<rparr> else c);
          c2 = (if access_type c1 = NONE then c1\<lparr>access_type := acc\<rparr> else c1)
      in (sz, c2))"

primrec wait_for :: "nat \<Rightarrow> 's chip_env \<Rightarrow> u32 \<Rightarrow> nat \<Rightarrow> (u32 \<Rightarrow> bool) \<Rightarrow> ('s, unit option) state" where
  \<comment> \<open>\<open>while (!p(chip_read(off, width)));\<close>\<close>
  "wait_for 0 E off width p = ret None"
| "wait_for (Suc n) E off width p =
     do { v \<leftarrow> chip_read E off width; if p v then ret (Some ()) else wait_for n E off width p }"

subsection \<open>Counters of seconds\<close>

definition get_counter :: "'s chip_env \<Rightarrow> c_time \<Rightarrow> u32 \<Rightarrow> tm \<Rightarrow> ('s, int \<times> tm) state" where
  \<comment> \<open>\<open>t = chip_read(reg, 32); gmtime_r(&t, tm); return 0\<close>\<close>
  "get_counter E C reg t = do { v \<leftarrow> chip_read32 E reg; ret (0, c_gmtime C v) }"

definition set_counter :: "'s chip_env \<Rightarrow> c_time \<Rightarrow> u32 \<Rightarrow> tm \<Rightarrow> ('s, int) state" where
  \<comment> \<open>\<open>t = mktime(tm); t -= timezone; chip_write(reg, t, 32); return 0\<close>\<close>
  "set_counter E C reg t = do { chip_write32 E reg (c_mktime C t - u (c_timezone C)); ret 0 }"

definition init_sa1100 :: "chip_loc \<Rightarrow> int \<times> chip_loc" where "init_sa1100 c = init_soc 0x90010000 MEMMAPPED 0x14 c"
definition get_sa1100 :: "'s chip_env \<Rightarrow> c_time \<Rightarrow> int \<Rightarrow> tm \<Rightarrow> ('s, int \<times> tm) state" where "get_sa1100 E C cent_reg t = get_counter E C 0x04 t"
definition set_sa1100 :: "'s chip_env \<Rightarrow> c_time \<Rightarrow> int \<Rightarrow> tm \<Rightarrow> ('s, int) state" where "set_sa1100 E C cent_reg t = set_counter E C 0x04 t"

definition init_pxa250 :: "chip_loc \<Rightarrow> int \<times> chip_loc" where "init_pxa250 c = init_soc 0x40900000 MEMMAPPED 0x10 c"
definition get_pxa250 :: "'s chip_env \<Rightarrow> c_time \<Rightarrow> int \<Rightarrow> tm \<Rightarrow> ('s, int \<times> tm) state" where "get_pxa250 E C cent_reg t = get_counter E C 0x00 t"
definition set_pxa250 :: "'s chip_env \<Rightarrow> c_time \<Rightarrow> int \<Rightarrow> tm \<Rightarrow> ('s, int) state" where "set_pxa250 E C cent_reg t = set_counter E C 0x00 t"

definition init_hy7201 :: "chip_loc \<Rightarrow> int \<times> chip_loc" where
  \<comment> \<open>the size is zero\<close>
  "init_hy7201 c = init_soc 0x80028000 MEMMAPPED 0 c"
definition get_hy7201 :: "'s chip_env \<Rightarrow> c_time \<Rightarrow> int \<Rightarrow> tm \<Rightarrow> ('s, int \<times> tm) state" where "get_hy7201 E C cent_reg t = get_counter E C 0x00 t"
definition set_hy7201 :: "'s chip_env \<Rightarrow> c_time \<Rightarrow> int \<Rightarrow> tm \<Rightarrow> ('s, int) state" where "set_hy7201 E C cent_reg t = set_counter E C 0x00 t"

definition init_mx25srtc :: "chip_loc \<Rightarrow> int \<times> chip_loc" where
  "init_mx25srtc c =
     (let c0 = (if phys c = NIL_PADDR then c\<lparr>phys := 0x53FFC000\<rparr> else c);
          c1 = (if century_reg c0 = UNSET then c0\<lparr>century_reg := - 1\<rparr> else c0);
          c2 = (if access_type c1 = NONE then c1\<lparr>access_type := MEMMAPPED\<rparr> else c1)
      in (0x80, c2\<lparr>reg_shift := 0\<rparr>))"
definition get_mx25srtc :: "'s chip_env \<Rightarrow> c_time \<Rightarrow> int \<Rightarrow> tm \<Rightarrow> ('s, int \<times> tm) state" where "get_mx25srtc E C cent_reg t = get_counter E C 0x00 t"
definition set_mx25srtc :: "'s chip_env \<Rightarrow> c_time \<Rightarrow> int \<Rightarrow> tm \<Rightarrow> ('s, int) state" where "set_mx25srtc E C cent_reg t = set_counter E C 0x00 t"

text \<open>The offsets of the PrimeCell clock are in a header that is not part of the repository; they are arguments.\<close>

definition init_primecell :: "int \<Rightarrow> chip_loc \<Rightarrow> int \<times> chip_loc" where
  "init_primecell sz c =
     (if phys c = NIL_PADDR then (- 1, c)
      else (sz, if access_type c = NONE then c\<lparr>access_type := MEMMAPPED\<rparr> else c))"
definition get_primecell :: "u32 \<Rightarrow> 's chip_env \<Rightarrow> c_time \<Rightarrow> int \<Rightarrow> tm \<Rightarrow> ('s, int \<times> tm) state" where "get_primecell dr E C cent_reg t = get_counter E C dr t"
definition set_primecell :: "u32 \<Rightarrow> 's chip_env \<Rightarrow> c_time \<Rightarrow> int \<Rightarrow> tm \<Rightarrow> ('s, int) state" where "set_primecell lr E C cent_reg t = set_counter E C lr t"

subsection \<open>i.MX6\<close>

definition init_mx6srtc :: "chip_loc \<Rightarrow> int \<times> chip_loc" where "init_mx6srtc c = init_soc 0x020CC000 MEMMAPPED 0x4000 c"

definition mx6srtc_read :: "'s chip_env \<Rightarrow> ('s, u64) state" where
  \<comment> \<open>the counter of 47 bits in two registers\<close>
  "mx6srtc_read E = do { msb \<leftarrow> chip_read32 E 0x50; lsb \<leftarrow> chip_read32 E 0x54; ret (push_bit 32 (ucast msb) OR ucast lsb) }"

primrec get_mx6srtc :: "nat \<Rightarrow> 's chip_env \<Rightarrow> c_time \<Rightarrow> int \<Rightarrow> tm \<Rightarrow> ('s, (int \<times> tm) option) state" where
  "get_mx6srtc 0 E C cent_reg t = ret None"
| "get_mx6srtc (Suc n) E C cent_reg t =
     do {
       read1 \<leftarrow> mx6srtc_read E;
       read2 \<leftarrow> mx6srtc_read E;
       if read1 \<noteq> read2 then get_mx6srtc n E C cent_reg t
       else ret (Some (0, c_gmtime C (ucast (drop_bit 15 read1))))
     }"

definition set_mx6srtc :: "nat \<Rightarrow> 's chip_env \<Rightarrow> c_time \<Rightarrow> int \<Rightarrow> tm \<Rightarrow> ('s, int option) state" where
  "set_mx6srtc n E C cent_reg t =
     do {
       let tt = c_mktime C t - u (c_timezone C);
       v \<leftarrow> chip_read32 E 0x38;
       let lp_cr = v AND NOT 1;
       chip_write32 E 0x38 lp_cr;
       off \<leftarrow> wait_for n E 0x38 32 (\<lambda>v. v AND 1 = 0);
       case off of None \<Rightarrow> ret None
       | Some _ \<Rightarrow> do {
           chip_write32 E 0x54 (push_bit 15 tt);
           chip_write32 E 0x50 (drop_bit (32 - 15) tt);
           chip_write32 E 0x38 (lp_cr OR 1);
           on \<leftarrow> wait_for n E 0x38 32 (\<lambda>v. v AND 1 \<noteq> 0);
           case on of None \<Rightarrow> ret None | Some _ \<Rightarrow> ret (Some 0)
         }
     }"

subsection \<open>Tuareg\<close>

definition init_tuareg :: "chip_loc \<Rightarrow> int \<times> chip_loc" where "init_tuareg c = init_soc 0xf0002800 MEMMAPPED 0x22 c"

definition get_tuareg :: "'s chip_env \<Rightarrow> c_time \<Rightarrow> int \<Rightarrow> tm \<Rightarrow> ('s, int \<times> tm) state" where
  "get_tuareg E C cent_reg t =
     do {
       l \<leftarrow> chip_read16 E 0x04;
       m \<leftarrow> chip_read16 E 0x08;
       h \<leftarrow> chip_read16 E 0x0C;
       ret (0, c_gmtime C (l div 32768 + m * 2 + h * 0x20000))
     }"

definition set_tuareg :: "nat \<Rightarrow> 's chip_env \<Rightarrow> c_time \<Rightarrow> int \<Rightarrow> tm \<Rightarrow> ('s, int option) state" where
  "set_tuareg n E C cent_reg t =
     do {
       let tt = c_mktime C t - u (c_timezone C);
       let ready = (\<lambda>v. v AND 0x20 \<noteq> 0);
       chip_write16 E 0 0x10;
       w \<leftarrow> wait_for n E 0 16 ready;
       if w = None then ret None else do {
         chip_write16 E 0x0C (tt div 0x20000);
         w \<leftarrow> wait_for n E 0 16 ready;
         if w = None then ret None else do {
           chip_write16 E 0x08 ((tt mod 0x20000) div 2);
           w \<leftarrow> wait_for n E 0 16 ready;
           if w = None then ret None else do {
             chip_write16 E 0x04 ((tt div 0x20000) div 2 mod 2);
             w \<leftarrow> wait_for n E 0 16 ready;
             if w = None then ret None else do {
               c \<leftarrow> chip_read16 E 0;
               chip_write16 E 0 (c AND NOT 0x10);
               ret (Some 0)
             }
           }
         }
       }
     }"

subsection \<open>S3C2400, OMAP and DM816x\<close>

definition init_s3c2400 :: "chip_loc \<Rightarrow> int \<times> chip_loc" where "init_s3c2400 c = init_soc 0x15700040 MEMMAPPED 0x50 c"

definition get_s3c2400 :: "'s chip_env \<Rightarrow> int \<Rightarrow> tm \<Rightarrow> ('s, int \<times> tm) state" where
  "get_s3c2400 E cent_reg t =
     do {
       sec \<leftarrow> chip_read8 E 0x30; minu \<leftarrow> chip_read8 E 0x34; hour \<leftarrow> chip_read8 E 0x38;
       mday \<leftarrow> chip_read8 E 0x3C; mon \<leftarrow> chip_read8 E 0x44; year \<leftarrow> chip_read8 E 0x48;
       ret (0, t\<lparr>tm_sec := sint (BCD2BIN sec), tm_min := sint (BCD2BIN minu), tm_hour := sint (BCD2BIN hour),
                 tm_mday := sint (BCD2BIN mday), tm_mon := sint (BCD2BIN mon - 1), tm_year := sint (BCD2BIN year + 100)\<rparr>)
     }"

definition set_s3c2400 :: "'s chip_env \<Rightarrow> int \<Rightarrow> tm \<Rightarrow> ('s, int) state" where
  "set_s3c2400 E cent_reg t =
     do {
       chip_write8 E 0x30 (u (BIN2BCD (tm_sec t)));
       chip_write8 E 0x34 (u (BIN2BCD (tm_min t)));
       chip_write8 E 0x38 (u (BIN2BCD (tm_hour t)) OR 0);
       chip_write8 E 0x40 (u (tm_wday t + 1));
       chip_write8 E 0x3C (u (BIN2BCD (tm_mday t)));
       chip_write8 E 0x44 (u (BIN2BCD (tm_mon t + 1)));
       chip_write8 E 0x48 (u (BIN2BCD (tm_year t smod 100)));
       ret 0
     }"

definition init_omap :: "chip_loc \<Rightarrow> int \<times> chip_loc" where "init_omap c = init_soc 0xfffb4800 MEMMAPPED 0x54 c"

definition get_omap :: "'s chip_env \<Rightarrow> int \<Rightarrow> tm \<Rightarrow> ('s, int \<times> tm) state" where
  "get_omap E cent_reg t =
     do {
       sec \<leftarrow> chip_read32 E 0x00; minu \<leftarrow> chip_read32 E 0x04; hour \<leftarrow> chip_read32 E 0x08;
       mday \<leftarrow> chip_read32 E 0x0c; mon \<leftarrow> chip_read32 E 0x10; year \<leftarrow> chip_read32 E 0x14;
       ret (0, t\<lparr>tm_sec := sint (BCD2BIN (sec AND 0xff)), tm_min := sint (BCD2BIN (minu AND 0xff)),
                 tm_hour := sint (BCD2BIN (hour AND 0xff)), tm_mday := sint (BCD2BIN (mday AND 0xff)),
                 tm_mon := sint (BCD2BIN (mon AND 0xff)), tm_year := sint (BCD2BIN (year AND 0xff) + 100)\<rparr>)
     }"

definition set_omap :: "'s chip_env \<Rightarrow> int \<Rightarrow> tm \<Rightarrow> ('s, int) state" where
  "set_omap E cent_reg t =
     do {
       chip_write32 E 0x00 (u (BIN2BCD (tm_sec t)));
       chip_write32 E 0x04 (u (BIN2BCD (tm_min t)));
       chip_write32 E 0x08 (u (BIN2BCD (tm_hour t)) OR 0);
       chip_write32 E 0x18 (u (tm_wday t + 1));
       chip_write32 E 0x0c (u (BIN2BCD (tm_mday t)));
       chip_write32 E 0x10 (u (BIN2BCD (tm_mon t)));
       chip_write32 E 0x14 (u (BIN2BCD (tm_year t smod 100)));
       ret 0
     }"

definition init_dm816x :: "chip_loc \<Rightarrow> int \<times> chip_loc" where "init_dm816x c = init_soc 0x480C0000 MEMMAPPED 0x1000 c"

definition get_dm816x :: "'s chip_env \<Rightarrow> int \<Rightarrow> tm \<Rightarrow> ('s, int \<times> tm) state" where
  "get_dm816x E cent_reg t =
     do {
       sec \<leftarrow> chip_read32 E 0x00; minu \<leftarrow> chip_read32 E 0x04; hour \<leftarrow> chip_read32 E 0x08;
       mday \<leftarrow> chip_read32 E 0x0c; mon \<leftarrow> chip_read32 E 0x10; year \<leftarrow> chip_read32 E 0x14;
       ret (0, t\<lparr>tm_sec := sint (BCD2BIN (sec AND 0xff)), tm_min := sint (BCD2BIN (minu AND 0xff)),
                 tm_hour := sint (BCD2BIN (hour AND 0xff)), tm_mday := sint (BCD2BIN (mday AND 0xff)),
                 tm_mon := sint (BCD2BIN (mon AND 0xff) - 1), tm_year := sint (BCD2BIN (year AND 0xff) + 100)\<rparr>)
     }"

definition set_dm816x :: "nat \<Rightarrow> 's chip_env \<Rightarrow> int \<Rightarrow> tm \<Rightarrow> ('s, int option) state" where
  "set_dm816x n E cent_reg t =
     do {
       chip_write32 E 0x6C 0x83e70b13;
       chip_write32 E 0x70 0x95a4f1e0;
       ctrl \<leftarrow> chip_read32 E 0x40;
       chip_write32 E 0x40 (ctrl AND 0xff AND NOT 0x01);
       w \<leftarrow> wait_for n E 0x44 32 (\<lambda>v. v AND 0x02 = 0);
       if w = None then ret None else do {
         chip_write32 E 0x00 (u (BIN2BCD (tm_sec t)));
         chip_write32 E 0x04 (u (BIN2BCD (tm_min t)));
         chip_write32 E 0x08 (u (BIN2BCD (tm_hour t)));
         chip_write32 E 0x18 (u (tm_wday t));
         chip_write32 E 0x0c (u (BIN2BCD (tm_mday t)));
         chip_write32 E 0x10 (u (BIN2BCD (tm_mon t + 1)));
         chip_write32 E 0x14 (u (BIN2BCD (tm_year t smod 100)));
         ctrl \<leftarrow> chip_read32 E 0x40;
         chip_write32 E 0x40 (ctrl AND 0xff OR 0x01);
         chip_write32 E 0x6C 0;
         ret (Some 0)
       }
     }"

subsection \<open>SAMA5D3x\<close>

definition sam_bcd2bin :: "u32 \<Rightarrow> u32" where
  "sam_bcd2bin a = drop_bit 12 (a AND 0xf000) * 1000 + drop_bit 8 (a AND 0xf00) * 100 + drop_bit 4 (a AND 0xf0) * 10 + (a AND 0xf)"

definition sam_bin2bcd :: "u32 \<Rightarrow> u32" where
  "sam_bin2bcd a = push_bit 12 (a div 1000) OR push_bit 8 (a mod 1000 div 100) OR push_bit 4 (a mod 100 div 10) OR (a mod 10)"

definition init_atsama5d3x :: "chip_loc \<Rightarrow> int \<times> chip_loc" where "init_atsama5d3x c = init_soc 0xFFFFFEB0 MEMMAPPED 0x100 c"

definition validity_check :: "'s chip_env \<Rightarrow> ('s, int) state" where
  "validity_check E =
     do {
       ver \<leftarrow> chip_read32 E 0x2C;
       if ver AND 3 \<noteq> 0 then ret (- 1)
       else do { mr \<leftarrow> chip_read32 E 0x04; ret (if mr \<noteq> 0 then - 1 else 0) }
     }"

definition get_atsama5d3x :: "'s chip_env \<Rightarrow> int \<Rightarrow> tm \<Rightarrow> ('s, int \<times> tm) state" where
  "get_atsama5d3x E cent_reg t =
     do {
       v \<leftarrow> validity_check E;
       if v \<noteq> 0 then ret (- 1, t)
       else do {
         timr \<leftarrow> chip_read32 E 0x08;
         calr \<leftarrow> chip_read32 E 0x0C;
         let cent = sam_bcd2bin (drop_bit 0 calr AND 0x7F);
         let year = sam_bcd2bin (drop_bit 8 calr AND 0xFF);
         ret (0, t\<lparr>tm_sec := sint (sam_bcd2bin (drop_bit 0 timr AND 0x7F)), tm_min := sint (sam_bcd2bin (drop_bit 8 timr AND 0x7F)),
                   tm_hour := sint (sam_bcd2bin (drop_bit 16 timr AND 0x3F)), tm_mday := sint (sam_bcd2bin (drop_bit 24 calr AND 0x3F)),
                   tm_mon := sint (sam_bcd2bin (drop_bit 16 calr AND 0x1F) - 1), tm_year := sint (year + cent * 100 - 1900),
                   tm_wday := sint (sam_bcd2bin (drop_bit 21 calr AND 0x07) - 1), tm_yday := 0, tm_isdst := - 1\<rparr>)
       }
     }"

primrec sam_ack :: "nat \<Rightarrow> 's chip_env \<Rightarrow> ('s, bool) state" where
  "sam_ack 0 E = ret False"
| "sam_ack (Suc n) E =
     do { sr \<leftarrow> chip_read32 E 0x18; if sr AND 1 = 0 then do { nanosleep E 1000000; sam_ack n E } else ret True }"

definition rtc_lock :: "nat \<Rightarrow> 's chip_env \<Rightarrow> ('s, bool) state" where
  "rtc_lock n E = do { cr \<leftarrow> chip_read32 E 0x00; chip_write32 E 0x00 (cr OR 3); sam_ack n E }"

definition rtc_unlock :: "'s chip_env \<Rightarrow> ('s, unit) state" where
  "rtc_unlock E = do { cr \<leftarrow> chip_read32 E 0x00; chip_write32 E 0x00 (cr AND NOT 3); chip_write32 E 0x1C 1 }"

definition set_atsama5d3x :: "nat \<Rightarrow> 's chip_env \<Rightarrow> int \<Rightarrow> tm \<Rightarrow> ('s, int option) state" where
  "set_atsama5d3x n E cent_reg t =
     do {
       let timr = (sam_bin2bcd (u (min (tm_sec t) 59)) AND 0x7F) OR push_bit 8 (sam_bin2bcd (u (tm_min t)) AND 0x7F) OR
                  push_bit 16 (sam_bin2bcd (u (tm_hour t)) AND 0x3F);
       let calr = (sam_bin2bcd (u ((tm_year t + 1900) sdiv 100)) AND 0x7F) OR push_bit 8 (sam_bin2bcd (u (tm_year t smod 100)) AND 0xFF) OR
                  push_bit 16 (sam_bin2bcd (u (tm_mon t + 1)) AND 0x1F) OR push_bit 21 (sam_bin2bcd (u (tm_wday t + 1)) AND 0x07) OR
                  push_bit 24 (sam_bin2bcd (u (tm_mday t)) AND 0x3F);
       ok \<leftarrow> rtc_lock n E;
       if \<not> ok then ret None
       else do {
         chip_write32 E 0x04 0;
         chip_write32 E 0x08 timr;
         chip_write32 E 0x0C calr;
         rtc_unlock E;
         ret (Some 0)
       }
     }"

subsection \<open>MC9328MX1\<close>

definition daypermonth :: "int list" where
  "daypermonth = [31, 28, 31, 30, 31, 30, 31, 31, 30, 31, 30, 31]"

fun yearday_loop :: "int \<Rightarrow> int \<Rightarrow> int list \<Rightarrow> int \<times> int" where
  \<comment> \<open>the day in the month and the month\<close>
  "yearday_loop yearday month [] = (yearday, month)"
| "yearday_loop yearday month (d # ds) = (if yearday \<ge> d then yearday_loop (yearday - d) (month + 1) ds else (yearday, month))"

definition yearday2monthday :: "int \<Rightarrow> int \<times> int \<times> int" where
  \<comment> \<open>the result, the day of the month and the month\<close>
  "yearday2monthday yearday =
     (if yearday < 0 \<or> yearday > 364 then (0, 1, 0)
      else let (d, m) = yearday_loop yearday 0 daypermonth in (1, d + 1, m))"

definition monthday2yearday :: "int \<Rightarrow> int \<Rightarrow> int" where
  "monthday2yearday month monthday =
     (let month = (if month < 0 \<or> month > 11 then 0 else month);
          monthday = (if monthday < 1 \<or> monthday \<ge> daypermonth ! nat month then 1 else monthday)
      in sum_list (take (nat month) daypermonth) + monthday - 1)"

definition init_mc9328mxlads :: "chip_loc \<Rightarrow> int \<times> chip_loc" where "init_mc9328mxlads c = init_soc 0x00204000 IOMAPPED 0x28 c"

definition get_mc9328mxlads :: "'s chip_env \<Rightarrow> c_time \<Rightarrow> u32 \<Rightarrow> int \<Rightarrow> tm \<Rightarrow> ('s, int \<times> tm) state" where
  \<comment> \<open>the third argument is \<open>time(NULL)\<close>\<close>
  "get_mc9328mxlads E C now cent_reg t =
     do {
       d \<leftarrow> chip_read32 E 0x20;
       hm \<leftarrow> chip_read32 E 0x00;
       hm' \<leftarrow> chip_read32 E 0x00;
       s \<leftarrow> chip_read32 E 0x04;
       let t1 = c_gmtime C now;
       let (ok, mdays, months) = yearday2monthday (sint (d AND 0x1FF));
       (if ok = 0 then chip_write32 E 0x20 0 else ret ());
       ret (0, t1\<lparr>tm_sec := sint (s AND 0x3F), tm_min := sint (hm' AND 0x3F), tm_hour := sint (drop_bit 8 hm AND 0x1F),
                  tm_mday := mdays, tm_mon := months, tm_wday := 0, tm_yday := 0\<rparr>)
     }"

definition set_mc9328mxlads :: "'s chip_env \<Rightarrow> int \<Rightarrow> tm \<Rightarrow> ('s, int) state" where
  "set_mc9328mxlads E cent_reg t =
     do {
       chip_write32 E 0x20 (u (monthday2yearday (tm_mon t) (tm_mday t)) AND 0x1FF);
       chip_write32 E 0x00 (push_bit 8 (u (tm_hour t) AND 0x1F) + (u (tm_min t) AND 0x3F));
       chip_write32 E 0x04 (u (tm_sec t) AND 0x3F);
       ret 0
     }"

subsection \<open>Triton: a DS1339 on two pins\<close>

definition gpio_bit :: "u32 \<Rightarrow> u32" where "gpio_bit x = push_bit (unat (x AND 0x1f)) 1"
definition RTC_SCL_GPIO :: u32 where "RTC_SCL_GPIO = 3"
definition RTC_SDA_GPIO :: u32 where "RTC_SDA_GPIO = 4"
definition GPIO_OUT :: u32 where "GPIO_OUT = 0x80"
definition ENODEV :: int where "ENODEV = 19"

definition i2c_gpio_bit_delay :: "'s chip_env \<Rightarrow> nat \<Rightarrow> ('s, unit) state" where
  \<comment> \<open>a delay, as the other waits\<close>
  "i2c_gpio_bit_delay E x = nanosleep E (x * 5000)"

definition gpio_tst_bit :: "'s chip_env \<Rightarrow> u32 \<Rightarrow> ('s, int) state" where
  "gpio_tst_bit E gpio = do { v \<leftarrow> chip_read32 E 0x00; ret (if v AND gpio_bit gpio \<noteq> 0 then 1 else 0) }"

definition pxa_gpio_mode :: "'s chip_env \<Rightarrow> u32 \<Rightarrow> ('s, unit) state" where
  "pxa_gpio_mode E gpio_mode =
     do {
       interrupts E False;
       gpdr \<leftarrow> chip_read32 E 0x0c;
       chip_write32 E 0x0c (if gpio_mode AND GPIO_OUT \<noteq> 0 then gpdr OR gpio_bit gpio_mode else gpdr AND NOT (gpio_bit gpio_mode));
       interrupts E True
     }"

definition i2c_gpio_pin_dir :: "'s chip_env \<Rightarrow> bool \<Rightarrow> ('s, unit) state" where
  "i2c_gpio_pin_dir E out =
     do {
       v \<leftarrow> chip_read32 E 0x0c;
       if out
       then if v AND gpio_bit RTC_SDA_GPIO = 0 then pxa_gpio_mode E (RTC_SDA_GPIO OR GPIO_OUT) else ret ()
       else if v AND gpio_bit RTC_SDA_GPIO \<noteq> 0 then pxa_gpio_mode E RTC_SDA_GPIO else ret ()
     }"

definition i2c_gpio_set_pin :: "'s chip_env \<Rightarrow> u32 \<Rightarrow> bool \<Rightarrow> ('s, unit) state" where
  "i2c_gpio_set_pin E gpio value = chip_write32 E (if value then 0x18 else 0x24) (gpio_bit gpio)"

abbreviation "i2c_gpio_set_clk E value \<equiv> i2c_gpio_set_pin E RTC_SCL_GPIO value"
abbreviation "i2c_gpio_set_data E value \<equiv> i2c_gpio_set_pin E RTC_SDA_GPIO value"
abbreviation "i2c_gpio_get_data E \<equiv> gpio_tst_bit E RTC_SDA_GPIO"

definition i2c_gpio_startbit :: "'s chip_env \<Rightarrow> ('s, unit) state" where
  "i2c_gpio_startbit E =
     do {
       i2c_gpio_set_data E True; i2c_gpio_pin_dir E True; i2c_gpio_set_clk E True; i2c_gpio_bit_delay E 1;
       i2c_gpio_set_data E False; i2c_gpio_bit_delay E 1; i2c_gpio_set_clk E False; i2c_gpio_bit_delay E 1
     }"

definition i2c_gpio_stop :: "'s chip_env \<Rightarrow> ('s, unit) state" where
  "i2c_gpio_stop E =
     do {
       i2c_gpio_set_data E False; i2c_gpio_pin_dir E True; i2c_gpio_set_clk E True; i2c_gpio_bit_delay E 1;
       i2c_gpio_set_data E True; i2c_gpio_bit_delay E 1
     }"

definition i2c_gpio_write_bit :: "'s chip_env \<Rightarrow> bool \<Rightarrow> ('s, unit) state" where
  "i2c_gpio_write_bit E value =
     do {
       i2c_gpio_set_data E value; i2c_gpio_pin_dir E True; i2c_gpio_bit_delay E 1; i2c_gpio_set_clk E True;
       i2c_gpio_bit_delay E 1; i2c_gpio_set_clk E False; i2c_gpio_bit_delay E 1
     }"

definition i2c_gpio_init :: "'s chip_env \<Rightarrow> ('s, int) state" where
  "i2c_gpio_init E =
     do {
       i2c_gpio_set_clk E True;
       pxa_gpio_mode E (RTC_SCL_GPIO OR GPIO_OUT);
       i2c_gpio_set_data E False; i2c_gpio_pin_dir E True; i2c_gpio_bit_delay E 10;
       i2c_gpio_pin_dir E False; i2c_gpio_bit_delay E 10;
       d \<leftarrow> i2c_gpio_get_data E;
       i2c_gpio_set_data E True; i2c_gpio_pin_dir E True; i2c_gpio_bit_delay E 10;
       ret (if d = 0 then - ENODEV else 0)
     }"

definition i2c_gpio_read_bit :: "'s chip_env \<Rightarrow> ('s, int) state" where
  "i2c_gpio_read_bit E =
     do {
       i2c_gpio_set_data E True; i2c_gpio_pin_dir E False; i2c_gpio_bit_delay E 1;
       bit \<leftarrow> i2c_gpio_get_data E;
       i2c_gpio_set_clk E True; i2c_gpio_bit_delay E 1; i2c_gpio_set_clk E False; i2c_gpio_bit_delay E 1;
       ret bit
     }"

primrec read_bits :: "nat \<Rightarrow> 's chip_env \<Rightarrow> int \<Rightarrow> ('s, int) state" where
  "read_bits 0 E data = ret data"
| "read_bits (Suc n) E data = do { b \<leftarrow> i2c_gpio_read_bit E; read_bits n E (push_bit 1 data OR b) }"

definition i2c_gpio_read_byte :: "'s chip_env \<Rightarrow> ('s, int) state" where
  "i2c_gpio_read_byte E = do { data \<leftarrow> read_bits 8 E 0; i2c_gpio_write_bit E True; ret data }"

primrec write_bits :: "nat \<Rightarrow> 's chip_env \<Rightarrow> u8 \<Rightarrow> ('s, unit) state" where
  \<comment> \<open>from the bit below the argument down to bit zero\<close>
  "write_bits 0 E data = ret ()"
| "write_bits (Suc i) E data = do { i2c_gpio_write_bit E (data AND push_bit i 1 \<noteq> 0); write_bits i E data }"

definition i2c_gpio_write_byte :: "'s chip_env \<Rightarrow> u8 \<Rightarrow> ('s, int) state" where
  "i2c_gpio_write_byte E data =
     do { write_bits 8 E data; b \<leftarrow> i2c_gpio_read_bit E; ret (if b \<noteq> 0 then - ENODEV else 0) }"

definition i2c_gpio_start :: "'s chip_env \<Rightarrow> u8 \<Rightarrow> u8 \<Rightarrow> ('s, int) state" where
  "i2c_gpio_start E chip_id rw = do { i2c_gpio_startbit E; i2c_gpio_write_byte E (push_bit 1 chip_id OR rw) }"

definition ds1339_read_reg :: "'s chip_env \<Rightarrow> u8 \<Rightarrow> ('s, int) state" where
  "ds1339_read_reg E reg =
     do {
       result \<leftarrow> i2c_gpio_init E;
       if result \<noteq> 0 then ret result
       else do {
         result \<leftarrow> i2c_gpio_start E 0x68 0;
         if result \<noteq> 0 then ret result
         else do {
           result \<leftarrow> i2c_gpio_write_byte E reg;
           i2c_gpio_stop E;
           result \<leftarrow> i2c_gpio_start E 0x68 1;
           if result \<noteq> 0 then ret result
           else do {
             result \<leftarrow> i2c_gpio_read_byte E;
             if result < 0 then ret result else do { i2c_gpio_stop E; ret result }
           }
         }
       }
     }"

definition ds1339_write_reg :: "'s chip_env \<Rightarrow> u8 \<Rightarrow> u8 \<Rightarrow> ('s, int) state" where
  "ds1339_write_reg E regno val =
     do {
       result \<leftarrow> i2c_gpio_init E;
       if result \<noteq> 0 then ret result
       else do {
         result \<leftarrow> i2c_gpio_start E 0x68 0;
         result \<leftarrow> (if result = 0 then i2c_gpio_write_byte E regno else ret result);
         result \<leftarrow> (if result = 0 then i2c_gpio_write_byte E val else ret result);
         i2c_gpio_stop E;
         ret result
       }
     }"

definition init_triton :: "chip_loc \<Rightarrow> int \<times> chip_loc" where
  "init_triton c = (let (sz, c) = init_soc 0x40e00000 MEMMAPPED 0x6c c in (sz, c\<lparr>reg_shift := 0\<rparr>))"

fun triton_regs :: "'s chip_env \<Rightarrow> u8 list \<Rightarrow> ('s, u8 list) state" where
  "triton_regs E [] = ret []"
| "triton_regs E (reg # regs) =
     do { v \<leftarrow> ds1339_read_reg E reg; vs \<leftarrow> triton_regs E regs; ret (word_of_int v # vs) }"

definition triton_tm :: "u8 list \<Rightarrow> tm \<Rightarrow> tm" where
  "triton_tm date t =
     (let b = (\<lambda>i m. sint (BCD2BIN (ucast (date ! i) AND m)));
          y = b 6 0xff
      in t\<lparr>tm_sec := b 0 0xff, tm_min := b 1 0xff, tm_hour := b 2 0x3F, tm_mday := b 4 0xff, tm_mon := b 5 0x1F - 1,
           tm_year := (if y < 70 then y + 100 else y), tm_wday := b 3 0xff - 1\<rparr>)"

primrec get_triton :: "nat \<Rightarrow> 's chip_env \<Rightarrow> int \<Rightarrow> tm \<Rightarrow> ('s, (int \<times> tm) option) state" where
  "get_triton 0 E cent_reg t = ret None"
| "get_triton (Suc n) E cent_reg t =
     do {
       date \<leftarrow> triton_regs E [0, 1, 2, 3, 4, 5, 6];
       sec \<leftarrow> ds1339_read_reg E 0;
       if uint (date ! 0) \<noteq> sec then get_triton n E cent_reg t else ret (Some (0, triton_tm date t))
     }"

fun triton_put :: "'s chip_env \<Rightarrow> u8 list \<Rightarrow> u8 list \<Rightarrow> ('s, unit) state" where
  "triton_put E (reg # regs) (v # vs) = do { ds1339_write_reg E reg v; triton_put E regs vs }"
| "triton_put E _ _ = ret ()"

definition set_triton :: "'s chip_env \<Rightarrow> int \<Rightarrow> tm \<Rightarrow> ('s, int) state" where
  "set_triton E cent_reg t =
     do {
       triton_put E [0, 1, 2, 3, 4, 5, 6]
         (map (\<lambda>x. word_of_int (BIN2BCD x))
            [tm_sec t, tm_min t, tm_hour t, tm_wday t + 1, tm_mday t, tm_mon t + 1, tm_year t smod 100]);
       ret 0
     }"

subsection \<open>The clock of the i.MX6\<close>

lemma srtc_pack:
  fixes v :: u32
  shows "(ucast (drop_bit 15 (push_bit 32 (ucast (drop_bit 17 v)) OR ucast (push_bit 15 v) :: u64)) :: u32) = v"
proof (rule bit_word_eqI)
  fix i
  assume "i < LENGTH(32)"
  then show "bit (ucast (drop_bit 15 (push_bit 32 (ucast (drop_bit 17 v)) OR ucast (push_bit 15 v) :: u64)) :: u32) i = bit v i"
    by (auto simp: bit_simps)
qed

lemma wait_reg:
  assumes "rtc_regs E w reg put has" "has r" "p (reg s r)"
  shows "run_state (wait_for (Suc n) E r w p) s = (Some (), s)"
  using assms by (simp add: rtc_regs.read_reg [OF assms(1)])

lemma mx6srtc_set:
  assumes R: "rtc_regs E 32 reg put has" and has: "has 0x38" "has 0x50" "has 0x54"
    and s': "s' = snd (run_state (set_mx6srtc (Suc n) E C c t) s)" and v: "v = c_mktime C t - u (c_timezone C)"
  shows "fst (run_state (set_mx6srtc (Suc n) E C c t) s) = Some 0" "reg s' 0x50 = drop_bit 17 v" "reg s' 0x54 = push_bit 15 v"
    "reg s' 0x38 AND 1 = 1"
proof -
  note k = rtc_regs.reg_simps [OF R] has take32 and.assoc bit.conj_disj_distrib2
  show "fst (run_state (set_mx6srtc (Suc n) E C c t) s) = Some 0" "reg s' 0x50 = drop_bit 17 v" "reg s' 0x54 = push_bit 15 v"
    "reg s' 0x38 AND 1 = 1"
    unfolding s' v by (simp_all add: set_mx6srtc_def Let_def k)
qed

text \<open>
  C37: the clock of the i.MX6 gives back the time it was set to. Both loops of \<open>set\<close> end, the counter of 47 bits is spread over the two
  registers and put together again without a loss, and what is read is the date and time of day that was set: for a valid date of
  the years 1970 to 2099 in standard time (\<open>tm_isdst\<close> zero, as the utility calls \<open>set\<close> for a clock that keeps UTC), whatever the
  time zone of the system, as long as \<open>mktime\<close> can represent it there. The registers are taken to hold at once what was written.
\<close>

theorem mx6srtc_round_trip:
  assumes R: "rtc_regs E 32 reg put has" and C: "c_calendar C" and has: "has 0x38" "has 0x50" "has 0x54"
    and t: "date_ok t" "tm_isdst t = 0" "representable C t"
  shows "fst (run_state (set_mx6srtc (Suc n) E C c t) s) = Some 0 \<and>
    (\<exists>t'. fst (run_state (get_mx6srtc (Suc m) E C c t0) (snd (run_state (set_mx6srtc (Suc n) E C c t) s))) = Some (0, t') \<and>
       copy_time t' t1 = copy_time t t1)"
proof -
  let ?v = "c_mktime C t - u (c_timezone C)"
  note f = mx6srtc_set [OF R has refl refl, where n = n and C = C and c = c and t = t and s = s]
  have "fst (run_state (get_mx6srtc (Suc m) E C c t0) (snd (run_state (set_mx6srtc (Suc n) E C c t) s))) = Some (0, c_gmtime C ?v)"
    using has by (simp add: mx6srtc_read_def rtc_regs.read_reg [OF R] f srtc_pack del: drop_bit_or)
  then show ?thesis using f(1) c_calendar.gmtime_mktime [OF C t] by simp
qed

theorem mx6srtc_round_trip_witness:
  "list_all (\<lambda>z.
     fst (run_state (set_mx6srtc 1 (file_env (at_mem demo_chip) 0) (zone_time z) 0 demo_tm) (\<lambda>_. 0)) = Some 0 \<and>
     (\<exists>t'. fst (run_state (get_mx6srtc 1 (file_env (at_mem demo_chip) 0) (zone_time z) 0 demo_tm)
        (snd (run_state (set_mx6srtc 1 (file_env (at_mem demo_chip) 0) (zone_time z) 0 demo_tm) (\<lambda>_. 0)))) = Some (0, t') \<and>
        copy_time t' demo_tm = demo_tm)) [- 3600, 0, 18000]"
  (is "list_all ?P _")
proof -
  have d: "date_ok demo_tm" "tm_isdst demo_tm = 0" by (simp_all add: date_ok_def tm_ok_def demo_tm_def leap4_def mdays_def)
  have e: "copy_time demo_tm demo_tm = demo_tm" by (simp add: copy_time_def)
  have "utc_seconds demo_tm = 1410788730"
    by (simp add: utc_seconds_def demo_tm_def days_before_def mdays_def leap4_def)
  then have r: "representable (zone_time z) demo_tm" if "z \<in> {- 3600, 0, 18000}" for z
    using that by (auto simp: representable_def zone_time_def)
  show ?thesis unfolding list_all_iff
  proof
    fix z :: int
    assume "z \<in> set [- 3600, 0, 18000]"
    then have z: "z \<in> {- 3600, 0, 18000}" by simp
    note m = mx6srtc_round_trip [OF mem_regs32 zone.c_calendar_axioms [of z] _ _ _ d r [OF z]]
    show "?P z" using m [of demo_chip 0 0 0 "\<lambda>_. 0" 0 demo_tm demo_tm] e by simp
  qed
qed

lemma counter_round_trip:
  assumes R: "rtc_regs E 32 reg put has" and C: "c_calendar C" and has: "has r"
    and t: "date_ok t" "tm_isdst t = 0" "representable C t"
  shows "\<exists>t'. fst (run_state (get_counter E C r t0) (snd (run_state (set_counter E C r t) s))) = (0, t') \<and>
     copy_time t' t1 = copy_time t t1"
  using c_calendar.gmtime_mktime [OF C t] has
  by (simp add: get_counter_def set_counter_def rtc_regs.reg_simps [OF R] take32)

subsection \<open>The last day of a month on the MC9328MX1\<close>

lemma monthday_table:
  "\<forall>m \<in> set [0..11]. \<forall>d \<in> set [1..daypermonth ! nat m].
     yearday2monthday (monthday2yearday m d) = (1, if d = daypermonth ! nat m then 1 else d, m) \<and>
     0 \<le> monthday2yearday m d \<and> monthday2yearday m d < 365"
  by code_simp

lemma low_bits: "(v :: u32) AND 0x1ff = take_bit 9 v" "v AND 0x3f = take_bit 6 v" "v AND 0x1f = take_bit 5 v" "v AND 0x7f = take_bit 7 v"
  "v AND 0xff = take_bit 8 v" "v AND 0x07 = take_bit 3 v"
  by (simp_all add: take_bit_eq_mask mask_eq_exp_minus_1)

lemma take_small: "0 \<le> x \<Longrightarrow> x < 2 ^ k \<Longrightarrow> take_bit k (u x) = u x"
  unfolding take_bit_of_int by (simp add: take_bit_int_eq_self)

lemma hourmin:
  fixes h m :: u32
  shows "take_bit 5 (drop_bit 8 (push_bit 8 (take_bit 5 h) + take_bit 6 m)) = take_bit 5 h"
    "take_bit 6 (push_bit 8 (take_bit 5 h) + take_bit 6 m) = take_bit 6 m"
proof -
  have e: "push_bit 8 (take_bit 5 h) + take_bit 6 m = push_bit 8 (take_bit 5 h) OR take_bit 6 m"
    by (rule disjunctive_add) (auto simp: bit_simps)
  show "take_bit 5 (drop_bit 8 (push_bit 8 (take_bit 5 h) + take_bit 6 m)) = take_bit 5 h"
    unfolding e by (rule bit_word_eqI) (auto simp: bit_simps)
  show "take_bit 6 (push_bit 8 (take_bit 5 h) + take_bit 6 m) = take_bit 6 m"
    unfolding e by (rule bit_word_eqI) (auto simp: bit_simps)
qed

text \<open>
  The driver of the MC9328MX1, which keeps the day of the year, gives back month, day and time of day of every day but the last of
  a month: that is taken for out of range, and the first of the month comes back.
\<close>

theorem mc9328mxlads_last_day:
  assumes R: "rtc_regs E 32 reg put has" and has: "has 0x00" "has 0x04" "has 0x20" and t: "tm_ok lo hi t"
    and d: "tm_mday t \<le> daypermonth ! nat (tm_mon t)"
  shows "fst (run_state (get_mc9328mxlads E C now c t0) (snd (run_state (set_mc9328mxlads E c t) s))) =
    (0, (c_gmtime C now)\<lparr>tm_sec := tm_sec t, tm_min := tm_min t, tm_hour := tm_hour t,
       tm_mday := (if tm_mday t = daypermonth ! nat (tm_mon t) then 1 else tm_mday t), tm_mon := tm_mon t,
       tm_wday := 0, tm_yday := 0\<rparr>)"
proof -
  note b = tm_bounds [OF t]
  let ?y = "monthday2yearday (tm_mon t) (tm_mday t)"
  have y: "yearday2monthday ?y = (1, if tm_mday t = daypermonth ! nat (tm_mon t) then 1 else tm_mday t, tm_mon t)"
    "0 \<le> ?y" "?y < 365"
    using monthday_table b d t by (auto simp: tm_ok_def)
  have "sint (take_bit 9 (u ?y)) = ?y" using take_small [of ?y 9] y sint_small [of ?y] by simp
  moreover have "sint (take_bit 6 (u (tm_sec t))) = tm_sec t" "sint (take_bit 6 (u (tm_min t))) = tm_min t"
    "sint (take_bit 5 (u (tm_hour t))) = tm_hour t"
    using take_small [of "tm_sec t" 6] take_small [of "tm_min t" 6] take_small [of "tm_hour t" 5] b by (simp_all add: sint_small)
  ultimately show ?thesis
    using has y(1)
    by (simp add: get_mc9328mxlads_def set_mc9328mxlads_def rtc_regs.reg_simps [OF R] take32 Let_def low_bits hourmin
      del: take_bit_of_int split del: if_split)
qed

theorem mc9328mxlads_last_day_witness:
  "fst (run_state (get_mc9328mxlads (file_env (at_mem demo_chip) 0) (zone_time 0) 0 0 demo_tm)
     (snd (run_state (set_mc9328mxlads (file_env (at_mem demo_chip) 0) 0 (demo_tm\<lparr>tm_mday := 30\<rparr>)) (\<lambda>_. 0)))) =
   (0, (c_gmtime (zone_time 0) 0)\<lparr>tm_sec := 30, tm_min := 45, tm_hour := 13, tm_mday := 1, tm_mon := 8, tm_wday := 0, tm_yday := 0\<rparr>)"
  using mc9328mxlads_last_day [OF mem_regs32, of demo_chip 70 170 "demo_tm\<lparr>tm_mday := 30\<rparr>" 0 "zone_time 0" 0 0 demo_tm "\<lambda>_. 0"]
  by (simp add: tm_ok_def demo_tm_def daypermonth_def)

subsection \<open>A board without the DS1339\<close>

definition leaves :: "('s \<Rightarrow> 'b) \<Rightarrow> ('s, 'a) state \<Rightarrow> bool" where
  \<comment> \<open>the operation does not change what the first argument gives\<close>
  "leaves f m \<longleftrightarrow> (\<forall>s. f (snd (run_state m s)) = f s)"

lemma leaves_bind: "leaves f m \<Longrightarrow> (\<And>x. leaves f (g x)) \<Longrightarrow> leaves f (do { x \<leftarrow> m; g x })"
  by (simp add: leaves_def split: prod.split) (metis snd_conv)

lemma leaves_return: "leaves f (ret x)"
  by (simp add: leaves_def)

lemma leaves_if: "leaves f a \<Longrightarrow> leaves f b \<Longrightarrow> leaves f (if c then a else b)"
  by simp

locale gpio_chip = rtc_regs E 32 reg put has for E :: "'s chip_env" and reg put has +
  assumes gpio: "has 0x00" "has 0x0c" "has 0x18" "has 0x24"
begin

abbreviation level :: "'s \<Rightarrow> u32" where "level s \<equiv> reg s 0x00"

lemma leaves_ops: "has r \<Longrightarrow> leaves level (chip_read32 E r)" "has r \<Longrightarrow> r \<noteq> 0 \<Longrightarrow> leaves level (chip_write32 E r v)"
  "leaves level (nanosleep E k)" "leaves level (interrupts E b)"
  by (simp_all add: leaves_def reg_simps gpio)

lemma leaves_pin: "leaves level (i2c_gpio_set_pin E g v)" "leaves level (i2c_gpio_bit_delay E k)" "leaves level (pxa_gpio_mode E m)"
  "leaves level (i2c_gpio_pin_dir E out)" "leaves level (gpio_tst_bit E g)"
  unfolding i2c_gpio_set_pin_def i2c_gpio_bit_delay_def pxa_gpio_mode_def i2c_gpio_pin_dir_def gpio_tst_bit_def
  by (intro leaves_bind leaves_return leaves_if leaves_ops; simp add: gpio)+

end

definition gives :: "('s \<Rightarrow> 'b) \<Rightarrow> 'b \<Rightarrow> ('s, 'a) state \<Rightarrow> 'a \<Rightarrow> bool" where
  \<comment> \<open>where the first argument gives \<open>v\<close>, the result is \<open>r\<close>, and \<open>v\<close> is kept\<close>
  "gives f v m r \<longleftrightarrow> (\<forall>s. f s = v \<longrightarrow> fst (run_state m s) = r \<and> f (snd (run_state m s)) = v)"

lemma gives_keep: "leaves f m \<Longrightarrow> (\<And>x. gives f v (g x) r) \<Longrightarrow> gives f v (do { x \<leftarrow> m; g x }) r"
  by (simp add: gives_def leaves_def split: prod.split) (metis snd_conv)

lemma gives_bind: "gives f v m a \<Longrightarrow> gives f v (g a) r \<Longrightarrow> gives f v (do { x \<leftarrow> m; g x }) r"
  by (simp add: gives_def split: prod.split) (metis fst_conv snd_conv)

lemma gives_return: "gives f v (ret r) r"
  by (simp add: gives_def)

context gpio_chip
begin

lemma gives_data: "v AND gpio_bit RTC_SDA_GPIO = 0 \<Longrightarrow> gives level v (i2c_gpio_get_data E) 0"
  by (simp add: gives_def gpio_tst_bit_def reg_simps gpio)

lemma no_device:
  assumes "v AND gpio_bit RTC_SDA_GPIO = 0"
  shows "gives level v (i2c_gpio_init E) (- ENODEV)"
proof -
  have "gives level v (do { i2c_gpio_set_data E True; i2c_gpio_pin_dir E True; i2c_gpio_bit_delay E 10;
       ret (if (0 :: int) = 0 then - ENODEV else 0) }) (- ENODEV)"
    by (simp, intro gives_keep leaves_pin gives_return)
  note gives_bind [OF gives_data [OF assms], where g = "\<lambda>d. do { i2c_gpio_set_data E True; i2c_gpio_pin_dir E True; i2c_gpio_bit_delay E 10;
       ret (if d = 0 then - ENODEV else 0) }", OF this]
  then show ?thesis
    unfolding i2c_gpio_init_def by - ((rule gives_keep, rule leaves_pin(1) leaves_pin(2) leaves_pin(3) leaves_pin(4))+, assumption)
qed

lemma no_device_read:
  assumes "v AND gpio_bit RTC_SDA_GPIO = 0"
  shows "gives level v (ds1339_read_reg E r) (- ENODEV)"
  unfolding ds1339_read_reg_def
  by (rule gives_bind [OF no_device [OF assms]]) (simp add: ENODEV_def gives_return)

lemma no_device_regs:
  assumes "v AND gpio_bit RTC_SDA_GPIO = 0"
  shows "gives level v (triton_regs E regs) (map (\<lambda>_. word_of_int (- ENODEV)) regs)"
proof (induction regs)
  case (Cons r regs)
  show ?case
    unfolding triton_regs.simps list.map
    by (rule gives_bind [OF no_device_read [OF assms]], rule gives_bind [OF Cons], rule gives_return)
qed (simp add: gives_return)

lemma no_device_get:
  assumes "v AND gpio_bit RTC_SDA_GPIO = 0"
  shows "gives level v (get_triton n E c t) None"
proof (induction n)
  case (Suc n)
  show ?case
    unfolding get_triton.simps
    by (rule gives_bind [OF no_device_regs [OF assms]], rule gives_bind [OF no_device_read [OF assms]])
      (simp add: ENODEV_def Suc)
qed (simp add: gives_return)

end

text \<open>
  On a board where the data pin stays low, every read of a register fails with a negative error number. \<open>get\<close> compares it to the
  unsigned byte it has made of the same number, which never agrees: its loop does not end, whatever bound it is given.
\<close>

theorem triton_hangs:
  assumes "gpio_chip E reg put has" and "reg s 0x00 AND gpio_bit RTC_SDA_GPIO = 0"
  shows "fst (run_state (get_triton n E c t) s) = None"
  using gpio_chip.no_device_get [OF assms, of n c t] by (simp add: gives_def)

interpretation mem_gpio: gpio_chip "file_env (at_mem demo_chip) p"
    "\<lambda>f r. f (push_bit (unat (reg_shift demo_chip)) r)" "\<lambda>r v f. f(push_bit (unat (reg_shift demo_chip)) r := v)" "addressed demo_chip" for p
  by unfold_locales simp_all

theorem triton_hangs_witness:
  "fst (run_state (get_triton 1000 (file_env (at_mem demo_chip) 0) 0 demo_tm) (\<lambda>_. 0)) = None"
  by (rule triton_hangs [OF mem_gpio.gpio_chip_axioms]) simp

lemma sam_table:
  "\<forall>x \<in> set [0..99]. sam_bin2bcd (u x) = u (BIN2BCD x) \<and> sam_bcd2bin (u (BIN2BCD x)) = u x"
  by code_simp

subsection \<open>The clock of the SAMA5D3x\<close>

lemma timr_fields:
  fixes a b c :: u32
  defines "w \<equiv> take_bit 7 a OR push_bit 8 (take_bit 7 b) OR push_bit 16 (take_bit 6 c)"
  shows "take_bit 7 w = take_bit 7 a" "take_bit 7 (drop_bit 8 w) = take_bit 7 b" "take_bit 6 (drop_bit 16 w) = take_bit 6 c"
  unfolding w_def by (rule bit_word_eqI; auto simp: bit_simps)+

lemma calr_fields:
  fixes a b c d e :: u32
  defines "w \<equiv> take_bit 7 a OR push_bit 8 (take_bit 8 b) OR push_bit 16 (take_bit 5 c) OR push_bit 21 (take_bit 3 d) OR push_bit 24 (take_bit 6 e)"
  shows "take_bit 7 w = take_bit 7 a" "take_bit 8 (drop_bit 8 w) = take_bit 8 b" "take_bit 5 (drop_bit 16 w) = take_bit 5 c"
    "take_bit 3 (drop_bit 21 w) = take_bit 3 d" "take_bit 6 (drop_bit 24 w) = take_bit 6 e"
  unfolding w_def by (rule bit_word_eqI; auto simp: bit_simps)+

lemma sam_fields:
  "0 \<le> x \<Longrightarrow> x < 80 \<Longrightarrow> sam_bcd2bin (take_bit 7 (sam_bin2bcd (u x))) = u x"
  "0 \<le> x \<Longrightarrow> x < 100 \<Longrightarrow> sam_bcd2bin (take_bit 8 (sam_bin2bcd (u x))) = u x"
  "0 \<le> x \<Longrightarrow> x < 40 \<Longrightarrow> sam_bcd2bin (take_bit 6 (sam_bin2bcd (u x))) = u x"
  "0 \<le> x \<Longrightarrow> x < 20 \<Longrightarrow> sam_bcd2bin (take_bit 5 (sam_bin2bcd (u x))) = u x"
  "0 \<le> x \<Longrightarrow> x < 8 \<Longrightarrow> sam_bcd2bin (take_bit 3 (sam_bin2bcd (u x))) = u x"
  using sam_table by (simp_all add: low_bits [symmetric] mask_simps del: take_bit_of_int)

lemma sam_year: "0 \<le> y \<Longrightarrow> y < 6100 \<Longrightarrow> sint (u (y mod 100) + u ((y + 1900) div 100) * 100 - 1900) = y"
proof -
  assume y: "0 \<le> y" "y < 6100"
  have "(y + 1900) mod 100 = y mod 100" using mod_mult_self1 [of y 19 100] by simp
  then have "y mod 100 + (y + 1900) div 100 * 100 - 1900 = y" using div_mult_mod_eq [of "y + 1900" 100] by linarith
  moreover have "u (y mod 100) + u ((y + 1900) div 100) * 100 - 1900 = u (y mod 100 + (y + 1900) div 100 * 100 - 1900)" by simp
  ultimately show ?thesis using sint_small [of y] y by simp
qed

lemma sam_less1: "0 \<le> x \<Longrightarrow> x < 100 \<Longrightarrow> sint (u (x + 1) - 1) = x"
  by (rule sint_small_minus1) simp_all

lemma sam_ok_set:
  assumes R: "rtc_regs E 32 reg put has" and has: "has 0x00" "has 0x04" "has 0x08" "has 0x0C" "has 0x18" "has 0x1C" "has 0x2C"
    and ack: "reg s 0x18 AND 1 \<noteq> 0" and s': "s' = snd (run_state (set_atsama5d3x (Suc n) E c t) s)"
  shows "reg s' 0x04 = 0" "reg s' 0x2C = reg s 0x2C"
    "reg s' 0x08 = (sam_bin2bcd (u (min (tm_sec t) 59)) AND 0x7F) OR push_bit 8 (sam_bin2bcd (u (tm_min t)) AND 0x7F) OR
                  push_bit 16 (sam_bin2bcd (u (tm_hour t)) AND 0x3F)"
    "reg s' 0x0C = (sam_bin2bcd (u ((tm_year t + 1900) sdiv 100)) AND 0x7F) OR push_bit 8 (sam_bin2bcd (u (tm_year t smod 100)) AND 0xFF) OR
                  push_bit 16 (sam_bin2bcd (u (tm_mon t + 1)) AND 0x1F) OR push_bit 21 (sam_bin2bcd (u (tm_wday t + 1)) AND 0x07) OR
                  push_bit 24 (sam_bin2bcd (u (tm_mday t)) AND 0x3F)"
  unfolding s' using has ack
  by (simp_all add: set_atsama5d3x_def rtc_lock_def rtc_unlock_def rtc_regs.reg_simps [OF R] Let_def take32)

text \<open>
  The clock of the SAMA5D3x, which packs the time and the date as BCD digits into two registers of 32 bits, gives back what it was set
  to, for the years 1900 to 7999. The chip is assumed to acknowledge the update and to report valid entries.
\<close>

theorem atsama5d3x_round_trip:
  assumes R: "rtc_regs E 32 reg put has" and has: "has 0x00" "has 0x04" "has 0x08" "has 0x0C" "has 0x18" "has 0x1C" "has 0x2C"
    and ack: "reg s 0x18 AND 1 \<noteq> 0" and valid: "reg s 0x2C AND 3 = 0" and t: "tm_ok 0 6100 t"
  shows "fst (run_state (get_atsama5d3x E c t0) (snd (run_state (set_atsama5d3x (Suc n) E c t) s))) =
    (0, (copy_time t t0)\<lparr>tm_wday := tm_wday t, tm_yday := 0, tm_isdst := - 1\<rparr>)"
proof -
  note b = tm_bounds [OF t] and r = sam_ok_set [OF R has ack refl, of n c t]
  have m: "min (tm_sec t) 59 = tm_sec t" using b by simp
  have y: "(tm_year t + 1900) sdiv 100 = (tm_year t + 1900) div 100" "tm_year t smod 100 = tm_year t mod 100"
    using b by (simp_all add: sdiv_pos smod_pos)
  have cy: "0 \<le> (tm_year t + 1900) div 100" "(tm_year t + 1900) div 100 < 80" using b by auto
  note f = sam_fields(1) [of "tm_sec t"] sam_fields(1) [of "tm_min t"] sam_fields(3) [of "tm_hour t"] sam_fields(3) [of "tm_mday t"]
    sam_fields(4) [of "tm_mon t + 1"] sam_fields(5) [of "tm_wday t + 1"] sam_fields(2) [of "tm_year t mod 100"]
    sam_fields(1) [of "(tm_year t + 1900) div 100"]
  show ?thesis
    using has valid b f cy sam_year [of "tm_year t"] sam_less1 [of "tm_mon t"] sam_less1 [of "tm_wday t"]
    by (simp add: get_atsama5d3x_def validity_check_def rtc_regs.read_reg [OF R] r m y Let_def low_bits timr_fields calr_fields
      sint_small copy_time_def del: take_bit_of_int of_int_add take_bit_or drop_bit_or split del: if_split)
qed

lemma demo_shift: "reg_shift demo_chip = 0"
  by (simp add: demo_chip_def)

theorem atsama5d3x_round_trip_witness:
  "fst (run_state (get_atsama5d3x (file_env (at_mem demo_chip) 0) 0 demo_tm)
     (snd (run_state (set_atsama5d3x 1 (file_env (at_mem demo_chip) 0) 0 demo_tm) (\<lambda>r. if r = 0x18 then 1 else 0)))) =
   (0, demo_tm\<lparr>tm_yday := 0, tm_isdst := - 1\<rparr>)"
  using atsama5d3x_round_trip [OF mem_regs32, of demo_chip "\<lambda>r. if r = 0x18 then 1 else 0" demo_tm 0 0 demo_tm 0]
  by (simp add: tm_ok_def demo_tm_def demo_shift copy_time_def)

end
