(* ===== verification/Timer.thy ===== *)
theory Timer
  imports Numbers
begin

section \<open>Timer rates\<close>

text \<open>
  \<^verbatim>\<open>invert_timer_freq.c\<close>, \<^verbatim>\<open>timer_tick2ns.c\<close> and \<^verbatim>\<open>timer_ns2tick.c\<close> of the startup library. The period of the timer
  is kept in the record \<open>qtime\<close> as \<open>timer_rate * 10 ^ timer_scale\<close> seconds. \<open>unsigned long\<close> has 32 bits. A division
  by zero and the call of \<open>crash\<close> give \<open>None\<close>.
\<close>

record qtime_entry =
  timer_rate :: u32
  timer_scale :: int

definition ULONG_MAX :: u32 where "ULONG_MAX = - 1"

primrec invert_loop :: "nat \<Rightarrow> u32 \<Rightarrow> u32 \<Rightarrow> int \<Rightarrow> u32 \<Rightarrow> (u32 \<times> int) option" where
  \<comment> \<open>the long division; the first argument bounds the number of digits\<close>
  "invert_loop 0 freq quot scale rate = None"
| "invert_loop (Suc n) freq quot scale rate =
     (let rate = rate * 10 + quot div freq
      in if rate \<ge> ULONG_MAX div 10 - 10 then Some (rate, scale)
         else let rm = quot mod freq
              in if rm = 0 then Some (rate, scale)
                 else invert_loop n freq (rm * 10) (scale - 1) rate)"

definition invert_timer_freq :: "nat \<Rightarrow> u32 \<Rightarrow> qtime_entry \<Rightarrow> qtime_entry option" where
  "invert_timer_freq n freq qtime =
     (if freq = 0 then None
      else let (scale, freq) = (if freq > ULONG_MAX div 10 then (- 1, freq div 10) else (0, freq))
           in map_option (\<lambda>(rate, scale). qtime\<lparr>timer_rate := rate, timer_scale := scale\<rparr>)
                (invert_loop n freq 1 scale 0))"

fun tick2ns_up :: "nat \<Rightarrow> u32 \<Rightarrow> u32 \<Rightarrow> u32 \<Rightarrow> u32 option" where
  \<comment> \<open>the first loop: \<open>power\<close> divisions by ten, the product being tried again while it does not fit\<close>
  "tick2ns_up pw ticks rate ns =
     (let r = (if ns = 0
               then if rate = 0 then None
                    else Some (let ns = rate * ticks in if ns div rate \<noteq> ticks then 0 else ns)
               else Some ns)
      in case r of
           None \<Rightarrow> None
         | Some ns \<Rightarrow> (case pw of
             0 \<Rightarrow> Some ns
           | Suc p \<Rightarrow> tick2ns_up p ticks (rate div 10) (ns div 10)))"

declare tick2ns_up.simps [simp del]

definition timer_tick2ns :: "qtime_entry \<Rightarrow> u32 \<Rightarrow> u32 option" where
  "timer_tick2ns q ticks =
     (let pw = - 9 - timer_scale q
      in map_option (\<lambda>ns. if pw < 0 then ((\<lambda>n. n * 10) ^^ nat (- pw)) ns else ns)
           (tick2ns_up (nat pw) ticks (timer_rate q) 0))"

definition timer_ns2tick :: "qtime_entry \<Rightarrow> u32 \<Rightarrow> u32 option" where
  "timer_ns2tick q ns =
     (case timer_tick2ns q 1 of None \<Rightarrow> None | Some t \<Rightarrow> if t = 0 then None else Some (ns div t))"

subsection \<open>The period of a frequency\<close>

lemma invert_step_nat:
  fixes freq k :: nat
  assumes "0 < freq"
  shows "10 * (10 ^ k div freq) + 10 * (10 ^ k mod freq) div freq = 10 ^ Suc k div freq"
    and "10 * (10 ^ k mod freq) mod freq = 10 ^ Suc k mod freq"
proof -
  have e: "10 ^ Suc k = (10 * (10 ^ k div freq)) * freq + 10 * (10 ^ k mod freq)"
    using div_mult_mod_eq [of "10 ^ k" freq] by (metis add_mult_distrib2 mult.assoc power_Suc)
  show "10 * (10 ^ k div freq) + 10 * (10 ^ k mod freq) div freq = 10 ^ Suc k div freq"
    unfolding e using assms by simp
  show "10 * (10 ^ k mod freq) mod freq = 10 ^ Suc k mod freq"
    unfolding e by simp
qed


definition inv_quot :: "nat \<Rightarrow> nat \<Rightarrow> nat" where
  \<comment> \<open>the dividend of the step \<open>k\<close>\<close>
  "inv_quot freq k = (case k of 0 \<Rightarrow> 1 | Suc j \<Rightarrow> 10 * (10 ^ j mod freq))"

definition inv_rate :: "nat \<Rightarrow> nat \<Rightarrow> nat" where
  \<comment> \<open>the digits before the step \<open>k\<close>\<close>
  "inv_rate freq k = (case k of 0 \<Rightarrow> 0 | Suc j \<Rightarrow> 10 ^ j div freq)"

lemma inv_step:
  assumes "0 < freq"
  shows "inv_rate freq k * 10 + inv_quot freq k div freq = 10 ^ k div freq"
    and "inv_quot freq k mod freq = 10 ^ k mod freq" and "inv_quot freq k div freq \<le> 9 \<or> k = 0"
proof -
  have "10 * (10 ^ j mod freq) div freq \<le> 9" for j
    using less_mult_imp_div_less [of "10 * (10 ^ j mod freq)" 10 freq] assms by simp
  then show "inv_rate freq k * 10 + inv_quot freq k div freq = 10 ^ k div freq"
    "inv_quot freq k mod freq = 10 ^ k mod freq" "inv_quot freq k div freq \<le> 9 \<or> k = 0"
    using invert_step_nat [OF assms] by (auto simp: inv_quot_def inv_rate_def mult.commute [of _ 10] split: nat.splits)
qed

lemma ulong_tenth: "ULONG_MAX div 10 = 429496729" "ULONG_MAX div 10 - 10 = word_of_nat 429496719"
  by (simp_all add: ULONG_MAX_def)

lemma invert_loop_value:
  assumes "0 < freq" "freq \<le> 429496729" "inv_rate freq k < 429496719" "18 < k + n" "k \<le> 18"
  shows "\<exists>j. invert_loop n (word_of_nat freq) (word_of_nat (inv_quot freq k)) scale (word_of_nat (inv_rate freq k)) =
     Some (word_of_nat (10 ^ j div freq), scale - int (j - k)) \<and> k \<le> j \<and> j \<le> 18 \<and> 10 ^ j div freq < 2 ^ 32 \<and>
     (429496719 \<le> 10 ^ j div freq \<or> freq dvd 10 ^ j)"
  using assms
proof (induction n arbitrary: k scale)
  case (Suc n)
  note st = inv_step [OF Suc.prems(1), of k]
  have q: "inv_quot freq k < 2 ^ 32"
  proof (cases k)
    case (Suc j)
    have "10 ^ j mod freq < freq" using Suc.prems(1) by simp
    then show ?thesis using Suc Suc.prems(2) by (simp add: inv_quot_def)
  qed (simp add: inv_quot_def)
  have h: "Suc 0 div freq \<le> 9" by (rule order.trans [OF div_le_dividend]) simp
  have q9: "inv_quot freq k div freq \<le> 9" using st(3) h by (auto simp: inv_quot_def)
  have r: "10 ^ k div freq < 2 ^ 32" using st(1) q9 Suc.prems(3) by simp
  have f: "freq < 2 ^ 32" using Suc.prems(2) by simp
  have w: "word_of_nat (inv_rate freq k) * 10 + word_of_nat (inv_quot freq k) div word_of_nat freq = (word_of_nat (10 ^ k div freq) :: u32)"
    unfolding div_of_nat32 [OF q f] st(1) [symmetric] by simp
  have ge: "(ULONG_MAX div 10 - 10 \<le> word_of_nat (10 ^ k div freq)) = (429496719 \<le> 10 ^ k div freq)"
    unfolding ulong_tenth(2) using r by (intro of_nat32_le) simp_all
  have m: "word_of_nat (inv_quot freq k) mod word_of_nat freq = (word_of_nat (10 ^ k mod freq) :: u32)"
    unfolding mod_of_nat32 [OF q f] st(2) ..
  have ml: "10 ^ k mod freq < 2 ^ 32" using f Suc.prems(1) by (meson less_trans mod_less_divisor)
  show ?case
  proof (cases "429496719 \<le> 10 ^ k div freq \<or> 10 ^ k mod freq = 0")
    case True
    then show ?thesis
      using ge w m r Suc.prems(5) by (intro exI [of _ k]) (auto simp: Let_def dvd_eq_mod_eq_0)
  next
    case False
    then have "10 ^ k div freq < 429496719" by simp
    then have "10 ^ k < 429496719 * freq" using div_less_iff_less_mult [OF Suc.prems(1)] by blast
    also have "\<dots> \<le> 429496719 * 429496729" using Suc.prems(2) by simp
    also have "\<dots> < (10 :: nat) ^ 18" by simp
    finally have "(10 :: nat) ^ k < 10 ^ 18" .
    then have k: "k < 18" by (rule power_less_imp_less_exp [rotated]) simp
    have n: "inv_quot freq (Suc k) = 10 * (10 ^ k mod freq)" "inv_rate freq (Suc k) = 10 ^ k div freq"
      by (simp_all add: inv_quot_def inv_rate_def)
    have nz: "(word_of_nat (10 ^ k mod freq) :: u32) \<noteq> 0" using of_nat32_zero [OF ml] False by simp
    obtain j where j: "invert_loop n (word_of_nat freq) (word_of_nat (inv_quot freq (Suc k))) (scale - 1) (word_of_nat (inv_rate freq (Suc k))) =
     Some (word_of_nat (10 ^ j div freq), scale - 1 - int (j - Suc k))" "Suc k \<le> j" "j \<le> 18" "10 ^ j div freq < 2 ^ 32"
     "429496719 \<le> 10 ^ j div freq \<or> freq dvd 10 ^ j"
      using Suc.IH [of "Suc k" "scale - 1"] Suc.prems k False n by auto
    have "invert_loop (Suc n) (word_of_nat freq) (word_of_nat (inv_quot freq k)) scale (word_of_nat (inv_rate freq k)) =
      invert_loop n (word_of_nat freq) (word_of_nat (inv_quot freq (Suc k))) (scale - 1) (word_of_nat (inv_rate freq (Suc k)))"
      using ge w m nz False n by (simp add: Let_def mult.commute)
    then show ?thesis using j by (intro exI [of _ j]) auto
  qed
qed simp


definition inv_freq :: "u32 \<Rightarrow> u32" where
  \<comment> \<open>the frequency that is inverted\<close>
  "inv_freq freq = (if freq > ULONG_MAX div 10 then freq div 10 else freq)"

definition inv_shift :: "u32 \<Rightarrow> nat" where
  "inv_shift freq = (if freq > ULONG_MAX div 10 then 1 else 0)"

text \<open>
  \<open>invert_timer_freq\<close> returns after at most 19 steps for every frequency but zero. The rate is the quotient of a power
  of ten and the frequency (the frequency without its last digit, if it has ten), cut off to an integer, the scale is the
  exponent of that power, nothing overflows 32 bits, and the rate is exact or at least 429496719.
\<close>

theorem invert_timer_freq_correct:
  assumes "freq \<noteq> 0" and "19 \<le> n"
  shows "\<exists>k rate. invert_timer_freq n freq q = Some (q\<lparr>timer_rate := rate, timer_scale := - int (k + inv_shift freq)\<rparr>) \<and>
     unat rate = 10 ^ k div unat (inv_freq freq) \<and> (429496719 \<le> unat rate \<or> unat (inv_freq freq) dvd 10 ^ k)"
proof -
  let ?f = "unat (inv_freq freq)"
  have f: "0 < ?f" "?f \<le> 429496729"
  proof -
    have "unat freq div 10 \<le> 429496729"
      using unat32_less [of freq] by simp
    moreover have "unat (freq div 10) = unat freq div 10" by (simp add: unat_div)
    ultimately show "0 < ?f" "?f \<le> 429496729"
      using assms(1) by (auto simp: inv_freq_def ulong_tenth word_less_nat_alt word_le_nat_alt not_less unat_gt_0)
  qed
  obtain j where j: "invert_loop n (word_of_nat ?f) (word_of_nat (inv_quot ?f 0)) (- int (inv_shift freq)) (word_of_nat (inv_rate ?f 0)) =
     Some (word_of_nat (10 ^ j div ?f), - int (inv_shift freq) - int (j - 0))" "10 ^ j div ?f < 2 ^ 32"
     "429496719 \<le> 10 ^ j div ?f \<or> ?f dvd 10 ^ j"
    using invert_loop_value [OF f, of 0 n "- int (inv_shift freq)"] assms(2) by (auto simp: inv_rate_def)
  then have "invert_loop n (inv_freq freq) 1 (- int (inv_shift freq)) 0 = Some (word_of_nat (10 ^ j div ?f), - int (j + inv_shift freq))"
    by (simp add: inv_quot_def inv_rate_def)
  then have "invert_timer_freq n freq q = Some (q\<lparr>timer_rate := word_of_nat (10 ^ j div ?f), timer_scale := - int (j + inv_shift freq)\<rparr>)"
    using assms(1) by (auto simp: invert_timer_freq_def inv_freq_def inv_shift_def split: if_splits)
  then show ?thesis using j(2,3) unat_of_nat32 [OF j(2)] by (intro exI conjI) auto
qed

theorem invert_timer_freq_correct_witness:
  "\<exists>k rate. invert_timer_freq 19 66000000 \<lparr>timer_rate = 0, timer_scale = 0\<rparr> =
      Some \<lparr>timer_rate = rate, timer_scale = - int (k + inv_shift 66000000)\<rparr> \<and>
     unat rate = 10 ^ k div unat (inv_freq 66000000) \<and> (429496719 \<le> unat rate \<or> unat (inv_freq 66000000) dvd 10 ^ k)"
  using invert_timer_freq_correct [of 66000000 19 "\<lparr>timer_rate = 0, timer_scale = 0\<rparr>"] by simp

subsection \<open>From ticks to nanoseconds\<close>

lemma mul_fits:
  fixes r t :: u32
  assumes "r \<noteq> 0"
  shows "r * t div r = t \<longleftrightarrow> unat r * unat t < 2 ^ 32"
proof
  assume h: "unat r * unat t < 2 ^ 32"
  then have "unat (r * t) = unat r * unat t" by (simp add: unat_word_ariths)
  then have "unat (r * t div r) = unat t" using assms by (simp add: unat_div unat_gt_0)
  then show "r * t div r = t" by (simp add: word_unat_eq_iff)
next
  assume h: "r * t div r = t"
  have "unat r * unat (r * t div r) \<le> unat (r * t)" by (simp add: unat_div)
  then have "unat r * unat t \<le> unat (r * t)" using h by simp
  then show "unat r * unat t < 2 ^ 32" using unat32_less [of "r * t"] by simp
qed


lemma tick2ns_down:
  assumes "0 < unat ns div 10 ^ p"
  shows "tick2ns_up p ticks rate ns = Some (word_of_nat (unat ns div 10 ^ p))"
  using assms
proof (induction p arbitrary: rate ns)
  case 0
  then have "ns \<noteq> 0" by auto
  then show ?case by (simp add: tick2ns_up.simps)
next
  case (Suc p)
  have d: "unat (ns div 10) div 10 ^ p = unat ns div 10 ^ Suc p" by (simp add: unat_div div_mult2_eq)
  have "ns \<noteq> 0" using Suc.prems by auto
  then show ?case using Suc.IH [of "ns div 10" "rate div 10"] Suc.prems d by (subst tick2ns_up.simps) (simp add: Let_def)
qed

lemma tick2ns_value:
  assumes "\<forall>i < k. 2 ^ 32 \<le> unat rate div 10 ^ i * unat ticks" "unat rate div 10 ^ k * unat ticks < 2 ^ 32" "k \<le> p"
    "0 < unat rate div 10 ^ k * unat ticks div 10 ^ (p - k)"
  shows "tick2ns_up p ticks rate 0 = Some (word_of_nat (unat rate div 10 ^ k * unat ticks div 10 ^ (p - k)))"
  using assms
proof (induction k arbitrary: rate p)
  case 0
  then have r: "rate \<noteq> 0" by auto
  then have f: "rate * ticks div rate = ticks" using mul_fits 0 by simp
  have u: "unat (rate * ticks) = unat rate * unat ticks" using 0 by (simp add: unat_word_ariths)
  have nz: "rate * ticks \<noteq> 0" using u 0 by (metis div_0 gr_implies_not0 diff_zero power_0 div_by_1 unat_0)
  have "tick2ns_up p ticks rate 0 = tick2ns_up p ticks rate (rate * ticks)"
    using r f nz by (simp add: tick2ns_up.simps [of p ticks rate] Let_def)
  then show ?case using tick2ns_down [of "rate * ticks" p] 0 u by simp
next
  case (Suc k)
  obtain q where p: "p = Suc q" using Suc.prems by (cases p) auto
  have o: "\<not> unat rate * unat ticks < 2 ^ 32" using Suc.prems(1) by (auto dest: spec [of _ 0])
  then have r: "rate \<noteq> 0" by auto
  have f: "rate * ticks div rate \<noteq> ticks" using mul_fits [OF r] o by simp
  have d: "unat (rate div 10) div 10 ^ i = unat rate div 10 ^ Suc i" for i by (simp add: unat_div div_mult2_eq)
  have "tick2ns_up p ticks rate 0 = tick2ns_up q ticks (rate div 10) 0"
    using r f p by (subst tick2ns_up.simps) (simp add: Let_def)
  also have "\<dots> = Some (word_of_nat (unat (rate div 10) div 10 ^ k * unat ticks div 10 ^ (q - k)))"
    by (rule Suc.IH) (use Suc.prems p in \<open>auto simp: d simp del: power_Suc\<close>)
  finally show ?case unfolding d using p by simp
qed

text \<open>
  When the period of the timer is below a nanosecond times a power of ten, \<open>timer_tick2ns\<close> gives the exact product,
  cut off, if that fits 32 bits; otherwise as few of the last digits of the rate are dropped as make the product fit, and the
  result never exceeds the exact value. The hypothesis on the last line is that the result is not zero.
\<close>

theorem timer_tick2ns_correct:
  assumes p: "timer_scale q = - 9 - int p"
    and k: "\<forall>i < k. 2 ^ 32 \<le> unat (timer_rate q) div 10 ^ i * unat ticks" "unat (timer_rate q) div 10 ^ k * unat ticks < 2 ^ 32" "k \<le> p"
    and z: "0 < unat (timer_rate q) div 10 ^ k * unat ticks div 10 ^ (p - k)"
  shows "\<exists>ns. timer_tick2ns q ticks = Some ns \<and> unat ns = unat (timer_rate q) div 10 ^ k * unat ticks div 10 ^ (p - k) \<and>
     unat ns \<le> unat (timer_rate q) * unat ticks div 10 ^ p"
proof -
  let ?r = "unat (timer_rate q)" and ?t = "unat ticks"
  let ?v = "?r div 10 ^ k * ?t div 10 ^ (p - k)"
  have v: "?v < 2 ^ 32" using k(2) by (meson div_le_dividend le_less_trans)
  have "timer_tick2ns q ticks = Some (word_of_nat ?v)"
    using tick2ns_value [OF k z] p by (simp add: timer_tick2ns_def)
  moreover have "?v \<le> ?r * ?t div 10 ^ p"
  proof -
    have "?r div 10 ^ k * ?t \<le> ?r * ?t div 10 ^ k" by (metis div_mult1_eq mult.commute le_add1)
    then have "?v \<le> ?r * ?t div 10 ^ k div 10 ^ (p - k)" by (rule div_le_mono)
    also have "\<dots> = ?r * ?t div 10 ^ p" using k(3) by (simp add: div_mult2_eq [symmetric] power_add [symmetric])
    finally show ?thesis .
  qed
  ultimately show ?thesis using unat_of_nat32 [OF v] by (intro exI [of _ "word_of_nat ?v"]) simp
qed

theorem timer_tick2ns_correct_witness:
  "\<exists>ns. timer_tick2ns \<lparr>timer_rate = 151515151, timer_scale = - 16\<rparr> 100 = Some ns \<and>
     unat ns = 151515151 div 10 ^ 1 * 100 div 10 ^ 6 \<and> unat ns \<le> 151515151 * 100 div 10 ^ 7"
  using timer_tick2ns_correct [of "\<lparr>timer_rate = 151515151, timer_scale = - 16\<rparr>" 7 1 100] by simp

text \<open>
  A timer faster than 1 GHz makes \<open>timer_ns2tick\<close> divide by zero: for 2 GHz \<open>invert_timer_freq\<close> stores half a nanosecond
  as \<open>5 * 10 ^ - 10\<close>, and the loop of \<open>timer_tick2ns\<close> divides both the product and the rate down to zero before it
  divides by the rate again.
\<close>

theorem timer_2GHz_divides_by_zero:
  "invert_timer_freq 19 2000000000 q = Some (q\<lparr>timer_rate := 5, timer_scale := - 10\<rparr>) \<and>
   timer_ns2tick (q\<lparr>timer_rate := 5, timer_scale := - 10\<rparr>) 1000000 = None"
proof
  have l: "invert_loop 19 200000000 1 (- 1) 0 = Some (5, - 10)" by code_simp
  show "invert_timer_freq 19 2000000000 q = Some (q\<lparr>timer_rate := 5, timer_scale := - 10\<rparr>)"
    by (simp add: invert_timer_freq_def ulong_tenth l)
  show "timer_ns2tick (q\<lparr>timer_rate := 5, timer_scale := - 10\<rparr>) 1000000 = None"
    by (simp add: timer_ns2tick_def timer_tick2ns_def tick2ns_up.simps)
qed

end
