(* ===== verification/Can_Regs.thy ===== *)
theory Can_Regs
  imports Prelude
begin

section \<open>The FlexCAN controller: locations and bits\<close>

text \<open>
  The constants of \<^verbatim>\<open>hardware/can/public/hw/mx6x-can.h\<close> that the driver and the mini-driver use: the
  registers, the bits of the module configuration, control and error registers, the fields of the
  control word of a mailbox, and the driver's flags.
\<close>

datatype can_field = canmcf | canmid | canmdl | canmdh

datatype can_loc =
    Reg u32               \<comment> \<open>a register, by its offset from \<open>devinfo->base\<close>\<close>
  | Lam nat               \<comment> \<open>a mask register, by its offset from \<open>devinfo->canlam\<close>\<close>
  | Mbx nat can_field     \<comment> \<open>\<open>devinfo->canmsg[i]\<close>\<close>

definition RINGO_CANMC :: can_loc where "RINGO_CANMC = Reg 0x00"
definition RINGO_CANCTRL :: can_loc where "RINGO_CANCTRL = Reg 0x04"
definition RINGO_CANTIMER :: can_loc where "RINGO_CANTIMER = Reg 0x08"
definition RINGO_CANRXGMASK :: can_loc where "RINGO_CANRXGMASK = Reg 0x10"
definition RINGO_CANRX14MASK :: can_loc where "RINGO_CANRX14MASK = Reg 0x14"
definition RINGO_CANRX15MASK :: can_loc where "RINGO_CANRX15MASK = Reg 0x18"
definition RINGO_CANECR :: can_loc where "RINGO_CANECR = Reg 0x1C"
definition RINGO_CANESR :: can_loc where "RINGO_CANESR = Reg 0x20"
definition RINGO_CANIMASK2 :: can_loc where "RINGO_CANIMASK2 = Reg 0x24"
definition RINGO_CANIMASK1 :: can_loc where "RINGO_CANIMASK1 = Reg 0x28"
definition RINGO_CANIFLAG2 :: can_loc where "RINGO_CANIFLAG2 = Reg 0x2C"
definition RINGO_CANIFLAG1 :: can_loc where "RINGO_CANIFLAG1 = Reg 0x30"
definition RINGO_CANCTRL2 :: can_loc where "RINGO_CANCTRL2 = Reg 0x34"

lemmas can_regs = RINGO_CANMC_def RINGO_CANCTRL_def RINGO_CANTIMER_def RINGO_CANRXGMASK_def
  RINGO_CANRX14MASK_def RINGO_CANRX15MASK_def RINGO_CANECR_def RINGO_CANESR_def RINGO_CANIMASK2_def
  RINGO_CANIMASK1_def RINGO_CANIFLAG2_def RINGO_CANIFLAG1_def RINGO_CANCTRL2_def

definition RINGO_CANMC_MDIS :: u32 where "RINGO_CANMC_MDIS = 0x80000000"
definition RINGO_CANMC_FRZ :: u32 where "RINGO_CANMC_FRZ = 0x40000000"
definition RINGO_CANMC_HALT :: u32 where "RINGO_CANMC_HALT = 0x10000000"
definition RINGO_CANMC_NOTRDY :: u32 where "RINGO_CANMC_NOTRDY = 0x08000000"
definition RINGO_CANMC_WAKEMSK :: u32 where "RINGO_CANMC_WAKEMSK = 0x04000000"
definition RINGO_CANMC_SOFTRST :: u32 where "RINGO_CANMC_SOFTRST = 0x02000000"
definition RINGO_CANMC_FRZACK :: u32 where "RINGO_CANMC_FRZACK = 0x01000000"
definition RINGO_CANMC_SUPV :: u32 where "RINGO_CANMC_SUPV = 0x00800000"
definition RINGO_CANMC_WRN_EN :: u32 where "RINGO_CANMC_WRN_EN = 0x00200000"
definition RINGO_CANMC_LPM_ACK :: u32 where "RINGO_CANMC_LPM_ACK = 0x00100000"
definition RINGO_CANMC_SRX_DIS :: u32 where "RINGO_CANMC_SRX_DIS = 0x00020000"
definition RINGO_CANMC_IRMQ :: u32 where "RINGO_CANMC_IRMQ = 0x00010000"
definition RINGO_CANMC_LPRIO_EN :: u32 where "RINGO_CANMC_LPRIO_EN = 0x00002000"
definition RINGO_CANMC_IDAM_FormatA :: u32 where "RINGO_CANMC_IDAM_FormatA = 0"
definition RINGO_CANMC_MAXMB_MASK :: u32 where "RINGO_CANMC_MAXMB_MASK = 0x3F"
definition RINGO_CANMC_MAXMB_MAXVAL :: u32 where "RINGO_CANMC_MAXMB_MAXVAL = 0x3F"

definition RINGO_CANCTRL_BOFFMSK :: u32 where "RINGO_CANCTRL_BOFFMSK = 0x8000"
definition RINGO_CANCTRL_ERRMASK :: u32 where "RINGO_CANCTRL_ERRMASK = 0x4000"
definition RINGO_CANCTRL_LPB :: u32 where "RINGO_CANCTRL_LPB = 0x1000"
definition RINGO_CANCTRL_TWRNMSK :: u32 where "RINGO_CANCTRL_TWRNMSK = 0x0800"
definition RINGO_CANCTRL_RWRNMSK :: u32 where "RINGO_CANCTRL_RWRNMSK = 0x0400"
definition RINGO_CANCTRL_SAMP :: u32 where "RINGO_CANCTRL_SAMP = 0x0080"
definition RINGO_CANCTRL_BOFFREC :: u32 where "RINGO_CANCTRL_BOFFREC = 0x0040"
definition RINGO_CANCTRL_TSYNC :: u32 where "RINGO_CANCTRL_TSYNC = 0x0020"
definition RINGO_CANCTRL_LBUF :: u32 where "RINGO_CANCTRL_LBUF = 0x0010"
definition RINGO_CANCTRL_LOM :: u32 where "RINGO_CANCTRL_LOM = 0x0008"
definition RINGO_CANCTRL2_EACEN :: u32 where "RINGO_CANCTRL2_EACEN = 0x10000"

definition RINGO_CANES_TWRNINT :: u32 where "RINGO_CANES_TWRNINT = 0x20000"
definition RINGO_CANES_RWRNINT :: u32 where "RINGO_CANES_RWRNINT = 0x10000"
definition RINGO_CANES_BITERR_RECESSIVE_DOMINANT :: u32 where "RINGO_CANES_BITERR_RECESSIVE_DOMINANT = 0x8000"
definition RINGO_CANES_BITERR_DOMINANT_RECESSIVE :: u32 where "RINGO_CANES_BITERR_DOMINANT_RECESSIVE = 0x4000"
definition RINGO_CANES_ACKERR :: u32 where "RINGO_CANES_ACKERR = 0x2000"
definition RINGO_CANES_CRCERR :: u32 where "RINGO_CANES_CRCERR = 0x1000"
definition RINGO_CANES_FORMERR :: u32 where "RINGO_CANES_FORMERR = 0x0800"
definition RINGO_CANES_STUFFERR :: u32 where "RINGO_CANES_STUFFERR = 0x0400"
definition RINGO_CANES_IDLE :: u32 where "RINGO_CANES_IDLE = 0x80"
definition RINGO_CANES_FCS_MASK :: u32 where "RINGO_CANES_FCS_MASK = 0x30"
definition RINGO_CANES_FCS_ERROR_PASSIVE :: u32 where "RINGO_CANES_FCS_ERROR_PASSIVE = 0x10"
definition RINGO_CANES_BOFFINT :: u32 where "RINGO_CANES_BOFFINT = 0x4"
definition RINGO_CANES_ERRINT :: u32 where "RINGO_CANES_ERRINT = 0x2"
definition RINGO_CANES_WAKEINT :: u32 where "RINGO_CANES_WAKEINT = 0x1"

definition MB_CNT_IDE :: u32 where "MB_CNT_IDE = 0x00200000"
definition MSG_BUF_DLC_MASK :: u32 where "MSG_BUF_DLC_MASK = 0x000F0000"
definition MSG_BUF_CODE_MASK :: u32 where "MSG_BUF_CODE_MASK = 0x0F000000"
definition REC_CODE_NOT_ACTIVE :: u32 where "REC_CODE_NOT_ACTIVE = 0x0"
definition REC_CODE_EMPTY :: u32 where "REC_CODE_EMPTY = 0x4"
definition REC_CODE_BUSY :: u32 where "REC_CODE_BUSY = 0x1"
definition TRANS_CODE_NOT_READY :: u32 where "TRANS_CODE_NOT_READY = 0x8"
definition TRANS_CODE_TRANSMIT_ONCE :: u32 where "TRANS_CODE_TRANSMIT_ONCE = 0xC"
definition RINGO_CANMCF_TPL_MASK :: u32 where "RINGO_CANMCF_TPL_MASK = 0xE0000000"
definition RINGO_CANMCF_IDE :: u32 where "RINGO_CANMCF_IDE = 0x200000"
definition RINGO_CANMID_MASK_STD :: u32 where "RINGO_CANMID_MASK_STD = 0x1FFC0000"
definition RINGO_CANMID_MASK_EXT :: u32 where "RINGO_CANMID_MASK_EXT = 0x1FFFFFFF"
definition CANDEV_RINGO_TX_ENABLED :: u32 where "CANDEV_RINGO_TX_ENABLED = 0x1"
definition CANMID_DEFAULT :: u32 where "CANMID_DEFAULT = 0x00100000"
definition CAN_MSG_MID_UNKNOWN :: u32 where "CAN_MSG_MID_UNKNOWN = 0xFFFFFFFF"
definition RAW_MODE_RX_IRQ :: u32 where "RAW_MODE_RX_IRQ = 0x2"
definition RAW_MODE_TX_IRQ :: u32 where "RAW_MODE_TX_IRQ = 0x4"
definition INIT_FLAGS_LOOPBACK :: u32 where "INIT_FLAGS_LOOPBACK = 0x001"
definition INIT_FLAGS_EXTENDED_MID :: u32 where "INIT_FLAGS_EXTENDED_MID = 0x002"
definition INIT_FLAGS_AUTOBUS :: u32 where "INIT_FLAGS_AUTOBUS = 0x004"
definition INIT_FLAGS_TIMESTAMP :: u32 where "INIT_FLAGS_TIMESTAMP = 0x008"
definition INIT_FLAGS_RX_FULL_MSG :: u32 where "INIT_FLAGS_RX_FULL_MSG = 0x010"
definition INIT_FLAGS_BITRATE_SAM :: u32 where "INIT_FLAGS_BITRATE_SAM = 0x020"
definition INIT_FLAGS_MDRIVER_INIT :: u32 where "INIT_FLAGS_MDRIVER_INIT = 0x040"
definition INIT_FLAGS_MDRIVER_SORT :: u32 where "INIT_FLAGS_MDRIVER_SORT = 0x080"
definition INIT_FLAGS_TSYN :: u32 where "INIT_FLAGS_TSYN = 0x200"
definition INIT_FLAGS_LOM :: u32 where "INIT_FLAGS_LOM = 0x400"
definition INIT_FLAGS_LBUF :: u32 where "INIT_FLAGS_LBUF = 0x800"
definition INFO_FLAGS_RX_FULL_MSG :: u32 where "INFO_FLAGS_RX_FULL_MSG = 0x1"
definition INFO_FLAGS_ENDIAN_SWAP :: u32 where "INFO_FLAGS_ENDIAN_SWAP = 0x2"

definition FLEXCAN_SET_MODE_RETRIES :: nat where "FLEXCAN_SET_MODE_RETRIES = 255"
definition CAN_LAST_MAILBOX_INDEX :: nat where "CAN_LAST_MAILBOX_INDEX = 63"

lemmas can_bits = RINGO_CANMC_MDIS_def RINGO_CANMC_FRZ_def RINGO_CANMC_HALT_def RINGO_CANMC_NOTRDY_def
  RINGO_CANMC_WAKEMSK_def RINGO_CANMC_SOFTRST_def RINGO_CANMC_FRZACK_def RINGO_CANMC_SUPV_def
  RINGO_CANMC_WRN_EN_def RINGO_CANMC_LPM_ACK_def RINGO_CANMC_SRX_DIS_def RINGO_CANMC_IRMQ_def
  RINGO_CANMC_LPRIO_EN_def RINGO_CANMC_IDAM_FormatA_def RINGO_CANMC_MAXMB_MASK_def
  RINGO_CANMC_MAXMB_MAXVAL_def RINGO_CANCTRL_BOFFMSK_def RINGO_CANCTRL_ERRMASK_def RINGO_CANCTRL_LPB_def
  RINGO_CANCTRL_TWRNMSK_def RINGO_CANCTRL_RWRNMSK_def RINGO_CANCTRL_SAMP_def RINGO_CANCTRL_BOFFREC_def
  RINGO_CANCTRL_TSYNC_def RINGO_CANCTRL_LBUF_def RINGO_CANCTRL_LOM_def RINGO_CANCTRL2_EACEN_def
  RINGO_CANES_TWRNINT_def RINGO_CANES_RWRNINT_def RINGO_CANES_BITERR_RECESSIVE_DOMINANT_def
  RINGO_CANES_BITERR_DOMINANT_RECESSIVE_def RINGO_CANES_ACKERR_def RINGO_CANES_CRCERR_def
  RINGO_CANES_FORMERR_def RINGO_CANES_STUFFERR_def RINGO_CANES_IDLE_def RINGO_CANES_FCS_MASK_def
  RINGO_CANES_FCS_ERROR_PASSIVE_def RINGO_CANES_BOFFINT_def RINGO_CANES_ERRINT_def RINGO_CANES_WAKEINT_def

lemmas mcf_bits = MB_CNT_IDE_def MSG_BUF_DLC_MASK_def MSG_BUF_CODE_MASK_def REC_CODE_NOT_ACTIVE_def
  REC_CODE_EMPTY_def REC_CODE_BUSY_def TRANS_CODE_NOT_READY_def TRANS_CODE_TRANSMIT_ONCE_def
  RINGO_CANMCF_TPL_MASK_def RINGO_CANMCF_IDE_def RINGO_CANMID_MASK_STD_def RINGO_CANMID_MASK_EXT_def
  CANDEV_RINGO_TX_ENABLED_def CANMID_DEFAULT_def CAN_MSG_MID_UNKNOWN_def RAW_MODE_RX_IRQ_def
  RAW_MODE_TX_IRQ_def

lemmas flag_bits = INIT_FLAGS_LOOPBACK_def INIT_FLAGS_EXTENDED_MID_def INIT_FLAGS_AUTOBUS_def
  INIT_FLAGS_TIMESTAMP_def INIT_FLAGS_RX_FULL_MSG_def INIT_FLAGS_BITRATE_SAM_def INIT_FLAGS_MDRIVER_INIT_def
  INIT_FLAGS_MDRIVER_SORT_def INIT_FLAGS_TSYN_def INIT_FLAGS_LOM_def INIT_FLAGS_LBUF_def
  INFO_FLAGS_RX_FULL_MSG_def INFO_FLAGS_ENDIAN_SWAP_def

end
