(* ===== verification/Can_Driver.thy ===== *)
theory Can_Driver
  imports Can_Regs
begin

section \<open>The CAN driver\<close>

text \<open>
  \<^verbatim>\<open>hardware/can/mx6x\<close>, the driver of the two FlexCAN controllers of the i.MX6. Each controller
  has 64 mailboxes of four words (control, identifier, two words of data); a mailbox either receives
  or transmits, and the driver keeps two queues of messages per mailbox, one of free elements and
  one of messages received or waiting to be sent.

  The state is the record \<open>can_world\<close>: the driver's own data (\<open>CANDEV_RINGO_INFO\<close> and the list of
  devices) and the state of the controller. Outside the program are the controller, given by
  \<open>can_env\<close> (a read and a write for each location, on a state of type \<open>'d\<close>), and the queues of the
  CAN library, given by \<open>can_lib\<close> (\<open>canmsg_dequeue_element\<close> and \<open>canmsg_queue_element\<close> on a type
  \<open>'q\<close>). A device whose queues the library has not created is \<open>None\<close> in the list; using it is the
  result \<open>Fault\<close>. A loop without a bound in the code takes the number of rounds \<open>n\<close> it may run, and
  \<open>Hang\<close> is the result when they are used up; a loop with a timeout runs as often as in the code
  and ends in \<open>Exit\<close>.
\<close>

subsection \<open>State\<close>

datatype candev_mode = CANDEV_MODE_IO | CANDEV_MODE_RAW_FRAME

text \<open>
  A message. The driver reads and writes the eight bytes of data as two words (\<open>val32\<close>).
\<close>

record can_msg =
  val32_0 :: u32
  val32_1 :: u32
  msg_len :: u8
  msg_mid :: u32
  msg_timestamp :: u32
  is_extended_mid :: u32
  is_remote_frame :: u32

record can_devctl_stats =
  transmitted_frames :: u32
  received_frames :: u32
  missing_ack :: u32
  total_frame_errors :: u32
  stuff_errors :: u32
  form_errors :: u32
  dom_bit_recess_errors :: u32
  recess_bit_dom_errors :: u32
  parity_errors :: u32
  crc_errors :: u32
  hw_receive_overflows :: u32
  sw_receive_q_full :: u32
  error_warning_state_count :: u32
  error_passive_state_count :: u32
  bus_off_state_count :: u32
  bus_idle_count :: u32
  power_down_count :: u32
  wake_up_count :: u32
  rx_interrupts :: u32
  tx_interrupts :: u32
  total_interrupts :: u32

record candev_ringo_init_info =
  i_description :: string
  i_msgq_size :: u32
  i_waitq_size :: u32
  i_bitrate :: u32
  i_br_brp :: u16
  i_br_rjw :: u8
  i_br_pseg1 :: u8
  i_br_pseg2 :: u8

text \<open>A device, that is a mailbox and its queues. \<open>wait_cnt\<close> is \<open>wait_client_queue->cnt\<close>.\<close>

datatype candev_type = CANDEV_TYPE_RX | CANDEV_TYPE_TX

record 'q candev_ringo =
  devtype :: candev_type
  free_queue :: 'q
  msg_queue :: 'q
  wait_cnt :: int
  dflags :: u32
  dev_unit :: int

record 'q candev_ringo_info =
  mode :: candev_mode
  timer :: u32
  canestat :: u32
  devlist :: "nat \<Rightarrow> 'q candev_ringo option"
  numtx :: nat
  numrx :: nat
  iflags :: u32
  stats :: can_devctl_stats
  initinfo :: candev_ringo_init_info
  txmbxstart :: nat
  rxmbxstart :: nat
  num_mailboxes :: nat
  erroractive :: bool          \<comment> \<open>a static variable of \<open>can_intr\<close>, shared by the controllers\<close>

record ('i, 'd) dev_world =
  info :: 'i
  ctlr :: 'd

type_synonym ('q, 'd) can_world = "('q candev_ringo_info, 'd) dev_world"

record 'd can_env =
  e_in :: "can_loc \<Rightarrow> ('d, u32) state"
  e_out :: "can_loc \<Rightarrow> u32 \<Rightarrow> ('d, unit) state"

record 'q can_lib =
  can_resmgr_init_device :: "u32 \<Rightarrow> 'q \<times> 'q"     \<comment> \<open>the queue of free elements and the queue of messages\<close>
  canmsg_dequeue_element :: "'q \<Rightarrow> can_msg option \<times> 'q"
  canmsg_queue_element :: "'q \<Rightarrow> can_msg \<Rightarrow> 'q"

subsection \<open>Access to the state\<close>

abbreviation ret :: "'a \<Rightarrow> ('s, 'a) state" where
  "ret \<equiv> State_Monad.return"

definition get_info :: "('i \<Rightarrow> 'a) \<Rightarrow> (('i, 'd) dev_world, 'a) state" where
  "get_info f = State (\<lambda>w. (f (info w), w))"

definition upd_info :: "('i \<Rightarrow> 'i) \<Rightarrow> (('i, 'd) dev_world, unit) state" where
  "upd_info f = State (\<lambda>w. ((), w\<lparr>info := f (info w)\<rparr>))"

definition upd_stats :: "(can_devctl_stats \<Rightarrow> can_devctl_stats) \<Rightarrow> (('q, 'd) can_world, unit) state" where
  "upd_stats f = upd_info (\<lambda>i. i\<lparr>stats := f (stats i)\<rparr>)"

definition in32 :: "'d can_env \<Rightarrow> can_loc \<Rightarrow> (('i, 'd) dev_world, u32) state" where
  "in32 E l = State (\<lambda>w. case run_state (e_in E l) (ctlr w) of (v, d) \<Rightarrow> (v, w\<lparr>ctlr := d\<rparr>))"

definition out32 :: "'d can_env \<Rightarrow> can_loc \<Rightarrow> u32 \<Rightarrow> (('i, 'd) dev_world, unit) state" where
  "out32 E l v = State (\<lambda>w. ((), w\<lparr>ctlr := snd (run_state (e_out E l v) (ctlr w))\<rparr>))"

definition upd_dev :: "nat \<Rightarrow> ('q candev_ringo \<Rightarrow> 'q candev_ringo) \<Rightarrow> (('q, 'd) can_world, unit) state" where
  "upd_dev i g = upd_info (\<lambda>f. f\<lparr>devlist := (devlist f)(i := map_option g (devlist f i))\<rparr>)"

definition cond :: "bool \<Rightarrow> ('s, unit) state \<Rightarrow> ('s, unit) state" where
  "cond b m = (if b then m else ret ())"

primrec for_each :: "'a list \<Rightarrow> ('a \<Rightarrow> ('s, unit) state) \<Rightarrow> ('s, unit) state" where
  "for_each [] f = ret ()"
| "for_each (x # xs) f = do { f x; for_each xs f }"

primrec spin :: "nat \<Rightarrow> 'd can_env \<Rightarrow> can_loc \<Rightarrow> (u32 \<Rightarrow> bool) \<Rightarrow> (('i, 'd) dev_world, u32 option) state" where
  \<comment> \<open>reads until the value is as wanted, at most \<open>n\<close> times\<close>
  "spin 0 E l P = ret None"
| "spin (Suc n) E l P = do { v \<leftarrow> in32 E l; if P v then ret (Some v) else spin n E l P }"

definition set_port32 :: "'d can_env \<Rightarrow> can_loc \<Rightarrow> u32 \<Rightarrow> u32 \<Rightarrow> (('i, 'd) dev_world, unit) state" where
  "set_port32 E port msk v = do { x \<leftarrow> in32 E port; out32 E port ((x AND NOT msk) OR (v AND msk)) }"

definition ENDIAN_SWAP32 :: "u32 \<Rightarrow> u32" where
  "ENDIAN_SWAP32 x = push_bit 24 (x AND 0xff) OR push_bit 8 (x AND 0xff00) OR
     drop_bit 8 (x AND 0xff0000) OR drop_bit 24 x"

definition MAILBOX :: "nat \<Rightarrow> u32" where
  \<comment> \<open>\<open>1 << mbxid\<close>; from 32 on no bit is left in the word\<close>
  "MAILBOX mbxid = push_bit mbxid 1"

subsection \<open>Results\<close>

datatype 'a run = Done 'a | Exit | Hang | Fault

subsection \<open>Sending\<close>

definition can_ringo_tx :: "nat \<Rightarrow> 'd can_env \<Rightarrow> nat \<Rightarrow> can_msg \<Rightarrow> (('q, 'd) can_world, bool) state" where
  \<comment> \<open>\<open>False\<close>: the bus did not become idle\<close>
  "can_ringo_tx n E mbxid txmsg =
     do {
       idle \<leftarrow> spin n E RINGO_CANESR (\<lambda>v. v AND RINGO_CANES_IDLE \<noteq> 0);
       case idle of None \<Rightarrow> ret False
       | Some _ \<Rightarrow> do {
           m \<leftarrow> get_info mode;
           swap \<leftarrow> get_info (\<lambda>f. iflags f AND INFO_FLAGS_ENDIAN_SWAP \<noteq> 0);
           mcf \<leftarrow> in32 E (Mbx mbxid canmcf);
           let mcf = mcf AND NOT (MSG_BUF_CODE_MASK OR MSG_BUF_DLC_MASK);
           let mcf = mcf OR push_bit 24 TRANS_CODE_NOT_READY;
           let mcf = mcf OR push_bit 16 (ucast (msg_len txmsg));
           let mcf = (if m = CANDEV_MODE_RAW_FRAME
                      then (mcf AND NOT RINGO_CANMCF_IDE) OR (if is_extended_mid txmsg \<noteq> 0 then RINGO_CANMCF_IDE else 0)
                      else mcf);
           out32 E (Mbx mbxid canmcf) mcf;
           out32 E (Mbx mbxid canmdl) (val32_0 txmsg);
           out32 E (Mbx mbxid canmdh) (val32_1 txmsg);
           cond swap (do {
             lo \<leftarrow> in32 E (Mbx mbxid canmdl);
             out32 E (Mbx mbxid canmdl) (ENDIAN_SWAP32 lo);
             hi \<leftarrow> in32 E (Mbx mbxid canmdh);
             out32 E (Mbx mbxid canmdh) (ENDIAN_SWAP32 hi)
           });
           (if m = CANDEV_MODE_RAW_FRAME then out32 E (Mbx mbxid canmid) (msg_mid txmsg)
            else cond (msg_mid txmsg \<noteq> CAN_MSG_MID_UNKNOWN) (out32 E (Mbx mbxid canmid) (msg_mid txmsg)));
           mcf \<leftarrow> in32 E (Mbx mbxid canmcf);
           out32 E (Mbx mbxid canmcf) (mcf OR push_bit 24 (TRANS_CODE_TRANSMIT_ONCE AND 0x0F));
           out32 E (Mbx 0 canmcf) (push_bit 24 (TRANS_CODE_NOT_READY AND 0x0F));
           out32 E (Mbx 0 canmcf) (push_bit 24 (TRANS_CODE_NOT_READY AND 0x0F));
           ret True
         }
     }"

definition can_drvr_transmit :: "nat \<Rightarrow> 'd can_env \<Rightarrow> 'q can_lib \<Rightarrow> nat \<Rightarrow> (('q, 'd) can_world, unit run) state" where
  "can_drvr_transmit n E L mbxid =
     do {
       d \<leftarrow> get_info (\<lambda>f. devlist f mbxid);
       case d of None \<Rightarrow> ret Fault
       | Some c \<Rightarrow>
           if dflags c AND CANDEV_RINGO_TX_ENABLED \<noteq> 0 then ret (Done ())
           else
             case canmsg_dequeue_element L (msg_queue c) of (txmsg, q) \<Rightarrow> do {
               upd_dev mbxid (\<lambda>c. c\<lparr>msg_queue := q\<rparr>);
               case txmsg of None \<Rightarrow> ret (Done ())
               | Some m \<Rightarrow> do {
                   upd_dev mbxid (\<lambda>c. c\<lparr>dflags := dflags c OR CANDEV_RINGO_TX_ENABLED\<rparr>);
                   ok \<leftarrow> can_ringo_tx n E mbxid m;
                   if \<not> ok then ret Hang
                   else do {
                     upd_dev mbxid (\<lambda>c. c\<lparr>free_queue := canmsg_queue_element L (free_queue c) m\<rparr>);
                     ret (Done ())
                   }
                 }
             }
     }"

subsection \<open>The interrupt handler\<close>

definition log_error :: "u32 \<Rightarrow> u32 \<Rightarrow> (can_devctl_stats \<Rightarrow> can_devctl_stats) \<Rightarrow> (('q, 'd) can_world, unit) state" where
  \<comment> \<open>one bit of the error register: remembered for \<open>devctl\<close> and counted\<close>
  "log_error estat b count =
     cond (estat AND b \<noteq> 0) (do {
       upd_info (\<lambda>f. f\<lparr>canestat := canestat f OR b\<rparr>);
       upd_stats count
     })"

abbreviation frame_error :: "(can_devctl_stats \<Rightarrow> can_devctl_stats) \<Rightarrow> can_devctl_stats \<Rightarrow> can_devctl_stats" where
  "frame_error count s \<equiv> (count s)\<lparr>total_frame_errors := total_frame_errors s + 1\<rparr>"

definition can_intr_errors :: "'d can_env \<Rightarrow> u32 \<Rightarrow> (('q, 'd) can_world, unit) state" where
  "can_intr_errors E estat =
     do {
       log_error estat RINGO_CANES_TWRNINT (\<lambda>s. s\<lparr>error_warning_state_count := error_warning_state_count s + 1\<rparr>);
       cond (estat AND RINGO_CANES_TWRNINT \<noteq> 0) (out32 E RINGO_CANESR RINGO_CANES_TWRNINT);
       log_error estat RINGO_CANES_RWRNINT (\<lambda>s. s\<lparr>error_warning_state_count := error_warning_state_count s + 1\<rparr>);
       cond (estat AND RINGO_CANES_RWRNINT \<noteq> 0) (out32 E RINGO_CANESR RINGO_CANES_RWRNINT);
       cond (estat AND RINGO_CANES_ERRINT \<noteq> 0) (do {
         upd_info (\<lambda>f. f\<lparr>canestat := canestat f OR RINGO_CANES_ERRINT\<rparr>);
         log_error estat RINGO_CANES_BITERR_RECESSIVE_DOMINANT
           (frame_error (\<lambda>s. s\<lparr>recess_bit_dom_errors := recess_bit_dom_errors s + 1\<rparr>));
         log_error estat RINGO_CANES_BITERR_DOMINANT_RECESSIVE
           (frame_error (\<lambda>s. s\<lparr>dom_bit_recess_errors := dom_bit_recess_errors s + 1\<rparr>));
         log_error estat RINGO_CANES_ACKERR (frame_error (\<lambda>s. s\<lparr>missing_ack := missing_ack s + 1\<rparr>));
         log_error estat RINGO_CANES_CRCERR (frame_error (\<lambda>s. s\<lparr>crc_errors := crc_errors s + 1\<rparr>));
         log_error estat RINGO_CANES_FORMERR (frame_error (\<lambda>s. s\<lparr>form_errors := form_errors s + 1\<rparr>));
         log_error estat RINGO_CANES_STUFFERR (frame_error (\<lambda>s. s\<lparr>stuff_errors := stuff_errors s + 1\<rparr>));
         out32 E RINGO_CANESR RINGO_CANES_ERRINT
       });
       log_error estat RINGO_CANES_BOFFINT (frame_error (\<lambda>s. s\<lparr>bus_off_state_count := bus_off_state_count s + 1\<rparr>));
       cond (estat AND RINGO_CANES_BOFFINT \<noteq> 0) (out32 E RINGO_CANESR RINGO_CANES_BOFFINT);
       log_error estat RINGO_CANES_WAKEINT (\<lambda>s. s\<lparr>wake_up_count := wake_up_count s + 1\<rparr>);
       cond (estat AND RINGO_CANES_WAKEINT \<noteq> 0) (out32 E RINGO_CANESR RINGO_CANES_WAKEINT);
       cond (estat AND RINGO_CANES_FCS_MASK = 0) (upd_info (\<lambda>f. f\<lparr>erroractive := True\<rparr>));
       cond (estat AND RINGO_CANES_FCS_MASK = RINGO_CANES_FCS_ERROR_PASSIVE) (do {
         active \<leftarrow> get_info erroractive;
         cond active (upd_stats (\<lambda>s. s\<lparr>error_passive_state_count := error_passive_state_count s + 1\<rparr>));
         upd_info (\<lambda>f. f\<lparr>erroractive := False\<rparr>)
       });
       v \<leftarrow> in32 E RINGO_CANESR;
       out32 E RINGO_CANESR (v OR 0xffffffff)
     }"

function scan_flag :: "nat \<Rightarrow> nat \<Rightarrow> u32 \<Rightarrow> nat \<Rightarrow> nat" where
  \<comment> \<open>the search for the lowest flag; the old value stays when there is none in range\<close>
  "scan_flag i lim fl mbxid =
     (if i < lim \<and> fl > 0 then
        if fl AND 1 \<noteq> 0 then i else scan_flag (i + 1) lim (drop_bit 1 fl) mbxid
      else mbxid)"
  by pat_completeness auto
termination by (relation "measure (\<lambda>(i, lim, _, _). lim - i)") auto

declare scan_flag.simps [simp del]

datatype intr_step = Stop "nat option run" | Go nat    \<comment> \<open>the handler returns, or goes on\<close>

definition rx_element :: "'q can_lib \<Rightarrow> nat \<Rightarrow> 'q candev_ringo \<Rightarrow> (('q, 'd) can_world, can_msg option) state" where
  \<comment> \<open>a free element, or the oldest message\<close>
  "rx_element L mbxid c =
     (case canmsg_dequeue_element L (free_queue c) of
        (Some m, q) \<Rightarrow> do { upd_dev mbxid (\<lambda>c. c\<lparr>free_queue := q\<rparr>); ret (Some m) }
      | (None, q) \<Rightarrow>
          case canmsg_dequeue_element L (msg_queue c) of (m, q') \<Rightarrow> do {
            upd_dev mbxid (\<lambda>c. c\<lparr>free_queue := q, msg_queue := q'\<rparr>);
            upd_stats (\<lambda>s. s\<lparr>sw_receive_q_full := sw_receive_q_full s + 1\<rparr>);
            ret m
          })"

definition swap32 :: "u32 \<Rightarrow> u32 \<Rightarrow> u32" where
  "swap32 fl v = (if fl AND INFO_FLAGS_ENDIAN_SWAP \<noteq> 0 then ENDIAN_SWAP32 v else v)"

definition rx_message :: "nat \<Rightarrow> 'd can_env \<Rightarrow> nat \<Rightarrow> can_msg \<Rightarrow> (('q, 'd) can_world, can_msg option) state" where
  \<comment> \<open>the message of the mailbox, which is empty afterwards; \<open>None\<close>: it stays busy\<close>
  "rx_message n E mbxid rxmsg =
     do {
       c \<leftarrow> spin n E (Mbx mbxid canmcf) (\<lambda>v. v AND push_bit 24 REC_CODE_BUSY = 0);
       case c of None \<Rightarrow> ret None
       | Some ctrl \<Rightarrow> do {
           fl \<leftarrow> get_info iflags;
           mid \<leftarrow> in32 E (Mbx mbxid canmid);
           let ide = ctrl AND MB_CNT_IDE;
           lo \<leftarrow> in32 E (Mbx mbxid canmdl);
           hi \<leftarrow> in32 E (Mbx mbxid canmdh);
           mcf \<leftarrow> in32 E (Mbx mbxid canmcf);
           out32 E (Mbx mbxid canmcf) ((mcf AND NOT MSG_BUF_CODE_MASK) OR push_bit 24 REC_CODE_EMPTY OR ide);
           t \<leftarrow> in32 E RINGO_CANTIMER;
           upd_info (\<lambda>f. f\<lparr>timer := t\<rparr>);
           ret (Some (rxmsg\<lparr>
             msg_len := ucast (drop_bit 16 (ctrl AND MSG_BUF_DLC_MASK)), msg_mid := mid,
             msg_timestamp := ctrl AND 0x0000FFFF, is_extended_mid := (if ide > 0 then 1 else 0),
             val32_0 := swap32 fl lo, val32_1 := swap32 fl hi\<rparr>))
         }
     }"

definition can_intr_rx :: "nat \<Rightarrow> 'd can_env \<Rightarrow> 'q can_lib \<Rightarrow> u32 \<Rightarrow> nat \<Rightarrow> (('q, 'd) can_world, intr_step) state" where
  "can_intr_rx n E L oflag_rx mbxid0 =
     do {
       lim \<leftarrow> get_info (\<lambda>f. rxmbxstart f + numrx f);
       let mbxid = scan_flag 0 lim oflag_rx mbxid0;
       d \<leftarrow> get_info (\<lambda>f. devlist f mbxid);
       case d of None \<Rightarrow> ret (Stop Fault)
       | Some c \<Rightarrow> do {
           e \<leftarrow> rx_element L mbxid c;
           case e of None \<Rightarrow> ret (Stop (Done None))
           | Some rxmsg \<Rightarrow> do {
               r \<leftarrow> rx_message n E mbxid rxmsg;
               case r of None \<Rightarrow> ret (Stop Hang)
               | Some m \<Rightarrow> do {
                   out32 E RINGO_CANIFLAG1 oflag_rx;
                   upd_dev mbxid (\<lambda>c. c\<lparr>msg_queue := canmsg_queue_element L (msg_queue c) m\<rparr>);
                   upd_stats (\<lambda>s. s\<lparr>received_frames := received_frames s + 1\<rparr>);
                   ret (if wait_cnt c \<noteq> 0 then Stop (Done (Some mbxid)) else Go mbxid)
                 }
             }
         }
     }"

definition can_intr_tx :: "nat \<Rightarrow> 'd can_env \<Rightarrow> 'q can_lib \<Rightarrow> can_loc \<Rightarrow> u32 \<Rightarrow> u32 \<Rightarrow> nat \<Rightarrow>
    (('q, 'd) can_world, intr_step) state" where
  "can_intr_tx n E L tx_irq_reg oflag_tx iflag_tx mbxid0 =
     do {
       out32 E tx_irq_reg oflag_tx;
       start \<leftarrow> get_info txmbxstart;
       ntx \<leftarrow> get_info numtx;
       let mbxid = scan_flag start (start + ntx) iflag_tx mbxid0;
       upd_stats (\<lambda>s. s\<lparr>transmitted_frames := transmitted_frames s + 1\<rparr>);
       d \<leftarrow> get_info (\<lambda>f. devlist f mbxid);
       case d of None \<Rightarrow> ret (Stop Fault)
       | Some c \<Rightarrow>
           case canmsg_dequeue_element L (msg_queue c) of (txmsg, q) \<Rightarrow> do {
             upd_dev mbxid (\<lambda>c. c\<lparr>msg_queue := q\<rparr>);
             ok \<leftarrow> (case txmsg of
                     Some m \<Rightarrow> do {
                       ok \<leftarrow> can_ringo_tx n E mbxid m;
                       cond ok (upd_dev mbxid (\<lambda>c. c\<lparr>free_queue := canmsg_queue_element L (free_queue c) m\<rparr>));
                       ret ok
                     }
                   | None \<Rightarrow> do {
                       upd_dev mbxid (\<lambda>c. c\<lparr>dflags := dflags c AND NOT CANDEV_RINGO_TX_ENABLED\<rparr>);
                       ret True
                     });
             ret (if \<not> ok then Stop Hang
                  else if wait_cnt c \<noteq> 0 then Stop (Done (Some mbxid)) else Go mbxid)
           }
     }"

primrec can_intr_loop :: "nat \<Rightarrow> nat \<Rightarrow> 'd can_env \<Rightarrow> 'q can_lib \<Rightarrow> nat \<Rightarrow> (('q, 'd) can_world, nat option run) state" where
  \<comment> \<open>the mailbox number of an earlier round is still there when a later one finds no flag in range\<close>
  "can_intr_loop 0 n E L mbxid = ret Hang"
| "can_intr_loop (Suc k) n E L mbxid =
     do {
       irqsrc1 \<leftarrow> in32 E RINGO_CANIFLAG1;
       irqsrc2 \<leftarrow> in32 E RINGO_CANIFLAG2;
       if irqsrc1 = 0 \<and> irqsrc2 = 0 then ret (Done None)
       else do {
         raw \<leftarrow> get_info (\<lambda>f. mode f = CANDEV_MODE_RAW_FRAME);
         sh \<leftarrow> get_info (\<lambda>f. numrx f + rxmbxstart f);
         let iflag_rx = (if raw then irqsrc1 AND RAW_MODE_RX_IRQ else irqsrc1);
         let oflag_tx = (if raw then irqsrc1 AND RAW_MODE_TX_IRQ else irqsrc2);
         let iflag_tx = (if raw then drop_bit sh oflag_tx else oflag_tx);
         let tx_irq_reg = (if raw then RINGO_CANIFLAG1 else RINGO_CANIFLAG2);
         r \<leftarrow> (if iflag_rx > 0 then can_intr_rx n E L iflag_rx mbxid else ret (Go mbxid));
         case r of Stop x \<Rightarrow> ret x
         | Go mbxid \<Rightarrow> do {
             r \<leftarrow> (if iflag_tx > 0 then can_intr_tx n E L tx_irq_reg oflag_tx iflag_tx mbxid else ret (Go mbxid));
             case r of Stop x \<Rightarrow> ret x
             | Go mbxid \<Rightarrow> do {
                 out32 E RINGO_CANIFLAG1 irqsrc1;
                 out32 E RINGO_CANIFLAG2 irqsrc2;
                 can_intr_loop k n E L mbxid
               }
           }
       }
     }"

definition can_intr :: "nat \<Rightarrow> 'd can_env \<Rightarrow> 'q can_lib \<Rightarrow> (('q, 'd) can_world, nat option run) state" where
  \<comment> \<open>\<open>Some i\<close>: the event of device \<open>i\<close> is returned\<close>
  "can_intr n E L =
     do {
       upd_stats (\<lambda>s. s\<lparr>total_interrupts := total_interrupts s + 1\<rparr>);
       estat \<leftarrow> in32 E RINGO_CANESR;
       cond (estat \<noteq> 0) (can_intr_errors E estat);
       can_intr_loop n n E L 0
     }"

subsection \<open>Device controls\<close>

datatype can_dcmd =
    CAN_DEVCTL_SET_MID | CAN_DEVCTL_GET_MID | CAN_DEVCTL_SET_MFILTER | CAN_DEVCTL_GET_MFILTER
  | CAN_DEVCTL_SET_PRIO | CAN_DEVCTL_GET_PRIO | CAN_DEVCTL_SET_TIMESTAMP | CAN_DEVCTL_GET_TIMESTAMP
  | CAN_DEVCTL_WRITE_CANMSG_EXT | CAN_DEVCTL_READ_CANMSG_EXT | CAN_DEVCTL_RX_FRAME_RAW_NOBLOCK
  | CAN_DEVCTL_RX_FRAME_RAW_BLOCK | CAN_DEVCTL_TX_FRAME_RAW | CAN_DEVCTL_ERROR | CAN_DEVCTL_DEBUG_INFO
  | CAN_DEVCTL_GET_STATS | CAN_DEVCTL_GET_INFO | CAN_DEVCTL_OTHER

record can_devctl_info =
  description :: string
  msgq_size :: u32
  waitq_size :: u32
  info_mode :: candev_mode
  bit_rate :: u32
  bit_rate_prescaler :: u16
  sync_jump_width :: u8
  time_segment_1 :: u8
  time_segment_2 :: u8
  num_tx_mboxes :: nat
  num_rx_mboxes :: nat
  loopback_internal :: u32
  autobus_on :: u32
  silent :: u32

text \<open>
  The union \<open>DCMD_DATA\<close>. The identifier, the filter, the priority and the time stamp are the same
  word of it (\<open>d_word\<close>).
\<close>

record dcmd_data =
  d_word :: u32
  d_error :: "u32 \<times> u32 \<times> u32 \<times> u32"
  d_stats :: can_devctl_stats
  d_info :: can_devctl_info

datatype errno = EOK | EINVAL | ENOTSUP

definition imask_of :: "'q candev_ringo_info \<Rightarrow> nat \<Rightarrow> can_loc" where
  "imask_of f mbxid = (if mbxid < txmbxstart f then RINGO_CANIMASK1 else RINGO_CANIMASK2)"

definition enter_freeze :: "'d can_env \<Rightarrow> (('i, 'd) dev_world, bool) state" where
  \<comment> \<open>\<open>False\<close>: no acknowledgement within the timeout of 20000\<close>
  "enter_freeze E =
     do {
       set_port32 E RINGO_CANMC RINGO_CANMC_FRZ RINGO_CANMC_FRZ;
       set_port32 E RINGO_CANMC RINGO_CANMC_HALT RINGO_CANMC_HALT;
       ok \<leftarrow> spin 20001 E RINGO_CANMC (\<lambda>v. v AND RINGO_CANMC_FRZACK = RINGO_CANMC_FRZACK);
       ret (ok \<noteq> None)
     }"

definition leave_freeze :: "'d can_env \<Rightarrow> (('i, 'd) dev_world, unit) state" where
  "leave_freeze E =
     do {
       set_port32 E RINGO_CANMC RINGO_CANMC_HALT 0;
       _ \<leftarrow> spin FLEXCAN_SET_MODE_RETRIES E RINGO_CANMC (\<lambda>v. v AND (RINGO_CANMC_NOTRDY OR RINGO_CANMC_FRZACK) = 0);
       ret ()
     }"

definition devctl_set_mid :: "'d can_env \<Rightarrow> nat \<Rightarrow> u32 \<Rightarrow> (('q, 'd) can_world, errno run) state" where
  "devctl_set_mid E mbxid mid =
     do {
       f \<leftarrow> get_info id;
       if mode f = CANDEV_MODE_RAW_FRAME then ret (Done EINVAL)
       else do {
         set_port32 E (imask_of f mbxid) (MAILBOX mbxid) 0;
         v \<leftarrow> in32 E (Mbx mbxid canmid);
         out32 E (Mbx mbxid canmid) ((v AND NOT RINGO_CANMID_MASK_EXT) OR mid);
         set_port32 E (imask_of f mbxid) (MAILBOX mbxid) (MAILBOX mbxid);
         ret (Done EOK)
       }
     }"

definition devctl_set_mfilter :: "'d can_env \<Rightarrow> nat \<Rightarrow> u32 \<Rightarrow> (('q, 'd) can_world, errno run) state" where
  "devctl_set_mfilter E mbxid mfilter =
     do {
       f \<leftarrow> get_info id;
       if mbxid \<ge> txmbxstart f \<or> mode f = CANDEV_MODE_RAW_FRAME then ret (Done EINVAL)
       else do {
         ok \<leftarrow> enter_freeze E;
         if \<not> ok then ret Exit
         else do {
           set_port32 E RINGO_CANIMASK1 (MAILBOX mbxid) 0;
           out32 E (Lam (mbxid * 4)) (mfilter AND 0xFFFFFFFF);
           set_port32 E RINGO_CANIMASK1 (MAILBOX mbxid) (MAILBOX mbxid);
           leave_freeze E;
           ret (Done EOK)
         }
       }
     }"

definition devctl_get_mfilter :: "'d can_env \<Rightarrow> nat \<Rightarrow> dcmd_data \<Rightarrow> (('q, 'd) can_world, errno run \<times> dcmd_data) state" where
  "devctl_get_mfilter E mbxid dat =
     do {
       f \<leftarrow> get_info id;
       if mbxid \<ge> txmbxstart f then ret (Done EINVAL, dat)
       else do {
         ok \<leftarrow> enter_freeze E;
         if \<not> ok then ret (Exit, dat)
         else do {
           v \<leftarrow> in32 E (Lam (mbxid * 4));
           leave_freeze E;
           ret (Done EOK, dat\<lparr>d_word := v\<rparr>)
         }
       }
     }"

definition devctl_set_prio :: "'d can_env \<Rightarrow> nat \<Rightarrow> u32 \<Rightarrow> (('q, 'd) can_world, errno run) state" where
  "devctl_set_prio E mbxid prio =
     do {
       f \<leftarrow> get_info id;
       if mbxid < txmbxstart f \<or> prio > 7 \<or> mode f = CANDEV_MODE_RAW_FRAME then ret (Done EINVAL)
       else do {
         set_port32 E (imask_of f mbxid) (MAILBOX mbxid) 0;
         v \<leftarrow> in32 E (Mbx mbxid canmcf);
         out32 E (Mbx mbxid canmcf) ((v AND NOT RINGO_CANMCF_TPL_MASK) OR push_bit 29 prio);
         set_port32 E (imask_of f mbxid) (MAILBOX mbxid) (MAILBOX mbxid);
         ret (Done EOK)
       }
     }"

definition devinfo_of :: "'q candev_ringo_info \<Rightarrow> can_devctl_info" where
  "devinfo_of f =
     (let i = initinfo f in
      \<lparr>description = i_description i, msgq_size = i_msgq_size i, waitq_size = i_waitq_size i,
       info_mode = mode f, bit_rate = i_bitrate i, bit_rate_prescaler = i_br_brp i + 1,
       sync_jump_width = i_br_rjw i + 1, time_segment_1 = i_br_pseg1 i + 1,
       time_segment_2 = i_br_pseg2 i + 1, num_tx_mboxes = numtx f, num_rx_mboxes = numrx f,
       loopback_internal = (if iflags f AND INIT_FLAGS_LOOPBACK \<noteq> 0 then 1 else 0),
       autobus_on = (if iflags f AND INIT_FLAGS_AUTOBUS \<noteq> 0 then 1 else 0), silent = 0\<rparr>)"

definition can_print_reg :: "'d can_env \<Rightarrow> (('q, 'd) can_world, unit) state" where
  \<comment> \<open>the reads; the text is not modelled\<close>
  "can_print_reg E =
     for_each [RINGO_CANMC, RINGO_CANCTRL, RINGO_CANTIMER, RINGO_CANRXGMASK, RINGO_CANRX14MASK,
       RINGO_CANRX15MASK, RINGO_CANECR, RINGO_CANESR, RINGO_CANIMASK2, RINGO_CANIMASK1,
       RINGO_CANIFLAG2, RINGO_CANIFLAG1] (\<lambda>l. do { _ \<leftarrow> in32 E l; ret () })"

definition can_print_mailbox :: "'d can_env \<Rightarrow> (('q, 'd) can_world, unit) state" where
  "can_print_mailbox E =
     do {
       f \<leftarrow> get_info id;
       for_each [Some CANDEV_TYPE_RX, Some CANDEV_TYPE_TX, None] (\<lambda>t.
         for_each [i \<leftarrow> [0..<num_mailboxes f]. map_option devtype (devlist f i) = t] (\<lambda>i.
           for_each [canmid, canmcf, canmdh, canmdl] (\<lambda>x. do { _ \<leftarrow> in32 E (Mbx i x); ret () })))
     }"

definition can_ringo_debug :: "'d can_env \<Rightarrow> (('q, 'd) can_world, unit) state" where
  "can_ringo_debug E = do { can_print_reg E; can_print_mailbox E }"

definition can_drvr_devctl :: "'d can_env \<Rightarrow> nat \<Rightarrow> can_dcmd \<Rightarrow> dcmd_data \<Rightarrow>
    (('q, 'd) can_world, errno run \<times> dcmd_data) state" where
  "can_drvr_devctl E mbxid dcmd dat =
     (case dcmd of
        CAN_DEVCTL_SET_MID \<Rightarrow> do { r \<leftarrow> devctl_set_mid E mbxid (d_word dat); ret (r, dat) }
      | CAN_DEVCTL_GET_MID \<Rightarrow> do {
          v \<leftarrow> in32 E (Mbx mbxid canmid);
          ret (Done EOK, dat\<lparr>d_word := v AND RINGO_CANMID_MASK_EXT\<rparr>) }
      | CAN_DEVCTL_SET_MFILTER \<Rightarrow> do { r \<leftarrow> devctl_set_mfilter E mbxid (d_word dat); ret (r, dat) }
      | CAN_DEVCTL_GET_MFILTER \<Rightarrow> devctl_get_mfilter E mbxid dat
      | CAN_DEVCTL_SET_PRIO \<Rightarrow> do { r \<leftarrow> devctl_set_prio E mbxid (d_word dat); ret (r, dat) }
      | CAN_DEVCTL_GET_PRIO \<Rightarrow> do {
          start \<leftarrow> get_info txmbxstart;
          if mbxid < start then ret (Done EINVAL, dat)
          else do {
            v \<leftarrow> in32 E (Mbx mbxid canmcf);
            ret (Done EOK, dat\<lparr>d_word := drop_bit 29 (v AND RINGO_CANMCF_TPL_MASK)\<rparr>) } }
      | CAN_DEVCTL_SET_TIMESTAMP \<Rightarrow> do {
          cond (d_word dat \<noteq> 0xFFFF) (out32 E RINGO_CANTIMER (d_word dat));
          ret (Done EOK, dat) }
      | CAN_DEVCTL_GET_TIMESTAMP \<Rightarrow> do {
          v \<leftarrow> in32 E RINGO_CANTIMER;
          ret (Done EOK, dat\<lparr>d_word := v\<rparr>) }
      | CAN_DEVCTL_WRITE_CANMSG_EXT \<Rightarrow> ret (Done EOK, dat)
      | CAN_DEVCTL_READ_CANMSG_EXT \<Rightarrow> ret (Done EOK, dat)
      | CAN_DEVCTL_ERROR \<Rightarrow> do {
          e1 \<leftarrow> in32 E RINGO_CANESR;
          e2 \<leftarrow> get_info canestat;
          upd_info (\<lambda>f. f\<lparr>canestat := canestat f AND NOT 0xffffffff\<rparr>);
          e3 \<leftarrow> in32 E RINGO_CANECR;
          e4 \<leftarrow> in32 E RINGO_CANECR;
          ret (Done EOK, dat\<lparr>d_error := (e1, e2, e3 AND 0xFF00, e4 AND 0x00FF)\<rparr>) }
      | CAN_DEVCTL_DEBUG_INFO \<Rightarrow> do { can_ringo_debug E; ret (Done EOK, dat) }
      | CAN_DEVCTL_GET_STATS \<Rightarrow> do {
          st \<leftarrow> get_info stats;
          ret (Done EOK, dat\<lparr>d_stats := st\<rparr>) }
      | CAN_DEVCTL_GET_INFO \<Rightarrow> do {
          i \<leftarrow> get_info devinfo_of;
          ret (Done EOK, dat\<lparr>d_info := i\<rparr>) }
      | CAN_DEVCTL_OTHER \<Rightarrow> ret (Done ENOTSUP, dat)
      | _ \<Rightarrow> do {
          m \<leftarrow> get_info mode;
          ret (Done (if m \<noteq> CANDEV_MODE_RAW_FRAME then EINVAL else EOK), dat) })"

subsection \<open>Initialisation\<close>

record candev_ringo_init =
  can_unit :: int
  dev_port :: u32
  dev_mem :: u32
  dev_msgq_size :: u32
  dev_waitq_size :: u32
  dev_mode :: candev_mode
  bitrate :: u32
  br_presdiv :: u8
  br_propseg :: u8
  br_rjw :: u8
  br_pseg1 :: u8
  br_pseg2 :: u8
  irqsys :: int
  flags :: u32
  init_numtx :: nat
  init_numrx :: nat
  midrx :: u32
  midtx :: u32
  init_timestamp :: u32

definition bit_timing :: "candev_ringo_init \<Rightarrow> u32" where
  "bit_timing d = push_bit 24 (ucast (br_presdiv d)) OR push_bit 0 (ucast (br_propseg d)) OR
     push_bit 22 (ucast (br_rjw d)) OR push_bit 19 (ucast (br_pseg1 d)) OR push_bit 16 (ucast (br_pseg2 d))"

definition init_modes :: "'d can_env \<Rightarrow> candev_ringo_init \<Rightarrow> (('q, 'd) can_world, unit) state" where
  \<comment> \<open>the module configuration and the control register, from the bit timing to the interrupt flags\<close>
  "init_modes E d =
     do {
       out32 E RINGO_CANCTRL (bit_timing d);
       set_port32 E RINGO_CANMC RINGO_CANMC_SUPV RINGO_CANMC_SUPV;
       set_port32 E RINGO_CANMC RINGO_CANMC_IRMQ RINGO_CANMC_IRMQ;
       set_port32 E RINGO_CANMC RINGO_CANMC_WRN_EN RINGO_CANMC_WRN_EN;
       set_port32 E RINGO_CANMC RINGO_CANMC_SRX_DIS RINGO_CANMC_SRX_DIS;
       set_port32 E RINGO_CANMC RINGO_CANMC_LPRIO_EN RINGO_CANMC_LPRIO_EN;
       set_port32 E RINGO_CANMC RINGO_CANMC_IDAM_FormatA RINGO_CANMC_IDAM_FormatA;
       set_port32 E RINGO_CANMC RINGO_CANMC_MAXMB_MASK RINGO_CANMC_MAXMB_MAXVAL;
       set_port32 E RINGO_CANCTRL RINGO_CANCTRL_BOFFMSK 0;
       set_port32 E RINGO_CANCTRL RINGO_CANCTRL_ERRMASK 0;
       set_port32 E RINGO_CANCTRL RINGO_CANCTRL_TWRNMSK 0;
       set_port32 E RINGO_CANCTRL RINGO_CANCTRL_RWRNMSK 0;
       m \<leftarrow> get_info mode;
       cond (m = CANDEV_MODE_RAW_FRAME) (set_port32 E RINGO_CANCTRL2 RINGO_CANCTRL2_EACEN RINGO_CANCTRL2_EACEN);
       set_port32 E RINGO_CANCTRL RINGO_CANCTRL_SAMP 0;
       cond (flags d AND INIT_FLAGS_BITRATE_SAM \<noteq> 0 \<and> br_presdiv d \<ge> 5)
         (set_port32 E RINGO_CANCTRL RINGO_CANCTRL_SAMP RINGO_CANCTRL_SAMP);
       set_port32 E RINGO_CANCTRL RINGO_CANCTRL_LPB 0;
       cond (flags d AND INIT_FLAGS_LOOPBACK \<noteq> 0) (do {
         set_port32 E RINGO_CANMC RINGO_CANMC_SRX_DIS 0;
         set_port32 E RINGO_CANCTRL RINGO_CANCTRL_LPB RINGO_CANCTRL_LPB
       });
       set_port32 E RINGO_CANCTRL RINGO_CANCTRL_TSYNC 0;
       cond (flags d AND INIT_FLAGS_TSYN \<noteq> 0) (set_port32 E RINGO_CANCTRL RINGO_CANCTRL_TSYNC RINGO_CANCTRL_TSYNC);
       set_port32 E RINGO_CANCTRL RINGO_CANCTRL_LOM 0;
       cond (flags d AND INIT_FLAGS_LOM \<noteq> 0) (set_port32 E RINGO_CANCTRL RINGO_CANCTRL_LOM RINGO_CANCTRL_LOM);
       set_port32 E RINGO_CANCTRL RINGO_CANCTRL_BOFFREC 0;
       cond (flags d AND INIT_FLAGS_AUTOBUS \<noteq> 0)
         (set_port32 E RINGO_CANCTRL RINGO_CANCTRL_BOFFREC RINGO_CANCTRL_BOFFREC);
       set_port32 E RINGO_CANCTRL RINGO_CANCTRL_LBUF 0;
       cond (flags d AND INIT_FLAGS_LBUF \<noteq> 0) (set_port32 E RINGO_CANCTRL RINGO_CANCTRL_LBUF RINGO_CANCTRL_LBUF);
       cond (flags d AND INIT_FLAGS_TIMESTAMP \<noteq> 0) (out32 E RINGO_CANTIMER (init_timestamp d));
       v \<leftarrow> in32 E RINGO_CANMC;
       cond (v AND RINGO_CANMC_IRMQ = 0) (do {
         out32 E RINGO_CANRXGMASK 0xffffffff;
         out32 E RINGO_CANRX14MASK 0xffffffff;
         out32 E RINGO_CANRX15MASK 0xffffffff
       });
       out32 E RINGO_CANECR 0;
       v \<leftarrow> in32 E RINGO_CANESR;
       out32 E RINGO_CANESR (v OR 0xffffffff);
       out32 E RINGO_CANIMASK2 0;
       out32 E RINGO_CANIMASK1 0;
       out32 E RINGO_CANIFLAG2 0xffffffff;
       out32 E RINGO_CANIFLAG1 0xffffffff
     }"

definition default_mid :: "u32 \<Rightarrow> u32 \<Rightarrow> nat \<Rightarrow> u32" where
  "default_mid ide mid counter =
     (mid + CANMID_DEFAULT * of_nat counter) AND (if ide \<noteq> 0 then RINGO_CANMID_MASK_EXT else RINGO_CANMID_MASK_STD)"

definition init_rx_mailbox :: "'d can_env \<Rightarrow> u32 \<Rightarrow> u32 \<Rightarrow> nat \<times> nat \<Rightarrow> (('q, 'd) can_world, unit) state" where
  "init_rx_mailbox E ide mid = (\<lambda>(i, counter).
     do {
       out32 E (Mbx i canmcf) (push_bit 24 (REC_CODE_NOT_ACTIVE AND 0x0F));
       out32 E (Mbx i canmid) (default_mid ide mid counter);
       out32 E (Mbx i canmdl) 0;
       out32 E (Mbx i canmdh) 0;
       out32 E (Mbx i canmcf) (push_bit 24 (REC_CODE_EMPTY AND 0x0F) OR ide)
     })"

definition init_tx_mailbox :: "'d can_env \<Rightarrow> u32 \<Rightarrow> u32 \<Rightarrow> nat \<times> nat \<Rightarrow> (('q, 'd) can_world, unit) state" where
  "init_tx_mailbox E ide mid = (\<lambda>(i, counter).
     do {
       out32 E (Mbx i canmcf) (push_bit 24 (TRANS_CODE_NOT_READY AND 0x0F) OR push_bit 16 8 OR ide);
       out32 E (Mbx i canmid) (default_mid ide mid counter);
       out32 E (Mbx i canmdl) 0;
       out32 E (Mbx i canmdh) 0
     })"

definition init_rsvd_mailbox :: "'d can_env \<Rightarrow> nat \<Rightarrow> (('q, 'd) can_world, unit) state" where
  \<comment> \<open>the first mailbox (erratum ERR005829) and the last one are out of service\<close>
  "init_rsvd_mailbox E i =
     do {
       out32 E (Mbx i canmcf) (push_bit 24 (TRANS_CODE_NOT_READY AND 0x0F));
       out32 E (Mbx i canmid) 0;
       out32 E (Mbx i canmdl) 0;
       out32 E (Mbx i canmdh) 0
     }"

definition can_init_mailboxes :: "'d can_env \<Rightarrow> candev_ringo_init \<Rightarrow> (('q, 'd) can_world, unit) state" where
  "can_init_mailboxes E d =
     do {
       let ide = (if flags d AND INIT_FLAGS_EXTENDED_MID \<noteq> 0 then RINGO_CANMCF_IDE else 0);
       f \<leftarrow> get_info id;
       for_each (zip [rxmbxstart f..<rxmbxstart f + numrx f] [0..<numrx f]) (init_rx_mailbox E ide (midrx d));
       for_each (zip [txmbxstart f..<txmbxstart f + numtx f] [0..<numtx f]) (init_tx_mailbox E ide (midtx d));
       init_rsvd_mailbox E 0;
       init_rsvd_mailbox E CAN_LAST_MAILBOX_INDEX
     }"

definition can_init_hw :: "'d can_env \<Rightarrow> candev_ringo_init \<Rightarrow> (('q, 'd) can_world, unit run) state" where
  "can_init_hw E d =
     do {
       set_port32 E RINGO_CANMC RINGO_CANMC_SOFTRST RINGO_CANMC_SOFTRST;
       rst \<leftarrow> spin 20001 E RINGO_CANMC (\<lambda>v. v AND RINGO_CANMC_SOFTRST = 0);
       if rst = None then ret Exit
       else do {
         set_port32 E RINGO_CANMC RINGO_CANMC_MDIS 0;
         frz \<leftarrow> spin 20001 E RINGO_CANMC (\<lambda>v. v AND RINGO_CANMC_FRZACK = RINGO_CANMC_FRZACK);
         if frz = None then ret Exit
         else do {
           init_modes E d;
           can_init_mailboxes E d;
           set_port32 E RINGO_CANMC RINGO_CANMC_MDIS 0;
           lpm \<leftarrow> spin 20001 E RINGO_CANMC (\<lambda>v. v AND RINGO_CANMC_LPM_ACK = 0);
           if lpm = None then ret Exit
           else do {
             f \<leftarrow> get_info id;
             let canlam = (if mode f = CANDEV_MODE_RAW_FRAME then 0 else 0xffffffff);
             for_each [rxmbxstart f..<numrx f + 1] (\<lambda>i. out32 E (Lam (4 * i)) canlam);
             leave_freeze E;
             ret (Done ())
           }
         }
       }
     }"

subsection \<open>Messages of the mini-driver\<close>

record can_msg_obj =
  o_mcf :: u32
  o_mid :: u32
  o_mdl :: u32
  o_mdh :: u32

text \<open>
  An entry of the system page's list of mini-drivers: its interrupt, the number of messages it
  has received and the buffer behind its data.
\<close>

record mdriver_entry =
  md_intr :: int
  md_nrx :: nat
  md_msgs :: "can_msg_obj list"

definition mdriver_init :: "mdriver_entry list \<Rightarrow> candev_ringo_init \<Rightarrow> mdriver_entry option" where
  \<comment> \<open>\<open>None\<close> is the return value -1\<close>
  "mdriver_init mds d = (case find (\<lambda>m. md_intr m = irqsys d) mds of
      None \<Rightarrow> None | Some m \<Rightarrow> if md_intr m = - 1 then None else Some m)"

primrec find_mid :: "'d can_env \<Rightarrow> u32 \<Rightarrow> nat list \<Rightarrow> (('q, 'd) can_world, nat option) state" where
  "find_mid E mid [] = ret None"
| "find_mid E mid (i # js) = do {
     v \<leftarrow> in32 E (Mbx i canmid);
     if mid = v then ret (Some i) else find_mid E mid js }"

definition mdriver_find_mbxid :: "'d can_env \<Rightarrow> u32 \<Rightarrow> (('q, 'd) can_world, nat option) state" where
  "mdriver_find_mbxid E mid = do {
     f \<leftarrow> get_info id;
     find_mid E mid [rxmbxstart f..<numrx f + rxmbxstart f] }"

definition mdriver_msg :: "u32 \<Rightarrow> can_msg_obj \<Rightarrow> can_msg \<Rightarrow> can_msg" where
  "mdriver_msg fl ob m =
     (let m = m\<lparr>val32_0 := swap32 fl (o_mdl ob), val32_1 := swap32 fl (o_mdh ob),
                msg_len := ucast (drop_bit 16 (o_mcf ob AND MSG_BUF_DLC_MASK))\<rparr>;
          m = (if fl AND INFO_FLAGS_RX_FULL_MSG \<noteq> 0 then m\<lparr>msg_mid := o_mid ob, msg_timestamp := 0\<rparr> else m)
      in m\<lparr>is_extended_mid := (if o_mcf ob AND MB_CNT_IDE > 0 then 1 else 0)\<rparr>)"

primrec mdriver_loop :: "'d can_env \<Rightarrow> 'q can_lib \<Rightarrow> bool \<Rightarrow> nat option \<Rightarrow> can_msg_obj list \<Rightarrow>
    (('q, 'd) can_world, unit run) state" where
  "mdriver_loop E L srt mbxid [] = ret (Done ())"
| "mdriver_loop E L srt mbxid (ob # obs) =
     do {
       mbxid \<leftarrow> (if srt then mdriver_find_mbxid E (o_mid ob) else ret mbxid);
       case mbxid of None \<Rightarrow> mdriver_loop E L srt mbxid obs
       | Some i \<Rightarrow> do {
           d \<leftarrow> get_info (\<lambda>f. devlist f i);
           case d of None \<Rightarrow> ret Fault
           | Some c \<Rightarrow>
               case canmsg_dequeue_element L (free_queue c) of (e, q) \<Rightarrow> do {
                 upd_dev i (\<lambda>c. c\<lparr>free_queue := q\<rparr>);
                 fl \<leftarrow> get_info iflags;
                 (case e of None \<Rightarrow> ret ()
                  | Some m \<Rightarrow> do {
                      upd_dev i (\<lambda>c. c\<lparr>msg_queue := canmsg_queue_element L (msg_queue c) (mdriver_msg fl ob m)\<rparr>);
                      upd_stats (\<lambda>s. s\<lparr>received_frames := received_frames s + 1\<rparr>)
                    });
                 mdriver_loop E L srt mbxid obs
               }
         }
     }"

definition mdriver_init_data :: "'d can_env \<Rightarrow> 'q can_lib \<Rightarrow> candev_ringo_init \<Rightarrow> mdriver_entry \<Rightarrow>
    (('q, 'd) can_world, unit run) state" where
  "mdriver_init_data E L d md =
     do {
       start \<leftarrow> get_info rxmbxstart;
       mdriver_loop E L (flags d AND INIT_FLAGS_MDRIVER_SORT \<noteq> 0) (Some start) (take (md_nrx md) (md_msgs md))
     }"

definition can_init_intr :: "'d can_env \<Rightarrow> 'q can_lib \<Rightarrow> ('d, int) state \<Rightarrow> candev_ringo_init \<Rightarrow>
    mdriver_entry option \<Rightarrow> (('q, 'd) can_world, unit run) state" where
  \<comment> \<open>\<open>attach\<close> is \<open>InterruptAttach\<close>, which also tells the mini-driver to let go of the controller\<close>
  "can_init_intr E L attach d md =
     do {
       iid \<leftarrow> State (\<lambda>w. case run_state attach (ctlr w) of (i, c) \<Rightarrow> (i, w\<lparr>ctlr := c\<rparr>));
       if iid = - 1 then ret Exit
       else do {
         m \<leftarrow> get_info mode;
         (if m = CANDEV_MODE_RAW_FRAME then out32 E RINGO_CANIMASK1 (RAW_MODE_TX_IRQ OR RAW_MODE_RX_IRQ)
          else do {
            out32 E RINGO_CANIMASK1 0xFFFFFFFE;
            out32 E RINGO_CANIMASK2 0x7FFFFFFF
          });
         r \<leftarrow> (case md of
                 Some e \<Rightarrow> if flags d AND INIT_FLAGS_MDRIVER_INIT \<noteq> 0 then mdriver_init_data E L d e else ret (Done ())
               | None \<Rightarrow> ret (Done ()));
         case r of Done _ \<Rightarrow> do {
             set_port32 E RINGO_CANMC RINGO_CANMC_WAKEMSK RINGO_CANMC_WAKEMSK;
             set_port32 E RINGO_CANCTRL RINGO_CANCTRL_BOFFMSK RINGO_CANCTRL_BOFFMSK;
             set_port32 E RINGO_CANCTRL RINGO_CANCTRL_ERRMASK RINGO_CANCTRL_ERRMASK;
             set_port32 E RINGO_CANCTRL RINGO_CANCTRL_TWRNMSK RINGO_CANCTRL_TWRNMSK;
             set_port32 E RINGO_CANCTRL RINGO_CANCTRL_RWRNMSK RINGO_CANCTRL_RWRNMSK;
             ret (Done ())
           }
         | x \<Rightarrow> ret x
       }
     }"

subsection \<open>Creating the devices of a controller\<close>

definition new_dev :: "'q can_lib \<Rightarrow> candev_ringo_init \<Rightarrow> candev_type \<Rightarrow> nat \<Rightarrow> 'q candev_ringo" where
  "new_dev L d t un =
     (case can_resmgr_init_device L (dev_msgq_size d) of (fq, mq) \<Rightarrow>
        \<lparr>devtype = t, free_queue = fq, msg_queue = mq, wait_cnt = 0, dflags = 0, dev_unit = int un\<rparr>)"

definition create_info :: "'q can_lib \<Rightarrow> candev_ringo_init \<Rightarrow> 'q candev_ringo_info" where
  \<comment> \<open>mailbox 0 is reserved; in the normal mode the units of the transmitters leave out one number\<close>
  "create_info L d =
     (let raw = (dev_mode d = CANDEV_MODE_RAW_FRAME);
          rx0 = 1;
          tx0 = 1 + init_numrx d;
          num = init_numrx d + init_numtx d + 2 - (if raw then 1 else 0);
          tx_unit = init_numrx d + (if raw then 0 else 1)
      in \<lparr>mode = dev_mode d, timer = 0, canestat = 0,
          devlist = (\<lambda>i.
            if i < num \<and> rx0 \<le> i \<and> i < tx0 + init_numtx d then
              if i < tx0 then Some (new_dev L d CANDEV_TYPE_RX (i - rx0))
              else Some (new_dev L d CANDEV_TYPE_TX (tx_unit + (i - tx0)))
            else None),
          numtx = init_numtx d, numrx = init_numrx d,
          iflags = (if flags d AND INIT_FLAGS_RX_FULL_MSG \<noteq> 0 then INFO_FLAGS_RX_FULL_MSG else 0) OR
                   INFO_FLAGS_ENDIAN_SWAP,
          stats = \<lparr>transmitted_frames = 0, received_frames = 0, missing_ack = 0, total_frame_errors = 0,
                   stuff_errors = 0, form_errors = 0, dom_bit_recess_errors = 0, recess_bit_dom_errors = 0,
                   parity_errors = 0, crc_errors = 0, hw_receive_overflows = 0, sw_receive_q_full = 0,
                   error_warning_state_count = 0, error_passive_state_count = 0, bus_off_state_count = 0,
                   bus_idle_count = 0, power_down_count = 0, wake_up_count = 0, rx_interrupts = 0,
                   tx_interrupts = 0, total_interrupts = 0\<rparr>,
          initinfo = \<lparr>i_description = ''MX6X FlexCAN'', i_msgq_size = dev_msgq_size d,
                      i_waitq_size = dev_waitq_size d, i_bitrate = bitrate d, i_br_brp = ucast (br_presdiv d),
                      i_br_rjw = br_rjw d, i_br_pseg1 = br_pseg1 d, i_br_pseg2 = br_pseg2 d\<rparr>,
          txmbxstart = tx0, rxmbxstart = rx0, num_mailboxes = num, erroractive = True\<rparr>)"

definition create_device :: "'d can_env \<Rightarrow> 'q can_lib \<Rightarrow> ('d, int) state \<Rightarrow> mdriver_entry list \<Rightarrow>
    candev_ringo_init \<Rightarrow> (('q, 'd) can_world, unit run) state" where
  "create_device E L attach mds d =
     do {
       let md = (if flags d AND INIT_FLAGS_MDRIVER_INIT \<noteq> 0 then mdriver_init mds d else None);
       cond (md = None)
         (for_each [0..<64] (\<lambda>i. for_each [canmcf, canmid, canmdl, canmdh] (\<lambda>x. out32 E (Mbx i x) 0)));
       upd_info (\<lambda>_. create_info L d);
       r \<leftarrow> (if md = None then can_init_hw E d else ret (Done ()));
       case r of Done _ \<Rightarrow> can_init_intr E L attach d md | x \<Rightarrow> ret x
     }"

subsection \<open>The command line\<close>

datatype bitrate_sel_t = CAN_BR_50K | CAN_BR_125K | CAN_BR_250K | CAN_BR_500K | CAN_BR_1M

record can_bitrate =
  presdiv :: u8
  propseg :: u8
  pseg1 :: u8
  pseg2 :: u8
  rjw :: u8

primrec predefined_bitrates :: "bitrate_sel_t \<Rightarrow> can_bitrate" where
  "predefined_bitrates CAN_BR_50K = \<lparr>presdiv = 0x55, propseg = 0x02, pseg1 = 0x07, pseg2 = 0x01, rjw = 0\<rparr>"
| "predefined_bitrates CAN_BR_125K = \<lparr>presdiv = 0x21, propseg = 0x02, pseg1 = 0x07, pseg2 = 0x01, rjw = 0\<rparr>"
| "predefined_bitrates CAN_BR_250K = \<lparr>presdiv = 0x10, propseg = 0x02, pseg1 = 0x07, pseg2 = 0x01, rjw = 0\<rparr>"
| "predefined_bitrates CAN_BR_500K = \<lparr>presdiv = 0x07, propseg = 0x03, pseg1 = 0x07, pseg2 = 0x01, rjw = 1\<rparr>"
| "predefined_bitrates CAN_BR_1M = \<lparr>presdiv = 0x03, propseg = 0x03, pseg1 = 0x07, pseg2 = 0x01, rjw = 1\<rparr>"

definition set_bitrate :: "bitrate_sel_t \<Rightarrow> candev_ringo_init \<Rightarrow> candev_ringo_init" where
  "set_bitrate br d =
     (let b = predefined_bitrates br in
      d\<lparr>br_presdiv := presdiv b, br_propseg := propseg b, br_pseg1 := pseg1 b, br_pseg2 := pseg2 b, br_rjw := rjw b\<rparr>)"

definition default_init :: candev_ringo_init where
  "default_init = set_bitrate CAN_BR_50K
     \<lparr>can_unit = 0, dev_port = 0x02090000, dev_mem = 0x02090080, dev_msgq_size = 100, dev_waitq_size = 16,
      dev_mode = CANDEV_MODE_IO, bitrate = 0, br_presdiv = 0, br_propseg = 0, br_rjw = 0, br_pseg1 = 0,
      br_pseg2 = 0, irqsys = 43, flags = INIT_FLAGS_MDRIVER_INIT, init_numtx = 31, init_numrx = 31,
      midrx = 0x100C0000, midtx = 0x100C0000, init_timestamp = 0\<rparr>"

text \<open>
  The arguments as \<open>getopt\<close> gives them: options with their argument, and the names of devices.
  \<open>strtoul\<close> is the function of the C library: the value and the rest of the string.
\<close>

datatype can_arg = Opt char string | Dev string

definition strchr :: "string \<Rightarrow> char \<Rightarrow> string option" where
  "strchr s c = (case dropWhile (\<lambda>x. x \<noteq> c) s of [] \<Rightarrow> None | r \<Rightarrow> Some r)"

definition select_bitrate :: "string \<Rightarrow> bitrate_sel_t option" where
  "select_bitrate s =
     (if take 3 s = ''50K'' then Some CAN_BR_50K
      else if take 4 s = ''125K'' then Some CAN_BR_125K
      else if take 4 s = ''250K'' then Some CAN_BR_250K
      else if take 4 s = ''500K'' then Some CAN_BR_500K
      else if take 2 s = ''1M'' then Some CAN_BR_1M
      else None)"

definition manual_bitrate :: "(string \<Rightarrow> nat \<Rightarrow> u32 \<times> string) \<Rightarrow> string \<Rightarrow> candev_ringo_init \<Rightarrow> candev_ringo_init option" where
  \<comment> \<open>\<open>None\<close>: the settings are refused and the driver exits\<close>
  "manual_bitrate strtoul s d =
     (let (v, r) = strtoul s 0;
          d = d\<lparr>br_presdiv := ucast v\<rparr>;
          next = (\<lambda>set (d, cp). case cp of None \<Rightarrow> (d, None)
            | Some r \<Rightarrow> (case strchr r CHR '','' of None \<Rightarrow> (d, None)
                | Some r \<Rightarrow> let (v, r) = strtoul (tl r) 0 in (set (ucast v) d, Some r)));
          (d, cp) = next (\<lambda>v d. d\<lparr>br_propseg := v\<rparr>) (d, Some r);
          (d, cp) = next (\<lambda>v d. d\<lparr>br_pseg1 := v\<rparr>) (d, cp);
          (d, cp) = next (\<lambda>v d. d\<lparr>br_pseg2 := v\<rparr>) (d, cp);
          (d, cp) = next (\<lambda>v d. d\<lparr>br_rjw := v\<rparr>) (d, cp)
      in if br_rjw d > 3 \<or> br_pseg1 d > 7 \<or> br_pseg2 d > 7 \<or> br_pseg2 d = 0 then None else Some d)"

definition can_option :: "(string \<Rightarrow> nat \<Rightarrow> u32 \<times> string) \<Rightarrow> char \<Rightarrow> string \<Rightarrow> candev_ringo_init \<Rightarrow> candev_ringo_init option" where
  "can_option strtoul opt arg d =
     (if opt = CHR ''a'' then Some (d\<lparr>flags := flags d OR INIT_FLAGS_AUTOBUS\<rparr>)
      else if opt = CHR ''b'' then map_option (\<lambda>br. set_bitrate br d) (select_bitrate arg)
      else if opt = CHR ''B'' then manual_bitrate strtoul arg d
      else if opt = CHR ''D'' then Some (d\<lparr>flags := flags d AND NOT INIT_FLAGS_MDRIVER_INIT\<rparr>)
      else if opt = CHR ''i'' then
        (let (v, r) = strtoul arg 16; d = d\<lparr>midrx := v\<rparr>
         in case strchr r CHR '','' of None \<Rightarrow> Some d | Some r \<Rightarrow> Some (d\<lparr>midtx := fst (strtoul (tl r) 0)\<rparr>))
      else if opt = CHR ''m'' then
        Some (d\<lparr>flags := flags d OR INIT_FLAGS_TIMESTAMP, init_timestamp := fst (strtoul arg 16)\<rparr>)
      else if opt = CHR ''n'' then Some (d\<lparr>dev_msgq_size := fst (strtoul arg 0)\<rparr>)
      else if opt = CHR ''q'' then Some (d\<lparr>dev_waitq_size := fst (strtoul arg 0)\<rparr>)
      else if opt = CHR ''R'' then Some (d\<lparr>dev_mode := CANDEV_MODE_RAW_FRAME, init_numrx := 1, init_numtx := 1\<rparr>)
      else if opt = CHR ''s'' then Some (d\<lparr>flags := flags d OR INIT_FLAGS_BITRATE_SAM\<rparr>)
      else if opt = CHR ''S'' then Some (d\<lparr>flags := flags d OR INIT_FLAGS_MDRIVER_SORT\<rparr>)
      else if opt = CHR ''t'' then Some (d\<lparr>flags := flags d OR INIT_FLAGS_LOOPBACK\<rparr>)
      else if opt = CHR ''u'' then Some (d\<lparr>can_unit := sint (fst (strtoul arg 0))\<rparr>)
      else if opt = CHR ''v'' then Some (d\<lparr>flags := flags d OR INIT_FLAGS_LOM\<rparr>)
      else if opt = CHR ''w'' then Some (d\<lparr>flags := flags d OR INIT_FLAGS_LBUF\<rparr>)
      else if opt = CHR ''x'' then Some (d\<lparr>flags := flags d OR INIT_FLAGS_EXTENDED_MID\<rparr>)
      else if opt = CHR ''z'' then Some (d\<lparr>flags := flags d OR INIT_FLAGS_TSYN\<rparr>)
      else Some d)"

definition mask_mids :: "candev_ringo_init \<Rightarrow> candev_ringo_init" where
  "mask_mids d =
     (let m = (if flags d AND INIT_FLAGS_EXTENDED_MID \<noteq> 0 then RINGO_CANMID_MASK_EXT else RINGO_CANMID_MASK_STD)
      in d\<lparr>midrx := midrx d AND m, midtx := midtx d AND m\<rparr>)"

record candev_hwinfo =
  regbase :: u32
  membase :: u32
  irqvector :: u32

definition set_controller :: "candev_hwinfo option \<Rightarrow> candev_hwinfo option \<Rightarrow> bool \<Rightarrow> candev_ringo_init \<Rightarrow> candev_ringo_init" where
  \<comment> \<open>the second controller or the first one, from the hardware information or by default\<close>
  "set_controller can0 can1 second d =
     (let d = (case (if second then can1 else can0) of
             Some h \<Rightarrow> d\<lparr>dev_port := regbase h, dev_mem := membase h, irqsys := sint (irqvector h)\<rparr>
           | None \<Rightarrow> if second then d\<lparr>dev_port := 0x02094000, dev_mem := 0x02094080, irqsys := 44\<rparr>
                     else d\<lparr>dev_port := 0x02090000, dev_mem := 0x02090080, irqsys := 43\<rparr>)
      in if can_unit d = 0 then d\<lparr>can_unit := (if second then 1 else 0)\<rparr> else d)"

definition can_device_arg :: "(string \<Rightarrow> nat \<Rightarrow> u32 \<times> string) \<Rightarrow> candev_hwinfo option \<Rightarrow> candev_hwinfo option \<Rightarrow>
    string \<Rightarrow> candev_ringo_init \<Rightarrow> candev_ringo_init option" where
  "can_device_arg strtoul can0 can1 s d =
     (if take 9 s = ''ringocan0'' then Some (set_controller can0 can1 False d)
      else if take 9 s = ''ringocan1'' then Some (set_controller can0 can1 True d)
      else
        let irq = (\<lambda>d r. if take 1 r = '','' then d\<lparr>irqsys := sint (fst (strtoul (tl r) 0))\<rparr> else d) in
        if take 4 s = ''can0'' then Some (irq (set_controller can0 can1 False d) (drop 4 s))
        else if take 4 s = ''can1'' then Some (irq (set_controller can0 can1 True d) (drop 4 s))
        else None)"

text \<open>
  \<open>device_init\<close>: the devices to create, in order; \<open>None\<close> when the driver exits. \<open>prev\<close> tells
  whether the argument before was an option, after which the message identifiers are masked.
\<close>

fun device_args :: "(string \<Rightarrow> nat \<Rightarrow> u32 \<times> string) \<Rightarrow> candev_hwinfo option \<Rightarrow> candev_hwinfo option \<Rightarrow> bool \<Rightarrow>
    candev_ringo_init \<Rightarrow> can_arg list \<Rightarrow> (candev_ringo_init list \<times> candev_ringo_init) option" where
  "device_args strtoul can0 can1 prev d [] = Some ([], if prev then mask_mids d else d)"
| "device_args strtoul can0 can1 prev d (Opt c s # as) =
     (case can_option strtoul c s d of None \<Rightarrow> None
      | Some d \<Rightarrow> device_args strtoul can0 can1 True d as)"
| "device_args strtoul can0 can1 prev d (Dev s # as) =
     (case can_device_arg strtoul can0 can1 s (if prev then mask_mids d else d) of None \<Rightarrow> None
      | Some d \<Rightarrow>
          (case device_args strtoul can0 can1 False (d\<lparr>can_unit := 0\<rparr>) as of None \<Rightarrow> None
           | Some (ds, d') \<Rightarrow> Some (d # ds, d')))"

definition device_init :: "(string \<Rightarrow> nat \<Rightarrow> u32 \<times> string) \<Rightarrow> candev_hwinfo option \<Rightarrow> candev_hwinfo option \<Rightarrow>
    can_arg list \<Rightarrow> candev_ringo_init list option" where
  "device_init strtoul can0 can1 args =
     (case device_args strtoul can0 can1 (args \<noteq> []) default_init args of None \<Rightarrow> None
      | Some ([], d) \<Rightarrow> Some [d\<lparr>can_unit := 1\<rparr>]
      | Some (ds, d) \<Rightarrow> Some ds)"

end
