(* ===== verification/Can_Queues.thy ===== *)
theory Can_Queues
  imports Can_Driver
begin

section \<open>The CAN driver: its queues\<close>

text \<open>
  How the operations of the driver act on its data whatever the controller does. \<open>keeps R m\<close> says
  that an operation relates the state before to the state after by the preorder \<open>R\<close>; its rules
  follow the structure of an operation. With it: no element of a queue is lost, however
  interrupts, requests and clients are interleaved.
\<close>

subsection \<open>Running operations\<close>

lemma run_get_info [simp]: "run_state (get_info f) w = (f (info w), w)"
  by (simp add: get_info_def)

lemma run_upd_info [simp]: "run_state (upd_info f) w = ((), w\<lparr>info := f (info w)\<rparr>)"
  by (simp add: upd_info_def)

lemma run_upd_stats [simp]: "run_state (upd_stats f) w = ((), w\<lparr>info := (info w)\<lparr>stats := f (stats (info w))\<rparr>\<rparr>)"
  by (simp add: upd_stats_def)

lemma run_upd_dev [simp]:
  "run_state (upd_dev i g) w =
     ((), w\<lparr>info := (info w)\<lparr>devlist := (devlist (info w))(i := map_option g (devlist (info w) i))\<rparr>\<rparr>)"
  by (simp add: upd_dev_def)

lemma run_cond [simp]: "run_state (cond b m) w = (if b then run_state m w else ((), w))"
  by (simp add: cond_def)

lemma can_world_eta [simp]: "\<lparr>info = info w, ctlr = ctlr w\<rparr> = w"
  by (cases w) simp

lemma can_world_upds [simp]:
  "w\<lparr>info := a, ctlr := d\<rparr> = \<lparr>info = a, ctlr = d\<rparr>" "w\<lparr>ctlr := d, info := a\<rparr> = \<lparr>info = a, ctlr = d\<rparr>"
  by (cases w; simp)+

subsection \<open>Relations that operations keep\<close>

named_theorems keeps \<open>rules for \<open>keeps\<close>\<close>

definition preord :: "('s \<Rightarrow> 's \<Rightarrow> bool) \<Rightarrow> bool" where
  "preord R \<longleftrightarrow> reflp R \<and> transp R"

definition keeps :: "('s \<Rightarrow> 's \<Rightarrow> bool) \<Rightarrow> ('s, 'a) state \<Rightarrow> bool" where
  "keeps R m \<longleftrightarrow> preord R \<and> state_io_rel R m"

lemma keepsI: "preord R \<Longrightarrow> (\<And>w. R w (snd (run_state m w))) \<Longrightarrow> keeps R m"
  by (simp add: keeps_def state_io_rel_def)

lemma keepsD: "keeps R m \<Longrightarrow> run_state m w = (r, w') \<Longrightarrow> R w w'"
  unfolding keeps_def state_io_rel_def by (metis snd_conv)

lemma keeps_preord: "keeps R m \<Longrightarrow> preord R"
  by (simp add: keeps_def)

lemma keeps_bind [keeps]:
  assumes "keeps R m" and "\<And>x. keeps R (f x)"
  shows "keeps R (State_Monad.bind m f)"
proof (rule keepsI)
  show "preord R" using assms(1) by (rule keeps_preord)
  fix w obtain x w1 where 1: "run_state m w = (x, w1)" by force
  obtain y w2 where 2: "run_state (f x) w1 = (y, w2)" by force
  have "transp R" using assms(1) by (simp add: keeps_def preord_def)
  then show "R w (snd (run_state (State_Monad.bind m f) w))"
    using keepsD [OF assms(1) 1] keepsD [OF assms(2) 2] 1 2 by (auto dest: transpD)
qed

lemma keeps_ret [keeps]: "preord R \<Longrightarrow> keeps R (ret x)"
  by (auto simp: preord_def intro!: keepsI dest: reflpD)

lemma keeps_get [keeps]: "preord R \<Longrightarrow> keeps R (get_info f)"
  by (auto simp: preord_def intro!: keepsI dest: reflpD)

lemma keeps_if [keeps]: "keeps R m \<Longrightarrow> keeps R m' \<Longrightarrow> keeps R (if b then m else m')"
  by simp

lemma keeps_opt [keeps]: "keeps R m \<Longrightarrow> (\<And>x. keeps R (f x)) \<Longrightarrow> keeps R (case y of None \<Rightarrow> m | Some x \<Rightarrow> f x)"
  by (cases y) auto

lemma keeps_ret_of: "keeps R m \<Longrightarrow> keeps R (ret x)"
  by (blast intro: keeps_ret keeps_preord)

lemma keeps_cond [keeps]: "keeps R m \<Longrightarrow> keeps R (cond b m)"
  using keeps_ret_of [of R m "()"] by (simp add: cond_def)

lemma keeps_each [keeps]: "(\<And>x. keeps R (f x)) \<Longrightarrow> keeps R (for_each xs f)"
  by (induction xs) (simp_all add: keeps_ret_of [of R "f undefined"] keeps_bind)

lemma keeps_port [keeps]: "keeps R (in32 E l) \<Longrightarrow> (\<And>v. keeps R (out32 E l v)) \<Longrightarrow> keeps R (set_port32 E l a x)"
  unfolding set_port32_def by (rule keeps | assumption)+

lemma keeps_spin [keeps]: "keeps R (in32 E l) \<Longrightarrow> keeps R (spin n E l P)"
  by (induction n) (simp_all add: keeps_ret_of keeps_bind keeps_if)

subsection \<open>Operations that leave the queues alone\<close>

definition same_devs :: "('q, 'd) can_world \<Rightarrow> ('q, 'd) can_world \<Rightarrow> bool" where
  "same_devs w w' \<longleftrightarrow> devlist (info w') = devlist (info w)"

lemma same_devs_preord [keeps]: "preord same_devs"
  by (auto simp: preord_def same_devs_def reflp_def transp_def)

lemma same_devs_prims [keeps]:
  "keeps same_devs (upd_stats h)" "keeps same_devs (in32 E l)" "keeps same_devs (out32 E l v)"
  "(\<And>i. devlist (g i) = devlist i) \<Longrightarrow> keeps same_devs (upd_info g)"
  by (auto intro!: keepsI keeps simp: same_devs_def in32_def out32_def split: prod.splits)

lemma same_devs_tx [keeps]: "keeps same_devs (can_ringo_tx n E i m)"
  unfolding can_ringo_tx_def Let_def by (rule keeps)+

lemma same_devs_rx [keeps]: "keeps same_devs (rx_message n E i m)"
  unfolding rx_message_def Let_def by (rule keeps | simp)+

lemma same_devs_errors [keeps]: "keeps same_devs (can_intr_errors E estat)"
  unfolding can_intr_errors_def log_error_def by (rule keeps | simp)+

lemma same_devs_freeze [keeps]: "keeps same_devs (enter_freeze E)" "keeps same_devs (leave_freeze E)"
  unfolding enter_freeze_def leave_freeze_def by (rule keeps)+

lemma same_devs_devctl [keeps]: "keeps same_devs (can_drvr_devctl E i dcmd dat)"
  by (cases dcmd; simp only: can_drvr_devctl_def devctl_set_mid_def devctl_set_mfilter_def devctl_get_mfilter_def
      devctl_set_prio_def can_ringo_debug_def can_print_reg_def can_print_mailbox_def can_dcmd.case;
      (rule keeps | simp)+)

lemma same_devsD: "keeps same_devs m \<Longrightarrow> run_state m w = (r, w') \<Longrightarrow> devlist (info w') = devlist (info w)"
  using keepsD [of same_devs] by (simp add: same_devs_def)

subsection \<open>No element of a queue is lost\<close>

definition fifo_lib :: "'q can_lib \<Rightarrow> ('q \<Rightarrow> can_msg list) \<Rightarrow> bool" where
  "fifo_lib L vw \<longleftrightarrow>
     (\<forall>q. case vw q of
            [] \<Rightarrow> fst (canmsg_dequeue_element L q) = None \<and> vw (snd (canmsg_dequeue_element L q)) = []
          | m # ms \<Rightarrow> fst (canmsg_dequeue_element L q) = Some m \<and> vw (snd (canmsg_dequeue_element L q)) = ms) \<and>
     (\<forall>q m. vw (canmsg_queue_element L q m) = vw q @ [m])"

lemma fifo_enq: "fifo_lib L vw \<Longrightarrow> vw (canmsg_queue_element L q m) = vw q @ [m]"
  by (simp add: fifo_lib_def)

lemma fifo_deq_None:
  "fifo_lib L vw \<Longrightarrow> canmsg_dequeue_element L q = (None, q') \<Longrightarrow> vw q = [] \<and> vw q' = []"
  unfolding fifo_lib_def by (drule conjunct1, drule spec [of _ q]) (auto split: list.splits)

lemma fifo_deq_Some:
  "fifo_lib L vw \<Longrightarrow> canmsg_dequeue_element L q = (Some m, q') \<Longrightarrow> vw q = m # vw q'"
  unfolding fifo_lib_def by (drule conjunct1, drule spec [of _ q]) (auto split: list.splits)

definition elems :: "('q \<Rightarrow> can_msg list) \<Rightarrow> 'q candev_ringo \<Rightarrow> nat" where
  "elems vw c = length (vw (free_queue c)) + length (vw (msg_queue c))"

definition conserves :: "('q \<Rightarrow> can_msg list) \<Rightarrow> ('q, 'd) can_world \<Rightarrow> ('q, 'd) can_world \<Rightarrow> bool" where
  "conserves vw w w' \<longleftrightarrow>
     (\<forall>i. map_option (elems vw) (devlist (info w') i) = map_option (elems vw) (devlist (info w) i))"

lemma conserves_refl [simp]: "conserves vw w w"
  by (simp add: conserves_def)

lemma conserves_trans: "conserves vw w w' \<Longrightarrow> conserves vw w' w'' \<Longrightarrow> conserves vw w w''"
  by (simp add: conserves_def)

lemma conserves_same: "devlist (info w') = devlist (info w) \<Longrightarrow> conserves vw w w'"
  by (simp add: conserves_def)

lemma conserves_keeps: "keeps same_devs m \<Longrightarrow> run_state m w = (r, w') \<Longrightarrow> conserves vw w w'"
  by (rule conserves_same) (rule same_devsD)

lemma rx_element_elems:
  assumes "fifo_lib L vw" and "devlist (info w) i = Some c" and "run_state (rx_element L i c) w = (e, w')"
  shows "\<exists>c'. devlist (info w') = (devlist (info w))(i \<mapsto> c') \<and> wait_cnt c' = wait_cnt c \<and>
           elems vw c = elems vw c' + (if e = None then 0 else 1)"
  using assms
  by (auto simp: rx_element_def elems_def split: prod.splits option.splits
      dest!: fifo_deq_None [OF assms(1)] fifo_deq_Some [OF assms(1)])

lemma can_intr_rx_conserves:
  assumes "fifo_lib L vw" and "run_state (can_intr_rx n E L fl i0) w = (r, w')" and "r \<noteq> Stop Hang"
  shows "conserves vw w w'"
proof -
  let ?i = "scan_flag 0 (rxmbxstart (info w) + numrx (info w)) fl i0"
  show ?thesis
  proof (cases "devlist (info w) ?i")
    case None
    then show ?thesis using assms by (auto simp: can_intr_rx_def Let_def)
  next
    case (Some c)
    obtain e w1 where 1: "run_state (rx_element L ?i c) w = (e, w1)" by (cases "run_state (rx_element L ?i c) w")
    obtain c' where c': "devlist (info w1) = (devlist (info w))(?i \<mapsto> c')"
      "elems vw c = elems vw c' + (if e = None then 0 else 1)"
      using rx_element_elems [OF assms(1) Some 1] by auto
    show ?thesis
    proof (cases e)
      case None
      then have "w' = w1" using assms Some 1 by (auto simp: can_intr_rx_def Let_def)
      then show ?thesis using c' None Some by (simp add: conserves_def)
    next
      case e: (Some m0)
      obtain m w2 where 2: "run_state (rx_message n E ?i m0) w1 = (m, w2)" by (cases "run_state (rx_message n E ?i m0) w1")
      have d2: "devlist (info w2) = devlist (info w1)" using same_devsD [OF same_devs_rx 2] .
      show ?thesis
      proof (cases m)
        case None
        then show ?thesis using assms Some 1 2 e by (auto simp: can_intr_rx_def Let_def)
      next
        case m: (Some m1)
        then show ?thesis using assms Some 1 2 e d2 c'
          by (auto simp: can_intr_rx_def Let_def conserves_def out32_def elems_def fifo_enq [OF assms(1)])
      qed
    qed
  qed
qed

lemma can_intr_tx_conserves:
  assumes "fifo_lib L vw" and "run_state (can_intr_tx n E L reg ofl fl i0) w = (r, w')" and "r \<noteq> Stop Hang"
  shows "conserves vw w w'"
proof -
  let ?i = "scan_flag (txmbxstart (info w)) (txmbxstart (info w) + numtx (info w)) fl i0"
  show ?thesis
  proof (cases "devlist (info w) ?i")
    case None
    then show ?thesis using assms by (auto simp: can_intr_tx_def Let_def out32_def intro: conserves_same)
  next
    case (Some c)
    obtain tx q where q: "canmsg_dequeue_element L (msg_queue c) = (tx, q)" by force
    show ?thesis
    proof (cases tx)
      case None
      then show ?thesis
        using assms Some q fifo_deq_None [OF assms(1)]
        by (auto simp: can_intr_tx_def Let_def out32_def conserves_def elems_def)
    next
      case tx: (Some m)
      note el = fifo_deq_Some [OF assms(1) q [unfolded tx]]
      let ?w1 = "w\<lparr>ctlr := snd (run_state (e_out E reg ofl) (ctlr w)),
        info := (info w)\<lparr>stats := (stats (info w))\<lparr>transmitted_frames := transmitted_frames (stats (info w)) + 1\<rparr>,
          devlist := (devlist (info w))(?i \<mapsto> c\<lparr>msg_queue := q\<rparr>)\<rparr>\<rparr>"
      obtain ok w2 where 2: "run_state (can_ringo_tx n E ?i m) ?w1 = (ok, w2)"
        by (cases "run_state (can_ringo_tx n E ?i m) ?w1")
      have d2: "devlist (info w2) = (devlist (info w))(?i \<mapsto> c\<lparr>msg_queue := q\<rparr>)"
        using same_devsD [OF same_devs_tx 2] by simp
      show ?thesis
        using assms Some q tx 2 d2 el
        by (auto simp: can_intr_tx_def Let_def out32_def conserves_def elems_def fifo_enq [OF assms(1)] split: if_splits)
    qed
  qed
qed

lemma can_intr_loop_conserves:
  assumes "fifo_lib L vw"
  shows "run_state (can_intr_loop k n E L i) w = (Done r, w') \<Longrightarrow> conserves vw w w'"
proof (induction k arbitrary: i w)
  case 0
  then show ?case by simp
next
  case (Suc k)
  obtain a w1 where 1: "run_state (in32 E RINGO_CANIFLAG1) w = (a, w1)" by force
  obtain b w2 where 2: "run_state (in32 E RINGO_CANIFLAG2) w1 = (b, w2)" by force
  have c2: "conserves vw w w2"
    using conserves_keeps [OF _ 1] conserves_keeps [OF _ 2] by (blast intro: keeps conserves_trans)
  let ?raw = "mode (info w2) = CANDEV_MODE_RAW_FRAME"
  let ?rx = "if ?raw then a AND RAW_MODE_RX_IRQ else a"
  let ?otx = "if ?raw then a AND RAW_MODE_TX_IRQ else b"
  let ?tx = "if ?raw then drop_bit (numrx (info w2) + rxmbxstart (info w2)) ?otx else ?otx"
  let ?reg = "if ?raw then RINGO_CANIFLAG1 else RINGO_CANIFLAG2"
  let ?mrx = "if ?rx > 0 then can_intr_rx n E L ?rx i else ret (Go i)"
  obtain s3 w3 where 3: "run_state ?mrx w2 = (s3, w3)" by force
  let ?mtx = "\<lambda>i. if ?tx > 0 then can_intr_tx n E L ?reg ?otx ?tx i else ret (Go i)"
  have c3: "s3 \<noteq> Stop Hang \<Longrightarrow> conserves vw w2 w3"
    using 3 can_intr_rx_conserves [OF assms] by (auto split: if_splits)
  note eq = Suc.prems [unfolded can_intr_loop.simps Let_def, simplified 1 2 run_state_bind prod.case run_get_info]
  show ?case
  proof (cases "a = 0 \<and> b = 0")
    case True
    then show ?thesis using Suc.prems 1 2 c2 by simp
  next
    case False
    show ?thesis
    proof (cases s3)
      case (Stop x)
      then show ?thesis using eq False 3 c3 c2 by (auto intro: conserves_trans)
    next
      case (Go i3)
      obtain s4 w4 where 4: "run_state (?mtx i3) w3 = (s4, w4)" by force
      have c4: "s4 \<noteq> Stop Hang \<Longrightarrow> conserves vw w3 w4"
        using 4 can_intr_tx_conserves [OF assms] by (auto split: if_splits)
      show ?thesis
      proof (cases s4)
        case (Stop x)
        then show ?thesis using eq False 3 4 Go c2 c3 c4 by (auto intro: conserves_trans)
      next
        case go: (Go i4)
        obtain w5 where 5: "run_state (out32 E RINGO_CANIFLAG1 a) w4 = ((), w5)" by (auto simp: out32_def)
        obtain w6 where 6: "run_state (out32 E RINGO_CANIFLAG2 b) w5 = ((), w6)" by (auto simp: out32_def)
        have "run_state (can_intr_loop k n E L i4) w6 = (Done r, w')"
          using eq False 3 4 5 6 Go go by simp
        from Suc.IH [OF this] show ?thesis
          using c2 c3 c4 Go go conserves_keeps [OF _ 5] conserves_keeps [OF _ 6]
          by (metis conserves_trans intr_step.distinct(1) same_devs_prims(3))
      qed
    qed
  qed
qed

lemma can_intr_conserves:
  assumes "fifo_lib L vw" and "run_state (can_intr n E L) w = (Done r, w')"
  shows "conserves vw w w'"
proof -
  let ?m = "do {
       upd_stats (\<lambda>s. s\<lparr>total_interrupts := total_interrupts s + 1\<rparr>);
       estat \<leftarrow> in32 E RINGO_CANESR;
       cond (estat \<noteq> 0) (can_intr_errors E estat) }"
  obtain w1 where 1: "run_state ?m w = ((), w1)" by (cases "run_state ?m w") auto
  have k: "keeps same_devs ?m" by (rule keeps)+
  have "run_state (can_intr_loop n n E L 0) w1 = (Done r, w')"
    using assms(2) 1 by (auto simp: can_intr_def split: prod.splits)
  then show ?thesis
    using conserves_trans [OF conserves_keeps [OF k 1]] can_intr_loop_conserves [OF assms(1)] by blast
qed

lemma can_drvr_transmit_conserves:
  assumes "fifo_lib L vw" and "run_state (can_drvr_transmit n E L i) w = (Done r, w')"
  shows "conserves vw w w'"
proof (cases "devlist (info w) i")
  case None
  then show ?thesis using assms by (auto simp: can_drvr_transmit_def)
next
  case (Some c)
  obtain tx q where q: "canmsg_dequeue_element L (msg_queue c) = (tx, q)" by force
  show ?thesis
  proof (cases tx)
    case None
    then show ?thesis
      using assms Some q fifo_deq_None [OF assms(1)]
      by (auto simp: can_drvr_transmit_def conserves_def elems_def split: if_splits)
  next
    case tx: (Some m)
    note el = fifo_deq_Some [OF assms(1) q [unfolded tx]]
    let ?c1 = "c\<lparr>msg_queue := q, dflags := dflags c OR CANDEV_RINGO_TX_ENABLED\<rparr>"
    let ?w1 = "w\<lparr>info := (info w)\<lparr>devlist := (devlist (info w))(i \<mapsto> ?c1)\<rparr>\<rparr>"
    obtain ok w2 where 2: "run_state (can_ringo_tx n E i m) ?w1 = (ok, w2)"
      by (cases "run_state (can_ringo_tx n E i m) ?w1")
    have d2: "devlist (info w2) = (devlist (info w))(i \<mapsto> ?c1)"
      using same_devsD [OF same_devs_tx 2] by simp
    show ?thesis
      using assms Some q tx 2 d2 el
      by (auto simp: can_drvr_transmit_def conserves_def elems_def fifo_enq [OF assms(1)] split: if_splits)
  qed
qed

text \<open>
  The steps of a running driver: interrupts, requests of the library, what the library does for
  clients (a write queues a message in a free element, a read frees the oldest message), and
  whatever the controller does by itself.
\<close>

inductive can_step :: "'d can_env \<Rightarrow> 'q can_lib \<Rightarrow> ('q, 'd) can_world \<Rightarrow> ('q, 'd) can_world \<Rightarrow> bool"
  for E :: "'d can_env" and L :: "'q can_lib" where
  intr: "run_state (can_intr n E L) w = (Done r, w') \<Longrightarrow> can_step E L w w'"
| transmit: "run_state (can_drvr_transmit n E L i) w = (Done r, w') \<Longrightarrow> can_step E L w w'"
| devctl: "run_state (can_drvr_devctl E i dcmd dat) w = (r, w') \<Longrightarrow> can_step E L w w'"
| client_write: "devlist (info w) i = Some c \<Longrightarrow> canmsg_dequeue_element L (free_queue c) = (Some m, q) \<Longrightarrow>
    can_step E L w (w\<lparr>info := (info w)\<lparr>devlist := (devlist (info w))(i \<mapsto>
      c\<lparr>free_queue := q, msg_queue := canmsg_queue_element L (msg_queue c) m'\<rparr>)\<rparr>\<rparr>)"
| client_read: "devlist (info w) i = Some c \<Longrightarrow> canmsg_dequeue_element L (msg_queue c) = (Some m, q) \<Longrightarrow>
    can_step E L w (w\<lparr>info := (info w)\<lparr>devlist := (devlist (info w))(i \<mapsto>
      c\<lparr>msg_queue := q, free_queue := canmsg_queue_element L (free_queue c) m\<rparr>)\<rparr>\<rparr>)"
| controller: "can_step E L w (w\<lparr>ctlr := d\<rparr>)"

lemma can_step_conserves:
  assumes "fifo_lib L vw" and "can_step E L w w'"
  shows "conserves vw w w'"
  using assms(2)
proof cases
  case (client_write i c m q m')
  then show ?thesis using fifo_deq_Some [OF assms(1)] by (auto simp: conserves_def elems_def fifo_enq [OF assms(1)])
next
  case (client_read i c m q)
  then show ?thesis using fifo_deq_Some [OF assms(1)] by (auto simp: conserves_def elems_def fifo_enq [OF assms(1)])
qed (use assms(1) in \<open>auto intro: can_intr_conserves can_drvr_transmit_conserves conserves_keeps [OF same_devs_devctl] conserves_same\<close>)

end
