(* ===== verification/Can_Flex.thy ===== *)
theory Can_Flex
  imports Can_Queues
begin

section \<open>The CAN driver on a FlexCAN controller\<close>

text \<open>
  The laws of the controller as a locale, and what the operations of the driver do under them: a
  message is loaded into a mailbox and read from one, the transmit side is a channel, the handler
  serves the lowest mailbox, filters and identifiers are set by way of freeze mode.
\<close>

subsection \<open>What the driver relies on in the controller\<close>

definition mc_write :: "u32 \<Rightarrow> u32" where
  \<comment> \<open>the module configuration after a write: the controller sets the acknowledgements itself\<close>
  "mc_write v =
     (let b = (if v AND RINGO_CANMC_SOFTRST \<noteq> 0 then (v AND RINGO_CANMC_MDIS) OR RINGO_CANMC_FRZ OR RINGO_CANMC_HALT
               else v AND NOT (RINGO_CANMC_NOTRDY OR RINGO_CANMC_FRZACK OR RINGO_CANMC_LPM_ACK))
      in b OR (if b AND RINGO_CANMC_MDIS \<noteq> 0 then RINGO_CANMC_LPM_ACK OR RINGO_CANMC_NOTRDY
               else if b AND RINGO_CANMC_FRZ \<noteq> 0 \<and> b AND RINGO_CANMC_HALT \<noteq> 0
               then RINGO_CANMC_FRZACK OR RINGO_CANMC_NOTRDY else 0))"

lemma and_push_bit: "v AND push_bit k 1 \<noteq> 0 \<longleftrightarrow> bit v k" for v :: u32
  using and_exp_eq_0_iff_not_bit [of v k] by (simp add: push_bit_eq_mult)

lemma and_not_or: "(x AND NOT m) OR m = x OR m" for x m :: u32
  by (rule bit_word_eqI) (auto simp: bit_simps)

lemma and_ffffffff [simp]: "v AND 0xFFFFFFFF = v" for v :: u32
proof -
  have "(0xFFFFFFFF :: u32) = - 1" by simp
  then show ?thesis by (simp only: and.right_neutral)
qed

lemma mc_single:
  "RINGO_CANMC_MDIS = push_bit 31 1" "RINGO_CANMC_FRZ = push_bit 30 1" "RINGO_CANMC_HALT = push_bit 28 1"
  "RINGO_CANMC_NOTRDY = push_bit 27 1" "RINGO_CANMC_SOFTRST = push_bit 25 1" "RINGO_CANMC_FRZACK = push_bit 24 1"
  "RINGO_CANMC_LPM_ACK = push_bit 20 1"
  by (simp_all add: can_bits)

lemma mc_write_bits:
  assumes "\<not> bit v 25" and "\<not> bit v 31"
  shows "bit (mc_write v) 24 \<longleftrightarrow> bit v 30 \<and> bit v 28" and "bit (mc_write v) 27 \<longleftrightarrow> bit v 30 \<and> bit v 28"
    and "n \<in> {25, 28, 30, 31} \<Longrightarrow> bit (mc_write v) n \<longleftrightarrow> bit v n" and "\<not> bit (mc_write v) 20"
  using assms unfolding mc_write_def mc_single Let_def and_push_bit
  by (auto simp: bit_simps)

lemma and_push_bit_eq: "bit v k \<Longrightarrow> v AND push_bit k 1 = push_bit k 1" for v :: u32
  by (rule bit_word_eqI) (auto simp: bit_simps)

definition is_store :: "can_loc \<Rightarrow> bool" where
  "is_store l \<longleftrightarrow> l \<in> {RINGO_CANCTRL, RINGO_CANIMASK1, RINGO_CANIMASK2} \<or> (\<exists>i x. l = Mbx i x)"

lemma not_mask_keeps: "m AND b = 0 \<Longrightarrow> NOT (v AND m) AND b = b" for v m b :: "'a::len word"
proof (rule bit_word_eqI)
  fix n assume a: "m AND b = 0"
  have "\<not> (bit m n \<and> bit b n)" using arg_cong [OF a, of "\<lambda>x. bit x n"] by (simp add: bit_and_iff)
  then show "n < LENGTH('a) \<Longrightarrow> bit (NOT (v AND m) AND b) n = bit b n"
    by (auto simp: bit_simps dest: bit_imp_le_length)
qed

lemma scan_flag_lowest:
  "bit fl j \<Longrightarrow> \<forall>k<j. \<not> bit fl k \<Longrightarrow> i + j < lim \<Longrightarrow> scan_flag i lim fl m = i + j"
proof (induction j arbitrary: i fl)
  case 0
  then have "fl AND 1 \<noteq> 0" by (simp add: and_one_eq bit_0 odd_iff_mod_2_eq_one)
  moreover have "fl > 0" using 0 by (auto simp: word_gt_0)
  ultimately show ?case using 0 by (simp add: scan_flag.simps)
next
  case (Suc j)
  have "fl AND 1 = 0" using Suc.prems(2) by (auto simp: and_one_eq bit_0 mod_2_eq_odd)
  moreover have "fl > 0" using Suc.prems(1) by (auto simp: word_gt_0)
  moreover have "scan_flag (Suc i) lim (drop_bit 1 fl) m = Suc i + j"
    using Suc.prems by (intro Suc.IH) (auto simp: bit_drop_bit_eq)
  ultimately show ?case using Suc.prems by (simp add: scan_flag.simps [of i])
qed

lemma bits32: "(\<forall>n \<in> set [0..<32]. bit x n = bit y n) \<Longrightarrow> x = y" for x y :: u32
  by (rule bit_word_eqI) simp

lemma bits8: "(\<forall>n \<in> set [0..<8]. bit x n = bit y n) \<Longrightarrow> x = y" for x y :: u8
  by (rule bit_word_eqI) simp

lemma upt32: "[0..<32] = [0,1,2,3,4,5,6,7,8,9,10,11,12,13,14,15,16,17,18,19,20,21,22,23,24,25,26,27,28,29,30,31]"
  and upt8: "[0..<8] = [0,1,2,3,4,5,6,7]"
  by (simp_all add: upt_rec)

lemma high_bit: "32 \<le> k \<Longrightarrow> \<not> bit x k" for x :: u32
  by (auto dest: bit_imp_le_length)

lemma endian_swap_inv: "ENDIAN_SWAP32 (ENDIAN_SWAP32 x) = x"
  by (rule bits32) (simp add: ENDIAN_SWAP32_def upt32 bit_simps high_bit)

lemma swap32_inv: "swap32 fl (swap32 fl x) = x"
  by (simp add: swap32_def endian_swap_inv)

lemma low_len: "unat l < 16 \<Longrightarrow> 4 \<le> k \<Longrightarrow> \<not> bit l k" for l :: u8
proof -
  assume "unat l < 16" "4 \<le> k"
  then have "take_bit 4 l = l" by (simp add: take_bit_eq_mod word_arith_nat_mod)
  then show ?thesis using \<open>4 \<le> k\<close> by (metis bit_take_bit_iff not_le)
qed

definition tx_mcf :: "u32 \<Rightarrow> u8 \<Rightarrow> u32" where
  "tx_mcf v l = (((v AND NOT (MSG_BUF_CODE_MASK OR MSG_BUF_DLC_MASK)) OR push_bit 24 TRANS_CODE_NOT_READY) OR
      push_bit 16 (ucast l)) OR push_bit 24 (TRANS_CODE_TRANSMIT_ONCE AND 0x0F)"

lemma tx_mcf_dlc: "unat l < 16 \<Longrightarrow> ucast (drop_bit 16 (tx_mcf v l AND MSG_BUF_DLC_MASK)) = l"
  by (rule bits8) (simp add: tx_mcf_def upt8 mcf_bits bit_simps low_len)

lemma tx_mcf_code: "unat l < 16 \<Longrightarrow> tx_mcf v l AND MSG_BUF_CODE_MASK = push_bit 24 TRANS_CODE_TRANSMIT_ONCE"
  by (rule bits32) (simp add: tx_mcf_def upt32 mcf_bits bit_simps low_len)

lemma tx_mcf_not_busy: "unat l < 16 \<Longrightarrow> tx_mcf v l AND push_bit 24 REC_CODE_BUSY = 0"
  by (rule bits32) (simp add: tx_mcf_def upt32 mcf_bits bit_simps low_len)

definition tx_load :: "u32 \<Rightarrow> nat \<Rightarrow> can_msg \<Rightarrow> (can_loc \<Rightarrow> u32) \<Rightarrow> can_loc \<Rightarrow> u32" where
  \<comment> \<open>the mailboxes once \<open>can_ringo_tx\<close> has put a message into mailbox \<open>i\<close>; a message without an identifier
    is sent under the one the mailbox has\<close>
  "tx_load fl i m V = V
      (Mbx i canmcf := tx_mcf (V (Mbx i canmcf)) (msg_len m),
       Mbx i canmdl := swap32 fl (val32_0 m),
       Mbx i canmdh := swap32 fl (val32_1 m),
       Mbx i canmid := (if msg_mid m = CAN_MSG_MID_UNKNOWN then V (Mbx i canmid) else msg_mid m),
       Mbx 0 canmcf := push_bit 24 (TRANS_CODE_NOT_READY AND 0x0F))"

definition rx_value :: "u32 \<Rightarrow> nat \<Rightarrow> (can_loc \<Rightarrow> u32) \<Rightarrow> can_msg \<Rightarrow> can_msg" where
  \<comment> \<open>the message in mailbox \<open>i\<close>\<close>
  "rx_value fl i V m = m\<lparr>
     msg_len := ucast (drop_bit 16 (V (Mbx i canmcf) AND MSG_BUF_DLC_MASK)), msg_mid := V (Mbx i canmid),
     msg_timestamp := V (Mbx i canmcf) AND 0x0000FFFF,
     is_extended_mid := (if V (Mbx i canmcf) AND MB_CNT_IDE > 0 then 1 else 0),
     val32_0 := swap32 fl (V (Mbx i canmdl)), val32_1 := swap32 fl (V (Mbx i canmdh))\<rparr>"

definition rx_empty :: "nat \<Rightarrow> (can_loc \<Rightarrow> u32) \<Rightarrow> can_loc \<Rightarrow> u32" where
  "rx_empty i V = V(Mbx i canmcf := (V (Mbx i canmcf) AND NOT MSG_BUF_CODE_MASK) OR push_bit 24 REC_CODE_EMPTY OR
     (V (Mbx i canmcf) AND MB_CNT_IDE))"

text \<open>
  What a receiver promises: messages are kept in the order they came; when there is no free
  element, the oldest message is given up for the new one.
\<close>

fun recv :: "can_msg list \<times> can_msg list \<Rightarrow> (can_msg \<Rightarrow> can_msg) \<Rightarrow> can_msg list \<times> can_msg list" where
  "recv (e # free, msgs) put = (free, msgs @ [put e])"
| "recv ([], e # msgs) put = ([], msgs @ [put e])"
| "recv ([], []) put = ([], [])"

definition rx_abs :: "('q \<Rightarrow> can_msg list) \<Rightarrow> 'q candev_ringo \<Rightarrow> can_msg list \<times> can_msg list" where
  "rx_abs vw c = (vw (free_queue c), vw (msg_queue c))"

text \<open>
  What a transmitter promises: messages leave in the order they were queued, one at a time; the
  next one is loaded when the controller reports that the last one is gone.
\<close>

record tx_chan =
  busy :: bool
  pending :: "can_msg list"

fun chan_send :: "can_msg list \<Rightarrow> bool \<Rightarrow> can_msg option \<times> tx_chan" where
  "chan_send [] b = (None, \<lparr>busy = b, pending = []\<rparr>)"
| "chan_send (m # ms) b = (Some m, \<lparr>busy = True, pending = ms\<rparr>)"

definition chan_start :: "tx_chan \<Rightarrow> can_msg option \<times> tx_chan" where
  "chan_start c = (if busy c then (None, c) else chan_send (pending c) False)"

definition chan_done :: "tx_chan \<Rightarrow> can_msg option \<times> tx_chan" where
  "chan_done c = chan_send (pending c) False"

definition tx_abs :: "('q \<Rightarrow> can_msg list) \<Rightarrow> 'q candev_ringo \<Rightarrow> tx_chan" where
  "tx_abs vw c = \<lparr>busy = (dflags c AND CANDEV_RINGO_TX_ENABLED \<noteq> 0), pending = vw (msg_queue c)\<rparr>"

definition loaded :: "u32 \<Rightarrow> nat \<Rightarrow> can_msg option \<Rightarrow> (can_loc \<Rightarrow> u32) \<Rightarrow> can_loc \<Rightarrow> u32" where
  "loaded fl i m V = (case m of None \<Rightarrow> V | Some m \<Rightarrow> tx_load fl i m V)"

definition rd_st :: "'d can_env \<Rightarrow> can_loc \<Rightarrow> 'd \<Rightarrow> 'd" where
  "rd_st E l d = snd (run_state (e_in E l) d)"

definition wr_st :: "'d can_env \<Rightarrow> can_loc \<Rightarrow> u32 \<Rightarrow> 'd \<Rightarrow> 'd" where
  "wr_st E l v d = snd (run_state (e_out E l v) d)"

definition calm_rel :: "('d \<Rightarrow> can_loc \<Rightarrow> u32) \<Rightarrow> ('q, 'd) can_world \<Rightarrow> ('q, 'd) can_world \<Rightarrow> bool" where
  \<comment> \<open>only counters change in the driver's data, and the error register keeps its idle bit\<close>
  "calm_rel val w w' \<longleftrightarrow>
     (\<exists>st es ea. info w' = (info w)\<lparr>stats := st, canestat := es, erroractive := ea\<rparr>) \<and>
     (\<exists>e. val (ctlr w') = (val (ctlr w))(RINGO_CANESR := e) \<and>
        e AND RINGO_CANES_IDLE = val (ctlr w) RINGO_CANESR AND RINGO_CANES_IDLE)"

lemma calm_rel_refl: "calm_rel val w w"
proof -
  have "info w = (info w)\<lparr>stats := stats (info w), canestat := canestat (info w), erroractive := erroractive (info w)\<rparr>"
    by simp
  moreover have "val (ctlr w) = (val (ctlr w))(RINGO_CANESR := val (ctlr w) RINGO_CANESR)" by simp
  ultimately show ?thesis unfolding calm_rel_def by blast
qed

lemma calm_rel_trans: "calm_rel val w w' \<Longrightarrow> calm_rel val w' w'' \<Longrightarrow> calm_rel val w w''"
  unfolding calm_rel_def by (elim conjE exE) (simp, blast)

lemma calm_preord [keeps]: "preord (calm_rel val)"
  by (auto simp: preord_def intro!: reflpI transpI calm_rel_refl dest: calm_rel_trans)

lemma calm_rel_ctlr:
  assumes "val d = (val (ctlr w))(RINGO_CANESR := e)" and "e AND RINGO_CANES_IDLE = val (ctlr w) RINGO_CANESR AND RINGO_CANES_IDLE"
  shows "calm_rel val w (w\<lparr>ctlr := d\<rparr>)"
  using assms calm_rel_refl [of val w] unfolding calm_rel_def by auto

lemma calm_upd:
  assumes "\<And>i. \<exists>st es ea. g i = i\<lparr>stats := st, canestat := es, erroractive := ea\<rparr>"
  shows "keeps (calm_rel val) (upd_info g)"
  using calm_rel_refl [of val] assms by (intro keepsI keeps) (auto simp: calm_rel_def)

lemma calm_stats [keeps]: "keeps (calm_rel val) (upd_stats f)"
  unfolding upd_stats_def
proof (rule calm_upd)
  fix i :: "'q candev_ringo_info"
  have "i\<lparr>stats := f (stats i)\<rparr> = i\<lparr>stats := f (stats i), canestat := canestat i, erroractive := erroractive i\<rparr>" by simp
  then show "\<exists>st es ea. i\<lparr>stats := f (stats i)\<rparr> = i\<lparr>stats := st, canestat := es, erroractive := ea\<rparr>" by blast
qed

lemma calm_estat [keeps]: "keeps (calm_rel val) (upd_info (\<lambda>f. f\<lparr>canestat := c f\<rparr>))"
  for c :: "'q candev_ringo_info \<Rightarrow> u32"
proof (rule calm_upd)
  fix i :: "'q candev_ringo_info"
  have "i\<lparr>canestat := c i\<rparr> = i\<lparr>stats := stats i, canestat := c i, erroractive := erroractive i\<rparr>" by simp
  then show "\<exists>st es ea. i\<lparr>canestat := c i\<rparr> = i\<lparr>stats := st, canestat := es, erroractive := ea\<rparr>" by blast
qed

lemma calm_active [keeps]: "keeps (calm_rel val) (upd_info (\<lambda>f. f\<lparr>erroractive := b\<rparr>))"
proof (rule calm_upd)
  fix i :: "'q candev_ringo_info"
  have "i\<lparr>erroractive := b\<rparr> = i\<lparr>stats := stats i, canestat := canestat i, erroractive := b\<rparr>" by simp
  then show "\<exists>st es ea. i\<lparr>erroractive := b\<rparr> = i\<lparr>stats := st, canestat := es, erroractive := ea\<rparr>" by blast
qed

definition mbx_rel :: "('d \<Rightarrow> can_loc \<Rightarrow> u32) \<Rightarrow> ('i, 'd) dev_world \<Rightarrow> ('i, 'd) dev_world \<Rightarrow> bool" where
  \<comment> \<open>the mailboxes and the driver's data stay as they are\<close>
  "mbx_rel val w w' \<longleftrightarrow> info w' = info w \<and> (\<forall>i x. val (ctlr w') (Mbx i x) = val (ctlr w) (Mbx i x))"

lemma mbx_preord [keeps]: "preord (mbx_rel val)"
  by (auto simp: preord_def mbx_rel_def intro!: reflpI transpI)

locale flexcan =
  fixes E :: "'d can_env" and val :: "'d \<Rightarrow> can_loc \<Rightarrow> u32"
  assumes read_val: "l \<noteq> RINGO_CANTIMER \<Longrightarrow> (\<And>i. l = Lam i \<Longrightarrow> val d RINGO_CANMC AND RINGO_CANMC_FRZACK \<noteq> 0) \<Longrightarrow>
      fst (run_state (e_in E l) d) = val d l"
    and read_keeps: "val (snd (run_state (e_in E l) d)) = val d"
    and write_keeps: "l \<noteq> RINGO_CANMC \<Longrightarrow> k \<noteq> l \<Longrightarrow> val (snd (run_state (e_out E l v) d)) k = val d k"
    and write_store: "is_store l \<Longrightarrow> val (snd (run_state (e_out E l v) d)) l = v"
    and write_lam: "val d RINGO_CANMC AND RINGO_CANMC_FRZACK \<noteq> 0 \<Longrightarrow> val (snd (run_state (e_out E (Lam i) v) d)) (Lam i) = v"
    and write_flag: "l \<in> {RINGO_CANIFLAG1, RINGO_CANIFLAG2} \<Longrightarrow>
      val (snd (run_state (e_out E l v) d)) l = val d l AND NOT v"
    and write_esr: "val (snd (run_state (e_out E RINGO_CANESR v) d)) RINGO_CANESR =
      val d RINGO_CANESR AND NOT (v AND 0x30007)"
    and write_mc: "val (snd (run_state (e_out E RINGO_CANMC v) d)) RINGO_CANMC = mc_write v"
    and write_mc_keeps: "k \<noteq> RINGO_CANMC \<Longrightarrow> v AND RINGO_CANMC_SOFTRST = 0 \<or> is_store k \<or> (\<exists>i. k = Lam i) \<Longrightarrow>
      val (snd (run_state (e_out E RINGO_CANMC v) d)) k = val d k"
begin

lemma val_rd [simp]: "val (rd_st E l d) = val d"
  by (simp add: rd_st_def read_keeps)

lemma val_wr_mbx [simp]: "val (wr_st E (Mbx i x) v d) = (val d)(Mbx i x := v)"
  by (auto simp: fun_eq_iff wr_st_def write_store is_store_def write_keeps can_regs)

lemma val_wr_store: "is_store l \<Longrightarrow> l \<noteq> RINGO_CANMC \<Longrightarrow> val (wr_st E l v d) = (val d)(l := v)"
  by (auto simp: fun_eq_iff wr_st_def write_store write_keeps)

lemma val_wr_flag: "l \<in> {RINGO_CANIFLAG1, RINGO_CANIFLAG2} \<Longrightarrow> val (wr_st E l v d) = (val d)(l := val d l AND NOT v)"
  by (auto simp: fun_eq_iff wr_st_def write_flag write_keeps can_regs)

lemma val_wr_lam: "val d RINGO_CANMC AND RINGO_CANMC_FRZACK \<noteq> 0 \<Longrightarrow> val (wr_st E (Lam i) v d) = (val d)(Lam i := v)"
  by (auto simp: fun_eq_iff wr_st_def write_lam write_keeps can_regs)

lemma val_wr_mc: "v AND RINGO_CANMC_SOFTRST = 0 \<Longrightarrow> val (wr_st E RINGO_CANMC v d) = (val d)(RINGO_CANMC := mc_write v)"
  by (auto simp: fun_eq_iff wr_st_def write_mc write_mc_keeps)

lemma run_in32:
  "l \<noteq> RINGO_CANTIMER \<Longrightarrow> (\<And>i. l = Lam i \<Longrightarrow> val (ctlr w) RINGO_CANMC AND RINGO_CANMC_FRZACK \<noteq> 0) \<Longrightarrow>
   run_state (in32 E l) w = (val (ctlr w) l, w\<lparr>ctlr := rd_st E l (ctlr w)\<rparr>)"
  using read_val [of l "ctlr w"] by (auto simp: in32_def rd_st_def split: prod.splits)

lemma run_mbx: "run_state (in32 E (Mbx i x)) w = (val (ctlr w) (Mbx i x), w\<lparr>ctlr := rd_st E (Mbx i x) (ctlr w)\<rparr>)"
  by (rule run_in32) (auto simp: can_regs)

lemma run_reg:
  "run_state (in32 E (Reg r)) w = (val (ctlr w) (Reg r), w\<lparr>ctlr := rd_st E (Reg r) (ctlr w)\<rparr>)" if "r \<noteq> 8"
  by (rule run_in32) (use that in \<open>auto simp: can_regs\<close>)

lemma run_out32: "run_state (out32 E l v) w = ((), w\<lparr>ctlr := wr_st E l v (ctlr w)\<rparr>)"
  by (simp add: out32_def wr_st_def)

lemma run_spin:
  assumes "P (val (ctlr w) l)" and "l \<noteq> RINGO_CANTIMER" and "\<And>i. l \<noteq> Lam i" and "0 < n"
  shows "run_state (spin n E l P) w = (Some (val (ctlr w) l), w\<lparr>ctlr := rd_st E l (ctlr w)\<rparr>)"
proof (cases n)
  case (Suc m)
  have "run_state (in32 E l) w = (val (ctlr w) l, w\<lparr>ctlr := rd_st E l (ctlr w)\<rparr>)"
    using assms(2,3) by (intro run_in32) auto
  then show ?thesis using assms(1) Suc by simp
qed (use assms in simp)

lemma run_timer: "\<exists>t. run_state (in32 E RINGO_CANTIMER) w = (t, w\<lparr>ctlr := rd_st E RINGO_CANTIMER (ctlr w)\<rparr>)"
  by (auto simp: in32_def rd_st_def split: prod.splits)

lemma tx_loads:
  assumes "0 < n" and "val (ctlr w) RINGO_CANESR AND RINGO_CANES_IDLE \<noteq> 0" and "i \<noteq> 0"
    and "mode (info w) = CANDEV_MODE_IO"
  shows "\<exists>d. run_state (can_ringo_tx n E i m) w = (True, w\<lparr>ctlr := d\<rparr>) \<and>
    val d = tx_load (iflags (info w)) i m (val (ctlr w))"
proof -
  have ne: "RINGO_CANESR \<noteq> RINGO_CANTIMER" "\<And>i. RINGO_CANESR \<noteq> Lam i" "\<And>i x. Mbx i x \<noteq> RINGO_CANTIMER"
    by (simp_all add: can_regs)
  show ?thesis
    using assms unfolding can_ringo_tx_def Let_def
    by (cases "iflags (info w) AND INFO_FLAGS_ENDIAN_SWAP = 0")
      (auto simp: run_spin ne run_mbx run_out32 swap32_def tx_load_def tx_mcf_def fun_eq_iff)
qed

lemma calm_out_esr [keeps]: "keeps (calm_rel val) (out32 E RINGO_CANESR v)"
proof (rule keepsI)
  show "preord (calm_rel val)" by (rule keeps)
  fix w :: "('q, 'd) can_world"
  let ?e = "val (ctlr w) RINGO_CANESR AND NOT (v AND 0x30007)"
  have "(0x30007 :: u32) AND 0x80 = 0" by simp
  from not_mask_keeps [OF this] have "NOT (v AND 0x30007) AND (0x80::u32) = 0x80" .
  then have "?e AND RINGO_CANES_IDLE = val (ctlr w) RINGO_CANESR AND RINGO_CANES_IDLE"
    by (simp only: RINGO_CANES_IDLE_def and.assoc)
  moreover have "val (wr_st E RINGO_CANESR v (ctlr w)) = (val (ctlr w))(RINGO_CANESR := ?e)"
    using write_esr [of v "ctlr w"] by (auto simp: fun_eq_iff wr_st_def write_keeps can_regs)
  ultimately show "calm_rel val w (snd (run_state (out32 E RINGO_CANESR v) w))"
    by (simp add: run_out32 calm_rel_ctlr)
qed

lemma calm_in_esr [keeps]: "keeps (calm_rel val) (in32 E RINGO_CANESR)"
  by (rule keepsI) (rule keeps, simp add: run_reg RINGO_CANESR_def, rule calm_rel_ctlr, auto)

lemma calm_errors [keeps]: "keeps (calm_rel val) (can_intr_errors E estat)"
  unfolding can_intr_errors_def log_error_def by (rule keeps | simp)+

lemma intr_start:
  "\<exists>st es ea d. run_state (can_intr n E L) w =
       run_state (can_intr_loop n n E L 0) \<lparr>info = (info w)\<lparr>stats := st, canestat := es, erroractive := ea\<rparr>, ctlr = d\<rparr> \<and>
     (\<forall>k. k \<noteq> RINGO_CANESR \<longrightarrow> val d k = val (ctlr w) k) \<and>
     val d RINGO_CANESR AND RINGO_CANES_IDLE = val (ctlr w) RINGO_CANESR AND RINGO_CANES_IDLE"
proof -
  let ?m = "do {
       upd_stats (\<lambda>s. s\<lparr>total_interrupts := total_interrupts s + 1\<rparr>);
       estat \<leftarrow> in32 E RINGO_CANESR;
       cond (estat \<noteq> 0) (can_intr_errors E estat) }"
  obtain w1 where 1: "run_state ?m w = ((), w1)" by (cases "run_state ?m w") auto
  have "keeps (calm_rel val) ?m" by (rule keeps)+
  from keepsD [OF this 1] obtain st es ea e
    where r: "info w1 = (info w)\<lparr>stats := st, canestat := es, erroractive := ea\<rparr>"
      "val (ctlr w1) = (val (ctlr w))(RINGO_CANESR := e)"
      "e AND RINGO_CANES_IDLE = val (ctlr w) RINGO_CANESR AND RINGO_CANES_IDLE"
    unfolding calm_rel_def by blast
  have "run_state (can_intr n E L) w = run_state (can_intr_loop n n E L 0) w1"
    using 1 by (auto simp: can_intr_def split: prod.splits)
  then show ?thesis using r
    by (intro exI [of _ st] exI [of _ es] exI [of _ ea] exI [of _ "ctlr w1"]) (auto simp flip: r(1))
qed

lemma transmit_refines:
  assumes "fifo_lib L vw" and "0 < n" and "val (ctlr w) RINGO_CANESR AND RINGO_CANES_IDLE \<noteq> 0" and "i \<noteq> 0"
    and "mode (info w) = CANDEV_MODE_IO" and "devlist (info w) i = Some c"
  shows "\<exists>d c'. run_state (can_drvr_transmit n E L i) w =
             (Done (), w\<lparr>info := (info w)\<lparr>devlist := (devlist (info w))(i \<mapsto> c')\<rparr>, ctlr := d\<rparr>) \<and>
           tx_abs vw c' = snd (chan_start (tx_abs vw c)) \<and>
           val d = loaded (iflags (info w)) i (fst (chan_start (tx_abs vw c))) (val (ctlr w))"
proof (cases "dflags c AND CANDEV_RINGO_TX_ENABLED \<noteq> 0")
  case True
  then have "run_state (can_drvr_transmit n E L i) w = (Done (), w)" using assms(6) by (simp add: can_drvr_transmit_def)
  then show ?thesis
    using True assms(6)
    by (intro exI [of _ "ctlr w"] exI [of _ c]) (simp add: chan_start_def tx_abs_def loaded_def fun_upd_idem)
next
  case idle: False
  obtain tx q where q: "canmsg_dequeue_element L (msg_queue c) = (tx, q)" by force
  show ?thesis
  proof (cases tx)
    case None
    note v = fifo_deq_None [OF assms(1) q [unfolded None]]
    have "run_state (can_drvr_transmit n E L i) w =
        (Done (), w\<lparr>info := (info w)\<lparr>devlist := (devlist (info w))(i \<mapsto> c\<lparr>msg_queue := q\<rparr>)\<rparr>, ctlr := ctlr w\<rparr>)"
      using idle q None assms(6) by (simp add: can_drvr_transmit_def)
    then show ?thesis using idle v by (fastforce simp: chan_start_def tx_abs_def loaded_def)
  next
    case (Some m)
    note v = fifo_deq_Some [OF assms(1) q [unfolded Some]]
    let ?c1 = "c\<lparr>msg_queue := q, dflags := dflags c OR CANDEV_RINGO_TX_ENABLED\<rparr>"
    let ?w1 = "w\<lparr>info := (info w)\<lparr>devlist := (devlist (info w))(i \<mapsto> ?c1)\<rparr>\<rparr>"
    obtain d where d: "run_state (can_ringo_tx n E i m) ?w1 = (True, ?w1\<lparr>ctlr := d\<rparr>)"
        "val d = tx_load (iflags (info w)) i m (val (ctlr w))"
      using tx_loads [of n ?w1 i m] assms v by auto
    have b: "(dflags c OR CANDEV_RINGO_TX_ENABLED) AND CANDEV_RINGO_TX_ENABLED \<noteq> 0"
      by (simp add: CANDEV_RINGO_TX_ENABLED_def)
    have "run_state (can_drvr_transmit n E L i) w =
        (Done (), w\<lparr>info := (info w)\<lparr>devlist := (devlist (info w))(i \<mapsto>
          ?c1\<lparr>free_queue := canmsg_queue_element L (free_queue c) m\<rparr>)\<rparr>, ctlr := d\<rparr>)"
      using idle q Some assms(6) d(1) by (simp add: can_drvr_transmit_def)
    then show ?thesis using idle v b d(2)
      by (fastforce simp: chan_start_def tx_abs_def loaded_def)
  qed
qed

lemma intr_tx_refines:
  assumes "fifo_lib L vw" and "0 < n" and "val (ctlr w) RINGO_CANESR AND RINGO_CANES_IDLE \<noteq> 0"
    and "mode (info w) = CANDEV_MODE_IO" and "bit fl j" and "\<forall>k<j. \<not> bit fl k" and "j < numtx (info w)"
    and "i = txmbxstart (info w) + j" and "i \<noteq> 0" and "devlist (info w) i = Some c"
    and "dflags c AND CANDEV_RINGO_TX_ENABLED \<noteq> 0"
  shows "\<exists>st d c'. run_state (can_intr_tx n E L RINGO_CANIFLAG2 fl fl i0) w =
             (if wait_cnt c \<noteq> 0 then Stop (Done (Some i)) else Go i,
              w\<lparr>info := (info w)\<lparr>stats := st, devlist := (devlist (info w))(i \<mapsto> c')\<rparr>, ctlr := d\<rparr>) \<and>
           tx_abs vw c' = snd (chan_done (tx_abs vw c)) \<and>
           val d = loaded (iflags (info w)) i (fst (chan_done (tx_abs vw c)))
             ((val (ctlr w))(RINGO_CANIFLAG2 := val (ctlr w) RINGO_CANIFLAG2 AND NOT fl))"
proof -
  have sc: "scan_flag (txmbxstart (info w)) (txmbxstart (info w) + numtx (info w)) fl i0 = i"
    using scan_flag_lowest [OF assms(5,6)] assms(7,8) by simp
  let ?d1 = "wr_st E RINGO_CANIFLAG2 fl (ctlr w)"
  have v1: "val ?d1 = (val (ctlr w))(RINGO_CANIFLAG2 := val (ctlr w) RINGO_CANIFLAG2 AND NOT fl)"
    by (rule val_wr_flag) simp
  let ?st = "(stats (info w))\<lparr>transmitted_frames := transmitted_frames (stats (info w)) + 1\<rparr>"
  obtain tx q where q: "canmsg_dequeue_element L (msg_queue c) = (tx, q)" by force
  show ?thesis
  proof (cases tx)
    case None
    note v = fifo_deq_None [OF assms(1) q [unfolded None]]
    have nb: "(dflags c AND NOT CANDEV_RINGO_TX_ENABLED) AND CANDEV_RINGO_TX_ENABLED = 0"
      by (simp add: CANDEV_RINGO_TX_ENABLED_def and.assoc)
    have "run_state (can_intr_tx n E L RINGO_CANIFLAG2 fl fl i0) w =
        (if wait_cnt c \<noteq> 0 then Stop (Done (Some i)) else Go i,
         w\<lparr>info := (info w)\<lparr>stats := ?st, devlist := (devlist (info w))(i \<mapsto>
           c\<lparr>msg_queue := q, dflags := dflags c AND NOT CANDEV_RINGO_TX_ENABLED\<rparr>)\<rparr>, ctlr := ?d1\<rparr>)"
      using q None assms(10) sc by (simp add: can_intr_tx_def Let_def run_out32)
    then show ?thesis using v v1 nb by (fastforce simp: chan_done_def tx_abs_def loaded_def)
  next
    case (Some m)
    note v = fifo_deq_Some [OF assms(1) q [unfolded Some]]
    let ?w1 = "w\<lparr>info := (info w)\<lparr>stats := ?st, devlist := (devlist (info w))(i \<mapsto> c\<lparr>msg_queue := q\<rparr>)\<rparr>, ctlr := ?d1\<rparr>"
    have "val ?d1 RINGO_CANESR = val (ctlr w) RINGO_CANESR" by (subst v1) (simp add: can_regs)
    then obtain d where d: "run_state (can_ringo_tx n E i m) ?w1 = (True, ?w1\<lparr>ctlr := d\<rparr>)"
        "val d = tx_load (iflags (info w)) i m (val ?d1)"
      using tx_loads [of n ?w1 i m] assms v by auto
    have "run_state (can_intr_tx n E L RINGO_CANIFLAG2 fl fl i0) w =
        (if wait_cnt c \<noteq> 0 then Stop (Done (Some i)) else Go i,
         w\<lparr>info := (info w)\<lparr>stats := ?st, devlist := (devlist (info w))(i \<mapsto>
           c\<lparr>msg_queue := q, free_queue := canmsg_queue_element L (free_queue c) m\<rparr>)\<rparr>, ctlr := d\<rparr>)"
      using q Some assms(10) d(1) sc by (simp add: can_intr_tx_def Let_def run_out32)
    then show ?thesis using v v1 d(2) assms(11)
      by (fastforce simp: chan_done_def tx_abs_def loaded_def)
  qed
qed

lemma run_flags:
  "run_state (in32 E RINGO_CANIFLAG1) w = (val (ctlr w) RINGO_CANIFLAG1, w\<lparr>ctlr := rd_st E RINGO_CANIFLAG1 (ctlr w)\<rparr>)"
  "run_state (in32 E RINGO_CANIFLAG2) w = (val (ctlr w) RINGO_CANIFLAG2, w\<lparr>ctlr := rd_st E RINGO_CANIFLAG2 (ctlr w)\<rparr>)"
  by (simp_all add: run_reg can_regs)

lemma intr_tx_flags:
  assumes "fifo_lib L vw" and "2 \<le> n" and "val (ctlr w) RINGO_CANESR AND RINGO_CANES_IDLE \<noteq> 0"
    and "mode (info w) = CANDEV_MODE_IO" and "bit fl j" and "\<forall>k<j. \<not> bit fl k" and "j < numtx (info w)"
    and "i = txmbxstart (info w) + j" and "i \<noteq> 0" and "devlist (info w) i = Some c"
    and "dflags c AND CANDEV_RINGO_TX_ENABLED \<noteq> 0"
    and "val (ctlr w) RINGO_CANIFLAG1 = 0" and "val (ctlr w) RINGO_CANIFLAG2 = fl"
  shows "\<exists>st es ea d c'. run_state (can_intr n E L) w =
             (Done (if wait_cnt c \<noteq> 0 then Some i else None),
              \<lparr>info = (info w)\<lparr>canestat := es, erroractive := ea, stats := st, devlist := (devlist (info w))(i \<mapsto> c')\<rparr>, ctlr = d\<rparr>) \<and>
           tx_abs vw c' = snd (chan_done (tx_abs vw c)) \<and>
           val d RINGO_CANIFLAG1 = 0 \<and> val d RINGO_CANIFLAG2 = 0 \<and>
           (\<forall>i' x. val d (Mbx i' x) = loaded (iflags (info w)) i (fst (chan_done (tx_abs vw c))) (val (ctlr w)) (Mbx i' x))"
proof -
  obtain st es ea d where 1: "run_state (can_intr n E L) w =
       run_state (can_intr_loop n n E L 0) \<lparr>info = (info w)\<lparr>stats := st, canestat := es, erroractive := ea\<rparr>, ctlr = d\<rparr>"
    and d: "\<And>k. k \<noteq> RINGO_CANESR \<Longrightarrow> val d k = val (ctlr w) k"
    "val d RINGO_CANESR AND RINGO_CANES_IDLE = val (ctlr w) RINGO_CANESR AND RINGO_CANES_IDLE"
    using intr_start [of n L w] by (elim exE conjE) simp
  obtain n2 where n: "n = Suc (Suc n2)" using assms(2) le_Suc_ex [of 2 n] by (auto simp: numeral_2_eq_2)
  have fl: "fl \<noteq> 0" "fl > 0" using assms(5) by (auto simp: word_gt_0)
  let ?w = "\<lparr>info = (info w)\<lparr>stats := st, canestat := es, erroractive := ea\<rparr>,
     ctlr = rd_st E RINGO_CANIFLAG2 (rd_st E RINGO_CANIFLAG1 d)\<rparr>"
  have vw: "val (ctlr ?w) = val d" by simp
  have fl1: "val d RINGO_CANIFLAG1 = 0" "val d RINGO_CANIFLAG2 = fl" using d(1) assms(12,13) by (simp_all add: can_regs)
  obtain st' d' c' where t: "run_state (can_intr_tx n E L RINGO_CANIFLAG2 fl fl 0) ?w =
             (if wait_cnt c \<noteq> 0 then Stop (Done (Some i)) else Go i,
              ?w\<lparr>info := (info ?w)\<lparr>stats := st', devlist := (devlist (info ?w))(i \<mapsto> c')\<rparr>, ctlr := d'\<rparr>)"
           "tx_abs vw c' = snd (chan_done (tx_abs vw c))"
           "val d' = loaded (iflags (info w)) i (fst (chan_done (tx_abs vw c))) ((val d)(RINGO_CANIFLAG2 := 0))"
    using intr_tx_refines [of L vw n ?w fl j i c 0] assms(1,2,3-11) d(2) fl1 by auto
  have fd: "val d' RINGO_CANIFLAG1 = 0" "val d' RINGO_CANIFLAG2 = 0"
    using fl1 unfolding t(3) by (simp_all add: loaded_def tx_load_def can_regs split: option.splits)
  have io: "mode (info w) \<noteq> CANDEV_MODE_RAW_FRAME" using assms(4) by simp
  have out: "val (wr_st E RINGO_CANIFLAG2 fl (wr_st E RINGO_CANIFLAG1 0 d')) = val d'"
    using fd by (simp add: val_wr_flag fun_upd_idem)
  have mb: "val d' (Mbx i' x) = loaded (iflags (info w)) i (fst (chan_done (tx_abs vw c))) (val (ctlr w)) (Mbx i' x)" for i' x
    unfolding t(3) using d(1) by (auto simp: loaded_def tx_load_def can_regs split: option.splits)
  let ?d2 = "if wait_cnt c \<noteq> 0 then d' else
    rd_st E RINGO_CANIFLAG2 (rd_st E RINGO_CANIFLAG1 (wr_st E RINGO_CANIFLAG2 fl (wr_st E RINGO_CANIFLAG1 0 d')))"
  have "run_state (can_intr n E L) w = (Done (if wait_cnt c \<noteq> 0 then Some i else None),
     \<lparr>info = (info w)\<lparr>canestat := es, erroractive := ea, stats := st', devlist := (devlist (info w))(i \<mapsto> c')\<rparr>, ctlr = ?d2\<rparr>)"
    using t(1) fl fl1 io fd out by (simp add: n 1 [unfolded n] run_flags run_out32 Let_def)
  then show ?thesis using t(2) fd mb out by (intro exI conjI) (assumption, auto)
qed

lemma rx_message_value:
  assumes "0 < n" and "val (ctlr w) (Mbx i canmcf) AND push_bit 24 REC_CODE_BUSY = 0"
  shows "\<exists>t d. run_state (rx_message n E i m) w =
      (Some (rx_value (iflags (info w)) i (val (ctlr w)) m), \<lparr>info = (info w)\<lparr>timer := t\<rparr>, ctlr = d\<rparr>) \<and>
    val d = rx_empty i (val (ctlr w))"
proof -
  have sp: "run_state (spin n E (Mbx i canmcf) (\<lambda>v. v AND push_bit 24 REC_CODE_BUSY = 0)) w =
      (Some (val (ctlr w) (Mbx i canmcf)), w\<lparr>ctlr := rd_st E (Mbx i canmcf) (ctlr w)\<rparr>)"
    using assms by (intro run_spin) (auto simp: can_regs)
  let ?w1 = "w\<lparr>ctlr := wr_st E (Mbx i canmcf) ((val (ctlr w) (Mbx i canmcf) AND NOT MSG_BUF_CODE_MASK) OR
      push_bit 24 REC_CODE_EMPTY OR (val (ctlr w) (Mbx i canmcf) AND MB_CNT_IDE))
    (rd_st E (Mbx i canmcf) (rd_st E (Mbx i canmdh) (rd_st E (Mbx i canmdl) (rd_st E (Mbx i canmid) (rd_st E (Mbx i canmcf) (ctlr w))))))\<rparr>"
  obtain t where t: "run_state (in32 E RINGO_CANTIMER) ?w1 = (t, ?w1\<lparr>ctlr := rd_st E RINGO_CANTIMER (ctlr ?w1)\<rparr>)"
    using run_timer by blast
  then have "run_state (rx_message n E i m) w =
      (Some (rx_value (iflags (info w)) i (val (ctlr w)) m),
       \<lparr>info = (info w)\<lparr>timer := t\<rparr>, ctlr = rd_st E RINGO_CANTIMER (ctlr ?w1)\<rparr>)"
    by (simp add: rx_message_def sp run_mbx run_out32 Let_def rx_value_def)
  then show ?thesis by (auto simp: rx_empty_def)
qed

lemma intr_rx_refines:
  assumes "fifo_lib L vw" and "0 < n" and "bit fl i" and "\<forall>k<i. \<not> bit fl k" and "i < rxmbxstart (info w) + numrx (info w)"
    and "devlist (info w) i = Some c" and "val (ctlr w) (Mbx i canmcf) AND push_bit 24 REC_CODE_BUSY = 0"
    and "rx_abs vw c \<noteq> ([], [])"
  shows "\<exists>st t d c'. run_state (can_intr_rx n E L fl i0) w =
             (if wait_cnt c \<noteq> 0 then Stop (Done (Some i)) else Go i,
              \<lparr>info = (info w)\<lparr>timer := t, stats := st, devlist := (devlist (info w))(i \<mapsto> c')\<rparr>, ctlr = d\<rparr>) \<and>
           rx_abs vw c' = recv (rx_abs vw c) (rx_value (iflags (info w)) i (val (ctlr w))) \<and>
           dflags c' = dflags c \<and>
           val d = (rx_empty i (val (ctlr w)))(RINGO_CANIFLAG1 := val (ctlr w) RINGO_CANIFLAG1 AND NOT fl)"
proof -
  have sc: "scan_flag 0 (rxmbxstart (info w) + numrx (info w)) fl i0 = i"
    using scan_flag_lowest [OF assms(3,4)] assms(5) by simp
  obtain m st1 c1 where e: "run_state (rx_element L i c) w =
      (Some m, w\<lparr>info := (info w)\<lparr>stats := st1, devlist := (devlist (info w))(i \<mapsto> c1)\<rparr>\<rparr>)"
    and c1: "\<And>f. recv (rx_abs vw c) f = (vw (free_queue c1), vw (msg_queue c1) @ [f m])" "dflags c1 = dflags c"
  proof (cases "vw (free_queue c)")
    case Nil
    then obtain m0 ms where q: "vw (msg_queue c) = m0 # ms" using assms(8) by (cases "vw (msg_queue c)") (auto simp: rx_abs_def)
    obtain q1 where 1: "canmsg_dequeue_element L (free_queue c) = (None, q1)" "vw q1 = []"
      using assms(1) Nil unfolding fifo_lib_def by (metis (mono_tags, lifting) list.simps(4) prod.collapse)
    obtain q2 where 2: "canmsg_dequeue_element L (msg_queue c) = (Some m0, q2)" "vw q2 = ms"
      using assms(1) q unfolding fifo_lib_def by (metis (mono_tags, lifting) list.simps(5) prod.collapse)
    show ?thesis
      by (rule that [of m0 "c\<lparr>free_queue := q1, msg_queue := q2\<rparr>"
            "(stats (info w))\<lparr>sw_receive_q_full := sw_receive_q_full (stats (info w)) + 1\<rparr>"])
        (use 1 2 q Nil assms(6) in \<open>auto simp: rx_element_def rx_abs_def\<close>)
  next
    case (Cons m0 fs)
    obtain q1 where 1: "canmsg_dequeue_element L (free_queue c) = (Some m0, q1)" "vw q1 = fs"
      using assms(1) Cons unfolding fifo_lib_def by (metis (mono_tags, lifting) list.simps(5) prod.collapse)
    show ?thesis
      by (rule that [of m0 "c\<lparr>free_queue := q1\<rparr>" "stats (info w)"])
        (use 1 Cons assms(6) in \<open>auto simp: rx_element_def rx_abs_def\<close>)
  qed
  let ?w1 = "w\<lparr>info := (info w)\<lparr>stats := st1, devlist := (devlist (info w))(i \<mapsto> c1)\<rparr>\<rparr>"
  obtain t d where r: "run_state (rx_message n E i m) ?w1 =
      (Some (rx_value (iflags (info w)) i (val (ctlr w)) m), \<lparr>info = (info ?w1)\<lparr>timer := t\<rparr>, ctlr = d\<rparr>)"
    "val d = rx_empty i (val (ctlr w))"
    using rx_message_value [OF assms(2), of ?w1 i m] assms(7) by auto
  let ?c' = "c1\<lparr>msg_queue := canmsg_queue_element L (msg_queue c1) (rx_value (iflags (info w)) i (val (ctlr w)) m)\<rparr>"
  have "val (wr_st E RINGO_CANIFLAG1 fl d) = (rx_empty i (val (ctlr w)))(RINGO_CANIFLAG1 := val (ctlr w) RINGO_CANIFLAG1 AND NOT fl)"
    by (simp add: val_wr_flag r(2)) (simp add: rx_empty_def can_regs)
  moreover have "run_state (can_intr_rx n E L fl i0) w =
     (if wait_cnt c \<noteq> 0 then Stop (Done (Some i)) else Go i,
      \<lparr>info = (info w)\<lparr>timer := t, stats := st1\<lparr>received_frames := received_frames st1 + 1\<rparr>,
         devlist := (devlist (info w))(i \<mapsto> ?c')\<rparr>, ctlr = wr_st E RINGO_CANIFLAG1 fl d\<rparr>)"
    using e r(1) assms(6) sc by (simp add: can_intr_rx_def Let_def run_out32)
  moreover have "rx_abs vw ?c' = recv (rx_abs vw c) (rx_value (iflags (info w)) i (val (ctlr w)))" "dflags ?c' = dflags c"
    using c1 by (simp_all add: rx_abs_def fifo_enq [OF assms(1)])
  ultimately show ?thesis by blast
qed

lemma intr_rx_flags:
  assumes "fifo_lib L vw" and "2 \<le> n" and "mode (info w) = CANDEV_MODE_IO"
    and "bit fl i" and "\<forall>k<i. \<not> bit fl k" and "i < rxmbxstart (info w) + numrx (info w)"
    and "devlist (info w) i = Some c" and "val (ctlr w) (Mbx i canmcf) AND push_bit 24 REC_CODE_BUSY = 0"
    and "rx_abs vw c \<noteq> ([], [])"
    and "val (ctlr w) RINGO_CANIFLAG1 = fl" and "val (ctlr w) RINGO_CANIFLAG2 = 0"
  shows "\<exists>st es ea t d c'. run_state (can_intr n E L) w =
             (Done (if wait_cnt c \<noteq> 0 then Some i else None),
              \<lparr>info = (info w)\<lparr>canestat := es, erroractive := ea, timer := t, stats := st,
                 devlist := (devlist (info w))(i \<mapsto> c')\<rparr>, ctlr = d\<rparr>) \<and>
           rx_abs vw c' = recv (rx_abs vw c) (rx_value (iflags (info w)) i (val (ctlr w))) \<and>
           val d RINGO_CANIFLAG1 = 0 \<and> val d RINGO_CANIFLAG2 = 0 \<and>
           (\<forall>i' x. val d (Mbx i' x) = rx_empty i (val (ctlr w)) (Mbx i' x))"
proof -
  obtain st es ea d where 1: "run_state (can_intr n E L) w =
       run_state (can_intr_loop n n E L 0) \<lparr>info = (info w)\<lparr>stats := st, canestat := es, erroractive := ea\<rparr>, ctlr = d\<rparr>"
    and d: "\<And>k. k \<noteq> RINGO_CANESR \<Longrightarrow> val d k = val (ctlr w) k"
    using intr_start [of n L w] by (elim exE conjE) simp
  obtain n2 where n: "n = Suc (Suc n2)" using assms(2) le_Suc_ex [of 2 n] by (auto simp: numeral_2_eq_2)
  have fl: "fl \<noteq> 0" "fl > 0" using assms(4) by (auto simp: word_gt_0)
  let ?w = "\<lparr>info = (info w)\<lparr>stats := st, canestat := es, erroractive := ea\<rparr>,
     ctlr = rd_st E RINGO_CANIFLAG2 (rd_st E RINGO_CANIFLAG1 d)\<rparr>"
  have fl1: "val d RINGO_CANIFLAG1 = fl" "val d RINGO_CANIFLAG2 = 0" and mb: "\<And>i x. val d (Mbx i x) = val (ctlr w) (Mbx i x)"
    using d assms(10,11) by (simp_all add: can_regs)
  have rxv: "rx_value f i (val d) = rx_value f i (val (ctlr w))" for f by (simp add: rx_value_def mb fun_eq_iff)
  obtain st' t d' c' where t: "run_state (can_intr_rx n E L fl 0) ?w =
             (if wait_cnt c \<noteq> 0 then Stop (Done (Some i)) else Go i,
              \<lparr>info = (info ?w)\<lparr>timer := t, stats := st', devlist := (devlist (info ?w))(i \<mapsto> c')\<rparr>, ctlr = d'\<rparr>)"
           "rx_abs vw c' = recv (rx_abs vw c) (rx_value (iflags (info w)) i (val (ctlr w)))"
           "val d' = (rx_empty i (val d))(RINGO_CANIFLAG1 := 0)"
    using intr_rx_refines [of L vw n fl i ?w c 0] assms(1-9) fl1 mb rxv by auto
  have fd: "val d' RINGO_CANIFLAG1 = 0" "val d' RINGO_CANIFLAG2 = 0"
    using fl1 unfolding t(3) by (simp_all add: rx_empty_def can_regs)
  have io: "mode (info w) \<noteq> CANDEV_MODE_RAW_FRAME" using assms(3) by simp
  have out: "val (wr_st E RINGO_CANIFLAG2 0 (wr_st E RINGO_CANIFLAG1 fl d')) = val d'"
    using fd by (simp add: val_wr_flag fun_upd_idem)
  have mb': "val d' (Mbx i' x) = rx_empty i (val (ctlr w)) (Mbx i' x)" for i' x
    unfolding t(3) by (simp add: rx_empty_def can_regs mb)
  let ?d2 = "if wait_cnt c \<noteq> 0 then d' else
    rd_st E RINGO_CANIFLAG2 (rd_st E RINGO_CANIFLAG1 (wr_st E RINGO_CANIFLAG2 0 (wr_st E RINGO_CANIFLAG1 fl d')))"
  have "run_state (can_intr n E L) w = (Done (if wait_cnt c \<noteq> 0 then Some i else None),
     \<lparr>info = (info w)\<lparr>canestat := es, erroractive := ea, timer := t, stats := st', devlist := (devlist (info w))(i \<mapsto> c')\<rparr>, ctlr = ?d2\<rparr>)"
    using t(1) fl fl1 io fd out by (simp add: n 1 [unfolded n] run_flags run_out32 Let_def)
  then show ?thesis using t(2) fd mb' out by (intro exI conjI) (assumption, auto)
qed

lemma run_port_mc:
  assumes "\<not> bit (val (ctlr w) RINGO_CANMC) 25" and "\<not> bit v 25"
  shows "\<exists>d. run_state (set_port32 E RINGO_CANMC msk v) w = ((), w\<lparr>ctlr := d\<rparr>) \<and>
    val d = (val (ctlr w))(RINGO_CANMC := mc_write ((val (ctlr w) RINGO_CANMC AND NOT msk) OR (v AND msk)))"
proof -
  let ?x = "(val (ctlr w) RINGO_CANMC AND NOT msk) OR (v AND msk)"
  have "?x AND RINGO_CANMC_SOFTRST = 0"
    using and_push_bit [of ?x 25] assms by (auto simp: mc_single bit_simps)
  from val_wr_mc [OF this] show ?thesis
    by (auto simp: set_port32_def run_reg run_out32 can_regs)
qed

lemma enter_freeze_run:
  assumes "\<not> bit (val (ctlr w) RINGO_CANMC) 25" and "\<not> bit (val (ctlr w) RINGO_CANMC) 31"
  shows "\<exists>d x. run_state (enter_freeze E) w = (True, w\<lparr>ctlr := d\<rparr>) \<and> val d = (val (ctlr w))(RINGO_CANMC := x) \<and>
     bit x 24 \<and> \<not> bit x 25 \<and> \<not> bit x 31"
proof -
  obtain d1 where 1: "run_state (set_port32 E RINGO_CANMC RINGO_CANMC_FRZ RINGO_CANMC_FRZ) w = ((), w\<lparr>ctlr := d1\<rparr>)"
    "val d1 = (val (ctlr w))(RINGO_CANMC := mc_write ((val (ctlr w) RINGO_CANMC AND NOT RINGO_CANMC_FRZ) OR (RINGO_CANMC_FRZ AND RINGO_CANMC_FRZ)))"
    using run_port_mc [OF assms(1)] by (force simp: mc_single bit_simps)
  let ?x1 = "val d1 RINGO_CANMC"
  have b1: "\<not> bit ?x1 25" "\<not> bit ?x1 31" "bit ?x1 30"
    using assms by (simp_all add: 1(2) mc_write_bits mc_single bit_simps)
  obtain d2 where 2: "run_state (set_port32 E RINGO_CANMC RINGO_CANMC_HALT RINGO_CANMC_HALT) (w\<lparr>ctlr := d1\<rparr>) = ((), w\<lparr>ctlr := d2\<rparr>)"
    "val d2 = (val d1)(RINGO_CANMC := mc_write ((?x1 AND NOT RINGO_CANMC_HALT) OR (RINGO_CANMC_HALT AND RINGO_CANMC_HALT)))"
    using run_port_mc [of "w\<lparr>ctlr := d1\<rparr>" RINGO_CANMC_HALT RINGO_CANMC_HALT] b1(1) by (force simp: mc_single bit_simps)
  let ?x2 = "val d2 RINGO_CANMC"
  have b2: "\<not> bit ?x2 25" "\<not> bit ?x2 31" "bit ?x2 24"
    using b1 by (simp_all add: 2(2) mc_write_bits mc_single bit_simps)
  have ack: "?x2 AND RINGO_CANMC_FRZACK = RINGO_CANMC_FRZACK"
    unfolding mc_single by (rule and_push_bit_eq) (rule b2)
  have "run_state (spin 20001 E RINGO_CANMC (\<lambda>v. v AND RINGO_CANMC_FRZACK = RINGO_CANMC_FRZACK)) (w\<lparr>ctlr := d2\<rparr>) =
      (Some ?x2, w\<lparr>ctlr := rd_st E RINGO_CANMC d2\<rparr>)"
    using run_spin [of "\<lambda>v. v AND RINGO_CANMC_FRZACK = RINGO_CANMC_FRZACK" "w\<lparr>ctlr := d2\<rparr>" RINGO_CANMC 20001] ack
    by (simp add: can_regs)
  then have "run_state (enter_freeze E) w = (True, w\<lparr>ctlr := rd_st E RINGO_CANMC d2\<rparr>)"
    using 1(1) 2(1) by (simp add: enter_freeze_def)
  moreover have "val (rd_st E RINGO_CANMC d2) = (val (ctlr w))(RINGO_CANMC := ?x2)" by (simp add: 2(2) 1(2))
  ultimately show ?thesis using b2 by blast
qed

lemma leave_freeze_run:
  assumes "\<not> bit (val (ctlr w) RINGO_CANMC) 25" and "\<not> bit (val (ctlr w) RINGO_CANMC) 31"
  shows "\<exists>d x. run_state (leave_freeze E) w = ((), w\<lparr>ctlr := d\<rparr>) \<and> val d = (val (ctlr w))(RINGO_CANMC := x) \<and>
     \<not> bit x 24 \<and> \<not> bit x 25 \<and> \<not> bit x 31"
proof -
  obtain d1 where 1: "run_state (set_port32 E RINGO_CANMC RINGO_CANMC_HALT 0) w = ((), w\<lparr>ctlr := d1\<rparr>)"
    "val d1 = (val (ctlr w))(RINGO_CANMC := mc_write ((val (ctlr w) RINGO_CANMC AND NOT RINGO_CANMC_HALT) OR (0 AND RINGO_CANMC_HALT)))"
    using run_port_mc [OF assms(1), of 0 RINGO_CANMC_HALT] by auto
  let ?x = "val d1 RINGO_CANMC"
  have b: "\<not> bit ?x 25" "\<not> bit ?x 31" "\<not> bit ?x 24" "\<not> bit ?x 27"
    using assms by (simp_all add: 1(2) mc_write_bits mc_single bit_simps)
  have "?x AND RINGO_CANMC_FRZACK = 0" "?x AND RINGO_CANMC_NOTRDY = 0"
    using and_push_bit [of ?x 24] and_push_bit [of ?x 27] b by (auto simp: mc_single)
  then have ok: "?x AND (RINGO_CANMC_NOTRDY OR RINGO_CANMC_FRZACK) = 0" by (simp add: bit.conj_disj_distrib)
  have "run_state (spin FLEXCAN_SET_MODE_RETRIES E RINGO_CANMC (\<lambda>v. v AND (RINGO_CANMC_NOTRDY OR RINGO_CANMC_FRZACK) = 0)) (w\<lparr>ctlr := d1\<rparr>) =
      (Some ?x, w\<lparr>ctlr := rd_st E RINGO_CANMC d1\<rparr>)"
    using run_spin [of "\<lambda>v. v AND (RINGO_CANMC_NOTRDY OR RINGO_CANMC_FRZACK) = 0" "w\<lparr>ctlr := d1\<rparr>" RINGO_CANMC FLEXCAN_SET_MODE_RETRIES] ok
    by (simp add: can_regs FLEXCAN_SET_MODE_RETRIES_def)
  then have "run_state (leave_freeze E) w = ((), w\<lparr>ctlr := rd_st E RINGO_CANMC d1\<rparr>)"
    using 1(1) by (simp add: leave_freeze_def)
  moreover have "val (rd_st E RINGO_CANMC d1) = (val (ctlr w))(RINGO_CANMC := ?x)" by (simp add: 1(2))
  ultimately show ?thesis using b by blast
qed

lemma run_port_imask:
  "l \<in> {RINGO_CANIMASK1, RINGO_CANIMASK2} \<Longrightarrow>
   \<exists>d. run_state (set_port32 E l msk v) w = ((), w\<lparr>ctlr := d\<rparr>) \<and>
     val d = (val (ctlr w))(l := (val (ctlr w) l AND NOT msk) OR (v AND msk))"
  by (auto simp: set_port32_def run_reg run_out32 can_regs val_wr_store is_store_def)

lemma set_mfilter_run:
  assumes "\<not> bit (val (ctlr w) RINGO_CANMC) 25" and "\<not> bit (val (ctlr w) RINGO_CANMC) 31"
    and "i < txmbxstart (info w)" and "mode (info w) = CANDEV_MODE_IO"
  shows "\<exists>d x y. run_state (devctl_set_mfilter E i v) w = (Done EOK, w\<lparr>ctlr := d\<rparr>) \<and>
    val d = (val (ctlr w))(Lam (i * 4) := v, RINGO_CANMC := x, RINGO_CANIMASK1 := y) \<and>
    y = val (ctlr w) RINGO_CANIMASK1 OR MAILBOX i \<and> \<not> bit x 24 \<and> \<not> bit x 25 \<and> \<not> bit x 31"
proof -
  obtain d1 x where 1: "run_state (enter_freeze E) w = (True, w\<lparr>ctlr := d1\<rparr>)" "val d1 = (val (ctlr w))(RINGO_CANMC := x)"
     "bit x 24" "\<not> bit x 25" "\<not> bit x 31"
    using enter_freeze_run [OF assms(1,2)] by blast
  obtain d2 where 2: "run_state (set_port32 E RINGO_CANIMASK1 (MAILBOX i) 0) (w\<lparr>ctlr := d1\<rparr>) = ((), w\<lparr>ctlr := d2\<rparr>)"
     "val d2 = (val d1)(RINGO_CANIMASK1 := val d1 RINGO_CANIMASK1 AND NOT (MAILBOX i))"
    using run_port_imask [of RINGO_CANIMASK1 "MAILBOX i" 0 "w\<lparr>ctlr := d1\<rparr>"] by auto
  have frz: "val d2 RINGO_CANMC AND RINGO_CANMC_FRZACK \<noteq> 0"
    using 1 and_push_bit [of x 24] by (simp add: 2(2) can_regs mc_single)
  obtain d4 where 4: "run_state (set_port32 E RINGO_CANIMASK1 (MAILBOX i) (MAILBOX i)) (w\<lparr>ctlr := wr_st E (Lam (i * 4)) v d2\<rparr>) = ((), w\<lparr>ctlr := d4\<rparr>)"
     "val d4 = (val (wr_st E (Lam (i * 4)) v d2))(RINGO_CANIMASK1 := (val d2 RINGO_CANIMASK1 AND NOT (MAILBOX i)) OR MAILBOX i)"
    using run_port_imask [of RINGO_CANIMASK1 "MAILBOX i" "MAILBOX i" "w\<lparr>ctlr := wr_st E (Lam (i * 4)) v d2\<rparr>"] frz
    by (auto simp: val_wr_lam can_regs)
  have v4: "val d4 = (val (ctlr w))(RINGO_CANMC := x, Lam (i * 4) := v, RINGO_CANIMASK1 := val (ctlr w) RINGO_CANIMASK1 OR MAILBOX i)"
    unfolding 4(2) val_wr_lam [OF frz] 2(2) 1(2)
    by (auto simp: fun_eq_iff can_regs and_not_or)
  obtain d5 x5 where 5: "run_state (leave_freeze E) (w\<lparr>ctlr := d4\<rparr>) = ((), w\<lparr>ctlr := d5\<rparr>)" "val d5 = (val d4)(RINGO_CANMC := x5)"
     "\<not> bit x5 24" "\<not> bit x5 25" "\<not> bit x5 31"
    using leave_freeze_run [of "w\<lparr>ctlr := d4\<rparr>"] 1(4,5) by (auto simp: v4 can_regs)
  have "run_state (devctl_set_mfilter E i v) w = (Done EOK, w\<lparr>ctlr := d5\<rparr>)"
    using 1(1) 2(1) 4(1) 5(1) assms(3,4) by (simp add: devctl_set_mfilter_def run_out32)
  moreover have "val d5 = (val (ctlr w))(Lam (i * 4) := v, RINGO_CANMC := x5, RINGO_CANIMASK1 := val (ctlr w) RINGO_CANIMASK1 OR MAILBOX i)"
    by (auto simp: 5(2) v4 fun_eq_iff can_regs)
  ultimately show ?thesis using 5 by blast
qed

lemma get_mfilter_run:
  assumes "\<not> bit (val (ctlr w) RINGO_CANMC) 25" and "\<not> bit (val (ctlr w) RINGO_CANMC) 31" and "i < txmbxstart (info w)"
  shows "\<exists>d. run_state (devctl_get_mfilter E i dat) w = ((Done EOK, dat\<lparr>d_word := val (ctlr w) (Lam (i * 4))\<rparr>), w\<lparr>ctlr := d\<rparr>) \<and>
    (\<forall>k. k \<noteq> RINGO_CANMC \<longrightarrow> val d k = val (ctlr w) k)"
proof -
  obtain d1 x where 1: "run_state (enter_freeze E) w = (True, w\<lparr>ctlr := d1\<rparr>)" "val d1 = (val (ctlr w))(RINGO_CANMC := x)"
     "bit x 24" "\<not> bit x 25" "\<not> bit x 31"
    using enter_freeze_run [OF assms(1,2)] by blast
  have frz: "val d1 RINGO_CANMC AND RINGO_CANMC_FRZACK \<noteq> 0"
    using 1 and_push_bit [of x 24] by (simp add: mc_single)
  have 2: "run_state (in32 E (Lam (i * 4))) (w\<lparr>ctlr := d1\<rparr>) = (val d1 (Lam (i * 4)), w\<lparr>ctlr := rd_st E (Lam (i * 4)) d1\<rparr>)"
    using run_in32 [of "Lam (i * 4)" "w\<lparr>ctlr := d1\<rparr>"] frz by (simp add: can_regs)
  obtain d3 x3 where 3: "run_state (leave_freeze E) (w\<lparr>ctlr := rd_st E (Lam (i * 4)) d1\<rparr>) = ((), w\<lparr>ctlr := d3\<rparr>)" "val d3 = (val d1)(RINGO_CANMC := x3)"
    using leave_freeze_run [of "w\<lparr>ctlr := rd_st E (Lam (i * 4)) d1\<rparr>"] 1(2,4,5) by auto
  have "run_state (devctl_get_mfilter E i dat) w = ((Done EOK, dat\<lparr>d_word := val (ctlr w) (Lam (i * 4))\<rparr>), w\<lparr>ctlr := d3\<rparr>)"
    using 1(1,2) 2 3(1) assms(3) by (simp add: devctl_get_mfilter_def can_regs)
  then show ?thesis using 3(2) 1(2) by auto
qed

lemma set_mid_run:
  assumes "mode (info w) = CANDEV_MODE_IO"
  shows "\<exists>d. run_state (devctl_set_mid E i v) w = (Done EOK, w\<lparr>ctlr := d\<rparr>) \<and>
    val d = (val (ctlr w))(Mbx i canmid := (val (ctlr w) (Mbx i canmid) AND NOT RINGO_CANMID_MASK_EXT) OR v,
      imask_of (info w) i := val (ctlr w) (imask_of (info w) i) OR MAILBOX i)"
proof -
  let ?l = "imask_of (info w) i"
  have l: "?l \<in> {RINGO_CANIMASK1, RINGO_CANIMASK2}" "?l \<noteq> Mbx i canmid" by (auto simp: imask_of_def can_regs)
  obtain d1 where 1: "run_state (set_port32 E ?l (MAILBOX i) 0) w = ((), w\<lparr>ctlr := d1\<rparr>)"
     "val d1 = (val (ctlr w))(?l := (val (ctlr w) ?l AND NOT (MAILBOX i)) OR (0 AND MAILBOX i))"
    using run_port_imask [OF l(1), of "MAILBOX i" 0 w] by auto
  let ?d2 = "wr_st E (Mbx i canmid) ((val d1 (Mbx i canmid) AND NOT RINGO_CANMID_MASK_EXT) OR v) (rd_st E (Mbx i canmid) d1)"
  obtain d3 where 3: "run_state (set_port32 E ?l (MAILBOX i) (MAILBOX i)) (w\<lparr>ctlr := ?d2\<rparr>) = ((), w\<lparr>ctlr := d3\<rparr>)"
     "val d3 = (val ?d2)(?l := (val ?d2 ?l AND NOT (MAILBOX i)) OR (MAILBOX i AND MAILBOX i))"
    using run_port_imask [OF l(1), of "MAILBOX i" "MAILBOX i" "w\<lparr>ctlr := ?d2\<rparr>"] by auto
  have "run_state (devctl_set_mid E i v) w = (Done EOK, w\<lparr>ctlr := d3\<rparr>)"
    using 1(1) 3(1) assms by (simp add: devctl_set_mid_def run_mbx run_out32)
  moreover have "val d3 = (val (ctlr w))(Mbx i canmid := (val (ctlr w) (Mbx i canmid) AND NOT RINGO_CANMID_MASK_EXT) OR v,
      ?l := val (ctlr w) ?l OR MAILBOX i)"
    using l(2) by (auto simp: 3(2) 1(2) fun_eq_iff and_not_or)
  ultimately show ?thesis by blast
qed

end

subsection \<open>A controller\<close>

text \<open>
  A controller that follows the laws: registers that keep what is written, flags that are cleared by
  writing ones, mask registers that are there in freeze mode only. A library with queues that are
  lists.
\<close>

definition sim_env :: "(can_loc \<Rightarrow> u32) can_env" where
  "sim_env = \<lparr>
     e_in = (\<lambda>l. State (\<lambda>d. (case l of Lam _ \<Rightarrow> if d RINGO_CANMC AND RINGO_CANMC_FRZACK \<noteq> 0 then d l else 0 | _ \<Rightarrow> d l, d))),
     e_out = (\<lambda>l v. State (\<lambda>d. ((),
       if l \<in> {RINGO_CANIFLAG1, RINGO_CANIFLAG2} then d(l := d l AND NOT v)
       else if l = RINGO_CANESR then d(l := d l AND NOT (v AND 0x30007))
       else if l = RINGO_CANMC then d(l := mc_write v)
       else case l of Lam _ \<Rightarrow> if d RINGO_CANMC AND RINGO_CANMC_FRZACK \<noteq> 0 then d(l := v) else d | _ \<Rightarrow> d(l := v))))\<rparr>"

definition list_lib :: "can_msg list can_lib" where
  "list_lib = \<lparr>
     can_resmgr_init_device = (\<lambda>n. (replicate (unat n) \<lparr>val32_0 = 0, val32_1 = 0, msg_len = 0, msg_mid = 0,
       msg_timestamp = 0, is_extended_mid = 0, is_remote_frame = 0\<rparr>, [])),
     canmsg_dequeue_element = (\<lambda>q. case q of [] \<Rightarrow> (None, []) | m # ms \<Rightarrow> (Some m, ms)),
     canmsg_queue_element = (\<lambda>q m. q @ [m])\<rparr>"

interpretation sim: flexcan sim_env "\<lambda>d. d"
proof
  fix l k :: can_loc and d v i
  show "l \<noteq> RINGO_CANTIMER \<Longrightarrow> (\<And>i. l = Lam i \<Longrightarrow> d RINGO_CANMC AND RINGO_CANMC_FRZACK \<noteq> 0) \<Longrightarrow>
      fst (run_state (e_in sim_env l) d) = d l"
    by (auto simp: sim_env_def split: can_loc.split)
  show "snd (run_state (e_in sim_env l) d) = d"
    by (simp add: sim_env_def)
  show "l \<noteq> RINGO_CANMC \<Longrightarrow> k \<noteq> l \<Longrightarrow> snd (run_state (e_out sim_env l v) d) k = d k"
    by (auto simp: sim_env_def split: can_loc.split)
  show "is_store l \<Longrightarrow> snd (run_state (e_out sim_env l v) d) l = v"
    by (auto simp: sim_env_def is_store_def can_regs)
  show "d RINGO_CANMC AND RINGO_CANMC_FRZACK \<noteq> 0 \<Longrightarrow> snd (run_state (e_out sim_env (Lam i) v) d) (Lam i) = v"
    by (simp add: sim_env_def can_regs)
  show "l \<in> {RINGO_CANIFLAG1, RINGO_CANIFLAG2} \<Longrightarrow> snd (run_state (e_out sim_env l v) d) l = d l AND NOT v"
    by (auto simp: sim_env_def)
  show "snd (run_state (e_out sim_env RINGO_CANESR v) d) RINGO_CANESR = d RINGO_CANESR AND NOT (v AND 0x30007)"
    by (simp add: sim_env_def can_regs)
  show "snd (run_state (e_out sim_env RINGO_CANMC v) d) RINGO_CANMC = mc_write v"
    by (simp add: sim_env_def can_regs)
  show "k \<noteq> RINGO_CANMC \<Longrightarrow> v AND RINGO_CANMC_SOFTRST = 0 \<or> is_store k \<or> (\<exists>i. k = Lam i) \<Longrightarrow>
      snd (run_state (e_out sim_env RINGO_CANMC v) d) k = d k"
    by (simp add: sim_env_def can_regs)
qed

lemma list_lib_fifo: "fifo_lib list_lib (\<lambda>q. q)"
  by (auto simp: fifo_lib_def list_lib_def split: list.split)

end
