(* ===== verification/Can_Init.thy ===== *)
theory Can_Init
  imports Can_Flex
begin

section \<open>The CAN driver: initialisation\<close>

text \<open>
  The mailboxes and masks that \<open>can_init_hw\<close> leaves in the controller.
\<close>

subsection \<open>Initialisation\<close>

definition frozen :: "u32 \<Rightarrow> bool" where
  "frozen v \<longleftrightarrow> \<not> bit v 25 \<and> \<not> bit v 31 \<and> bit v 30 \<and> bit v 28 \<and> bit v 24"

lemma mc_write_frozen:
  "\<not> bit v 25 \<Longrightarrow> \<not> bit v 31 \<Longrightarrow> bit v 30 \<Longrightarrow> bit v 28 \<Longrightarrow> frozen (mc_write v)"
  by (simp add: frozen_def mc_write_bits)

lemma mc_write_rst:
  assumes "bit v 25"
  shows "\<not> bit (mc_write v) 25" and "bit (mc_write v) 30" and "bit (mc_write v) 28"
  using assms unfolding mc_write_def mc_single Let_def and_push_bit by (auto simp: bit_simps)

definition init_rel :: "('d \<Rightarrow> can_loc \<Rightarrow> u32) \<Rightarrow> ('i, 'd) dev_world \<Rightarrow> ('i, 'd) dev_world \<Rightarrow> bool" where
  \<comment> \<open>the mailboxes and the driver's data stay as they are, and so does freeze mode\<close>
  "init_rel val w w' \<longleftrightarrow> info w' = info w \<and> (\<forall>i x. val (ctlr w') (Mbx i x) = val (ctlr w) (Mbx i x)) \<and>
     (frozen (val (ctlr w) RINGO_CANMC) \<longrightarrow> frozen (val (ctlr w') RINGO_CANMC))"

lemma init_preord [keeps]: "preord (init_rel val)"
  by (auto simp: preord_def init_rel_def intro!: reflpI transpI)

primrec mbx_spec :: "u32 \<Rightarrow> u32 \<Rightarrow> can_field \<Rightarrow> u32" where
  "mbx_spec mcf mid canmcf = mcf"
| "mbx_spec mcf mid canmid = mid"
| "mbx_spec mcf mid canmdl = 0"
| "mbx_spec mcf mid canmdh = 0"

definition set_mbx :: "nat \<Rightarrow> nat \<Rightarrow> (nat \<Rightarrow> can_field \<Rightarrow> u32) \<Rightarrow> (can_loc \<Rightarrow> u32) \<Rightarrow> can_loc \<Rightarrow> u32" where
  \<comment> \<open>\<open>n\<close> mailboxes from \<open>a\<close> on hold what \<open>g\<close> says\<close>
  "set_mbx a n g V = (\<lambda>l. case l of Mbx j x \<Rightarrow> if a \<le> j \<and> j < a + n then g (j - a) x else V l | _ \<Rightarrow> V l)"

lemma set_mbx_1:
  "set_mbx i 1 (\<lambda>_. g) V = V(Mbx i canmcf := g canmcf, Mbx i canmid := g canmid, Mbx i canmdl := g canmdl, Mbx i canmdh := g canmdh)"
proof
  fix l show "set_mbx i 1 (\<lambda>_. g) V l = (V(Mbx i canmcf := g canmcf, Mbx i canmid := g canmid, Mbx i canmdl := g canmdl, Mbx i canmdh := g canmdh)) l"
  proof (cases l)
    case (Mbx j x)
    then show ?thesis by (cases x) (auto simp: set_mbx_def)
  qed (auto simp: set_mbx_def)
qed

definition init_table :: "nat \<Rightarrow> nat \<Rightarrow> u32 \<Rightarrow> candev_ringo_init \<Rightarrow> (can_loc \<Rightarrow> u32) \<Rightarrow> can_loc \<Rightarrow> u32" where
  \<comment> \<open>the mailboxes after initialisation\<close>
  "init_table nrx ntx ide dv V =
     set_mbx 63 1 (\<lambda>_. mbx_spec (push_bit 24 (TRANS_CODE_NOT_READY AND 0x0F)) 0)
         (set_mbx 0 1 (\<lambda>_. mbx_spec (push_bit 24 (TRANS_CODE_NOT_READY AND 0x0F)) 0)
           (set_mbx (1 + nrx) ntx
              (\<lambda>k. mbx_spec (push_bit 24 (TRANS_CODE_NOT_READY AND 0x0F) OR push_bit 16 8 OR ide) (default_mid ide (midtx dv) k))
             (set_mbx 1 nrx
               (\<lambda>k. mbx_spec (push_bit 24 (REC_CODE_EMPTY AND 0x0F) OR ide) (default_mid ide (midrx dv) k)) V)))"

lemma init_table_reg: "init_table nrx ntx ide dv V (Reg r) = V (Reg r)"
  by (simp add: init_table_def set_mbx_def)

lemma zip_upt_Suc: "zip [a..<a + Suc n] [0..<Suc n] = zip [a..<a + n] [0..<n] @ [(a + n, n)]"
  by simp

lemma for_each_append: "for_each (xs @ ys) f = do { for_each xs f; for_each ys f }"
  by (induction xs) simp_all

context flexcan
begin

lemma snd_in32: "snd (run_state (in32 E l) w) = w\<lparr>ctlr := rd_st E l (ctlr w)\<rparr>"
  by (simp add: in32_def rd_st_def split: prod.splits)

lemma init_reg [keeps]:
  "keeps (init_rel val) (in32 E l)" "r \<noteq> 0 \<Longrightarrow> keeps (init_rel val) (out32 E (Reg r) v)"
proof -
  show "keeps (init_rel val) (in32 E l)"
    by (rule keepsI) (auto intro: keeps simp: init_rel_def snd_in32)
  show "r \<noteq> 0 \<Longrightarrow> keeps (init_rel val) (out32 E (Reg r) v)"
    by (rule keepsI) (auto intro: keeps simp: init_rel_def out32_def can_regs write_keeps)
qed

lemma init_mc [keeps]:
  assumes "\<not> bit v 25" and "\<not> bit v 31" and "\<not> bit msk 30" and "\<not> bit msk 28"
  shows "keeps (init_rel val) (set_port32 E RINGO_CANMC msk v)"
proof (rule keepsI)
  show "preord (init_rel val)" by (rule keeps)
  fix w :: "('i, 'd) dev_world"
  let ?x = "(val (ctlr w) RINGO_CANMC AND NOT msk) OR (v AND msk)"
  let ?d = "wr_st E RINGO_CANMC ?x (rd_st E RINGO_CANMC (ctlr w))"
  have r: "run_state (set_port32 E RINGO_CANMC msk v) w = ((), w\<lparr>ctlr := ?d\<rparr>)"
    by (simp add: set_port32_def run_reg run_out32 RINGO_CANMC_def)
  have m: "val ?d (Mbx i x) = val (ctlr w) (Mbx i x)" for i x
    using write_mc_keeps [of "Mbx i x" ?x "rd_st E RINGO_CANMC (ctlr w)"]
    by (simp add: is_store_def RINGO_CANMC_def wr_st_def)
  have "frozen (val ?d RINGO_CANMC)" if "frozen (val (ctlr w) RINGO_CANMC)"
  proof -
    have "val ?d RINGO_CANMC = mc_write ?x" by (simp add: wr_st_def write_mc)
    then show ?thesis using mc_write_frozen [of ?x] that assms by (simp add: frozen_def bit_simps)
  qed
  then show "init_rel val w (snd (run_state (set_port32 E RINGO_CANMC msk v) w))"
    using r m by (simp add: init_rel_def)
qed

lemma init_modes_keeps: "keeps (init_rel val) (init_modes E dv)"
  unfolding init_modes_def
  by (rule keeps | simp add: can_bits can_regs)+

lemma run_rx_mailbox:
  "\<exists>d. run_state (init_rx_mailbox E ide mid (i, k)) w = ((), w\<lparr>ctlr := d\<rparr>) \<and>
     val d = set_mbx i 1 (\<lambda>_. mbx_spec (push_bit 24 (REC_CODE_EMPTY AND 0x0F) OR ide) (default_mid ide mid k)) (val (ctlr w))"
  unfolding init_rx_mailbox_def set_mbx_1
  by (simp add: run_out32, rule exI, rule conjI [OF refl]) (simp add: fun_eq_iff)

lemma run_tx_mailbox:
  "\<exists>d. run_state (init_tx_mailbox E ide mid (i, k)) w = ((), w\<lparr>ctlr := d\<rparr>) \<and>
     val d = set_mbx i 1 (\<lambda>_. mbx_spec (push_bit 24 (TRANS_CODE_NOT_READY AND 0x0F) OR push_bit 16 8 OR ide) (default_mid ide mid k)) (val (ctlr w))"
  unfolding init_tx_mailbox_def set_mbx_1
  by (simp add: run_out32, rule exI, rule conjI [OF refl]) (simp add: fun_eq_iff)

lemma run_rsvd_mailbox:
  "\<exists>d. run_state (init_rsvd_mailbox E i) w = ((), w\<lparr>ctlr := d\<rparr>) \<and>
     val d = set_mbx i 1 (\<lambda>_. mbx_spec (push_bit 24 (TRANS_CODE_NOT_READY AND 0x0F)) 0) (val (ctlr w))"
  unfolding init_rsvd_mailbox_def set_mbx_1
  by (simp add: run_out32, rule exI, rule conjI [OF refl]) (simp add: fun_eq_iff)

lemma run_each_mbx:
  assumes "\<And>i k w. \<exists>d. run_state (f (i, k)) w = ((), w\<lparr>ctlr := d\<rparr>) \<and> val d = set_mbx i 1 (\<lambda>_. g k) (val (ctlr w))"
  shows "\<exists>d. run_state (for_each (zip [a..<a + n] [0..<n]) f) w = ((), w\<lparr>ctlr := d\<rparr>) \<and> val d = set_mbx a n g (val (ctlr w))"
proof (induction n)
  case 0
  have "w = w\<lparr>ctlr := ctlr w\<rparr>" by simp
  moreover have "val (ctlr w) = set_mbx a 0 g (val (ctlr w))" by (auto simp: set_mbx_def fun_eq_iff split: can_loc.split)
  ultimately show ?case by (metis add_0_right for_each.simps(1) run_state_return upt_rec less_irrefl zip_Nil)
next
  case (Suc n)
  then obtain d where d: "run_state (for_each (zip [a..<a + n] [0..<n]) f) w = ((), w\<lparr>ctlr := d\<rparr>)" "val d = set_mbx a n g (val (ctlr w))"
    by blast
  obtain d' where d': "run_state (f (a + n, n)) (w\<lparr>ctlr := d\<rparr>) = ((), w\<lparr>ctlr := d'\<rparr>)" "val d' = set_mbx (a + n) 1 (\<lambda>_. g n) (val d)"
    using assms [of "a + n" n "w\<lparr>ctlr := d\<rparr>"] by auto
  have "val d' = set_mbx a (Suc n) g (val (ctlr w))"
    by (auto simp: d'(2) d(2) set_mbx_def fun_eq_iff less_Suc_eq split: can_loc.split)
  then show ?case unfolding zip_upt_Suc for_each_append using d(1) d'(1) by auto
qed

lemma init_mailboxes_run:
  assumes "rxmbxstart (info w) = 1" and "txmbxstart (info w) = 1 + numrx (info w)" and "numrx (info w) + numtx (info w) \<le> 62"
    and "ide = (if flags dv AND INIT_FLAGS_EXTENDED_MID \<noteq> 0 then RINGO_CANMCF_IDE else 0)"
  shows "\<exists>d. run_state (can_init_mailboxes E dv) w = ((), w\<lparr>ctlr := d\<rparr>) \<and>
    val d = init_table (numrx (info w)) (numtx (info w)) ide dv (val (ctlr w))"
proof -
  let ?f = "info w"
  obtain d1 where 1: "run_state (for_each (zip [1..<1 + numrx ?f] [0..<numrx ?f]) (init_rx_mailbox E ide (midrx dv))) w = ((), w\<lparr>ctlr := d1\<rparr>)"
    "val d1 = set_mbx 1 (numrx ?f) (\<lambda>k. mbx_spec (push_bit 24 (REC_CODE_EMPTY AND 0x0F) OR ide) (default_mid ide (midrx dv) k)) (val (ctlr w))"
    using run_each_mbx [OF run_rx_mailbox] by blast
  obtain d2 where 2: "run_state (for_each (zip [1 + numrx ?f..<1 + numrx ?f + numtx ?f] [0..<numtx ?f]) (init_tx_mailbox E ide (midtx dv))) (w\<lparr>ctlr := d1\<rparr>) =
      ((), w\<lparr>ctlr := d1\<rparr>\<lparr>ctlr := d2\<rparr>)"
    "val d2 = set_mbx (1 + numrx ?f) (numtx ?f)
        (\<lambda>k. mbx_spec (push_bit 24 (TRANS_CODE_NOT_READY AND 0x0F) OR push_bit 16 8 OR ide) (default_mid ide (midtx dv) k)) (val (ctlr (w\<lparr>ctlr := d1\<rparr>)))"
    using run_each_mbx [OF run_tx_mailbox] by blast
  obtain d3 where 3: "run_state (init_rsvd_mailbox E 0) (w\<lparr>ctlr := d2\<rparr>) = ((), w\<lparr>ctlr := d2\<rparr>\<lparr>ctlr := d3\<rparr>)"
    "val d3 = set_mbx 0 1 (\<lambda>_. mbx_spec (push_bit 24 (TRANS_CODE_NOT_READY AND 0x0F)) 0) (val (ctlr (w\<lparr>ctlr := d2\<rparr>)))"
    using run_rsvd_mailbox by blast
  obtain d4 where 4: "run_state (init_rsvd_mailbox E 63) (w\<lparr>ctlr := d3\<rparr>) = ((), w\<lparr>ctlr := d3\<rparr>\<lparr>ctlr := d4\<rparr>)"
    "val d4 = set_mbx 63 1 (\<lambda>_. mbx_spec (push_bit 24 (TRANS_CODE_NOT_READY AND 0x0F)) 0) (val (ctlr (w\<lparr>ctlr := d3\<rparr>)))"
    using run_rsvd_mailbox by blast
  have "run_state (can_init_mailboxes E dv) w = ((), w\<lparr>ctlr := d4\<rparr>)"
    using 1(1) 2(1) 3(1) 4(1) unfolding can_init_mailboxes_def Let_def
    by (simp add: assms(1,2) CAN_LAST_MAILBOX_INDEX_def flip: assms(4))
  then show ?thesis using 1(2) 2(2) 3(2) 4(2) by (auto simp: init_table_def)
qed

lemma run_soft_reset:
  "\<exists>d x. run_state (set_port32 E RINGO_CANMC RINGO_CANMC_SOFTRST RINGO_CANMC_SOFTRST) w = ((), w\<lparr>ctlr := d\<rparr>) \<and>
     val d RINGO_CANMC = x \<and> \<not> bit x 25 \<and> bit x 30 \<and> bit x 28"
proof -
  let ?x = "(val (ctlr w) RINGO_CANMC AND NOT RINGO_CANMC_SOFTRST) OR (RINGO_CANMC_SOFTRST AND RINGO_CANMC_SOFTRST)"
  have "bit ?x 25" by (simp add: mc_single bit_simps)
  note b = mc_write_rst [OF this]
  have "run_state (set_port32 E RINGO_CANMC RINGO_CANMC_SOFTRST RINGO_CANMC_SOFTRST) w =
      ((), w\<lparr>ctlr := wr_st E RINGO_CANMC ?x (rd_st E RINGO_CANMC (ctlr w))\<rparr>)"
    by (simp add: set_port32_def run_reg run_out32 RINGO_CANMC_def)
  moreover have "val (wr_st E RINGO_CANMC ?x (rd_st E RINGO_CANMC (ctlr w))) RINGO_CANMC = mc_write ?x"
    by (simp only: wr_st_def write_mc)
  ultimately show ?thesis using b by blast
qed

lemma run_enable:
  assumes "\<not> bit (val (ctlr w) RINGO_CANMC) 25" and "bit (val (ctlr w) RINGO_CANMC) 30" and "bit (val (ctlr w) RINGO_CANMC) 28"
  shows "\<exists>d x. run_state (set_port32 E RINGO_CANMC RINGO_CANMC_MDIS 0) w = ((), w\<lparr>ctlr := d\<rparr>) \<and>
    val d = (val (ctlr w))(RINGO_CANMC := x) \<and> frozen x \<and> \<not> bit x 20"
proof -
  let ?x = "(val (ctlr w) RINGO_CANMC AND NOT RINGO_CANMC_MDIS) OR (0 AND RINGO_CANMC_MDIS)"
  have b: "\<not> bit ?x 25" "\<not> bit ?x 31" "bit ?x 30" "bit ?x 28" using assms by (simp_all add: mc_single bit_simps)
  show ?thesis
    using run_port_mc [OF assms(1), of 0 RINGO_CANMC_MDIS] mc_write_frozen [OF b] mc_write_bits(4) [OF b(1,2)] by auto
qed

lemma run_each_lam:
  assumes "frozen (val (ctlr w) RINGO_CANMC)"
  shows "\<exists>d. run_state (for_each xs (\<lambda>i. out32 E (Lam (4 * i)) v)) w = ((), w\<lparr>ctlr := d\<rparr>) \<and>
    val d = (\<lambda>l. if l \<in> (\<lambda>i. Lam (4 * i)) ` set xs then v else val (ctlr w) l)"
  using assms
proof (induction xs arbitrary: w)
  case Nil
  show ?case by (rule exI [of _ "ctlr w"]) simp
next
  case (Cons i xs)
  have frz: "val (ctlr w) RINGO_CANMC AND RINGO_CANMC_FRZACK \<noteq> 0"
    using Cons.prems and_push_bit [of _ 24] by (simp add: frozen_def mc_single)
  note v = val_wr_lam [OF frz, of "4 * i" v]
  have "frozen (val (ctlr (w\<lparr>ctlr := wr_st E (Lam (4 * i)) v (ctlr w)\<rparr>)) RINGO_CANMC)"
    using Cons.prems by (simp add: v can_regs)
  from Cons.IH [OF this] obtain d where d:
    "run_state (for_each xs (\<lambda>i. out32 E (Lam (4 * i)) v)) (w\<lparr>ctlr := wr_st E (Lam (4 * i)) v (ctlr w)\<rparr>) =
       ((), w\<lparr>ctlr := wr_st E (Lam (4 * i)) v (ctlr w)\<rparr>\<lparr>ctlr := d\<rparr>)"
    "val d = (\<lambda>l. if l \<in> (\<lambda>i. Lam (4 * i)) ` set xs then v else val (ctlr (w\<lparr>ctlr := wr_st E (Lam (4 * i)) v (ctlr w)\<rparr>)) l)"
    by blast
  then have "run_state (for_each (i # xs) (\<lambda>i. out32 E (Lam (4 * i)) v)) w = ((), w\<lparr>ctlr := d\<rparr>)" by (simp add: run_out32)
  moreover have "val d = (\<lambda>l. if l \<in> (\<lambda>i. Lam (4 * i)) ` set (i # xs) then v else val (ctlr w) l)"
    by (auto simp: d(2) v fun_eq_iff)
  ultimately show ?case by blast
qed

lemma spin_mc:
  "P (val d RINGO_CANMC) \<Longrightarrow> run_state (spin 20001 E RINGO_CANMC P) (w\<lparr>ctlr := d\<rparr>) =
     (Some (val d RINGO_CANMC), w\<lparr>ctlr := rd_st E RINGO_CANMC d\<rparr>)"
  using run_spin [of P "w\<lparr>ctlr := d\<rparr>" RINGO_CANMC 20001] by (simp add: can_regs)

lemma reset_run:
  "\<exists>d. run_state (do {
      set_port32 E RINGO_CANMC RINGO_CANMC_SOFTRST RINGO_CANMC_SOFTRST;
      rst \<leftarrow> spin 20001 E RINGO_CANMC (\<lambda>v. v AND RINGO_CANMC_SOFTRST = 0);
      if rst = None then ret Exit
      else do {
        set_port32 E RINGO_CANMC RINGO_CANMC_MDIS 0;
        frz \<leftarrow> spin 20001 E RINGO_CANMC (\<lambda>v. v AND RINGO_CANMC_FRZACK = RINGO_CANMC_FRZACK);
        if frz = None then ret Exit else m } }) w = run_state m (w\<lparr>ctlr := d\<rparr>) \<and> frozen (val d RINGO_CANMC)"
proof -
  obtain d1 x1 where 1: "run_state (set_port32 E RINGO_CANMC RINGO_CANMC_SOFTRST RINGO_CANMC_SOFTRST) w = ((), w\<lparr>ctlr := d1\<rparr>)"
     "val d1 RINGO_CANMC = x1" "\<not> bit x1 25" "bit x1 30" "bit x1 28"
    using run_soft_reset by blast
  have s1: "val d1 RINGO_CANMC AND RINGO_CANMC_SOFTRST = 0" using 1(2,3) and_push_bit [of x1 25] by (simp add: mc_single)
  obtain d2 x2 where 2: "run_state (set_port32 E RINGO_CANMC RINGO_CANMC_MDIS 0) (w\<lparr>ctlr := rd_st E RINGO_CANMC d1\<rparr>) = ((), w\<lparr>ctlr := d2\<rparr>)"
     "val d2 RINGO_CANMC = x2" "frozen x2"
    using run_enable [of "w\<lparr>ctlr := rd_st E RINGO_CANMC d1\<rparr>"] 1 by auto
  have s2: "val d2 RINGO_CANMC AND RINGO_CANMC_FRZACK = RINGO_CANMC_FRZACK"
    using 2(2,3) and_push_bit_eq [of x2 24] by (simp add: mc_single frozen_def)
  show ?thesis
    using 1(1) 2 s1 s2 by (intro exI [of _ "rd_st E RINGO_CANMC d2"]) (simp add: spin_mc)
qed

lemma finish_run:
  assumes "frozen (val (ctlr w) RINGO_CANMC)" and "rxmbxstart (info w) = 1"
    and v: "v = (if mode (info w) = CANDEV_MODE_RAW_FRAME then 0 else 0xffffffff)"
  shows "\<exists>d x. run_state (do {
      set_port32 E RINGO_CANMC RINGO_CANMC_MDIS 0;
      lpm \<leftarrow> spin 20001 E RINGO_CANMC (\<lambda>v. v AND RINGO_CANMC_LPM_ACK = 0);
      if lpm = None then ret Exit
      else do {
        f \<leftarrow> get_info id;
        let canlam = (if mode f = CANDEV_MODE_RAW_FRAME then 0 else 0xffffffff);
        for_each [rxmbxstart f..<numrx f + 1] (\<lambda>i. out32 E (Lam (4 * i)) canlam);
        leave_freeze E;
        ret (Done ()) } }) w = (Done (), w\<lparr>ctlr := d\<rparr>) \<and>
    val d = (\<lambda>l. if l \<in> (\<lambda>i. Lam (4 * i)) ` {1..numrx (info w)} then v else ((val (ctlr w))(RINGO_CANMC := x)) l) \<and> \<not> bit x 24"
proof -
  obtain d5 x5 where 5: "run_state (set_port32 E RINGO_CANMC RINGO_CANMC_MDIS 0) w = ((), w\<lparr>ctlr := d5\<rparr>)"
     "val d5 = (val (ctlr w))(RINGO_CANMC := x5)" "frozen x5" "\<not> bit x5 20"
    using run_enable [of w] assms(1) by (auto simp: frozen_def)
  have s5: "val d5 RINGO_CANMC AND RINGO_CANMC_LPM_ACK = 0" using 5(2,4) and_push_bit [of x5 20] by (simp add: mc_single)
  let ?w5 = "w\<lparr>ctlr := rd_st E RINGO_CANMC d5\<rparr>" and ?xs = "[1..<numrx (info w) + 1]"
  have "frozen (val (ctlr ?w5) RINGO_CANMC)" using 5(2,3) by simp
  from run_each_lam [OF this] obtain d6 where 6: "run_state (for_each ?xs (\<lambda>i. out32 E (Lam (4 * i)) v)) ?w5 = ((), ?w5\<lparr>ctlr := d6\<rparr>)"
     "val d6 = (\<lambda>l. if l \<in> (\<lambda>i. Lam (4 * i)) ` set ?xs then v else val (ctlr ?w5) l)" by blast
  have "frozen (val d6 RINGO_CANMC)" using 5(2,3) by (auto simp: 6(2) can_regs)
  then obtain d7 x7 where 7: "run_state (leave_freeze E) (w\<lparr>ctlr := d6\<rparr>) = ((), w\<lparr>ctlr := d7\<rparr>)" "val d7 = (val d6)(RINGO_CANMC := x7)" "\<not> bit x7 24"
    using leave_freeze_run [of "w\<lparr>ctlr := d6\<rparr>"] by (auto simp: frozen_def)
  have xs: "set ?xs = {1..numrx (info w)}" by auto
  have "val d7 = (\<lambda>l. if l \<in> (\<lambda>i. Lam (4 * i)) ` {1..numrx (info w)} then v else ((val (ctlr w))(RINGO_CANMC := x7)) l)"
    unfolding 7(2) 6(2) xs by (auto simp: fun_eq_iff 5(2) can_regs)
  then show ?thesis
    using 5(1) s5 6(1) 7(1,3) assms(2) by (intro exI [of _ d7] exI [of _ x7]) (simp add: spin_mc Let_def flip: v del: upt_Suc)
qed

lemma init_hw_run:
  assumes "rxmbxstart (info w) = 1" and "txmbxstart (info w) = 1 + numrx (info w)" and "numrx (info w) + numtx (info w) \<le> 62"
    and ide: "ide = (if flags dv AND INIT_FLAGS_EXTENDED_MID \<noteq> 0 then RINGO_CANMCF_IDE else 0)"
  shows "\<exists>d V. run_state (can_init_hw E dv) w = (Done (), w\<lparr>ctlr := d\<rparr>) \<and>
    (\<forall>j x. val d (Mbx j x) = init_table (numrx (info w)) (numtx (info w)) ide dv V (Mbx j x)) \<and>
    (\<forall>i \<in> {1..numrx (info w)}. val d (Lam (4 * i)) = (if mode (info w) = CANDEV_MODE_RAW_FRAME then 0 else 0xffffffff)) \<and>
    val d RINGO_CANMC AND RINGO_CANMC_FRZACK = 0"
proof -
  let ?fin = "do {
      set_port32 E RINGO_CANMC RINGO_CANMC_MDIS 0;
      lpm \<leftarrow> spin 20001 E RINGO_CANMC (\<lambda>v. v AND RINGO_CANMC_LPM_ACK = 0);
      if lpm = None then ret Exit
      else do {
        f \<leftarrow> get_info id;
        let canlam = (if mode f = CANDEV_MODE_RAW_FRAME then 0 else 0xffffffff);
        for_each [rxmbxstart f..<numrx f + 1] (\<lambda>i. out32 E (Lam (4 * i)) canlam);
        leave_freeze E;
        ret (Done ()) } }"
  obtain d2 where 2: "run_state (can_init_hw E dv) w =
      run_state (do { init_modes E dv; can_init_mailboxes E dv; ?fin }) (w\<lparr>ctlr := d2\<rparr>)" "frozen (val d2 RINGO_CANMC)"
    unfolding can_init_hw_def using reset_run [of "do { init_modes E dv; can_init_mailboxes E dv; ?fin }" w] by blast
  obtain w3 where 3: "run_state (init_modes E dv) (w\<lparr>ctlr := d2\<rparr>) = ((), w3)" by (cases "run_state (init_modes E dv) (w\<lparr>ctlr := d2\<rparr>)") auto
  have r3: "info w3 = info w" "frozen (val (ctlr w3) RINGO_CANMC)"
    using keepsD [OF init_modes_keeps 3] 2(2) by (simp_all add: init_rel_def)
  obtain d4 where 4: "run_state (can_init_mailboxes E dv) w3 = ((), w3\<lparr>ctlr := d4\<rparr>)"
      "val d4 = init_table (numrx (info w)) (numtx (info w)) ide dv (val (ctlr w3))"
    using init_mailboxes_run [of w3 ide dv, unfolded r3(1), OF assms] by blast
  have f4: "frozen (val (ctlr (w3\<lparr>ctlr := d4\<rparr>)) RINGO_CANMC)" using r3(2) by (simp add: 4(2) init_table_reg can_regs)
  have r4: "rxmbxstart (info (w3\<lparr>ctlr := d4\<rparr>)) = 1" using assms(1) r3(1) by simp
  obtain d7 x7 where 7: "run_state ?fin (w3\<lparr>ctlr := d4\<rparr>) = (Done (), w3\<lparr>ctlr := d4\<rparr>\<lparr>ctlr := d7\<rparr>)"
     "val d7 = (\<lambda>l. if l \<in> (\<lambda>i. Lam (4 * i)) ` {1..numrx (info (w3\<lparr>ctlr := d4\<rparr>))}
        then (if mode (info (w3\<lparr>ctlr := d4\<rparr>)) = CANDEV_MODE_RAW_FRAME then 0 else 0xffffffff)
        else ((val (ctlr (w3\<lparr>ctlr := d4\<rparr>)))(RINGO_CANMC := x7)) l)" "\<not> bit x7 24"
    using finish_run [OF f4 r4 refl] by blast
  have "run_state (can_init_hw E dv) w = (Done (), w3\<lparr>ctlr := d7\<rparr>)" using 2(1) 3 4(1) 7(1) by simp
  moreover have "w3\<lparr>ctlr := d7\<rparr> = w\<lparr>ctlr := d7\<rparr>" using r3(1) by (cases w; cases w3) simp
  moreover have "val d7 (Mbx j x) = init_table (numrx (info w)) (numtx (info w)) ide dv (val (ctlr w3)) (Mbx j x)" for j x
    by (auto simp: 7(2) 4(2) can_regs)
  moreover have "\<forall>i \<in> {1..numrx (info w)}. val d7 (Lam (4 * i)) = (if mode (info w) = CANDEV_MODE_RAW_FRAME then 0 else 0xffffffff)"
    using r3(1) by (auto simp: 7(2))
  moreover have "val d7 RINGO_CANMC AND RINGO_CANMC_FRZACK = 0"
    using 7(3) and_push_bit [of x7 24] by (auto simp: 7(2) can_regs mc_single)
  ultimately show ?thesis by (intro exI [of _ d7] exI [of _ "val (ctlr w3)"]) simp
qed

end

end
