(* ===== verification/Can_Claims.thy ===== *)
theory Can_Claims
  imports Can_Init
begin

section \<open>The CAN driver: its correctness\<close>

text \<open>
  What the CAN driver does, over the laws of the controller (\<open>flexcan\<close>) and of the queues of the CAN
  library (\<open>fifo_lib\<close>): reception, transmission as a refinement of a channel, the message filters,
  initialisation and the command line. The witnesses run the driver on \<open>sim_env\<close> and \<open>list_lib\<close>.
\<close>

definition demo_can :: "(can_loc \<Rightarrow> u32) \<Rightarrow> (can_msg list, can_loc \<Rightarrow> u32) can_world" where
  \<comment> \<open>the driver as it is created by default, with a controller in the given state\<close>
  "demo_can d = \<lparr>info = create_info list_lib default_init, ctlr = d\<rparr>"

definition blank_msg :: can_msg where
  "blank_msg = \<lparr>val32_0 = 0, val32_1 = 0, msg_len = 0, msg_mid = 0, msg_timestamp = 0, is_extended_mid = 0, is_remote_frame = 0\<rparr>"

lemma demo_can_simps:
  "mode (info (demo_can d)) = CANDEV_MODE_IO" "rxmbxstart (info (demo_can d)) = 1" "txmbxstart (info (demo_can d)) = 32"
  "numrx (info (demo_can d)) = 31" "numtx (info (demo_can d)) = 31" "iflags (info (demo_can d)) = INFO_FLAGS_ENDIAN_SWAP"
  "ctlr (demo_can d) = d"
  by (simp_all add: demo_can_def create_info_def default_init_def set_bitrate_def Let_def flag_bits)

lemma demo_can_rx:
  "1 \<le> i \<Longrightarrow> i < 32 \<Longrightarrow> devlist (info (demo_can d)) i = Some \<lparr>devtype = CANDEV_TYPE_RX,
     free_queue = replicate 100 blank_msg, msg_queue = [], wait_cnt = 0, dflags = 0, dev_unit = int (i - 1)\<rparr>"
  by (simp add: demo_can_def create_info_def default_init_def set_bitrate_def Let_def new_dev_def list_lib_def blank_msg_def)

lemma demo_can_tx:
  "32 \<le> i \<Longrightarrow> i < 63 \<Longrightarrow> devlist (info (demo_can d)) i = Some \<lparr>devtype = CANDEV_TYPE_TX,
     free_queue = replicate 100 blank_msg, msg_queue = [], wait_cnt = 0, dflags = 0, dev_unit = int i\<rparr>"
  by (simp add: demo_can_def create_info_def default_init_def set_bitrate_def Let_def new_dev_def list_lib_def blank_msg_def)

subsection \<open>Reception and transmission\<close>

text \<open>
  C10: no element of a queue is lost or made up, however interrupts, requests, clients and the
  controller are interleaved: in every state reached, each device has as many elements in its
  two queues together as it had at the start, and no device has come or gone.
\<close>

theorem can_elements_conserved:
  assumes "fifo_lib L vw" and "(can_step E L)\<^sup>*\<^sup>* w w'"
  shows "map_option (\<lambda>c. length (vw (free_queue c)) + length (vw (msg_queue c))) (devlist (info w') i) =
         map_option (\<lambda>c. length (vw (free_queue c)) + length (vw (msg_queue c))) (devlist (info w) i)"
proof -
  have "conserves vw w w'"
    using assms(2) by induction (auto intro: conserves_trans can_step_conserves [OF assms(1)])
  moreover have "elems vw = (\<lambda>c. length (vw (free_queue c)) + length (vw (msg_queue c)))"
    by (simp add: elems_def fun_eq_iff)
  ultimately show ?thesis by (simp add: conserves_def)
qed

theorem can_elements_conserved_witness:
  "\<exists>w'. (can_step sim_env list_lib)\<^sup>*\<^sup>* (demo_can (\<lambda>_. RINGO_CANES_IDLE)) w' \<and>
     map_option (\<lambda>c. busy (tx_abs (\<lambda>q. q) c)) (devlist (info w') 32) = Some True \<and>
     map_option (\<lambda>c. length (free_queue c) + length (msg_queue c)) (devlist (info w') 32) = Some 100"
proof -
  let ?w = "demo_can (\<lambda>_. RINGO_CANES_IDLE)" and ?c = "the (devlist (info (demo_can (\<lambda>_. RINGO_CANES_IDLE))) 32)"
  let ?c1 = "?c\<lparr>free_queue := replicate 99 blank_msg, msg_queue := [blank_msg]\<rparr>"
  let ?w1 = "?w\<lparr>info := (info ?w)\<lparr>devlist := (devlist (info ?w))(32 \<mapsto> ?c1)\<rparr>\<rparr>"
  have c: "devlist (info ?w) 32 = Some ?c" "dflags ?c = 0" "free_queue ?c = blank_msg # replicate 99 blank_msg" "msg_queue ?c = []"
    using demo_can_tx [of 32] by (auto simp: numeral_eq_Suc)
  have "can_step sim_env list_lib ?w ?w1"
    using can_step.client_write [where L = list_lib and E = sim_env and w = ?w and c = ?c and i = 32 and m = blank_msg and m' = blank_msg] c
    by (simp add: list_lib_def)
  moreover obtain w' c' where t: "run_state (can_drvr_transmit 1 sim_env list_lib 32) ?w1 = (Done (), w')"
    "devlist (info w') = (devlist (info ?w1))(32 \<mapsto> c')" "tx_abs (\<lambda>q. q) c' = snd (chan_start (tx_abs (\<lambda>q. q) ?c1))"
    using sim.transmit_refines [OF list_lib_fifo, of 1 ?w1 32 ?c1]
    by (fastforce simp: demo_can_simps blank_msg_def can_bits mcf_bits)
  moreover have "can_step sim_env list_lib ?w1 w'" using t(1) by (rule can_step.transmit)
  ultimately have r: "(can_step sim_env list_lib)\<^sup>*\<^sup>* ?w w'" by auto
  then show ?thesis
    using can_elements_conserved [OF list_lib_fifo r, of 32] c t(2,3)
    by (intro exI [of _ w']) (simp add: tx_abs_def chan_start_def demo_can_tx)
qed

text \<open>
  C12: an interrupt for received messages. The handler returns; the message of the lowest mailbox that
  has its flag set is at the end of that device's queue, as the controller has it, in an element that
  was free (or, when there is none, in that of the oldest message, which is given up); the mailbox is
  empty again and the event of the device is returned when a client waits. No other device and no
  other mailbox is touched, and all flags are cleared.
\<close>

theorem can_intr_receives:
  assumes "flexcan E val" and "fifo_lib L vw" and "2 \<le> n" and "mode (info w) = CANDEV_MODE_IO"
    and "val (ctlr w) RINGO_CANIFLAG1 = fl" and "val (ctlr w) RINGO_CANIFLAG2 = 0"
    and "bit fl i" and "\<forall>k<i. \<not> bit fl k" and "i < rxmbxstart (info w) + numrx (info w)"
    and "devlist (info w) i = Some c" and "vw (free_queue c) \<noteq> [] \<or> vw (msg_queue c) \<noteq> []"
    and "val (ctlr w) (Mbx i canmcf) AND push_bit 24 REC_CODE_BUSY = 0"
  shows "\<exists>w' c'. run_state (can_intr n E L) w = (Done (if wait_cnt c \<noteq> 0 then Some i else None), w') \<and>
    devlist (info w') = (devlist (info w))(i \<mapsto> c') \<and>
    (vw (free_queue c'), vw (msg_queue c')) =
      recv (vw (free_queue c), vw (msg_queue c)) (rx_value (iflags (info w)) i (val (ctlr w))) \<and>
    val (ctlr w') RINGO_CANIFLAG1 = 0 \<and> val (ctlr w') RINGO_CANIFLAG2 = 0 \<and>
    (\<forall>j x. val (ctlr w') (Mbx j x) = rx_empty i (val (ctlr w)) (Mbx j x))"
proof -
  have ne: "rx_abs vw c \<noteq> ([], [])" using assms(11) by (auto simp: rx_abs_def)
  from flexcan.intr_rx_flags [OF assms(1,2,3,4,7,8,9,10,12) ne assms(5,6)]
  show ?thesis by (auto simp: rx_abs_def)
qed

definition rx_demo :: "can_loc \<Rightarrow> u32" where
  "rx_demo = (\<lambda>_. 0)(RINGO_CANIFLAG1 := 0xC, Mbx 2 canmcf := 0x02081234, Mbx 2 canmid := 0x100C0000,
     Mbx 2 canmdl := 0x01020304, Mbx 2 canmdh := 0x05060708)"

theorem can_intr_receives_witness:
  "\<exists>w' c'. run_state (can_intr 2 sim_env list_lib) (demo_can rx_demo) = (Done None, w') \<and>
     devlist (info w') = (devlist (info (demo_can rx_demo)))(2 \<mapsto> c') \<and>
     msg_queue c' = [\<lparr>val32_0 = 0x04030201, val32_1 = 0x08070605, msg_len = 8, msg_mid = 0x100C0000,
       msg_timestamp = 0x1234, is_extended_mid = 0, is_remote_frame = 0\<rparr>] \<and>
     ctlr w' RINGO_CANIFLAG1 = 0 \<and> ctlr w' (Mbx 2 canmcf) = 0x04081234"
proof -
  let ?w = "demo_can rx_demo"
  obtain c where c: "devlist (info ?w) 2 = Some c" "free_queue c = blank_msg # replicate 99 blank_msg" "msg_queue c = []" "wait_cnt c = 0"
    using demo_can_rx [of 2 rx_demo] by (auto simp: numeral_eq_Suc)
  have fl: "bit (0xC :: u32) 2" "\<forall>k<2. \<not> bit (0xC :: u32) k" by (auto simp: less_2_cases_iff)
  have "\<exists>w' c'. run_state (can_intr 2 sim_env list_lib) ?w = (Done (if wait_cnt c \<noteq> 0 then Some 2 else None), w') \<and>
    devlist (info w') = (devlist (info ?w))(2 \<mapsto> c') \<and>
    (free_queue c', msg_queue c') = recv (free_queue c, msg_queue c) (rx_value (iflags (info ?w)) 2 (ctlr ?w)) \<and>
    ctlr w' RINGO_CANIFLAG1 = 0 \<and> ctlr w' RINGO_CANIFLAG2 = 0 \<and> (\<forall>j x. ctlr w' (Mbx j x) = rx_empty 2 (ctlr ?w) (Mbx j x))"
    by (rule can_intr_receives [OF sim.flexcan_axioms list_lib_fifo _ _ _ _ fl])
      (use c in \<open>simp_all add: demo_can_simps rx_demo_def can_regs mcf_bits\<close>)
  then show ?thesis
    using c by (auto simp: demo_can_simps rx_value_def rx_empty_def rx_demo_def mcf_bits flag_bits blank_msg_def swap32_def
        ENDIAN_SWAP32_def)
qed

text \<open>
  C11: in IO mode the transmit side of a device refines a channel that sends its messages in order,
  one at a time. \<open>can_drvr_transmit\<close> starts the channel: on an idle bus it loads the oldest message into the
  mailbox and marks the device busy, or does nothing when it is busy or has nothing to send. The interrupt
  that finds the mailbox to be the lowest that has completed loads its next message or marks the device
  idle. (A completion that the flags report together with that of a lower mailbox is not served; then the channel
  is stuck, as \<open>can_tx_completion_lost\<close> shows.) \<open>loaded\<close> describes the mailboxes after a message has been loaded,
  under its own identifier or, when it has none, as those that \<open>write\<close> makes, under that of the mailbox; nothing else in
  them changes.
\<close>

theorem can_tx_refines_channel:
  assumes "flexcan E val" and "fifo_lib L vw" and "2 \<le> n" and "mode (info w) = CANDEV_MODE_IO"
    and "j < numtx (info w)" and "i = txmbxstart (info w) + j" and "i \<noteq> 0"
    and "devlist (info w) i = Some c" and "val (ctlr w) RINGO_CANESR AND RINGO_CANES_IDLE \<noteq> 0"
  shows "(\<exists>w' c'. run_state (can_drvr_transmit n E L i) w = (Done (), w') \<and>
      devlist (info w') = (devlist (info w))(i \<mapsto> c') \<and>
      tx_abs vw c' = snd (chan_start (tx_abs vw c)) \<and>
      val (ctlr w') = loaded (iflags (info w)) i (fst (chan_start (tx_abs vw c))) (val (ctlr w))) \<and>
    (busy (tx_abs vw c) \<and> val (ctlr w) RINGO_CANIFLAG1 = 0 \<and>
      bit (val (ctlr w) RINGO_CANIFLAG2) j \<and> (\<forall>k<j. \<not> bit (val (ctlr w) RINGO_CANIFLAG2) k) \<longrightarrow>
      (\<exists>w' c'. run_state (can_intr n E L) w = (Done (if wait_cnt c \<noteq> 0 then Some i else None), w') \<and>
        devlist (info w') = (devlist (info w))(i \<mapsto> c') \<and>
        tx_abs vw c' = snd (chan_done (tx_abs vw c)) \<and>
        (\<forall>i' x. val (ctlr w') (Mbx i' x) =
           loaded (iflags (info w)) i (fst (chan_done (tx_abs vw c))) (val (ctlr w)) (Mbx i' x))))"
proof (intro conjI impI)
  have "0 < n" using assms(3) by simp
  from flexcan.transmit_refines [OF assms(1,2) this assms(9,7,4,8)]
  show "\<exists>w' c'. run_state (can_drvr_transmit n E L i) w = (Done (), w') \<and>
      devlist (info w') = (devlist (info w))(i \<mapsto> c') \<and>
      tx_abs vw c' = snd (chan_start (tx_abs vw c)) \<and>
      val (ctlr w') = loaded (iflags (info w)) i (fst (chan_start (tx_abs vw c))) (val (ctlr w))"
    by auto
next
  assume a: "busy (tx_abs vw c) \<and> val (ctlr w) RINGO_CANIFLAG1 = 0 \<and>
      bit (val (ctlr w) RINGO_CANIFLAG2) j \<and> (\<forall>k<j. \<not> bit (val (ctlr w) RINGO_CANIFLAG2) k)"
  then have b: "bit (val (ctlr w) RINGO_CANIFLAG2) j" "\<forall>k<j. \<not> bit (val (ctlr w) RINGO_CANIFLAG2) k"
      "dflags c AND CANDEV_RINGO_TX_ENABLED \<noteq> 0" by (auto simp: tx_abs_def)
  from flexcan.intr_tx_flags [OF assms(1,2,3,9,4) b(1,2) assms(5,6,7,8) b(3)] a
  show "\<exists>w' c'. run_state (can_intr n E L) w = (Done (if wait_cnt c \<noteq> 0 then Some i else None), w') \<and>
        devlist (info w') = (devlist (info w))(i \<mapsto> c') \<and>
        tx_abs vw c' = snd (chan_done (tx_abs vw c)) \<and>
        (\<forall>i' x. val (ctlr w') (Mbx i' x) =
           loaded (iflags (info w)) i (fst (chan_done (tx_abs vw c))) (val (ctlr w)) (Mbx i' x))"
    by auto
qed

definition tx_msg :: "u8 \<Rightarrow> can_msg" where
  "tx_msg b = blank_msg\<lparr>msg_len := 1, val32_0 := ucast b, msg_mid := 0x100C0000\<rparr>"

definition tx_demo :: "u32 \<Rightarrow> (can_msg list, can_loc \<Rightarrow> u32) can_world" where
  \<comment> \<open>two devices are sending and have another message each; the flags \<open>fl\<close> are set\<close>
  "tx_demo fl =
     (let c = \<lparr>devtype = CANDEV_TYPE_TX, free_queue = [], msg_queue = [tx_msg 7], wait_cnt = 0, dflags = 1, dev_unit = 32\<rparr>;
          w = demo_can ((\<lambda>_. 0)(RINGO_CANESR := RINGO_CANES_IDLE, RINGO_CANIFLAG2 := fl))
      in w\<lparr>info := (info w)\<lparr>devlist := (devlist (info w))(32 \<mapsto> c, 33 \<mapsto> c\<lparr>dev_unit := 33\<rparr>)\<rparr>\<rparr>)"

lemma tx_demo_simps:
  "mode (info (tx_demo fl)) = CANDEV_MODE_IO" "txmbxstart (info (tx_demo fl)) = 32" "numtx (info (tx_demo fl)) = 31"
  "iflags (info (tx_demo fl)) = INFO_FLAGS_ENDIAN_SWAP"
  "ctlr (tx_demo fl) = (\<lambda>_. 0)(RINGO_CANESR := RINGO_CANES_IDLE, RINGO_CANIFLAG2 := fl)"
  "devlist (info (tx_demo fl)) 32 = Some \<lparr>devtype = CANDEV_TYPE_TX, free_queue = [], msg_queue = [tx_msg 7], wait_cnt = 0, dflags = 1, dev_unit = 32\<rparr>"
  "devlist (info (tx_demo fl)) 33 = Some \<lparr>devtype = CANDEV_TYPE_TX, free_queue = [], msg_queue = [tx_msg 7], wait_cnt = 0, dflags = 1, dev_unit = 33\<rparr>"
  by (simp_all add: tx_demo_def Let_def demo_can_simps)

theorem can_tx_refines_channel_witness:
  "\<exists>w' c'. run_state (can_intr 2 sim_env list_lib) (tx_demo 1) = (Done None, w') \<and>
     devlist (info w') = (devlist (info (tx_demo 1)))(32 \<mapsto> c') \<and> msg_queue c' = [] \<and>
     ctlr w' (Mbx 32 canmcf) = 0x0C010000 \<and> ctlr w' (Mbx 32 canmdl) = 0x07000000 \<and> ctlr w' (Mbx 32 canmid) = 0x100C0000"
proof -
  let ?w = "tx_demo 1" and ?c = "the (devlist (info (tx_demo 1)) 32)"
  have "(\<exists>w' c'. run_state (can_drvr_transmit 2 sim_env list_lib 32) ?w = (Done (), w') \<and>
      devlist (info w') = (devlist (info ?w))(32 \<mapsto> c') \<and>
      tx_abs (\<lambda>q. q) c' = snd (chan_start (tx_abs (\<lambda>q. q) ?c)) \<and>
      ctlr w' = loaded (iflags (info ?w)) 32 (fst (chan_start (tx_abs (\<lambda>q. q) ?c))) (ctlr ?w)) \<and>
    (busy (tx_abs (\<lambda>q. q) ?c) \<and> ctlr ?w RINGO_CANIFLAG1 = 0 \<and>
      bit (ctlr ?w RINGO_CANIFLAG2) 0 \<and> (\<forall>k<0. \<not> bit (ctlr ?w RINGO_CANIFLAG2) k) \<longrightarrow>
      (\<exists>w' c'. run_state (can_intr 2 sim_env list_lib) ?w = (Done (if wait_cnt ?c \<noteq> 0 then Some 32 else None), w') \<and>
        devlist (info w') = (devlist (info ?w))(32 \<mapsto> c') \<and>
        tx_abs (\<lambda>q. q) c' = snd (chan_done (tx_abs (\<lambda>q. q) ?c)) \<and>
        (\<forall>i' x. ctlr w' (Mbx i' x) = loaded (iflags (info ?w)) 32 (fst (chan_done (tx_abs (\<lambda>q. q) ?c))) (ctlr ?w) (Mbx i' x))))"
    by (rule can_tx_refines_channel [OF sim.flexcan_axioms list_lib_fifo])
      (simp_all add: tx_demo_simps tx_msg_def blank_msg_def mcf_bits can_bits can_regs)
  then show ?thesis
    by (auto simp: tx_demo_simps tx_abs_def chan_done_def loaded_def tx_load_def tx_mcf_def tx_msg_def blank_msg_def
        mcf_bits flag_bits swap32_def ENDIAN_SWAP32_def can_regs)
qed

text \<open>
  C29: completions that come together are lost. When the flags of two transmit mailboxes are set, the
  handler clears both and serves the lower one only. The device of the other stays marked busy though
  nothing is being sent, and from then on asking it to transmit does nothing, whatever is queued.
\<close>

theorem can_tx_completion_lost:
  assumes "flexcan E val" and "fifo_lib L vw" and "2 \<le> n" and "mode (info w) = CANDEV_MODE_IO"
    and "j < j'" and "j' < numtx (info w)" and "j' < 32" and "0 < txmbxstart (info w)"
    and "devlist (info w) (txmbxstart (info w) + j) = Some c" and "busy (tx_abs vw c)"
    and "devlist (info w) (txmbxstart (info w) + j') = Some c'" and "busy (tx_abs vw c')"
    and "val (ctlr w) RINGO_CANESR AND RINGO_CANES_IDLE \<noteq> 0"
    and "val (ctlr w) RINGO_CANIFLAG1 = 0" and "val (ctlr w) RINGO_CANIFLAG2 = push_bit j 1 OR push_bit j' 1"
  shows "\<exists>r w'. run_state (can_intr n E L) w = (Done r, w') \<and>
    val (ctlr w') RINGO_CANIFLAG1 = 0 \<and> val (ctlr w') RINGO_CANIFLAG2 = 0 \<and>
    devlist (info w') (txmbxstart (info w) + j') = Some c' \<and>
    (\<forall>n. run_state (can_drvr_transmit n E L (txmbxstart (info w) + j')) w' = (Done (), w'))"
proof -
  let ?fl = "push_bit j 1 OR push_bit j' 1 :: u32" and ?i = "txmbxstart (info w) + j"
  have b: "bit ?fl j" "\<forall>k<j. \<not> bit ?fl k" "dflags c AND CANDEV_RINGO_TX_ENABLED \<noteq> 0" "dflags c' AND CANDEV_RINGO_TX_ENABLED \<noteq> 0"
    using assms(5,7,10,12) by (auto simp: bit_simps tx_abs_def)
  have "j < numtx (info w)" "?i \<noteq> 0" using assms(5,6,8) by auto
  from flexcan.intr_tx_flags [OF assms(1,2,3,13,4) b(1,2) this(1) refl this(2) assms(9) b(3) assms(14,15)]
  obtain st es ea d c1 where 1: "run_state (can_intr n E L) w = (Done (if wait_cnt c \<noteq> 0 then Some ?i else None),
      \<lparr>info = (info w)\<lparr>canestat := es, erroractive := ea, stats := st, devlist := (devlist (info w))(?i \<mapsto> c1)\<rparr>, ctlr = d\<rparr>)"
    "val d RINGO_CANIFLAG1 = 0" "val d RINGO_CANIFLAG2 = 0" by blast
  let ?w = "\<lparr>info = (info w)\<lparr>canestat := es, erroractive := ea, stats := st, devlist := (devlist (info w))(?i \<mapsto> c1)\<rparr>, ctlr = d\<rparr>"
  have "devlist (info ?w) (txmbxstart (info w) + j') = Some c'" using assms(5,11) by simp
  moreover from this have "run_state (can_drvr_transmit n' E L (txmbxstart (info w) + j')) ?w = (Done (), ?w)" for n'
    using b(4) by (simp add: can_drvr_transmit_def)
  ultimately show ?thesis using 1 by (intro exI [of _ "if wait_cnt c \<noteq> 0 then Some ?i else None"] exI [of _ ?w]) simp
qed

theorem can_tx_completion_lost_witness:
  "\<exists>r w'. run_state (can_intr 2 sim_env list_lib) (tx_demo 3) = (Done r, w') \<and> ctlr w' RINGO_CANIFLAG2 = 0 \<and>
     map_option msg_queue (devlist (info w') 33) = Some [tx_msg 7] \<and>
     run_state (can_drvr_transmit 9 sim_env list_lib 33) w' = (Done (), w')"
proof -
  let ?w = "tx_demo 3" and ?c = "the (devlist (info (tx_demo 3)) 32)" and ?c' = "the (devlist (info (tx_demo 3)) 33)"
  have "\<exists>r w'. run_state (can_intr 2 sim_env list_lib) ?w = (Done r, w') \<and>
    ctlr w' RINGO_CANIFLAG1 = 0 \<and> ctlr w' RINGO_CANIFLAG2 = 0 \<and>
    devlist (info w') (txmbxstart (info ?w) + 1) = Some ?c' \<and>
    (\<forall>n. run_state (can_drvr_transmit n sim_env list_lib (txmbxstart (info ?w) + 1)) w' = (Done (), w'))"
    by (rule can_tx_completion_lost [OF sim.flexcan_axioms list_lib_fifo, where j = 0 and c = ?c])
      (simp_all add: tx_demo_simps tx_msg_def blank_msg_def mcf_bits can_bits can_regs tx_abs_def)
  then show ?thesis by (auto simp: tx_demo_simps)
qed

text \<open>
  C27: what is loaded into a mailbox to be sent is what the receiving side reads from a mailbox: the
  eight bytes, the length and the identifier of the message come back.
\<close>

theorem can_tx_rx_round_trip:
  assumes "flexcan E val" and "0 < n" and "mode (info w) = CANDEV_MODE_IO" and "i \<noteq> 0"
    and "unat (msg_len m) < 16" and "msg_mid m \<noteq> CAN_MSG_MID_UNKNOWN"
    and "val (ctlr w) RINGO_CANESR AND RINGO_CANES_IDLE \<noteq> 0"
  shows "\<exists>w1 w2 r. run_state (can_ringo_tx n E i m) w = (True, w1) \<and>
    val (ctlr w1) (Mbx i canmcf) AND MSG_BUF_CODE_MASK = push_bit 24 TRANS_CODE_TRANSMIT_ONCE \<and>
    run_state (rx_message n E i m') w1 = (Some r, w2) \<and>
    val32_0 r = val32_0 m \<and> val32_1 r = val32_1 m \<and> msg_len r = msg_len m \<and> msg_mid r = msg_mid m"
proof -
  obtain d where d: "run_state (can_ringo_tx n E i m) w = (True, w\<lparr>ctlr := d\<rparr>)" "val d = tx_load (iflags (info w)) i m (val (ctlr w))"
    using flexcan.tx_loads [OF assms(1,2,7,4,3)] by blast
  have mcf: "val d (Mbx i canmcf) = tx_mcf (val (ctlr w) (Mbx i canmcf)) (msg_len m)" using assms(4) by (simp add: d(2) tx_load_def)
  then have "val (ctlr (w\<lparr>ctlr := d\<rparr>)) (Mbx i canmcf) AND push_bit 24 REC_CODE_BUSY = 0"
    using tx_mcf_not_busy [OF assms(5)] by simp
  from flexcan.rx_message_value [OF assms(1,2) this, of m'] obtain w2
    where "run_state (rx_message n E i m') (w\<lparr>ctlr := d\<rparr>) = (Some (rx_value (iflags (info w)) i (val d) m'), w2)" by auto
  then show ?thesis
    using d(1) mcf assms(4,6) tx_mcf_dlc [OF assms(5)] tx_mcf_code [OF assms(5)]
    by (auto simp: rx_value_def d(2) tx_load_def swap32_inv)
qed

theorem can_tx_rx_round_trip_witness:
  "\<exists>w1 w2 r. run_state (can_ringo_tx 1 sim_env 32 (tx_msg 7)) (tx_demo 0) = (True, w1) \<and>
     run_state (rx_message 1 sim_env 32 blank_msg) w1 = (Some r, w2) \<and> val32_0 r = 7 \<and> msg_len r = 1"
  using can_tx_rx_round_trip [OF sim.flexcan_axioms, of 1 "tx_demo 0" 32 "tx_msg 7" blank_msg]
  by (auto simp: tx_demo_simps tx_msg_def blank_msg_def mcf_bits can_bits can_regs)

text \<open>
  The filter of a receive mailbox. What is set is read back, by way of freeze mode, which the
  controller has left again afterwards; the mailbox's interrupt is enabled. For a transmit mailbox or
  in raw mode the request is refused and nothing changes.
\<close>

theorem can_mfilter_round_trip:
  assumes "flexcan E val" and "\<not> bit (val (ctlr w) RINGO_CANMC) 25" and "\<not> bit (val (ctlr w) RINGO_CANMC) 31"
  shows "(i < txmbxstart (info w) \<and> mode (info w) = CANDEV_MODE_IO \<longrightarrow>
      (\<exists>w1 w2. run_state (can_drvr_devctl E i CAN_DEVCTL_SET_MFILTER dat) w = ((Done EOK, dat), w1) \<and>
        val (ctlr w1) RINGO_CANMC AND RINGO_CANMC_FRZACK = 0 \<and>
        val (ctlr w1) RINGO_CANIMASK1 = val (ctlr w) RINGO_CANIMASK1 OR MAILBOX i \<and>
        run_state (can_drvr_devctl E i CAN_DEVCTL_GET_MFILTER dat') w1 = ((Done EOK, dat'\<lparr>d_word := d_word dat\<rparr>), w2))) \<and>
    (i \<ge> txmbxstart (info w) \<or> mode (info w) = CANDEV_MODE_RAW_FRAME \<longrightarrow>
      run_state (can_drvr_devctl E i CAN_DEVCTL_SET_MFILTER dat) w = ((Done EINVAL, dat), w))"
proof (intro conjI impI)
  assume "i < txmbxstart (info w) \<and> mode (info w) = CANDEV_MODE_IO"
  then have a: "i < txmbxstart (info w)" "mode (info w) = CANDEV_MODE_IO" by auto
  obtain d x y where 1: "run_state (devctl_set_mfilter E i (d_word dat)) w = (Done EOK, w\<lparr>ctlr := d\<rparr>)"
    "val d = (val (ctlr w))(Lam (i * 4) := d_word dat, RINGO_CANMC := x, RINGO_CANIMASK1 := y)"
    "y = val (ctlr w) RINGO_CANIMASK1 OR MAILBOX i" "\<not> bit x 24" "\<not> bit x 25" "\<not> bit x 31"
    using flexcan.set_mfilter_run [OF assms a] by blast
  have mc: "val d RINGO_CANMC = x" "val d (Lam (i * 4)) = d_word dat" "val d RINGO_CANIMASK1 = y" by (simp_all add: 1(2) can_regs)
  obtain w2 where 2: "run_state (devctl_get_mfilter E i dat') (w\<lparr>ctlr := d\<rparr>) = ((Done EOK, dat'\<lparr>d_word := d_word dat\<rparr>), w2)"
    using flexcan.get_mfilter_run [OF assms(1), of "w\<lparr>ctlr := d\<rparr>" i dat'] 1(5,6) a(1) mc by auto
  have "x AND RINGO_CANMC_FRZACK = 0" using 1(4) and_push_bit [of x 24] by (simp add: mc_single)
  then show "\<exists>w1 w2. run_state (can_drvr_devctl E i CAN_DEVCTL_SET_MFILTER dat) w = ((Done EOK, dat), w1) \<and>
        val (ctlr w1) RINGO_CANMC AND RINGO_CANMC_FRZACK = 0 \<and>
        val (ctlr w1) RINGO_CANIMASK1 = val (ctlr w) RINGO_CANIMASK1 OR MAILBOX i \<and>
        run_state (can_drvr_devctl E i CAN_DEVCTL_GET_MFILTER dat') w1 = ((Done EOK, dat'\<lparr>d_word := d_word dat\<rparr>), w2)"
    using 1(1,3) 2 mc by (intro exI [of _ "w\<lparr>ctlr := d\<rparr>"] exI [of _ w2]) (simp add: can_drvr_devctl_def)
next
  assume "i \<ge> txmbxstart (info w) \<or> mode (info w) = CANDEV_MODE_RAW_FRAME"
  then show "run_state (can_drvr_devctl E i CAN_DEVCTL_SET_MFILTER dat) w = ((Done EINVAL, dat), w)"
    by (simp add: can_drvr_devctl_def devctl_set_mfilter_def)
qed

definition demo_dat :: "u32 \<Rightarrow> dcmd_data" where
  "demo_dat v = \<lparr>d_word = v, d_error = (0, 0, 0, 0), d_stats = stats (info (demo_can (\<lambda>_. 0))),
     d_info = devinfo_of (info (demo_can (\<lambda>_. 0)))\<rparr>"

theorem can_mfilter_round_trip_witness:
  "\<exists>w1 w2. run_state (can_drvr_devctl sim_env 3 CAN_DEVCTL_SET_MFILTER (demo_dat 0x1FFC0000)) (demo_can (\<lambda>_. 0)) =
       ((Done EOK, demo_dat 0x1FFC0000), w1) \<and>
     run_state (can_drvr_devctl sim_env 3 CAN_DEVCTL_GET_MFILTER (demo_dat 0)) w1 = ((Done EOK, demo_dat 0x1FFC0000), w2)"
proof -
  have "(demo_dat 0)\<lparr>d_word := d_word (demo_dat 0x1FFC0000)\<rparr> = demo_dat 0x1FFC0000" by (simp add: demo_dat_def)
  then show ?thesis
    using can_mfilter_round_trip [OF sim.flexcan_axioms, of "demo_can (\<lambda>_. 0)" 3 "demo_dat 0x1FFC0000" "demo_dat 0"]
    by (auto simp: demo_can_simps)
qed

subsection \<open>Initialisation and bit rates\<close>

text \<open>
  C13: \<open>can_init_hw\<close> returns, and the mailboxes are as the header describes them: mailbox 0 and
  mailbox 63 are out of service, the receive mailboxes behind mailbox 0 are empty and have ascending
  identifiers, the transmit mailboxes behind them are not ready to send and have eight bytes; every
  receive mailbox has its mask set (all bits compared, or none in raw mode) and the controller has
  left freeze mode.
\<close>

theorem can_init_hw_correct:
  assumes "flexcan E val" and "rxmbxstart (info w) = 1" and "txmbxstart (info w) = 1 + numrx (info w)"
    and "numrx (info w) + numtx (info w) \<le> 62"
    and "ide = (if flags dv AND INIT_FLAGS_EXTENDED_MID \<noteq> 0 then RINGO_CANMCF_IDE else 0)"
  shows "\<exists>w'. run_state (can_init_hw E dv) w = (Done (), w') \<and> info w' = info w \<and>
    (\<forall>x. val (ctlr w') (Mbx 0 x) = mbx_spec 0x08000000 0 x \<and> val (ctlr w') (Mbx 63 x) = mbx_spec 0x08000000 0 x) \<and>
    (\<forall>k < numrx (info w). (\<forall>x. val (ctlr w') (Mbx (1 + k) x) = mbx_spec (0x04000000 OR ide) (default_mid ide (midrx dv) k) x) \<and>
       val (ctlr w') (Lam (4 * (1 + k))) = (if mode (info w) = CANDEV_MODE_RAW_FRAME then 0 else 0xffffffff)) \<and>
    (\<forall>k < numtx (info w). \<forall>x. val (ctlr w') (Mbx (txmbxstart (info w) + k) x) =
       mbx_spec (0x08080000 OR ide) (default_mid ide (midtx dv) k) x) \<and>
    val (ctlr w') RINGO_CANMC AND RINGO_CANMC_FRZACK = 0"
proof -
  obtain d V where d: "run_state (can_init_hw E dv) w = (Done (), w\<lparr>ctlr := d\<rparr>)"
    "\<forall>j x. val d (Mbx j x) = init_table (numrx (info w)) (numtx (info w)) ide dv V (Mbx j x)"
    "\<forall>i \<in> {1..numrx (info w)}. val d (Lam (4 * i)) = (if mode (info w) = CANDEV_MODE_RAW_FRAME then 0 else 0xffffffff)"
    "val d RINGO_CANMC AND RINGO_CANMC_FRZACK = 0"
    using flexcan.init_hw_run [OF assms] by blast
  have lit: "(0x08000000 :: u32) OR (0x80000 OR ide) = 0x08080000 OR ide" by (simp flip: or.assoc)
  have "val d (Mbx 0 x) = mbx_spec 0x08000000 0 x" "val d (Mbx 63 x) = mbx_spec 0x08000000 0 x" for x
    using d(2) by (simp_all add: init_table_def set_mbx_def mcf_bits)
  moreover have "val d (Mbx (1 + k) x) = mbx_spec (0x04000000 OR ide) (default_mid ide (midrx dv) k) x" if "k < numrx (info w)" for k x
    using d(2) that assms(4) by (simp add: init_table_def set_mbx_def mcf_bits)
  moreover have "val d (Mbx (txmbxstart (info w) + k) x) = mbx_spec (0x08080000 OR ide) (default_mid ide (midtx dv) k) x" if "k < numtx (info w)" for k x
    using d(2) that assms(3,4) by (simp add: init_table_def set_mbx_def mcf_bits lit)
  moreover have "val d (Lam (4 * (1 + k))) = (if mode (info w) = CANDEV_MODE_RAW_FRAME then 0 else 0xffffffff)" if "k < numrx (info w)" for k
    by (rule bspec [OF d(3)]) (use that in simp)
  ultimately show ?thesis using d(1,4) by (intro exI [of _ "w\<lparr>ctlr := d\<rparr>"]) simp
qed

theorem can_init_hw_correct_witness:
  "\<exists>w'. run_state (can_init_hw sim_env default_init) (demo_can (\<lambda>_. 0)) = (Done (), w') \<and>
     ctlr w' (Mbx 1 canmid) = 0x100C0000 \<and> ctlr w' (Mbx 2 canmid) = 0x101C0000 \<and> ctlr w' (Mbx 1 canmcf) = 0x04000000 \<and>
     ctlr w' (Mbx 32 canmcf) = 0x08080000 \<and> ctlr w' (Lam 4) = 0xffffffff"
proof -
  have ide: "0 = (if flags default_init AND INIT_FLAGS_EXTENDED_MID \<noteq> 0 then RINGO_CANMCF_IDE else 0)"
    by (simp add: default_init_def set_bitrate_def Let_def flag_bits)
  have m: "midrx default_init = 0x100C0000" "midtx default_init = 0x100C0000" by (simp_all add: default_init_def set_bitrate_def Let_def)
  have k: "(0::nat) < 31" "(1::nat) < 31" by simp_all
  note th = can_init_hw_correct [OF sim.flexcan_axioms _ _ _ ide, of "demo_can (\<lambda>_. 0)", unfolded demo_can_simps, simplified]
  then obtain w' where w': "run_state (can_init_hw sim_env default_init) (demo_can (\<lambda>_. 0)) = (Done (), w')"
    "\<forall>k<31. (\<forall>x. ctlr w' (Mbx (Suc k) x) = mbx_spec 0x04000000 (default_mid 0 (midrx default_init) k) x) \<and> ctlr w' (Lam (4 * Suc k)) = 0xffffffff"
    "\<forall>k<31. \<forall>x. ctlr w' (Mbx (32 + k) x) = mbx_spec 0x08080000 (default_mid 0 (midtx default_init) k) x"
    by auto
  show ?thesis
    using w' k by (intro exI [of _ w']) (auto simp: m default_mid_def mcf_bits numeral_2_eq_2 dest: spec [of _ 0] spec [of _ 1])
qed

definition valid_init :: "candev_ringo_init \<Rightarrow> bool" where
  \<comment> \<open>what every device has; the propagation segment, which \<open>-B\<close> does not check, is treated beside it\<close>
  "valid_init d \<longleftrightarrow> br_rjw d \<le> 3 \<and> br_pseg1 d \<le> 7 \<and> br_pseg2 d \<le> 7 \<and> br_pseg2 d \<noteq> 0 \<and>
     (dev_mode d = CANDEV_MODE_IO \<and> init_numrx d = 31 \<and> init_numtx d = 31 \<or>
      dev_mode d = CANDEV_MODE_RAW_FRAME \<and> init_numrx d = 1 \<and> init_numtx d = 1)"

definition mid_mask :: "candev_ringo_init \<Rightarrow> u32" where
  "mid_mask d = (if flags d AND INIT_FLAGS_EXTENDED_MID \<noteq> 0 then RINGO_CANMID_MASK_EXT else RINGO_CANMID_MASK_STD)"

definition masked :: "candev_ringo_init \<Rightarrow> bool" where
  "masked d \<longleftrightarrow> midrx d AND mid_mask d = midrx d \<and> midtx d AND mid_mask d = midtx d"

lemma mask_masked: "masked (mask_mids d)"
  by (simp add: masked_def mid_mask_def mask_mids_def Let_def and.assoc)

lemma valid_default: "valid_init default_init"
  by (simp add: valid_init_def default_init_def set_bitrate_def Let_def)

lemma valid_set_bitrate: "valid_init d \<Longrightarrow> valid_init (set_bitrate br d)"
  by (cases br) (auto simp: valid_init_def set_bitrate_def Let_def)

lemma manual_bitrate_checks:
  assumes "manual_bitrate strtoul s d = Some d'"
  shows "\<not> (br_rjw d' > 3 \<or> br_pseg1 d' > 7 \<or> br_pseg2 d' > 7 \<or> br_pseg2 d' = 0) \<and>
    dev_mode d' = dev_mode d \<and> init_numrx d' = init_numrx d \<and> init_numtx d' = init_numtx d"
  using assms unfolding manual_bitrate_def Let_def
  by (auto split: prod.splits option.splits if_splits)

lemma valid_manual: "valid_init d \<Longrightarrow> manual_bitrate strtoul s d = Some d' \<Longrightarrow> valid_init d'"
  using manual_bitrate_checks [of strtoul s d d'] by (auto simp: valid_init_def not_less)

lemma valid_option: "valid_init d \<Longrightarrow> can_option strtoul c s d = Some d' \<Longrightarrow> valid_init d'"
  unfolding can_option_def Let_def
  by (auto split: if_split_asm prod.splits option.splits simp: valid_set_bitrate valid_manual) (auto simp: valid_init_def)

lemma valid_mask: "valid_init d \<Longrightarrow> valid_init (mask_mids d)"
  by (auto simp: valid_init_def mask_mids_def Let_def)

lemma valid_controller:
  "valid_init d \<Longrightarrow> valid_init (set_controller a b sec d)" "masked d \<Longrightarrow> masked (set_controller a b sec d)"
  by (cases a; cases b; simp add: set_controller_def Let_def valid_init_def; fail)
    (cases a; cases b; cases sec; simp add: set_controller_def Let_def masked_def mid_mask_def)

lemma valid_irq: "valid_init (d\<lparr>irqsys := x\<rparr>) = valid_init d" "masked (d\<lparr>irqsys := x\<rparr>) = masked d"
  "valid_init (d\<lparr>can_unit := y\<rparr>) = valid_init d" "masked (d\<lparr>can_unit := y\<rparr>) = masked d"
  by (simp_all add: valid_init_def masked_def mid_mask_def)

lemma valid_device_arg:
  "valid_init d \<Longrightarrow> masked d \<Longrightarrow> can_device_arg strtoul a b s d = Some d' \<Longrightarrow> valid_init d' \<and> masked d'"
  unfolding can_device_arg_def Let_def
  by (simp add: valid_controller split: if_split_asm) (auto simp: valid_controller valid_irq)

lemma valid_args:
  "device_args strtoul a b prev d as = Some (ds, d') \<Longrightarrow> valid_init d \<Longrightarrow> prev \<or> masked d \<Longrightarrow>
     (\<forall>x \<in> set ds. valid_init x \<and> masked x) \<and> valid_init d' \<and> masked d'"
proof (induction strtoul a b prev d as arbitrary: ds rule: device_args.induct)
  case (1 strtoul can0 can1 prev d)
  then show ?case by (auto simp: valid_mask mask_masked split: if_splits)
next
  case (2 strtoul can0 can1 prev d c s as)
  then show ?case by (auto split: option.splits dest: valid_option)
next
  case (3 strtoul can0 can1 prev d s as)
  have "valid_init (if prev then mask_mids d else d)" "masked (if prev then mask_mids d else d)"
    using 3(3,4) by (auto simp: valid_mask mask_masked)
  moreover obtain x ds' where x: "can_device_arg strtoul can0 can1 s (if prev then mask_mids d else d) = Some x"
    "device_args strtoul can0 can1 False (x\<lparr>can_unit := 0\<rparr>) as = Some (ds', d')" "ds = x # ds'"
    using 3(2) by (auto split: option.splits)
  ultimately have v: "valid_init x \<and> masked x" by (blast dest: valid_device_arg)
  then show ?case using 3(1) [OF x(1,2)] x(3) by (simp add: valid_irq)
qed

text \<open>The propagation segment is in range as long as it comes from the table of bit rates.\<close>

lemma propseg_set_bitrate: "br_propseg (set_bitrate br d) \<le> 7"
  by (cases br) (simp_all add: set_bitrate_def Let_def)

lemma propseg_option:
  "c \<noteq> CHR ''B'' \<Longrightarrow> can_option strtoul c s d = Some d' \<Longrightarrow> br_propseg d \<le> 7 \<Longrightarrow> br_propseg d' \<le> 7"
  unfolding can_option_def Let_def
  by (auto split: if_split_asm prod.splits option.splits simp: propseg_set_bitrate)

lemma propseg_keep [simp]:
  "br_propseg (mask_mids d) = br_propseg d" "br_propseg (set_controller a b sec d) = br_propseg d"
  by (simp add: mask_mids_def Let_def) (cases a; cases b; simp add: set_controller_def Let_def)

lemma propseg_device_arg: "can_device_arg strtoul a b s d = Some d' \<Longrightarrow> br_propseg d' = br_propseg d"
  unfolding can_device_arg_def Let_def by (auto split: if_split_asm)

lemma propseg_args:
  "device_args strtoul a b prev d as = Some (ds, d') \<Longrightarrow> \<forall>s. Opt CHR ''B'' s \<notin> set as \<Longrightarrow> br_propseg d \<le> 7 \<Longrightarrow>
     (\<forall>x \<in> set ds. br_propseg x \<le> 7) \<and> br_propseg d' \<le> 7"
proof (induction strtoul a b prev d as arbitrary: ds rule: device_args.induct)
  case (1 strtoul can0 can1 prev d)
  then show ?case by (auto split: if_splits)
next
  case (2 strtoul can0 can1 prev d c s as)
  obtain x where x: "can_option strtoul c s d = Some x" "device_args strtoul can0 can1 True x as = Some (ds, d')"
    using 2(2) by (auto split: option.splits)
  have "c \<noteq> CHR ''B''" using 2(3) by auto
  then have "br_propseg x \<le> 7" using propseg_option x(1) 2(4) by blast
  then show ?case using 2(1) [OF x] 2(3) by auto
next
  case (3 strtoul can0 can1 prev d s as)
  obtain x ds' where x: "can_device_arg strtoul can0 can1 s (if prev then mask_mids d else d) = Some x"
    "device_args strtoul can0 can1 False (x\<lparr>can_unit := 0\<rparr>) as = Some (ds', d')" "ds = x # ds'"
    using 3(2) by (auto split: option.splits)
  have "br_propseg x \<le> 7" using propseg_device_arg [OF x(1)] 3(4) by (simp split: if_splits)
  then show ?case using 3(1) [OF x(1,2)] 3(3) x(3) by simp
qed

lemma small_bits: "unat l < 2 ^ m \<Longrightarrow> m \<le> k \<Longrightarrow> \<not> bit l k" for l :: u8
proof -
  assume a: "unat l < 2 ^ m" "m \<le> k"
  then have "take_bit m (unat l) = unat l" by (simp add: take_bit_nat_eq_self)
  then have "\<not> bit (unat l) k" using a(2) by (metis bit_take_bit_iff not_le)
  then show ?thesis using bit_imp_le_length [of l k] by (auto simp: bit_unsigned_iff)
qed

lemma timing_fields:
  assumes "br_rjw d \<le> 3" and "br_pseg1 d \<le> 7" and "br_pseg2 d \<le> 7"
  shows "ucast (drop_bit 24 (bit_timing d)) = br_presdiv d" and "ucast (drop_bit 22 (bit_timing d) AND 3) = br_rjw d"
    and "ucast (drop_bit 19 (bit_timing d) AND 7) = br_pseg1 d" and "ucast (drop_bit 16 (bit_timing d) AND 7) = br_pseg2 d"
proof -
  have b: "\<And>k. 2 \<le> k \<Longrightarrow> \<not> bit (br_rjw d) k" "\<And>k. 3 \<le> k \<Longrightarrow> \<not> bit (br_pseg1 d) k" "\<And>k. 3 \<le> k \<Longrightarrow> \<not> bit (br_pseg2 d) k"
    using small_bits [of _ 2] small_bits [of _ 3] assms by (auto simp: word_le_nat_alt)
  have h: "\<And>k (x :: u8). 8 \<le> k \<Longrightarrow> \<not> bit x k" by (auto dest: bit_imp_le_length)
  show "ucast (drop_bit 24 (bit_timing d)) = br_presdiv d"
    by (rule bits8) (simp add: bit_timing_def upt8 bit_simps b h)
  show "ucast (drop_bit 22 (bit_timing d) AND 3) = br_rjw d"
    by (rule bits8) (simp add: bit_timing_def upt8 bit_simps b h)
  show "ucast (drop_bit 19 (bit_timing d) AND 7) = br_pseg1 d"
    by (rule bits8) (simp add: bit_timing_def upt8 bit_simps b h)
  show "ucast (drop_bit 16 (bit_timing d) AND 7) = br_pseg2 d"
    by (rule bits8) (simp add: bit_timing_def upt8 bit_simps b h)
qed

lemma propseg_field:
  assumes "br_propseg d \<le> 7"
  shows "ucast (bit_timing d AND 7) = br_propseg d"
proof -
  have b: "\<And>k. 3 \<le> k \<Longrightarrow> \<not> bit (br_propseg d) k" using small_bits [of _ 3] assms by (auto simp: word_le_nat_alt)
  show ?thesis by (rule bits8) (simp add: bit_timing_def upt8 bit_simps b)
qed

definition bit_rate_of :: "candev_ringo_init \<Rightarrow> nat" where
  \<comment> \<open>the rate the controller derives from the fields: one sync quantum and the three segments\<close>
  "bit_rate_of d = 60000000 div ((unat (br_presdiv d) + 1) *
     (1 + (unat (br_propseg d) + 1) + (unat (br_pseg1 d) + 1) + (unat (br_pseg2 d) + 1)))"

lemma device_init_all: "device_init strtoul a b args = Some ds \<Longrightarrow> args \<noteq> [] \<Longrightarrow> d \<in> set ds \<Longrightarrow> valid_init d \<and> masked d"
  using valid_args [of strtoul a b True default_init args] valid_default
  by (auto simp: device_init_def valid_irq split: option.splits list.splits)

lemma device_init_propseg:
  "device_init strtoul a b args = Some ds \<Longrightarrow> d \<in> set ds \<Longrightarrow> \<forall>s. Opt CHR ''B'' s \<notin> set args \<Longrightarrow> br_propseg d \<le> 7"
  using propseg_args [of strtoul a b "args \<noteq> []" default_init args] propseg_set_bitrate
  by (auto simp: device_init_def default_init_def Let_def split: option.splits list.splits)

text \<open>
  The propagation segment is not checked by \<open>-B\<close>: a value above 7 sets the mode bits of the register.
\<close>

lemma propseg_spills: "bit (br_propseg d) 3 \<Longrightarrow> bit (bit_timing d) 3"
  by (simp add: bit_timing_def bit_simps)

primrec nominal :: "bitrate_sel_t \<Rightarrow> nat" where
  "nominal CAN_BR_50K = 50000"
| "nominal CAN_BR_125K = 125000"
| "nominal CAN_BR_250K = 250000"
| "nominal CAN_BR_500K = 500000"
| "nominal CAN_BR_1M = 1000000"

text \<open>
  The bit rate selected with \<open>-b\<close> is within one per cent of the rate asked for, on the 60 MHz
  clock for which the table was made.
\<close>

theorem set_bitrate_accurate:
  "99 * nominal br \<le> 100 * bit_rate_of (set_bitrate br d) \<and> 100 * bit_rate_of (set_bitrate br d) \<le> 101 * nominal br"
  by (cases br) (simp_all add: bit_rate_of_def set_bitrate_def)

text \<open>
  C28: every device that the command line creates can be programmed. Its divider, jump width and two
  phase segments fit the register, where \<open>bit_timing\<close> puts them side by side so that they can be read
  back. So does its propagation segment, unless it was set with \<open>-B\<close>, which checks the other four fields
  but not this one: it is read back whenever it is at most 7, which it is without \<open>-B\<close>. The identifiers
  fit the frame format; and there are 31 receive and 31 transmit mailboxes, or one of each in raw
  mode, which the controller's 64 hold.
\<close>

theorem device_init_valid:
  assumes "device_init strtoul can0 can1 args = Some ds" and "args \<noteq> []" and "d \<in> set ds"
  shows "masked d \<and> valid_init d \<and> init_numrx d + init_numtx d \<le> 62 \<and>
    ucast (drop_bit 24 (bit_timing d)) = br_presdiv d \<and> ucast (drop_bit 22 (bit_timing d) AND 3) = br_rjw d \<and>
    ucast (drop_bit 19 (bit_timing d) AND 7) = br_pseg1 d \<and> ucast (drop_bit 16 (bit_timing d) AND 7) = br_pseg2 d \<and>
    (br_propseg d \<le> 7 \<longrightarrow> ucast (bit_timing d AND 7) = br_propseg d) \<and>
    ((\<forall>s. Opt CHR ''B'' s \<notin> set args) \<longrightarrow> br_propseg d \<le> 7)"
proof -
  have v: "valid_init d" "masked d" using device_init_all [OF assms] by auto
  then have "br_rjw d \<le> 3" "br_pseg1 d \<le> 7" "br_pseg2 d \<le> 7" by (auto simp: valid_init_def)
  moreover have "init_numrx d + init_numtx d \<le> 62" using v(1) by (auto simp: valid_init_def)
  ultimately show ?thesis
    using v timing_fields [of d] propseg_field [of d] device_init_propseg [OF assms(1,3)] by blast
qed

definition no_strtoul :: "string \<Rightarrow> nat \<Rightarrow> u32 \<times> string" where
  "no_strtoul s b = (0, s)"

theorem device_init_valid_witness:
  "\<exists>d. device_init no_strtoul None None [Opt CHR ''b'' ''500K'', Opt CHR ''R'' [], Dev ''can1''] = Some [d] \<and>
     masked d \<and> valid_init d \<and> ucast (drop_bit 24 (bit_timing d)) = (7 :: u8) \<and> ucast (bit_timing d AND 7) = (3 :: u8) \<and>
     dev_port d = 0x02094000"
proof -
  let ?d = "set_controller None None True (mask_mids ((set_bitrate CAN_BR_500K default_init)
    \<lparr>dev_mode := CANDEV_MODE_RAW_FRAME, init_numrx := 1, init_numtx := 1\<rparr>))"
  have e: "device_init no_strtoul None None [Opt CHR ''b'' ''500K'', Opt CHR ''R'' [], Dev ''can1''] = Some [?d]"
    by (simp add: device_init_def can_option_def select_bitrate_def can_device_arg_def)
  moreover have "br_presdiv ?d = 7" "br_propseg ?d = 3" "dev_port ?d = 0x02094000"
    by (simp_all add: set_controller_def mask_mids_def set_bitrate_def default_init_def Let_def)
  ultimately show ?thesis using device_init_valid [OF e, of ?d] by auto
qed

end
