(* ===== verification/Mini_Can.thy ===== *)
theory Mini_Can
  imports Can_Claims
begin

section \<open>The CAN mini-driver\<close>

text \<open>
  \<^verbatim>\<open>startup/boards/imx6x/mini-can\<close>: a driver that startup runs, and later the kernel, so that CAN
  messages are received before the driver proper has started. It keeps every message it finds in a
  mailbox in a buffer behind its data; the driver proper takes the messages from there
  (\<open>mdriver_init_data\<close>).

  The state has the form of the driver's: the data (\<open>minican_data\<close>) and the controller. The buffer
  is the memory behind the data, in a block of 64 KB, as a function from indices, of which those below
  \<open>minican_capacity\<close> lie in the block. The code does not check that a message still fits; what it would
  overwrite behind the block is not modelled, so that a message that does not fit ends the
  model with \<open>Fault\<close>. The configuration, which
  \<open>mini_can_preconfigure\<close> leaves where the data will be and which is copied before the data is
  written, is a field of its own. The registers are reached at \<open>canport\<close> and the mailboxes at
  \<open>canmem\<close>: the parameter \<open>can_at\<close> gives the controller seen at two such addresses. The functions
  that map a device for the kernel, which build page tables, are the parameters \<open>callout_io_map\<close> and
  \<open>callout_memory_map\<close>; those for startup return the address itself on this processor. As for the
  driver, a loop without a bound takes the number of its rounds.
\<close>

subsection \<open>Data\<close>

definition RINGO_CANMC_IDAM_FormatD :: u32 where "RINGO_CANMC_IDAM_FormatD = 0x1100"

definition MB_CNT_CODE :: "u32 \<Rightarrow> u32" where
  "MB_CNT_CODE x = push_bit 24 (x AND 0x0F)"

definition MB_CNT_LENGTH :: "u32 \<Rightarrow> u32" where
  "MB_CNT_LENGTH x = push_bit 16 (x AND 0x0F)"

definition MB_CNT_SRR :: u32 where "MB_CNT_SRR = 0x00400000"
definition MB_CNT_RTR :: u32 where "MB_CNT_RTR = 0x00100000"
definition CAN_RX_ALL :: u32 where "CAN_RX_ALL = 0xFFFFFFFF"
definition RINGO_RXMGMASK_RTR :: u32 where "RINGO_RXMGMASK_RTR = 0x80000000"
definition RINGO_RXMGMASK_IDE :: u32 where "RINGO_RXMGMASK_IDE = 0x40000000"
definition NUM_RX_MAILBOX :: nat where "NUM_RX_MAILBOX = 31"
definition NUM_TX_MAILBOX :: nat where "NUM_TX_MAILBOX = 31"
definition TX_INIT_MAILBOX :: nat where "TX_INIT_MAILBOX = 32"
definition RETRY_TIMEOUT :: nat where "RETRY_TIMEOUT = 20000"
definition MINI_DATA_BUF_SIZE :: nat where "MINI_DATA_BUF_SIZE = 64 * 1024"

lemmas mini_consts = MB_CNT_CODE_def MB_CNT_LENGTH_def MB_CNT_SRR_def MB_CNT_RTR_def NUM_RX_MAILBOX_def
  NUM_TX_MAILBOX_def TX_INIT_MAILBOX_def RINGO_RXMGMASK_RTR_def RINGO_RXMGMASK_IDE_def

datatype minican_baud_t = MINICAN_BAUD_1M | MINICAN_BAUD_500K | MINICAN_BAUD_250K | MINICAN_BAUD_125K | MINICAN_BAUD_50K

primrec minican_bitrates :: "minican_baud_t \<Rightarrow> can_bitrate" where
  "minican_bitrates MINICAN_BAUD_50K = \<lparr>presdiv = 0x55, propseg = 0x02, pseg1 = 0x07, pseg2 = 0x01, rjw = 0\<rparr>"
| "minican_bitrates MINICAN_BAUD_125K = \<lparr>presdiv = 0x21, propseg = 0x02, pseg1 = 0x07, pseg2 = 0x01, rjw = 0\<rparr>"
| "minican_bitrates MINICAN_BAUD_250K = \<lparr>presdiv = 0x10, propseg = 0x02, pseg1 = 0x07, pseg2 = 0x01, rjw = 0\<rparr>"
| "minican_bitrates MINICAN_BAUD_500K = \<lparr>presdiv = 0x07, propseg = 0x03, pseg1 = 0x07, pseg2 = 0x01, rjw = 1\<rparr>"
| "minican_bitrates MINICAN_BAUD_1M = \<lparr>presdiv = 0x03, propseg = 0x03, pseg1 = 0x07, pseg2 = 0x01, rjw = 1\<rparr>"

record minican_id_t =
  arb_id :: u32
  is_extended :: bool

record minican_msg_t =
  arb :: minican_id_t
  mlen :: u32
  mdat :: "nat \<Rightarrow> u8"

text \<open>A list of the configuration is \<open>None\<close> when \<open>buf\<close> is the null pointer; \<open>count\<close> is its length.\<close>

record minican_config_t =
  can_base :: u32
  canmem_base :: u32
  can_irq :: u32
  rate :: minican_baud_t
  msgs_to_rx :: "minican_id_t list option"
  init_tx_msgs :: "minican_msg_t list option"

record minican_data =
  canport :: u32
  canport_k :: u32
  canmem :: u32
  canmem_k :: u32
  nstartup :: u16
  nstartupp :: u16
  nstartupf :: u16
  nkernel :: u16
  nprocess :: u16
  nrx :: u16
  tx_enabled :: u32
  rxbuf :: "nat \<Rightarrow> can_msg_obj"
  config :: minican_config_t
  mdriver_max :: u32 \<comment> \<open>the poll rate, a variable of startup\<close>

type_synonym 'd mini_world = "(minican_data, 'd) dev_world"

definition minican_capacity :: nat where
  \<comment> \<open>messages the buffer has room for: the data has 32 bytes, a message 16\<close>
  "minican_capacity = (MINI_DATA_BUF_SIZE - 32) div 16"

lemma capacity: "minican_capacity = 4094"
  by (simp add: minican_capacity_def MINI_DATA_BUF_SIZE_def)

datatype mdriver_state = MDRIVER_INIT | MDRIVER_STARTUP | MDRIVER_STARTUP_PREPARE | MDRIVER_STARTUP_FINI
  | MDRIVER_KERNEL | MDRIVER_PROCESS | MDRIVER_INTR_ATTACH

record 'd mini_env =
  can_at :: "u32 \<Rightarrow> u32 \<Rightarrow> 'd can_env"
  callout_io_map :: "u32 \<Rightarrow> u32"
  callout_memory_map :: "u32 \<Rightarrow> u32"

definition with_can :: "'d mini_env \<Rightarrow> ('d can_env \<Rightarrow> ('d mini_world, 'a) state) \<Rightarrow> ('d mini_world, 'a) state" where
  \<comment> \<open>the controller at the addresses the data has now\<close>
  "with_can M f = do { p \<leftarrow> get_info canport; q \<leftarrow> get_info canmem; f (can_at M p q) }"

primrec countdown :: "nat \<Rightarrow> 'd can_env \<Rightarrow> can_loc \<Rightarrow> (u32 \<Rightarrow> bool) \<Rightarrow> (('i, 'd) dev_world, nat option) state" where
  \<comment> \<open>reads until the value is as wanted; what is left of the timeout, or \<open>None\<close> when it is used up\<close>
  "countdown 0 E l P = do { v \<leftarrow> in32 E l; ret (if P v then Some 0 else None) }"
| "countdown (Suc t) E l P = do { v \<leftarrow> in32 E l; if P v then ret (Some (Suc t)) else countdown t E l P }"

subsection \<open>Operations\<close>

definition pack_msg_id :: "minican_id_t \<Rightarrow> u32" where
  "pack_msg_id a = (if is_extended a then arb_id a AND 0x1FFFFFFF else push_bit 18 (arb_id a AND 0x7FF))"

definition pack_data :: "(nat \<Rightarrow> u8) \<Rightarrow> nat \<Rightarrow> u32" where
  \<comment> \<open>four bytes from \<open>k\<close> on, the first one on top\<close>
  "pack_data dat k = push_bit 24 (ucast (dat k)) OR push_bit 16 (ucast (dat (k + 1))) OR
     push_bit 8 (ucast (dat (k + 2))) OR ucast (dat (k + 3))"

definition set_mem32 :: "u32 \<Rightarrow> u32 \<Rightarrow> u32 \<Rightarrow> u32" where
  "set_mem32 v msk x = (v AND NOT msk) OR (x AND msk)"

definition can_tx :: "nat \<Rightarrow> 'd can_env \<Rightarrow> minican_msg_t \<Rightarrow> nat \<Rightarrow> ('d mini_world, bool) state" where
  \<comment> \<open>\<open>False\<close>: the bus does not become idle\<close>
  "can_tx n E m i =
     do {
       ok \<leftarrow> spin n E RINGO_CANESR (\<lambda>v. v AND RINGO_CANES_IDLE \<noteq> 0);
       if ok = None then ret False
       else do {
         v \<leftarrow> in32 E (Mbx i canmcf);
         let v = set_mem32 v MSG_BUF_CODE_MASK (MB_CNT_CODE TRANS_CODE_NOT_READY);
         let v = set_mem32 v MB_CNT_RTR 0;
         let v = set_mem32 v MB_CNT_SRR 0;
         let v = set_mem32 v MB_CNT_IDE (if is_extended (arb m) then MB_CNT_IDE else 0);
         let v = set_mem32 v MSG_BUF_DLC_MASK (MB_CNT_LENGTH (mlen m));
         out32 E (Mbx i canmcf) v;
         out32 E (Mbx i canmid) (pack_msg_id (arb m));
         out32 E (Mbx i canmdl) (pack_data (mdat m) 0);
         out32 E (Mbx i canmdh) (pack_data (mdat m) 4);
         set_port32 E (Mbx i canmcf) MSG_BUF_CODE_MASK (MB_CNT_CODE TRANS_CODE_TRANSMIT_ONCE);
         set_port32 E (Mbx 0 canmcf) MSG_BUF_CODE_MASK (MB_CNT_CODE TRANS_CODE_NOT_READY);
         set_port32 E (Mbx 0 canmcf) MSG_BUF_CODE_MASK (MB_CNT_CODE TRANS_CODE_NOT_READY);
         ret True
       }
     }"

definition disable_interrupts :: "'d can_env \<Rightarrow> ('d mini_world, unit) state" where
  "disable_interrupts E =
     do {
       out32 E RINGO_CANIMASK2 0;
       out32 E RINGO_CANIMASK1 0;
       set_port32 E RINGO_CANCTRL RINGO_CANCTRL_BOFFMSK 0;
       set_port32 E RINGO_CANCTRL RINGO_CANCTRL_ERRMASK 0;
       set_port32 E RINGO_CANCTRL RINGO_CANCTRL_TWRNMSK 0;
       set_port32 E RINGO_CANCTRL RINGO_CANCTRL_RWRNMSK 0
     }"

definition enable_mbx_interrupts :: "'d can_env \<Rightarrow> ('d mini_world, unit) state" where
  "enable_mbx_interrupts E =
     do {
       out32 E RINGO_CANIMASK2 0x7FFFFFFF;
       out32 E RINGO_CANIMASK1 0xFFFFFFFE;
       out32 E RINGO_CANIFLAG2 0xffffffff;
       out32 E RINGO_CANIFLAG1 0xffffffff
     }"

subsection \<open>Initialisation\<close>

definition mini_timing :: "minican_config_t \<Rightarrow> u32" where
  "mini_timing c =
     (let b = minican_bitrates (rate c) in
      push_bit 24 (ucast (presdiv b)) OR push_bit 0 (ucast (propseg b)) OR push_bit 22 (ucast (rjw b)) OR
      push_bit 19 (ucast (pseg1 b)) OR push_bit 16 (ucast (pseg2 b)))"

definition mini_modes :: "'d can_env \<Rightarrow> minican_config_t \<Rightarrow> ('d mini_world, unit) state" where
  "mini_modes E c =
     do {
       out32 E RINGO_CANCTRL (mini_timing c);
       set_port32 E RINGO_CANMC RINGO_CANMC_SUPV RINGO_CANMC_SUPV;
       set_port32 E RINGO_CANMC RINGO_CANMC_IRMQ RINGO_CANMC_IRMQ;
       set_port32 E RINGO_CANMC RINGO_CANMC_WRN_EN RINGO_CANMC_WRN_EN;
       set_port32 E RINGO_CANMC RINGO_CANMC_SRX_DIS RINGO_CANMC_SRX_DIS;
       set_port32 E RINGO_CANMC RINGO_CANMC_LPRIO_EN RINGO_CANMC_LPRIO_EN;
       set_port32 E RINGO_CANMC RINGO_CANMC_IDAM_FormatA RINGO_CANMC_IDAM_FormatA;
       set_port32 E RINGO_CANMC RINGO_CANMC_MAXMB_MASK RINGO_CANMC_MAXMB_MAXVAL;
       set_port32 E RINGO_CANCTRL RINGO_CANCTRL_BOFFMSK 0;
       set_port32 E RINGO_CANCTRL RINGO_CANCTRL_ERRMASK 0;
       set_port32 E RINGO_CANCTRL RINGO_CANCTRL_TWRNMSK 0;
       set_port32 E RINGO_CANCTRL RINGO_CANCTRL_RWRNMSK 0;
       set_port32 E RINGO_CANCTRL RINGO_CANCTRL_SAMP 0;
       set_port32 E RINGO_CANCTRL RINGO_CANCTRL_LPB 0;
       set_port32 E RINGO_CANCTRL RINGO_CANCTRL_TSYNC 0;
       set_port32 E RINGO_CANCTRL RINGO_CANCTRL_LOM 0;
       set_port32 E RINGO_CANCTRL RINGO_CANCTRL_BOFFREC 0;
       set_port32 E RINGO_CANCTRL RINGO_CANCTRL_LBUF 0;
       out32 E RINGO_CANECR 0;
       v \<leftarrow> in32 E RINGO_CANESR;
       out32 E RINGO_CANESR (v OR 0xffffffff);
       out32 E RINGO_CANIMASK2 0;
       out32 E RINGO_CANIMASK1 0;
       out32 E RINGO_CANIFLAG2 0xffffffff;
       out32 E RINGO_CANIFLAG1 0xffffffff;
       set_port32 E RINGO_CANMC RINGO_CANMC_IRMQ RINGO_CANMC_IRMQ;
       set_port32 E RINGO_CANCTRL2 RINGO_CANCTRL2_EACEN RINGO_CANCTRL2_EACEN;
       set_port32 E RINGO_CANMC RINGO_CANMC_IDAM_FormatD RINGO_CANMC_IDAM_FormatA
     }"

definition capture_all :: "minican_id_t list option \<Rightarrow> bool" where
  "capture_all l = (case l of None \<Rightarrow> False | Some ids \<Rightarrow> \<exists>a \<in> set ids. arb_id a = CAN_RX_ALL)"

definition capture_extended :: "minican_id_t list option \<Rightarrow> bool" where
  "capture_extended l = (case l of None \<Rightarrow> False | Some ids \<Rightarrow> \<exists>a \<in> set ids. arb_id a = CAN_RX_ALL \<and> is_extended a)"

definition rx_all_mailbox :: "'d can_env \<Rightarrow> bool \<Rightarrow> nat \<Rightarrow> ('d mini_world, unit) state" where
  "rx_all_mailbox E extended i =
     do {
       out32 E (Mbx i canmcf) (MB_CNT_CODE REC_CODE_NOT_ACTIVE);
       out32 E (Lam (i * 4)) (if extended then RINGO_RXMGMASK_RTR else RINGO_RXMGMASK_RTR OR RINGO_RXMGMASK_IDE);
       out32 E (Mbx i canmid) 0;
       out32 E (Mbx i canmdl) 0;
       out32 E (Mbx i canmdh) 0;
       out32 E (Mbx i canmcf) (MB_CNT_CODE REC_CODE_EMPTY)
     }"

definition rx_list_mailbox :: "'d can_env \<Rightarrow> minican_id_t list \<Rightarrow> nat \<Rightarrow> ('d mini_world, unit) state" where
  "rx_list_mailbox E ids i =
     do {
       let a = ids ! ((i - 1) mod length ids);
       out32 E (Mbx i canmcf) (MB_CNT_CODE REC_CODE_NOT_ACTIVE);
       out32 E (Lam (i * 4)) 0xFFFFFFFF;
       cond (is_extended a) (set_port32 E (Mbx i canmcf) MB_CNT_IDE MB_CNT_IDE);
       out32 E (Mbx i canmid) (pack_msg_id a);
       out32 E (Mbx i canmdl) 0;
       out32 E (Mbx i canmdh) 0;
       set_port32 E (Mbx i canmcf) MSG_BUF_CODE_MASK (MB_CNT_CODE REC_CODE_EMPTY)
     }"

definition rx_none_mailbox :: "'d can_env \<Rightarrow> nat \<Rightarrow> ('d mini_world, unit) state" where
  \<comment> \<open>\<open>canmcf_ide\<close> is always 0 here\<close>
  "rx_none_mailbox E i =
     do {
       out32 E (Lam (i * 4)) 0xFFFFFFFF;
       out32 E (Mbx i canmcf) (push_bit 24 (REC_CODE_NOT_ACTIVE AND 0x0F));
       out32 E (Mbx i canmid) 0;
       out32 E (Mbx i canmid) (default_mid 0 0x100C0000 (i - 1));
       out32 E (Mbx i canmdl) 0;
       out32 E (Mbx i canmdh) 0;
       out32 E (Mbx i canmcf) (push_bit 24 (REC_CODE_EMPTY AND 0x0F))
     }"

definition mini_rx_mailboxes :: "'d can_env \<Rightarrow> minican_config_t \<Rightarrow> ('d mini_world, unit) state" where
  "mini_rx_mailboxes E c =
     (let l = msgs_to_rx c; is = [1..<NUM_RX_MAILBOX + 1] in
      if capture_all l then do { for_each is (rx_all_mailbox E (capture_extended l)); enable_mbx_interrupts E }
      else case l of
        Some (a # as) \<Rightarrow> do { for_each is (rx_list_mailbox E (a # as)); enable_mbx_interrupts E }
      | _ \<Rightarrow> do { for_each is (rx_none_mailbox E); disable_interrupts E })"

definition mini_tx_mailbox :: "'d can_env \<Rightarrow> nat \<Rightarrow> ('d mini_world, unit) state" where
  "mini_tx_mailbox E i =
     do {
       out32 E (Mbx i canmcf) (MB_CNT_CODE TRANS_CODE_NOT_READY OR MB_CNT_LENGTH 8);
       out32 E (Mbx i canmid) (default_mid 0 0x100C0000 (i - TX_INIT_MAILBOX));
       out32 E (Mbx i canmdl) 0;
       out32 E (Mbx i canmdh) 0
     }"

definition mini_rsvd_mailbox :: "'d can_env \<Rightarrow> nat \<Rightarrow> ('d mini_world, unit) state" where
  "mini_rsvd_mailbox E i =
     do {
       out32 E (Mbx i canmcf) (push_bit 24 (TRANS_CODE_NOT_READY AND 0x0F));
       out32 E (Mbx i canmid) 0;
       out32 E (Mbx i canmdl) 0;
       out32 E (Mbx i canmdh) 0
     }"

definition mini_finish :: "'d can_env \<Rightarrow> ('d mini_world, int run) state" where
  "mini_finish E =
     do {
       set_port32 E RINGO_CANMC RINGO_CANMC_MDIS 0;
       t \<leftarrow> countdown RETRY_TIMEOUT E RINGO_CANMC (\<lambda>v. v AND RINGO_CANMC_LPM_ACK = 0);
       if t = None then ret (Done (- 1))
       else do {
         set_port32 E RINGO_CANMC RINGO_CANMC_HALT 0;
         _ \<leftarrow> spin FLEXCAN_SET_MODE_RETRIES E RINGO_CANMC (\<lambda>v. v AND (RINGO_CANMC_NOTRDY OR RINGO_CANMC_FRZACK) = 0);
         v \<leftarrow> in32 E RINGO_CANMC;
         ret (Done (if v AND RINGO_CANMC_FRZACK = 0 then 0 else - 1))
       }
     }"

definition mini_setup :: "'d can_env \<Rightarrow> minican_config_t \<Rightarrow> ('d mini_world, int run) state" where
  \<comment> \<open>once the controller is in freeze mode\<close>
  "mini_setup E c =
     do {
       mini_modes E c;
       mini_rx_mailboxes E c;
       for_each [TX_INIT_MAILBOX..<63] (mini_tx_mailbox E);
       mini_rsvd_mailbox E 0;
       mini_rsvd_mailbox E CAN_LAST_MAILBOX_INDEX;
       mini_finish E
     }"

definition mini_program :: "'d can_env \<Rightarrow> minican_config_t \<Rightarrow> ('d mini_world, int run) state" where
  \<comment> \<open>the timeout goes on counting from the first loop to the second\<close>
  "mini_program E c =
     do {
       set_port32 E RINGO_CANMC RINGO_CANMC_SOFTRST RINGO_CANMC_SOFTRST;
       t \<leftarrow> countdown RETRY_TIMEOUT E RINGO_CANMC (\<lambda>v. v AND RINGO_CANMC_SOFTRST = 0);
       case t of None \<Rightarrow> ret Exit
       | Some t \<Rightarrow> do {
           set_port32 E RINGO_CANMC RINGO_CANMC_MDIS RINGO_CANMC_MDIS;
           t \<leftarrow> countdown t E RINGO_CANMC (\<lambda>v. v AND RINGO_CANMC_LPM_ACK = RINGO_CANMC_LPM_ACK);
           case t of None \<Rightarrow> ret Exit
           | Some _ \<Rightarrow> do {
               set_port32 E RINGO_CANMC RINGO_CANMC_MDIS 0;
               t \<leftarrow> countdown RETRY_TIMEOUT E RINGO_CANMC (\<lambda>v. v AND RINGO_CANMC_FRZACK = RINGO_CANMC_FRZACK);
               if t = None then ret Exit else mini_setup E c
             }
         }
     }"

definition mini_init_hw :: "'d mini_env \<Rightarrow> minican_config_t \<Rightarrow> ('d mini_world, int run) state" where
  "mini_init_hw M c =
     do {
       upd_info (\<lambda>m. m\<lparr>nrx := of_nat NUM_RX_MAILBOX, canport_k := can_base c, canmem_k := canmem_base c\<rparr>);
       upd_info (\<lambda>m. m\<lparr>canport := can_base c\<rparr>);
       if can_base c = 0 then ret (Done (- 1))
       else do {
         upd_info (\<lambda>m. m\<lparr>canmem := canmem_base c\<rparr>);
         if canmem_base c = 0 then ret (Done (- 1)) else with_can M (\<lambda>E. mini_program E c)
       }
     }"

subsection \<open>The handler\<close>

definition mini_can_preconfigure :: "minican_config_t \<Rightarrow> ('d mini_world, int) state" where
  "mini_can_preconfigure c = do { upd_info (\<lambda>m. m\<lparr>config := c\<rparr>); ret 0 }"

primrec init_tx :: "nat \<Rightarrow> 'd can_env \<Rightarrow> nat \<Rightarrow> minican_msg_t list \<Rightarrow> ('d mini_world, bool) state" where
  "init_tx n E i [] = ret True"
| "init_tx n E i (m # ms) =
     (if i < NUM_TX_MAILBOX then do {
        upd_info (\<lambda>d. d\<lparr>tx_enabled := set_mem32 (tx_enabled d) (MAILBOX i) (MAILBOX i)\<rparr>);
        ok \<leftarrow> can_tx n E m (TX_INIT_MAILBOX + i);
        if ok then init_tx n E (i + 1) ms else ret False
      }
      else ret True)"

definition mini_init :: "nat \<Rightarrow> 'd mini_env \<Rightarrow> ('d mini_world, int run) state" where
  "mini_init n M =
     do {
       c \<leftarrow> get_info config;
       upd_info (\<lambda>m. m\<lparr>mdriver_max := 16 * 1024\<rparr>);
       r \<leftarrow> mini_init_hw M c;
       case r of Done k \<Rightarrow>
         if k = - 1 then ret (Done 1)
         else do {
           upd_info (\<lambda>m. m\<lparr>nstartup := 0, nstartupf := 0, nstartupp := 0, nkernel := 0, nprocess := 0, nrx := 0, tx_enabled := 0\<rparr>);
           case init_tx_msgs c of None \<Rightarrow> ret (Done 0)
           | Some ms \<Rightarrow> with_can M (\<lambda>E. do { ok \<leftarrow> init_tx n E 0 ms; ret (if ok then Done 0 else Hang) })
         }
       | x \<Rightarrow> ret x
     }"

definition mini_rx_mailbox :: "nat \<Rightarrow> 'd can_env \<Rightarrow> nat \<Rightarrow> ('d mini_world, unit run) state" where
  \<comment> \<open>\<open>Hang\<close>: the mailbox stays busy; \<open>Fault\<close>: the message would be stored behind the block of the buffer\<close>
  "mini_rx_mailbox n E i =
     do {
       ok \<leftarrow> spin n E (Mbx i canmcf) (\<lambda>v. v AND MSG_BUF_CODE_MASK \<noteq> MB_CNT_CODE REC_CODE_BUSY);
       k \<leftarrow> get_info nrx;
       if ok = None then ret Hang
       else if minican_capacity \<le> unat k then ret Fault
       else do {
         mid \<leftarrow> in32 E (Mbx i canmid);
         mcf \<leftarrow> in32 E (Mbx i canmcf);
         mdh \<leftarrow> in32 E (Mbx i canmdh);
         mdl \<leftarrow> in32 E (Mbx i canmdl);
         upd_info (\<lambda>m. m\<lparr>rxbuf := (rxbuf m)(unat (nrx m) := \<lparr>o_mcf = mcf, o_mid = mid, o_mdl = mdl, o_mdh = mdh\<rparr>)\<rparr>);
         upd_info (\<lambda>m. m\<lparr>nrx := nrx m + 1\<rparr>);
         set_port32 E (Mbx i canmcf) MSG_BUF_CODE_MASK (MB_CNT_CODE REC_CODE_EMPTY);
         _ \<leftarrow> in32 E RINGO_CANTIMER;
         out32 E RINGO_CANIFLAG1 (push_bit i 1);
         ret (Done ())
       }
     }"

primrec mini_rx :: "nat \<Rightarrow> 'd can_env \<Rightarrow> nat list \<Rightarrow> u32 \<Rightarrow> ('d mini_world, unit run) state" where
  "mini_rx n E [] fl = ret (Done ())"
| "mini_rx n E (i # is) fl =
     (if fl = 0 then ret (Done ())
      else if fl AND push_bit i 1 = 0 then mini_rx n E is fl
      else do {
        r \<leftarrow> mini_rx_mailbox n E i;
        if r = Done () then mini_rx n E is (fl AND NOT (push_bit i 1)) else ret r
      })"

definition mini_tx_mailbox_done :: "'d can_env \<Rightarrow> nat \<Rightarrow> ('d mini_world, unit) state" where
  "mini_tx_mailbox_done E i =
     do {
       upd_info (\<lambda>d. d\<lparr>tx_enabled := set_mem32 (tx_enabled d) (MAILBOX i) 0\<rparr>);
       set_port32 E (Mbx (TX_INIT_MAILBOX + i) canmcf) MSG_BUF_CODE_MASK (MB_CNT_CODE TRANS_CODE_NOT_READY);
       out32 E RINGO_CANIFLAG2 (push_bit i 1)
     }"

primrec mini_tx :: "'d can_env \<Rightarrow> nat list \<Rightarrow> u32 \<Rightarrow> ('d mini_world, unit) state" where
  "mini_tx E [] fl = ret ()"
| "mini_tx E (i # is) fl =
     (if fl = 0 then ret ()
      else if fl AND push_bit i 1 = 0 then mini_tx E is fl
      else do { mini_tx_mailbox_done E i; mini_tx E is (fl AND NOT (push_bit i 1)) })"

definition mini_prepare :: "'d mini_env \<Rightarrow> ('d mini_world, bool) state" where
  \<comment> \<open>\<open>False\<close>: the mini-driver is done\<close>
  "mini_prepare M =
     do {
       upd_info (\<lambda>m. m\<lparr>nstartupp := nstartupp m + 1\<rparr>);
       upd_info (\<lambda>m. m\<lparr>canport_k := callout_io_map M (canport_k m)\<rparr>);
       p \<leftarrow> get_info canport_k;
       if p = 0 then do { with_can M disable_interrupts; ret False }
       else do {
         upd_info (\<lambda>m. m\<lparr>canmem_k := callout_memory_map M (canmem_k m)\<rparr>);
         q \<leftarrow> get_info canmem_k;
         if q = 0 then do { with_can M disable_interrupts; ret False } else ret True
       }
     }"

definition mini_poll :: "nat \<Rightarrow> 'd mini_env \<Rightarrow> ('d mini_world, unit run) state" where
  \<comment> \<open>the two loops over the flags, common to the states\<close>
  "mini_poll n M = with_can M (\<lambda>E. do {
     fl \<leftarrow> in32 E RINGO_CANIFLAG1;
     r \<leftarrow> mini_rx n E [0..<NUM_RX_MAILBOX + 1] fl;
     if r = Done () then do {
       fl \<leftarrow> in32 E RINGO_CANIFLAG2;
       mini_tx E [0..<NUM_TX_MAILBOX] fl;
       ret (Done ())
     }
     else ret r })"

definition mini_can :: "nat \<Rightarrow> 'd mini_env \<Rightarrow> mdriver_state \<Rightarrow> ('d mini_world, int run) state" where
  "mini_can n M st =
     (case st of
        MDRIVER_INTR_ATTACH \<Rightarrow> do { with_can M disable_interrupts; ret (Done 1) }
      | MDRIVER_INIT \<Rightarrow> mini_init n M
      | _ \<Rightarrow> do {
          go \<leftarrow> (case st of
               MDRIVER_STARTUP_PREPARE \<Rightarrow> mini_prepare M
             | MDRIVER_STARTUP \<Rightarrow> do { upd_info (\<lambda>m. m\<lparr>nstartup := nstartup m + 1\<rparr>); ret True }
             | MDRIVER_KERNEL \<Rightarrow> do { upd_info (\<lambda>m. m\<lparr>nkernel := nkernel m + 1\<rparr>); ret True }
             | MDRIVER_PROCESS \<Rightarrow> do { upd_info (\<lambda>m. m\<lparr>nprocess := nprocess m + 1\<rparr>); ret True }
             | _ \<Rightarrow> ret True);
          if go then do {
            r \<leftarrow> mini_poll n M;
            case r of Done _ \<Rightarrow> do {
              cond (st = MDRIVER_STARTUP_FINI)
                (upd_info (\<lambda>m. m\<lparr>nstartupf := nstartupf m + 1, canport := canport_k m, canmem := canmem_k m\<rparr>));
              ret (Done 0)
            }
            | Hang \<Rightarrow> ret Hang | Fault \<Rightarrow> ret Fault | Exit \<Rightarrow> ret Exit
          }
          else ret (Done 1)
        })"

end
