(* ===== verification/Mini_Claims.thy ===== *)
theory Mini_Claims
  imports Mini_Can
begin

section \<open>The CAN mini-driver: its correctness\<close>

text \<open>
  What the mini-driver captures at one call (\<open>mini_can_captures\<close>), that the driver proper finds in its
  queues what a whole run of the mini-driver captured (\<open>minican_handover\<close>), and what the initialisation
  leaves in the mailboxes (\<open>mini_can_init_correct\<close>). The steps on the controller are lemmas of the
  locale \<open>flexcan\<close>, the contract of the controller, that hold for every interpretation of it.
\<close>

subsection \<open>Reception\<close>

definition mbx_obj :: "(can_loc \<Rightarrow> u32) \<Rightarrow> nat \<Rightarrow> can_msg_obj" where
  "mbx_obj V i = \<lparr>o_mcf = V (Mbx i canmcf), o_mid = V (Mbx i canmid), o_mdl = V (Mbx i canmdl), o_mdh = V (Mbx i canmdh)\<rparr>"

definition captured :: "minican_data \<Rightarrow> can_msg_obj list" where
  "captured m = map (rxbuf m) [0..<unat (nrx m)]"

definition store_all :: "can_msg_obj list \<Rightarrow> minican_data \<Rightarrow> minican_data" where
  \<comment> \<open>the messages put into the buffer, one behind the other\<close>
  "store_all obs m = fold (\<lambda>ob m. m\<lparr>rxbuf := (rxbuf m)(unat (nrx m) := ob), nrx := nrx m + 1\<rparr>) obs m"

definition mbx_clear :: "u32 \<Rightarrow> nat list \<Rightarrow> (can_loc \<Rightarrow> u32) \<Rightarrow> can_loc \<Rightarrow> u32" where
  \<comment> \<open>the code of the given mailboxes is \<open>code\<close>\<close>
  "mbx_clear code js V = (\<lambda>l. case l of
      Mbx j canmcf \<Rightarrow> if j \<in> set js then set_mem32 (V l) MSG_BUF_CODE_MASK (MB_CNT_CODE code) else V l
    | _ \<Rightarrow> V l)"

definition bit_set :: "nat list \<Rightarrow> u32" where
  "bit_set js = foldr (\<lambda>i v. push_bit i 1 OR v) js 0"

lemma store_all_simps [simp]:
  "store_all [] m = m"
  "store_all (ob # obs) m = store_all obs (m\<lparr>rxbuf := (rxbuf m)(unat (nrx m) := ob), nrx := nrx m + 1\<rparr>)"
  by (simp_all add: store_all_def)

lemma captured_store:
  "unat (nrx m) + length obs < 65536 \<Longrightarrow> captured (store_all obs m) = captured m @ obs"
proof (induction obs arbitrary: m)
  case (Cons ob obs)
  have n: "unat (nrx m + 1) = Suc (unat (nrx m))"
    using Cons.prems by (simp add: unat_word_ariths)
  then have "captured (m\<lparr>rxbuf := (rxbuf m)(unat (nrx m) := ob), nrx := nrx m + 1\<rparr>) = captured m @ [ob]"
    by (simp add: captured_def)
  then show ?case using Cons n by simp
qed simp

lemma bit_and_push: "fl AND push_bit i 1 = 0 \<longleftrightarrow> \<not> bit fl i" for fl :: u32
  using and_push_bit [of fl i] by auto

lemma bit_and_exp: "fl AND 2 ^ i = 0 \<longleftrightarrow> \<not> bit fl i" for fl :: u32
  using bit_and_push [of fl i] by (simp add: push_bit_eq_mult)

lemma mbx_clear_snoc:
  "i \<notin> set js \<Longrightarrow> mbx_clear code js ((mbx_clear code [i] V)) = mbx_clear code (i # js) V"
  by (auto simp: mbx_clear_def fun_eq_iff split: can_loc.splits can_field.splits)

context flexcan
begin

lemma rx_mailbox_run:
  assumes "0 < n" and "val (ctlr w) (Mbx i canmcf) AND MSG_BUF_CODE_MASK \<noteq> MB_CNT_CODE REC_CODE_BUSY"
    and "unat (nrx (info w)) < minican_capacity"
  shows "\<exists>d. run_state (mini_rx_mailbox n E i) w = (Done (), \<lparr>info = store_all [mbx_obj (val (ctlr w)) i] (info w), ctlr = d\<rparr>) \<and>
    val d = (mbx_clear REC_CODE_EMPTY [i] (val (ctlr w)))(RINGO_CANIFLAG1 := val (ctlr w) RINGO_CANIFLAG1 AND NOT (push_bit i 1))"
proof -
  have ne: "\<And>i x. Mbx i x \<noteq> RINGO_CANTIMER" "\<And>i x j. Mbx i x \<noteq> Lam j" by (simp_all add: can_regs)
  obtain t where t: "\<And>w :: 'd mini_world. run_state (in32 E RINGO_CANTIMER) w = (t w, w\<lparr>ctlr := rd_st E RINGO_CANTIMER (ctlr w)\<rparr>)"
    using run_timer by metis
  show ?thesis
    using assms unfolding mini_rx_mailbox_def
    by (simp add: run_spin ne run_mbx run_out32 set_port32_def t val_wr_flag mbx_obj_def)
      (auto simp: fun_eq_iff val_wr_flag mbx_clear_def set_mem32_def can_regs split: can_loc.splits can_field.splits)
qed

lemma rx_mailbox_full:
  assumes "0 < n" and "val (ctlr w) (Mbx i canmcf) AND MSG_BUF_CODE_MASK \<noteq> MB_CNT_CODE REC_CODE_BUSY"
    and "minican_capacity \<le> unat (nrx (info w))"
  shows "fst (run_state (mini_rx_mailbox n E i) w) = Fault"
proof -
  have ne: "\<And>i x. Mbx i x \<noteq> RINGO_CANTIMER" "\<And>i x j. Mbx i x \<noteq> Lam j" by (simp_all add: can_regs)
  show ?thesis using assms unfolding mini_rx_mailbox_def by (simp add: run_spin ne)
qed

lemma store_nrx:
  "unat (nrx m) + length obs < 65536 \<Longrightarrow> unat (nrx (store_all obs m)) = unat (nrx m) + length obs"
proof (induction obs arbitrary: m)
  case (Cons ob obs)
  then have "unat (nrx m + 1) = Suc (unat (nrx m))" by (simp add: unat_word_ariths)
  then show ?case using Cons by simp
qed simp

lemma rx_run:
  assumes "0 < n" and "distinct js" and "\<forall>i \<in> set js. bit fl i \<longrightarrow> val (ctlr w) (Mbx i canmcf) AND MSG_BUF_CODE_MASK \<noteq> MB_CNT_CODE REC_CODE_BUSY"
    and "unat (nrx (info w)) + length (filter (bit fl) js) \<le> minican_capacity"
  shows "\<exists>d. run_state (mini_rx n E js fl) w =
      (Done (), \<lparr>info = store_all (map (mbx_obj (val (ctlr w))) (filter (bit fl) js)) (info w), ctlr = d\<rparr>) \<and>
    val d = (mbx_clear REC_CODE_EMPTY (filter (bit fl) js) (val (ctlr w)))
      (RINGO_CANIFLAG1 := val (ctlr w) RINGO_CANIFLAG1 AND NOT (bit_set (filter (bit fl) js)))"
  using assms(2-4)
proof (induction js arbitrary: fl w)
  case Nil
  show ?case by (rule exI [of _ "ctlr w"]) (simp add: mbx_clear_def bit_set_def fun_eq_iff split: can_loc.split can_field.split)
next
  case (Cons i js)
  show ?case
  proof (cases "bit fl i")
    case False
    then have "filter (bit fl) (i # js) = filter (bit fl) js" by simp
    moreover have "run_state (mini_rx n E (i # js) fl) w = run_state (mini_rx n E js fl) w"
      using False by (cases "fl = 0"; cases js) (simp_all add: bit_and_exp)
    ultimately show ?thesis using Cons.IH [of fl w] Cons.prems by simp
  next
    case True
    then have fl: "fl \<noteq> 0" "fl AND push_bit i 1 \<noteq> 0" by (auto simp: bit_and_exp)
    obtain d1 where 1: "run_state (mini_rx_mailbox n E i) w = (Done (), \<lparr>info = store_all [mbx_obj (val (ctlr w)) i] (info w), ctlr = d1\<rparr>)"
      "val d1 = (mbx_clear REC_CODE_EMPTY [i] (val (ctlr w)))(RINGO_CANIFLAG1 := val (ctlr w) RINGO_CANIFLAG1 AND NOT (push_bit i 1))"
      using rx_mailbox_run [OF assms(1), of w i] Cons.prems True by auto
    let ?w1 = "\<lparr>info = store_all [mbx_obj (val (ctlr w)) i] (info w), ctlr = d1\<rparr>" and ?fl = "fl AND NOT (push_bit i 1)"
    have F: "filter (bit ?fl) js = filter (bit fl) js"
      using Cons.prems(1) by (intro filter_cong) (auto simp: bit_simps dest: bit_imp_le_length)
    have o: "val d1 (Mbx j x) = val (ctlr w) (Mbx j x)" if "j \<in> set js" for j x
      using that Cons.prems(1) by (auto simp: 1(2) mbx_clear_def can_regs split: can_field.splits)
    then have m: "map (mbx_obj (val d1)) (filter (bit fl) js) = map (mbx_obj (val (ctlr w))) (filter (bit fl) js)"
      by (intro map_cong) (auto simp: mbx_obj_def)
    have N: "unat (nrx (info ?w1)) + length (filter (bit ?fl) js) \<le> minican_capacity"
    proof -
      have "unat (nrx (info w)) + length [mbx_obj (val (ctlr w)) i] < 65536" using Cons.prems(3) True unfolding capacity by simp
      from store_nrx [OF this] show ?thesis using Cons.prems(3) True unfolding F by simp
    qed
    have P: "distinct js" "\<forall>k \<in> set js. bit ?fl k \<longrightarrow> val (ctlr ?w1) (Mbx k canmcf) AND MSG_BUF_CODE_MASK \<noteq> MB_CNT_CODE REC_CODE_BUSY"
      using Cons.prems o by (auto simp: bit_simps)
    from Cons.IH [OF P N, unfolded F] obtain d where d: "run_state (mini_rx n E js ?fl) ?w1 =
        (Done (), \<lparr>info = store_all (map (mbx_obj (val d1)) (filter (bit fl) js)) (info ?w1), ctlr = d\<rparr>)"
      "val d = (mbx_clear REC_CODE_EMPTY (filter (bit fl) js) (val d1))
        (RINGO_CANIFLAG1 := val d1 RINGO_CANIFLAG1 AND NOT (bit_set (filter (bit fl) js)))"
      unfolding dev_world.simps by blast
    have "i \<notin> set (filter (bit fl) js)" using Cons.prems(1) by simp
    note c = mbx_clear_snoc [OF this, symmetric, of REC_CODE_EMPTY "val (ctlr w)"]
    have "val d = (mbx_clear REC_CODE_EMPTY (i # filter (bit fl) js) (val (ctlr w)))
        (RINGO_CANIFLAG1 := val (ctlr w) RINGO_CANIFLAG1 AND NOT (bit_set (i # filter (bit fl) js)))"
      unfolding c d(2) 1(2)
      by (auto simp: fun_eq_iff mbx_clear_def bit_set_def can_regs and.assoc split: can_loc.splits can_field.splits)
    then show ?thesis using 1(1) d(1) True fl by (intro exI [of _ d]) (simp add: m)
  qed
qed

lemma rx_full:
  assumes "0 < n" and "distinct js" and "\<forall>i \<in> set js. bit fl i \<longrightarrow> val (ctlr w) (Mbx i canmcf) AND MSG_BUF_CODE_MASK \<noteq> MB_CNT_CODE REC_CODE_BUSY"
    and "minican_capacity < unat (nrx (info w)) + length (filter (bit fl) js)" and "unat (nrx (info w)) \<le> minican_capacity"
  shows "fst (run_state (mini_rx n E js fl) w) = Fault"
  using assms(2-5)
proof (induction js arbitrary: fl w)
  case (Cons i js)
  show ?case
  proof (cases "bit fl i")
    case False
    then have "run_state (mini_rx n E (i # js) fl) w = run_state (mini_rx n E js fl) w"
      using Cons.prems(3,4) by (cases "fl = 0") (simp_all add: bit_and_exp)
    then show ?thesis using Cons.IH [of fl w] Cons.prems False by simp
  next
    case True
    then have fl: "fl \<noteq> 0" "fl AND push_bit i 1 \<noteq> 0" by (auto simp: bit_and_exp)
    have idle: "val (ctlr w) (Mbx i canmcf) AND MSG_BUF_CODE_MASK \<noteq> MB_CNT_CODE REC_CODE_BUSY" using Cons.prems(2) True by simp
    show ?thesis
    proof (cases "unat (nrx (info w)) < minican_capacity")
      case False
      then have "fst (run_state (mini_rx_mailbox n E i) w) = Fault" by (intro rx_mailbox_full [OF assms(1) idle]) simp
      then show ?thesis using fl by (auto split: prod.split)
    next
      case room: True
      obtain d1 where 1: "run_state (mini_rx_mailbox n E i) w = (Done (), \<lparr>info = store_all [mbx_obj (val (ctlr w)) i] (info w), ctlr = d1\<rparr>)"
        "val d1 = (mbx_clear REC_CODE_EMPTY [i] (val (ctlr w)))(RINGO_CANIFLAG1 := val (ctlr w) RINGO_CANIFLAG1 AND NOT (push_bit i 1))"
        using rx_mailbox_run [OF assms(1) idle room] by auto
      let ?w1 = "\<lparr>info = store_all [mbx_obj (val (ctlr w)) i] (info w), ctlr = d1\<rparr>" and ?fl = "fl AND NOT (push_bit i 1)"
      have F: "filter (bit ?fl) js = filter (bit fl) js"
        using Cons.prems(1) by (intro filter_cong) (auto simp: bit_simps dest: bit_imp_le_length)
      have o: "val d1 (Mbx j x) = val (ctlr w) (Mbx j x)" if "j \<in> set js" for j x
        using that Cons.prems(1) by (auto simp: 1(2) mbx_clear_def can_regs split: can_field.splits)
      have N: "unat (nrx (info ?w1)) = unat (nrx (info w)) + 1"
      proof -
        have "unat (nrx (info w)) + length [mbx_obj (val (ctlr w)) i] < 65536" using room unfolding capacity by simp
        from store_nrx [OF this] show ?thesis by simp
      qed
      have "distinct js" "\<forall>k \<in> set js. bit ?fl k \<longrightarrow> val (ctlr ?w1) (Mbx k canmcf) AND MSG_BUF_CODE_MASK \<noteq> MB_CNT_CODE REC_CODE_BUSY"
        "minican_capacity < unat (nrx (info ?w1)) + length (filter (bit ?fl) js)" "unat (nrx (info ?w1)) \<le> minican_capacity"
        using Cons.prems o True room unfolding N F by (auto simp: bit_simps)
      from Cons.IH [OF this] show ?thesis using 1(1) fl by simp
    qed
  qed
qed simp

end

lemma clear_word: "set_mem32 v (MAILBOX i) 0 = v AND NOT (push_bit i 1)"
  by (simp add: set_mem32_def MAILBOX_def)

lemma bit_bit_set: "bit (bit_set js) k \<longleftrightarrow> k \<in> set js \<and> k < 32"
  by (induction js) (auto simp: bit_set_def bit_simps)

context flexcan
begin

lemma tx_done_run:
  "\<exists>d. run_state (mini_tx_mailbox_done E i) w =
      ((), \<lparr>info = (info w)\<lparr>tx_enabled := tx_enabled (info w) AND NOT (push_bit i 1)\<rparr>, ctlr = d\<rparr>) \<and>
    val d = (mbx_clear TRANS_CODE_NOT_READY [32 + i] (val (ctlr w)))(RINGO_CANIFLAG2 := val (ctlr w) RINGO_CANIFLAG2 AND NOT (push_bit i 1))"
  unfolding mini_tx_mailbox_done_def
  by (simp add: run_mbx run_out32 set_port32_def clear_word TX_INIT_MAILBOX_def)
    (auto simp: fun_eq_iff val_wr_flag mbx_clear_def set_mem32_def can_regs split: can_loc.splits can_field.splits)

lemma tx_run:
  assumes "distinct js"
  shows "\<exists>d. run_state (mini_tx E js fl) w =
      ((), \<lparr>info = (info w)\<lparr>tx_enabled := tx_enabled (info w) AND NOT (bit_set (filter (bit fl) js))\<rparr>, ctlr = d\<rparr>) \<and>
    val d = (mbx_clear TRANS_CODE_NOT_READY (map ((+) 32) (filter (bit fl) js)) (val (ctlr w)))
      (RINGO_CANIFLAG2 := val (ctlr w) RINGO_CANIFLAG2 AND NOT (bit_set (filter (bit fl) js)))"
  using assms
proof (induction js arbitrary: fl w)
  case Nil
  show ?case by (rule exI [of _ "ctlr w"]) (simp add: mbx_clear_def bit_set_def fun_eq_iff split: can_loc.split can_field.split)
next
  case (Cons i js)
  show ?case
  proof (cases "bit fl i")
    case False
    then have "filter (bit fl) (i # js) = filter (bit fl) js" by simp
    moreover have "run_state (mini_tx E (i # js) fl) w = run_state (mini_tx E js fl) w"
      using False by (cases "fl = 0"; cases js) (simp_all add: bit_and_exp)
    ultimately show ?thesis using Cons.IH [of fl w] Cons.prems by simp
  next
    case True
    then have fl: "fl \<noteq> 0" "fl AND push_bit i 1 \<noteq> 0" by (auto simp: bit_and_exp)
    let ?fl = "fl AND NOT (push_bit i 1)" and ?F = "filter (bit fl) js"
    obtain d1 where 1: "run_state (mini_tx_mailbox_done E i) w =
        ((), \<lparr>info = (info w)\<lparr>tx_enabled := tx_enabled (info w) AND NOT (push_bit i 1)\<rparr>, ctlr = d1\<rparr>)"
      "val d1 = (mbx_clear TRANS_CODE_NOT_READY [32 + i] (val (ctlr w)))(RINGO_CANIFLAG2 := val (ctlr w) RINGO_CANIFLAG2 AND NOT (push_bit i 1))"
      using tx_done_run by blast
    let ?w1 = "\<lparr>info = (info w)\<lparr>tx_enabled := tx_enabled (info w) AND NOT (push_bit i 1)\<rparr>, ctlr = d1\<rparr>"
    have F: "filter (bit ?fl) js = ?F"
      using Cons.prems(1) by (intro filter_cong) (auto simp: bit_simps dest: bit_imp_le_length)
    have "distinct js" using Cons.prems by simp
    from Cons.IH [OF this, of ?fl ?w1, unfolded F] obtain d where d: "run_state (mini_tx E js ?fl) ?w1 =
        ((), \<lparr>info = (info ?w1)\<lparr>tx_enabled := tx_enabled (info ?w1) AND NOT (bit_set ?F)\<rparr>, ctlr = d\<rparr>)"
      "val d = (mbx_clear TRANS_CODE_NOT_READY (map ((+) 32) ?F) (val d1))
        (RINGO_CANIFLAG2 := val d1 RINGO_CANIFLAG2 AND NOT (bit_set ?F))"
      unfolding dev_world.simps by blast
    have "32 + i \<notin> set (map ((+) 32) ?F)" using Cons.prems(1) by auto
    note c = mbx_clear_snoc [OF this, symmetric, of TRANS_CODE_NOT_READY "val (ctlr w)"]
    have "val d = (mbx_clear TRANS_CODE_NOT_READY (map ((+) 32) (i # ?F)) (val (ctlr w)))
        (RINGO_CANIFLAG2 := val (ctlr w) RINGO_CANIFLAG2 AND NOT (bit_set (i # ?F)))"
      unfolding list.map c d(2) 1(2)
      by (auto simp: fun_eq_iff mbx_clear_def bit_set_def can_regs and.assoc split: can_loc.splits can_field.splits)
    then show ?thesis using 1(1) d(1) True fl by (intro exI [of _ d]) (simp add: bit_set_def and.assoc)
  qed
qed

end

definition flagged :: "u32 \<Rightarrow> nat list" where
  \<comment> \<open>the mailboxes whose flags are set\<close>
  "flagged fl = filter (bit fl) [0..<32]"

lemma flagged_set: "fl AND NOT (bit_set (flagged fl)) = 0"
  by (rule bit_word_eqI) (auto simp: bit_simps bit_bit_set flagged_def)

lemma flagged_tx: "fl AND NOT (bit_set (filter (bit fl) [0..<31])) = fl AND 0x80000000"
  by (rule bits32) (simp add: upt32 bit_simps bit_bit_set)

definition idle_rx :: "(can_loc \<Rightarrow> u32) \<Rightarrow> bool" where
  \<comment> \<open>the controller is not writing to a mailbox whose flag is set\<close>
  "idle_rx V \<longleftrightarrow> (\<forall>i \<in> set (flagged (V RINGO_CANIFLAG1)). V (Mbx i canmcf) AND MSG_BUF_CODE_MASK \<noteq> MB_CNT_CODE REC_CODE_BUSY)"

definition polled :: "(can_loc \<Rightarrow> u32) \<Rightarrow> minican_data \<Rightarrow> minican_data" where
  "polled V m =
     (let tx = bit_set (filter (bit (V RINGO_CANIFLAG2)) [0..<31]);
          m' = store_all (map (mbx_obj V) (flagged (V RINGO_CANIFLAG1))) m
      in m'\<lparr>tx_enabled := tx_enabled m' AND NOT tx\<rparr>)"

definition poll_val :: "(can_loc \<Rightarrow> u32) \<Rightarrow> can_loc \<Rightarrow> u32" where
  "poll_val V =
     (mbx_clear TRANS_CODE_NOT_READY (map ((+) 32) (filter (bit (V RINGO_CANIFLAG2)) [0..<31]))
       (mbx_clear REC_CODE_EMPTY (flagged (V RINGO_CANIFLAG1)) V))
     (RINGO_CANIFLAG1 := 0, RINGO_CANIFLAG2 := V RINGO_CANIFLAG2 AND 0x80000000)"

lemma store_all_keeps:
  "canport (store_all obs m) = canport m" "canmem (store_all obs m) = canmem m" "canport_k (store_all obs m) = canport_k m"
  "canmem_k (store_all obs m) = canmem_k m" "config (store_all obs m) = config m" "nstartupf (store_all obs m) = nstartupf m"
  by (induction obs arbitrary: m) simp_all

lemma poll_run:
  assumes "flexcan (can_at M (canport (info w)) (canmem (info w))) val" and "0 < n" and "idle_rx (val (ctlr w))"
    and "unat (nrx (info w)) + length (flagged (val (ctlr w) RINGO_CANIFLAG1)) \<le> minican_capacity"
  shows "\<exists>d. run_state (mini_poll n M) w = (Done (), \<lparr>info = polled (val (ctlr w)) (info w), ctlr = d\<rparr>) \<and> val d = poll_val (val (ctlr w))"
proof -
  let ?E = "can_at M (canport (info w)) (canmem (info w))" and ?V = "val (ctlr w)" and ?R = "[0..<NUM_RX_MAILBOX + 1]"
  let ?w1 = "w\<lparr>ctlr := rd_st ?E RINGO_CANIFLAG1 (ctlr w)\<rparr>"
  have V1: "val (ctlr ?w1) = ?V" using flexcan.val_rd [OF assms(1)] by simp
  have R: "filter (bit (?V RINGO_CANIFLAG1)) ?R = flagged (?V RINGO_CANIFLAG1)" by (simp add: flagged_def NUM_RX_MAILBOX_def del: upt_Suc)
  have "\<forall>i \<in> set ?R. bit (?V RINGO_CANIFLAG1) i \<longrightarrow> val (ctlr ?w1) (Mbx i canmcf) AND MSG_BUF_CODE_MASK \<noteq> MB_CNT_CODE REC_CODE_BUSY"
    using assms(3) unfolding V1 by (auto simp: idle_rx_def flagged_def NUM_RX_MAILBOX_def)
  moreover have "unat (nrx (info ?w1)) + length (filter (bit (?V RINGO_CANIFLAG1)) ?R) \<le> minican_capacity"
    using assms(4) unfolding R by simp
  note flexcan.rx_run [OF assms(1,2) distinct_upt calculation this, unfolded R V1]
  then obtain d2 where
    2: "run_state (mini_rx n ?E ?R (?V RINGO_CANIFLAG1)) ?w1 =
          (Done (), \<lparr>info = store_all (map (mbx_obj ?V) (flagged (?V RINGO_CANIFLAG1))) (info ?w1), ctlr = d2\<rparr>)"
       "val d2 = (mbx_clear REC_CODE_EMPTY (flagged (?V RINGO_CANIFLAG1)) ?V)(RINGO_CANIFLAG1 := 0)"
    unfolding flagged_set by blast
  let ?w2 = "\<lparr>info = store_all (map (mbx_obj ?V) (flagged (?V RINGO_CANIFLAG1))) (info ?w1), ctlr = d2\<rparr>"
  have f2: "val d2 RINGO_CANIFLAG2 = ?V RINGO_CANIFLAG2" by (simp add: 2(2) mbx_clear_def can_regs)
  let ?w3 = "?w2\<lparr>ctlr := rd_st ?E RINGO_CANIFLAG2 d2\<rparr>"
  have V3: "val (ctlr ?w3) = val d2" using flexcan.val_rd [OF assms(1)] by simp
  from flexcan.tx_run [OF assms(1) distinct_upt, of 0 NUM_TX_MAILBOX "?V RINGO_CANIFLAG2" ?w3] obtain d4 where
    4: "run_state (mini_tx ?E [0..<NUM_TX_MAILBOX] (?V RINGO_CANIFLAG2)) ?w3 =
         ((), \<lparr>info = (info ?w3)\<lparr>tx_enabled := tx_enabled (info ?w3) AND NOT (bit_set (filter (bit (?V RINGO_CANIFLAG2)) [0..<31]))\<rparr>, ctlr = d4\<rparr>)"
       "val d4 = (mbx_clear TRANS_CODE_NOT_READY (map ((+) 32) (filter (bit (?V RINGO_CANIFLAG2)) [0..<31])) (val d2))
         (RINGO_CANIFLAG2 := ?V RINGO_CANIFLAG2 AND 0x80000000)"
    unfolding NUM_TX_MAILBOX_def V3 f2 flagged_tx by blast
  have v4: "val d4 = poll_val ?V"
    unfolding 4(2) 2(2) poll_val_def by (auto simp: fun_eq_iff mbx_clear_def can_regs split: can_loc.splits can_field.splits)
  have "run_state (in32 ?E RINGO_CANIFLAG1) w = (?V RINGO_CANIFLAG1, ?w1)" "run_state (in32 ?E RINGO_CANIFLAG2) ?w2 = (?V RINGO_CANIFLAG2, ?w3)"
    using f2 by (simp_all add: can_regs flexcan.run_reg [OF assms(1)])
  then have "run_state (mini_poll n M) w = (Done (), \<lparr>info = polled ?V (info w), ctlr = d4\<rparr>)"
    using 2(1) 4(1) unfolding mini_poll_def with_can_def by (simp add: polled_def Let_def del: upt_Suc)
  then show ?thesis using v4 by blast
qed


lemma captured_cong: "rxbuf m = rxbuf m' \<Longrightarrow> nrx m = nrx m' \<Longrightarrow> captured m = captured m'"
  by (simp add: captured_def)

lemma store_all_cong:
  "rxbuf m = rxbuf m' \<Longrightarrow> nrx m = nrx m' \<Longrightarrow>
     rxbuf (store_all obs m) = rxbuf (store_all obs m') \<and> nrx (store_all obs m) = nrx (store_all obs m')"
  by (induction obs arbitrary: m m') simp_all

lemma length_flagged: "length (flagged fl) \<le> 32"
  using length_filter_le [of "bit fl" "[0..<32]"] by (simp add: flagged_def)

definition before_poll :: "'d mini_env \<Rightarrow> mdriver_state \<Rightarrow> minican_data \<Rightarrow> minican_data" where
  "before_poll M st m = (case st of
      MDRIVER_STARTUP_PREPARE \<Rightarrow> m\<lparr>nstartupp := nstartupp m + 1, canport_k := callout_io_map M (canport_k m),
        canmem_k := callout_memory_map M (canmem_k m)\<rparr>
    | MDRIVER_STARTUP \<Rightarrow> m\<lparr>nstartup := nstartup m + 1\<rparr>
    | MDRIVER_KERNEL \<Rightarrow> m\<lparr>nkernel := nkernel m + 1\<rparr>
    | MDRIVER_PROCESS \<Rightarrow> m\<lparr>nprocess := nprocess m + 1\<rparr>
    | _ \<Rightarrow> m)"

definition after_poll :: "mdriver_state \<Rightarrow> minican_data \<Rightarrow> minican_data" where
  "after_poll st m = (if st = MDRIVER_STARTUP_FINI
     then m\<lparr>nstartupf := nstartupf m + 1, canport := canport_k m, canmem := canmem_k m\<rparr> else m)"

lemma before_poll_keeps:
  "canport (before_poll M st m) = canport m" "canmem (before_poll M st m) = canmem m" "rxbuf (before_poll M st m) = rxbuf m"
  "nrx (before_poll M st m) = nrx m" "config (before_poll M st m) = config m"
  by (cases st; simp add: before_poll_def)+

definition maps_ok :: "'d mini_env \<Rightarrow> mdriver_state \<Rightarrow> minican_data \<Rightarrow> bool" where
  "maps_ok M st m \<longleftrightarrow> (st = MDRIVER_STARTUP_PREPARE \<longrightarrow>
     callout_io_map M (canport_k m) \<noteq> 0 \<and> callout_memory_map M (canmem_k m) \<noteq> 0)"

lemma mini_can_run:
  assumes "flexcan (can_at M (canport (info w)) (canmem (info w))) val" and "0 < n" and "idle_rx (val (ctlr w))"
    and "st \<notin> {MDRIVER_INIT, MDRIVER_INTR_ATTACH}" and "maps_ok M st (info w)"
    and "unat (nrx (info w)) + length (flagged (val (ctlr w) RINGO_CANIFLAG1)) \<le> minican_capacity"
  shows "\<exists>d. run_state (mini_can n M st) w =
      (Done 0, \<lparr>info = after_poll st (polled (val (ctlr w)) (before_poll M st (info w))), ctlr = d\<rparr>) \<and> val d = poll_val (val (ctlr w))"
proof -
  let ?w = "w\<lparr>info := before_poll M st (info w)\<rparr>"
  obtain d where d: "run_state (mini_poll n M) ?w = (Done (), \<lparr>info = polled (val (ctlr w)) (before_poll M st (info w)), ctlr = d\<rparr>)"
    "val d = poll_val (val (ctlr w))"
    using poll_run [of M ?w val n] assms(1-3,6) by (auto simp: before_poll_keeps)
  have "run_state (mini_can n M st) w = (Done 0, \<lparr>info = after_poll st (polled (val (ctlr w)) (before_poll M st (info w))), ctlr = d\<rparr>)"
    using assms(4,5) d(1)
    by (cases st) (simp_all add: mini_can_def before_poll_def after_poll_def mini_prepare_def maps_ok_def)
  then show ?thesis using d(2) by blast
qed


lemma captured_call:
  assumes "unat (nrx m) + length (flagged (V RINGO_CANIFLAG1)) \<le> minican_capacity"
  shows "captured (after_poll st (polled V (before_poll M st m))) = captured m @ map (mbx_obj V) (flagged (V RINGO_CANIFLAG1))"
proof -
  let ?obs = "map (mbx_obj V) (flagged (V RINGO_CANIFLAG1))"
  have "captured (after_poll st (polled V (before_poll M st m))) = captured (store_all ?obs (before_poll M st m))"
    by (rule captured_cong) (simp_all add: after_poll_def polled_def Let_def)
  also have "\<dots> = captured (store_all ?obs m)"
    using store_all_cong [of "before_poll M st m" m ?obs] by (intro captured_cong) (simp_all add: before_poll_keeps)
  also have "\<dots> = captured m @ ?obs"
    using assms unfolding capacity by (intro captured_store) simp
  finally show ?thesis .
qed


subsection \<open>The handover to the driver\<close>

text \<open>
  The mini-driver at work: it is called again and again, and between two calls the controller does what
  it will. The log has, for every message captured, the mailbox it was in and what the controller held.
\<close>

inductive mini_runs :: "nat \<Rightarrow> 'd mini_env \<Rightarrow> ('d \<Rightarrow> can_loc \<Rightarrow> u32) \<Rightarrow> 'd mini_world \<Rightarrow>
    (nat \<times> (can_loc \<Rightarrow> u32)) list \<Rightarrow> 'd mini_world \<Rightarrow> bool"
  for n :: nat and M :: "'d mini_env" and val :: "'d \<Rightarrow> can_loc \<Rightarrow> u32" and w :: "'d mini_world" where
  start: "mini_runs n M val w [] w"
| call: "mini_runs n M val w l w1 \<Longrightarrow> idle_rx (val (ctlr w1)) \<Longrightarrow> st \<notin> {MDRIVER_INIT, MDRIVER_INTR_ATTACH} \<Longrightarrow>
    run_state (mini_can n M st) w1 = (r, w2) \<Longrightarrow>
    mini_runs n M val w (l @ map (\<lambda>i. (i, val (ctlr w1))) (flagged (val (ctlr w1) RINGO_CANIFLAG1))) w2"
| controller: "mini_runs n M val w l w1 \<Longrightarrow> mini_runs n M val w l (w1\<lparr>ctlr := d\<rparr>)"

definition reachable_at :: "'d mini_env \<Rightarrow> ('d \<Rightarrow> can_loc \<Rightarrow> u32) \<Rightarrow> (u32 \<times> u32) set \<Rightarrow> bool" where
  \<comment> \<open>the controller answers at these addresses, and mapping them for the kernel gives such addresses again\<close>
  "reachable_at M val S \<longleftrightarrow> (\<forall>(p, q) \<in> S. flexcan (can_at M p q) val \<and> p \<noteq> 0 \<and> q \<noteq> 0 \<and>
     (callout_io_map M p, callout_memory_map M q) \<in> S)"

definition addr_ok :: "(u32 \<times> u32) set \<Rightarrow> minican_data \<Rightarrow> bool" where
  "addr_ok S m \<longleftrightarrow> (canport m, canmem m) \<in> S \<and> (canport_k m, canmem_k m) \<in> S"

lemma addr_ok_call:
  assumes "reachable_at M val S" and "addr_ok S m"
  shows "addr_ok S (after_poll st (polled V (before_poll M st m)))"
  using assms
  by (cases st) (auto simp: addr_ok_def reachable_at_def after_poll_def polled_def before_poll_def Let_def store_all_keeps)

lemma runs_captured:
  assumes "mini_runs n M val w l w'" and "reachable_at M val S" and "addr_ok S (info w)" and "0 < n"
    and "captured (info w) = []" and "length l \<le> minican_capacity"
  shows "addr_ok S (info w') \<and> captured (info w') = map (\<lambda>(i, V). mbx_obj V i) l"
  using assms
proof (induction rule: mini_runs.induct)
  case (call l w1 st r w2)
  let ?F = "flagged (val (ctlr w1) RINGO_CANIFLAG1)" and ?m = "after_poll st (polled (val (ctlr w1)) (before_poll M st (info w1)))"
  have IH: "addr_ok S (info w1)" "captured (info w1) = map (\<lambda>(i, V). mbx_obj V i) l" using call.IH call.prems by auto
  then have fx: "flexcan (can_at M (canport (info w1)) (canmem (info w1))) val" and mo: "maps_ok M st (info w1)"
    using call.prems(1) by (auto simp: addr_ok_def reachable_at_def maps_ok_def)
  have "length (captured (info w1)) = length l" using IH(2) by simp
  then have n: "unat (nrx (info w1)) + length ?F \<le> minican_capacity" using call.prems(5) by (simp add: captured_def)
  obtain d where "run_state (mini_can n M st) w1 = (Done 0, \<lparr>info = ?m, ctlr = d\<rparr>)"
    using mini_can_run [OF fx call.prems(3) call.hyps(2,3) mo n] by blast
  then have "info w2 = ?m" using call.hyps(4) by auto
  moreover have "captured ?m = map (\<lambda>(i, V). mbx_obj V i) (l @ map (\<lambda>i. (i, val (ctlr w1))) ?F)"
    using captured_call [where V = "val (ctlr w1)", OF n, of st M] IH(2) by (simp add: comp_def)
  ultimately show ?case using addr_ok_call [OF call.prems(1) IH(1)] by simp
qed auto

text \<open>What the driver finds in the system page and in the memory of the mini-driver.\<close>

definition mini_entry :: "int \<Rightarrow> minican_data \<Rightarrow> mdriver_entry" where
  "mini_entry irq m = \<lparr>md_intr = irq, md_nrx = unat (nrx m), md_msgs = map (rxbuf m) [0..<minican_capacity]\<rparr>"

lemma mini_entry_msgs: "unat (nrx m) \<le> minican_capacity \<Longrightarrow> take (md_nrx (mini_entry irq m)) (md_msgs (mini_entry irq m)) = captured m"
  by (simp add: mini_entry_def captured_def take_map)

lemma mdriver_loop_run:
  assumes "fifo_lib L vw" and "devlist (info w) i = Some c"
  shows "\<exists>w' c'. run_state (mdriver_loop E L False (Some i) obs) w = (Done (), w') \<and>
    devlist (info w') = (devlist (info w))(i \<mapsto> c') \<and>
    vw (free_queue c') = drop (length obs) (vw (free_queue c)) \<and>
    vw (msg_queue c') = vw (msg_queue c) @ map2 (mdriver_msg (iflags (info w))) obs (vw (free_queue c))"
  using assms(2)
proof (induction obs arbitrary: w c)
  case Nil
  then show ?case by (intro exI [of _ w] exI [of _ c]) (simp add: fun_upd_idem)
next
  case (Cons ob obs)
  obtain e q where q: "canmsg_dequeue_element L (free_queue c) = (e, q)" by force
  show ?case
  proof (cases e)
    case None
    let ?c = "c\<lparr>free_queue := q\<rparr>"
    let ?w = "w\<lparr>info := (info w)\<lparr>devlist := (devlist (info w))(i \<mapsto> ?c)\<rparr>\<rparr>"
    have v: "vw (free_queue c) = []" "vw q = []" using fifo_deq_None [OF assms(1)] q None by auto
    have "devlist (info ?w) i = Some ?c" by simp
    from Cons.IH [OF this] obtain w' c' where "run_state (mdriver_loop E L False (Some i) obs) ?w = (Done (), w')"
      "devlist (info w') = (devlist (info ?w))(i \<mapsto> c')" "vw (free_queue c') = drop (length obs) (vw (free_queue ?c))"
      "vw (msg_queue c') = vw (msg_queue ?c) @ map2 (mdriver_msg (iflags (info ?w))) obs (vw (free_queue ?c))"
      by blast
    then show ?thesis using Cons.prems q None v by (intro exI [of _ w'] exI [of _ c']) simp
  next
    case (Some m)
    let ?c = "c\<lparr>free_queue := q, msg_queue := canmsg_queue_element L (msg_queue c) (mdriver_msg (iflags (info w)) ob m)\<rparr>"
    let ?st = "(stats (info w))\<lparr>received_frames := received_frames (stats (info w)) + 1\<rparr>"
    let ?w = "w\<lparr>info := (info w)\<lparr>devlist := (devlist (info w))(i \<mapsto> ?c), stats := ?st\<rparr>\<rparr>"
    have v: "vw (free_queue c) = m # vw q" using fifo_deq_Some [OF assms(1)] q Some by auto
    have "devlist (info ?w) i = Some ?c" by simp
    from Cons.IH [OF this] obtain w' c' where "run_state (mdriver_loop E L False (Some i) obs) ?w = (Done (), w')"
      "devlist (info w') = (devlist (info ?w))(i \<mapsto> c')" "vw (free_queue c') = drop (length obs) (vw (free_queue ?c))"
      "vw (msg_queue c') = vw (msg_queue ?c) @ map2 (mdriver_msg (iflags (info ?w))) obs (vw (free_queue ?c))"
      by blast
    then show ?thesis
      using Cons.prems q Some v by (intro exI [of _ w'] exI [of _ c']) (simp add: fifo_enq [OF assms(1)])
  qed
qed

definition payload :: "can_msg \<Rightarrow> u32 \<times> u32 \<times> u8 \<times> u32" where
  \<comment> \<open>what the driver takes over of every message: eight bytes, length and frame format\<close>
  "payload m = (val32_0 m, val32_1 m, msg_len m, is_extended_mid m)"

lemma payload_agrees: "payload (mdriver_msg fl (mbx_obj V i) e) = payload (rx_value fl i V e')"
  by (simp add: payload_def mdriver_msg_def mbx_obj_def rx_value_def Let_def)

lemma payload_map2:
  "length l \<le> length es \<Longrightarrow>
     map payload (map2 (mdriver_msg fl) (map (\<lambda>(i, V). mbx_obj V i) l) es) = map (\<lambda>(i, V). payload (rx_value fl i V blank_msg)) l"
proof (induction l arbitrary: es)
  case (Cons a l)
  obtain e es' where "es = e # es'" using Cons.prems by (cases es) auto
  then show ?case using Cons payload_agrees [of fl "snd a" "fst a" e blank_msg] by (cases a) simp
qed simp

lemma full_map2:
  assumes "fl AND INFO_FLAGS_RX_FULL_MSG \<noteq> 0" and "length l \<le> length es"
  shows "map (\<lambda>m. (msg_mid m, msg_timestamp m)) (map2 (mdriver_msg fl) (map (\<lambda>(i, V). mbx_obj V i) l) es) =
    map (\<lambda>(i, V). (V (Mbx i canmid), 0)) l"
  using assms(2)
proof (induction l arbitrary: es)
  case (Cons a l)
  obtain e es' where "es = e # es'" using Cons.prems by (cases es) auto
  then show ?case using Cons assms(1) by (cases a) (simp add: mdriver_msg_def mbx_obj_def Let_def)
qed simp

lemma plain_map2:
  assumes "fl AND INFO_FLAGS_RX_FULL_MSG = 0" and "length obs \<le> length es"
  shows "map (\<lambda>m. (msg_mid m, msg_timestamp m)) (map2 (mdriver_msg fl) obs es) =
    map (\<lambda>m. (msg_mid m, msg_timestamp m)) (take (length obs) es)"
  using assms(2)
proof (induction obs arbitrary: es)
  case (Cons ob obs)
  obtain e es' where "es = e # es'" using Cons.prems by (cases es) auto
  then show ?case using Cons assms(1) by (simp add: mdriver_msg_def Let_def)
qed simp

text \<open>
  C14: no message is lost between the mini-driver and the driver. However often the mini-driver has been
  called and whatever the controller did in between, the driver appends to the queue of its first
  receive device one message for each capture, in the order of the captures, with the data, the length and
  the frame format that it would itself have read from the mailbox at the moment of the capture. When the device
  stores full messages (\<open>INFO_FLAGS_RX_FULL_MSG\<close>), each has the identifier of the mailbox too, and the time stamp 0,
  for the mini-driver does not store one; otherwise those two fields are what the free element had. This
  as long as the buffer has room, the device enough free elements, and the messages are not sorted (\<open>-S\<close>).
\<close>

theorem minican_handover:
  assumes "mini_runs n M val w l w'" and "reachable_at M val S" and "addr_ok S (info w)" and "0 < n"
    and "captured (info w) = []" and "length l \<le> minican_capacity"
    and "fifo_lib L vw" and "devlist (info v) (rxmbxstart (info v)) = Some c" and "flags dv AND INIT_FLAGS_MDRIVER_SORT = 0"
    and "length l \<le> length (vw (free_queue c))"
  shows "\<exists>v' c' ms. run_state (mdriver_init_data E L dv (mini_entry irq (info w'))) v = (Done (), v') \<and>
    devlist (info v') = (devlist (info v))(rxmbxstart (info v) \<mapsto> c') \<and>
    vw (msg_queue c') = vw (msg_queue c) @ ms \<and>
    map payload ms = map (\<lambda>(i, V). payload (rx_value (iflags (info v)) i V blank_msg)) l \<and>
    (if iflags (info v) AND INFO_FLAGS_RX_FULL_MSG \<noteq> 0
     then map (\<lambda>m. (msg_mid m, msg_timestamp m)) ms = map (\<lambda>(i, V). (V (Mbx i canmid), 0)) l
     else map (\<lambda>m. (msg_mid m, msg_timestamp m)) ms =
       map (\<lambda>m. (msg_mid m, msg_timestamp m)) (take (length l) (vw (free_queue c))))"
proof -
  from runs_captured [OF assms(1-6)] have c: "captured (info w') = map (\<lambda>(i, V). mbx_obj V i) l" by simp
  then have len: "length (captured (info w')) = length l" by simp
  then have t: "take (md_nrx (mini_entry irq (info w'))) (md_msgs (mini_entry irq (info w'))) = captured (info w')"
    using assms(6) by (intro mini_entry_msgs) (simp add: captured_def)
  let ?ms = "map2 (mdriver_msg (iflags (info v))) (captured (info w')) (vw (free_queue c))"
  obtain v' c' where "run_state (mdriver_loop E L False (Some (rxmbxstart (info v))) (captured (info w'))) v = (Done (), v')"
    "devlist (info v') = (devlist (info v))(rxmbxstart (info v) \<mapsto> c')"
    "vw (msg_queue c') = vw (msg_queue c) @ ?ms"
    using mdriver_loop_run [OF assms(7,8)] by blast
  moreover have "map (\<lambda>m. (msg_mid m, msg_timestamp m)) ?ms =
      map (\<lambda>m. (msg_mid m, msg_timestamp m)) (take (length l) (vw (free_queue c)))"
    if "iflags (info v) AND INFO_FLAGS_RX_FULL_MSG = 0"
    using that assms(10) unfolding len [symmetric] by (intro plain_map2) auto
  ultimately show ?thesis
    using assms(9) payload_map2 [OF assms(10), of "iflags (info v)"] full_map2 [OF _ assms(10), of "iflags (info v)"] c
    by (intro exI [of _ v'] exI [of _ c'] exI [of _ ?ms]) (simp add: mdriver_init_data_def t)
qed

subsection \<open>Initialisation\<close>

definition rx_ide :: "minican_id_t \<Rightarrow> u32" where
  "rx_ide a = (if is_extended a then MB_CNT_IDE else 0)"

fun rx_spec :: "minican_id_t list option \<Rightarrow> nat \<Rightarrow> u32 \<times> u32 \<times> u32" where
  \<comment> \<open>control word, identifier and mask of a receive mailbox\<close>
  "rx_spec l i =
     (if capture_all l then (MB_CNT_CODE REC_CODE_EMPTY, 0,
        if capture_extended l then RINGO_RXMGMASK_RTR else RINGO_RXMGMASK_RTR OR RINGO_RXMGMASK_IDE)
      else case l of
        Some (a # as) \<Rightarrow> (let b = (a # as) ! ((i - 1) mod length (a # as)) in
           (MB_CNT_CODE REC_CODE_EMPTY OR rx_ide b, pack_msg_id b, 0xFFFFFFFF))
      | _ \<Rightarrow> (MB_CNT_CODE REC_CODE_EMPTY, default_mid 0 0x100C0000 (i - 1), 0xFFFFFFFF))"

declare rx_spec.simps [simp del]

definition put_rx :: "(nat \<Rightarrow> u32 \<times> u32 \<times> u32) \<Rightarrow> nat \<Rightarrow> (can_loc \<Rightarrow> u32) \<Rightarrow> can_loc \<Rightarrow> u32" where
  "put_rx g i V = (set_mbx i 1 (\<lambda>_. mbx_spec (fst (g i)) (fst (snd (g i)))) V)(Lam (i * 4) := snd (snd (g i)))"

definition put_tx :: "nat \<Rightarrow> (can_loc \<Rightarrow> u32) \<Rightarrow> can_loc \<Rightarrow> u32" where
  "put_tx i V = set_mbx i 1 (\<lambda>_. mbx_spec (MB_CNT_CODE TRANS_CODE_NOT_READY OR MB_CNT_LENGTH 8) (default_mid 0 0x100C0000 (i - 32))) V"

lemma put_reg: "put_rx g i V (Reg r) = V (Reg r)" "put_tx i V (Reg r) = V (Reg r)"
  by (simp_all add: put_rx_def put_tx_def set_mbx_def)

lemma fold_rx:
  "fold (put_rx g) js V l = (case l of
      Mbx j x \<Rightarrow> if j \<in> set js then mbx_spec (fst (g j)) (fst (snd (g j))) x else V l
    | Lam a \<Rightarrow> if \<exists>i \<in> set js. a = i * 4 then snd (snd (g (a div 4))) else V l
    | Reg _ \<Rightarrow> V l)"
proof (induction js arbitrary: V)
  case (Cons i js)
  show ?case unfolding fold.simps o_apply Cons.IH by (auto simp: put_rx_def set_mbx_def le_less_Suc_eq split: can_loc.splits)
qed (simp split: can_loc.split)

lemma fold_tx:
  "fold put_tx js V l = (case l of
      Mbx j x \<Rightarrow> if j \<in> set js then mbx_spec (MB_CNT_CODE TRANS_CODE_NOT_READY OR MB_CNT_LENGTH 8) (default_mid 0 0x100C0000 (j - 32)) x else V l
    | _ \<Rightarrow> V l)"
proof (induction js arbitrary: V)
  case (Cons i js)
  show ?case unfolding fold.simps o_apply Cons.IH by (auto simp: put_tx_def set_mbx_def le_less_Suc_eq split: can_loc.splits)
qed (simp split: can_loc.split)

lemma mc_write_disabled:
  assumes "\<not> bit v 25" and "bit v 31"
  shows "bit (mc_write v) 20" and "\<not> bit (mc_write v) 25" and "bit v 30 \<Longrightarrow> bit (mc_write v) 30" and "bit v 28 \<Longrightarrow> bit (mc_write v) 28"
  using assms unfolding mc_write_def mc_single Let_def and_push_bit by (auto simp: bit_simps)

lemma empty_ide: "set_mem32 (set_mem32 0 MB_CNT_IDE MB_CNT_IDE) MSG_BUF_CODE_MASK (MB_CNT_CODE REC_CODE_EMPTY) = MB_CNT_CODE REC_CODE_EMPTY OR MB_CNT_IDE"
  "set_mem32 0 MSG_BUF_CODE_MASK (MB_CNT_CODE REC_CODE_EMPTY) = MB_CNT_CODE REC_CODE_EMPTY"
  by (simp_all add: set_mem32_def MB_CNT_CODE_def mcf_bits)

context flexcan
begin

lemma countdown_mc:
  "P (val (ctlr w) RINGO_CANMC) \<Longrightarrow> run_state (countdown t E RINGO_CANMC P) w = (Some t, w\<lparr>ctlr := rd_st E RINGO_CANMC (ctlr w)\<rparr>)"
  using run_reg [of 0 w] by (cases t) (simp_all add: RINGO_CANMC_def)

lemma frozen_lam: "frozen (val d RINGO_CANMC) \<Longrightarrow> val (wr_st E (Lam i) v d) = (val d)(Lam i := v)"
  using and_push_bit [of "val d RINGO_CANMC" 24] by (intro val_wr_lam) (simp add: frozen_def mc_single)

lemma run_each_put:
  assumes "\<And>i w. i \<in> set js \<Longrightarrow> frozen (val (ctlr w) RINGO_CANMC) \<Longrightarrow> \<exists>d. run_state (f i) w = ((), w\<lparr>ctlr := d\<rparr>) \<and> val d = put i (val (ctlr w))"
    and "\<And>i V. put i V RINGO_CANMC = V RINGO_CANMC" and "frozen (val (ctlr w) RINGO_CANMC)"
  shows "\<exists>d. run_state (for_each js f) w = ((), w\<lparr>ctlr := d\<rparr>) \<and> val d = fold put js (val (ctlr w))"
  using assms(1,3)
proof (induction js arbitrary: w)
  case Nil
  show ?case by (rule exI [of _ "ctlr w"]) simp
next
  case (Cons i js)
  obtain d1 where 1: "run_state (f i) w = ((), w\<lparr>ctlr := d1\<rparr>)" "val d1 = put i (val (ctlr w))"
    using Cons.prems by (meson list.set_intros(1))
  have "frozen (val (ctlr (w\<lparr>ctlr := d1\<rparr>)) RINGO_CANMC)" using Cons.prems(2) by (simp add: 1(2) assms(2))
  from Cons.IH [OF Cons.prems(1) this] obtain d where d: "run_state (for_each js f) (w\<lparr>ctlr := d1\<rparr>) = ((), w\<lparr>ctlr := d1\<rparr>\<lparr>ctlr := d\<rparr>)"
    "val d = fold put js (val (ctlr (w\<lparr>ctlr := d1\<rparr>)))" by auto
  then show ?case using 1 by (intro exI [of _ d]) simp
qed

lemma put_all_run:
  assumes "frozen (val (ctlr w) RINGO_CANMC)" and "capture_all l"
  shows "\<exists>d. run_state (rx_all_mailbox E (capture_extended l) i) w = ((), w\<lparr>ctlr := d\<rparr>) \<and> val d = put_rx (rx_spec l) i (val (ctlr w))"
  using assms unfolding rx_all_mailbox_def put_rx_def set_mbx_1
  by (simp add: run_out32 rx_spec.simps) (auto simp: frozen_lam can_regs fun_eq_iff)

lemma put_list_run:
  assumes "frozen (val (ctlr w) RINGO_CANMC)" and "\<not> capture_all (Some (a # as))"
  shows "\<exists>d. run_state (rx_list_mailbox E (a # as) i) w = ((), w\<lparr>ctlr := d\<rparr>) \<and> val d = put_rx (rx_spec (Some (a # as))) i (val (ctlr w))"
proof -
  let ?a = "(a # as) ! ((i - 1) mod length (a # as))"
  have z: "MB_CNT_CODE REC_CODE_NOT_ACTIVE = 0" by (simp add: MB_CNT_CODE_def REC_CODE_NOT_ACTIVE_def)
  have s: "rx_spec (Some (a # as)) i = (MB_CNT_CODE REC_CODE_EMPTY OR rx_ide ?a, pack_msg_id ?a, 0xFFFFFFFF)"
    using assms(2) by (simp add: rx_spec.simps Let_def)
  show ?thesis
    using assms(1) empty_ide unfolding rx_list_mailbox_def put_rx_def set_mbx_1 Let_def s
    by (cases "is_extended ?a"; simp add: run_out32 run_mbx set_port32_def z rx_ide_def set_mem32_def)
      (auto simp: frozen_lam can_regs fun_eq_iff)
qed

lemma put_none_run:
  assumes "frozen (val (ctlr w) RINGO_CANMC)" and "l = None \<or> l = Some []"
  shows "\<exists>d. run_state (rx_none_mailbox E i) w = ((), w\<lparr>ctlr := d\<rparr>) \<and> val d = put_rx (rx_spec l) i (val (ctlr w))"
  using assms unfolding rx_none_mailbox_def put_rx_def set_mbx_1
  by (auto simp: run_out32 rx_spec.simps capture_all_def MB_CNT_CODE_def frozen_lam can_regs fun_eq_iff)

lemma put_tx_run:
  "\<exists>d. run_state (mini_tx_mailbox E i) w = ((), w\<lparr>ctlr := d\<rparr>) \<and> val d = put_tx i (val (ctlr w))"
  unfolding mini_tx_mailbox_def put_tx_def set_mbx_1 by (simp add: run_out32 TX_INIT_MAILBOX_def) (auto simp: fun_eq_iff)

lemma put_rsvd_run:
  "\<exists>d. run_state (mini_rsvd_mailbox E i) w = ((), w\<lparr>ctlr := d\<rparr>) \<and>
     val d = set_mbx i 1 (\<lambda>_. mbx_spec (push_bit 24 (TRANS_CODE_NOT_READY AND 0x0F)) 0) (val (ctlr w))"
  unfolding mini_rsvd_mailbox_def set_mbx_1
  by (simp add: run_out32, rule exI, rule conjI [OF refl]) (simp add: fun_eq_iff)

lemma mini_modes_keeps: "keeps (init_rel val) (mini_modes E c)"
  unfolding mini_modes_def
  by (rule keeps | simp add: can_bits can_regs RINGO_CANMC_IDAM_FormatD_def)+

end

definition rx_imask :: "minican_id_t list option \<Rightarrow> u32" where
  "rx_imask l = (if l = None \<or> l = Some [] then 0 else 0xFFFFFFFE)"

context flexcan
begin

lemma enable_mbx_run:
  "\<exists>d. run_state (enable_mbx_interrupts E) w = ((), w\<lparr>ctlr := d\<rparr>) \<and> (\<forall>j x. val d (Mbx j x) = val (ctlr w) (Mbx j x)) \<and>
     (\<forall>a. val d (Lam a) = val (ctlr w) (Lam a)) \<and> val d RINGO_CANMC = val (ctlr w) RINGO_CANMC \<and> val d RINGO_CANIMASK1 = 0xFFFFFFFE"
  unfolding enable_mbx_interrupts_def
  by (simp add: run_out32, rule exI, rule conjI [OF refl]) (simp add: val_wr_flag val_wr_store is_store_def can_regs)

lemma disable_run:
  "\<exists>d. run_state (disable_interrupts E) w = ((), w\<lparr>ctlr := d\<rparr>) \<and> (\<forall>j x. val d (Mbx j x) = val (ctlr w) (Mbx j x)) \<and>
     (\<forall>a. val d (Lam a) = val (ctlr w) (Lam a)) \<and> val d RINGO_CANMC = val (ctlr w) RINGO_CANMC \<and> val d RINGO_CANIMASK1 = 0"
proof -
  have c: "run_state (in32 E RINGO_CANCTRL) w = (val (ctlr w) RINGO_CANCTRL, w\<lparr>ctlr := rd_st E RINGO_CANCTRL (ctlr w)\<rparr>)" for w :: "'d mini_world"
    using run_reg [of 4 w] by (simp add: RINGO_CANCTRL_def)
  show ?thesis
    unfolding disable_interrupts_def set_port32_def
    by (simp add: run_out32 c, rule exI, rule conjI [OF refl]) (simp add: val_wr_store is_store_def can_regs)
qed

lemma rx_mailboxes_run:
  assumes "frozen (val (ctlr w) RINGO_CANMC)"
  shows "\<exists>d. run_state (mini_rx_mailboxes E c) w = ((), w\<lparr>ctlr := d\<rparr>) \<and>
     (\<forall>j x. val d (Mbx j x) = fold (put_rx (rx_spec (msgs_to_rx c))) [1..<32] (val (ctlr w)) (Mbx j x)) \<and>
     (\<forall>a. val d (Lam a) = fold (put_rx (rx_spec (msgs_to_rx c))) [1..<32] (val (ctlr w)) (Lam a)) \<and>
     val d RINGO_CANMC = val (ctlr w) RINGO_CANMC \<and> val d RINGO_CANIMASK1 = rx_imask (msgs_to_rx c)"
proof -
  let ?l = "msgs_to_rx c"
  have then_do: "\<exists>d. run_state (do { for_each [1..<32] f; g }) w = ((), w\<lparr>ctlr := d\<rparr>) \<and>
     (\<forall>j x. val d (Mbx j x) = fold (put_rx (rx_spec ?l)) [1..<32] (val (ctlr w)) (Mbx j x)) \<and>
     (\<forall>a. val d (Lam a) = fold (put_rx (rx_spec ?l)) [1..<32] (val (ctlr w)) (Lam a)) \<and>
     val d RINGO_CANMC = val (ctlr w) RINGO_CANMC \<and> val d RINGO_CANIMASK1 = rx_imask ?l"
    if f: "\<And>i w. frozen (val (ctlr w) RINGO_CANMC) \<Longrightarrow> \<exists>d. run_state (f i) w = ((), w\<lparr>ctlr := d\<rparr>) \<and> val d = put_rx (rx_spec ?l) i (val (ctlr w))"
      and g: "\<And>w. \<exists>d. run_state g w = ((), w\<lparr>ctlr := d\<rparr>) \<and> (\<forall>j x. val d (Mbx j x) = val (ctlr w) (Mbx j x)) \<and>
        (\<forall>a. val d (Lam a) = val (ctlr w) (Lam a)) \<and> val d RINGO_CANMC = val (ctlr w) RINGO_CANMC \<and> val d RINGO_CANIMASK1 = rx_imask ?l"
    for f and g :: "('d mini_world, unit) state"
  proof -
    have "\<exists>d. run_state (for_each [1..<32] f) w = ((), w\<lparr>ctlr := d\<rparr>) \<and> val d = fold (put_rx (rx_spec ?l)) [1..<32] (val (ctlr w))"
      by (rule run_each_put [OF _ _ assms]) (auto simp: f RINGO_CANMC_def put_reg)
    then obtain d1 where 1: "run_state (for_each [1..<32] f) w = ((), w\<lparr>ctlr := d1\<rparr>)" "val d1 = fold (put_rx (rx_spec ?l)) [1..<32] (val (ctlr w))"
      by blast
    obtain d2 where 2: "run_state g (w\<lparr>ctlr := d1\<rparr>) = ((), w\<lparr>ctlr := d1\<rparr>\<lparr>ctlr := d2\<rparr>)" "\<forall>j x. val d2 (Mbx j x) = val d1 (Mbx j x)"
        "\<forall>a. val d2 (Lam a) = val d1 (Lam a)" "val d2 RINGO_CANMC = val d1 RINGO_CANMC" "val d2 RINGO_CANIMASK1 = rx_imask ?l"
      using g [of "w\<lparr>ctlr := d1\<rparr>"] by auto
    show ?thesis
      using 1 2 by (intro exI [of _ d2]) (simp add: fold_rx RINGO_CANMC_def del: upt_Suc)
  qed
  have N: "[1..<NUM_RX_MAILBOX + 1] = [1..<32]" by (simp add: NUM_RX_MAILBOX_def)
  consider (all) "capture_all ?l" | (list) a as where "\<not> capture_all ?l" "?l = Some (a # as)" | (none) "\<not> capture_all ?l" "?l = None \<or> ?l = Some []"
    by (metis list.exhaust option.exhaust)
  then show ?thesis
  proof cases
    case all
    then have "rx_imask ?l = 0xFFFFFFFE" by (auto simp: rx_imask_def capture_all_def split: option.splits)
    then show ?thesis
      using all then_do [OF put_all_run enable_mbx_run [folded \<open>rx_imask ?l = 0xFFFFFFFE\<close>]] unfolding mini_rx_mailboxes_def Let_def N by simp
  next
    case list
    then have "rx_imask ?l = 0xFFFFFFFE" by (auto simp: rx_imask_def)
    note e = enable_mbx_run [folded this]
    have "\<exists>d. run_state (rx_list_mailbox E (a # as) i) w = ((), w\<lparr>ctlr := d\<rparr>) \<and> val d = put_rx (rx_spec ?l) i (val (ctlr w))"
      if "frozen (val (ctlr w) RINGO_CANMC)" for i and w :: "'d mini_world"
      using put_list_run [OF that] list by simp
    from then_do [OF this e] show ?thesis using list unfolding mini_rx_mailboxes_def Let_def N by simp
  next
    case none
    then have "rx_imask ?l = 0" by (auto simp: rx_imask_def)
    note e = disable_run [folded this]
    from then_do [OF put_none_run [OF _ none(2)] e] show ?thesis using none unfolding mini_rx_mailboxes_def Let_def N by auto
  qed
qed


lemma mini_finish_run:
  assumes "frozen (val (ctlr w) RINGO_CANMC)"
  shows "\<exists>d x. run_state (mini_finish E) w = (Done 0, w\<lparr>ctlr := d\<rparr>) \<and> val d = (val (ctlr w))(RINGO_CANMC := x) \<and> \<not> bit x 24"
proof -
  obtain d1 x1 where 1: "run_state (set_port32 E RINGO_CANMC RINGO_CANMC_MDIS 0) w = ((), w\<lparr>ctlr := d1\<rparr>)"
     "val d1 = (val (ctlr w))(RINGO_CANMC := x1)" "frozen x1" "\<not> bit x1 20"
    using run_enable [of w] assms by (auto simp: frozen_def)
  have s1: "val d1 RINGO_CANMC AND RINGO_CANMC_LPM_ACK = 0" using 1(2,4) and_push_bit [of x1 20] by (simp add: mc_single)
  let ?d = "rd_st E RINGO_CANMC d1"
  obtain d2 x2 where 2: "run_state (leave_freeze E) (w\<lparr>ctlr := ?d\<rparr>) = ((), w\<lparr>ctlr := d2\<rparr>)" "val d2 = (val d1)(RINGO_CANMC := x2)" "\<not> bit x2 24"
    using leave_freeze_run [of "w\<lparr>ctlr := ?d\<rparr>"] 1(2,3) by (auto simp: frozen_def)
  have "run_state (mini_finish E) w = run_state (do { leave_freeze E; v \<leftarrow> in32 E RINGO_CANMC;
      ret (Done (if v AND RINGO_CANMC_FRZACK = 0 then 0 else - 1)) }) (w\<lparr>ctlr := ?d\<rparr>)"
    using 1(1) countdown_mc [of "\<lambda>v. v AND RINGO_CANMC_LPM_ACK = 0" "w\<lparr>ctlr := d1\<rparr>" RETRY_TIMEOUT] s1
    by (simp add: mini_finish_def leave_freeze_def split: prod.split)
  moreover have "val d2 RINGO_CANMC AND RINGO_CANMC_FRZACK = 0" using 2(2,3) and_push_bit [of x2 24] by (simp add: mc_single)
  ultimately have "run_state (mini_finish E) w = (Done 0, w\<lparr>ctlr := rd_st E RINGO_CANMC d2\<rparr>)"
    using 2(1) run_reg [of 0 "w\<lparr>ctlr := d2\<rparr>"] by (simp add: RINGO_CANMC_def)
  then show ?thesis using 2(2,3) 1(2) by (intro exI [of _ "rd_st E RINGO_CANMC d2"] exI [of _ x2]) simp
qed

lemma mini_reset_run:
  "\<exists>d. run_state (mini_program E c) w = run_state (mini_setup E c) (w\<lparr>ctlr := d\<rparr>) \<and> frozen (val d RINGO_CANMC)"
proof -
  obtain d1 x1 where 1: "run_state (set_port32 E RINGO_CANMC RINGO_CANMC_SOFTRST RINGO_CANMC_SOFTRST) w = ((), w\<lparr>ctlr := d1\<rparr>)"
     "val d1 RINGO_CANMC = x1" "\<not> bit x1 25" "bit x1 30" "bit x1 28"
    using run_soft_reset by blast
  have s1: "val d1 RINGO_CANMC AND RINGO_CANMC_SOFTRST = 0" using 1(2,3) and_push_bit [of x1 25] by (simp add: mc_single)
  let ?w1 = "w\<lparr>ctlr := rd_st E RINGO_CANMC d1\<rparr>"
  let ?x = "(x1 AND NOT RINGO_CANMC_MDIS) OR (RINGO_CANMC_MDIS AND RINGO_CANMC_MDIS)"
  have b: "\<not> bit ?x 25" "bit ?x 31" "bit ?x 30" "bit ?x 28" using 1 by (simp_all add: mc_single bit_simps)
  obtain d2 where 2: "run_state (set_port32 E RINGO_CANMC RINGO_CANMC_MDIS RINGO_CANMC_MDIS) ?w1 = ((), w\<lparr>ctlr := d2\<rparr>)"
     "val d2 RINGO_CANMC = mc_write ?x"
    using run_port_mc [of ?w1 RINGO_CANMC_MDIS RINGO_CANMC_MDIS] 1(2,3) by (auto simp: mc_single bit_simps)
  note b2 = mc_write_disabled [OF b(1,2)]
  have s2: "val d2 RINGO_CANMC AND RINGO_CANMC_LPM_ACK = RINGO_CANMC_LPM_ACK"
    using and_push_bit_eq [OF b2(1)] 2(2) by (simp add: mc_single)
  let ?w2 = "w\<lparr>ctlr := rd_st E RINGO_CANMC d2\<rparr>"
  obtain d3 x3 where 3: "run_state (set_port32 E RINGO_CANMC RINGO_CANMC_MDIS 0) ?w2 = ((), w\<lparr>ctlr := d3\<rparr>)"
     "val d3 RINGO_CANMC = x3" "frozen x3"
    using run_enable [of ?w2] 2(2) b2 b by auto
  have s3: "val d3 RINGO_CANMC AND RINGO_CANMC_FRZACK = RINGO_CANMC_FRZACK"
    using 3(2,3) and_push_bit_eq [of x3 24] by (simp add: mc_single frozen_def)
  note cd = countdown_mc [of _ "w\<lparr>ctlr := _\<rparr>"]
  show ?thesis
    using 1(1) 2(1) 3 s1 s2 s3 by (intro exI [of _ "rd_st E RINGO_CANMC d3"]) (simp add: mini_program_def cd)
qed


end

lemma init_rel_world: "init_rel val w w' \<Longrightarrow> w' = w\<lparr>ctlr := ctlr w'\<rparr>"
  by (cases w; cases w') (simp add: init_rel_def)

context flexcan
begin

lemma mini_setup_run:
  assumes "frozen (val (ctlr w) RINGO_CANMC)"
  shows "\<exists>d. run_state (mini_setup E c) w = (Done 0, w\<lparr>ctlr := d\<rparr>) \<and>
    (\<forall>i \<in> {1..31}. (val d (Mbx i canmcf), val d (Mbx i canmid), val d (Lam (i * 4))) = rx_spec (msgs_to_rx c) i) \<and>
    (\<forall>i \<in> {32..62}. val d (Mbx i canmcf) = 0x08080000 \<and> val d (Mbx i canmid) = default_mid 0 0x100C0000 (i - 32)) \<and>
    (\<forall>i \<in> {0, 63}. val d (Mbx i canmcf) = 0x08000000) \<and>
    val d RINGO_CANIMASK1 = rx_imask (msgs_to_rx c) \<and> val d RINGO_CANMC AND RINGO_CANMC_FRZACK = 0"
proof -
  let ?g = "rx_spec (msgs_to_rx c)"
  obtain w1 where 1: "run_state (mini_modes E c) w = ((), w1)" by (cases "run_state (mini_modes E c) w") auto
  have r1: "w1 = w\<lparr>ctlr := ctlr w1\<rparr>" "frozen (val (ctlr w1) RINGO_CANMC)"
    using keepsD [OF mini_modes_keeps 1] assms init_rel_world by (auto simp: init_rel_def)
  obtain d2 where 2: "run_state (mini_rx_mailboxes E c) w1 = ((), w1\<lparr>ctlr := d2\<rparr>)"
     "\<And>j x. val d2 (Mbx j x) = fold (put_rx ?g) [1..<32] (val (ctlr w1)) (Mbx j x)"
     "\<And>a. val d2 (Lam a) = fold (put_rx ?g) [1..<32] (val (ctlr w1)) (Lam a)"
     "val d2 RINGO_CANMC = val (ctlr w1) RINGO_CANMC" "val d2 RINGO_CANIMASK1 = rx_imask (msgs_to_rx c)"
    using rx_mailboxes_run [OF r1(2), of c] by blast
  let ?w2 = "w1\<lparr>ctlr := d2\<rparr>"
  have T: "[TX_INIT_MAILBOX..<63] = [32..<63]" by (simp only: TX_INIT_MAILBOX_def)
  have "\<exists>d. run_state (for_each [32..<63] (mini_tx_mailbox E)) ?w2 = ((), ?w2\<lparr>ctlr := d\<rparr>) \<and> val d = fold put_tx [32..<63] (val (ctlr ?w2))"
    by (rule run_each_put) (use put_tx_run r1(2) 2(4) in \<open>auto simp: RINGO_CANMC_def put_reg\<close>)
  then obtain d3 where 3: "run_state (for_each [TX_INIT_MAILBOX..<63] (mini_tx_mailbox E)) ?w2 = ((), ?w2\<lparr>ctlr := d3\<rparr>)"
      "val d3 = fold put_tx [32..<63] (val (ctlr ?w2))" unfolding T by blast
  let ?r = "\<lambda>i. set_mbx i 1 (\<lambda>_. mbx_spec (push_bit 24 (TRANS_CODE_NOT_READY AND 0x0F)) 0)"
  obtain d4 where 4: "run_state (mini_rsvd_mailbox E 0) (w1\<lparr>ctlr := d3\<rparr>) = ((), w1\<lparr>ctlr := d3\<rparr>\<lparr>ctlr := d4\<rparr>)" "val d4 = ?r 0 (val (ctlr (w1\<lparr>ctlr := d3\<rparr>)))"
    using put_rsvd_run by blast
  obtain d5 where 5: "run_state (mini_rsvd_mailbox E CAN_LAST_MAILBOX_INDEX) (w1\<lparr>ctlr := d4\<rparr>) = ((), w1\<lparr>ctlr := d4\<rparr>\<lparr>ctlr := d5\<rparr>)"
      "val d5 = ?r CAN_LAST_MAILBOX_INDEX (val (ctlr (w1\<lparr>ctlr := d4\<rparr>)))"
    using put_rsvd_run by blast
  have v5: "val d5 = ?r 63 (?r 0 (fold put_tx [32..<63] (val d2)))"
    by (simp add: 5(2) 4(2) 3(2) CAN_LAST_MAILBOX_INDEX_def del: upt_rec_numeral)
  have reg: "val d5 (Reg r) = val d2 (Reg r)" for r unfolding v5 set_mbx_def fold_tx by simp
  then have "frozen (val (ctlr (w1\<lparr>ctlr := d5\<rparr>)) RINGO_CANMC)" using r1(2) 2(4) by (simp add: RINGO_CANMC_def)
  from mini_finish_run [OF this] obtain d x where
    6: "run_state (mini_finish E) (w1\<lparr>ctlr := d5\<rparr>) = (Done 0, w1\<lparr>ctlr := d5\<rparr>\<lparr>ctlr := d\<rparr>)" "val d = (val d5)(RINGO_CANMC := x)" "\<not> bit x 24" by auto
  have m: "val d (Mbx i y) = ?r 63 (?r 0 (fold put_tx [32..<63] (val d2))) (Mbx i y)" for i y unfolding 6(2) v5 by (simp only: fun_upd_apply RINGO_CANMC_def can_loc.distinct if_False)
  have lam: "val d (Lam a) = val d2 (Lam a)" for a unfolding 6(2) v5 set_mbx_def fold_tx by (simp add: RINGO_CANMC_def)
  have "run_state (mini_setup E c) w = (Done 0, w1\<lparr>ctlr := d\<rparr>)" using 1 2(1) 3(1) 4(1) 5(1) 6(1) by (simp add: mini_setup_def)
  moreover have "w1\<lparr>ctlr := d\<rparr> = w\<lparr>ctlr := d\<rparr>" using arg_cong [OF r1(1), of "\<lambda>w. w\<lparr>ctlr := d\<rparr>"] by simp
  moreover have "(val d (Mbx i canmcf), val d (Mbx i canmid), val d (Lam (i * 4))) = ?g i" if "i \<in> {1..31}" for i
    using that unfolding m lam set_mbx_def fold_tx 2(2,3) fold_rx by (cases "?g i") (auto simp del: upt_rec_numeral)
  moreover have "val d (Mbx i canmcf) = 0x08080000 \<and> val d (Mbx i canmid) = default_mid 0 0x100C0000 (i - 32)" if "i \<in> {32..62}" for i
    using that unfolding m set_mbx_def fold_tx by (auto simp: mini_consts mcf_bits simp del: upt_rec_numeral)
  moreover have "val d (Mbx i canmcf) = 0x08000000" if "i \<in> {0, 63}" for i
    using that unfolding m set_mbx_def fold_tx by (auto simp: mcf_bits simp del: upt_rec_numeral)
  moreover have "val d RINGO_CANIMASK1 = rx_imask (msgs_to_rx c)" using 2(5) reg by (simp add: 6(2) can_regs)
  moreover have "val d RINGO_CANMC AND RINGO_CANMC_FRZACK = 0" using 6(2,3) and_push_bit [of x 24] by (auto simp: mc_single)
  ultimately show ?thesis by (intro exI [of _ d]) auto
qed

end

subsection \<open>The first messages\<close>

definition bus_idle :: "(can_loc \<Rightarrow> u32) \<Rightarrow> bool" where
  "bus_idle V \<longleftrightarrow> V RINGO_CANESR AND RINGO_CANES_IDLE \<noteq> 0"

definition quiet :: "'d can_env \<Rightarrow> ('d \<Rightarrow> can_loc \<Rightarrow> u32) \<Rightarrow> bool" where
  \<comment> \<open>nothing is on the bus: neither a reset nor a change of mode makes the controller report otherwise\<close>
  "quiet E val \<longleftrightarrow> (\<forall>d v. bus_idle (val d) \<longrightarrow> bus_idle (val (wr_st E RINGO_CANMC v d)))"

definition idle_rel :: "('d \<Rightarrow> can_loc \<Rightarrow> u32) \<Rightarrow> ('i, 'd) dev_world \<Rightarrow> ('i, 'd) dev_world \<Rightarrow> bool" where
  "idle_rel val w w' \<longleftrightarrow> (bus_idle (val (ctlr w)) \<longrightarrow> bus_idle (val (ctlr w')))"

lemma idle_preord [keeps]: "preord (idle_rel val)"
  by (auto simp: preord_def idle_rel_def intro!: reflpI transpI)

lemma keeps_countdown [keeps]: "keeps R (in32 E l) \<Longrightarrow> keeps R (countdown t E l P)"
  by (induction t) (simp_all add: keeps_ret_of keeps_bind keeps_if)

context flexcan
begin

lemma idle_in [keeps]: "keeps (idle_rel val) (in32 E l)"
  by (rule keepsI) (auto intro: keeps simp: idle_rel_def snd_in32)

lemma idle_out:
  assumes "quiet E val"
  shows "keeps (idle_rel val) (out32 E l v)"
proof (rule keepsI)
  show "preord (idle_rel val)" by (rule keeps)
  fix w :: "('i, 'd) dev_world"
  have "bus_idle (val (wr_st E l v d))" if "bus_idle (val d)" for d
  proof (cases "l = RINGO_CANMC \<or> l = RINGO_CANESR")
    case False
    then have "val (wr_st E l v d) RINGO_CANESR = val d RINGO_CANESR" by (auto simp: wr_st_def write_keeps)
    then show ?thesis using that by (simp add: bus_idle_def)
  next
    case True
    moreover have "bus_idle (val (wr_st E RINGO_CANESR v d))"
    proof -
      have "(0x30007 :: u32) AND 0x80 = 0" by simp
      from not_mask_keeps [OF this] have "NOT (v AND 0x30007) AND (0x80::u32) = 0x80" .
      then show ?thesis using that by (simp add: bus_idle_def wr_st_def write_esr RINGO_CANES_IDLE_def and.assoc)
    qed
    ultimately show ?thesis using assms that by (auto simp: quiet_def)
  qed
  then show "idle_rel val w (snd (run_state (out32 E l v) w))" by (simp add: idle_rel_def run_out32)
qed

lemma program_idle:
  assumes "quiet E val"
  shows "keeps (idle_rel val) (mini_program E c)"
proof -
  note k = keeps idle_out [OF assms]
  have m: "keeps (idle_rel val) (mini_modes E c)" unfolding mini_modes_def by (rule k)+
  have p: "keeps (idle_rel val) (enable_mbx_interrupts E)" "keeps (idle_rel val) (disable_interrupts E)"
    "keeps (idle_rel val) (rx_all_mailbox E b i)" "keeps (idle_rel val) (rx_list_mailbox E l i)" "keeps (idle_rel val) (rx_none_mailbox E i)"
    "keeps (idle_rel val) (mini_tx_mailbox E i)" "keeps (idle_rel val) (mini_rsvd_mailbox E i)" "keeps (idle_rel val) (mini_finish E)" for b l i
    unfolding enable_mbx_interrupts_def disable_interrupts_def rx_all_mailbox_def rx_list_mailbox_def rx_none_mailbox_def
      mini_tx_mailbox_def mini_rsvd_mailbox_def mini_finish_def Let_def
    by (rule k)+
  have r: "keeps (idle_rel val) (mini_rx_mailboxes E c)"
    unfolding mini_rx_mailboxes_def Let_def
    by (auto intro!: k p split: option.split list.split)
  show ?thesis
    unfolding mini_program_def mini_setup_def by (rule k m p r)+
qed

end

definition tx_spec :: "minican_msg_t \<Rightarrow> can_field \<Rightarrow> u32" where
  \<comment> \<open>a mailbox with a first message in it, to be sent once\<close>
  "tx_spec m x = (case x of
      canmcf \<Rightarrow> MB_CNT_CODE TRANS_CODE_TRANSMIT_ONCE OR (if is_extended (arb m) then MB_CNT_IDE else 0) OR MB_CNT_LENGTH (mlen m)
    | canmid \<Rightarrow> pack_msg_id (arb m) | canmdl \<Rightarrow> pack_data (mdat m) 0 | canmdh \<Rightarrow> pack_data (mdat m) 4)"

lemma tx_code: 
  "set_mem32 (set_mem32 (set_mem32 (set_mem32 (set_mem32 (set_mem32 0x08080000 MSG_BUF_CODE_MASK (MB_CNT_CODE TRANS_CODE_NOT_READY)) MB_CNT_RTR 0)
     MB_CNT_SRR 0) MB_CNT_IDE ide) MSG_BUF_DLC_MASK (MB_CNT_LENGTH l)) MSG_BUF_CODE_MASK (MB_CNT_CODE TRANS_CODE_TRANSMIT_ONCE) =
   MB_CNT_CODE TRANS_CODE_TRANSMIT_ONCE OR ide OR MB_CNT_LENGTH l" if "ide = 0 \<or> ide = MB_CNT_IDE"
  using that
  by (elim disjE) (rule bits32; simp add: upt32 set_mem32_def mini_consts mcf_bits bit_simps)+

lemma rsvd_code: "set_mem32 0x08000000 MSG_BUF_CODE_MASK (MB_CNT_CODE TRANS_CODE_NOT_READY) = 0x08000000"
  by (simp add: set_mem32_def MB_CNT_CODE_def mcf_bits)

context flexcan
begin

lemma can_tx_run:
  assumes "0 < n" and "bus_idle (val (ctlr w))" and "i \<noteq> 0"
    and "val (ctlr w) (Mbx i canmcf) = 0x08080000" and "val (ctlr w) (Mbx 0 canmcf) = 0x08000000"
  shows "\<exists>d. run_state (can_tx n E m i) w = (True, w\<lparr>ctlr := d\<rparr>) \<and> val d = set_mbx i 1 (\<lambda>_. tx_spec m) (val (ctlr w))"
proof -
  have ne: "RINGO_CANESR \<noteq> RINGO_CANTIMER" "\<And>i. RINGO_CANESR \<noteq> Lam i" "\<And>i x. Mbx i x \<noteq> RINGO_CANTIMER"
    by (simp_all add: can_regs)
  have run: "run_state (spin n E RINGO_CANESR (\<lambda>v. v AND RINGO_CANES_IDLE \<noteq> 0)) w =
      (Some (val (ctlr w) RINGO_CANESR), w\<lparr>ctlr := rd_st E RINGO_CANESR (ctlr w)\<rparr>)"
    using assms(1,2) by (simp add: run_spin bus_idle_def ne)
  note c = tx_code [of 0] tx_code [of MB_CNT_IDE]
  show ?thesis
    using assms(3-5) unfolding can_tx_def Let_def set_mbx_1
    by (cases "is_extended (arb m)"; simp add: run run_mbx run_out32 set_port32_def flip: set_mem32_def;
      intro exI conjI [OF refl]; auto simp: c rsvd_code tx_spec_def fun_eq_iff)
qed

lemma init_tx_run:
  assumes "0 < n" and "bus_idle (val (ctlr w))" and "\<forall>k \<in> {32 + i..62}. val (ctlr w) (Mbx k canmcf) = 0x08080000"
    and "val (ctlr w) (Mbx 0 canmcf) = 0x08000000"
  shows "\<exists>d te. run_state (init_tx n E i ms) w = (True, \<lparr>info = (info w)\<lparr>tx_enabled := te\<rparr>, ctlr = d\<rparr>) \<and>
    (\<forall>k < 32. bit te k \<longleftrightarrow> bit (tx_enabled (info w)) k \<or> i \<le> k \<and> k < i + length ms \<and> k < 31) \<and>
    val d = set_mbx (32 + i) (min (length ms) (31 - i)) (\<lambda>k. tx_spec (ms ! k)) (val (ctlr w))"
  using assms(2-4)
proof (induction ms arbitrary: i w)
  case Nil
  show ?case
    by (rule exI [of _ "ctlr w"], rule exI [of _ "tx_enabled (info w)"])
      (auto simp: set_mbx_def fun_eq_iff split: can_loc.split)
next
  case (Cons m ms)
  show ?case
  proof (cases "i < 31")
    case False
    then have "set_mbx (32 + i) (min (length (m # ms)) (31 - i)) (\<lambda>k. tx_spec ((m # ms) ! k)) (val (ctlr w)) = val (ctlr w)"
      by (auto simp: set_mbx_def fun_eq_iff split: can_loc.split)
    then show ?thesis using False
      by (intro exI [of _ "ctlr w"] exI [of _ "tx_enabled (info w)"]) (auto simp: NUM_TX_MAILBOX_def)
  next
    case True
    let ?te = "set_mem32 (tx_enabled (info w)) (MAILBOX i) (MAILBOX i)"
    let ?w = "w\<lparr>info := (info w)\<lparr>tx_enabled := ?te\<rparr>\<rparr>"
    have te: "bit ?te k \<longleftrightarrow> bit (tx_enabled (info w)) k \<or> k = i" if "k < 32" for k
      using that True by (auto simp: set_mem32_def MAILBOX_def bit_simps)
    obtain d1 where 1: "run_state (can_tx n E m (32 + i)) ?w = (True, ?w\<lparr>ctlr := d1\<rparr>)"
      "val d1 = set_mbx (32 + i) 1 (\<lambda>_. tx_spec m) (val (ctlr w))"
      using can_tx_run [OF assms(1), of ?w "32 + i" m] Cons.prems True by auto
    let ?w1 = "?w\<lparr>ctlr := d1\<rparr>"
    have P: "bus_idle (val (ctlr ?w1))" "\<forall>k \<in> {32 + (i + 1)..62}. val (ctlr ?w1) (Mbx k canmcf) = 0x08080000"
      "val (ctlr ?w1) (Mbx 0 canmcf) = 0x08000000"
      using Cons.prems by (auto simp: 1(2) set_mbx_def bus_idle_def can_regs)
    obtain d te' where d: "run_state (init_tx n E (i + 1) ms) ?w1 = (True, \<lparr>info = (info ?w1)\<lparr>tx_enabled := te'\<rparr>, ctlr = d\<rparr>)"
      "\<forall>k < 32. bit te' k \<longleftrightarrow> bit (tx_enabled (info ?w1)) k \<or> i + 1 \<le> k \<and> k < i + 1 + length ms \<and> k < 31"
      "val d = set_mbx (32 + (i + 1)) (min (length ms) (31 - (i + 1))) (\<lambda>k. tx_spec (ms ! k)) (val (ctlr ?w1))"
      using Cons.IH [OF P] by blast
    have V: "val d = set_mbx (32 + i) (min (length (m # ms)) (31 - i)) (\<lambda>k. tx_spec ((m # ms) ! k)) (val (ctlr w))"
    proof
      fix l
      show "val d l = set_mbx (32 + i) (min (length (m # ms)) (31 - i)) (\<lambda>k. tx_spec ((m # ms) ! k)) (val (ctlr w)) l"
        using True unfolding d(3) by (auto simp: 1(2) set_mbx_def nth_Cons' split: can_loc.split)
    qed
    have "run_state (init_tx n E i (m # ms)) w = (True, \<lparr>info = (info w)\<lparr>tx_enabled := te'\<rparr>, ctlr = d\<rparr>)"
      using True 1(1) d(1) by (simp add: NUM_TX_MAILBOX_def TX_INIT_MAILBOX_def)
    moreover have "\<forall>k < 32. bit te' k \<longleftrightarrow> bit (tx_enabled (info w)) k \<or> i \<le> k \<and> k < i + length (m # ms) \<and> k < 31"
      using d(2) te True by (auto simp: le_less_Suc_eq)
    ultimately show ?thesis using V by blast
  qed
qed

end



definition demo_mini_env :: "(can_loc \<Rightarrow> u32) mini_env" where
  "demo_mini_env = \<lparr>can_at = (\<lambda>_ _. sim_env), callout_io_map = (\<lambda>p. p), callout_memory_map = (\<lambda>p. p)\<rparr>"

definition demo_config :: minican_config_t where
  \<comment> \<open>the configuration of the board: two identifiers to receive, two messages to send\<close>
  "demo_config = \<lparr>can_base = 0x02090000, canmem_base = 0x02090080, can_irq = 43, rate = MINICAN_BAUD_50K,
     msgs_to_rx = Some [\<lparr>arb_id = 0x700, is_extended = False\<rparr>, \<lparr>arb_id = 0x1230, is_extended = True\<rparr>],
     init_tx_msgs = Some
       [\<lparr>arb = \<lparr>arb_id = 0x503, is_extended = False\<rparr>, mlen = 8, mdat = (!) [0x00, 0x11, 0x22, 0x33, 0x44, 0x55, 0x66, 0x77]\<rparr>,
        \<lparr>arb = \<lparr>arb_id = 0x1200, is_extended = True\<rparr>, mlen = 4, mdat = (!) [0x88, 0x99, 0xAA, 0xBB, 0, 0, 0, 0]\<rparr>]\<rparr>"

definition demo_mini :: "(can_loc \<Rightarrow> u32) \<Rightarrow> (can_loc \<Rightarrow> u32) mini_world" where
  "demo_mini d = \<lparr>info = \<lparr>canport = 0x02090000, canport_k = 0x02090000, canmem = 0x02090080, canmem_k = 0x02090080,
     nstartup = 0, nstartupp = 0, nstartupf = 0, nkernel = 0, nprocess = 0, nrx = 0, tx_enabled = 0,
     rxbuf = (\<lambda>_. \<lparr>o_mcf = 0, o_mid = 0, o_mdl = 0, o_mdh = 0\<rparr>), config = demo_config, mdriver_max = 0\<rparr>, ctlr = d\<rparr>"

lemma demo_mini_simps: "ctlr (demo_mini d) = d" "captured (info (demo_mini d)) = []" "nrx (info (demo_mini d)) = 0"
  "can_at demo_mini_env p q = sim_env" "config (info (demo_mini d)) = demo_config"
  by (simp_all add: demo_mini_def captured_def demo_mini_env_def)

lemma rx_demo_flagged: "rx_demo RINGO_CANIFLAG1 = 0xC" "flagged 0xC = [2, 3]" "idle_rx rx_demo"
  by (simp_all add: rx_demo_def flagged_def idle_rx_def can_regs upt32 MB_CNT_CODE_def mcf_bits)



theorem minican_handover_witness:
  "\<exists>w' v' c'. run_state (mini_can 1 demo_mini_env MDRIVER_KERNEL) (demo_mini rx_demo) = (Done 0, w') \<and>
     run_state (mdriver_init_data sim_env list_lib default_init (mini_entry 43 (info w'))) (demo_can (\<lambda>_. 0)) = (Done (), v') \<and>
     devlist (info v') 1 = Some c' \<and> map payload (msg_queue c') = [(0x04030201, 0x08070605, 8, 0), (0, 0, 0, 0)]"
proof -
  let ?w = "demo_mini rx_demo" and ?v = "demo_can (\<lambda>_. 0)" and ?c = "the (devlist (info (demo_can (\<lambda>_. 0))) 1)" and ?S = "{(0x02090000, 0x02090080)}"
  have f: "flexcan (can_at demo_mini_env (canport (info ?w)) (canmem (info ?w))) (\<lambda>d. d)"
    using sim.flexcan_axioms by (simp add: demo_mini_simps)
  obtain w' where w': "run_state (mini_can 1 demo_mini_env MDRIVER_KERNEL) ?w = (Done 0, w')"
    using mini_can_run [OF f, of 1 MDRIVER_KERNEL] rx_demo_flagged by (auto simp: demo_mini_simps maps_ok_def capacity)
  have r: "mini_runs 1 demo_mini_env (\<lambda>d. d) ?w ([] @ map (\<lambda>i. (i, ctlr ?w)) (flagged (ctlr ?w RINGO_CANIFLAG1))) w'"
    by (rule mini_runs.call [OF mini_runs.start _ _ w']) (simp_all add: demo_mini_simps rx_demo_flagged)
  have S: "reachable_at demo_mini_env (\<lambda>d. d) ?S" "addr_ok ?S (info ?w)"
    using sim.flexcan_axioms by (simp_all add: reachable_at_def demo_mini_simps addr_ok_def) (simp_all add: demo_mini_env_def demo_mini_def)
  have c: "devlist (info ?v) (rxmbxstart (info ?v)) = Some ?c" "length (free_queue ?c) = 100" "msg_queue ?c = []"
    using demo_can_rx [of 1 "\<lambda>_. 0"] by (simp_all add: demo_can_simps)
  have s: "flags default_init AND INIT_FLAGS_MDRIVER_SORT = 0" by (simp add: default_init_def set_bitrate_def Let_def flag_bits)
  obtain v' c' ms where "run_state (mdriver_init_data sim_env list_lib default_init (mini_entry 43 (info w'))) ?v = (Done (), v')"
    "devlist (info v') = (devlist (info ?v))(rxmbxstart (info ?v) \<mapsto> c')"
    "msg_queue c' = msg_queue ?c @ ms" "map payload ms = map (\<lambda>(i, V). payload (rx_value (iflags (info ?v)) i V blank_msg)) ([] @ map (\<lambda>i. (i, ctlr ?w)) (flagged (ctlr ?w RINGO_CANIFLAG1)))"
    using minican_handover [OF r S zero_less_one _ _ list_lib_fifo c(1) s, of sim_env 43] c(2)
    by (auto simp: demo_mini_simps rx_demo_flagged minican_capacity_def MINI_DATA_BUF_SIZE_def)
  then show ?thesis
    using w' c(3)
    by (intro exI [of _ w'] exI [of _ v'] exI [of _ c'])
      (simp add: demo_mini_simps rx_demo_flagged demo_can_simps payload_def rx_value_def rx_demo_def mcf_bits flag_bits swap32_def
        ENDIAN_SWAP32_def can_regs)
qed

end
