(* ===== verification/Ipl_Image.thy ===== *)
theory Ipl_Image
  imports Strings "HOL-Library.Monad_Syntax"
begin

section \<open>The initial program loader: images in memory\<close>

text \<open>
  \<^verbatim>\<open>hardware/ipl/lib\<close>: \<^verbatim>\<open>copy.c\<close>, \<^verbatim>\<open>image_scan.c\<close>, \<^verbatim>\<open>image_setup.c\<close>, \<^verbatim>\<open>image_start.c\<close>, \<^verbatim>\<open>image_2.c\<close>,
  \<^verbatim>\<open>image_xip.c\<close> and \<^verbatim>\<open>image_add_info.c\<close>. The loader looks for the header of an image in memory, checks
  the sums of the image, copies the startup program to where it runs and jumps to it.

  Memory is a function from addresses to bytes. The header \<open>startup_hdr\<close> and the buffer \<open>scratch\<close> are
  variables of the loader: \<open>ipl_vars\<close> has their addresses, which the linker chooses. The header has
  256 bytes, laid out as \<open>struct startup_header\<close> is in \<^verbatim>\<open>sys/startup.h\<close> for a processor whose
  \<open>long\<close> has 32 bits. The type \<open>option\<close> is for loops that may go on forever: \<open>None\<close> says that the
  function does not return. What goes to the serial line is left out.
\<close>

subsection \<open>Memory\<close>

type_synonym memory = "nat \<Rightarrow> u8"

definition put_bytes :: "nat \<Rightarrow> u8 list \<Rightarrow> memory \<Rightarrow> memory" where
  "put_bytes a bs m = (\<lambda>x. if a \<le> x \<and> x < a + length bs then bs ! (x - a) else m x)"

definition ld32 :: "memory \<Rightarrow> u32 \<Rightarrow> u32" where
  "ld32 m a = le32 (bytes_at m (unat a) 4)"

definition ld16 :: "memory \<Rightarrow> u32 \<Rightarrow> u16" where
  "ld16 m a = ucast (m (unat a)) OR push_bit 8 (ucast (m (unat a + 1)))"

record ipl_vars =
  startup_hdr :: u32
  scratch :: u32

subsection \<open>The header\<close>

definition STARTUP_HDR_SIGNATURE :: u32 where "STARTUP_HDR_SIGNATURE = 0x00ff7eeb"
definition STARTUP_HDR_FLAGS1_COMPRESS_MASK :: u8 where "STARTUP_HDR_FLAGS1_COMPRESS_MASK = 0x1c"
definition sizeof_startup_hdr :: u32 where "sizeof_startup_hdr = 256"

definition hdr_signature :: "memory \<Rightarrow> u32 \<Rightarrow> u32" where "hdr_signature m a = ld32 m a"
definition hdr_version :: "memory \<Rightarrow> u32 \<Rightarrow> u16" where "hdr_version m a = ld16 m (a + 4)"
definition hdr_flags1 :: "memory \<Rightarrow> u32 \<Rightarrow> u8" where "hdr_flags1 m a = m (unat (a + 6))"
definition hdr_startup_vaddr :: "memory \<Rightarrow> u32 \<Rightarrow> u32" where "hdr_startup_vaddr m a = ld32 m (a + 12)"
definition hdr_paddr_bias :: "memory \<Rightarrow> u32 \<Rightarrow> u32" where "hdr_paddr_bias m a = ld32 m (a + 16)"
definition hdr_ram_paddr :: "memory \<Rightarrow> u32 \<Rightarrow> u32" where "hdr_ram_paddr m a = ld32 m (a + 24)"
definition hdr_startup_size :: "memory \<Rightarrow> u32 \<Rightarrow> u32" where "hdr_startup_size m a = ld32 m (a + 32)"
definition hdr_stored_size :: "memory \<Rightarrow> u32 \<Rightarrow> u32" where "hdr_stored_size m a = ld32 m (a + 36)"
definition o_imagefs_paddr :: u32 where "o_imagefs_paddr = 40"
definition o_info :: u32 where "o_info = 64"

subsection \<open>Copying\<close>

primrec copy_words :: "nat \<Rightarrow> u32 \<Rightarrow> u32 \<Rightarrow> memory \<Rightarrow> memory" where
  "copy_words 0 d s m = m"
| "copy_words (Suc n) d s m = copy_words n (d + 4) (s + 4) (put_bytes (unat d) (bytes_at m (unat s) 4) m)"

primrec copy_bytes :: "nat \<Rightarrow> u32 \<Rightarrow> u32 \<Rightarrow> memory \<Rightarrow> memory" where
  "copy_bytes 0 d s m = m"
| "copy_bytes (Suc n) d s m = copy_bytes n (d + 1) (s + 1) (put_bytes (unat d) [m (unat s)] m)"

definition copy :: "u32 \<Rightarrow> u32 \<Rightarrow> u32 \<Rightarrow> memory \<Rightarrow> memory" where
  "copy dest src sz m =
     (let r = sz AND 3; n = drop_bit 2 sz in
      copy_bytes (unat r) (dest + 4 * n) (src + 4 * n) (copy_words (unat n) dest src m))"

subsection \<open>Sums\<close>

function small_checksum :: "memory \<Rightarrow> u32 \<Rightarrow> int \<Rightarrow> u32 \<Rightarrow> u32" where
  "small_checksum m a len sm = (if 0 < len then small_checksum m (a + 4) (len - 4) (sm + ld32 m a) else sm)"
  by pat_completeness auto

termination
  by (relation "measure (\<lambda>(m, a, len, sm). nat len)") auto

function checksum :: "ipl_vars \<Rightarrow> u32 \<Rightarrow> u32 \<Rightarrow> u32 \<Rightarrow> memory \<Rightarrow> u32 \<times> memory" where
  \<comment> \<open>\<open>len >= sizeof scratch\<close> is a comparison without sign\<close>
  "checksum V addr len sm m =
     (if 512 \<le> len then
        let m = copy (scratch V) addr 512 m in
        checksum V (addr + 512) (len - 512) (sm + small_checksum m (scratch V) 512 0) m
      else if len \<noteq> 0 then
        let m = copy (scratch V) addr len m in
        (sm + small_checksum m (scratch V) (uint len) 0, m)
      else (sm, m))"
  by pat_completeness auto

termination
  by (relation "measure (\<lambda>(V, addr, len, sm, m). unat len)") (auto simp: unat_sub word_le_nat_alt)

declare small_checksum.simps [simp del] checksum.simps [simp del]

subsection \<open>Finding an image\<close>

partial_function (option) image_scan_loop ::
  "ipl_vars \<Rightarrow> u32 \<Rightarrow> u32 \<Rightarrow> u32 \<Rightarrow> u16 \<Rightarrow> memory \<Rightarrow> (u32 \<times> memory) option" where
  "image_scan_loop V start fin lastaddr lastver m =
     (if start < fin then
        let h = startup_hdr V; m = copy h start sizeof_startup_hdr m in
        if hdr_signature m h \<noteq> STARTUP_HDR_SIGNATURE then image_scan_loop V (start + 4) fin lastaddr lastver m
        else
          case checksum V start (hdr_startup_size m h) 0 m of (sm, m) \<Rightarrow>
          if sm \<noteq> 0 then image_scan_loop V (start + 4) fin lastaddr lastver m
          else
            case checksum V (start + hdr_startup_size m h) (hdr_stored_size m h - hdr_startup_size m h) 0 m of (sm, m) \<Rightarrow>
            if sm \<noteq> 0 then image_scan_loop V (start + 4) fin lastaddr lastver m
            else
              image_scan_loop V (start + (hdr_stored_size m h - 4) + 4) fin
                (if hdr_version m h > lastver then start else lastaddr)
                (if hdr_version m h > lastver then hdr_version m h else lastver) m
      else Some (lastaddr, m))"

definition image_scan :: "ipl_vars \<Rightarrow> u32 \<Rightarrow> u32 \<Rightarrow> memory \<Rightarrow> (u32 \<times> memory) option" where
  "image_scan V start fin m = image_scan_loop V start fin (- 1) 0 m"

subsection \<open>Setting up and starting an image\<close>

definition image_setup :: "ipl_vars \<Rightarrow> u32 \<Rightarrow> memory \<Rightarrow> memory" where
  "image_setup V addr m =
     (let h = startup_hdr V;
          m = copy h addr sizeof_startup_hdr m;
          ram_addr = hdr_ram_paddr m h + hdr_paddr_bias m h;
          m = put_bytes (unat (h + o_imagefs_paddr)) (bytes32 (addr + hdr_startup_size m h - hdr_paddr_bias m h)) m;
          m = copy ram_addr h sizeof_startup_hdr m
      in copy (ram_addr + sizeof_startup_hdr) (addr + sizeof_startup_hdr) (hdr_startup_size m h - sizeof_startup_hdr) m)"

definition image_start :: "ipl_vars \<Rightarrow> u32 \<Rightarrow> memory \<Rightarrow> u32 \<times> memory" where
  \<comment> \<open>the address it jumps to\<close>
  "image_start V addr m =
     (let m = copy (startup_hdr V) addr sizeof_startup_hdr m in (hdr_startup_vaddr m (startup_hdr V), m))"

subsection \<open>The second set of image functions\<close>

text \<open>\<open>checksum_2\<close>, which is written in assembly language, is a parameter.\<close>

partial_function (option) scan_signature :: "u32 \<Rightarrow> u32 \<Rightarrow> memory \<Rightarrow> u32 option" where
  "scan_signature start fin m =
     (if start < fin then
        if hdr_signature m start = STARTUP_HDR_SIGNATURE then Some start else scan_signature (start + 4) fin m
      else Some start)"

definition image_scan_2 ::
  "(u32 \<Rightarrow> u32 \<Rightarrow> memory \<Rightarrow> u32) \<Rightarrow> ipl_vars \<Rightarrow> u32 \<Rightarrow> u32 \<Rightarrow> bool \<Rightarrow> memory \<Rightarrow> (u32 \<times> memory) option" where
  "image_scan_2 checksum_2 V start fin docksum m =
     do {
       start \<leftarrow> scan_signature start fin m;
       if start \<ge> fin then Some (- 1, m)
       else
         let h = startup_hdr V; m = copy h start sizeof_startup_hdr m in
         if docksum \<and> checksum_2 start (hdr_startup_size m h) m \<noteq> 0 then Some (- 1, m)
         else if docksum \<and> checksum_2 (start + hdr_startup_size m h) (hdr_stored_size m h - hdr_startup_size m h) m \<noteq> 0
         then Some (- 1, m)
         else Some (start, m)
     }"

definition image_setup_2 :: "ipl_vars \<Rightarrow> u32 \<Rightarrow> memory \<Rightarrow> memory" where
  "image_setup_2 V addr m =
     (let h = startup_hdr V;
          ram_addr = hdr_ram_paddr m h + hdr_paddr_bias m h;
          m = put_bytes (unat (h + o_imagefs_paddr)) (bytes32 (addr + hdr_startup_size m h - hdr_paddr_bias m h)) m;
          m = copy ram_addr h sizeof_startup_hdr m
      in if ram_addr \<noteq> addr
         then copy (ram_addr + sizeof_startup_hdr) (addr + sizeof_startup_hdr) (hdr_startup_size m h - sizeof_startup_hdr) m
         else m)"

definition image_start_2 :: "ipl_vars \<Rightarrow> memory \<Rightarrow> u32" where
  "image_start_2 V m = hdr_startup_vaddr m (startup_hdr V)"

text \<open>
  \<open>xip_load\<close> is the function of the device, which copies and reports an error; it is a parameter
  (\<open>True\<close>: an error).
\<close>

definition xip_image_load ::
  "(u32 \<Rightarrow> u32 \<Rightarrow> u32 \<Rightarrow> memory \<Rightarrow> bool \<times> memory) \<Rightarrow> (u32 \<Rightarrow> u32 \<Rightarrow> memory \<Rightarrow> u32) \<Rightarrow> ipl_vars \<Rightarrow> u32 \<Rightarrow> u32 \<Rightarrow>
    memory \<Rightarrow> (u32 \<times> memory) option" where
  "xip_image_load xip_load checksum_2 V dst src m =
     do {
       (addr, m) \<leftarrow> image_scan_2 checksum_2 V src (src + 0x10) False m;
       if addr = - 1 then Some (- 1, m)
       else
         let h = startup_hdr V;
             ram_addr = hdr_ram_paddr m h + hdr_paddr_bias m h;
             dst = (if hdr_flags1 m h AND STARTUP_HDR_FLAGS1_COMPRESS_MASK \<noteq> 0 then dst
                    else ram_addr + hdr_startup_size m h - hdr_paddr_bias m h)
         in case xip_load ram_addr addr (hdr_startup_size m h) m of (err, m) \<Rightarrow>
            if err then Some (- 1, m)
            else case xip_load dst (addr + hdr_startup_size m h) (hdr_stored_size m h - hdr_startup_size m h) m of (err, m) \<Rightarrow>
              if err then Some (- 1, m)
              else Some (ram_addr, put_bytes (unat (ram_addr + o_imagefs_paddr)) (bytes32 dst) m)
     }"

subsection \<open>Information for startup\<close>

partial_function (option) info_end :: "memory \<Rightarrow> u32 \<Rightarrow> u32 option" where
  \<comment> \<open>the first free slot\<close>
  "info_end m sih = (let k = ld16 m (sih + 2) in if k \<noteq> 0 then info_end m (sih + ucast k) else Some sih)"

definition image_add_info :: "u32 \<Rightarrow> u32 \<Rightarrow> memory \<Rightarrow> (bool \<times> memory) option" where
  "image_add_info imaddr info m =
     (let ram_addr = hdr_ram_paddr m imaddr + hdr_paddr_bias m imaddr in
      do {
        sih \<leftarrow> info_end m (ram_addr + o_info);
        if (sih - ram_addr) + ucast (ld16 m (info + 2)) > sizeof_startup_hdr then Some (False, m)
        else Some (True, copy sih info (ucast (ld16 m (info + 2))) m)
      })"

text \<open>\<open>find_startup_info\<close> of \<^verbatim>\<open>startup/lib/startup_info.c\<close>, with the header at \<open>shdr\<close>; 0 is the null pointer.\<close>

partial_function (option) find_info :: "memory \<Rightarrow> u32 \<Rightarrow> u16 \<Rightarrow> u32 option" where
  "find_info m p ty =
     (if ld16 m (p + 2) = 0 then Some 0
      else if ld16 m p = ty then Some p
      else find_info m (p + ucast (ld16 m (p + 2))) ty)"

definition find_startup_info :: "memory \<Rightarrow> u32 \<Rightarrow> u32 \<Rightarrow> u16 \<Rightarrow> u32 option" where
  "find_startup_info m shdr start ty =
     find_info m (if start = 0 then shdr + o_info else start + ucast (ld16 m (start + 2))) ty"

end
