(* ===== verification/Ipl_Card.thy ===== *)
theory Ipl_Card
  imports Ipl_Image
begin

section \<open>The initial program loader: the SD card\<close>

text \<open>
  \<^verbatim>\<open>ipl/boards/mx6x-sabreARD/sdmmc.c\<close>, \<^verbatim>\<open>sdmmc.h\<close> and \<^verbatim>\<open>sdhc_mx6x.h\<close>: the driver of the controller
  (uSDHC) and of the card in it. Outside the program are the controller and the card, given by
  \<open>sd_env\<close>: a read and a write of 32 bits for each address, on a state of type \<open>'d\<close> and on the
  memory, which the controller writes by itself when it transfers blocks.

  The state is the record \<open>sd_world\<close>: the structure \<open>mx6x_sdmmc_t\<close>, the memory and the controller. It is
  extensible, so that the file system can add its own variables. A function takes the state and yields
  its result and the new state; \<open>None\<close> says that it does not return, because a register never gets the
  value that a loop waits for. The delays, which only take time, and the messages on the serial line
  are left out.
\<close>

subsection \<open>Registers\<close>

definition MX6X_MMCDMASYSADD :: u32 where "MX6X_MMCDMASYSADD = 0x00"
definition MX6X_MMCBLATR :: u32 where "MX6X_MMCBLATR = 0x04"
definition MX6X_MMCCMDARG :: u32 where "MX6X_MMCCMDARG = 0x08"
definition MX6X_MMCCMDXTYPE :: u32 where "MX6X_MMCCMDXTYPE = 0x0C"
definition MX6X_MMCCMDRSP0 :: u32 where "MX6X_MMCCMDRSP0 = 0x10"
definition MX6X_MMCCMDRSP1 :: u32 where "MX6X_MMCCMDRSP1 = 0x14"
definition MX6X_MMCCMDRSP2 :: u32 where "MX6X_MMCCMDRSP2 = 0x18"
definition MX6X_MMCCMDRSP3 :: u32 where "MX6X_MMCCMDRSP3 = 0x1C"
definition MX6X_MMCDATAPORT :: u32 where "MX6X_MMCDATAPORT = 0x20"
definition MX6X_MMCPRSNTST :: u32 where "MX6X_MMCPRSNTST = 0x24"
definition MX6X_MMCPROTOCTL :: u32 where "MX6X_MMCPROTOCTL = 0x28"
definition MX6X_MMCSYSCTL :: u32 where "MX6X_MMCSYSCTL = 0x2C"
definition MX6X_MMCINTRST :: u32 where "MX6X_MMCINTRST = 0x30"
definition MX6X_MMCINTRSTEN :: u32 where "MX6X_MMCINTRSTEN = 0x34"
definition MX6X_MMCINTRSIGEN :: u32 where "MX6X_MMCINTRSIGEN = 0x38"
definition MX6X_MMCWATML :: u32 where "MX6X_MMCWATML = 0x44"
definition MX6X_MMCMIX_CTRL :: u32 where "MX6X_MMCMIX_CTRL = 0x48"

definition MMCCMDXTYPE_DPSEL :: u32 where "MMCCMDXTYPE_DPSEL = 0x200000"
definition MMCCMDXTYPE_CICEN :: u32 where "MMCCMDXTYPE_CICEN = 0x100000"
definition MMCCMDXTYPE_CCCEN :: u32 where "MMCCMDXTYPE_CCCEN = 0x80000"
definition MMCCMDXTYPE_RSPTYPMASK :: u32 where "MMCCMDXTYPE_RSPTYPMASK = 0x30000"
definition MMCCMDXTYPE_RSPTYPL136 :: u32 where "MMCCMDXTYPE_RSPTYPL136 = 0x10000"
definition MMCCMDXTYPE_RSPTYPL48 :: u32 where "MMCCMDXTYPE_RSPTYPL48 = 0x20000"
definition MMCCMDXTYPE_RSPTYPL48B :: u32 where "MMCCMDXTYPE_RSPTYPL48B = 0x30000"
definition MMCCMDXTYPE_MSBSEL :: u32 where "MMCCMDXTYPE_MSBSEL = 0x20"
definition MMCCMDXTYPE_DTDSEL :: u32 where "MMCCMDXTYPE_DTDSEL = 0x10"
definition MMCCMDXTYPE_AC12EN :: u32 where "MMCCMDXTYPE_AC12EN = 0x4"
definition MMCCMDXTYPE_BCEN :: u32 where "MMCCMDXTYPE_BCEN = 0x2"
definition MMCCMDXTYPE_DMAEN :: u32 where "MMCCMDXTYPE_DMAEN = 0x1"
definition MMCPRSNTST_SDSTB :: u32 where "MMCPRSNTST_SDSTB = 0x8"
definition MMCPRSNTST_DLA :: u32 where "MMCPRSNTST_DLA = 0x4"
definition MMCPRSNTST_CDIHB :: u32 where "MMCPRSNTST_CDIHB = 0x2"
definition MMCPRSNTST_CIHB :: u32 where "MMCPRSNTST_CIHB = 0x1"
definition MMCPROTOCTL_EMODLE :: u32 where "MMCPROTOCTL_EMODLE = 0x20"
definition MMCPROTOCTL_DTW8BIT :: u32 where "MMCPROTOCTL_DTW8BIT = 0x4"
definition MMCPROTOCTL_DTW4BIT :: u32 where "MMCPROTOCTL_DTW4BIT = 0x2"
definition MMCPROTOCTL_DTW1BIT :: u32 where "MMCPROTOCTL_DTW1BIT = 0xFFFFFFF9"
definition MMCSYSCTL_INITA :: u32 where "MMCSYSCTL_INITA = 0x8000000"
definition MMCSYSCTL_RSTC :: u32 where "MMCSYSCTL_RSTC = 0x2000000"
definition MMCSYSCTL_RSTA :: u32 where "MMCSYSCTL_RSTA = 0x1000000"
definition MMCSYSCTL_DTOCVMASK :: u32 where "MMCSYSCTL_DTOCVMASK = 0xF0000"
definition MMCSYSCTL_SDCLKFSMASK :: u32 where "MMCSYSCTL_SDCLKFSMASK = 0xFF00"
definition MMCSYSCTL_DVSMASK :: u32 where "MMCSYSCTL_DVSMASK = 0xF0"
definition MMCSYSCTL_SDCLKEN :: u32 where "MMCSYSCTL_SDCLKEN = 0x8"
definition MMCINTR_BRR :: u32 where "MMCINTR_BRR = 0x20"
definition MMCINTR_TC :: u32 where "MMCINTR_TC = 0x2"
definition MMCINTR_CC :: u32 where "MMCINTR_CC = 0x1"
definition MMCINTR_CTOE :: u32 where "MMCINTR_CTOE = 0x10000"
definition MMCINTR_ERRI :: u32 where "MMCINTR_ERRI = 0x17F0000"

lemmas sd_offsets =
  MX6X_MMCDMASYSADD_def MX6X_MMCBLATR_def MX6X_MMCCMDARG_def MX6X_MMCCMDXTYPE_def MX6X_MMCCMDRSP0_def MX6X_MMCCMDRSP1_def
  MX6X_MMCCMDRSP2_def MX6X_MMCCMDRSP3_def MX6X_MMCDATAPORT_def MX6X_MMCPRSNTST_def MX6X_MMCPROTOCTL_def MX6X_MMCSYSCTL_def
  MX6X_MMCINTRST_def MX6X_MMCINTRSTEN_def MX6X_MMCINTRSIGEN_def MX6X_MMCWATML_def MX6X_MMCMIX_CTRL_def

lemmas sd_bits =
  MMCCMDXTYPE_DPSEL_def MMCCMDXTYPE_CICEN_def MMCCMDXTYPE_CCCEN_def MMCCMDXTYPE_RSPTYPMASK_def MMCCMDXTYPE_RSPTYPL136_def
  MMCCMDXTYPE_RSPTYPL48_def MMCCMDXTYPE_RSPTYPL48B_def MMCCMDXTYPE_MSBSEL_def MMCCMDXTYPE_DTDSEL_def MMCCMDXTYPE_AC12EN_def
  MMCCMDXTYPE_BCEN_def MMCCMDXTYPE_DMAEN_def MMCPRSNTST_SDSTB_def MMCPRSNTST_DLA_def MMCPRSNTST_CDIHB_def MMCPRSNTST_CIHB_def
  MMCPROTOCTL_EMODLE_def MMCPROTOCTL_DTW8BIT_def MMCPROTOCTL_DTW4BIT_def MMCPROTOCTL_DTW1BIT_def MMCSYSCTL_INITA_def
  MMCSYSCTL_RSTC_def MMCSYSCTL_RSTA_def MMCSYSCTL_DTOCVMASK_def MMCSYSCTL_SDCLKFSMASK_def MMCSYSCTL_DVSMASK_def
  MMCSYSCTL_SDCLKEN_def MMCINTR_BRR_def MMCINTR_TC_def MMCINTR_CC_def MMCINTR_CTOE_def MMCINTR_ERRI_def

subsection \<open>Commands and the state of the card\<close>

definition SDMMC_BLOCKSIZE :: u32 where "SDMMC_BLOCKSIZE = 512"
definition SDMMC_CLK_DEFAULT :: u32 where "SDMMC_CLK_DEFAULT = 198000000"
definition POWER_UP_WAIT :: nat where "POWER_UP_WAIT = 40"
definition SDMMC_OK :: int where "SDMMC_OK = 0"
definition SDMMC_ERROR :: int where "SDMMC_ERROR = - 1"

definition MMC_GO_IDLE_STATE :: int where "MMC_GO_IDLE_STATE = 0"
definition MMC_SEND_OP_COND :: int where "MMC_SEND_OP_COND = 1"
definition MMC_ALL_SEND_CID :: int where "MMC_ALL_SEND_CID = 2"
definition MMC_SET_RELATIVE_ADDR :: int where "MMC_SET_RELATIVE_ADDR = 3"
definition MMC_SWITCH :: int where "MMC_SWITCH = 6"
definition MMC_SEL_DES_CARD :: int where "MMC_SEL_DES_CARD = 7"
definition MMC_IF_COND :: int where "MMC_IF_COND = 8"
definition MMC_SEND_CSD :: int where "MMC_SEND_CSD = 9"
definition MMC_SEND_STATUS :: int where "MMC_SEND_STATUS = 13"
definition MMC_SET_BLOCKLEN :: int where "MMC_SET_BLOCKLEN = 16"
definition MMC_READ_SINGLE_BLOCK :: int where "MMC_READ_SINGLE_BLOCK = 17"
definition MMC_READ_MULTIPLE_BLOCK :: int where "MMC_READ_MULTIPLE_BLOCK = 18"
definition MMC_SEND_SCR :: int where "MMC_SEND_SCR = 51"
definition MMC_APP_CMD :: int where "MMC_APP_CMD = 55"
definition SD_SET_BUS_WIDTH :: int where "SD_SET_BUS_WIDTH = 14086"
definition SD_SEND_OP_COND :: int where "SD_SEND_OP_COND = 14121"

lemmas sd_cmds =
  MMC_GO_IDLE_STATE_def MMC_SEND_OP_COND_def MMC_ALL_SEND_CID_def MMC_SET_RELATIVE_ADDR_def MMC_SWITCH_def MMC_SEL_DES_CARD_def
  MMC_IF_COND_def MMC_SEND_CSD_def MMC_SEND_STATUS_def MMC_SET_BLOCKLEN_def MMC_READ_SINGLE_BLOCK_def MMC_READ_MULTIPLE_BLOCK_def
  MMC_SEND_SCR_def MMC_APP_CMD_def SD_SET_BUS_WIDTH_def SD_SEND_OP_COND_def

definition MMC_IDLE :: u32 where "MMC_IDLE = 0"
definition MMC_READY :: u32 where "MMC_READY = 0x200"
definition MMC_IDENT :: u32 where "MMC_IDENT = 0x400"
definition MMC_TRAN :: u32 where "MMC_TRAN = 0x800"

datatype card_type_t = NONE | eMMC | eSDC | eSDC_V200 | eSDC_HC | eMMC_HC

text \<open>
  The response buffer is \<open>None\<close> for a null pointer. A buffer is a variable of the caller; each word of it
  that is read has been written before. The identification and the data of the card are unions in the source,
  of what an SD card and an MMC have; each part is a field here, since a part is only read after that
  part has been written.
\<close>

record sdmmc_cmd_t =
  c_cmd :: int
  c_arg :: u32
  c_rsp :: "(nat \<Rightarrow> u32) option"
  c_bsize :: u32
  c_bcnt :: u32
  c_dbuf :: u32
  c_erintsts :: u16

record sd_cid_t =
  scid_mid :: u8
  scid_oid :: "u8 list"
  scid_pnm :: "u8 list"
  scid_prv :: u8
  scid_psn :: u32
  scid_mdt :: u16

record sd_csd_t =
  csd_structure :: u8
  taac :: u8
  nsac :: u8
  tran_speed :: u8
  ccc :: u16
  read_bl_len :: u8
  read_bl_partial :: u8
  write_blk_misalign :: u8
  read_blk_misalign :: u8
  dsr_imp :: u8
  ver1_c_size :: u16
  vdd_r_curr_min :: u8
  vdd_r_curr_max :: u8
  vdd_w_curr_min :: u8
  vdd_w_curr_max :: u8
  ver1_c_size_mult :: u8
  ver2_c_size :: u32
  erase_blk_en :: u8
  sector_size :: u8
  wp_grp_size :: u8
  wp_grp_enable :: u8
  r2w_factor :: u8
  write_bl_len :: u8
  write_bl_partial :: u8
  file_format_grp :: u8
  csd_copy :: u8
  perm_write_protect :: u8
  tmp_write_protect :: u8
  file_format :: u8

record mmc_cid_t =
  mcid_mid :: u32
  mcid_oid :: u16
  mcid_ycd :: u16
  mcid_pnm :: "nat \<Rightarrow> u8"
  mcid_hwr :: u8
  mcid_fwr :: u8
  mcid_mcd :: u8
  mcid_psn :: u32

record mmc_csd_t =
  m_csd_structure :: u8
  m_mmc_prot :: u8
  m_tran_speed :: u8
  m_read_bl_len :: u8
  m_c_size :: u16
  m_c_size_mult :: u8

record card_t =
  cd_state :: u32
  cd_type :: card_type_t
  blk_size :: u32
  blk_num :: u32
  cd_speed :: u32
  rca :: u16

record mx6x_sdmmc_t =
  sdmmc_pbase :: u32
  icr :: u32
  ocr :: u32
  cmd :: sdmmc_cmd_t
  card :: card_t
  sd_cid :: sd_cid_t
  mmc_cid :: mmc_cid_t
  sd_csd :: sd_csd_t
  mmc_csd :: mmc_csd_t

record 'd sd_env =
  reg_in :: "u32 \<Rightarrow> 'd \<times> memory \<Rightarrow> u32 \<times> 'd \<times> memory"
  reg_out :: "u32 \<Rightarrow> u32 \<Rightarrow> 'd \<times> memory \<Rightarrow> 'd \<times> memory"

record 'd sd_world =
  sdmmc :: mx6x_sdmmc_t
  mem :: memory
  ctl :: 'd

subsection \<open>Registers of the controller\<close>

definition sd_in32 :: "'d sd_env \<Rightarrow> u32 \<Rightarrow> ('d, 'z) sd_world_scheme \<Rightarrow> (u32 \<times> ('d, 'z) sd_world_scheme) option" where
  "sd_in32 E off w =
     (case reg_in E (sdmmc_pbase (sdmmc w) + off) (ctl w, mem w) of (v, d, m) \<Rightarrow> Some (v, w\<lparr>ctl := d, mem := m\<rparr>))"

definition sd_out32 :: "'d sd_env \<Rightarrow> u32 \<Rightarrow> u32 \<Rightarrow> ('d, 'z) sd_world_scheme \<Rightarrow> ('d, 'z) sd_world_scheme option" where
  "sd_out32 E off v w =
     (case reg_out E (sdmmc_pbase (sdmmc w) + off) v (ctl w, mem w) of (d, m) \<Rightarrow> Some (w\<lparr>ctl := d, mem := m\<rparr>))"

definition sd_set32 :: "'d sd_env \<Rightarrow> u32 \<Rightarrow> (u32 \<Rightarrow> u32) \<Rightarrow> ('d, 'z) sd_world_scheme \<Rightarrow> ('d, 'z) sd_world_scheme option" where
  \<comment> \<open>\<open>out32(r, f(in32(r)))\<close>\<close>
  "sd_set32 E off f w = do { (v, w) \<leftarrow> sd_in32 E off w; sd_out32 E off (f v) w }"

partial_function (option) sd_wait ::
  "'d sd_env \<Rightarrow> u32 \<Rightarrow> (u32 \<Rightarrow> bool) \<Rightarrow> ('d, 'z) sd_world_scheme \<Rightarrow> ('d, 'z) sd_world_scheme option" where
  \<comment> \<open>reads the register until its value is as wanted\<close>
  "sd_wait E off P w = do { (v, w) \<leftarrow> sd_in32 E off w; if P v then Some w else sd_wait E off P w }"

partial_function (option) sd_wait_inhibit :: "'d sd_env \<Rightarrow> ('d, 'z) sd_world_scheme \<Rightarrow> ('d, 'z) sd_world_scheme option" where
  "sd_wait_inhibit E w =
     do {
       (v, w) \<leftarrow> sd_in32 E MX6X_MMCPRSNTST w;
       if v AND MMCPRSNTST_CDIHB \<noteq> 0 then sd_wait_inhibit E w
       else do {
         (v, w) \<leftarrow> sd_in32 E MX6X_MMCPRSNTST w;
         if v AND MMCPRSNTST_CIHB \<noteq> 0 then sd_wait_inhibit E w else Some w
       }
     }"

definition upd_cmd :: "(sdmmc_cmd_t \<Rightarrow> sdmmc_cmd_t) \<Rightarrow> ('d, 'z) sd_world_scheme \<Rightarrow> ('d, 'z) sd_world_scheme" where
  "upd_cmd f w = w\<lparr>sdmmc := (sdmmc w)\<lparr>cmd := f (cmd (sdmmc w))\<rparr>\<rparr>"

definition upd_card :: "(card_t \<Rightarrow> card_t) \<Rightarrow> ('d, 'z) sd_world_scheme \<Rightarrow> ('d, 'z) sd_world_scheme" where
  "upd_card f w = w\<lparr>sdmmc := (sdmmc w)\<lparr>card := f (card (sdmmc w))\<rparr>\<rparr>"

abbreviation the_cmd :: "('d, 'z) sd_world_scheme \<Rightarrow> sdmmc_cmd_t" where "the_cmd w \<equiv> cmd (sdmmc w)"
abbreviation the_card :: "('d, 'z) sd_world_scheme \<Rightarrow> card_t" where "the_card w \<equiv> card (sdmmc w)"
abbreviation the_rsp :: "('d, 'z) sd_world_scheme \<Rightarrow> nat \<Rightarrow> u32" where "the_rsp w \<equiv> the (c_rsp (cmd (sdmmc w)))"

definition CMD_CREATE ::
  "int \<Rightarrow> u32 \<Rightarrow> (nat \<Rightarrow> u32) option \<Rightarrow> u32 \<Rightarrow> u32 \<Rightarrow> u32 \<Rightarrow> ('d, 'z) sd_world_scheme \<Rightarrow> ('d, 'z) sd_world_scheme" where
  "CMD_CREATE c a r bsz bcnt buf =
     upd_cmd (\<lambda>_. \<lparr>c_cmd = c, c_arg = a, c_rsp = r, c_bsize = bsz, c_bcnt = bcnt, c_dbuf = buf, c_erintsts = 0\<rparr>)"

abbreviation a_buffer :: "(nat \<Rightarrow> u32) option" where
  \<comment> \<open>a response buffer that has not been written yet\<close>
  "a_buffer \<equiv> Some (\<lambda>_. 0)"

definition cmdtab :: "(int \<times> u32) list" where
  "cmdtab =
     [(0, push_bit 24 0),
      (1, push_bit 24 1 OR MMCCMDXTYPE_RSPTYPL48),
      (2, push_bit 24 2 OR MMCCMDXTYPE_CCCEN OR MMCCMDXTYPE_RSPTYPL136),
      (3, push_bit 24 3 OR MMCCMDXTYPE_CICEN OR MMCCMDXTYPE_CCCEN OR MMCCMDXTYPE_RSPTYPL48),
      (6, push_bit 24 6 OR MMCCMDXTYPE_CICEN OR MMCCMDXTYPE_CCCEN OR MMCCMDXTYPE_RSPTYPL48B),
      (7, push_bit 24 7 OR MMCCMDXTYPE_CICEN OR MMCCMDXTYPE_CCCEN OR MMCCMDXTYPE_RSPTYPL48B),
      (8, push_bit 24 8 OR MMCCMDXTYPE_CICEN OR MMCCMDXTYPE_CCCEN OR MMCCMDXTYPE_RSPTYPL48),
      (9, push_bit 24 9 OR MMCCMDXTYPE_CCCEN OR MMCCMDXTYPE_RSPTYPL136),
      (13, push_bit 24 13 OR MMCCMDXTYPE_CICEN OR MMCCMDXTYPE_CCCEN OR MMCCMDXTYPE_RSPTYPL48),
      (16, push_bit 24 16 OR MMCCMDXTYPE_CICEN OR MMCCMDXTYPE_CCCEN OR MMCCMDXTYPE_RSPTYPL48),
      (17, push_bit 24 17 OR MMCCMDXTYPE_CICEN OR MMCCMDXTYPE_CCCEN OR MMCCMDXTYPE_RSPTYPL48 OR MMCCMDXTYPE_DPSEL),
      (18, push_bit 24 18 OR MMCCMDXTYPE_CICEN OR MMCCMDXTYPE_CCCEN OR MMCCMDXTYPE_RSPTYPL48 OR MMCCMDXTYPE_DPSEL),
      (55, push_bit 24 55 OR MMCCMDXTYPE_CICEN OR MMCCMDXTYPE_CCCEN OR MMCCMDXTYPE_RSPTYPL48),
      (14086, push_bit 24 6 OR MMCCMDXTYPE_CICEN OR MMCCMDXTYPE_CCCEN OR MMCCMDXTYPE_RSPTYPL48),
      (14121, push_bit 24 41 OR MMCCMDXTYPE_RSPTYPL48)]"

definition get_cmd :: "int \<Rightarrow> u32 option" where
  "get_cmd c = map_of cmdtab c"

subsection \<open>The controller\<close>

definition clock_bits :: "u32 \<Rightarrow> u32" where
  "clock_bits frq =
     (let pre_div = (if SDMMC_CLK_DEFAULT div 16 > frq
                     then case find (\<lambda>p. SDMMC_CLK_DEFAULT div p \<le> frq * 16) [2, 4, 8, 16, 32, 64, 128] of
                            Some p \<Rightarrow> p | None \<Rightarrow> 256
                     else 2);
          dv = (case find (\<lambda>d. SDMMC_CLK_DEFAULT div (d * pre_div) \<le> frq) (map of_nat [1..<17]) of Some d \<Rightarrow> d | None \<Rightarrow> 17)
      in push_bit 8 (drop_bit 1 pre_div) OR push_bit 4 (dv - 1))"

definition sdmmc_set_frq :: "'d sd_env \<Rightarrow> u32 \<Rightarrow> ('d, 'z) sd_world_scheme \<Rightarrow> ('d, 'z) sd_world_scheme option" where
  "sdmmc_set_frq E frq w =
     do {
       w \<leftarrow> sd_set32 E MX6X_MMCSYSCTL (\<lambda>v. v AND NOT MMCSYSCTL_SDCLKEN) w;
       w \<leftarrow> sd_set32 E MX6X_MMCSYSCTL (\<lambda>v. v AND NOT (MMCSYSCTL_SDCLKFSMASK OR MMCSYSCTL_DVSMASK)) w;
       w \<leftarrow> sd_set32 E MX6X_MMCSYSCTL (\<lambda>v. v OR clock_bits frq) w;
       w \<leftarrow> sd_wait E MX6X_MMCPRSNTST (\<lambda>v. v AND MMCPRSNTST_SDSTB \<noteq> 0) w;
       sd_set32 E MX6X_MMCSYSCTL (\<lambda>v. v OR MMCSYSCTL_SDCLKEN) w
     }"

definition sd_set_bus_width :: "'d sd_env \<Rightarrow> nat \<Rightarrow> ('d, 'z) sd_world_scheme \<Rightarrow> ('d, 'z) sd_world_scheme option" where
  "sd_set_bus_width E width w =
     do {
       w \<leftarrow> sd_set32 E MX6X_MMCPROTOCTL (\<lambda>tmp. tmp AND MMCPROTOCTL_DTW1BIT) w;
       sd_set32 E MX6X_MMCPROTOCTL (\<lambda>tmp.
         if width = 8 then tmp OR MMCPROTOCTL_EMODLE OR MMCPROTOCTL_DTW8BIT
         else if width = 4 then tmp OR MMCPROTOCTL_EMODLE OR MMCPROTOCTL_DTW4BIT
         else tmp OR MMCPROTOCTL_EMODLE) w
     }"

definition sdmmc_init_ctrl :: "'d sd_env \<Rightarrow> ('d, 'z) sd_world_scheme \<Rightarrow> (int \<times> ('d, 'z) sd_world_scheme) option" where
  "sdmmc_init_ctrl E w =
     do {
       let w = w\<lparr>sdmmc := (sdmmc w)\<lparr>icr := 0x000001aa, ocr := 0x00300000\<rparr>\<rparr>;
       w \<leftarrow> sd_out32 E MX6X_MMCINTRSTEN 0 w;
       w \<leftarrow> sd_set32 E MX6X_MMCSYSCTL (\<lambda>v. v OR MMCSYSCTL_RSTA) w;
       w \<leftarrow> sd_wait E MX6X_MMCSYSCTL (\<lambda>v. v AND MMCSYSCTL_RSTA = 0) w;
       w \<leftarrow> sdmmc_set_frq E 400000 w;
       w \<leftarrow> sd_out32 E MX6X_MMCPROTOCTL 0x00000020 w;
       w \<leftarrow> sd_out32 E MX6X_MMCINTRSIGEN 0x017F8033 w;
       w \<leftarrow> sd_out32 E MX6X_MMCINTRSTEN 0x017F8033 w;
       Some (SDMMC_OK, w)
     }"

definition sdmmc_fini :: "'d sd_env \<Rightarrow> ('d, 'z) sd_world_scheme \<Rightarrow> (int \<times> ('d, 'z) sd_world_scheme) option" where
  "sdmmc_fini E w =
     do {
       w \<leftarrow> sd_out32 E MX6X_MMCINTRSIGEN 0 w;
       w \<leftarrow> sd_out32 E MX6X_MMCINTRSTEN 0 w;
       w \<leftarrow> sd_out32 E MX6X_MMCINTRST 0x017F0003 w;
       w \<leftarrow> sd_out32 E MX6X_MMCSYSCTL 0 w;
       Some (0, w)
     }"

definition mx6x_setup_dma_read :: "'d sd_env \<Rightarrow> ('d, 'z) sd_world_scheme \<Rightarrow> ('d, 'z) sd_world_scheme option" where
  "mx6x_setup_dma_read E w =
     do {
       w \<leftarrow> sd_out32 E MX6X_MMCBLATR (push_bit 16 (c_bcnt (the_cmd w)) OR c_bsize (the_cmd w)) w;
       w \<leftarrow> sd_out32 E MX6X_MMCDMASYSADD (c_dbuf (the_cmd w)) w;
       sd_set32 E MX6X_MMCSYSCTL (\<lambda>v. (v AND NOT MMCSYSCTL_DTOCVMASK) OR push_bit 16 14) w
     }"

definition reset_cmd_line :: "'d sd_env \<Rightarrow> ('d, 'z) sd_world_scheme \<Rightarrow> ('d, 'z) sd_world_scheme option" where
  "reset_cmd_line E w =
     do {
       w \<leftarrow> sd_set32 E MX6X_MMCSYSCTL (\<lambda>v. v OR MMCSYSCTL_RSTC) w;
       sd_wait E MX6X_MMCSYSCTL (\<lambda>v. v AND MMCSYSCTL_RSTC = 0) w
     }"

definition read_response :: "'d sd_env \<Rightarrow> u32 \<Rightarrow> ('d, 'z) sd_world_scheme \<Rightarrow> ('d, 'z) sd_world_scheme option" where
  "read_response E sdmmc_cmd w =
     (case c_rsp (the_cmd w) of None \<Rightarrow> Some w
      | Some r \<Rightarrow> do {
          (r0, w) \<leftarrow> sd_in32 E MX6X_MMCCMDRSP0 w;
          if sdmmc_cmd AND MMCCMDXTYPE_RSPTYPMASK = MMCCMDXTYPE_RSPTYPL136 then do {
            (r1, w) \<leftarrow> sd_in32 E MX6X_MMCCMDRSP1 w;
            (r2, w) \<leftarrow> sd_in32 E MX6X_MMCCMDRSP2 w;
            (r3, w) \<leftarrow> sd_in32 E MX6X_MMCCMDRSP3 w;
            Some (upd_cmd (\<lambda>c. c\<lparr>c_rsp := Some (r
              (3 := push_bit 8 r3 OR drop_bit 24 r2, 2 := push_bit 8 r2 OR drop_bit 24 r1,
               1 := push_bit 8 r1 OR drop_bit 24 r0, 0 := push_bit 8 r0))\<rparr>) w)
          }
          else Some (upd_cmd (\<lambda>c. c\<lparr>c_rsp := Some (r(0 := r0))\<rparr>) w)
        })"

partial_function (option) wait_transfer :: "'d sd_env \<Rightarrow> ('d, 'z) sd_world_scheme \<Rightarrow> (int \<times> ('d, 'z) sd_world_scheme) option" where
  "wait_transfer E w =
     do {
       w \<leftarrow> sd_wait E MX6X_MMCINTRST (\<lambda>v. v AND (MMCINTR_TC OR MMCINTR_ERRI) \<noteq> 0) w;
       (v, w) \<leftarrow> sd_in32 E MX6X_MMCINTRST w;
       if v AND MMCINTR_ERRI \<noteq> 0 then do { w \<leftarrow> reset_cmd_line E w; Some (SDMMC_ERROR, w) }
       else do {
         (v, w) \<leftarrow> sd_in32 E MX6X_MMCINTRST w;
         if v AND MMCINTR_TC \<noteq> 0 then Some (SDMMC_OK, w) else wait_transfer E w
       }
     }"

definition start_cmd :: "'d sd_env \<Rightarrow> int \<Rightarrow> u32 \<Rightarrow> ('d, 'z) sd_world_scheme \<Rightarrow> ('d, 'z) sd_world_scheme option" where
  \<comment> \<open>the first part of \<open>sdmmc_send_cmd\<close>, up to the write that starts the command\<close>
  "start_cmd E c sdmmc_cmd w =
     do {
       w \<leftarrow> sd_wait_inhibit E w;
       w \<leftarrow> sd_wait E MX6X_MMCPRSNTST (\<lambda>v. v AND MMCPRSNTST_DLA = 0) w;
       w \<leftarrow> (if c = 0 then do {
                w \<leftarrow> sd_set32 E MX6X_MMCSYSCTL (\<lambda>v. v OR MMCSYSCTL_INITA OR push_bit 16 2) w;
                sd_wait E MX6X_MMCSYSCTL (\<lambda>v. v AND MMCSYSCTL_INITA = 0) w
              } else Some w);
       let mix = (if c = 17 then MMCCMDXTYPE_DTDSEL OR MMCCMDXTYPE_DMAEN
                  else if c = 18 then MMCCMDXTYPE_MSBSEL OR MMCCMDXTYPE_BCEN OR MMCCMDXTYPE_AC12EN OR MMCCMDXTYPE_DTDSEL OR
                    MMCCMDXTYPE_DMAEN
                  else 0);
       w \<leftarrow> (if sdmmc_cmd AND MMCCMDXTYPE_DPSEL \<noteq> 0 then mx6x_setup_dma_read E w else Some w);
       w \<leftarrow> sd_out32 E MX6X_MMCINTRST 0xffffffff w;
       w \<leftarrow> sd_out32 E MX6X_MMCWATML 0x80 w;
       w \<leftarrow> sd_out32 E MX6X_MMCCMDARG (c_arg (the_cmd w)) w;
       w \<leftarrow> sd_set32 E MX6X_MMCMIX_CTRL (\<lambda>v. mix OR (v AND push_bit 22 0xF)) w;
       sd_out32 E MX6X_MMCCMDXTYPE sdmmc_cmd w
     }"

definition sdmmc_send_cmd :: "'d sd_env \<Rightarrow> ('d, 'z) sd_world_scheme \<Rightarrow> (int \<times> ('d, 'z) sd_world_scheme) option" where
  "sdmmc_send_cmd E w =
     (case get_cmd (c_cmd (the_cmd w)) of None \<Rightarrow> Some (SDMMC_ERROR, w)
      | Some sdmmc_cmd \<Rightarrow> do {
          w \<leftarrow> start_cmd E (c_cmd (the_cmd w)) sdmmc_cmd w;
          w \<leftarrow> sd_wait E MX6X_MMCINTRST (\<lambda>v. v AND (MMCINTR_CC OR MMCINTR_ERRI) \<noteq> 0) w;
          (temp, w) \<leftarrow> sd_in32 E MX6X_MMCINTRST w;
          w \<leftarrow> (if temp AND MMCINTR_ERRI \<noteq> 0
               then reset_cmd_line E (upd_cmd (\<lambda>c. c\<lparr>c_erintsts := ucast temp\<rparr>) w) else Some w);
          if temp AND MMCINTR_ERRI \<noteq> 0 \<and> temp \<noteq> 2 then Some (SDMMC_ERROR, w)
          else do {
            w \<leftarrow> read_response E sdmmc_cmd w;
            if sdmmc_cmd AND MMCCMDXTYPE_DPSEL \<noteq> 0 then wait_transfer E w else Some (SDMMC_OK, w)
          }
        })"

subsection \<open>The card\<close>

definition sdmmc_get_state :: "'d sd_env \<Rightarrow> ('d, 'z) sd_world_scheme \<Rightarrow> (int \<times> ('d, 'z) sd_world_scheme) option" where
  "sdmmc_get_state E w =
     do {
       (r, w) \<leftarrow> sdmmc_send_cmd E (CMD_CREATE MMC_SEND_STATUS (push_bit 16 (ucast (rca (the_card w)))) a_buffer 0 0 0 w);
       if r \<noteq> SDMMC_OK then Some (SDMMC_ERROR, w)
       else Some (SDMMC_OK, upd_card (\<lambda>c. c\<lparr>cd_state := the_rsp w 0 AND 0x1e00\<rparr>) w)
     }"

definition sdmmc_check_ocr :: "'d sd_env \<Rightarrow> u32 \<Rightarrow> ('d, 'z) sd_world_scheme \<Rightarrow> (int \<times> ('d, 'z) sd_world_scheme) option" where
  "sdmmc_check_ocr E v w =
     (if v AND ocr (sdmmc w) \<noteq> 0 then Some (SDMMC_OK, w)
      else do {
        (_, w) \<leftarrow> sdmmc_send_cmd E (CMD_CREATE MMC_GO_IDLE_STATE 0 None 0 0 0 w);
        Some (SDMMC_ERROR, w)
      })"

definition sdmmc_ts_exp :: "u32 list" where
  "sdmmc_ts_exp = [100, 1000, 10000, 100000, 0, 0, 0, 0]"

definition sdmmc_ts_mul :: "u32 list" where
  "sdmmc_ts_mul = [0, 1000, 1200, 1300, 1500, 2000, 2500, 3000, 3500, 4000, 4500, 5000, 5500, 6000, 7000, 8000]"

definition sdmmc_tran_speed :: "u8 \<Rightarrow> u32" where
  "sdmmc_tran_speed ts = sdmmc_ts_exp ! unat (ts AND 0x7) * sdmmc_ts_mul ! unat (drop_bit 3 (ts AND 0x78))"

definition sd_csd_of :: "(nat \<Rightarrow> u32) \<Rightarrow> sd_csd_t \<Rightarrow> sd_csd_t" where
  \<comment> \<open>the fields of the response; those of the other version keep what they have\<close>
  "sd_csd_of resp c =
     (let c = c\<lparr>csd_structure := ucast (drop_bit 30 (resp 3)), taac := ucast (drop_bit 16 (resp 3)),
            nsac := ucast (drop_bit 8 (resp 3)), tran_speed := ucast (resp 3), ccc := ucast (drop_bit 20 (resp 2)),
            read_bl_len := ucast (drop_bit 16 (resp 2) AND 0x0F), read_bl_partial := ucast (drop_bit 15 (resp 2) AND 1),
            write_blk_misalign := ucast (drop_bit 14 (resp 2) AND 1), read_blk_misalign := ucast (drop_bit 13 (resp 2) AND 1),
            dsr_imp := ucast (drop_bit 12 (resp 2) AND 1)\<rparr>;
          c = (if csd_structure c = 0
               then c\<lparr>ver1_c_size := ucast (push_bit 2 (resp 2 AND 0x3FF) OR drop_bit 30 (resp 1)),
                 vdd_r_curr_min := ucast (drop_bit 27 (resp 1) AND 0x07), vdd_r_curr_max := ucast (drop_bit 24 (resp 1) AND 0x07),
                 vdd_w_curr_min := ucast (drop_bit 21 (resp 1) AND 0x07), vdd_w_curr_max := ucast (drop_bit 18 (resp 1) AND 0x07),
                 ver1_c_size_mult := ucast (drop_bit 15 (resp 1) AND 0x07)\<rparr>
               else c\<lparr>ver2_c_size := push_bit 16 (resp 2 AND 0x3F) OR drop_bit 16 (resp 1)\<rparr>)
      in c\<lparr>erase_blk_en := ucast (drop_bit 14 (resp 1) AND 1), sector_size := ucast (drop_bit 7 (resp 1) AND 0x7F),
           wp_grp_size := ucast (resp 1 AND 0x7F), wp_grp_enable := ucast (drop_bit 31 (resp 0)),
           r2w_factor := ucast (drop_bit 26 (resp 0) AND 0x07), write_bl_len := ucast (drop_bit 22 (resp 0) AND 0x0F),
           write_bl_partial := ucast (drop_bit 21 (resp 0) AND 1), file_format_grp := ucast (drop_bit 15 (resp 0) AND 1),
           csd_copy := ucast (drop_bit 14 (resp 0) AND 1), perm_write_protect := ucast (drop_bit 13 (resp 0) AND 1),
           tmp_write_protect := ucast (drop_bit 12 (resp 0) AND 1), file_format := ucast (drop_bit 10 (resp 0) AND 3)\<rparr>)"

definition sd_geometry :: "sd_csd_t \<Rightarrow> u32 \<times> u32" where
  \<comment> \<open>\<open>bsize\<close> and \<open>csize * csizem\<close>\<close>
  "sd_geometry c =
     (let (bsize, csize, csizem) =
            (if csd_structure c = 0
             then (push_bit (unat (read_bl_len c)) 1, ucast (ver1_c_size c) + 1, push_bit (unat (ver1_c_size_mult c) + 2) 1)
             else (SDMMC_BLOCKSIZE, ver2_c_size c + 1, 1024));
          (bsize, csize) = (if bsize > SDMMC_BLOCKSIZE \<and> bsize mod SDMMC_BLOCKSIZE = 0
                            then (SDMMC_BLOCKSIZE, csize * (bsize div SDMMC_BLOCKSIZE)) else (bsize, csize))
      in (bsize, csize * csizem))"

definition sd_parse_csd :: "'d sd_env \<Rightarrow> (nat \<Rightarrow> u32) \<Rightarrow> ('d, 'z) sd_world_scheme \<Rightarrow> (int \<times> ('d, 'z) sd_world_scheme) option" where
  "sd_parse_csd E resp w =
     (let c = sd_csd_of resp (sd_csd (sdmmc w));
          (bsize, num) = sd_geometry c;
          w = w\<lparr>sdmmc := (sdmmc w)\<lparr>sd_csd := c\<rparr>\<rparr>;
          w = upd_card (\<lambda>k. k\<lparr>blk_size := bsize, blk_num := num, cd_speed := sdmmc_tran_speed (tran_speed c)\<rparr>) w
      in do { (r, w) \<leftarrow> sdmmc_get_state E w; if r \<noteq> SDMMC_OK then Some (SDMMC_ERROR, w) else Some (SDMMC_OK, w) })"

definition sd_parse_cid :: "(nat \<Rightarrow> u32) \<Rightarrow> ('d, 'z) sd_world_scheme \<Rightarrow> ('d, 'z) sd_world_scheme" where
  "sd_parse_cid resp w = w\<lparr>sdmmc := (sdmmc w)\<lparr>sd_cid :=
     \<lparr>scid_mid = ucast (drop_bit 24 (resp 3)),
      scid_oid = [ucast (drop_bit 8 (resp 3) AND 0xFF), ucast (drop_bit 16 (resp 3) AND 0xFFFF), 0],
      scid_pnm = [ucast (resp 3), ucast (drop_bit 24 (resp 2)), ucast (drop_bit 16 (resp 2)), ucast (drop_bit 8 (resp 2)),
        ucast (resp 2), 0],
      scid_prv = ucast (drop_bit 24 (resp 1)),
      scid_psn = push_bit 8 (resp 1) OR drop_bit 24 (resp 0),
      scid_mdt = ucast (drop_bit 8 (resp 0) AND 0xFFFF)\<rparr>\<rparr>\<rparr>"

definition mmc_parse_csd :: "(nat \<Rightarrow> u32) \<Rightarrow> ('d, 'z) sd_world_scheme \<Rightarrow> ('d, 'z) sd_world_scheme" where
  "mmc_parse_csd resp w =
     (let c = \<lparr>m_csd_structure = ucast (drop_bit 30 (resp 3)), m_mmc_prot = ucast (drop_bit 26 (resp 3) AND 0x0F),
            m_tran_speed = ucast (resp 3), m_read_bl_len = ucast (drop_bit 16 (resp 2) AND 0x0F),
            m_c_size = ucast (push_bit 2 (resp 2 AND 0x3FF) OR drop_bit 30 (resp 1)),
            m_c_size_mult = ucast (drop_bit 15 (resp 1) AND 0x07)\<rparr>
      in upd_card (\<lambda>k. k\<lparr>blk_size := push_bit (unat (m_read_bl_len c)) 1,
             blk_num := (ucast (m_c_size c) + 1) * push_bit (unat (m_c_size_mult c) + 2) 1\<rparr>)
           (w\<lparr>sdmmc := (sdmmc w)\<lparr>mmc_csd := c\<rparr>\<rparr>))"

definition mmc_parse_cid :: "(nat \<Rightarrow> u32) \<Rightarrow> ('d, 'z) sd_world_scheme \<Rightarrow> ('d, 'z) sd_world_scheme" where
  "mmc_parse_cid resp w =
     (let c = mmc_cid (sdmmc w);
          pnm = (mcid_pnm c)(0 := ucast (resp 3), 1 := ucast (drop_bit 24 (resp 2)), 2 := ucast (drop_bit 16 (resp 2)),
            3 := ucast (drop_bit 8 (resp 2)), 4 := ucast (resp 2), 5 := ucast (drop_bit 24 (resp 1)));
          c = (if m_mmc_prot (mmc_csd (sdmmc w)) < 2
               then c\<lparr>mcid_mid := drop_bit 8 (resp 3), mcid_pnm := pnm(6 := ucast (drop_bit 16 (resp 1)), 7 := 0),
                 mcid_hwr := ucast (drop_bit 12 (resp 1) AND 0x0F), mcid_fwr := ucast (drop_bit 8 (resp 1) AND 0x0F)\<rparr>
               else c\<lparr>mcid_mid := drop_bit 24 (resp 3), mcid_oid := ucast (drop_bit 8 (resp 3) AND 0xFFFF),
                 mcid_pnm := pnm(6 := 0)\<rparr>)
      in w\<lparr>sdmmc := (sdmmc w)\<lparr>mmc_cid :=
           c\<lparr>mcid_psn := push_bit 16 (resp 1 AND 0xFFFF) OR drop_bit 16 (resp 0),
             mcid_mcd := ucast (drop_bit 12 (resp 0) AND 0x0F), mcid_ycd := ucast (drop_bit 8 (resp 0) AND 0x0F) + 1997\<rparr>\<rparr>\<rparr>)"

definition mmc_switch_mode :: "'d sd_env \<Rightarrow> ('d, 'z) sd_world_scheme \<Rightarrow> (int \<times> ('d, 'z) sd_world_scheme) option" where
  "mmc_switch_mode E w =
     do {
       (r, w) \<leftarrow> sdmmc_send_cmd E (CMD_CREATE MMC_SWITCH (push_bit 24 3 OR push_bit 16 183 OR push_bit 8 2) None 0 0 0 w);
       if r \<noteq> SDMMC_OK then Some (- 1, w)
       else do {
         w \<leftarrow> sd_set_bus_width E 8 w;
         (r, w) \<leftarrow> sdmmc_send_cmd E (CMD_CREATE MMC_SWITCH (push_bit 24 3 OR push_bit 16 185 OR push_bit 8 1 OR 1) None 0 0 0 w);
         if r \<noteq> SDMMC_OK then Some (- 1, w)
         else do { w \<leftarrow> sdmmc_set_frq E 52000000 w; Some (SDMMC_OK, w) }
       }
     }"

primrec read_fifo :: "'d sd_env \<Rightarrow> nat \<Rightarrow> ('d, 'z) sd_world_scheme \<Rightarrow> (u8 list \<times> ('d, 'z) sd_world_scheme) option" where
  \<comment> \<open>\<open>n\<close> words from the data port\<close>
  "read_fifo E 0 w = Some ([], w)"
| "read_fifo E (Suc n) w = do { (v, w) \<leftarrow> sd_in32 E MX6X_MMCDATAPORT w; (bs, w) \<leftarrow> read_fifo E n w; Some (bytes32 v @ bs, w) }"

definition sdmmc_pio_read ::
  "'d sd_env \<Rightarrow> u32 \<Rightarrow> ('d, 'z) sd_world_scheme \<Rightarrow> ((int \<times> u8 list) \<times> ('d, 'z) sd_world_scheme) option" where
  \<comment> \<open>the result and, after a success, the bytes of the buffer; \<open>len\<close> is a multiple of four\<close>
  "sdmmc_pio_read E len w =
     do {
       w \<leftarrow> sd_wait_inhibit E w;
       w \<leftarrow> sd_wait E MX6X_MMCPRSNTST (\<lambda>v. v AND MMCPRSNTST_DLA = 0) w;
       w \<leftarrow> sd_out32 E MX6X_MMCBLATR (push_bit 16 1 OR len) w;
       w \<leftarrow> sd_out32 E MX6X_MMCINTRST 0xffffffff w;
       w \<leftarrow> sd_set32 E MX6X_MMCMIX_CTRL (\<lambda>v. MMCCMDXTYPE_DTDSEL OR (v AND push_bit 22 0xF)) w;
       w \<leftarrow> sd_out32 E MX6X_MMCWATML 0x80 w;
       w \<leftarrow> sd_out32 E MX6X_MMCCMDARG (c_arg (the_cmd w)) w;
       w \<leftarrow> sd_out32 E MX6X_MMCCMDXTYPE (push_bit 24 (of_int (c_cmd (the_cmd w))) OR MMCCMDXTYPE_CICEN OR MMCCMDXTYPE_CCCEN OR
              MMCCMDXTYPE_RSPTYPL48 OR MMCCMDXTYPE_DPSEL) w;
       w \<leftarrow> sd_wait E MX6X_MMCINTRST (\<lambda>v. v AND (MMCINTR_BRR OR MMCINTR_ERRI) \<noteq> 0) w;
       (v, w) \<leftarrow> sd_in32 E MX6X_MMCINTRST w;
       w \<leftarrow> (if v AND MMCINTR_ERRI \<noteq> 0 then do {
                (v, w) \<leftarrow> sd_in32 E MX6X_MMCINTRST w;
                reset_cmd_line E (upd_cmd (\<lambda>c. c\<lparr>c_erintsts := ucast v\<rparr>) w)
              } else Some w);
       if v AND MMCINTR_ERRI \<noteq> 0 \<and> c_erintsts (the_cmd w) \<noteq> 2 then Some ((SDMMC_ERROR, []), w)
       else do {
         w \<leftarrow> (case c_rsp (the_cmd w) of None \<Rightarrow> Some w
              | Some r \<Rightarrow> do { (r0, w) \<leftarrow> sd_in32 E MX6X_MMCCMDRSP0 w; Some (upd_cmd (\<lambda>c. c\<lparr>c_rsp := Some (r(0 := r0))\<rparr>) w) });
         (bs, w) \<leftarrow> read_fifo E (unat len div 4) w;
         Some ((SDMMC_OK, bs), w)
       }
     }"

definition sdmmc_highspeed :: "'d sd_env \<Rightarrow> ('d, 'z) sd_world_scheme \<Rightarrow> (int \<times> ('d, 'z) sd_world_scheme) option" where
  "sdmmc_highspeed E w =
     do {
       (r, w) \<leftarrow> sdmmc_send_cmd E (CMD_CREATE MMC_APP_CMD (push_bit 16 (ucast (rca (the_card w)))) None 0 0 0 w);
       if r \<noteq> SDMMC_OK then Some (SDMMC_ERROR, w)
       else do {
         ((r, tmp), w) \<leftarrow> sdmmc_pio_read E 8 (CMD_CREATE MMC_SEND_SCR 0 None 0 0 0 w);
         if r \<noteq> SDMMC_OK then Some (SDMMC_ERROR, w)
         else if tmp ! 0 AND 0x0F < 1 then Some (SDMMC_ERROR, w)
         else do {
           ((r, tmp), w) \<leftarrow> sdmmc_pio_read E 64 (CMD_CREATE MMC_SWITCH 0x00ffff01 None 0 0 0 w);
           if r \<noteq> SDMMC_OK then Some (SDMMC_ERROR, w)
           else if tmp ! 13 AND 0x02 = 0 then Some (SDMMC_ERROR, w)
           else do {
             ((r, tmp), w) \<leftarrow> sdmmc_pio_read E 64 (CMD_CREATE MMC_SWITCH 0x80ffff01 None 0 0 0 w);
             if r \<noteq> SDMMC_OK then Some (SDMMC_ERROR, w)
             else Some (SDMMC_OK, if tmp ! 16 AND 0x0F = 1 then upd_card (\<lambda>c. c\<lparr>cd_speed := 50000000\<rparr>) w else w)
           }
         }
       }
     }"

subsection \<open>Identification and initialisation of the card\<close>

text \<open>
  The steps of \<open>sdmmc_init_card\<close>. \<open>then_ok\<close> goes on when the result is \<open>SDMMC_OK\<close> and returns
  \<open>SDMMC_ERROR\<close> otherwise.
\<close>

definition then_ok ::
  "(int \<times> ('d, 'z) sd_world_scheme) option \<Rightarrow> (('d, 'z) sd_world_scheme \<Rightarrow> (int \<times> ('d, 'z) sd_world_scheme) option) \<Rightarrow>
     (int \<times> ('d, 'z) sd_world_scheme) option" where
  "then_ok m f = do { (r, w) \<leftarrow> m; if r \<noteq> SDMMC_OK then Some (SDMMC_ERROR, w) else f w }"

definition probe_type :: "'d sd_env \<Rightarrow> ('d, 'z) sd_world_scheme \<Rightarrow> ('d, 'z) sd_world_scheme option" where
  "probe_type E w =
     do {
       (r, w) \<leftarrow> sdmmc_send_cmd E (CMD_CREATE MMC_IF_COND (icr (sdmmc w)) None 0 0 0 w);
       if r = SDMMC_OK then Some (upd_card (\<lambda>c. c\<lparr>cd_type := eSDC_V200\<rparr>) w)
       else do {
         (r, w) \<leftarrow> sdmmc_send_cmd E (CMD_CREATE MMC_APP_CMD 0 None 0 0 0 w);
         Some (upd_card (\<lambda>c. c\<lparr>cd_type := (if r = SDMMC_OK then eSDC else eMMC)\<rparr>) w)
       }
     }"

datatype power = Failed | Powered u32 | Timed_out u32

primrec power_up_v200 ::
  "'d sd_env \<Rightarrow> nat \<Rightarrow> u32 \<Rightarrow> bool \<Rightarrow> ('d, 'z) sd_world_scheme \<Rightarrow> (power \<times> ('d, 'z) sd_world_scheme) option" where
  \<comment> \<open>with what the response buffer holds, and whether this is the first round\<close>
  "power_up_v200 E 0 r0 first w = Some (Timed_out r0, w)"
| "power_up_v200 E (Suc n) r0 first w =
     do {
       (r, w) \<leftarrow> sdmmc_send_cmd E (CMD_CREATE MMC_APP_CMD (push_bit 16 (ucast (rca (the_card w)))) None 0 0 0 w);
       if r \<noteq> SDMMC_OK then Some (Failed, w)
       else do {
         (r, w) \<leftarrow> sdmmc_send_cmd E (CMD_CREATE SD_SEND_OP_COND (0xc0000000 OR ocr (sdmmc w)) (Some (\<lambda>_. r0)) 0 0 0 w);
         if r \<noteq> SDMMC_OK then Some (Failed, w)
         else do {
           let r0 = the_rsp w 0;
           (r, w) \<leftarrow> (if first then sdmmc_check_ocr E r0 w else Some (SDMMC_OK, w));
           if r \<noteq> SDMMC_OK then Some (Failed, w)
           else if r0 AND 0x80000000 = 0x80000000 then Some (Powered r0, w)
           else power_up_v200 E n r0 False w
         }
       }
     }"

primrec power_up_same ::
  "'d sd_env \<Rightarrow> nat \<Rightarrow> bool \<Rightarrow> ('d, 'z) sd_world_scheme \<Rightarrow> (power \<times> ('d, 'z) sd_world_scheme) option" where
  \<comment> \<open>the command is made once, before the loop, and sent again in every round\<close>
  "power_up_same E 0 first w = Some (Timed_out (the_rsp w 0), w)"
| "power_up_same E (Suc n) first w =
     do {
       (r, w) \<leftarrow> sdmmc_send_cmd E w;
       if r \<noteq> SDMMC_OK then Some (Failed, w)
       else do {
         let r0 = the_rsp w 0;
         (r, w) \<leftarrow> (if first then sdmmc_check_ocr E r0 w else Some (SDMMC_OK, w));
         if r \<noteq> SDMMC_OK then Some (Failed, w)
         else if r0 AND 0x80000000 \<noteq> 0 then Some (Powered r0, w)
         else power_up_same E n False w
       }
     }"

definition power_up :: "'d sd_env \<Rightarrow> ('d, 'z) sd_world_scheme \<Rightarrow> (int \<times> ('d, 'z) sd_world_scheme) option" where
  "power_up E w =
     (case cd_type (the_card w) of
        eSDC_V200 \<Rightarrow> then_ok (sdmmc_send_cmd E (CMD_CREATE MMC_IF_COND (icr (sdmmc w)) None 0 0 0 w)) (\<lambda>w. do {
          (p, w) \<leftarrow> power_up_v200 E POWER_UP_WAIT 0 True w;
          let hc = (\<lambda>r0. upd_card (\<lambda>c. c\<lparr>cd_type := (if r0 AND 0x40000000 = 0x40000000 then eSDC_HC else eSDC)\<rparr>) w);
          Some (case p of Failed \<Rightarrow> (SDMMC_ERROR, w) | Powered r0 \<Rightarrow> (SDMMC_OK, hc r0) | Timed_out r0 \<Rightarrow> (SDMMC_ERROR, hc r0))
        })
      | eSDC \<Rightarrow> do {
          (p, w) \<leftarrow> power_up_same E POWER_UP_WAIT True
            (CMD_CREATE SD_SEND_OP_COND (0x80000000 OR ocr (sdmmc w)) a_buffer 0 0 0 w);
          Some (case p of Powered _ \<Rightarrow> (SDMMC_OK, w) | _ \<Rightarrow> (SDMMC_ERROR, w))
        }
      | eMMC \<Rightarrow> do {
          (p, w) \<leftarrow> power_up_same E POWER_UP_WAIT True
            (CMD_CREATE MMC_SEND_OP_COND (0xc0000000 OR ocr (sdmmc w)) a_buffer 0 0 0 w);
          let hc = (\<lambda>r0. if r0 AND 0x40000000 = 0x40000000 then upd_card (\<lambda>c. c\<lparr>cd_type := eMMC_HC\<rparr>) w else w);
          Some (case p of Failed \<Rightarrow> (SDMMC_ERROR, w) | Powered r0 \<Rightarrow> (SDMMC_OK, hc r0) | Timed_out r0 \<Rightarrow> (SDMMC_ERROR, hc r0))
        }
      | _ \<Rightarrow> Some (SDMMC_ERROR, w))"

definition is_sdc :: "card_type_t \<Rightarrow> bool" where "is_sdc t \<longleftrightarrow> t = eSDC \<or> t = eSDC_HC"
definition is_mmc :: "card_type_t \<Rightarrow> bool" where "is_mmc t \<longleftrightarrow> t = eMMC \<or> t = eMMC_HC"

definition set_relative_addr :: "'d sd_env \<Rightarrow> ('d, 'z) sd_world_scheme \<Rightarrow> (int \<times> ('d, 'z) sd_world_scheme) option" where
  "set_relative_addr E w =
     (let w0 = w; w = upd_card (\<lambda>c. c\<lparr>rca := 0x0001\<rparr>) w in
      if is_sdc (cd_type (the_card w)) then
        then_ok (sdmmc_send_cmd E (CMD_CREATE MMC_SET_RELATIVE_ADDR (push_bit 16 (ucast (rca (the_card w)))) a_buffer 0 0 0 w)) (\<lambda>w.
          sdmmc_get_state E (upd_card (\<lambda>c. c\<lparr>rca := ucast (drop_bit 16 (the_rsp w 0))\<rparr>) w))
      else if is_mmc (cd_type (the_card w)) then
        then_ok (sdmmc_send_cmd E (CMD_CREATE MMC_SET_RELATIVE_ADDR (push_bit 16 (ucast (rca (the_card w)))) a_buffer 0 0 0 w))
          (sdmmc_get_state E)
      else Some (SDMMC_ERROR, w0))"

definition parse_registers :: "'d sd_env \<Rightarrow> (nat \<Rightarrow> u32) \<Rightarrow> (nat \<Rightarrow> u32) \<Rightarrow> ('d, 'z) sd_world_scheme \<Rightarrow> (int \<times> ('d, 'z) sd_world_scheme) option" where
  "parse_registers E csd cid w =
     (if is_sdc (cd_type (the_card w)) then then_ok (sd_parse_csd E csd w) (\<lambda>w. Some (SDMMC_OK, sd_parse_cid cid w))
      else if is_mmc (cd_type (the_card w)) then Some (SDMMC_OK, mmc_parse_cid cid (mmc_parse_csd csd w))
      else Some (SDMMC_ERROR, w))"

definition switch_mode :: "'d sd_env \<Rightarrow> ('d, 'z) sd_world_scheme \<Rightarrow> (int \<times> ('d, 'z) sd_world_scheme) option" where
  "switch_mode E w =
     (if is_sdc (cd_type (the_card w)) then
        then_ok (sdmmc_send_cmd E (CMD_CREATE MMC_APP_CMD (push_bit 16 (ucast (rca (the_card w)))) None 0 0 0 w)) (\<lambda>w.
        then_ok (sdmmc_send_cmd E (CMD_CREATE SD_SET_BUS_WIDTH 2 None 0 0 0 w)) (\<lambda>w. do {
          w \<leftarrow> sd_set_bus_width E 4 w;
          (_, w) \<leftarrow> sdmmc_highspeed E w;
          w \<leftarrow> sdmmc_set_frq E (cd_speed (the_card w)) w;
          Some (SDMMC_OK, w)
        }))
      else if is_mmc (cd_type (the_card w)) then then_ok (mmc_switch_mode E w) (\<lambda>w. Some (SDMMC_OK, w))
      else Some (SDMMC_ERROR, w))"

definition identify_card :: "'d sd_env \<Rightarrow> ('d, 'z) sd_world_scheme \<Rightarrow> (int \<times> ('d, 'z) sd_world_scheme) option" where
  \<comment> \<open>from the power-up on\<close>
  "identify_card E w =
     then_ok (sdmmc_send_cmd E (CMD_CREATE MMC_ALL_SEND_CID 0 a_buffer 0 0 0 (upd_card (\<lambda>c. c\<lparr>cd_state := MMC_READY\<rparr>) w))) (\<lambda>w.
       let cid = the_rsp w; w = upd_card (\<lambda>c. c\<lparr>cd_state := MMC_IDENT\<rparr>) w in
       then_ok (set_relative_addr E w) (\<lambda>w.
       then_ok (sdmmc_send_cmd E (CMD_CREATE MMC_SEND_CSD (push_bit 16 (ucast (rca (the_card w)))) a_buffer 0 0 0 w)) (\<lambda>w.
       then_ok (parse_registers E (the_rsp w) cid w) (\<lambda>w.
       then_ok (sdmmc_send_cmd E (CMD_CREATE MMC_SEL_DES_CARD (push_bit 16 (ucast (rca (the_card w)))) None 0 0 0 w)) (\<lambda>w.
       then_ok (sdmmc_get_state E w) (\<lambda>w.
         let w = upd_card (\<lambda>c. c\<lparr>blk_num := blk_num c * (blk_size c div SDMMC_BLOCKSIZE), blk_size := SDMMC_BLOCKSIZE\<rparr>) w in
         then_ok (sdmmc_send_cmd E (CMD_CREATE MMC_SET_BLOCKLEN (blk_size (the_card w)) None 0 0 0 w)) (\<lambda>w.
         then_ok (sdmmc_get_state E w) (switch_mode E))))))))"

definition sdmmc_init_card :: "'d sd_env \<Rightarrow> ('d, 'z) sd_world_scheme \<Rightarrow> (int \<times> ('d, 'z) sd_world_scheme) option" where
  "sdmmc_init_card E w =
     then_ok (sdmmc_send_cmd E (CMD_CREATE MMC_GO_IDLE_STATE 0 None 0 0 0 (upd_card (\<lambda>c. c\<lparr>rca := 0\<rparr>) w))) (\<lambda>w. do {
       w \<leftarrow> probe_type E (upd_card (\<lambda>c. c\<lparr>cd_state := MMC_IDLE\<rparr>) w);
       then_ok (sdmmc_send_cmd E (CMD_CREATE MMC_GO_IDLE_STATE 0 None 0 0 0 w)) (\<lambda>w.
       then_ok (power_up E w) (identify_card E))
     })"

subsection \<open>Reading\<close>

partial_function (option) wait_tran :: "'d sd_env \<Rightarrow> ('d, 'z) sd_world_scheme \<Rightarrow> (int \<times> ('d, 'z) sd_world_scheme) option" where
  "wait_tran E w =
     (if cd_state (the_card w) \<noteq> MMC_TRAN then do {
        (r, w) \<leftarrow> sdmmc_get_state E w;
        if r \<noteq> SDMMC_OK then Some (SDMMC_ERROR, w) else wait_tran E w
      }
      else Some (SDMMC_OK, w))"

definition sdmmc_read ::
  "'d sd_env \<Rightarrow> u32 \<Rightarrow> u32 \<Rightarrow> u32 \<Rightarrow> ('d, 'z) sd_world_scheme \<Rightarrow> (int \<times> ('d, 'z) sd_world_scheme) option" where
  "sdmmc_read E buf blkno blkcnt w =
     (let c = the_card w in
      if blkno \<ge> blk_num c \<or> blkno + blkcnt > blk_num c \<or> blkno + blkcnt < blkno then Some (SDMMC_ERROR, w)
      else if blkcnt = 0 then Some (SDMMC_OK, w)
      else
        let op = (if blkcnt = 1 then MMC_READ_SINGLE_BLOCK else MMC_READ_MULTIPLE_BLOCK);
            arg = (if cd_type c = eMMC \<or> cd_type c = eSDC then blkno * SDMMC_BLOCKSIZE else blkno)
        in then_ok (sdmmc_send_cmd E (CMD_CREATE op arg None SDMMC_BLOCKSIZE blkcnt buf w)) (wait_tran E))"

end
