(* ===== verification/Ipl_Fat.thy ===== *)
theory Ipl_Fat
  imports Ipl_Card
begin

section \<open>The initial program loader: the file system\<close>

text \<open>
  \<^verbatim>\<open>ipl/boards/mx6x-sabreARD/fat-fs.c\<close> and \<^verbatim>\<open>fat-fs.h\<close>: the first partition of the card, with a FAT
  file system, and a file in its root directory. The variables of the file are fields that are added to
  \<open>sd_world\<close>; \<open>fs_info.device\<close> is the structure \<open>sdmmc\<close> of the world. The buffer \<open>blk_buf\<close>, two sectors
  long, is memory from the address \<open>B\<close> on. The structures of a sector are read at their offsets. A file name
  is the list of its characters, without the final 0.

  The variables of type \<open>int\<close> that count bytes are integers: no count is close to \<open>2 ^ 31\<close> for a file that
  fits in the memory of the board.
\<close>

subsection \<open>The variables\<close>

definition SECTOR_SIZE :: u32 where "SECTOR_SIZE = 512"
definition FAT32 :: u32 where "FAT32 = 32"
definition ENT_UNUSED :: u8 where "ENT_UNUSED = 0xE5"
definition ENT_END :: u8 where "ENT_END = 0"

record fs_info_t =
  fs_offset :: u32
  fat_type :: u32
  total_sectors :: u32
  root_dir_sectors :: u32
  reserved_sectors :: u32
  data_sectors :: u32
  fat_size :: u32
  number_of_fats :: u32
  cluster_size :: u32
  count_of_clusters :: u32
  fat1_start :: u32
  fat2_start :: u32
  root_dir_start :: u32
  root_entry_count :: u32
  cluster2_start :: u32

record 'd fat_world = "'d sd_world" +
  fs_info :: fs_info_t
  g_fat_sector :: u32
  cache_valid :: bool
  blk :: u32

definition GET_WORD :: "memory \<Rightarrow> u32 \<Rightarrow> u32" where
  "GET_WORD m a = ucast (m (unat a)) + push_bit 8 (ucast (m (unat (a + 1))))"

definition GET_LONG :: "memory \<Rightarrow> u32 \<Rightarrow> u32" where
  "GET_LONG m a = ucast (m (unat a)) + push_bit 8 (ucast (m (unat (a + 1)))) + push_bit 16 (ucast (m (unat (a + 2)))) +
     push_bit 24 (ucast (m (unat (a + 3))))"

subsection \<open>Sectors\<close>

definition read_sector :: "'d sd_env \<Rightarrow> u32 \<Rightarrow> u32 \<Rightarrow> u32 \<Rightarrow> 'd fat_world \<Rightarrow> (int \<times> 'd fat_world) option" where
  "read_sector E blkno buf blkcnt w = sdmmc_read E buf blkno blkcnt w"

definition read_fsector :: "'d sd_env \<Rightarrow> u32 \<Rightarrow> u32 \<Rightarrow> u32 \<Rightarrow> 'd fat_world \<Rightarrow> (int \<times> 'd fat_world) option" where
  "read_fsector E sector buf sect_cnt w = read_sector E (sector + fs_offset (fs_info w)) buf sect_cnt w"

subsection \<open>The partition\<close>

partial_function (option) count_down :: "int \<Rightarrow> int \<Rightarrow> u32 \<Rightarrow> u32 option" where
  \<comment> \<open>\<open>for (n = 0; a >= b; n++) a -= b\<close>\<close>
  "count_down a b n = (if a \<ge> b then count_down (a - b) b (n + 1) else Some n)"

definition fat_detect_type :: "u32 \<Rightarrow> memory \<Rightarrow> fs_info_t \<Rightarrow> (u32 \<times> fs_info_t) option" where
  \<comment> \<open>the offsets are those of \<open>bpb_t\<close> and \<open>bpb32_t\<close>\<close>
  "fat_detect_type bpb m f =
     (if GET_WORD m (bpb + 510) \<noteq> 0xaa55 then Some (- 1, f)
      else do {
        let bs = uint (GET_WORD m (bpb + 11));
        ns \<leftarrow> count_down (uint (GET_WORD m (bpb + 17)) * 32 + bs - 1) bs 0;
        let f = f\<lparr>root_dir_sectors := ns\<rparr>;
        let f = f\<lparr>fat_size := (if GET_WORD m (bpb + 22) = 0 then GET_LONG m (bpb + 36) else GET_WORD m (bpb + 22))\<rparr>;
        let f = f\<lparr>total_sectors := (if GET_WORD m (bpb + 19) = 0 then GET_LONG m (bpb + 32) else GET_WORD m (bpb + 19))\<rparr>;
        let f = f\<lparr>number_of_fats := ucast (m (unat (bpb + 16))), reserved_sectors := GET_WORD m (bpb + 14)\<rparr>;
        let f = f\<lparr>data_sectors := total_sectors f - (reserved_sectors f + number_of_fats f * fat_size f + root_dir_sectors f)\<rparr>;
        let f = f\<lparr>cluster_size := ucast (m (unat (bpb + 13)))\<rparr>;
        nc \<leftarrow> count_down (sint (data_sectors f)) (sint (cluster_size f)) 0;
        let f = f\<lparr>count_of_clusters := nc, root_entry_count := GET_WORD m (bpb + 17), fat1_start := reserved_sectors f\<rparr>;
        let f = f\<lparr>fat2_start := fat1_start f + fat_size f\<rparr>;
        let f = f\<lparr>root_dir_start := fat2_start f + fat_size f\<rparr>;
        let f = f\<lparr>cluster2_start := root_dir_start f + (root_entry_count f * 32 + (512 - 1)) div 512\<rparr>;
        if count_of_clusters f < 4085 then Some (12, f)
        else if count_of_clusters f < 65525 then Some (16, f)
        else Some (32, f\<lparr>root_dir_start := GET_LONG m (bpb + 44)\<rparr>)
      })"

definition fat_read_mbr :: "'d sd_env \<Rightarrow> u32 \<Rightarrow> 'd fat_world \<Rightarrow> (int \<times> 'd fat_world) option" where
  "fat_read_mbr E B w =
     do {
       let w = w\<lparr>blk := B\<rparr>;
       let mbr = blk w;
       let bpb = blk w + SECTOR_SIZE;
       let pe = mbr + 446;
       (r, w) \<leftarrow> read_sector E 0 mbr 1 w;
       if r \<noteq> SDMMC_OK then Some (SDMMC_ERROR, w)
       else if ld16 (mem w) (mbr + 510) \<noteq> 0xaa55 then Some (SDMMC_ERROR, w)
       else if GET_LONG (mem w) (pe + 12) = 0 then Some (SDMMC_ERROR, w)
       else do {
         let w = w\<lparr>fs_info := (fs_info w)\<lparr>fs_offset := GET_LONG (mem w) (pe + 8)\<rparr>\<rparr>;
         (r, w) \<leftarrow> read_fsector E 0 bpb 1 w;
         if r \<noteq> SDMMC_OK then Some (SDMMC_ERROR, w)
         else do {
           (t, f) \<leftarrow> fat_detect_type bpb (mem w) (fs_info w);
           let w = w\<lparr>fs_info := f\<lparr>fat_type := t\<rparr>\<rparr>;
           Some (if t = - 1 then SDMMC_ERROR else SDMMC_OK, w)
         }
       }
     }"

subsection \<open>The table\<close>

definition cluster2fsector :: "fs_info_t \<Rightarrow> u32 \<Rightarrow> u32" where
  "cluster2fsector f cluster = cluster2_start f + (cluster - 2) * cluster_size f"

definition get_fat_entry12 :: "'d sd_env \<Rightarrow> u32 \<Rightarrow> 'd fat_world \<Rightarrow> (u32 \<times> 'd fat_world) option" where
  "get_fat_entry12 E cluster w =
     (let fat_sector = fat1_start (fs_info w) + (cluster + cluster div 2) div SECTOR_SIZE;
          fat_offs = (cluster + cluster div 2) mod SECTOR_SIZE
      in do {
        (r, w) \<leftarrow> read_fsector E fat_sector (blk w) 2 w;
        if r \<noteq> SDMMC_OK then Some (0, w)
        else if cluster AND 1 \<noteq> 0 then Some (drop_bit 4 (GET_WORD (mem w) (blk w + fat_offs)), w)
        else Some (GET_WORD (mem w) (blk w + fat_offs) AND 0xfff, w)
      })"

definition get_fat_entry16 :: "'d sd_env \<Rightarrow> u32 \<Rightarrow> u32 \<Rightarrow> 'd fat_world \<Rightarrow> (u32 \<times> 'd fat_world) option" where
  "get_fat_entry16 E B cluster w =
     (let fat_sector = fat1_start (fs_info w) + (cluster * 2) div SECTOR_SIZE;
          fat_offs = (cluster * 2) mod SECTOR_SIZE
      in if cache_valid w \<and> g_fat_sector w = fat_sector then Some (ucast (ld16 (mem w) (B + fat_offs)), w)
         else do {
           (r, w) \<leftarrow> read_fsector E fat_sector B 1 w;
           if r \<noteq> SDMMC_OK then Some (0, w)
           else let w = w\<lparr>g_fat_sector := fat_sector\<rparr> in Some (ucast (ld16 (mem w) (B + fat_offs)), w)
         })"

definition get_fat_entry32 :: "'d sd_env \<Rightarrow> u32 \<Rightarrow> u32 \<Rightarrow> 'd fat_world \<Rightarrow> (u32 \<times> 'd fat_world) option" where
  "get_fat_entry32 E B cluster w =
     (let fat_sector = fat1_start (fs_info w) + (cluster * 4) div SECTOR_SIZE;
          fat_offs = (cluster * 4) mod SECTOR_SIZE
      in if cache_valid w \<and> g_fat_sector w = fat_sector then Some (ld32 (mem w) (B + fat_offs) AND 0x0fffffff, w)
         else do {
           (r, w) \<leftarrow> read_fsector E fat_sector B 1 w;
           if r \<noteq> SDMMC_OK then Some (0, w)
           else let w = w\<lparr>g_fat_sector := fat_sector\<rparr> in Some (ld32 (mem w) (B + fat_offs) AND 0x0fffffff, w)
         })"

definition fat_get_fat_entry :: "'d sd_env \<Rightarrow> u32 \<Rightarrow> u32 \<Rightarrow> 'd fat_world \<Rightarrow> (u32 \<times> 'd fat_world) option" where
  "fat_get_fat_entry E B cluster w =
     (if fat_type (fs_info w) = 12 then get_fat_entry12 E cluster w
      else if fat_type (fs_info w) = 16 then get_fat_entry16 E B cluster w
      else if fat_type (fs_info w) = 32 then get_fat_entry32 E B cluster w
      else Some (0, w))"

definition end_of_file :: "fs_info_t \<Rightarrow> u32 \<Rightarrow> bool" where
  "end_of_file f cluster =
     (if fat_type f = 12 then cluster = 0x0ff8 \<or> cluster = 0x0fff
      else if fat_type f = 16 then cluster = 0xfff8 \<or> cluster = 0xffff
      else if fat_type f = 32 then cluster = 0x0ffffff8 \<or> cluster = 0x0fffffff
      else True)"

subsection \<open>Files\<close>

partial_function (option) consolidate ::
  "'d sd_env \<Rightarrow> u32 \<Rightarrow> int \<Rightarrow> int \<Rightarrow> int \<Rightarrow> u32 \<Rightarrow> 'd fat_world \<Rightarrow> ((int \<times> u32) \<times> 'd fat_world) option" where
  \<comment> \<open>the inner loop of \<open>fat_copy_file\<close>: clusters that follow each other on the card\<close>
  "consolidate E B cbytes sz txf curr_c w =
     (if sz > txf then do {
        (next_c, w) \<leftarrow> fat_get_fat_entry E B curr_c w;
        if next_c = curr_c + 1 \<and> txf > 20 * 512 then consolidate E B cbytes sz (txf + cbytes) next_c w
        else Some ((txf, next_c), w)
      }
      else Some ((txf, curr_c), w))"

partial_function (option) copy_loop ::
  "'d sd_env \<Rightarrow> u32 \<Rightarrow> int \<Rightarrow> int \<Rightarrow> u32 \<Rightarrow> u32 \<Rightarrow> 'd fat_world \<Rightarrow> (int \<times> 'd fat_world) option" where
  \<comment> \<open>the outer loop of \<open>fat_copy_file\<close>\<close>
  "copy_loop E B cbytes sz curr_c buf w =
     (if sz > 0 then do {
        ((txf, next_c), w) \<leftarrow> consolidate E B cbytes sz cbytes curr_c w;
        (r, w) \<leftarrow> read_fsector E (cluster2fsector (fs_info w) curr_c) buf (of_int (txf div 512)) w;
        if r \<noteq> SDMMC_OK then Some (r, w)
        else copy_loop E B cbytes (sz - txf) next_c (buf + of_int txf) w
      }
      else Some (SDMMC_OK, w))"

definition fat_copy_file :: "'d sd_env \<Rightarrow> u32 \<Rightarrow> u32 \<Rightarrow> u32 \<Rightarrow> u32 \<Rightarrow> 'd fat_world \<Rightarrow> (int \<times> 'd fat_world) option" where
  "fat_copy_file E B cluster sz buf w =
     (let w = w\<lparr>cache_valid := True, g_fat_sector := - 1\<rparr> in
      copy_loop E B (sint (cluster_size (fs_info w) * SECTOR_SIZE)) (sint sz) cluster buf w)"

datatype dir_search = Dir_end | Dir_more | Dir_found u32 u32

definition dir_cluster :: "memory \<Rightarrow> u32 \<Rightarrow> u32" where
  \<comment> \<open>\<open>GET_CLUSTER\<close>\<close>
  "dir_cluster m e = ucast (ld16 m (e + 26)) OR push_bit 16 (ucast (ld16 m (e + 20)))"

definition name_matches :: "u8 list \<Rightarrow> memory \<Rightarrow> u32 \<Rightarrow> bool" where
  "name_matches name m e \<longleftrightarrow> (\<forall>i < (if length name < 11 then length name else 11). name ! i = m (unat (e + of_nat i)))"

primrec dir_sector_search :: "bool \<Rightarrow> u8 list \<Rightarrow> memory \<Rightarrow> nat \<Rightarrow> u32 \<Rightarrow> dir_search" where
  \<comment> \<open>the entries of a sector from address \<open>e\<close> on; \<open>fat32\<close>: the cluster has two halves\<close>
  "dir_sector_search fat32 name m 0 e = Dir_more"
| "dir_sector_search fat32 name m (Suc n) e =
     (if m (unat e) = ENT_END then Dir_end
      else if m (unat e) = ENT_UNUSED then dir_sector_search fat32 name m n (e + 32)
      else
        let c = (if fat32 then dir_cluster m e else ucast (ld16 m (e + 26))) in
        if \<not> name_matches name m e \<or> c = 0 then dir_sector_search fat32 name m n (e + 32)
        else Dir_found c (ld32 m (e + 28)))"

partial_function (option) root_search16 ::
  "'d sd_env \<Rightarrow> u32 \<Rightarrow> u32 \<Rightarrow> u8 list \<Rightarrow> u32 \<Rightarrow> 'd fat_world \<Rightarrow> (int \<times> 'd fat_world) option" where
  "root_search16 E B buf name dir_sector w =
     (if dir_sector < root_dir_start (fs_info w) + root_dir_sectors (fs_info w) then do {
        (r, w) \<leftarrow> read_fsector E dir_sector (blk w) 1 w;
        if r \<noteq> SDMMC_OK then Some (SDMMC_ERROR, w)
        else case dir_sector_search False name (mem w) 16 (blk w) of
               Dir_found c sz \<Rightarrow> fat_copy_file E B c sz buf w
             | Dir_end \<Rightarrow> Some (SDMMC_ERROR, w)
             | Dir_more \<Rightarrow> root_search16 E B buf name (dir_sector + 1) w
      }
      else Some (SDMMC_ERROR, w))"

definition copy_named_file_fat16 :: "'d sd_env \<Rightarrow> u32 \<Rightarrow> u32 \<Rightarrow> u8 list \<Rightarrow> 'd fat_world \<Rightarrow> (int \<times> 'd fat_world) option" where
  "copy_named_file_fat16 E B buf name w = root_search16 E B buf name (root_dir_start (fs_info w)) w"

primrec cluster_search ::
  "'d sd_env \<Rightarrow> u8 list \<Rightarrow> nat \<Rightarrow> u32 \<Rightarrow> 'd fat_world \<Rightarrow> ((int \<times> dir_search) \<times> 'd fat_world) option" where
  \<comment> \<open>the sectors of a directory cluster\<close>
  "cluster_search E name 0 sector w = Some ((SDMMC_OK, Dir_more), w)"
| "cluster_search E name (Suc n) sector w =
     do {
       (r, w) \<leftarrow> read_fsector E sector (blk w) 1 w;
       if r \<noteq> SDMMC_OK then Some ((SDMMC_ERROR, Dir_end), w)
       else case dir_sector_search True name (mem w) 16 (blk w) of
              Dir_more \<Rightarrow> cluster_search E name n (sector + 1) w
            | d \<Rightarrow> Some ((SDMMC_OK, d), w)
     }"

partial_function (option) root_search32 ::
  "'d sd_env \<Rightarrow> u32 \<Rightarrow> u32 \<Rightarrow> u8 list \<Rightarrow> u32 \<Rightarrow> 'd fat_world \<Rightarrow> (int \<times> 'd fat_world) option" where
  "root_search32 E B buf name dir_clust w =
     (if \<not> end_of_file (fs_info w) dir_clust then do {
        ((r, d), w) \<leftarrow> cluster_search E name (unat (cluster_size (fs_info w))) (cluster2fsector (fs_info w) dir_clust) w;
        if r \<noteq> SDMMC_OK then Some (SDMMC_ERROR, w)
        else case d of
               Dir_found c sz \<Rightarrow> fat_copy_file E B c sz buf w
             | _ \<Rightarrow> do {
                 (dir_clust, w) \<leftarrow> fat_get_fat_entry E B dir_clust w;
                 root_search32 E B buf name dir_clust w
               }
      }
      else Some (SDMMC_ERROR, w))"

definition copy_named_file_fat32 :: "'d sd_env \<Rightarrow> u32 \<Rightarrow> u32 \<Rightarrow> u8 list \<Rightarrow> 'd fat_world \<Rightarrow> (int \<times> 'd fat_world) option" where
  "copy_named_file_fat32 E B buf name w = root_search32 E B buf name (root_dir_start (fs_info w)) w"

definition fat_copy_named_file :: "'d sd_env \<Rightarrow> u32 \<Rightarrow> u32 \<Rightarrow> u8 list \<Rightarrow> 'd fat_world \<Rightarrow> (int \<times> 'd fat_world) option" where
  "fat_copy_named_file E B buf name w =
     (if fat_type (fs_info w) = 12 \<or> fat_type (fs_info w) = 16 then do {
        (r, w) \<leftarrow> copy_named_file_fat16 E B buf name w;
        Some (if r \<noteq> SDMMC_OK then SDMMC_ERROR else SDMMC_OK, w)
      }
      else if fat_type (fs_info w) = 32 then do {
        (r, w) \<leftarrow> copy_named_file_fat32 E B buf name w;
        Some (if r \<noteq> SDMMC_OK then SDMMC_ERROR else SDMMC_OK, w)
      }
      else Some (SDMMC_ERROR, w))"

subsection \<open>Loading and starting the image\<close>

text \<open>
  \<^verbatim>\<open>main.c\<close>: \<open>sdmmc_load_file\<close>, and the loop of \<open>main\<close>. The loop starts with the command \<open>m\<close> and never changes
  it, so that the prompt and the download over the serial line are not reached; the settings of the board
  before it are left out. The result is the address that the loader jumps to and the memory.
\<close>

definition MX6X_USDHC4_BASE :: u32 where "MX6X_USDHC4_BASE = 0x0219C000"

definition sdmmc_load_file :: "'d sd_env \<Rightarrow> u32 \<Rightarrow> u32 \<Rightarrow> u8 list \<Rightarrow> 'd fat_world \<Rightarrow> (int \<times> 'd fat_world) option" where
  "sdmmc_load_file E B address fn w =
     do {
       let w = w\<lparr>sdmmc := (sdmmc w)\<lparr>sdmmc_pbase := MX6X_USDHC4_BASE\<rparr>\<rparr>;
       (r, w) \<leftarrow> sdmmc_init_ctrl E w;
       if r \<noteq> SDMMC_OK then Some (SDMMC_ERROR, w)
       else do {
         (r, w) \<leftarrow> sdmmc_init_card E w;
         if r \<noteq> 0 then Some (SDMMC_ERROR, w)
         else do {
           (r, w) \<leftarrow> fat_read_mbr E B w;
           if r \<noteq> 0 then Some (SDMMC_ERROR, w)
           else if fat_type (fs_info w) = FAT32 then do {
             (status, w) \<leftarrow> fat_copy_named_file E B address fn w;
             (_, w) \<leftarrow> sdmmc_fini E w;
             Some (status, w)
           }
           else Some (SDMMC_ERROR, w)
         }
       }
     }"

partial_function (option) ipl_loop ::
  "'d sd_env \<Rightarrow> ipl_vars \<Rightarrow> u32 \<Rightarrow> u8 list \<Rightarrow> u32 \<Rightarrow> 'd fat_world \<Rightarrow> (u32 \<times> memory) option" where
  "ipl_loop E V B fn img w =
     do {
       (r, w) \<leftarrow> sdmmc_load_file E B img fn w;
       if r \<noteq> 0 then ipl_loop E V B fn img w
       else do {
         (img, m) \<leftarrow> image_scan V img (img + 0x200) (mem w);
         if img \<noteq> 0xffffffff then Some (image_start V img (image_setup V img m))
         else ipl_loop E V B fn img (w\<lparr>mem := m\<rparr>)
       }
     }"

end
