(* ===== verification/Ipl_Scan.thy ===== *)
theory Ipl_Scan
  imports Ipl_Image
begin

section \<open>The initial program loader: scan, set up and start\<close>

text \<open>
  What the operations of \<open>Ipl_Image\<close> do. The first two parts are about memory: reads of bytes and words after a
  copy, and the sums of words (\<open>word_sum\<close>), to which \<open>checksum\<close> is shown equal although it goes through a
  buffer. Then, by induction over the loop, \<open>image_scan_run\<close>: the scan returns the image that \<open>newest\<close> describes;
  \<open>image_setup_run\<close>: the startup program is where it runs; \<open>scan_stuck\<close>: a header on which the loop
  stands still; \<open>image_start_run\<close> and \<open>boot_run\<close>, their composition; and \<open>add_info_run\<close>, the information
  items that the startup program finds.
\<close>

subsection \<open>Memory\<close>

lemma put_bytes_simps:
  "a \<le> x \<Longrightarrow> x < a + length bs \<Longrightarrow> put_bytes a bs m x = bs ! (x - a)"
  "x < a \<Longrightarrow> put_bytes a bs m x = m x" "a + length bs \<le> x \<Longrightarrow> put_bytes a bs m x = m x"
  by (auto simp: put_bytes_def)

lemma bytes_at_nth: "i < n \<Longrightarrow> bytes_at m a n ! i = m (a + i)"
  by (simp add: bytes_at_def)

lemma length_bytes_at [simp]: "length (bytes_at m a n) = n"
  by (simp add: bytes_at_def)

lemma bytes_at_put: "bytes_at (put_bytes a bs m) a (length bs) = bs"
  by (auto simp: list_eq_iff_nth_eq bytes_at_nth put_bytes_def)

abbreviation area :: "u32 \<Rightarrow> nat \<Rightarrow> nat set" where
  "area a n \<equiv> {unat a..<unat a + n}"

lemma ivl_disjoint:
  "{a..<a + n} \<inter> {b..<b + k} = {} \<longleftrightarrow> a + n \<le> b \<or> b + k \<le> a \<or> n = 0 \<or> k = 0" for a b n k :: nat
  by (simp add: min_le_iff_disj le_max_iff_disj) arith

definition frame :: "nat set \<Rightarrow> memory \<Rightarrow> memory \<Rightarrow> bool" where
  \<comment> \<open>only the bytes at \<open>S\<close> may have changed\<close>
  "frame S m m' \<longleftrightarrow> (\<forall>x. x \<notin> S \<longrightarrow> m' x = m x)"

lemma frame_refl [simp]: "frame S m m"
  by (simp add: frame_def)

lemma frame_trans: "frame S m m' \<Longrightarrow> frame T m' m'' \<Longrightarrow> S \<subseteq> U \<Longrightarrow> T \<subseteq> U \<Longrightarrow> frame U m m''"
  by (metis frame_def subset_eq)

lemma frame_mono: "frame S m m' \<Longrightarrow> S \<subseteq> T \<Longrightarrow> frame T m m'"
  by (auto simp: frame_def)

lemma frame_put: "frame {a..<a + length bs} m (put_bytes a bs m)"
  by (auto simp: frame_def put_bytes_def)

lemma frame_memmove: "frame {d..<d + n} m (memmove d s n m)"
  by (auto simp: frame_def memmove_def)

lemma frame_bytes: "frame S m m' \<Longrightarrow> {a..<a + n} \<inter> S = {} \<Longrightarrow> bytes_at m' a n = bytes_at m a n"
  by (auto simp: frame_def bytes_at_def)

lemma bytes_at_memmove: "bytes_at (memmove d s k m) d k = bytes_at m s k"
  by (auto simp: list_eq_iff_nth_eq bytes_at_nth memmove_def)

lemma unat_plus: "unat (a :: u32) + k < 2 ^ 32 \<Longrightarrow> unat (a + of_nat k) = unat a + k"
  by (simp add: unat_word_ariths unat_of_nat)

lemma unat_plus_w: "unat (a :: u32) + unat b < 2 ^ 32 \<Longrightarrow> unat (a + b) = unat a + unat b"
  using unat_plus [of a "unat b"] by simp

lemma unat_plus_num: "unat (a :: u32) + numeral k < 2 ^ 32 \<Longrightarrow> unat (a + numeral k) = unat a + numeral k"
  using unat_plus [of a "numeral k"] by simp

subsection \<open>Copying\<close>

definition forward :: "nat \<Rightarrow> nat \<Rightarrow> nat \<Rightarrow> bool" where
  \<comment> \<open>copying from the front is right: the target lies below the source or behind it\<close>
  "forward d s n \<longleftrightarrow> d \<le> s \<or> s + n \<le> d"

lemma memmove_step:
  assumes "forward d s (k + n)"
  shows "memmove (d + k) (s + k) n (put_bytes d (bytes_at m s k) m) = memmove d s (k + n) m"
proof
  fix x
  show "memmove (d + k) (s + k) n (put_bytes d (bytes_at m s k) m) x = memmove d s (k + n) m x"
  proof (cases "d + k \<le> x \<and> x < d + k + n")
    case True
    then have "d + k \<le> s + k + (x - (d + k)) \<or> s + k + (x - (d + k)) < d"
      using assms by (auto simp: forward_def)
    with True show ?thesis by (auto simp: memmove_def put_bytes_def)
  next
    case False
    then show ?thesis by (auto simp: memmove_def put_bytes_def bytes_at_nth)
  qed
qed

lemma forward_step: "forward d s (k + n) \<Longrightarrow> forward (d + k) (s + k) n"
  by (auto simp: forward_def)

lemma memmove_0 [simp]: "memmove d s 0 m = m"
  by (auto simp: memmove_def fun_eq_iff)

lemma copy_words_memmove:
  "unat d + 4 * n \<le> 2 ^ 32 \<Longrightarrow> unat s + 4 * n \<le> 2 ^ 32 \<Longrightarrow> forward (unat d) (unat s) (4 * n) \<Longrightarrow>
   copy_words n d s m = memmove (unat d) (unat s) (4 * n) m"
proof (induction n arbitrary: d s m)
  case (Suc n)
  show ?case
  proof (cases "n = 0")
    case True
    then show ?thesis using memmove_step [of "unat d" "unat s" 4 0 m] Suc.prems(3) by simp
  next
    case False
    then have u: "unat (d + 4) = unat d + 4" "unat (s + 4) = unat s + 4"
      using Suc.prems by (simp_all add: unat_plus_num)
    have f: "forward (unat d) (unat s) (4 + 4 * n)" using Suc.prems by simp
    show ?thesis
      using Suc.IH [of "d + 4" "s + 4"] Suc.prems forward_step [OF f] memmove_step [OF f, of m] by (simp add: u)
  qed
qed simp

lemma copy_bytes_memmove:
  "unat d + n \<le> 2 ^ 32 \<Longrightarrow> unat s + n \<le> 2 ^ 32 \<Longrightarrow> forward (unat d) (unat s) n \<Longrightarrow>
   copy_bytes n d s m = memmove (unat d) (unat s) n m"
proof (induction n arbitrary: d s m)
  case (Suc n)
  have b: "[m (unat s)] = bytes_at m (unat s) 1" by (simp add: bytes_at_def)
  show ?case
  proof (cases "n = 0")
    case True
    then show ?thesis using memmove_step [of "unat d" "unat s" 1 0 m] Suc.prems(3) by (simp add: b)
  next
    case False
    then have u: "unat (d + 1) = unat d + 1" "unat (s + 1) = unat s + 1"
      using Suc.prems unat_plus [of d 1] unat_plus [of s 1] by simp_all
    have f: "forward (unat d) (unat s) (1 + n)" using Suc.prems by simp
    show ?thesis
      using Suc.IH [of "d + 1" "s + 1"] Suc.prems forward_step [OF f] memmove_step [OF f, of m] by (simp add: u b)
  qed
qed simp

lemma memmove_append:
  assumes "forward d s (k + n)"
  shows "memmove (d + k) (s + k) n (memmove d s k m) = memmove d s (k + n) m"
  using assms by (auto simp: memmove_def fun_eq_iff forward_def)

lemma copy_memmove:
  assumes "unat d + unat sz \<le> 2 ^ 32" "unat s + unat sz \<le> 2 ^ 32" "forward (unat d) (unat s) (unat sz)"
  shows "copy d s sz m = memmove (unat d) (unat s) (unat sz) m"
proof -
  let ?n = "unat (drop_bit 2 sz)" and ?r = "unat (sz AND 3)"
  have "sz AND 3 = take_bit 2 sz" by (simp add: take_bit_eq_mask mask_eq_exp_minus_1)
  then have r: "?r = unat sz mod 4" by (simp add: take_bit_eq_mod unat_mod_distrib)
  have n: "?n = unat sz div 4" by (simp add: drop_bit_eq_div unat_div_distrib)
  have sz: "4 * ?n + ?r = unat sz" by (simp add: r n)
  have p: "a + 4 * drop_bit 2 sz = a + of_nat (4 * ?n)" for a by simp
  have w: "copy_words ?n d s m = memmove (unat d) (unat s) (4 * ?n) m"
    using assms by (intro copy_words_memmove) (auto simp: n forward_def)
  show ?thesis
  proof (cases "?r = 0")
    case True
    then show ?thesis using w sz by (simp add: copy_def Let_def)
  next
    case False
    then have u: "unat (d + of_nat (4 * ?n)) = unat d + 4 * ?n" "unat (s + of_nat (4 * ?n)) = unat s + 4 * ?n"
      using assms sz by (intro unat_plus; linarith)+
    have f: "forward (unat d) (unat s) (4 * ?n + ?r)" using assms(3) by (simp add: sz)
    have "unat d + 4 * ?n + ?r \<le> 2 ^ 32" "unat s + 4 * ?n + ?r \<le> 2 ^ 32" using assms(1,2) sz by linarith+
    then have "copy_bytes ?r (d + of_nat (4 * ?n)) (s + of_nat (4 * ?n)) m' = memmove (unat d + 4 * ?n) (unat s + 4 * ?n) ?r m'" for m'
      using copy_bytes_memmove [of "d + of_nat (4 * ?n)" ?r "s + of_nat (4 * ?n)" m', unfolded u] forward_step [OF f] by blast
    then show ?thesis
      using memmove_append [OF f, of m] unfolding copy_def Let_def p w sz by simp
  qed
qed

subsection \<open>Sums\<close>

definition word_sum :: "memory \<Rightarrow> nat \<Rightarrow> nat \<Rightarrow> u32" where
  \<comment> \<open>the sum of \<open>n\<close> words from address \<open>a\<close> on\<close>
  "word_sum m a n = (\<Sum>i < n. le32 (bytes_at m (a + 4 * i) 4))"

lemma word_sum_0 [simp]: "word_sum m a 0 = 0"
  by (simp add: word_sum_def)

lemma word_sum_Suc: "word_sum m a (Suc n) = le32 (bytes_at m a 4) + word_sum m (a + 4) n"
  by (simp add: word_sum_def sum.lessThan_Suc_shift add.assoc del: sum.lessThan_Suc)

lemma word_sum_add: "word_sum m a (n + k) = word_sum m a n + word_sum m (a + 4 * n) k"
  by (induction n arbitrary: a) (simp_all add: word_sum_Suc add.assoc)

lemma word_sum_cong: "bytes_at m a (4 * n) = bytes_at m' b (4 * n) \<Longrightarrow> word_sum m a n = word_sum m' b n"
proof (induction n arbitrary: a b)
  case (Suc n)
  then have "bytes_at m a 4 @ bytes_at m (a + 4) (4 * n) = bytes_at m' b 4 @ bytes_at m' (b + 4) (4 * n)"
    using bytes_at_append [of m a 4 "4 * n"] bytes_at_append [of m' b 4 "4 * n"] by simp
  then have "bytes_at m a 4 = bytes_at m' b 4" "bytes_at m (a + 4) (4 * n) = bytes_at m' (b + 4) (4 * n)" by simp_all
  with Suc.IH show ?case by (simp add: word_sum_Suc)
qed simp

lemma small_checksum_sum:
  "unat a + 4 * n \<le> 2 ^ 32 \<Longrightarrow> small_checksum m a (4 * int n) sm = sm + word_sum m (unat a) n"
proof (induction n arbitrary: a sm)
  case (Suc n)
  show ?case
  proof (cases "n = 0")
    case True
    then show ?thesis by (simp add: small_checksum.simps [of m] word_sum_Suc ld32_def)
  next
    case False
    then have "unat (a + 4) = unat a + 4" using Suc.prems by (simp add: unat_plus_num)
    moreover have "4 * int (Suc n) - 4 = 4 * int n" by simp
    ultimately show ?thesis
      using Suc.IH [of "a + 4"] Suc.prems
      by (simp add: small_checksum.simps [of m a] word_sum_Suc ld32_def add.assoc)
  qed
qed (simp add: small_checksum.simps)

lemma checksum_sum:
  assumes "unat len = 4 * n" "unat addr + 4 * n \<le> 2 ^ 32" "unat (scratch V) + 512 \<le> 2 ^ 32"
    "area addr (4 * n) \<inter> area (scratch V) 512 = {}"
  shows "fst (checksum V addr len sm m) = sm + word_sum m (unat addr) n \<and> frame (area (scratch V) 512) m (snd (checksum V addr len sm m))"
  using assms
proof (induction n arbitrary: addr len sm m rule: less_induct)
  case (less n)
  have f: "forward (unat (scratch V)) (unat addr) k" if "k \<le> 4 * n" "k \<le> 512" for k
    using less.prems(4) that unfolding ivl_disjoint forward_def by auto
  show ?case
  proof (cases "512 \<le> len")
    case True
    then have n: "128 \<le> n" using less.prems(1) by (simp add: word_le_nat_alt)
    let ?m = "copy (scratch V) addr 512 m"
    have c: "?m = memmove (unat (scratch V)) (unat addr) 512 m"
      using less.prems n f [of 512] by (subst copy_memmove) simp_all
    have fr: "frame (area (scratch V) 512) m ?m" unfolding c by (rule frame_memmove)
    have sm: "small_checksum ?m (scratch V) 512 0 = word_sum m (unat addr) 128"
      using small_checksum_sum [of "scratch V" 128 ?m 0] less.prems(3) bytes_at_memmove [of "unat (scratch V)" "unat addr" 512 m]
        word_sum_cong [of ?m "unat (scratch V)" 128 m "unat addr"] by (simp add: c)
    have l: "unat (len - 512) = 4 * (n - 128)" using True less.prems(1) n by (simp add: unat_sub)
    have step: "checksum V addr len sm m = checksum V (addr + 512) (len - 512) (sm + word_sum m (unat addr) 128) ?m"
      using True sm by (subst checksum.simps) (simp add: Let_def)
    show ?thesis
    proof (cases "n = 128")
      case True
      then have z: "len - 512 = 0" using l by (simp add: unat_eq_0)
      show ?thesis using True fr unfolding step by (subst (1 2) checksum.simps) (simp add: z)
    next
      case False
      then have a: "unat (addr + 512) = unat addr + 512" using less.prems n by (simp add: unat_plus_num)
      have d: "area (addr + 512) (4 * (n - 128)) \<inter> area (scratch V) 512 = {}"
        using less.prems(4) n unfolding a by auto
      from less.IH [OF _ l _ less.prems(3) d, of "sm + word_sum m (unat addr) 128" ?m] n less.prems(2)
      have IH: "fst (checksum V (addr + 512) (len - 512) (sm + word_sum m (unat addr) 128) ?m) =
          sm + word_sum m (unat addr) 128 + word_sum ?m (unat addr + 512) (n - 128)"
        "frame (area (scratch V) 512) ?m (snd (checksum V (addr + 512) (len - 512) (sm + word_sum m (unat addr) 128) ?m))"
        by (simp_all add: a)
      have "word_sum ?m (unat addr + 512) (n - 128) = word_sum m (unat addr + 512) (n - 128)"
        by (rule word_sum_cong) (rule frame_bytes [OF fr], use d in \<open>simp add: a\<close>)
      then show ?thesis
        using IH fr n word_sum_add [of m "unat addr" 128 "n - 128"] unfolding step by (auto simp: add.assoc intro: frame_trans)
    qed
  next
    case False
    then have n: "n < 128" using less.prems(1) by (simp add: word_le_nat_alt)
    let ?m = "copy (scratch V) addr len m"
    have c: "?m = memmove (unat (scratch V)) (unat addr) (4 * n) m"
      using less.prems n f [of "4 * n"] by (subst copy_memmove) simp_all
    have fr: "frame (area (scratch V) 512) m ?m" unfolding c
      by (rule frame_mono [OF frame_memmove]) (use n in auto)
    have "small_checksum ?m (scratch V) (4 * int n) 0 = word_sum m (unat addr) n"
      using small_checksum_sum [of "scratch V" n ?m 0] less.prems(3) n bytes_at_memmove [of "unat (scratch V)" "unat addr" "4 * n" m]
        word_sum_cong [of ?m "unat (scratch V)" n m "unat addr"] by (simp add: c)
    moreover have "uint len = 4 * int n" using less.prems(1) by (metis of_nat_mult of_nat_numeral uint_nat)
    moreover have "len = 0 \<Longrightarrow> n = 0" using less.prems(1) by simp
    ultimately show ?thesis
      using False fr by (subst (1 2) checksum.simps) (auto simp: Let_def)
  qed
qed

subsection \<open>The header\<close>

lemma bytes_at_slice: "k + n \<le> l \<Longrightarrow> bytes_at m (a + k) n = take n (drop k (bytes_at m a l))"
  by (auto simp: list_eq_iff_nth_eq bytes_at_nth add.assoc)

lemma slice_cong: "bytes_at m a l = bytes_at m' b l \<Longrightarrow> k + n \<le> l \<Longrightarrow> bytes_at m (a + k) n = bytes_at m' (b + k) n"
  by (simp only: bytes_at_slice)

lemma ld32_cong:
  assumes "bytes_at m (unat a) 256 = bytes_at m' (unat b) 256" "unat a + 256 \<le> 2 ^ 32" "unat b + 256 \<le> 2 ^ 32" "k + 4 \<le> 256"
  shows "ld32 m (a + of_nat k) = ld32 m' (b + of_nat k)"
  using slice_cong [OF assms(1,4)] assms(2-4) by (simp add: ld32_def unat_plus)

lemma same_hdr:
  assumes "bytes_at m (unat a) 256 = bytes_at m' (unat b) 256" "unat a + 256 \<le> 2 ^ 32" "unat b + 256 \<le> 2 ^ 32"
  shows "hdr_signature m a = hdr_signature m' b" "hdr_version m a = hdr_version m' b" "hdr_startup_vaddr m a = hdr_startup_vaddr m' b"
    "hdr_paddr_bias m a = hdr_paddr_bias m' b" "hdr_ram_paddr m a = hdr_ram_paddr m' b"
    "hdr_startup_size m a = hdr_startup_size m' b" "hdr_stored_size m a = hdr_stored_size m' b"
proof -
  note l = ld32_cong [OF assms]
  show "hdr_signature m a = hdr_signature m' b" using l [of 0] by (simp add: hdr_signature_def)
  show "hdr_startup_vaddr m a = hdr_startup_vaddr m' b" using l [of 12] by (simp add: hdr_startup_vaddr_def)
  show "hdr_paddr_bias m a = hdr_paddr_bias m' b" using l [of 16] by (simp add: hdr_paddr_bias_def)
  show "hdr_ram_paddr m a = hdr_ram_paddr m' b" using l [of 24] by (simp add: hdr_ram_paddr_def)
  show "hdr_startup_size m a = hdr_startup_size m' b" using l [of 32] by (simp add: hdr_startup_size_def)
  show "hdr_stored_size m a = hdr_stored_size m' b" using l [of 36] by (simp add: hdr_stored_size_def)
  have "m (unat a + k) = m' (unat b + k)" if "k < 256" for k
    using arg_cong [OF assms(1), of "\<lambda>xs. xs ! k"] that by (simp add: bytes_at_nth)
  from this [of 4] this [of 5] show "hdr_version m a = hdr_version m' b"
    using assms(2,3) by (simp add: hdr_version_def ld16_def unat_plus_num add.commute [of 5] add.commute [of 4])
qed

subsection \<open>Finding an image\<close>

definition image_at :: "memory \<Rightarrow> u32 \<Rightarrow> bool" where
  \<comment> \<open>a header whose two sums are right\<close>
  "image_at m a \<longleftrightarrow> hdr_signature m a = STARTUP_HDR_SIGNATURE \<and>
     word_sum m (unat a) (unat (hdr_startup_size m a) div 4) = 0 \<and>
     word_sum m (unat a + unat (hdr_startup_size m a)) ((unat (hdr_stored_size m a) - unat (hdr_startup_size m a)) div 4) = 0"

abbreviation vars_area :: "ipl_vars \<Rightarrow> nat set" where
  "vars_area V \<equiv> area (startup_hdr V) 256 \<union> area (scratch V) 512"

definition vars_ok :: "ipl_vars \<Rightarrow> bool" where
  "vars_ok V \<longleftrightarrow> unat (startup_hdr V) + 256 \<le> 2 ^ 32 \<and> unat (scratch V) + 512 \<le> 2 ^ 32 \<and>
     area (startup_hdr V) 256 \<inter> area (scratch V) 512 = {}"

definition sizes_ok :: "ipl_vars \<Rightarrow> memory \<Rightarrow> u32 \<Rightarrow> bool" where
  \<comment> \<open>whole words, the startup program inside the image, the image inside memory and apart from the variables\<close>
  "sizes_ok V m a \<longleftrightarrow> 4 dvd unat (hdr_startup_size m a) \<and> 4 dvd unat (hdr_stored_size m a) \<and>
     hdr_startup_size m a \<le> hdr_stored_size m a \<and> 0 < hdr_stored_size m a \<and>
     unat a + unat (hdr_stored_size m a) < 2 ^ 32 \<and> area a (unat (hdr_stored_size m a)) \<inter> vars_area V = {}"

lemma disj_sub: "A \<inter> S = {} \<Longrightarrow> B \<subseteq> A \<Longrightarrow> T \<subseteq> S \<Longrightarrow> B \<inter> T = {}"
  by blast

lemma frame_word_sum: "frame S m m' \<Longrightarrow> {a..<a + 4 * n} \<inter> S = {} \<Longrightarrow> word_sum m' a n = word_sum m a n"
  by (rule word_sum_cong) (rule frame_bytes)

definition scan_next :: "ipl_vars \<Rightarrow> memory \<Rightarrow> u32 \<Rightarrow> u32 \<Rightarrow> u32 \<Rightarrow> u16 \<Rightarrow> memory \<Rightarrow> (u32 \<times> memory) option" where
  "scan_next V m0 start fin la lv m =
     (if image_at m0 start then
        image_scan_loop V (start + hdr_stored_size m0 start) fin (if hdr_version m0 start > lv then start else la)
          (if hdr_version m0 start > lv then hdr_version m0 start else lv) m
      else image_scan_loop V (start + 4) fin la lv m)"

lemma scan_step:
  assumes V: "vars_ok V" and fr: "frame (vars_area V) m0 m" and lt: "start < fin"
    and win: "unat start + 256 \<le> 2 ^ 32" "area start 256 \<inter> vars_area V = {}"
    and sz: "hdr_signature m0 start = STARTUP_HDR_SIGNATURE \<Longrightarrow> sizes_ok V m0 start"
  shows "\<exists>m'. frame (vars_area V) m0 m' \<and> image_scan_loop V start fin la lv m = scan_next V m0 start fin la lv m'"
proof -
  let ?h = "startup_hdr V" and ?m = "copy (startup_hdr V) start sizeof_startup_hdr m"
  let ?ss = "hdr_startup_size m0 start" and ?st = "hdr_stored_size m0 start"
  have "forward (unat ?h) (unat start) 256" using win(2) unfolding Int_Un_distrib Un_empty ivl_disjoint forward_def by auto
  then have c: "?m = memmove (unat ?h) (unat start) 256 m"
    using V win(1) by (subst copy_memmove) (simp_all add: vars_ok_def sizeof_startup_hdr_def)
  have f1: "frame (vars_area V) m0 ?m" unfolding c by (rule frame_trans [OF fr frame_memmove]) auto
  have hb: "bytes_at ?m (unat ?h) 256 = bytes_at m0 (unat start) 256"
    unfolding c bytes_at_memmove using frame_bytes [OF fr win(2)] .
  have vh: "unat ?h + 256 \<le> 2 ^ 32" using V by (simp add: vars_ok_def)
  note h1 = same_hdr [OF hb vh win(1)]
  note loop = image_scan_loop.simps [of V start fin la lv m, unfolded Let_def, folded sizeof_startup_hdr_def]
  show ?thesis
  proof (cases "hdr_signature m0 start = STARTUP_HDR_SIGNATURE")
    case False
    then have "image_scan_loop V start fin la lv m = scan_next V m0 start fin la lv ?m"
      using lt h1(1) by (subst loop) (simp add: scan_next_def image_at_def)
    with f1 show ?thesis by blast
  next
    case True
    note s = sz [OF True, unfolded sizes_ok_def]
    obtain n1 where n1: "unat ?ss = 4 * n1" using s by (auto elim: dvdE)
    obtain n2 where n2: "unat ?st = 4 * n2" using s by (auto elim: dvdE)
    have le: "n1 \<le> n2" using s n1 n2 by (simp add: word_le_nat_alt)
    have d: "{unat start..<unat start + 4 * n2} \<inter> vars_area V = {}" "unat start + 4 * n2 < 2 ^ 32"
      using s n2 by auto
    have sub: "unat (?st - ?ss) = 4 * (n2 - n1)" using s n1 n2 by (simp add: unat_sub diff_mult_distrib2)
    have vs: "unat (scratch V) + 512 \<le> 2 ^ 32" using V by (simp add: vars_ok_def)
    let ?c1 = "checksum V start ?ss 0 ?m"
    have "fst ?c1 = 0 + word_sum ?m (unat start) n1 \<and> frame (area (scratch V) 512) ?m (snd ?c1)"
      by (rule checksum_sum [OF n1 _ vs disj_sub [OF d(1)]]) (use d(2) le in auto)
    moreover have "word_sum ?m (unat start) n1 = word_sum m0 (unat start) n1"
      by (rule frame_word_sum [OF f1 disj_sub [OF d(1)]]) (use le in auto)
    ultimately obtain m1 where c1: "?c1 = (word_sum m0 (unat start) n1, m1)" and g1: "frame (area (scratch V) 512) ?m m1"
      by (cases ?c1) auto
    have f2: "frame (vars_area V) m0 m1" using frame_trans [OF f1 g1] by blast
    have "bytes_at m1 (unat ?h) 256 = bytes_at m0 (unat start) 256"
      using frame_bytes [OF g1, of "unat ?h" 256] V hb by (simp add: vars_ok_def)
    note h2 = same_hdr [OF this vh win(1)]
    have us: "unat (start + ?ss) = unat start + 4 * n1"
      using unat_plus_w [of start ?ss] d(2) le n1 by simp
    let ?c2 = "checksum V (start + ?ss) (?st - ?ss) 0 m1"
    have "fst ?c2 = 0 + word_sum m1 (unat start + 4 * n1) (n2 - n1) \<and> frame (area (scratch V) 512) m1 (snd ?c2)"
      unfolding us [symmetric] by (rule checksum_sum [OF sub _ vs disj_sub [OF d(1)]]) (use d(2) le us in auto)
    moreover have "word_sum m1 (unat start + 4 * n1) (n2 - n1) = word_sum m0 (unat start + 4 * n1) (n2 - n1)"
      by (rule frame_word_sum [OF f2 disj_sub [OF d(1)]]) (use le in auto)
    ultimately obtain m2 where c2: "?c2 = (word_sum m0 (unat start + 4 * n1) (n2 - n1), m2)" and g2: "frame (area (scratch V) 512) m1 m2"
      by (cases ?c2) auto
    have f3: "frame (vars_area V) m0 m2" using frame_trans [OF f2 g2] by blast
    have "bytes_at m2 (unat ?h) 256 = bytes_at m0 (unat start) 256"
      using frame_bytes [OF g1, of "unat ?h" 256] frame_bytes [OF g2, of "unat ?h" 256] V hb by (simp add: vars_ok_def)
    note h3 = same_hdr [OF this vh win(1)]
    have at: "image_at m0 start \<longleftrightarrow> word_sum m0 (unat start) n1 = 0 \<and> word_sum m0 (unat start + 4 * n1) (n2 - n1) = 0"
      using True by (simp add: image_at_def n1 n2 flip: diff_mult_distrib2)
    have "image_scan_loop V start fin la lv m = scan_next V m0 start fin la lv (if word_sum m0 (unat start) n1 = 0 then m2 else m1)"
      by (subst loop) (simp add: lt h1 h2 h3 True c1 c2 scan_next_def at)
    with f2 f3 show ?thesis by (intro exI [of _ "if word_sum m0 (unat start) n1 = 0 then m2 else m1"]) simp
  qed
qed

definition images :: "memory \<Rightarrow> u32 \<Rightarrow> u32 \<Rightarrow> u32 set" where
  \<comment> \<open>the images on the word boundaries from \<open>lo\<close> up to \<open>hi\<close>\<close>
  "images m lo hi = {a. lo \<le> a \<and> a < hi \<and> 4 dvd (unat a - unat lo) \<and> image_at m a}"

definition newest :: "memory \<Rightarrow> u32 set \<Rightarrow> u32 \<Rightarrow> u16 \<Rightarrow> bool" where
  \<comment> \<open>the first of those with the highest version, which is not 0; or none\<close>
  "newest m I r v \<longleftrightarrow> (r = - 1 \<and> v = 0 \<and> (\<forall>a \<in> I. hdr_version m a = 0)) \<or>
     (r \<in> I \<and> v = hdr_version m r \<and> 0 < v \<and> (\<forall>a \<in> I. hdr_version m a \<le> v) \<and> (\<forall>a \<in> I. a < r \<longrightarrow> hdr_version m a < v))"

lemma newest_insert:
  assumes "newest m I r v" "\<forall>b \<in> I. b < a" "a \<notin> I"
  shows "newest m (insert a I) (if hdr_version m a > v then a else r) (if hdr_version m a > v then hdr_version m a else v)"
proof (cases "hdr_version m a > v")
  case True
  then have "\<forall>b \<in> I. hdr_version m b < hdr_version m a" using assms(1) unfolding newest_def by force
  then show ?thesis using True by (auto simp: newest_def intro: less_imp_le order_le_less_trans [of 0 v])
next
  case False
  then show ?thesis using assms unfolding newest_def by (auto dest: less_asym simp: linorder_not_less)
qed

definition window_ok :: "ipl_vars \<Rightarrow> memory \<Rightarrow> u32 \<Rightarrow> u32 \<Rightarrow> bool" where
  \<comment> \<open>the area that is looked at is apart from the variables, every header in it makes sense, and images do not overlap\<close>
  "window_ok V m lo hi \<longleftrightarrow> unat hi + 256 \<le> 2 ^ 32 \<and> {unat lo..<unat hi + 256} \<inter> vars_area V = {} \<and>
     (\<forall>a. lo \<le> a \<and> a < hi \<and> 4 dvd (unat a - unat lo) \<and> hdr_signature m a = STARTUP_HDR_SIGNATURE \<longrightarrow> sizes_ok V m a) \<and>
     (\<forall>a \<in> images m lo hi. \<forall>b \<in> images m lo hi. a < b \<longrightarrow> unat a + unat (hdr_stored_size m a) \<le> unat b)"

lemma word_gap: "4 dvd (a - l) \<Longrightarrow> 4 dvd (s - l) \<Longrightarrow> l \<le> s \<Longrightarrow> s < a \<Longrightarrow> a < s + 4 \<Longrightarrow> False" for a l s :: nat
  by presburger

lemma dvd_gap: "n dvd (s - l) \<Longrightarrow> n dvd k \<Longrightarrow> l \<le> s \<Longrightarrow> n dvd (s + k - l)" for s l k n :: nat
  by (metis add.commute dvd_add Nat.add_diff_assoc)

lemma scan_loop:
  assumes V: "vars_ok V" and W: "window_ok V m0 lo hi"
    and fr: "frame (vars_area V) m0 m" and lo: "lo \<le> s" "4 dvd (unat s - unat lo)"
    and new: "newest m0 {a \<in> images m0 lo hi. a < s} la lv"
  shows "\<exists>r v m'. image_scan_loop V s hi la lv m = Some (r, m') \<and> frame (vars_area V) m0 m' \<and> newest m0 (images m0 lo hi) r v"
  using fr lo new
proof (induction "2 ^ 32 - unat s" arbitrary: s la lv m rule: less_induct)
  case less
  let ?I = "images m0 lo hi"
  show ?case
  proof (cases "s < hi")
    case False
    then have "{a \<in> ?I. a < s} = ?I" by (auto simp: images_def)
    then show ?thesis
      using False less.prems(1,4) by (subst image_scan_loop.simps) (auto simp: Let_def)
  next
    case True
    have hi: "unat s < unat hi" "unat hi + 256 \<le> 2 ^ 32" using True W by (simp_all add: word_less_nat_alt window_ok_def)
    have win: "{unat lo..<unat hi + 256} \<inter> vars_area V = {}" using W by (simp add: window_ok_def)
    have "area s 256 \<subseteq> {unat lo..<unat hi + 256}" using hi less.prems(2) by (auto simp: word_le_nat_alt)
    from disj_sub [OF win this subset_refl] have "area s 256 \<inter> vars_area V = {}" .
    moreover have sz: "hdr_signature m0 s = STARTUP_HDR_SIGNATURE \<Longrightarrow> sizes_ok V m0 s"
      using W True less.prems(2,3) by (simp add: window_ok_def)
    ultimately obtain m' where f': "frame (vars_area V) m0 m'" and eq: "image_scan_loop V s hi la lv m = scan_next V m0 s hi la lv m'"
      using scan_step [OF V less.prems(1) True, of la lv] hi by auto
    show ?thesis
    proof (cases "image_at m0 s")
      case False
      have u: "unat (s + 4) = unat s + 4" using hi by (simp add: unat_plus_num)
      have "{a \<in> ?I. a < s + 4} = {a \<in> ?I. a < s}"
      proof (intro Collect_cong conj_cong refl)
        fix a assume a: "a \<in> ?I"
        have "unat a \<noteq> unat s" using False a by (auto simp: images_def word_unat_eq_iff [symmetric])
        moreover have "\<not> (unat s < unat a \<and> unat a < unat s + 4)"
          using a less.prems(2,3) word_gap by (auto simp: images_def word_le_nat_alt)
        ultimately show "(a < s + 4) = (a < s)" by (auto simp: word_less_nat_alt u)
      qed
      moreover have "4 dvd (unat (s + 4) - unat lo)" "lo \<le> s + 4"
        using less.prems(2,3) dvd_gap [of 4 "unat s" "unat lo" 4] by (auto simp: u word_le_nat_alt)
      ultimately show ?thesis
        using less.hyps [of "s + 4" m' la lv] f' less.prems(4) hi False by (simp add: eq scan_next_def u)
    next
      case True': True
      note z = sz [unfolded sizes_ok_def]
      have sg: "hdr_signature m0 s = STARTUP_HDR_SIGNATURE" using True' by (simp add: image_at_def)
      let ?st = "hdr_stored_size m0 s"
      have u: "unat (s + ?st) = unat s + unat ?st" using z [OF sg] by (intro unat_plus_w) simp
      have pos: "0 < unat ?st" using z [OF sg] by (simp add: word_less_nat_alt)
      have dec: "2 ^ 32 - unat (s + ?st) < 2 ^ 32 - unat s" using u pos z [OF sg] by linarith
      have mem: "s \<in> ?I" using True True' less.prems(2,3) by (simp add: images_def)
      have "{a \<in> ?I. a < s + ?st} = insert s {a \<in> ?I. a < s}"
      proof (intro equalityI subsetI)
        fix a assume a: "a \<in> {a \<in> ?I. a < s + ?st}"
        have "\<not> s < a" using a mem W by (force simp: window_ok_def word_less_nat_alt u)
        then show "a \<in> insert s {a \<in> ?I. a < s}" using a by auto
      next
        fix a assume "a \<in> insert s {a \<in> ?I. a < s}"
        then show "a \<in> {a \<in> ?I. a < s + ?st}" using mem pos by (auto simp: word_less_nat_alt u)
      qed
      moreover have "4 dvd (unat (s + ?st) - unat lo)" "lo \<le> s + ?st"
        using less.prems(2,3) z [OF sg] dvd_gap [of 4 "unat s" "unat lo" "unat ?st"] by (auto simp: u word_le_nat_alt)
      moreover note newest_insert [OF less.prems(4), of s]
      ultimately show ?thesis
        using less.hyps [of "s + ?st" m' "if hdr_version m0 s > lv then s else la" "if hdr_version m0 s > lv then hdr_version m0 s else lv"]
          f' dec True' by (simp add: eq scan_next_def split del: if_split)
    qed
  qed
qed

lemma image_scan_run:
  assumes "vars_ok V" "window_ok V m lo hi"
  shows "\<exists>r v m'. image_scan V lo hi m = Some (r, m') \<and> frame (vars_area V) m m' \<and> newest m (images m lo hi) r v"
proof -
  have "{a \<in> images m lo hi. a < lo} = {}" by (auto simp: images_def)
  then have "newest m {a \<in> images m lo hi. a < lo} (- 1) 0" by (auto simp: newest_def)
  from scan_loop [OF assms _ _ _ this] show ?thesis by (simp add: image_scan_def)
qed

subsection \<open>Setting up an image\<close>

definition ram_addr :: "memory \<Rightarrow> u32 \<Rightarrow> u32" where
  "ram_addr m a = hdr_ram_paddr m a + hdr_paddr_bias m a"

definition startup_program :: "memory \<Rightarrow> u32 \<Rightarrow> u8 list" where
  \<comment> \<open>the startup program of the image at \<open>a\<close>, its header completed with the place of the file system\<close>
  "startup_program m a =
     (let p = bytes_at m (unat a) (unat (hdr_startup_size m a)) in
      take 40 p @ bytes32 (a + hdr_startup_size m a - hdr_paddr_bias m a) @ drop 44 p)"

definition setup_ok :: "ipl_vars \<Rightarrow> memory \<Rightarrow> u32 \<Rightarrow> bool" where
  \<comment> \<open>there is room for the startup program where it is to run, and copying it there from the front does no harm\<close>
  "setup_ok V m a \<longleftrightarrow>
     (let n = unat (hdr_startup_size m a); r = ram_addr m a in
      256 \<le> n \<and> unat a + n \<le> 2 ^ 32 \<and> unat r + n \<le> 2 ^ 32 \<and>
      area a n \<inter> area (startup_hdr V) 256 = {} \<and> area r n \<inter> area (startup_hdr V) 256 = {} \<and>
      forward (unat r) (unat a) n \<and> area r 256 \<inter> {unat a + 256..<unat a + n} = {})"

lemma bytes_at_put_inside:
  assumes "k + length xs \<le> n"
  shows "bytes_at (put_bytes (d + k) xs m) d n = take k (bytes_at m d n) @ xs @ drop (k + length xs) (bytes_at m d n)"
proof (rule nth_equalityI)
  fix i assume "i < length (bytes_at (put_bytes (d + k) xs m) d n)"
  then have i: "i < n" by simp
  consider "i < k" | "k \<le> i" "i < k + length xs" | "k + length xs \<le> i" by linarith
  then show "bytes_at (put_bytes (d + k) xs m) d n ! i = (take k (bytes_at m d n) @ xs @ drop (k + length xs) (bytes_at m d n)) ! i"
    by cases (use assms i in \<open>auto simp: bytes_at_nth put_bytes_def nth_append\<close>)
qed (use assms in simp)

lemma image_setup_run:
  assumes V: "vars_ok V" and S: "setup_ok V m a"
  shows "bytes_at (image_setup V a m) (unat (ram_addr m a)) (unat (hdr_startup_size m a)) = startup_program m a \<and>
    frame (area (startup_hdr V) 256 \<union> area (ram_addr m a) (unat (hdr_startup_size m a))) m (image_setup V a m)"
proof -
  let ?h = "startup_hdr V" and ?r = "ram_addr m a" and ?n = "unat (hdr_startup_size m a)"
  note s = S [unfolded setup_ok_def Let_def]
  have vh: "unat ?h + 256 \<le> 2 ^ 32" using V by (simp add: vars_ok_def)
  have a256: "unat a + 256 \<le> 2 ^ 32" and r256: "unat ?r + 256 \<le> 2 ^ 32" using s by linarith+
  have ah: "area a 256 \<inter> area ?h 256 = {}" by (rule disj_sub [of "area a ?n" "area ?h 256"]) (use s in auto)
  have rh: "area ?r 256 \<inter> area ?h 256 = {}" by (rule disj_sub [of "area ?r ?n" "area ?h 256"]) (use s in auto)
  let ?m1 = "memmove (unat ?h) (unat a) 256 m"
  have c1: "copy ?h a sizeof_startup_hdr m = ?m1"
    using vh a256 ah by (subst copy_memmove) (auto simp: sizeof_startup_hdr_def forward_def ivl_disjoint)
  note h1 = same_hdr [OF bytes_at_memmove vh a256, of m]
  let ?v = "bytes32 (a + hdr_startup_size m a - hdr_paddr_bias m a)"
  have uh: "unat (?h + o_imagefs_paddr) = unat ?h + 40" using vh by (simp add: o_imagefs_paddr_def unat_plus_num)
  let ?m2 = "put_bytes (unat ?h + 40) ?v ?m1"
  let ?H = "take 40 (bytes_at m (unat a) 256) @ ?v @ drop 44 (bytes_at m (unat a) 256)"
  have b2: "bytes_at ?m2 (unat ?h) 256 = ?H"
    using bytes_at_put_inside [of 40 ?v 256 "unat ?h" ?m1] by (simp add: bytes_at_memmove)
  have sz2: "hdr_startup_size ?m2 ?h = hdr_startup_size m a"
  proof -
    have "take 4 (drop 32 (bytes_at ?m2 (unat ?h) 256)) = take 4 (drop 32 (bytes_at m (unat a) 256))"
      unfolding b2 by (simp add: list_eq_iff_nth_eq nth_append)
    then have "bytes_at ?m2 (unat ?h + 32) 4 = bytes_at m (unat a + 32) 4" by (simp add: bytes_at_slice [of 32 4 256])
    then show ?thesis using vh a256 by (simp add: hdr_startup_size_def ld32_def unat_plus_num)
  qed
  let ?m3 = "memmove (unat ?r) (unat ?h) 256 ?m2"
  have c3: "copy ?r ?h sizeof_startup_hdr ?m2 = ?m3"
    using vh r256 rh by (subst copy_memmove) (auto simp: sizeof_startup_hdr_def forward_def ivl_disjoint)
  have fr12: "frame (area ?h 256) m ?m2"
  proof (rule frame_trans [OF frame_memmove frame_put])
    show "{unat ?h + 40..<unat ?h + 40 + length ?v} \<subseteq> area ?h 256" by auto
  qed simp
  have fr3: "frame (area ?r 256) ?m2 ?m3" by (rule frame_memmove)
  have "bytes_at ?m3 (unat ?h) 256 = bytes_at ?m2 (unat ?h) 256" using frame_bytes [OF fr3] rh by (simp add: Int_commute)
  then have sz3: "hdr_startup_size ?m3 ?h = hdr_startup_size m a" using same_hdr(6) [of ?m3 ?h ?m2 ?h] vh sz2 by simp
  let ?src = "unat a + 256" and ?k = "?n - 256"
  let ?m4 = "memmove (unat ?r + 256) ?src ?k ?m3"
  have c4: "copy (?r + sizeof_startup_hdr) (a + sizeof_startup_hdr) (hdr_startup_size m a - sizeof_startup_hdr) ?m3 = ?m4"
  proof (cases "?n = 256")
    case True
    then have "hdr_startup_size m a = 256" by (simp add: word_unat_eq_iff)
    then show ?thesis using True by (simp add: copy_def sizeof_startup_hdr_def)
  next
    case False
    then have l: "256 < ?n" using s by simp
    then have u: "unat (?r + 256) = unat ?r + 256" "unat (a + 256) = unat a + 256" "unat (hdr_startup_size m a - 256) = ?k"
      using s by (auto simp: unat_plus_num unat_sub word_le_nat_alt)
    have "forward (unat ?r + 256) ?src ?k" using s l by (auto simp: forward_def)
    then show ?thesis using s l by (subst copy_memmove) (simp_all add: sizeof_startup_hdr_def u)
  qed
  have res: "image_setup V a m = ?m4"
    unfolding image_setup_def Let_def c1 uh h1(4,5,6) unfolding ram_addr_def [symmetric] c3 sz3 c4 ..
  have src: "bytes_at ?m3 ?src ?k = bytes_at m ?src ?k"
  proof -
    have "{?src..<?src + ?k} \<inter> area ?r 256 = {}" using s by (auto simp: Int_commute)
    moreover have "{?src..<?src + ?k} \<inter> area ?h 256 = {}" by (rule disj_sub [of "area a ?n" "area ?h 256"]) (use s in auto)
    ultimately show ?thesis using frame_bytes [OF fr3, of ?src ?k] frame_bytes [OF fr12, of ?src ?k] by simp
  qed
  have hd: "bytes_at ?m4 (unat ?r) 256 = ?H"
    using frame_bytes [OF frame_memmove [of "unat ?r + 256" ?k ?m3 ?src], of "unat ?r" 256] b2 by (simp add: bytes_at_memmove)
  have n: "?n = 256 + ?k" using s by simp
  have "bytes_at ?m4 (unat ?r) ?n = ?H @ bytes_at m ?src ?k"
    using bytes_at_append [of ?m4 "unat ?r" 256 ?k] hd src bytes_at_memmove [of "unat ?r + 256" ?src ?k ?m3] n by simp
  also have "\<dots> = startup_program m a"
    using bytes_at_append [of m "unat a" 256 ?k] n by (simp add: startup_program_def Let_def)
  finally have b: "bytes_at ?m4 (unat ?r) ?n = startup_program m a" .
  have "frame (area ?r ?n) ?m2 ?m4"
    by (rule frame_trans [OF fr3 frame_memmove]) (use n in auto)
  then have "frame (area ?h 256 \<union> area ?r ?n) m ?m4" using frame_trans [OF fr12] by blast
  with b show ?thesis by (simp add: res)
qed

subsection \<open>A header that stops the scan\<close>

definition stuck :: "ipl_vars \<Rightarrow> u32 \<Rightarrow> memory \<Rightarrow> bool" where
  "stuck V a m \<longleftrightarrow> vars_ok V \<and> unat a + 256 \<le> 2 ^ 32 \<and> area a 256 \<inter> area (startup_hdr V) 256 = {} \<and>
     hdr_signature m a = STARTUP_HDR_SIGNATURE \<and> hdr_startup_size m a = 0 \<and> hdr_stored_size m a = 0"

lemma stuck_step:
  assumes "stuck V a m"
  shows "stuck V a (copy (startup_hdr V) a sizeof_startup_hdr m)"
    "hdr_signature (copy (startup_hdr V) a sizeof_startup_hdr m) (startup_hdr V) = STARTUP_HDR_SIGNATURE"
    "hdr_startup_size (copy (startup_hdr V) a sizeof_startup_hdr m) (startup_hdr V) = 0"
    "hdr_stored_size (copy (startup_hdr V) a sizeof_startup_hdr m) (startup_hdr V) = 0"
proof -
  let ?h = "startup_hdr V" and ?m = "copy (startup_hdr V) a sizeof_startup_hdr m"
  note s = assms [unfolded stuck_def]
  have vh: "unat ?h + 256 \<le> 2 ^ 32" and a: "unat a + 256 \<le> 2 ^ 32" using s by (simp_all add: vars_ok_def)
  have "unat a + 256 \<le> unat ?h \<or> unat ?h + 256 \<le> unat a" using s unfolding ivl_disjoint by simp
  then have c: "?m = memmove (unat ?h) (unat a) 256 m"
    using vh a by (subst copy_memmove) (auto simp: sizeof_startup_hdr_def forward_def)
  have "bytes_at ?m (unat a) 256 = bytes_at m (unat a) 256" unfolding c
    using frame_bytes [OF frame_memmove] s by auto
  from same_hdr [OF this a a] s show "stuck V a ?m" by (simp add: stuck_def)
  have "bytes_at ?m (unat ?h) 256 = bytes_at m (unat a) 256" unfolding c by (rule bytes_at_memmove)
  from same_hdr [OF this vh a] s
  show "hdr_signature ?m ?h = STARTUP_HDR_SIGNATURE" "hdr_startup_size ?m ?h = 0" "hdr_stored_size ?m ?h = 0" by simp_all
qed

lemma checksum_0: "checksum V a 0 sm m = (sm, m)"
  by (subst checksum.simps) simp

lemma scan_stuck:
  assumes ret: "image_scan_loop V start fin la lv m = Some r"
  shows "\<not> (start < fin \<and> stuck V start m)"
proof (rule image_scan_loop.raw_induct [where P = "\<lambda>V start fin la lv m r. \<not> (start < fin \<and> stuck V start m)", OF _ ret])
  fix f :: "ipl_vars \<Rightarrow> u32 \<Rightarrow> u32 \<Rightarrow> u32 \<Rightarrow> u16 \<Rightarrow> memory \<Rightarrow> (u32 \<times> memory) option"
  fix V start fin la lv m r
  assume IH: "\<And>V start fin la lv m r. f V start fin la lv m = Some r \<Longrightarrow> \<not> (start < fin \<and> stuck V start m)"
  assume eq: "(if start < fin then
      let h = startup_hdr V; m = copy h start sizeof_startup_hdr m in
      if hdr_signature m h \<noteq> STARTUP_HDR_SIGNATURE then f V (start + 4) fin la lv m
      else
        case checksum V start (hdr_startup_size m h) 0 m of (sm, m) \<Rightarrow>
        if sm \<noteq> 0 then f V (start + 4) fin la lv m
        else
          case checksum V (start + hdr_startup_size m h) (hdr_stored_size m h - hdr_startup_size m h) 0 m of (sm, m) \<Rightarrow>
          if sm \<noteq> 0 then f V (start + 4) fin la lv m
          else
            f V (start + (hdr_stored_size m h - 4) + 4) fin
              (if hdr_version m h > lv then start else la)
              (if hdr_version m h > lv then hdr_version m h else lv) m
    else Some (la, m)) = Some r"
  show "\<not> (start < fin \<and> stuck V start m)"
  proof
    assume s: "start < fin \<and> stuck V start m"
    have "start + (- 4) + 4 = start" by simp
    with eq s stuck_step [of V start m]
    have "\<exists>la lv. f V start fin la lv (copy (startup_hdr V) start sizeof_startup_hdr m) = Some r"
      by (auto simp: Let_def checksum_0)
    with IH s stuck_step(1) [of V start m] show False by blast
  qed
qed

subsection \<open>Information for startup\<close>

inductive info_list :: "memory \<Rightarrow> u32 \<Rightarrow> (u32 \<times> u16) list \<Rightarrow> u32 \<Rightarrow> bool" for m where
  \<comment> \<open>the entries from an address on, with their types, and the free slot behind them\<close>
  free: "ld16 m (p + 2) = 0 \<Longrightarrow> unat p + 4 \<le> 2 ^ 32 \<Longrightarrow> info_list m p [] p"
| entry: "4 \<le> ld16 m (p + 2) \<Longrightarrow> unat p + unat (ld16 m (p + 2)) < 2 ^ 32 \<Longrightarrow>
    info_list m (p + ucast (ld16 m (p + 2))) es q \<Longrightarrow> info_list m p ((p, ld16 m p) # es) q"

inductive_cases info_free: "info_list m p [] q"
inductive_cases info_entry: "info_list m p (e # es) q"

lemma info_end_list: "info_list m p es q \<Longrightarrow> info_end m p = Some q"
  by (induction rule: info_list.induct) (subst info_end.simps, auto simp: Let_def)+

lemma find_info_list:
  "info_list m p es q \<Longrightarrow> find_info m p ty = Some (case filter (\<lambda>e. snd e = ty) es of [] \<Rightarrow> 0 | e # _ \<Rightarrow> fst e)"
  by (induction rule: info_list.induct) (subst find_info.simps, auto)+

lemma unat_ucast16: "unat (ucast (k :: u16) :: u32) = unat k"
proof -
  have "unat k < 2 ^ 16" by (rule order_less_le_trans [OF unsigned_less]) simp
  then show ?thesis by (simp add: unsigned_ucast_eq take_bit_nat_eq_self)
qed

lemma unat_plus16: "unat (p :: u32) + unat (k :: u16) < 2 ^ 32 \<Longrightarrow> unat (p + ucast k) = unat p + unat k"
  using unat_plus_w [of p "ucast k"] by (simp add: unat_ucast16)

lemma info_list_below: "info_list m p es q \<Longrightarrow> unat p \<le> unat q \<and> unat q + 4 \<le> 2 ^ 32 \<and> (\<forall>e \<in> set es. unat (fst e) + 4 \<le> unat q)"
proof (induction rule: info_list.induct)
  case (entry p es q)
  then have "unat (p + ucast (ld16 m (p + 2))) = unat p + unat (ld16 m (p + 2))" by (simp add: unat_plus16)
  with entry show ?case by (auto simp: word_le_nat_alt)
qed simp

lemma ld16_frame: "frame S m m' \<Longrightarrow> unat a \<notin> S \<Longrightarrow> unat a + 1 \<notin> S \<Longrightarrow> ld16 m' a = ld16 m a"
  by (simp add: ld16_def frame_def)

lemma info_list_snoc:
  assumes "info_list m p es q" and "frame {unat q..<unat q + k} m m'"
    and "ld16 m' (q + 2) = of_nat k" "4 \<le> k" "k < 2 ^ 16" "unat q + k + 4 \<le> 2 ^ 32" "ld16 m (q + of_nat k + 2) = 0"
  shows "info_list m' p (es @ [(q, ld16 m' q)]) (q + of_nat k)"
  using assms
proof (induction rule: info_list.induct)
  case (free p)
  have k: "unat (of_nat k :: u16) = k" using free.prems by (simp add: unat_of_nat)
  have c: "ucast (of_nat k :: u16) = (of_nat k :: u32)" using free.prems(4) by (simp add: word_unat_eq_iff unat_ucast16 k unat_of_nat)
  have u: "unat (p + of_nat k) = unat p + k" "unat (p + of_nat k + 2) = unat p + k + 2"
    using free.prems unat_plus [of p k] unat_plus_num [of "p + of_nat k" "num.Bit0 num.One"] by simp_all
  have "ld16 m' (p + of_nat k + 2) = 0"
    using ld16_frame [OF free.prems(1), of "p + of_nat k + 2"] free.prems u by simp
  then have f: "info_list m' (p + of_nat k) [] (p + of_nat k)" using free.prems(5) u by (intro info_list.free) simp_all
  have "info_list m' p ((p, ld16 m' p) # []) (p + of_nat k)"
    by (rule info_list.entry) (use free.prems f k c in \<open>simp_all add: word_le_nat_alt\<close>)
  then show ?case by simp
next
  case (entry p es q)
  note below = info_list_below [OF entry.hyps(3)]
  have "unat (p + ucast (ld16 m (p + 2))) = unat p + unat (ld16 m (p + 2))" using entry.hyps(2) by (rule unat_plus16)
  then have b: "unat p + 4 \<le> unat q" using below entry.hyps(1) by (simp add: word_le_nat_alt)
  then have "unat (p + 2) = unat p + 2" using below by (intro unat_plus_num) simp
  then have l: "ld16 m' (p + 2) = ld16 m (p + 2)" "ld16 m' p = ld16 m p"
    using b ld16_frame [OF entry.prems(1)] by simp_all
  show ?case
    using entry.IH [OF entry.prems] entry.hyps info_list.entry [of m' p "es @ [(q, ld16 m' q)]" "q + of_nat k"] by (simp add: l)
qed

lemma image_start_run:
  assumes "vars_ok V" "unat a + 256 \<le> 2 ^ 32" "area a 256 \<inter> area (startup_hdr V) 256 = {}"
  shows "fst (image_start V a m) = hdr_startup_vaddr m a \<and> frame (area (startup_hdr V) 256) m (snd (image_start V a m))"
proof -
  let ?h = "startup_hdr V"
  have vh: "unat ?h + 256 \<le> 2 ^ 32" using assms by (simp add: vars_ok_def)
  have c: "copy ?h a sizeof_startup_hdr m = memmove (unat ?h) (unat a) 256 m"
    using vh assms(2,3) by (subst copy_memmove) (auto simp: sizeof_startup_hdr_def forward_def ivl_disjoint)
  show ?thesis using same_hdr(3) [OF bytes_at_memmove vh assms(2), of m] frame_memmove [of "unat ?h" 256 m "unat a"]
    by (simp add: image_start_def Let_def c)
qed

lemma boot_run:
  assumes V: "vars_ok V" and S: "setup_ok V m a" and D: "area (ram_addr m a) (unat (hdr_startup_size m a)) \<inter> area a 256 = {}"
  shows "\<exists>m'. image_start V a (image_setup V a m) = (hdr_startup_vaddr m a, m') \<and>
    bytes_at m' (unat (ram_addr m a)) (unat (hdr_startup_size m a)) = startup_program m a \<and>
    frame (area (startup_hdr V) 256 \<union> area (ram_addr m a) (unat (hdr_startup_size m a))) m m'"
proof -
  let ?h = "startup_hdr V" and ?r = "ram_addr m a" and ?n = "unat (hdr_startup_size m a)"
  let ?m = "image_setup V a m" and ?m' = "snd (image_start V a (image_setup V a m))"
  note s = S [unfolded setup_ok_def Let_def]
  have a: "unat a + 256 \<le> 2 ^ 32" using s by linarith
  have ah: "area a 256 \<inter> area ?h 256 = {}" by (rule disj_sub [of "area a ?n" "area ?h 256"]) (use s in auto)
  note run = image_setup_run [OF V S] and go = image_start_run [OF V a ah, of ?m]
  have "area a 256 \<inter> (area ?h 256 \<union> area ?r ?n) = {}" using ah D by (simp add: Int_Un_distrib Int_commute)
  from frame_bytes [OF conjunct2 [OF run] this] have "hdr_startup_vaddr ?m a = hdr_startup_vaddr m a" by (intro same_hdr(3) a)
  moreover have "bytes_at ?m' (unat ?r) ?n = bytes_at ?m (unat ?r) ?n" using s by (intro frame_bytes [OF conjunct2 [OF go]]) blast
  moreover have "frame (area ?h 256 \<union> area ?r ?n) m ?m'" by (rule frame_trans [OF conjunct2 [OF run] conjunct2 [OF go]]) auto
  ultimately show ?thesis using run go by (intro exI [of _ ?m']) (simp add: prod_eq_iff)
qed

lemma add_info_run:
  assumes L: "info_list m (ram_addr m a + o_info) es q"
    and k: "ld16 m (info + 2) = k" "4 \<le> k" and i: "unat info + unat k \<le> 2 ^ 32"
    and room: "unat q + unat k + 4 \<le> unat (ram_addr m a) + 256" "unat (ram_addr m a) + 256 \<le> 2 ^ 32"
    and ends: "ld16 m (q + ucast k + 2) = 0" and D: "area info (unat k) \<inter> area (ram_addr m a) 256 = {}"
  shows "\<exists>m'. image_add_info a info m = Some (True, m') \<and> bytes_at m' (unat q) (unat k) = bytes_at m (unat info) (unat k) \<and>
    frame (area q (unat k)) m m' \<and> info_list m' (ram_addr m a + o_info) (es @ [(q, ld16 m info)]) (q + ucast k)"
proof -
  let ?r = "ram_addr m a" and ?k = "unat k"
  let ?m = "memmove (unat q) (unat info) ?k m"
  have ur: "unat (?r + o_info) = unat ?r + 64" using room by (simp add: o_info_def unat_plus_num)
  have q: "unat ?r + 64 \<le> unat q" using info_list_below [OF L] by (simp add: ur)
  have k4: "4 \<le> ?k" using k(2) by (simp add: word_le_nat_alt)
  have f: "forward (unat q) (unat info) ?k" using D q room(1) k4 unfolding ivl_disjoint forward_def by auto
  have c: "copy q info (ucast k) m = ?m" using f i room by (subst copy_memmove) (simp_all add: unat_ucast16)
  have "unat (q - ?r) = unat q - unat ?r" using q by (simp add: unat_sub word_le_nat_alt)
  then have "unat (q - ?r + ucast k) = unat q - unat ?r + ?k"
    using room by (subst unat_plus16) simp_all
  then have "\<not> q - ?r + ucast k > sizeof_startup_hdr"
    using room q by (simp add: word_less_nat_alt sizeof_startup_hdr_def)
  then have res: "image_add_info a info m = Some (True, ?m)"
    by (simp add: image_add_info_def Let_def info_end_list [OF L] k(1) c flip: ram_addr_def)
  have b: "bytes_at ?m (unat q) ?k = bytes_at m (unat info) ?k" by (rule bytes_at_memmove)
  have x: "?m (unat q + j) = m (unat info + j)" if "j < 4" for j
    using arg_cong [OF b, of "\<lambda>xs. xs ! j"] that k4 by (simp add: bytes_at_nth)
  have u: "unat (q + 2) = unat q + 2" "unat (info + 2) = unat info + 2" using room i k4 by (simp_all add: unat_plus_num)
  have w: "ld16 ?m q = ld16 m info" "ld16 ?m (q + 2) = k"
    using x [of 0] x [of 1] x [of 2] x [of 3] k(1) unfolding ld16_def u by (simp_all add: numeral_3_eq_3 numeral_2_eq_2)
  have kk: "of_nat ?k = k" "(of_nat ?k :: u32) = ucast k" by (simp_all add: word_unat_eq_iff unat_ucast16 unat_of_nat)
  have k16: "?k < 2 ^ 16" by (rule order_less_le_trans [OF unsigned_less]) simp
  have "info_list ?m (?r + o_info) (es @ [(q, ld16 ?m q)]) (q + of_nat ?k)"
    by (rule info_list_snoc [OF L frame_memmove]) (use w k4 k16 room ends kk in simp_all)
  then have "info_list ?m (?r + o_info) (es @ [(q, ld16 m info)]) (q + ucast k)" by (simp add: w kk)
  with res b frame_memmove show ?thesis by blast
qed

end
