(* ===== verification/Ipl_Usdhc.thy ===== *)
theory Ipl_Usdhc
  imports Ipl_Card Ipl_Scan
begin

section \<open>The initial program loader: commands and reads\<close>

text \<open>
  The contract of the controller and the card is the locale \<open>usdhc\<close>: what its registers give back, what a command
  does, and where the blocks of a transfer go. From it follow the triples of the accesses to registers and
  of \<open>sdmmc_send_cmd\<close>, for a command that the card answers and one that it does not; of a transfer with the DMA
  of the controller, up to \<open>sdmmc_read\<close> (\<open>read_run\<close>); and of the set-up of the controller. A triple \<open>yields m Q\<close>
  says that \<open>m\<close> returns and that its result has the property \<open>Q\<close>.
\<close>

subsection \<open>The contract of the controller and the card\<close>

text \<open>
  What the reference manual says of the uSDHC between two commands, as far as the driver relies on it.
  The controller is seen through its plain registers, the interrupt status, the response and the card.
  A command is answered by the card or times out; a read command moves blocks of the card to memory.
  A status bit is only set when it is enabled in \<open>INTRSTEN\<close>.
\<close>

record 'c sd_view =
  v_regs :: "u32 \<Rightarrow> u32"
  v_intr :: u32
  v_resp :: "nat \<Rightarrow> u32"
  v_card :: 'c

definition plain_regs :: "u32 set" where
  "plain_regs = {MX6X_MMCDMASYSADD, MX6X_MMCBLATR, MX6X_MMCCMDARG, MX6X_MMCPROTOCTL, MX6X_MMCINTRSTEN, MX6X_MMCINTRSIGEN,
     MX6X_MMCWATML, MX6X_MMCMIX_CTRL}"

definition raised :: "u32 \<Rightarrow> 'c sd_view \<Rightarrow> u32" where
  \<comment> \<open>the interrupt status after an event\<close>
  "raised ev v = v_intr v OR (ev AND v_regs v MX6X_MMCINTRSTEN)"

definition first_block :: "bool \<Rightarrow> u32 \<Rightarrow> nat" where
  "first_block hc a = (if hc then unat a else unat a div 512)"

definition cmd_index :: "u32 \<Rightarrow> nat" where
  "cmd_index x = unat (drop_bit 24 x AND 0x3F)"

definition block_count :: "'c sd_view \<Rightarrow> nat" where
  "block_count v = (if v_regs v MX6X_MMCMIX_CTRL AND MMCCMDXTYPE_MSBSEL \<noteq> 0 then unat (drop_bit 16 (v_regs v MX6X_MMCBLATR)) else 1)"

locale usdhc =
  fixes E :: "'d sd_env" and base :: u32 and idle :: "'d \<Rightarrow> bool" and view :: "'d \<Rightarrow> 'c sd_view"
    and answer :: "nat \<Rightarrow> u32 \<Rightarrow> 'c \<Rightarrow> (nat \<Rightarrow> u32) option \<times> 'c"
    and block :: "'c \<Rightarrow> nat \<Rightarrow> u8 list" and capacity :: "'c \<Rightarrow> nat" and high_cap :: "'c \<Rightarrow> bool"
  assumes reads: "idle d \<Longrightarrow> \<exists>v d'. reg_in E (base + r) (d, m) = (v, d', m) \<and> idle d' \<and> view d' = view d \<and>
      (r \<in> plain_regs \<longrightarrow> v = v_regs (view d) r) \<and> (r = MX6X_MMCINTRST \<longrightarrow> v = v_intr (view d)) \<and>
      (r = MX6X_MMCCMDRSP0 \<longrightarrow> v = v_resp (view d) 0) \<and> (r = MX6X_MMCCMDRSP1 \<longrightarrow> v = v_resp (view d) 1) \<and>
      (r = MX6X_MMCCMDRSP2 \<longrightarrow> v = v_resp (view d) 2) \<and> (r = MX6X_MMCCMDRSP3 \<longrightarrow> v = v_resp (view d) 3) \<and>
      (r = MX6X_MMCPRSNTST \<longrightarrow> v AND (MMCPRSNTST_CDIHB OR MMCPRSNTST_CIHB OR MMCPRSNTST_DLA) = 0 \<and> v AND MMCPRSNTST_SDSTB \<noteq> 0) \<and>
      (r = MX6X_MMCSYSCTL \<longrightarrow> v AND (MMCSYSCTL_RSTA OR MMCSYSCTL_RSTC OR MMCSYSCTL_INITA) = 0)"
    and writes: "idle d \<Longrightarrow> r \<in> plain_regs \<Longrightarrow> \<exists>d'. reg_out E (base + r) x (d, m) = (d', m) \<and> idle d' \<and>
      view d' = (view d)\<lparr>v_regs := (v_regs (view d))(r := x)\<rparr>"
    and acks: "idle d \<Longrightarrow> \<exists>d'. reg_out E (base + MX6X_MMCINTRST) x (d, m) = (d', m) \<and> idle d' \<and>
      view d' = (view d)\<lparr>v_intr := v_intr (view d) AND NOT x\<rparr>"
    and controls: "idle d \<Longrightarrow> \<exists>d'. reg_out E (base + MX6X_MMCSYSCTL) x (d, m) = (d', m) \<and> idle d' \<and>
      v_card (view d') = v_card (view d) \<and> (x AND MMCSYSCTL_RSTA = 0 \<longrightarrow> v_regs (view d') = v_regs (view d)) \<and>
      (x AND (MMCSYSCTL_RSTA OR MMCSYSCTL_RSTC) = 0 \<longrightarrow> view d' = view d)"
    and unanswered: "idle d \<Longrightarrow> answer (cmd_index x) (v_regs (view d) MX6X_MMCCMDARG) (v_card (view d)) = (None, c') \<Longrightarrow>
      \<exists>d'. reg_out E (base + MX6X_MMCCMDXTYPE) x (d, m) = (d', m) \<and> idle d' \<and>
        view d' = (view d)\<lparr>v_intr := raised MMCINTR_CTOE (view d), v_card := c'\<rparr>"
    and answered: "idle d \<Longrightarrow> answer (cmd_index x) (v_regs (view d) MX6X_MMCCMDARG) (v_card (view d)) = (Some rs, c') \<Longrightarrow>
      x AND MMCCMDXTYPE_DPSEL = 0 \<Longrightarrow>
      \<exists>d'. reg_out E (base + MX6X_MMCCMDXTYPE) x (d, m) = (d', m) \<and> idle d' \<and>
        view d' = (view d)\<lparr>v_intr := raised MMCINTR_CC (view d), v_resp := rs, v_card := c'\<rparr>"
    and fifo: "idle d \<Longrightarrow> answer (cmd_index x) (v_regs (view d) MX6X_MMCCMDARG) (v_card (view d)) = (Some rs, c') \<Longrightarrow>
      x AND MMCCMDXTYPE_DPSEL \<noteq> 0 \<Longrightarrow> v_regs (view d) MX6X_MMCMIX_CTRL AND MMCCMDXTYPE_DMAEN = 0 \<Longrightarrow>
      \<exists>d'. reg_out E (base + MX6X_MMCCMDXTYPE) x (d, m) = (d', m) \<and> idle d' \<and>
        view d' = (view d)\<lparr>v_intr := raised (MMCINTR_CC OR MMCINTR_BRR) (view d), v_resp := rs, v_card := c'\<rparr>"
    and transfers: "idle d \<Longrightarrow> answer (cmd_index x) (v_regs (view d) MX6X_MMCCMDARG) (v_card (view d)) = (Some rs, c') \<Longrightarrow>
      cmd_index x \<in> {17, 18} \<Longrightarrow> x AND MMCCMDXTYPE_DPSEL \<noteq> 0 \<Longrightarrow>
      v_regs (view d) MX6X_MMCMIX_CTRL AND MMCCMDXTYPE_DMAEN \<noteq> 0 \<Longrightarrow> v_regs (view d) MX6X_MMCBLATR AND 0x1FFF = 512 \<Longrightarrow>
      first_block (high_cap (v_card (view d))) (v_regs (view d) MX6X_MMCCMDARG) + block_count (view d) \<le> capacity (v_card (view d)) \<Longrightarrow>
      \<exists>d'. reg_out E (base + MX6X_MMCCMDXTYPE) x (d, m) =
          (d', put_bytes (unat (v_regs (view d) MX6X_MMCDMASYSADD))
             (concat (map (block (v_card (view d))) [first_block (high_cap (v_card (view d))) (v_regs (view d) MX6X_MMCCMDARG)..<
                first_block (high_cap (v_card (view d))) (v_regs (view d) MX6X_MMCCMDARG) + block_count (view d)])) m) \<and> idle d' \<and>
        view d' = (view d)\<lparr>v_intr := raised (MMCINTR_CC OR MMCINTR_TC) (view d), v_resp := rs, v_card := c'\<rparr>"
    and block_length: "length (block c n) = 512"

text \<open>Registers that the driver reads and writes are different.\<close>

lemma plain_simps [simp]:
  "MX6X_MMCDMASYSADD \<in> plain_regs" "MX6X_MMCBLATR \<in> plain_regs" "MX6X_MMCCMDARG \<in> plain_regs" "MX6X_MMCPROTOCTL \<in> plain_regs"
  "MX6X_MMCINTRSTEN \<in> plain_regs" "MX6X_MMCINTRSIGEN \<in> plain_regs" "MX6X_MMCWATML \<in> plain_regs" "MX6X_MMCMIX_CTRL \<in> plain_regs"
  by (simp_all add: plain_regs_def)

lemma world_upd [simp]: "w\<lparr>ctl := d, mem := mem w\<rparr> = w\<lparr>ctl := d\<rparr>" "w\<lparr>mem := mem w\<rparr> = w" "w\<lparr>ctl := ctl w\<rparr> = w"
  by (cases w; simp)+

lemma and_or_zero: "x AND (a OR b) = 0 \<longleftrightarrow> x AND a = 0 \<and> x AND b = 0" for x a b :: u32
  by (simp add: bit.conj_disj_distrib or_eq_0_iff)

lemma and_keep: "x AND m = 0 \<Longrightarrow> (x AND y) AND m = 0" for x y m :: u32
  by (simp add: and.commute [of x y] and.assoc)

lemma or_keep: "x AND m = 0 \<Longrightarrow> (x OR y) AND m = y AND m" for x y m :: u32
  by (simp add: bit.conj_disj_distrib2)

subsection \<open>Results of functions that may not return\<close>

definition yields :: "'a option \<Rightarrow> ('a \<Rightarrow> bool) \<Rightarrow> bool" where
  \<comment> \<open>the function returns, and what it returns is as wanted\<close>
  "yields m Q \<longleftrightarrow> (\<exists>x. m = Some x \<and> Q x)"

lemma yields_Some [simp]: "yields (Some x) Q \<longleftrightarrow> Q x"
  by (simp add: yields_def)

lemma yields_bind: "yields m P \<Longrightarrow> (\<And>x. P x \<Longrightarrow> yields (f x) Q) \<Longrightarrow> yields (m \<bind> f) Q"
  by (auto simp: yields_def)

lemma yields_bind2: "yields m (\<lambda>(a, w). P a w) \<Longrightarrow> (\<And>a w. P a w \<Longrightarrow> yields (f (a, w)) Q) \<Longrightarrow> yields (m \<bind> f) Q"
  by (auto simp: yields_def)

lemma yields_mono: "yields m P \<Longrightarrow> (\<And>x. P x \<Longrightarrow> Q x) \<Longrightarrow> yields m Q"
  by (auto simp: yields_def)

lemma yields_mono2: "yields m (\<lambda>(a, w). P a w) \<Longrightarrow> (\<And>a w. P a w \<Longrightarrow> Q (a, w)) \<Longrightarrow> yields m Q"
  by (auto simp: yields_def)

context usdhc
begin

definition on :: "('d, 'z) sd_world_scheme \<Rightarrow> 'c sd_view \<Rightarrow> ('d, 'z) sd_world_scheme \<Rightarrow> bool" where
  \<comment> \<open>the world is \<open>w0\<close> but for the controller, which is idle and looks like \<open>v\<close>\<close>
  "on w0 v w \<longleftrightarrow> sdmmc w = sdmmc w0 \<and> mem w = mem w0 \<and> sd_world.more w = sd_world.more w0 \<and>
     sdmmc_pbase (sdmmc w0) = base \<and> idle (ctl w) \<and> view (ctl w) = v"

lemma on_simps: "on w0 v w \<Longrightarrow> sdmmc w = sdmmc w0" "on w0 v w \<Longrightarrow> mem w = mem w0"
  by (simp_all add: on_def)

lemma in32_run:
  assumes "on w0 v w"
  shows "yields (sd_in32 E r w) (\<lambda>(x, w'). on w0 v w' \<and>
    (r \<in> plain_regs \<longrightarrow> x = v_regs v r) \<and> (r = MX6X_MMCINTRST \<longrightarrow> x = v_intr v) \<and>
      (r = MX6X_MMCCMDRSP0 \<longrightarrow> x = v_resp v 0) \<and> (r = MX6X_MMCCMDRSP1 \<longrightarrow> x = v_resp v 1) \<and>
      (r = MX6X_MMCCMDRSP2 \<longrightarrow> x = v_resp v 2) \<and> (r = MX6X_MMCCMDRSP3 \<longrightarrow> x = v_resp v 3) \<and>
      (r = MX6X_MMCPRSNTST \<longrightarrow> x AND (MMCPRSNTST_CDIHB OR MMCPRSNTST_CIHB OR MMCPRSNTST_DLA) = 0 \<and> x AND MMCPRSNTST_SDSTB \<noteq> 0) \<and>
      (r = MX6X_MMCSYSCTL \<longrightarrow> x AND (MMCSYSCTL_RSTA OR MMCSYSCTL_RSTC OR MMCSYSCTL_INITA) = 0))"
proof -
  have i: "idle (ctl w)" and b: "sdmmc_pbase (sdmmc w) = base" and v: "view (ctl w) = v" using assms by (simp_all add: on_def)
  from reads [OF i, of r "mem w"] obtain x d' where
    x: "reg_in E (base + r) (ctl w, mem w) = (x, d', mem w)" "idle d'" "view d' = view (ctl w)" and rest:
      "(r \<in> plain_regs \<longrightarrow> x = v_regs (view (ctl w)) r) \<and> (r = MX6X_MMCINTRST \<longrightarrow> x = v_intr (view (ctl w))) \<and>
      (r = MX6X_MMCCMDRSP0 \<longrightarrow> x = v_resp (view (ctl w)) 0) \<and> (r = MX6X_MMCCMDRSP1 \<longrightarrow> x = v_resp (view (ctl w)) 1) \<and>
      (r = MX6X_MMCCMDRSP2 \<longrightarrow> x = v_resp (view (ctl w)) 2) \<and> (r = MX6X_MMCCMDRSP3 \<longrightarrow> x = v_resp (view (ctl w)) 3) \<and>
      (r = MX6X_MMCPRSNTST \<longrightarrow> x AND (MMCPRSNTST_CDIHB OR MMCPRSNTST_CIHB OR MMCPRSNTST_DLA) = 0 \<and> x AND MMCPRSNTST_SDSTB \<noteq> 0) \<and>
      (r = MX6X_MMCSYSCTL \<longrightarrow> x AND (MMCSYSCTL_RSTA OR MMCSYSCTL_RSTC OR MMCSYSCTL_INITA) = 0)" by blast
  have "sd_in32 E r w = Some (x, w\<lparr>ctl := d'\<rparr>)" using x(1) b by (simp add: sd_in32_def)
  moreover have "on w0 v (w\<lparr>ctl := d'\<rparr>)" using x assms by (simp add: on_def)
  ultimately show ?thesis using rest unfolding v by simp
qed

lemma in_plain: "on w0 v w \<Longrightarrow> r \<in> plain_regs \<Longrightarrow> yields (sd_in32 E r w) (\<lambda>(x, w). x = v_regs v r \<and> on w0 v w)"
  by (erule yields_mono2 [OF in32_run]) simp

lemma in_intr: "on w0 v w \<Longrightarrow> yields (sd_in32 E MX6X_MMCINTRST w) (\<lambda>(x, w). x = v_intr v \<and> on w0 v w)"
  by (erule yields_mono2 [OF in32_run]) simp

lemma in_resp:
  assumes "on w0 v w"
  shows "yields (sd_in32 E MX6X_MMCCMDRSP0 w) (\<lambda>(x, w). x = v_resp v 0 \<and> on w0 v w)"
    "yields (sd_in32 E MX6X_MMCCMDRSP1 w) (\<lambda>(x, w). x = v_resp v 1 \<and> on w0 v w)"
    "yields (sd_in32 E MX6X_MMCCMDRSP2 w) (\<lambda>(x, w). x = v_resp v 2 \<and> on w0 v w)"
    "yields (sd_in32 E MX6X_MMCCMDRSP3 w) (\<lambda>(x, w). x = v_resp v 3 \<and> on w0 v w)"
  by (rule yields_mono2 [OF in32_run [OF assms]], simp)+

lemma in_status: "on w0 v w \<Longrightarrow> yields (sd_in32 E MX6X_MMCPRSNTST w) (\<lambda>(x, w). on w0 v w \<and>
    x AND MMCPRSNTST_CDIHB = 0 \<and> x AND MMCPRSNTST_CIHB = 0 \<and> x AND MMCPRSNTST_DLA = 0 \<and> x AND MMCPRSNTST_SDSTB \<noteq> 0)"
  by (erule yields_mono2 [OF in32_run]) (simp add: and_or_zero)

lemma in_sys: "on w0 v w \<Longrightarrow> yields (sd_in32 E MX6X_MMCSYSCTL w) (\<lambda>(x, w). on w0 v w \<and>
    x AND MMCSYSCTL_RSTA = 0 \<and> x AND MMCSYSCTL_RSTC = 0 \<and> x AND MMCSYSCTL_INITA = 0)"
  by (erule yields_mono2 [OF in32_run]) (simp add: and_or_zero)

lemma wait_intr: "on w0 v w \<Longrightarrow> P (v_intr v) \<Longrightarrow> yields (sd_wait E MX6X_MMCINTRST P w) (on w0 v)"
  by (subst sd_wait.simps) (erule yields_bind2 [OF in_intr], simp)

lemma wait_status:
  "on w0 v w \<Longrightarrow> (\<And>x. x AND MMCPRSNTST_DLA = 0 \<Longrightarrow> x AND MMCPRSNTST_SDSTB \<noteq> 0 \<Longrightarrow> P x) \<Longrightarrow>
    yields (sd_wait E MX6X_MMCPRSNTST P w) (on w0 v)"
  by (subst sd_wait.simps) (erule yields_bind2 [OF in_status], simp)

lemma wait_sys:
  "on w0 v w \<Longrightarrow> (\<And>x. x AND MMCSYSCTL_RSTA = 0 \<Longrightarrow> x AND MMCSYSCTL_RSTC = 0 \<Longrightarrow> x AND MMCSYSCTL_INITA = 0 \<Longrightarrow> P x) \<Longrightarrow>
    yields (sd_wait E MX6X_MMCSYSCTL P w) (on w0 v)"
  by (subst sd_wait.simps) (erule yields_bind2 [OF in_sys], simp)

lemma wait_inhibit: "on w0 v w \<Longrightarrow> yields (sd_wait_inhibit E w) (on w0 v)"
  by (subst sd_wait_inhibit.simps) (erule yields_bind2 [OF in_status], auto intro!: yields_bind2 [OF in_status])

lemma out_plain:
  "on w0 v w \<Longrightarrow> r \<in> plain_regs \<Longrightarrow> yields (sd_out32 E r x w) (on w0 (v\<lparr>v_regs := (v_regs v)(r := x)\<rparr>))"
  using writes [of "ctl w" r x "mem w"] by (auto simp: on_def sd_out32_def yields_def)

lemma out_intr: "on w0 v w \<Longrightarrow> yields (sd_out32 E MX6X_MMCINTRST x w) (on w0 (v\<lparr>v_intr := v_intr v AND NOT x\<rparr>))"
  using acks [of "ctl w" x "mem w"] by (auto simp: on_def sd_out32_def yields_def)

lemma out_sys:
  "on w0 v w \<Longrightarrow> yields (sd_out32 E MX6X_MMCSYSCTL x w) (\<lambda>w. \<exists>v'. on w0 v' w \<and> v_card v' = v_card v \<and>
    (x AND MMCSYSCTL_RSTA = 0 \<longrightarrow> v_regs v' = v_regs v) \<and> (x AND (MMCSYSCTL_RSTA OR MMCSYSCTL_RSTC) = 0 \<longrightarrow> v' = v))"
  using controls [of "ctl w" x "mem w"] by (auto simp: on_def sd_out32_def yields_def)

lemma set_plain:
  "on w0 v w \<Longrightarrow> r \<in> plain_regs \<Longrightarrow> yields (sd_set32 E r f w) (on w0 (v\<lparr>v_regs := (v_regs v)(r := f (v_regs v r))\<rparr>))"
  unfolding sd_set32_def by (erule yields_bind2 [OF in_plain]) (auto intro: out_plain)

lemma set_sys:
  "on w0 v w \<Longrightarrow> (\<And>x. x AND MMCSYSCTL_RSTA = 0 \<Longrightarrow> x AND MMCSYSCTL_RSTC = 0 \<Longrightarrow> f x AND MMCSYSCTL_RSTA = 0 \<and> f x AND MMCSYSCTL_RSTC = 0) \<Longrightarrow>
    yields (sd_set32 E MX6X_MMCSYSCTL f w) (on w0 v)"
  unfolding sd_set32_def by (erule yields_bind2 [OF in_sys]) (auto intro!: yields_mono [OF out_sys] simp: and_or_zero)

lemma reset_line: "on w0 v w \<Longrightarrow> yields (reset_cmd_line E w) (\<lambda>w. \<exists>v'. on w0 v' w \<and> v_card v' = v_card v \<and> v_regs v' = v_regs v)"
proof -
  assume a: "on w0 v w"
  have z: "x AND MMCSYSCTL_RSTA = 0 \<Longrightarrow> (x OR MMCSYSCTL_RSTC) AND MMCSYSCTL_RSTA = 0" for x
    by (simp add: bit.conj_disj_distrib2 sd_bits)
  have "yields (sd_set32 E MX6X_MMCSYSCTL (\<lambda>v. v OR MMCSYSCTL_RSTC) w) (\<lambda>w. \<exists>v'. on w0 v' w \<and> v_card v' = v_card v \<and> v_regs v' = v_regs v)"
    unfolding sd_set32_def by (rule yields_bind2 [OF in_sys [OF a]]) (auto intro!: yields_mono [OF out_sys] simp: z)
  then show ?thesis unfolding reset_cmd_line_def
    by (rule yields_bind) (auto intro!: yields_mono [OF wait_sys])
qed

end

subsection \<open>Commands\<close>

definition long_answer :: "u32 \<Rightarrow> bool" where
  "long_answer x \<longleftrightarrow> x AND MMCCMDXTYPE_RSPTYPMASK = MMCCMDXTYPE_RSPTYPL136"

definition answer_words :: "u32 \<Rightarrow> (nat \<Rightarrow> u32) \<Rightarrow> (nat \<Rightarrow> u32) \<Rightarrow> nat \<Rightarrow> u32" where
  \<comment> \<open>what is in the buffer after the response \<open>rs\<close>\<close>
  "answer_words x rs r =
     (if long_answer x
      then r(3 := push_bit 8 (rs 3) OR drop_bit 24 (rs 2), 2 := push_bit 8 (rs 2) OR drop_bit 24 (rs 1),
             1 := push_bit 8 (rs 1) OR drop_bit 24 (rs 0), 0 := push_bit 8 (rs 0))
      else r(0 := rs 0))"

abbreviation ENABLED :: u32 where "ENABLED \<equiv> 0x017F8033"

lemma sd_world_upd [simp]: "upd_cmd (\<lambda>c. c) w = w" "upd_card (\<lambda>c. c) w = w"
  by (simp_all add: upd_cmd_def upd_card_def)

lemma register_distinct [simp]:
  "MX6X_MMCINTRSTEN \<noteq> MX6X_MMCWATML" "MX6X_MMCINTRSTEN \<noteq> MX6X_MMCCMDARG" "MX6X_MMCINTRSTEN \<noteq> MX6X_MMCMIX_CTRL"
  "MX6X_MMCINTRSTEN \<noteq> MX6X_MMCBLATR" "MX6X_MMCINTRSTEN \<noteq> MX6X_MMCDMASYSADD" "MX6X_MMCINTRSTEN \<noteq> MX6X_MMCPROTOCTL"
  "MX6X_MMCINTRSTEN \<noteq> MX6X_MMCINTRSIGEN" "MX6X_MMCCMDARG \<noteq> MX6X_MMCMIX_CTRL" "MX6X_MMCBLATR \<noteq> MX6X_MMCMIX_CTRL"
  "MX6X_MMCBLATR \<noteq> MX6X_MMCCMDARG" "MX6X_MMCBLATR \<noteq> MX6X_MMCWATML" "MX6X_MMCBLATR \<noteq> MX6X_MMCDMASYSADD"
  "MX6X_MMCDMASYSADD \<noteq> MX6X_MMCMIX_CTRL" "MX6X_MMCDMASYSADD \<noteq> MX6X_MMCCMDARG" "MX6X_MMCDMASYSADD \<noteq> MX6X_MMCWATML"
  "MX6X_MMCMIX_CTRL \<noteq> MX6X_MMCWATML" "MX6X_MMCWATML \<noteq> MX6X_MMCCMDARG"
  by (simp_all add: sd_offsets)

declare register_distinct [symmetric, simp]

lemma no_bits [simp]: "x AND - 4294967296 = 0" for x :: u32
proof -
  have "(- 4294967296 :: u32) = 0" by (simp only: neg_equal_0_iff_equal) simp
  then show ?thesis by (simp only: bit.conj_zero_right)
qed

lemma ev_bits:
  "MMCINTR_CTOE AND ENABLED = MMCINTR_CTOE" "MMCINTR_CC AND ENABLED = MMCINTR_CC"
  "(MMCINTR_CC OR MMCINTR_TC) AND ENABLED = MMCINTR_CC OR MMCINTR_TC"
  "(MMCINTR_CC OR MMCINTR_BRR) AND ENABLED = MMCINTR_CC OR MMCINTR_BRR"
  by (simp_all add: sd_bits)

definition started :: "int \<Rightarrow> u32 \<Rightarrow> u32 \<Rightarrow> u32 \<Rightarrow> sdmmc_cmd_t \<Rightarrow> 'c \<Rightarrow> 'c sd_view \<Rightarrow> bool" where
  \<comment> \<open>the registers when the command is written\<close>
  "started k x mix old cm c v \<longleftrightarrow> v_card v = c \<and> v_intr v = 0 \<and> v_regs v MX6X_MMCINTRSTEN = ENABLED \<and>
     v_regs v MX6X_MMCCMDARG = c_arg cm \<and> v_regs v MX6X_MMCMIX_CTRL = mix OR (old AND push_bit 22 0xF) \<and>
     (x AND MMCCMDXTYPE_DPSEL \<noteq> 0 \<longrightarrow> v_regs v MX6X_MMCBLATR = push_bit 16 (c_bcnt cm) OR c_bsize cm \<and>
       v_regs v MX6X_MMCDMASYSADD = c_dbuf cm)"

definition mix_of :: "int \<Rightarrow> u32" where
  "mix_of k = (if k = 17 then MMCCMDXTYPE_DTDSEL OR MMCCMDXTYPE_DMAEN
     else if k = 18 then MMCCMDXTYPE_MSBSEL OR MMCCMDXTYPE_BCEN OR MMCCMDXTYPE_AC12EN OR MMCCMDXTYPE_DTDSEL OR MMCCMDXTYPE_DMAEN
     else 0)"

context usdhc
begin

definition sd :: "('d, 'z) sd_world_scheme \<Rightarrow> 'c \<Rightarrow> ('d, 'z) sd_world_scheme \<Rightarrow> bool" where
  \<comment> \<open>the world is \<open>w0\<close> but for the controller, which is idle with its events enabled and the card \<open>c\<close>\<close>
  "sd w0 c w \<longleftrightarrow> (\<exists>v. on w0 v w \<and> v_card v = c \<and> v_regs v MX6X_MMCINTRSTEN = ENABLED)"

lemma sd_simps: "sd w0 c w \<Longrightarrow> sdmmc w = sdmmc w0" "sd w0 c w \<Longrightarrow> mem w = mem w0"
  by (auto simp: sd_def on_def)

lemma sd_upd:
  "sd w0 c w \<Longrightarrow> sd (upd_cmd f w0) c (upd_cmd f w)" "sd w0 c w \<Longrightarrow> sd (upd_card g w0) c (upd_card g w)"
  "sd w0 c w \<Longrightarrow> sd (CMD_CREATE k a r bs bc bu w0) c (CMD_CREATE k a r bs bc bu w)"
  by (auto simp: sd_def on_def upd_cmd_def upd_card_def CMD_CREATE_def)

lemma on_upd_cmd: "on w0 v w \<Longrightarrow> on (upd_cmd f w0) v (upd_cmd f w)"
  by (auto simp: on_def upd_cmd_def)

lemma inita_run: "on w0 v w \<Longrightarrow>
    yields (if k = (0::int) then do {
                w \<leftarrow> sd_set32 E MX6X_MMCSYSCTL (\<lambda>v. v OR MMCSYSCTL_INITA OR push_bit 16 2) w;
                sd_wait E MX6X_MMCSYSCTL (\<lambda>v. v AND MMCSYSCTL_INITA = 0) w
              } else Some w) (on w0 v)"
  by (auto intro!: yields_bind [OF set_sys] wait_sys simp: or_keep) (simp_all add: sd_bits)

lemma dma_run: "on w0 v w \<Longrightarrow>
    yields (mx6x_setup_dma_read E w) (on w0 (v\<lparr>v_regs := (v_regs v)(MX6X_MMCBLATR := push_bit 16 (c_bcnt (the_cmd w0)) OR c_bsize (the_cmd w0),
       MX6X_MMCDMASYSADD := c_dbuf (the_cmd w0))\<rparr>))"
  unfolding mx6x_setup_dma_read_def
  apply (rule yields_bind [OF out_plain], assumption, simp)
  apply (rule yields_bind [OF out_plain], assumption, simp)
  apply (rule yields_mono [OF set_sys], assumption)
   apply (simp add: and_keep or_keep, simp add: sd_bits)
  apply (simp add: on_simps)
  done

end

context usdhc
begin

lemma dma_opt: "on w0 v w \<Longrightarrow>
    yields (if x AND MMCCMDXTYPE_DPSEL \<noteq> 0 then mx6x_setup_dma_read E w else Some w) (\<lambda>w. \<exists>v'. on w0 v' w \<and> v_card v' = v_card v \<and>
      v_regs v' MX6X_MMCINTRSTEN = v_regs v MX6X_MMCINTRSTEN \<and> v_regs v' MX6X_MMCMIX_CTRL = v_regs v MX6X_MMCMIX_CTRL \<and>
      (x AND MMCCMDXTYPE_DPSEL \<noteq> 0 \<longrightarrow> v_regs v' MX6X_MMCBLATR = push_bit 16 (c_bcnt (the_cmd w0)) OR c_bsize (the_cmd w0) \<and>
       v_regs v' MX6X_MMCDMASYSADD = c_dbuf (the_cmd w0)))"
  (is "_ \<Longrightarrow> yields _ ?Q")
proof -
  assume a: "on w0 v w"
  show ?thesis
  proof (cases "x AND MMCCMDXTYPE_DPSEL = 0")
    case True
    with a show ?thesis by auto
  next
    case False
    have "yields (mx6x_setup_dma_read E w) ?Q" by (rule yields_mono [OF dma_run [OF a]], rule exI, erule conjI) simp
    with False show ?thesis by simp
  qed
qed

lemma start_run:
  assumes a: "on w0 v w" "v_regs v MX6X_MMCINTRSTEN = ENABLED"
    and go: "\<And>w' v'. on w0 v' w' \<Longrightarrow> started k x (mix_of k) (v_regs v MX6X_MMCMIX_CTRL) (the_cmd w0) (v_card v) v' \<Longrightarrow>
      yields (sd_out32 E MX6X_MMCCMDXTYPE x w') Q"
  shows "yields (start_cmd E k x w) Q"
  unfolding start_cmd_def mix_of_def [symmetric]
  apply (rule yields_bind [OF wait_inhibit [OF a(1)]])
  apply (rule yields_bind [OF wait_status], assumption, simp)
  apply (rule yields_bind [OF inita_run], assumption)
  apply (simp only: Let_def)
  apply (rule yields_bind [OF dma_opt], assumption)
  apply (elim exE conjE)
  apply (rule yields_bind [OF out_intr], assumption)
  apply (rule yields_bind [OF out_plain], assumption, simp)
  apply (rule yields_bind [OF out_plain], assumption, simp)
  apply (rule yields_bind [OF set_plain], assumption, simp)
  apply (erule go)
  apply (simp add: started_def a on_simps)
  done

lemma raised_started: "started k x mix old cm c v \<Longrightarrow> ev AND ENABLED = ev \<Longrightarrow> raised ev v = ev"
  by (simp add: started_def raised_def)

lemma response_run:
  assumes "on w0 v w"
  shows "yields (read_response E x w) (on (upd_cmd (\<lambda>c. c\<lparr>c_rsp := map_option (answer_words x (v_resp v)) (c_rsp c)\<rparr>) w0) v)"
proof (cases "c_rsp (the_cmd w0)")
  case None
  then have "upd_cmd (\<lambda>c. c\<lparr>c_rsp := map_option (answer_words x (v_resp v)) (c_rsp c)\<rparr>) w0 = w0"
    by (simp add: upd_cmd_def)
  with None assms show ?thesis by (simp add: read_response_def on_simps)
next
  case (Some r)
  have eq: "(case Some r of None \<Rightarrow> a | Some r \<Rightarrow> f r) = f r" for a :: 'x and f by simp
  have fin: "on (upd_cmd (\<lambda>c. c\<lparr>c_rsp := map_option (answer_words x (v_resp v)) (c_rsp c)\<rparr>) w0) v (upd_cmd (\<lambda>c. c\<lparr>c_rsp := Some q\<rparr>) w')"
    if "on w0 v w'" "q = answer_words x (v_resp v) r" for w' q
  proof -
    have "upd_cmd (\<lambda>c. c\<lparr>c_rsp := map_option (answer_words x (v_resp v)) (c_rsp c)\<rparr>) w0 = upd_cmd (\<lambda>c. c\<lparr>c_rsp := Some q\<rparr>) w0"
      using Some that(2) by (simp add: upd_cmd_def)
    then show ?thesis using on_upd_cmd [OF that(1)] by simp
  qed
  show ?thesis
  proof (cases "long_answer x")
    case True
    then show ?thesis unfolding read_response_def on_simps(1) [OF assms] Some eq
      by (auto intro!: yields_bind2 [OF in_resp(1)] yields_bind2 [OF in_resp(2)] yields_bind2 [OF in_resp(3)] yields_bind2 [OF in_resp(4)]
          assms fin simp: long_answer_def [symmetric] answer_words_def)
  next
    case False
    then show ?thesis unfolding read_response_def on_simps(1) [OF assms] Some eq
      by (auto intro!: yields_bind2 [OF in_resp(1)] assms fin simp: long_answer_def [symmetric] answer_words_def)
  qed
qed

lemma sdI: "on w0 v w \<Longrightarrow> v_card v = c \<Longrightarrow> v_regs v MX6X_MMCINTRSTEN = ENABLED \<Longrightarrow> sd w0 c w"
  by (auto simp: sd_def)

lemma send_unanswered:
  assumes s: "sd w0 c w" and k: "get_cmd (c_cmd (the_cmd w0)) = Some x" and n: "answer (cmd_index x) (c_arg (the_cmd w0)) c = (None, c')"
  shows "yields (sdmmc_send_cmd E w) (\<lambda>(r, w). r = SDMMC_ERROR \<and> sd (upd_cmd (\<lambda>c. c\<lparr>c_erintsts := 0\<rparr>) w0) c' w)"
proof -
  from s obtain v where v: "on w0 v w" "v_card v = c" "v_regs v MX6X_MMCINTRSTEN = ENABLED" by (auto simp: sd_def)
  have go: "yields (start_cmd E (c_cmd (the_cmd w0)) x w) (\<lambda>w. \<exists>v. on w0 v w \<and> v_card v = c' \<and> v_intr v = MMCINTR_CTOE \<and> v_regs v MX6X_MMCINTRSTEN = ENABLED)"
  proof (rule start_run [OF v(1,3)])
    fix w' v' assume o: "on w0 v' w'" and st: "started (c_cmd (the_cmd w0)) x (mix_of (c_cmd (the_cmd w0))) (v_regs v MX6X_MMCMIX_CTRL) (the_cmd w0) (v_card v) v'"
    have "idle (ctl w')" "answer (cmd_index x) (v_regs (view (ctl w')) MX6X_MMCCMDARG) (v_card (view (ctl w'))) = (None, c')"
      using o st n v(2) by (simp_all add: on_def started_def)
    from unanswered [OF this, of "mem w'"] show "yields (sd_out32 E MX6X_MMCCMDXTYPE x w') (\<lambda>w. \<exists>v. on w0 v w \<and> v_card v = c' \<and> v_intr v = MMCINTR_CTOE \<and> v_regs v MX6X_MMCINTRSTEN = ENABLED)"
      using o raised_started [OF st, of MMCINTR_CTOE] st by (auto simp: sd_out32_def on_def ev_bits started_def)
  qed
  have b: "MMCINTR_CTOE AND (MMCINTR_CC OR MMCINTR_ERRI) \<noteq> 0" "MMCINTR_CTOE AND MMCINTR_ERRI \<noteq> 0" "MMCINTR_CTOE \<noteq> 2" "(ucast MMCINTR_CTOE :: u16) = 0"
    by (simp_all add: sd_bits)
  show ?thesis unfolding sdmmc_send_cmd_def sd_simps(1) [OF s] k
    using b by (auto intro!: yields_bind [OF go] yields_bind [OF wait_intr] yields_bind2 [OF in_intr] yields_bind [OF reset_line [OF on_upd_cmd]]) (assumption, erule sdI, simp_all)
qed

lemma send_answered:
  assumes s: "sd w0 c w" and k: "get_cmd (c_cmd (the_cmd w0)) = Some x" and n: "answer (cmd_index x) (c_arg (the_cmd w0)) c = (Some rs, c')"
    and d: "x AND MMCCMDXTYPE_DPSEL = 0"
  shows "yields (sdmmc_send_cmd E w) (\<lambda>(r, w). r = SDMMC_OK \<and> sd (upd_cmd (\<lambda>c. c\<lparr>c_rsp := map_option (answer_words x rs) (c_rsp c)\<rparr>) w0) c' w)"
proof -
  from s obtain v where v: "on w0 v w" "v_card v = c" "v_regs v MX6X_MMCINTRSTEN = ENABLED" by (auto simp: sd_def)
  have go: "yields (start_cmd E (c_cmd (the_cmd w0)) x w) (\<lambda>w. \<exists>v. on w0 v w \<and> v_card v = c' \<and> v_resp v = rs \<and> v_intr v = MMCINTR_CC \<and> v_regs v MX6X_MMCINTRSTEN = ENABLED)"
  proof (rule start_run [OF v(1,3)])
    fix w' v' assume o: "on w0 v' w'" and st: "started (c_cmd (the_cmd w0)) x (mix_of (c_cmd (the_cmd w0))) (v_regs v MX6X_MMCMIX_CTRL) (the_cmd w0) (v_card v) v'"
    have "idle (ctl w')" "answer (cmd_index x) (v_regs (view (ctl w')) MX6X_MMCCMDARG) (v_card (view (ctl w'))) = (Some rs, c')"
      using o st n v(2) by (simp_all add: on_def started_def)
    from answered [OF this d, of "mem w'"] show "yields (sd_out32 E MX6X_MMCCMDXTYPE x w') (\<lambda>w. \<exists>v. on w0 v w \<and> v_card v = c' \<and> v_resp v = rs \<and> v_intr v = MMCINTR_CC \<and> v_regs v MX6X_MMCINTRSTEN = ENABLED)"
      using o raised_started [OF st, of MMCINTR_CC] st by (auto simp: sd_out32_def on_def ev_bits started_def)
  qed
  have b: "MMCINTR_CC AND (MMCINTR_CC OR MMCINTR_ERRI) \<noteq> 0" "MMCINTR_CC AND MMCINTR_ERRI = 0"
    by (simp_all add: sd_bits)
  show ?thesis unfolding sdmmc_send_cmd_def sd_simps(1) [OF s] k
    using b d by (auto intro!: yields_bind [OF go] yields_bind [OF wait_intr] yields_bind2 [OF in_intr] yields_bind [OF response_run]) (assumption, erule sdI, simp_all)
qed

end

lemma high_bits: "(x AND 0x3C00000) AND 0x20 = (0 :: u32)" "(x AND 0x3C00000) AND 1 = (0 :: u32)"
  by (simp_all add: and.assoc)

lemma blatr_bits:
  "(push_bit 16 n OR 512) AND 0x1FFF = (512 :: u32)"
  "n < 2 ^ 16 \<Longrightarrow> drop_bit 16 (push_bit 16 n) = (n :: u32)"
proof -
  have k: "(0x1FFF :: u32) = mask 13" by (simp add: mask_eq_exp_minus_1)
  have "push_bit 16 n AND 0x1FFF = 0" unfolding k by (rule bit_eqI) (simp add: bit_simps)
  then show "(push_bit 16 n OR 512) AND 0x1FFF = (512 :: u32)" by (simp add: bit.conj_disj_distrib2)
  assume n: "n < 2 ^ 16"
  then have "take_bit 16 n = n" by (simp add: take_bit_eq_mod word_unat_eq_iff unat_mod_distrib word_less_nat_alt)
  then have "\<not> bit n i" if "16 \<le> i" for i using that by (metis bit_take_bit_iff not_le)
  then show "drop_bit 16 (push_bit 16 n) = n"
    by (intro bit_eqI) (auto simp: bit_simps not_le [symmetric])
qed


lemma read_cmds:
  "get_cmd 17 = Some 0x113A0000" "get_cmd 18 = Some 0x123A0000" "cmd_index 0x113A0000 = 17" "cmd_index 0x123A0000 = 18"
  by (simp_all add: get_cmd_def cmdtab_def cmd_index_def sd_bits)

lemma mix_bits:
  "(mix_of k OR (old AND push_bit 22 0xF)) AND MMCCMDXTYPE_MSBSEL \<noteq> 0 \<longleftrightarrow> k = 18"
  "k = 17 \<or> k = 18 \<Longrightarrow> (mix_of k OR (old AND push_bit 22 0xF)) AND MMCCMDXTYPE_DMAEN \<noteq> 0"
  by (auto simp: mix_of_def sd_bits bit.conj_disj_distrib2 high_bits)

context usdhc
begin

lemma transfer_done: "on w0 v w \<Longrightarrow> v_intr v = MMCINTR_CC OR MMCINTR_TC \<Longrightarrow>
    yields (wait_transfer E w) (\<lambda>(r, w). r = SDMMC_OK \<and> on w0 v w)"
  apply (subst wait_transfer.simps)
  apply (rule yields_bind [OF wait_intr], assumption, simp add: sd_bits)
  apply (rule yields_bind2 [OF in_intr], assumption)
  apply (simp add: sd_bits)
  apply (rule yields_bind2 [OF in_intr], blast)
  apply (simp add: sd_bits)
  done

definition blocks :: "'c \<Rightarrow> nat \<Rightarrow> nat \<Rightarrow> u8 list" where
  "blocks c b n = concat (map (block c) [b..<b + n])"

lemma length_blocks [simp]: "length (blocks c b n) = 512 * n"
  by (induction n) (simp_all add: blocks_def block_length)

lemma send_transfer:
  assumes s: "sd w0 c w" and k: "c_cmd (the_cmd w0) = k" "k = 17 \<or> k = 18" "get_cmd k = Some x"
    and n: "answer (cmd_index x) (c_arg (the_cmd w0)) c = (Some rs, c')"
    and b: "c_bsize (the_cmd w0) = 512" "c_bcnt (the_cmd w0) < 2 ^ 16" "k = 17 \<Longrightarrow> c_bcnt (the_cmd w0) = 1"
      "first_block (high_cap c) (c_arg (the_cmd w0)) + unat (c_bcnt (the_cmd w0)) \<le> capacity c"
    and r: "c_rsp (the_cmd w0) = None"
  shows "yields (sdmmc_send_cmd E w) (\<lambda>(r, w). r = SDMMC_OK \<and>
    sd (w0\<lparr>mem := put_bytes (unat (c_dbuf (the_cmd w0)))
      (blocks c (first_block (high_cap c) (c_arg (the_cmd w0))) (unat (c_bcnt (the_cmd w0)))) (mem w0)\<rparr>) c' w)"
    (is "yields _ (\<lambda>(r, w). r = _ \<and> sd ?w c' w)")
proof -
  from s obtain v where v: "on w0 v w" "v_card v = c" "v_regs v MX6X_MMCINTRSTEN = ENABLED" by (auto simp: sd_def)
  have x: "x AND MMCCMDXTYPE_DPSEL \<noteq> 0" "cmd_index x \<in> {17, 18}" using k by (auto simp: read_cmds sd_bits)
  have go: "yields (start_cmd E k x w) (\<lambda>w. \<exists>v. on ?w v w \<and> v_card v = c' \<and> v_intr v = MMCINTR_CC OR MMCINTR_TC \<and>
      v_regs v MX6X_MMCINTRSTEN = ENABLED)" (is "yields _ ?Q")
  proof (rule start_run [OF v(1,3)])
    fix w' v' assume o: "on w0 v' w'" and st: "started k x (mix_of k) (v_regs v MX6X_MMCMIX_CTRL) (the_cmd w0) (v_card v) v'"
    have vw: "view (ctl w') = v'" and i: "idle (ctl w')" and m: "mem w' = mem w0" using o by (simp_all add: on_def)
    have a: "answer (cmd_index x) (v_regs (view (ctl w')) MX6X_MMCCMDARG) (v_card (view (ctl w'))) = (Some rs, c')"
      using st n v(2) by (simp add: vw started_def)
    have d: "v_regs (view (ctl w')) MX6X_MMCMIX_CTRL AND MMCCMDXTYPE_DMAEN \<noteq> 0" "v_regs (view (ctl w')) MX6X_MMCBLATR AND 0x1FFF = 512"
      "v_regs v' MX6X_MMCDMASYSADD = c_dbuf (the_cmd w0)" "v_regs v' MX6X_MMCCMDARG = c_arg (the_cmd w0)" "v_card v' = c"
      using st mix_bits(2) [OF k(2)] x(1) b(1) v(2) unfolding vw started_def by (simp_all add: blatr_bits)
    have bc: "block_count (view (ctl w')) = unat (c_bcnt (the_cmd w0))"
      using st b x(1) k(2) mix_bits(1) [of k] unfolding vw started_def block_count_def by (auto simp: blatr_bits)
    have "first_block (high_cap (v_card (view (ctl w')))) (v_regs (view (ctl w')) MX6X_MMCCMDARG) + block_count (view (ctl w'))
        \<le> capacity (v_card (view (ctl w')))"
      using st b v(2) unfolding bc unfolding vw started_def by simp
    from transfers [OF i a x(2,1) d(1,2) this, of "mem w'"] obtain d' where d':
      "reg_out E (base + MX6X_MMCCMDXTYPE) x (ctl w', mem w') = (d', put_bytes (unat (c_dbuf (the_cmd w0)))
        (blocks c (first_block (high_cap c) (c_arg (the_cmd w0))) (unat (c_bcnt (the_cmd w0)))) (mem w'))" "idle d'"
      "view d' = v'\<lparr>v_intr := raised (MMCINTR_CC OR MMCINTR_TC) v', v_resp := rs, v_card := c'\<rparr>"
      unfolding bc unfolding vw d blocks_def by blast
    then show "yields (sd_out32 E MX6X_MMCCMDXTYPE x w') ?Q"
      using o raised_started [OF st, of "MMCINTR_CC OR MMCINTR_TC"] st by (auto simp: sd_out32_def on_def ev_bits started_def)
  qed
  have bits: "(MMCINTR_CC OR MMCINTR_TC) AND (MMCINTR_CC OR MMCINTR_ERRI) \<noteq> 0" "(MMCINTR_CC OR MMCINTR_TC) AND MMCINTR_ERRI = 0"
    by (simp_all add: sd_bits)
  have rr: "read_response E x w' = Some w'" if "on ?w v w'" for v w' using r on_simps(1) [OF that] by (simp add: read_response_def)
  show ?thesis unfolding sdmmc_send_cmd_def sd_simps(1) [OF s] k(1) k(3) option.case
    apply (rule yields_bind [OF go], elim exE conjE)
    apply (rule yields_bind [OF wait_intr], assumption, simp only: bits, simp)
    apply (rule yields_bind2 [OF in_intr], assumption)
    apply (simp add: bits rr x(1))
    apply (rule yields_mono2 [OF transfer_done], blast, assumption)
    apply (auto elim!: sdI)
    done
qed

end

subsection \<open>Reading\<close>

lemma wait_tran_now: "cd_state (the_card w) = MMC_TRAN \<Longrightarrow> wait_tran E w = Some (SDMMC_OK, w)"
  by (subst wait_tran.simps) simp

lemma then_ok_gives:
  "yields m (\<lambda>(r, w). r = SDMMC_OK \<and> P w) \<Longrightarrow> (\<And>w. P w \<Longrightarrow> yields (f w) Q) \<Longrightarrow> yields (then_ok m f) Q"
  unfolding then_ok_def by (erule yields_bind2) simp

lemma then_ok_fails: "yields m (\<lambda>(r, w). r = SDMMC_ERROR \<and> P w) \<Longrightarrow> yields (then_ok m f) (\<lambda>(r, w). r = SDMMC_ERROR \<and> P w)"
  unfolding then_ok_def by (erule yields_bind2) (simp add: SDMMC_ERROR_def SDMMC_OK_def)

definition in_range :: "card_t \<Rightarrow> u32 \<Rightarrow> u32 \<Rightarrow> bool" where
  "in_range c b n \<longleftrightarrow> unat b < unat (blk_num c) \<and> unat b + unat n \<le> unat (blk_num c)"

lemma range_check: "\<not> (b \<ge> blk_num c \<or> b + n > blk_num c \<or> b + n < b) \<longleftrightarrow> in_range c b n"
proof (cases "unat b + unat n < 2 ^ 32")
  case True
  then show ?thesis by (auto simp: in_range_def word_le_nat_alt word_less_nat_alt unat_plus_w)
next
  case False
  have l: "unat b < 2 ^ 32" "unat n < 2 ^ 32" "unat (blk_num c) < 2 ^ 32"
    by (rule order_less_le_trans [OF unsigned_less], simp)+
  have "unat (b + n) = (unat b + unat n) mod 2 ^ 32" by (simp add: unat_word_ariths)
  also have "\<dots> = unat b + unat n - 2 ^ 32" using False l by (subst le_mod_geq) simp_all
  finally have "b + n < b" using l False by (simp add: word_less_nat_alt)
  then show ?thesis using False l by (auto simp: in_range_def)
qed

definition read_cmd :: "u32 \<Rightarrow> u32 \<Rightarrow> u32 \<Rightarrow> ('d, 'z) sd_world_scheme \<Rightarrow> ('d, 'z) sd_world_scheme" where
  \<comment> \<open>the world with the command of a read\<close>
  "read_cmd buf b n w =
     CMD_CREATE (if n = 1 then MMC_READ_SINGLE_BLOCK else MMC_READ_MULTIPLE_BLOCK)
       (if cd_type (the_card w) = eMMC \<or> cd_type (the_card w) = eSDC then b * SDMMC_BLOCKSIZE else b) None SDMMC_BLOCKSIZE n buf w"

lemma sdmmc_read_range:
  "sdmmc_read E buf b n w =
     (if \<not> in_range (the_card w) b n then Some (SDMMC_ERROR, w)
      else if n = 0 then Some (SDMMC_OK, w)
      else then_ok (sdmmc_send_cmd E (read_cmd buf b n w)) (wait_tran E))"
proof (cases "in_range (the_card w) b n")
  case True
  then have r: "(b \<ge> blk_num (the_card w) \<or> b + n > blk_num (the_card w) \<or> b + n < b) = False" by (simp only: range_check [symmetric])
  show ?thesis unfolding sdmmc_read_def Let_def r by (simp only: True read_cmd_def if_False not_True_eq_False)
next
  case False
  then have r: "(b \<ge> blk_num (the_card w) \<or> b + n > blk_num (the_card w) \<or> b + n < b) = True" using range_check by blast
  show ?thesis unfolding sdmmc_read_def Let_def r by (simp only: False if_True not_False_eq_True)
qed

lemma CMD_CREATE_simps [simp]:
  "the_cmd (CMD_CREATE k a r bs bc bu w) = \<lparr>c_cmd = k, c_arg = a, c_rsp = r, c_bsize = bs, c_bcnt = bc, c_dbuf = bu, c_erintsts = 0\<rparr>"
  "the_card (CMD_CREATE k a r bs bc bu w) = the_card w" "mem (CMD_CREATE k a r bs bc bu w) = mem w"
  "ctl (CMD_CREATE k a r bs bc bu w) = ctl w" "sd_world.more (CMD_CREATE k a r bs bc bu w) = sd_world.more w"
  "icr (sdmmc (CMD_CREATE k a r bs bc bu w)) = icr (sdmmc w)" "ocr (sdmmc (CMD_CREATE k a r bs bc bu w)) = ocr (sdmmc w)"
  by (simp_all add: CMD_CREATE_def upd_cmd_def)

lemma read_cmd_simps:
  "c_bsize (the_cmd (read_cmd buf b n w)) = 512" "c_bcnt (the_cmd (read_cmd buf b n w)) = n" "c_dbuf (the_cmd (read_cmd buf b n w)) = buf"
  "c_rsp (the_cmd (read_cmd buf b n w)) = None" "mem (read_cmd buf b n w) = mem w" "the_card (read_cmd buf b n w) = the_card w"
  by (simp_all add: read_cmd_def SDMMC_BLOCKSIZE_def)

context usdhc
begin

definition card_ready :: "card_t \<Rightarrow> 'c \<Rightarrow> bool" where
  \<comment> \<open>the card answers to reads, and what the driver knows of it is right\<close>
  "card_ready k c \<longleftrightarrow> cd_state k = MMC_TRAN \<and> (high_cap c \<longleftrightarrow> \<not> (cd_type k = eMMC \<or> cd_type k = eSDC)) \<and>
     unat (blk_num k) \<le> capacity c \<and> (\<not> high_cap c \<longrightarrow> 512 * capacity c \<le> 2 ^ 32) \<and>
     (\<forall>i \<in> {17, 18}. \<forall>a. \<exists>rs. answer i a c = (Some rs, c))"

lemma read_run:
  assumes s: "sd w0 c w" and c: "card_ready (the_card w0) c" and i: "in_range (the_card w0) b n" and n: "0 < n" "n < 2 ^ 16"
  shows "yields (sdmmc_read E buf b n w) (\<lambda>(r, w). r = SDMMC_OK \<and>
    sd ((read_cmd buf b n w0)\<lparr>mem := put_bytes (unat buf) (blocks c (unat b) (unat n)) (mem w0)\<rparr>) c w)"
proof -
  let ?k = "if n = 1 then 17 else 18 :: int" and ?x = "if n = 1 then 0x113A0000 else 0x123A0000 :: u32"
  have f: "first_block (high_cap c) (c_arg (the_cmd (read_cmd buf b n w0))) = unat b"
  proof (cases "high_cap c")
    case True
    then show ?thesis using c by (auto simp: read_cmd_def first_block_def card_ready_def)
  next
    case False
    then have "512 * unat (blk_num (the_card w0)) \<le> 2 ^ 32" "cd_type (the_card w0) = eMMC \<or> cd_type (the_card w0) = eSDC"
      using c by (auto simp: card_ready_def)
    moreover from this have "unat (b * 512) = unat b * 512" using i by (simp add: in_range_def unat_word_ariths)
    ultimately show ?thesis using False by (auto simp: read_cmd_def first_block_def SDMMC_BLOCKSIZE_def)
  qed
  have k: "c_cmd (the_cmd (read_cmd buf b n w0)) = ?k" by (simp add: read_cmd_def sd_cmds)
  have g: "get_cmd ?k = Some ?x" "cmd_index ?x \<in> {17, 18}" by (simp_all add: read_cmds)
  with c obtain rs where a: "answer (cmd_index ?x) (c_arg (the_cmd (read_cmd buf b n w0))) c = (Some rs, c)"
    unfolding card_ready_def by blast
  have s': "sd (read_cmd buf b n w0) c (read_cmd buf b n w)"
    using s sd_upd(3) [OF s] by (simp add: read_cmd_def sd_simps)
  have cap: "unat b + unat n \<le> capacity c" using c i by (simp add: card_ready_def in_range_def)
  have st: "cd_state (the_card w) = MMC_TRAN" if "sd ((read_cmd buf b n w0)\<lparr>mem := m\<rparr>) c w" for m w
    using c sd_simps(1) [OF that] by (simp add: read_cmd_simps card_ready_def)
  have snd: "yields (sdmmc_send_cmd E (read_cmd buf b n w)) (\<lambda>(r, w). r = SDMMC_OK \<and>
      sd ((read_cmd buf b n w0)\<lparr>mem := put_bytes (unat buf) (blocks c (unat b) (unat n)) (mem w0)\<rparr>) c w)"
  proof -
    have "yields (sdmmc_send_cmd E (read_cmd buf b n w)) (\<lambda>(r, w). r = SDMMC_OK \<and>
        sd ((read_cmd buf b n w0)\<lparr>mem := put_bytes (unat (c_dbuf (the_cmd (read_cmd buf b n w0))))
          (blocks c (first_block (high_cap c) (c_arg (the_cmd (read_cmd buf b n w0)))) (unat (c_bcnt (the_cmd (read_cmd buf b n w0)))))
          (mem (read_cmd buf b n w0))\<rparr>) c w)"
      by (rule send_transfer [OF s' k _ g(1) a]) (use n cap f in \<open>simp_all add: read_cmd_simps split: if_splits\<close>)
    then show ?thesis unfolding f by (simp only: read_cmd_simps)
  qed
  have "yields (then_ok (sdmmc_send_cmd E (read_cmd buf b n w)) (wait_tran E)) (\<lambda>(r, w). r = SDMMC_OK \<and>
      sd ((read_cmd buf b n w0)\<lparr>mem := put_bytes (unat buf) (blocks c (unat b) (unat n)) (mem w0)\<rparr>) c w)"
    by (rule then_ok_gives [OF snd]) (simp add: wait_tran_now st)
  moreover have "n \<noteq> 0" using n(1) by auto
  ultimately show ?thesis using i by (simp add: sdmmc_read_range sd_simps(1) [OF s])
qed

end

subsection \<open>The controller\<close>

lemma find_in: "(case find P xs of Some x \<Rightarrow> x | None \<Rightarrow> d) \<in> insert d (set xs)"
  by (auto split: option.splits simp: find_Some_iff)

lemma clock_bits_cases:
  "\<exists>p \<in> insert 256 (set [2, 4, 8, 16, 32, 64, 128]). \<exists>d \<in> insert 17 (set (map of_nat [1..<17])).
    clock_bits f = push_bit 8 (drop_bit 1 p) OR push_bit 4 (d - 1)"
proof -
  have "\<exists>d \<in> insert 17 (set (map of_nat [1..<17])). clock_bits f = push_bit 8 (drop_bit 1 p) OR push_bit 4 (d - 1)"
    if "p = (if SDMMC_CLK_DEFAULT div 16 > f
       then case find (\<lambda>p. SDMMC_CLK_DEFAULT div p \<le> f * 16) [2, 4, 8, 16, 32, 64, 128] of Some p \<Rightarrow> p | None \<Rightarrow> 256 else 2)" for p
    unfolding clock_bits_def Let_def that [symmetric] by (rule bexI [OF refl find_in])
  moreover have "(if SDMMC_CLK_DEFAULT div 16 > f
       then case find (\<lambda>p. SDMMC_CLK_DEFAULT div p \<le> f * 16) [2, 4, 8, 16, 32, 64, 128] of Some p \<Rightarrow> p | None \<Rightarrow> 256 else 2)
     \<in> insert 256 (set [2, 4, 8, 16, 32, 64, 128])" by (cases "SDMMC_CLK_DEFAULT div 16 > f") (simp_all only: if_True if_False find_in, simp)
  ultimately show ?thesis by blast
qed

lemma clock_bits_plain: "clock_bits f AND MMCSYSCTL_RSTA = 0 \<and> clock_bits f AND MMCSYSCTL_RSTC = 0 \<and> clock_bits f AND MMCSYSCTL_INITA = 0"
proof -
  have a: "p \<in> insert 256 (set [2, 4, 8, 16, 32, 64, 128]) \<Longrightarrow> push_bit 8 (drop_bit 1 p) AND 0xB000000 = 0" for p :: u32
    by auto
  have b: "d \<in> insert 17 (set (map of_nat [1..<17])) \<Longrightarrow> push_bit 4 (d - 1) AND 0xB000000 = 0" for d :: u32
  proof -
    have "map of_nat [1..<17] = [1 :: u32, 2, 3, 4, 5, 6, 7, 8, 9, 10, 11, 12, 13, 14, 15, 16]" by code_simp
    moreover assume "d \<in> insert 17 (set (map of_nat [1..<17]))"
    ultimately have "d \<in> set [17, 1, 2, 3, 4, 5, 6, 7, 8, 9, 10, 11, 12, 13, 14, 15, 16]" by (simp only: list.set)
    then show ?thesis by simp (elim disjE; simp)
  qed
  from clock_bits_cases [of f] obtain p d where "clock_bits f = push_bit 8 (drop_bit 1 p) OR push_bit 4 (d - 1)"
    "p \<in> insert 256 (set [2, 4, 8, 16, 32, 64, 128])" "d \<in> insert 17 (set (map of_nat [1..<17]))" by blast
  with a b have "clock_bits f AND 0xB000000 = 0" by (simp only: bit.conj_disj_distrib2 or_eq_0_iff)
  moreover have "(0xB000000 :: u32) = MMCSYSCTL_RSTA OR MMCSYSCTL_RSTC OR MMCSYSCTL_INITA" by (simp add: sd_bits)
  ultimately show ?thesis by (simp add: and_or_zero)
qed

context usdhc
begin

lemma set_frq_run: "on w0 v w \<Longrightarrow> yields (sdmmc_set_frq E f w) (on w0 v)"
  unfolding sdmmc_set_frq_def
  apply (rule yields_bind [OF set_sys], assumption, simp add: and_keep)
  apply (rule yields_bind [OF set_sys], assumption, simp add: and_keep)
  apply (rule yields_bind [OF set_sys], assumption, simp add: or_keep clock_bits_plain)
  apply (rule yields_bind [OF wait_status], assumption, simp)
  apply (rule set_sys, assumption, simp add: or_keep, simp add: sd_bits)
  done

lemma bus_width_run: "on w0 v w \<Longrightarrow> yields (sd_set_bus_width E n w) (\<lambda>w. \<exists>x. on w0 (v\<lparr>v_regs := (v_regs v)(MX6X_MMCPROTOCTL := x)\<rparr>) w)"
  unfolding sd_set_bus_width_def
  apply (rule yields_bind [OF set_plain], assumption, simp)
  apply (rule yields_mono [OF set_plain], assumption, simp)
  apply (rule exI, simp)
  done

lemma frq_sd: "sd w0 c w \<Longrightarrow> yields (sdmmc_set_frq E f w) (sd w0 c)"
  unfolding sd_def by (elim exE conjE) (rule yields_mono [OF set_frq_run], assumption, blast)

lemma width_sd: "sd w0 c w \<Longrightarrow> yields (sd_set_bus_width E n w) (sd w0 c)"
  unfolding sd_def by (elim exE conjE) (rule yields_mono [OF bus_width_run], assumption, elim exE, rule exI, erule conjI, simp)

lemma init_ctrl_run:
  assumes "on w0 v w"
  shows "yields (sdmmc_init_ctrl E w) (\<lambda>(r, w). r = SDMMC_OK \<and>
    sd (w0\<lparr>sdmmc := (sdmmc w0)\<lparr>icr := 0x000001aa, ocr := 0x00300000\<rparr>\<rparr>) (v_card v) w)"
proof -
  let ?u = "\<lambda>w. w\<lparr>sdmmc := (sdmmc w)\<lparr>icr := 0x000001aa, ocr := 0x00300000\<rparr>\<rparr>"
  have a: "on (?u w0) v (?u w)" using assms by (simp add: on_def)
  have rst: "yields (sd_set32 E MX6X_MMCSYSCTL (\<lambda>v. v OR MMCSYSCTL_RSTA) w') (\<lambda>w. \<exists>v''. on (?u w0) v'' w \<and> v_card v'' = v_card v')"
    if "on (?u w0) v' w'" for v' w'
    unfolding sd_set32_def by (rule yields_bind2 [OF in_sys [OF that]]) (auto intro!: yields_mono [OF out_sys])
  show ?thesis unfolding sdmmc_init_ctrl_def Let_def
    apply (rule yields_bind [OF out_plain [OF a]], simp)
    apply (rule yields_bind [OF rst], assumption, elim exE conjE)
    apply (rule yields_bind [OF wait_sys], assumption, simp)
    apply (rule yields_bind [OF set_frq_run], assumption)
    apply (rule yields_bind [OF out_plain], assumption, simp)
    apply (rule yields_bind [OF out_plain], assumption, simp)
    apply (rule yields_bind [OF out_plain], assumption, simp)
    apply (simp, erule sdI, simp_all)
    done
qed

lemma fini_run: "on w0 v w \<Longrightarrow> yields (sdmmc_fini E w) (\<lambda>(r, w). r = 0 \<and>
    (\<exists>v'. on w0 v' w \<and> v_card v' = v_card v \<and> v_regs v' MX6X_MMCINTRSTEN = 0))"
  unfolding sdmmc_fini_def
  apply (rule yields_bind [OF out_plain], assumption, simp)
  apply (rule yields_bind [OF out_plain], assumption, simp)
  apply (rule yields_bind [OF out_intr], assumption)
  apply (rule yields_bind [OF out_sys], assumption)
  apply auto
  done

end

end
