(* ===== verification/Ipl_Init.thy ===== *)
theory Ipl_Init
  imports Ipl_Usdhc
begin

section \<open>The initial program loader: initialisation of a card\<close>

text \<open>
  The initialisation of a high-capacity SD card. The record \<open>sdhc_card\<close> has what such a card answers, \<open>sdhc_script\<close> is the
  list of commands and answers, and \<open>talk\<close> says that a card follows it. The rounds of the power-up are
  counted: the card is ready within 40 of them. The end is \<open>init_card_run\<close>: \<open>sdmmc_init_card\<close>
  returns \<open>SDMMC_OK\<close> and knows the card. A read of the register SCR and the switch to high speed may fail without
  an effect on the rest (\<open>highspeed_run\<close>).
\<close>

subsection \<open>Initialisation of a card\<close>

definition pio_cmd :: "int \<Rightarrow> u32" where
  "pio_cmd k = push_bit 24 (of_int k) OR MMCCMDXTYPE_CICEN OR MMCCMDXTYPE_CCCEN OR MMCCMDXTYPE_RSPTYPL48 OR MMCCMDXTYPE_DPSEL"

lemma pio_cmds: "cmd_index (pio_cmd 51) = 51" "cmd_index (pio_cmd 6) = 6" "pio_cmd 51 AND MMCCMDXTYPE_DPSEL \<noteq> 0" "pio_cmd 6 AND MMCCMDXTYPE_DPSEL \<noteq> 0"
  by (simp_all add: pio_cmd_def cmd_index_def sd_bits)

lemma pio_mix: "(MMCCMDXTYPE_DTDSEL OR (v AND push_bit 22 0xF)) AND MMCCMDXTYPE_DMAEN = 0"
  by (simp add: sd_bits bit.conj_disj_distrib2 high_bits)

lemma cmd_same [simp]: "c_erintsts (the_cmd w) = 0 \<Longrightarrow> upd_cmd (\<lambda>c. c\<lparr>c_erintsts := 0\<rparr>) w = w"
  by (simp add: upd_cmd_def)

context usdhc
begin

lemma fifo_run: "on w0 v w \<Longrightarrow> yields (read_fifo E n w) (\<lambda>(bs, w). length bs = 4 * n \<and> on w0 v w)"
proof (induction n arbitrary: w)
  case (Suc n)
  have "yields (sd_in32 E MX6X_MMCDATAPORT w) (\<lambda>(x, w). on w0 v w)" by (rule yields_mono2 [OF in32_run [OF Suc.prems]]) blast
  then show ?case unfolding read_fifo.simps
    by (rule yields_bind2) (auto intro!: yields_bind2 [OF Suc.IH])
qed simp

lemma pio_run:
  assumes s: "sd w0 c w" and r: "c_rsp (the_cmd w0) = None" "c_erintsts (the_cmd w0) = 0" and k: "c_cmd (the_cmd w0) = k" "k = 51 \<or> k = 6"
    and n: "answer (nat k) (c_arg (the_cmd w0)) c = (an, c')"
  shows "yields (sdmmc_pio_read E len w) (\<lambda>((r, bs), w). sd w0 c' w \<and>
    (case an of None \<Rightarrow> r = SDMMC_ERROR | Some _ \<Rightarrow> r = SDMMC_OK \<and> length bs = 4 * (unat len div 4)))"
proof -
  from s obtain v where v: "on w0 v w" "v_card v = c" "v_regs v MX6X_MMCINTRSTEN = ENABLED" by (auto simp: sd_def)
  let ?ev = "case an of None \<Rightarrow> MMCINTR_CTOE | Some _ \<Rightarrow> MMCINTR_CC OR MMCINTR_BRR"
  let ?Q = "\<lambda>w. \<exists>v. on w0 v w \<and> v_card v = c' \<and> v_intr v = ?ev \<and> v_regs v MX6X_MMCINTRSTEN = ENABLED"
  have idx: "cmd_index (pio_cmd k) = nat k" "pio_cmd k AND MMCCMDXTYPE_DPSEL \<noteq> 0" using k(2) pio_cmds by auto
  have ev: "?ev AND ENABLED = ?ev" by (simp add: ev_bits split: option.split)
  have go: "yields (sd_out32 E MX6X_MMCCMDXTYPE (pio_cmd k) w') ?Q"
    if o: "on w0 v' w'" and st: "v_card v' = c" "v_intr v' = 0" "v_regs v' MX6X_MMCINTRSTEN = ENABLED" "v_regs v' MX6X_MMCCMDARG = c_arg (the_cmd w0)"
      "v_regs v' MX6X_MMCMIX_CTRL AND MMCCMDXTYPE_DMAEN = 0" for v' w'
  proof -
    have i: "idle (ctl w')" and vw: "view (ctl w') = v'" using o by (simp_all add: on_def)
    have a: "answer (cmd_index (pio_cmd k)) (v_regs (view (ctl w')) MX6X_MMCCMDARG) (v_card (view (ctl w'))) = (an, c')"
      using n by (simp add: vw st idx)
    have ra: "raised ?ev v' = ?ev" using st ev by (simp add: raised_def)
    have d: "v_regs (view (ctl w')) MX6X_MMCMIX_CTRL AND MMCCMDXTYPE_DMAEN = 0" by (simp add: vw st)
    have "\<exists>d' rs. reg_out E (base + MX6X_MMCCMDXTYPE) (pio_cmd k) (ctl w', mem w') = (d', mem w') \<and> idle d' \<and>
        view d' = v'\<lparr>v_intr := ?ev, v_resp := rs, v_card := c'\<rparr>"
    proof (cases an)
      case None
      from unanswered [OF i a [unfolded None], of "mem w'"] obtain d' where
        "reg_out E (base + MX6X_MMCCMDXTYPE) (pio_cmd k) (ctl w', mem w') = (d', mem w')" "idle d'"
        "view d' = v'\<lparr>v_intr := raised MMCINTR_CTOE v', v_card := c'\<rparr>" unfolding vw by blast
      then show ?thesis using ra None by (intro exI [of _ d'] exI [of _ "v_resp v'"]) simp
    next
      case (Some rs)
      show ?thesis using fifo [OF i a [unfolded Some] idx(2) d, of "mem w'"] ra unfolding vw Some by fastforce
    qed
    then show ?thesis using o st(3) by (auto simp: sd_out32_def on_def)
  qed
  have bits: "?ev AND (MMCINTR_BRR OR MMCINTR_ERRI) \<noteq> 0" "?ev AND MMCINTR_ERRI \<noteq> 0 \<longleftrightarrow> an = None" "an = None \<Longrightarrow> (ucast ?ev :: u16) = 0"
    by (auto simp: sd_bits split: option.split)
  show ?thesis unfolding sdmmc_pio_read_def
    apply (rule yields_bind [OF wait_inhibit [OF v(1)]])
    apply (rule yields_bind [OF wait_status], assumption, simp)
    apply (rule yields_bind [OF out_plain], assumption, simp)
    apply (rule yields_bind [OF out_intr], assumption)
    apply (rule yields_bind [OF set_plain], assumption, simp)
    apply (rule yields_bind [OF out_plain], assumption, simp)
    apply (rule yields_bind [OF out_plain], assumption, simp)
    apply (simp only: on_simps(1) k(1) pio_cmd_def [symmetric])
    apply (rule yields_bind [OF go], assumption, simp add: v, simp, simp add: v, simp add: on_simps, simp, rule pio_mix [simplified])
    apply (elim exE conjE)
    apply (rule yields_bind [OF wait_intr], assumption, simp only: bits, simp)
    apply (rule yields_bind2 [OF in_intr], assumption)
    subgoal premises p for w1 w2 w3 w4 w5 w6 w7 w8 v w9 x w10
    proof (cases an)
      case None
      have x: "x AND MMCINTR_ERRI \<noteq> 0" using p bits None by simp
      have o: "on w0 v w10" using p by simp
      have "yields (do { (v, w) \<leftarrow> sd_in32 E MX6X_MMCINTRST w10; reset_cmd_line E (upd_cmd (\<lambda>c. c\<lparr>c_erintsts := ucast v\<rparr>) w) })
        (\<lambda>w. \<exists>v'. on w0 v' w \<and> v_card v' = v_card v \<and> v_regs v' = v_regs v)"
      proof (rule yields_bind2 [OF in_intr [OF o]], clarsimp)
        fix w assume "on w0 v w"
        from on_upd_cmd [OF this, of "\<lambda>c. c\<lparr>c_erintsts := 0\<rparr>"]
        have "on w0 v (upd_cmd (\<lambda>c. c\<lparr>c_erintsts := ucast (v_intr v)\<rparr>) w)" using p bits None r by simp
        then show "yields (reset_cmd_line E (upd_cmd (\<lambda>c. c\<lparr>c_erintsts := ucast (v_intr v)\<rparr>) w))
          (\<lambda>w. \<exists>v'. on w0 v' w \<and> v_card v' = v_card v \<and> v_regs v' = v_regs v)" by (rule reset_line)
      qed
      then show ?thesis using x p r
        by (simp only: prod.case if_True simp_thms) (erule yields_bind, auto simp: on_simps None intro: sdI)
    next
      case (Some rs)
      have x: "x AND MMCINTR_ERRI = 0" using p bits Some by simp
      have o: "on w0 v w10" using p by simp
      show ?thesis using x p r
        by (auto simp: on_simps Some intro!: yields_bind2 [OF fifo_run [OF o]]) (erule sdI, simp_all)
    qed
    done
qed

end

definition sends :: "int \<Rightarrow> nat \<Rightarrow> bool \<Rightarrow> bool" where
  \<comment> \<open>the command without data that is sent as the command \<open>i\<close> of the card, and whether the answer is long\<close>
  "sends k i l \<longleftrightarrow> (\<exists>x. get_cmd k = Some x \<and> cmd_index x = i \<and> x AND MMCCMDXTYPE_DPSEL = 0 \<and> long_answer x = l)"

lemma sends_cmds:
  "sends MMC_GO_IDLE_STATE 0 False" "sends MMC_SEND_OP_COND 1 False" "sends MMC_ALL_SEND_CID 2 True" "sends MMC_SET_RELATIVE_ADDR 3 False"
  "sends MMC_SWITCH 6 False" "sends MMC_SEL_DES_CARD 7 False" "sends MMC_IF_COND 8 False" "sends MMC_SEND_CSD 9 True"
  "sends MMC_SEND_STATUS 13 False" "sends MMC_SET_BLOCKLEN 16 False" "sends MMC_APP_CMD 55 False" "sends SD_SET_BUS_WIDTH 6 False"
  "sends SD_SEND_OP_COND 41 False"
  by (simp_all add: sends_def get_cmd_def cmdtab_def cmd_index_def long_answer_def sd_bits sd_cmds)

definition long_words :: "(nat \<Rightarrow> u32) \<Rightarrow> nat \<Rightarrow> u32" where
  \<comment> \<open>a long response as the driver puts it together\<close>
  "long_words rs = (\<lambda>_. 0)(3 := push_bit 8 (rs 3) OR drop_bit 24 (rs 2), 2 := push_bit 8 (rs 2) OR drop_bit 24 (rs 1),
     1 := push_bit 8 (rs 1) OR drop_bit 24 (rs 0), 0 := push_bit 8 (rs 0))"

lemma upd_simps [simp]:
  "the_card (upd_cmd f w) = the_card w" "the_card (upd_card g w) = g (the_card w)" "the_cmd (upd_cmd f w) = f (the_cmd w)"
  "the_cmd (upd_card g w) = the_cmd w" "icr (sdmmc (upd_cmd f w)) = icr (sdmmc w)" "ocr (sdmmc (upd_cmd f w)) = ocr (sdmmc w)"
  "icr (sdmmc (upd_card g w)) = icr (sdmmc w)" "ocr (sdmmc (upd_card g w)) = ocr (sdmmc w)"
  "mem (upd_cmd f w) = mem w" "mem (upd_card g w) = mem w" "sd_world.more (upd_cmd f w) = sd_world.more w"
  "sd_world.more (upd_card g w) = sd_world.more w" "sd_csd (sdmmc (upd_cmd f w)) = sd_csd (sdmmc w)"
  "sd_csd (sdmmc (upd_card g w)) = sd_csd (sdmmc w)"
  by (simp_all add: upd_cmd_def upd_card_def)

lemma upd_upd [simp]:
  "upd_cmd f (upd_cmd g w) = upd_cmd (\<lambda>c. f (g c)) w" "upd_card h (upd_card k w) = upd_card (\<lambda>c. h (k c)) w"
  "upd_cmd f (upd_card h w) = upd_card h (upd_cmd f w)"
  by (simp_all add: upd_cmd_def upd_card_def)

context usdhc
begin

definition has :: "('d, 'z) sd_world_scheme \<Rightarrow> 'c \<Rightarrow> ('d, 'z) sd_world_scheme \<Rightarrow> bool" where
  \<comment> \<open>like \<open>sd\<close>, but for the last command\<close>
  "has w0 c w \<longleftrightarrow> (\<exists>cm. sd (upd_cmd (\<lambda>_. cm) w0) c w)"

lemma has_simps:
  assumes "has w0 c w"
  shows "the_card w = the_card w0" "icr (sdmmc w) = icr (sdmmc w0)" "ocr (sdmmc w) = ocr (sdmmc w0)" "mem w = mem w0"
    "sd_csd (sdmmc w) = sd_csd (sdmmc w0)" "sd_world.more w = sd_world.more w0"
  using assms unfolding has_def sd_def on_def by auto

lemma has_iff: "has w0 c w \<longleftrightarrow> (\<exists>cm. sdmmc w = (sdmmc w0)\<lparr>cmd := cm\<rparr>) \<and> mem w = mem w0 \<and> sd_world.more w = sd_world.more w0 \<and>
    sdmmc_pbase (sdmmc w0) = base \<and> idle (ctl w) \<and> v_card (view (ctl w)) = c \<and> v_regs (view (ctl w)) MX6X_MMCINTRSTEN = ENABLED"
  unfolding has_def sd_def on_def by (auto simp: upd_cmd_def)

lemma has_card: "has w0 c w \<Longrightarrow> has (upd_card f w0) c (upd_card f w)"
  unfolding has_iff by (cases "sdmmc w0") (auto simp: upd_card_def)

lemma has_cid: "has w0 c w \<Longrightarrow> has (sd_parse_cid rs w0) c (sd_parse_cid rs w)"
  unfolding has_iff by (cases "sdmmc w0") (auto simp: sd_parse_cid_def)

lemma has_csd: "has w0 c w \<Longrightarrow> has (w0\<lparr>sdmmc := (sdmmc w0)\<lparr>sd_csd := k\<rparr>\<rparr>) c (w\<lparr>sdmmc := (sdmmc w)\<lparr>sd_csd := k\<rparr>\<rparr>)"
  unfolding has_iff by (cases "sdmmc w0") auto

lemma has_create: "has w0 c w \<Longrightarrow> \<exists>w1. sd w1 c (CMD_CREATE k a q 0 0 0 w) \<and>
    the_cmd w1 = \<lparr>c_cmd = k, c_arg = a, c_rsp = q, c_bsize = 0, c_bcnt = 0, c_dbuf = 0, c_erintsts = 0\<rparr> \<and>
    (\<forall>f. \<exists>cm. upd_cmd f w1 = upd_cmd (\<lambda>_. cm) w0)"
  unfolding has_def by (elim exE, drule sd_upd(3)) (intro exI conjI, assumption, auto simp: CMD_CREATE_def)

lemma cmd_answered:
  assumes "has w0 c w" "sends k i l" "answer i a c = (Some rs, c')"
  shows "yields (sdmmc_send_cmd E (CMD_CREATE k a q 0 0 0 w)) (\<lambda>(r, w). r = SDMMC_OK \<and> has w0 c' w \<and>
    c_rsp (the_cmd w) = map_option (\<lambda>q. if l then q(3 := long_words rs 3, 2 := long_words rs 2, 1 := long_words rs 1, 0 := long_words rs 0) else q(0 := rs 0)) q)"
proof -
  from assms(2) obtain x where x: "get_cmd k = Some x" "cmd_index x = i" "x AND MMCCMDXTYPE_DPSEL = 0" "long_answer x = l" by (auto simp: sends_def)
  from has_create [OF assms(1)] obtain w1 where w1: "sd w1 c (CMD_CREATE k a q 0 0 0 w)"
    "the_cmd w1 = \<lparr>c_cmd = k, c_arg = a, c_rsp = q, c_bsize = 0, c_bcnt = 0, c_dbuf = 0, c_erintsts = 0\<rparr>"
    "\<forall>f. \<exists>cm. upd_cmd f w1 = upd_cmd (\<lambda>_. cm) w0" by blast
  have "yields (sdmmc_send_cmd E (CMD_CREATE k a q 0 0 0 w))
    (\<lambda>(r, w). r = SDMMC_OK \<and> sd (upd_cmd (\<lambda>c. c\<lparr>c_rsp := map_option (answer_words x rs) (c_rsp c)\<rparr>) w1) c' w)"
    by (rule send_answered [OF w1(1), where x = x]) (use w1(2) x assms(3) in simp_all)
  moreover have f: "answer_words x rs = (\<lambda>q. if l then q(3 := long_words rs 3, 2 := long_words rs 2, 1 := long_words rs 1, 0 := long_words rs 0) else q(0 := rs 0))"
    using x(4) by (intro ext) (simp add: answer_words_def long_words_def)
  ultimately show ?thesis
  proof (elim yields_mono2)
    fix r w assume a: "r = SDMMC_OK \<and> sd (upd_cmd (\<lambda>c. c\<lparr>c_rsp := map_option (answer_words x rs) (c_rsp c)\<rparr>) w1) c' w"
    from w1(3) obtain cm where "upd_cmd (\<lambda>c. c\<lparr>c_rsp := map_option (answer_words x rs) (c_rsp c)\<rparr>) w1 = upd_cmd (\<lambda>_. cm) w0" by blast
    with a have "has w0 c' w" unfolding has_def by auto
    moreover have "c_rsp (the_cmd w) = map_option (answer_words x rs) q" using a w1(2) sd_simps(1) by (auto dest: sd_simps(1))
    ultimately show "case (r, w) of (r, w) \<Rightarrow> r = SDMMC_OK \<and> has w0 c' w \<and>
      c_rsp (the_cmd w) = map_option (\<lambda>q. if l then q(3 := long_words rs 3, 2 := long_words rs 2, 1 := long_words rs 1, 0 := long_words rs 0) else q(0 := rs 0)) q"
      using a f by simp
  qed
qed

lemma cmd_unanswered:
  assumes "has w0 c w" "sends k i l" "answer i a c = (None, c')"
  shows "yields (sdmmc_send_cmd E (CMD_CREATE k a q 0 0 0 w)) (\<lambda>(r, w). r = SDMMC_ERROR \<and> has w0 c' w)"
proof -
  from assms(2) obtain x where x: "get_cmd k = Some x" "cmd_index x = i" by (auto simp: sends_def)
  from has_create [OF assms(1)] obtain w1 where w1: "sd w1 c (CMD_CREATE k a q 0 0 0 w)"
    "the_cmd w1 = \<lparr>c_cmd = k, c_arg = a, c_rsp = q, c_bsize = 0, c_bcnt = 0, c_dbuf = 0, c_erintsts = 0\<rparr>"
    "\<forall>f. \<exists>cm. upd_cmd f w1 = upd_cmd (\<lambda>_. cm) w0" by blast
  have "yields (sdmmc_send_cmd E (CMD_CREATE k a q 0 0 0 w))
    (\<lambda>(r, w). r = SDMMC_ERROR \<and> sd (upd_cmd (\<lambda>c. c\<lparr>c_erintsts := 0\<rparr>) w1) c' w)"
    by (rule send_unanswered [OF w1(1), where x = x]) (use w1(2) x assms(3) in simp_all)
  moreover from w1(3) obtain cm where "upd_cmd (\<lambda>c. c\<lparr>c_erintsts := 0\<rparr>) w1 = upd_cmd (\<lambda>_. cm) w0" by blast
  ultimately show ?thesis by (elim yields_mono2) (auto simp: has_def)
qed

lemma get_state_run:
  assumes "has w0 c w" "answer 13 (push_bit 16 (ucast (rca (the_card w0)))) c = (Some rs, c')"
  shows "yields (sdmmc_get_state E w) (\<lambda>(r, w). r = SDMMC_OK \<and> has (upd_card (\<lambda>k. k\<lparr>cd_state := rs 0 AND 0x1e00\<rparr>) w0) c' w)"
  unfolding sdmmc_get_state_def has_simps(1) [OF assms(1)]
  by (rule yields_bind2 [OF cmd_answered [OF assms(1) sends_cmds(9) assms(2)]]) (auto intro: has_card)

end

definition stays :: "(nat \<Rightarrow> u32 \<Rightarrow> 'c \<Rightarrow> (nat \<Rightarrow> u32) option \<times> 'c) \<Rightarrow> 'c set \<Rightarrow> bool" where
  \<comment> \<open>cards that stay in the set whatever is asked of them by the commands of \<open>sdmmc_highspeed\<close>\<close>
  "stays answer T \<longleftrightarrow> (\<forall>c \<in> T. \<forall>i \<in> {55, 51, 6}. \<forall>a. snd (answer i a c) \<in> T)"

context usdhc
begin

lemma pio_has:
  assumes "has w0 c w" "k = 51 \<or> k = 6"
  shows "yields (sdmmc_pio_read E len (CMD_CREATE k a None 0 0 0 w)) (\<lambda>((r, bs), w). has w0 (snd (answer (nat k) a c)) w)"
proof -
  from has_create [OF assms(1), of k a None] obtain w1 where w1: "sd w1 c (CMD_CREATE k a None 0 0 0 w)"
    "the_cmd w1 = \<lparr>c_cmd = k, c_arg = a, c_rsp = None, c_bsize = 0, c_bcnt = 0, c_dbuf = 0, c_erintsts = 0\<rparr>"
    "\<forall>f. \<exists>cm. upd_cmd f w1 = upd_cmd (\<lambda>_. cm) w0" by blast
  from w1(3) [rule_format, of "\<lambda>c. c"] obtain cm where w0: "w1 = upd_cmd (\<lambda>_. cm) w0" by auto
  obtain an c' where an: "answer (nat k) a c = (an, c')" by fastforce
  have "yields (sdmmc_pio_read E len (CMD_CREATE k a None 0 0 0 w)) (\<lambda>((r, bs), w). sd w1 c' w \<and>
    (case an of None \<Rightarrow> r = SDMMC_ERROR | Some _ \<Rightarrow> r = SDMMC_OK \<and> length bs = 4 * (unat len div 4)))"
    by (rule pio_run [OF w1(1)]) (use w1(2) assms(2) an in simp_all)
  then show ?thesis by (rule yields_mono) (auto simp: has_def an w0 split: prod.splits)
qed

definition near :: "'c set \<Rightarrow> ('d, 'z) sd_world_scheme \<Rightarrow> ('d, 'z) sd_world_scheme \<Rightarrow> bool" where
  "near T w0 w \<longleftrightarrow> (\<exists>c \<in> T. \<exists>sp. has (upd_card (\<lambda>k. k\<lparr>cd_speed := sp\<rparr>) w0) c w)"

lemma nearI: "has w0 c w \<Longrightarrow> c \<in> T \<Longrightarrow> near T w0 w"
  unfolding near_def by (intro bexI [of _ c] exI [of _ "cd_speed (the_card w0)"]) (simp_all add: upd_card_def)

lemma highspeed_run:
  assumes T: "stays answer T" and h: "has w0 c w" and c: "c \<in> T"
  shows "yields (sdmmc_highspeed E w) (\<lambda>(r, w). near T w0 w)"
proof -
  have T': "snd (answer i a c) \<in> T" if "c \<in> T" "i \<in> {55, 51, 6}" for c i a using T that by (auto simp: stays_def)
  have pio: "yields (sdmmc_pio_read E len (CMD_CREATE k a None 0 0 0 w)) (\<lambda>((r, bs), w). \<exists>c \<in> T. has w0 c w)"
    if "\<exists>c \<in> T. has w0 c w" "k = 51 \<or> k = 6" for k a len w
    using that T' by (auto intro!: yields_mono [OF pio_has] split: prod.splits)
  have app: "yields (sdmmc_send_cmd E (CMD_CREATE MMC_APP_CMD a None 0 0 0 w)) (\<lambda>(r, w). \<exists>c \<in> T. has w0 c w)" for a
    using cmd_answered [OF h sends_cmds(11), of a _ _ None] cmd_unanswered [OF h sends_cmds(11), of a _ None] T' [OF c, of 55 a]
    by (cases "answer 55 a c"; cases "fst (answer 55 a c)") (auto elim!: yields_mono2)
  have sp: "near T w0 (upd_card (\<lambda>c. c\<lparr>cd_speed := s\<rparr>) w)" if "\<exists>c \<in> T. has w0 c w" for s w
    using that unfolding near_def by (auto intro: has_card)
  have nr: "\<exists>c \<in> T. has w0 c w \<Longrightarrow> near T w0 w" for w by (auto intro: nearI)
  show ?thesis unfolding sdmmc_highspeed_def sd_cmds(13,5)
    apply (rule yields_bind2 [OF app])
    apply (simp add: nr, rule impI)
    apply (rule yields_bind2 [OF pio, unfolded prod.case], assumption, simp)
    apply (clarsimp simp: nr split: prod.splits)
    apply (rule yields_bind2 [OF pio, unfolded prod.case], blast, simp)
    apply (clarsimp simp: nr split: prod.splits)
    apply (rule yields_bind2 [OF pio, unfolded prod.case], blast, simp)
    apply (auto simp: nr sp split: prod.splits)
    done
qed

end

text \<open>
  What a high-capacity SD card answers during the initialisation: a list of the commands with their
  arguments and responses. The card is ready in round \<open>n\<close> of the power-up.
\<close>

type_synonym exchange = "nat \<times> u32 \<times> (nat \<Rightarrow> u32)"

record sdhc_card =
  x_rounds :: nat
  x_ocr :: "nat \<Rightarrow> nat \<Rightarrow> u32"
  x_cid :: "nat \<Rightarrow> u32"
  x_rca :: "nat \<Rightarrow> u32"
  x_csd :: "nat \<Rightarrow> u32"
  x_other :: "nat \<Rightarrow> nat \<Rightarrow> u32"
  x_state :: "nat \<Rightarrow> u32"

definition x_addr :: "sdhc_card \<Rightarrow> u16" where
  "x_addr X = ucast (drop_bit 16 (x_rca X 0))"

definition sdhc_power :: "sdhc_card \<Rightarrow> nat \<Rightarrow> exchange list" where
  "sdhc_power X i = [(55, 0, x_other X i), (41, 0xC0300000, x_ocr X i)]"

definition sdhc_ident :: "sdhc_card \<Rightarrow> exchange list" where
  "sdhc_ident X =
     (let a = push_bit 16 (ucast (x_addr X)) in
      [(2, 0, x_cid X), (3, 0x10000, x_rca X), (13, a, x_other X 100), (9, a, x_csd X), (13, a, x_other X 101), (7, a, x_other X 102),
       (13, a, x_other X 103), (16, 512, x_other X 104), (13, a, x_state X), (55, a, x_other X 105), (6, 2, x_other X 106)])"

definition sdhc_script :: "sdhc_card \<Rightarrow> exchange list" where
  "sdhc_script X = [(0, 0, x_other X 107), (8, 0x1AA, x_other X 108), (0, 0, x_other X 109), (8, 0x1AA, x_other X 110)] @
     concat (map (sdhc_power X) [0..<Suc (x_rounds X)]) @ sdhc_ident X"

definition sdhc_ok :: "sdhc_card \<Rightarrow> bool" where
  \<comment> \<open>a card for the voltage of the board, ready in time, of high capacity, in the transfer state at the end\<close>
  "sdhc_ok X \<longleftrightarrow> x_rounds X < POWER_UP_WAIT \<and> x_ocr X 0 0 AND 0x300000 \<noteq> 0 \<and> (\<forall>i < x_rounds X. x_ocr X i 0 AND 0x80000000 = 0) \<and>
     x_ocr X (x_rounds X) 0 AND 0x80000000 = 0x80000000 \<and> x_ocr X (x_rounds X) 0 AND 0x40000000 = 0x40000000 \<and>
     drop_bit 30 (long_words (x_csd X) 3) = 1 \<and> x_state X 0 AND 0x1e00 = MMC_TRAN"

definition sdhc_c_size :: "sdhc_card \<Rightarrow> u32" where
  \<comment> \<open>the field \<open>C_SIZE\<close> of the card-specific data, version 2: 22 bits\<close>
  "sdhc_c_size X = push_bit 16 (long_words (x_csd X) 2 AND 0x3F) OR drop_bit 16 (long_words (x_csd X) 1)"

lemma sdhc_geometry: "drop_bit 30 (csd 3) = (1 :: u32) \<Longrightarrow>
    sd_geometry (sd_csd_of csd k) = (512, ((push_bit 16 (csd 2 AND 0x3F) OR drop_bit 16 (csd 1)) + 1) * 1024)"
  by (simp add: sd_geometry_def sd_csd_of_def Let_def SDMMC_BLOCKSIZE_def)

primrec talk :: "(nat \<Rightarrow> u32 \<Rightarrow> 'c \<Rightarrow> (nat \<Rightarrow> u32) option \<times> 'c) \<Rightarrow> exchange list \<Rightarrow> 'c \<Rightarrow> 'c \<Rightarrow> bool" where
  \<comment> \<open>the card answers the commands of the list with these responses, and changes from \<open>c\<close> to \<open>c'\<close>\<close>
  "talk answer [] c c' \<longleftrightarrow> c' = c"
| "talk answer (x # xs) c c' \<longleftrightarrow> (\<exists>c1. answer (fst x) (fst (snd x)) c = (Some (snd (snd x)), c1) \<and> talk answer xs c1 c')"

context usdhc
begin

lemma talk_append: "talk answer (xs @ ys) c c' \<longleftrightarrow> (\<exists>c1. talk answer xs c c1 \<and> talk answer ys c1 c')"
  by (induction xs arbitrary: c) auto

lemma talk_power: "talk answer (sdhc_power X i @ ys) c c' \<longleftrightarrow> (\<exists>c1 c2. answer 55 0 c = (Some (x_other X i), c1) \<and>
    answer 41 0xC0300000 c1 = (Some (x_ocr X i), c2) \<and> talk answer ys c2 c')"
  by (auto simp: sdhc_power_def)

lemma power_run:
  assumes X: "sdhc_ok X" and h: "has w0 c w" "rca (the_card w0) = 0" "ocr (sdmmc w0) = 0x300000"
    and t: "talk answer (concat (map (sdhc_power X) [i..<Suc (x_rounds X)])) c c'" and i: "i \<le> x_rounds X" "x_rounds X < i + n"
  shows "yields (power_up_v200 E n r0 (i = 0) w) (\<lambda>(p, w). p = Powered (x_ocr X (x_rounds X) 0) \<and> has w0 c' w)"
  using h(1) t i
proof (induction n arbitrary: i c w r0)
  case (Suc n)
  have u: "[i..<Suc (x_rounds X)] = i # [Suc i..<Suc (x_rounds X)]" using Suc.prems(3) by (intro upt_conv_Cons) simp
  from Suc.prems(2) obtain c1 c2 where a: "answer 55 0 c = (Some (x_other X i), c1)" "answer 41 0xC0300000 c1 = (Some (x_ocr X i), c2)"
    and t2: "talk answer (concat (map (sdhc_power X) [Suc i..<Suc (x_rounds X)])) c2 c'"
    unfolding u list.map concat.simps talk_power by blast
  have chk: "sdmmc_check_ocr E (x_ocr X 0 0) w = Some (SDMMC_OK, w)" if "has w0 c2 w" for w
    using X h(3) has_simps(3) [OF that] by (simp add: sdmmc_check_ocr_def sdhc_ok_def)
  have next_round: "yields (power_up_v200 E n r False w) (\<lambda>(p, w). p = Powered (x_ocr X (x_rounds X) 0) \<and> has w0 c' w)"
    if "has w0 c2 w" "i < x_rounds X" for w r
    using Suc.IH [OF that(1) t2] that(2) Suc.prems(4) by simp
  have last: "c' = c2" if "\<not> i < x_rounds X" using t2 that by simp
  have bit: "x_ocr X i 0 AND 0x80000000 = 0x80000000 \<longleftrightarrow> \<not> i < x_rounds X"
    using X Suc.prems(3) by (cases "i < x_rounds X") (auto simp: sdhc_ok_def)
  show ?case unfolding power_up_v200.simps has_simps(1) [OF Suc.prems(1)] h(2)
    apply (rule yields_bind2 [OF cmd_answered [OF Suc.prems(1) sends_cmds(11)]], simp add: a(1))
    apply (clarsimp simp: SDMMC_OK_def)
    apply (rule yields_bind2 [OF cmd_answered [OF _ sends_cmds(13)]], assumption)
     apply (simp add: has_simps h(3) a(2))
    apply (clarsimp simp: Let_def)
    using bit last next_round Suc.prems(3) chk
    apply (cases "i = 0"; cases "i < x_rounds X")
    apply (auto simp: SDMMC_OK_def)
    done
qed simp

end

context usdhc
begin

lemma has_sd: "has w0 c w \<Longrightarrow> sd w c w"
  unfolding has_iff sd_def on_def by auto

lemma talk_ident: "talk answer (sdhc_ident X) c c' \<longleftrightarrow> (\<exists>c1 c2 c3 c4 c5 c6 c7 c8 c9 c10.
    answer 2 0 c = (Some (x_cid X), c1) \<and> answer 3 0x10000 c1 = (Some (x_rca X), c2) \<and>
    answer 13 (push_bit 16 (ucast (x_addr X))) c2 = (Some (x_other X 100), c3) \<and> answer 9 (push_bit 16 (ucast (x_addr X))) c3 = (Some (x_csd X), c4) \<and>
    answer 13 (push_bit 16 (ucast (x_addr X))) c4 = (Some (x_other X 101), c5) \<and> answer 7 (push_bit 16 (ucast (x_addr X))) c5 = (Some (x_other X 102), c6) \<and>
    answer 13 (push_bit 16 (ucast (x_addr X))) c6 = (Some (x_other X 103), c7) \<and> answer 16 512 c7 = (Some (x_other X 104), c8) \<and>
    answer 13 (push_bit 16 (ucast (x_addr X))) c8 = (Some (x_state X), c9) \<and> answer 55 (push_bit 16 (ucast (x_addr X))) c9 = (Some (x_other X 105), c10) \<and>
    answer 6 2 c10 = (Some (x_other X 106), c'))"
  by (auto simp: sdhc_ident_def Let_def)

lemma relative_addr_run:
  assumes h: "has w0 c w" "cd_type (the_card w0) = eSDC_HC" and a: "answer 3 0x10000 c = (Some (x_rca X), c1)"
    "answer 13 (push_bit 16 (ucast (x_addr X))) c1 = (Some rs, c2)"
  shows "yields (set_relative_addr E w) (\<lambda>(r, w). r = SDMMC_OK \<and> has (upd_card (\<lambda>k. k\<lparr>rca := x_addr X, cd_state := rs 0 AND 0x1e00\<rparr>) w0) c2 w)"
proof -
  have h1: "has (upd_card (\<lambda>k. k\<lparr>rca := 1\<rparr>) w0) c (upd_card (\<lambda>k. k\<lparr>rca := 1\<rparr>) w)" by (rule has_card [OF h(1)])
  have a1: "answer 3 (push_bit 16 (ucast (rca (the_card (upd_card (\<lambda>k. k\<lparr>rca := 1\<rparr>) w))))) c = (Some (x_rca X), c1)"
    using a(1) by simp
  have t: "is_sdc (cd_type (the_card (upd_card (\<lambda>k. k\<lparr>rca := 1\<rparr>) w)))" using h has_simps(1) [OF h(1)] by (simp add: is_sdc_def)
  have fin: "yields (sdmmc_get_state E (upd_card (\<lambda>k. k\<lparr>rca := x_addr X\<rparr>) w'))
      (\<lambda>(r, w). r = SDMMC_OK \<and> has (upd_card (\<lambda>k. k\<lparr>rca := x_addr X, cd_state := rs 0 AND 0x1e00\<rparr>) w0) c2 w)"
    if "has (upd_card (\<lambda>k. k\<lparr>rca := 1\<rparr>) w0) c1 w'" for w'
    using get_state_run [OF has_card [OF that, of "\<lambda>k. k\<lparr>rca := x_addr X\<rparr>"], of rs c2] a(2) by simp
  show ?thesis unfolding set_relative_addr_def Let_def if_P [OF t]
    by (rule then_ok_gives [OF cmd_answered [OF h1 sends_cmds(4) a1]]) (use fin in \<open>auto simp: x_addr_def\<close>)
qed

lemma csd_run:
  assumes h: "has w0 c w" and d: "drop_bit 30 (csd 3) = (1 :: u32)" and a: "answer 13 (push_bit 16 (ucast (rca (the_card w0)))) c = (Some rs, c1)"
  shows "yields (sd_parse_csd E csd w) (\<lambda>(r, w). r = SDMMC_OK \<and> (\<exists>k sp. has (upd_card (\<lambda>k. k\<lparr>blk_size := 512,
    blk_num := ((push_bit 16 (csd 2 AND 0x3F) OR drop_bit 16 (csd 1)) + 1) * 1024, cd_speed := sp, cd_state := rs 0 AND 0x1e00\<rparr>) (w0\<lparr>sdmmc := (sdmmc w0)\<lparr>sd_csd := k\<rparr>\<rparr>)) c1 w))"
proof -
  let ?n = "((push_bit 16 (csd 2 AND 0x3F) OR drop_bit 16 (csd 1)) + 1) * 1024"
  let ?k = "sd_csd_of csd (sd_csd (sdmmc w))" and ?sp = "sdmmc_tran_speed (tran_speed (sd_csd_of csd (sd_csd (sdmmc w))))"
  note h1 = has_card [OF has_csd [OF h, of ?k], of "\<lambda>k. k\<lparr>blk_size := 512, blk_num := ?n, cd_speed := ?sp\<rparr>"]
  have a1: "answer 13 (push_bit 16 (ucast (rca (the_card (upd_card (\<lambda>k. k\<lparr>blk_size := 512, blk_num := ?n, cd_speed := ?sp\<rparr>) (w0\<lparr>sdmmc := (sdmmc w0)\<lparr>sd_csd := ?k\<rparr>\<rparr>)))))) c = (Some rs, c1)"
    using a by simp
  note g = get_state_run [OF h1 a1, unfolded upd_upd]
  show ?thesis unfolding sd_parse_csd_def Let_def sdhc_geometry [of csd, OF d] prod.case
    by (rule yields_bind2 [OF g]) auto
qed


lemma switch_run:
  assumes T: "stays answer T" and h: "has w0 c w" "cd_type (the_card w0) = eSDC_HC" and a: "answer 55 (push_bit 16 (ucast (rca (the_card w0)))) c = (Some r1, c1)"
    "answer 6 2 c1 = (Some r2, c2)" and c: "c2 \<in> T"
  shows "yields (switch_mode E w) (\<lambda>(r, w). r = SDMMC_OK \<and> near T w0 w)"
proof -
  have t: "is_sdc (cd_type (the_card w))" using h has_simps(1) [OF h(1)] by (simp add: is_sdc_def)
  have a1: "answer 55 (push_bit 16 (ucast (rca (the_card w)))) c = (Some r1, c1)" using a(1) has_simps(1) [OF h(1)] by simp
  have width: "yields (sd_set_bus_width E 4 w) (has w0 c2)" if "has w0 c2 w" for w
    using that unfolding has_def by (elim exE) (rule yields_mono [OF width_sd], assumption, blast)
  have frq: "yields (sdmmc_set_frq E f w) (near T w0)" if "near T w0 w" for w f
    using that unfolding near_def has_def by (elim exE bexE) (rule yields_mono [OF frq_sd], assumption, blast)
  have rest: "yields (do {
          w \<leftarrow> sd_set_bus_width E 4 w;
          (_, w) \<leftarrow> sdmmc_highspeed E w;
          w \<leftarrow> sdmmc_set_frq E (cd_speed (the_card w)) w;
          Some (SDMMC_OK, w) }) (\<lambda>(r, w). r = SDMMC_OK \<and> near T w0 w)" if "has w0 c2 w" for w
    apply (rule yields_bind [OF width [OF that]])
    apply (rule yields_bind2 [OF highspeed_run [OF T _ c]], assumption)
    apply simp
    apply (rule yields_bind [OF frq], assumption)
    apply simp
    done
  show ?thesis unfolding switch_mode_def if_P [OF t]
    apply (rule then_ok_gives [OF cmd_answered [OF h(1) sends_cmds(11) a1]])
    apply (rule then_ok_gives [OF cmd_answered [OF _ sends_cmds(12) a(2)]], blast)
    apply (rule rest, blast)
    done
qed

definition knows :: "memory \<Rightarrow> 'z \<Rightarrow> card_t \<Rightarrow> 'c \<Rightarrow> ('d, 'z) sd_world_scheme \<Rightarrow> bool" where
  \<comment> \<open>the card is \<open>c\<close>, and the driver knows \<open>k\<close> of it\<close>
  "knows m z k c w \<longleftrightarrow> has w c w \<and> the_card w = k \<and> mem w = m \<and> sd_world.more w = z"

lemma has_knows: "has w0 c w \<Longrightarrow> knows (mem w0) (sd_world.more w0) (the_card w0) c w"
  unfolding knows_def has_iff by (cases "sdmmc w0") auto

lemma knows_upd: "knows m z k c w \<Longrightarrow> knows m z (f k) c (upd_card f w)"
  unfolding knows_def by (auto intro: has_card)

lemma knows_cmd:
  assumes "knows m z k c w" "sends i j l" "answer j a c = (Some rs, c')"
  shows "yields (sdmmc_send_cmd E (CMD_CREATE i a None 0 0 0 w)) (\<lambda>(r, w). r = SDMMC_OK \<and> knows m z k c' w)"
  using assms(1) by (intro yields_mono2 [OF cmd_answered [OF _ assms(2,3)]]) (auto simp: knows_def dest: has_knows)

lemma knows_state:
  assumes "knows m z k c w" "answer 13 (push_bit 16 (ucast (rca k))) c = (Some rs, c')"
  shows "yields (sdmmc_get_state E w) (\<lambda>(r, w). r = SDMMC_OK \<and> knows m z (k\<lparr>cd_state := rs 0 AND 0x1e00\<rparr>) c' w)"
  using assms by (intro yields_mono2 [OF get_state_run]) (auto simp: knows_def dest: has_knows)

lemma knows_long:
  assumes "knows m z k c w" "sends i j True" "answer j a c = (Some rs, c')"
  shows "yields (sdmmc_send_cmd E (CMD_CREATE i a a_buffer 0 0 0 w)) (\<lambda>(r, w). r = SDMMC_OK \<and> knows m z k c' w \<and> the_rsp w = long_words rs)"
proof -
  have "(\<lambda>_. 0)(3 := long_words rs 3, 2 := long_words rs 2, 1 := long_words rs 1, 0 := long_words rs 0) = long_words rs"
    by (simp add: long_words_def fun_eq_iff)
  then show ?thesis
    using assms(1) by (intro yields_mono2 [OF cmd_answered [OF _ assms(2,3)]]) (auto simp: knows_def simp del: fun_upd_apply dest: has_knows)
qed

lemma knows_addr:
  assumes h: "knows m z k c w" "cd_type k = eSDC_HC" and a: "answer 3 0x10000 c = (Some (x_rca X), c1)"
    "answer 13 (push_bit 16 (ucast (x_addr X))) c1 = (Some rs, c2)"
  shows "yields (set_relative_addr E w) (\<lambda>(r, w). r = SDMMC_OK \<and> knows m z (k\<lparr>rca := x_addr X, cd_state := rs 0 AND 0x1e00\<rparr>) c2 w)"
  using h by (intro yields_mono2 [OF relative_addr_run [OF _ _ a]]) (auto simp: knows_def dest: has_knows)

lemma knows_registers:
  assumes h: "knows m z k c w" "cd_type k = eSDC_HC" and d: "drop_bit 30 (csd 3) = (1 :: u32)" and a: "answer 13 (push_bit 16 (ucast (rca k))) c = (Some rs, c1)"
  shows "yields (parse_registers E csd cid w) (\<lambda>(r, w). r = SDMMC_OK \<and> (\<exists>sp. knows m z (k\<lparr>blk_size := 512,
    blk_num := ((push_bit 16 (csd 2 AND 0x3F) OR drop_bit 16 (csd 1)) + 1) * 1024, cd_speed := sp, cd_state := rs 0 AND 0x1e00\<rparr>) c1 w))"
    (is "yields _ ?Q")
proof -
  have t: "is_sdc (cd_type (the_card w))" and a1: "answer 13 (push_bit 16 (ucast (rca (the_card w)))) c = (Some rs, c1)" and w: "has w c w"
    using h a by (simp_all add: knows_def is_sdc_def)
  have cid: "knows m' z' k' c w' \<Longrightarrow> knows m' z' k' c (sd_parse_cid cid w')" for m' z' k' w' c
    unfolding knows_def by (auto intro: has_cid) (simp_all add: sd_parse_cid_def)
  let ?f = "\<lambda>sp k. k\<lparr>blk_size := 512, blk_num := ((push_bit 16 (csd 2 AND 0x3F) OR drop_bit 16 (csd 1)) + 1) * 1024, cd_speed := sp, cd_state := rs 0 AND 0x1e00\<rparr>"
  have "knows m z (?f sp k) c1 (sd_parse_cid cid w')" if "has (upd_card (?f sp) (w\<lparr>sdmmc := (sdmmc w)\<lparr>sd_csd := q\<rparr>\<rparr>)) c1 w'" for sp q w'
    using cid [OF has_knows [OF that, simplified]] h(1) by (simp add: knows_def [of m z k c w])
  then show ?thesis unfolding parse_registers_def if_P [OF t]
    by (intro then_ok_gives [OF csd_run [of _ _ _ csd, OF w d a1]]) (simp only: yields_Some prod.case, blast)
qed

lemma knows_switch:
  assumes T: "stays answer T" and h: "knows m z k c w" "cd_type k = eSDC_HC" and a: "answer 55 (push_bit 16 (ucast (rca k))) c = (Some r1, c1)"
    "answer 6 2 c1 = (Some r2, c2)" and c: "c2 \<in> T"
  shows "yields (switch_mode E w) (\<lambda>(r, w). r = SDMMC_OK \<and> (\<exists>c \<in> T. \<exists>sp. knows m z (k\<lparr>cd_speed := sp\<rparr>) c w))"
proof -
  have w: "has w c w" "the_card w = k" "mem w = m" "sd_world.more w = z" using h(1) by (simp_all add: knows_def)
  have n: "\<exists>c \<in> T. \<exists>sp. knows m z (k\<lparr>cd_speed := sp\<rparr>) c w'" if near: "near T w w'" for w'
  proof -
    from near obtain c sp where "c \<in> T" "has (upd_card (\<lambda>k. k\<lparr>cd_speed := sp\<rparr>) w) c w'" unfolding near_def by blast
    with has_knows [OF this(2)] w(2-) show ?thesis by auto
  qed
  show ?thesis by (rule yields_mono2 [OF switch_run [OF T w(1) _ _ a(2) c]]) (use h a w n in auto)
qed

lemma identify_run:
  assumes T: "stays answer T" "c' \<in> T" and X: "sdhc_ok X" and h: "knows m z k c w" "cd_type k = eSDC_HC" and t: "talk answer (sdhc_ident X) c c'"
  shows "yields (identify_card E w) (\<lambda>(r, w). r = SDMMC_OK \<and> (\<exists>c \<in> T. \<exists>sp. knows m z (k\<lparr>cd_state := MMC_TRAN, rca := x_addr X, cd_speed := sp,
    blk_size := 512, blk_num := (sdhc_c_size X + 1) * 1024\<rparr>) c w))"
proof -
  from t [unfolded talk_ident] obtain c1 c2 c3 c4 c5 c6 c7 c8 c9 c10 where
    a: "answer 2 0 c = (Some (x_cid X), c1)" "answer 3 0x10000 c1 = (Some (x_rca X), c2)"
    "answer 13 (push_bit 16 (ucast (x_addr X))) c2 = (Some (x_other X 100), c3)" "answer 9 (push_bit 16 (ucast (x_addr X))) c3 = (Some (x_csd X), c4)"
    "answer 13 (push_bit 16 (ucast (x_addr X))) c4 = (Some (x_other X 101), c5)" "answer 7 (push_bit 16 (ucast (x_addr X))) c5 = (Some (x_other X 102), c6)"
    "answer 13 (push_bit 16 (ucast (x_addr X))) c6 = (Some (x_other X 103), c7)" "answer 16 512 c7 = (Some (x_other X 104), c8)"
    "answer 13 (push_bit 16 (ucast (x_addr X))) c8 = (Some (x_state X), c9)" "answer 55 (push_bit 16 (ucast (x_addr X))) c9 = (Some (x_other X 105), c10)"
    "answer 6 2 c10 = (Some (x_other X 106), c')" by blast
  have csd: "drop_bit 30 (long_words (x_csd X) 3) = 1" "x_state X 0 AND 0x1e00 = MMC_TRAN" using X by (simp_all add: sdhc_ok_def)
  have k: "the_card w = k" if "knows m z k c w" for k c w using that by (simp add: knows_def)
  show ?thesis unfolding identify_card_def
    apply (rule then_ok_gives [OF knows_long [OF knows_upd [OF h(1)] sends_cmds(3) a(1)]])
    apply (simp only: Let_def, elim conjE)
    apply (rule then_ok_gives [OF knows_addr [OF knows_upd _ a(2,3)]], assumption, simp add: h(2))
    apply (rule then_ok_gives [OF knows_long [OF _ sends_cmds(8)]], assumption, simp add: k a(4), elim conjE)
    apply (rule then_ok_gives [OF knows_registers], assumption, simp add: h(2), simp add: csd, simp add: a(5), elim exE)
    apply (rule then_ok_gives [OF knows_cmd [OF _ sends_cmds(6)]], assumption, simp add: k a(6))
    apply (rule then_ok_gives [OF knows_state], assumption, simp add: a(7))
    apply (rule then_ok_gives [OF knows_cmd [OF knows_upd sends_cmds(10)]], assumption, simp add: k SDMMC_BLOCKSIZE_def a(8))
    apply (rule then_ok_gives [OF knows_state], assumption, simp add: a(9))
    apply (rule yields_mono [OF knows_switch [OF T(1)]], assumption, simp add: h(2), simp add: a(10), rule a(11), rule T(2))
    apply (cases k, auto simp: SDMMC_BLOCKSIZE_def csd sdhc_c_size_def)
    done
qed


lemma knows_env: "has w0 c w \<Longrightarrow> icr (sdmmc w) = icr (sdmmc w0) \<and> ocr (sdmmc w) = ocr (sdmmc w0)"
  by (simp add: has_simps)

lemma init_card_run:
  assumes T: "stays answer T" "c' \<in> T" and X: "sdhc_ok X" and h: "sd w0 c w" "icr (sdmmc w0) = 0x1AA" "ocr (sdmmc w0) = 0x300000"
    and t: "talk answer (sdhc_script X) c c'"
  shows "yields (sdmmc_init_card E w) (\<lambda>(r, w). r = SDMMC_OK \<and> (\<exists>c \<in> T. \<exists>sp. knows (mem w0) (sd_world.more w0)
    \<lparr>cd_state = MMC_TRAN, cd_type = eSDC_HC, blk_size = 512, blk_num = (sdhc_c_size X + 1) * 1024, cd_speed = sp, rca = x_addr X\<rparr> c w))"
proof -
  from t obtain c1 c2 c3 c4 c5 where a: "answer 0 0 c = (Some (x_other X 107), c1)" "answer 8 0x1AA c1 = (Some (x_other X 108), c2)"
    "answer 0 0 c2 = (Some (x_other X 109), c3)" "answer 8 0x1AA c3 = (Some (x_other X 110), c4)"
    and t4: "talk answer (concat (map (sdhc_power X) [0..<Suc (x_rounds X)])) c4 c5" and t5: "talk answer (sdhc_ident X) c5 c'"
    unfolding sdhc_script_def talk_append by auto
  have h0: "has w0 c w" using h(1) unfolding has_def by (intro exI [of _ "the_cmd w0"]) (simp add: upd_cmd_def)
  let ?w1 = "upd_card (\<lambda>k. k\<lparr>rca := 0\<rparr>) w0" and ?w2 = "upd_card (\<lambda>k. k\<lparr>rca := 0, cd_state := MMC_IDLE\<rparr>) w0"
  let ?w3 = "upd_card (\<lambda>k. k\<lparr>rca := 0, cd_state := MMC_IDLE, cd_type := eSDC_V200\<rparr>) w0"
  have p1: "yields (probe_type E w) (has ?w3 c2)" if "has ?w2 c1 w" for w
    unfolding probe_type_def
    apply (rule yields_bind2 [OF cmd_answered [OF that sends_cmds(7)]], simp add: has_simps [OF that] h(2) a(2))
    using has_card [of ?w2 c2 _ "\<lambda>k. k\<lparr>cd_type := eSDC_V200\<rparr>"] by (auto simp: SDMMC_OK_def)
  have p2: "yields (power_up E w) (\<lambda>(r, w). r = SDMMC_OK \<and> knows (mem w0) (sd_world.more w0) ((the_card w0)\<lparr>rca := 0, cd_state := MMC_IDLE, cd_type := eSDC_HC\<rparr>) c5 w)"
    if hw: "has ?w3 c3 w" for w
  proof -
    have ty: "cd_type (the_card w) = eSDC_V200" and ic: "icr (sdmmc w) = 0x1AA" using has_simps [OF hw] h(2) by simp_all
    have hc: "x_ocr X (x_rounds X) 0 AND 0x40000000 = 0x40000000" using X by (simp add: sdhc_ok_def)
    have fin: "knows (mem w0) (sd_world.more w0) ((the_card w0)\<lparr>rca := 0, cd_state := MMC_IDLE, cd_type := eSDC_HC\<rparr>) c5 (upd_card (\<lambda>c. c\<lparr>cd_type := eSDC_HC\<rparr>) w')"
      if "has ?w3 c5 w'" for w'
      using has_knows [OF has_card [OF that, of "\<lambda>c. c\<lparr>cd_type := eSDC_HC\<rparr>"]] by simp
    have pw: "yields (power_up_v200 E POWER_UP_WAIT 0 True w') (\<lambda>(p, w). p = Powered (x_ocr X (x_rounds X) 0) \<and> has ?w3 c5 w)" if "has ?w3 c4 w'" for w'
      using power_run [OF X that _ _ t4, of POWER_UP_WAIT 0] h(3) X by (simp add: sdhc_ok_def)
    show ?thesis unfolding power_up_def ty card_type_t.case ic
      apply (rule then_ok_gives [OF cmd_answered [OF hw sends_cmds(7) a(4)]])
      apply (rule yields_bind2 [OF pw], blast)
      apply (auto simp: hc fin)
      done
  qed
  show ?thesis unfolding sdmmc_init_card_def
    apply (rule then_ok_gives [OF cmd_answered [OF has_card [OF h0] sends_cmds(1) a(1)]])
    apply (elim conjE)
    apply (rule yields_bind [OF p1])
     apply (drule has_card [where f = "\<lambda>k. k\<lparr>cd_state := MMC_IDLE\<rparr>"], simp)
    apply (rule then_ok_gives [OF cmd_answered [OF _ sends_cmds(1) a(3)]], assumption, elim conjE)
    apply (rule then_ok_gives [OF p2], assumption)
    apply (rule yields_mono [OF identify_run [OF T X _ _ t5]], assumption, simp)
    apply (cases "the_card w0", auto)
    done
qed

end

end
