(* ===== verification/Ipl_Files.thy ===== *)
theory Ipl_Files
  imports Ipl_Fat Ipl_Init
begin

section \<open>The initial program loader: files\<close>

text \<open>
  The file system needs little of the card: the locale \<open>block_device\<close> says that a read of blocks puts them in memory
  and changes nothing else. In it are proved: the entry of a cluster in the table, with and without the cached
  sector (\<open>entry32_run\<close>); the runs of adjacent clusters (\<open>consolidate_run\<close>); the copy of a file, run by run
  (\<open>copy_file_run\<close>); the search of a directory, sector by sector (\<open>root_search_run\<close>) and the copy of a file
  with a given name (\<open>named_file_run\<close>). The abstract side has a file as a list of clusters (\<open>chain\<close>) with contents
  \<open>file_data\<close>, and a directory as a list of entries (\<open>dir_entries\<close>, \<open>dir_lookup\<close>).
\<close>

subsection \<open>The contract of the block device\<close>

text \<open>
  What the file system relies on: a read of a range of blocks on the card returns, puts the blocks into
  memory and changes none of the variables of the file system.
\<close>

definition on_disk :: "(nat \<Rightarrow> u8 list) \<Rightarrow> nat \<Rightarrow> nat \<Rightarrow> u8 list" where
  \<comment> \<open>\<open>n\<close> blocks from block \<open>b\<close> on\<close>
  "on_disk disk b n = concat (map disk [b..<b + n])"

definition same_vars :: "'d fat_world \<Rightarrow> 'd fat_world \<Rightarrow> bool" where
  "same_vars w w' \<longleftrightarrow> fs_info w' = fs_info w \<and> g_fat_sector w' = g_fat_sector w \<and> cache_valid w' = cache_valid w \<and> blk w' = blk w"

locale block_device =
  fixes E :: "'d sd_env" and good :: "'d fat_world \<Rightarrow> bool" and disk :: "nat \<Rightarrow> u8 list" and cap :: nat
  assumes read_blocks: "good w \<Longrightarrow> unat b + unat n \<le> cap \<Longrightarrow> 0 < n \<Longrightarrow> n < 2 ^ 16 \<Longrightarrow>
      yields (sdmmc_read E buf b n w) (\<lambda>(r, w'). r = SDMMC_OK \<and> good w' \<and> same_vars w w' \<and>
        mem w' = put_bytes (unat buf) (on_disk disk (unat b) (unat n)) (mem w))"
    and good_vars: "good w \<Longrightarrow> good (w\<lparr>fs_info := f\<rparr>)" "good w \<Longrightarrow> good (w\<lparr>g_fat_sector := g\<rparr>)"
      "good w \<Longrightarrow> good (w\<lparr>cache_valid := c\<rparr>)" "good w \<Longrightarrow> good (w\<lparr>blk := b\<rparr>)"
    and disk_length: "length (disk k) = 512"

subsection \<open>Volumes\<close>

definition fat32_entry :: "(nat \<Rightarrow> u8 list) \<Rightarrow> fs_info_t \<Rightarrow> u32 \<Rightarrow> u32" where
  \<comment> \<open>the entry of a cluster in the table on the card\<close>
  "fat32_entry disk f c =
     le32 (take 4 (drop (4 * unat c mod 512) (disk (unat (fs_offset f) + unat (fat1_start f) + 4 * unat c div 512)))) AND 0x0fffffff"

definition cluster_sector :: "fs_info_t \<Rightarrow> u32 \<Rightarrow> nat" where
  "cluster_sector f c = unat (fs_offset f) + unat (cluster2_start f) + (unat c - 2) * unat (cluster_size f)"

definition cluster_data :: "(nat \<Rightarrow> u8 list) \<Rightarrow> fs_info_t \<Rightarrow> u32 \<Rightarrow> u8 list" where
  "cluster_data disk f c = on_disk disk (cluster_sector f c) (unat (cluster_size f))"

definition volume_ok :: "nat \<Rightarrow> fs_info_t \<Rightarrow> bool" where
  \<comment> \<open>a FAT32 volume whose numbers fit\<close>
  "volume_ok cap f \<longleftrightarrow> fat_type f = 32 \<and> 0 < cluster_size f \<and> cluster_size f < 2 ^ 8 \<and> cap < 2 ^ 32"

definition cluster_ok :: "nat \<Rightarrow> fs_info_t \<Rightarrow> u32 \<Rightarrow> bool" where
  \<comment> \<open>a cluster on the card, with its entry in the table\<close>
  "cluster_ok cap f c \<longleftrightarrow> 2 \<le> unat c \<and> unat c < 0x0FFFFFF7 \<and> cluster_sector f c + unat (cluster_size f) \<le> cap \<and>
     unat (fs_offset f) + unat (fat1_start f) + 4 * unat c div 512 < cap \<and> unat (fat1_start f) + 4 * unat c div 512 < 2 ^ 32 - 1"

definition cached :: "u32 \<Rightarrow> (nat \<Rightarrow> u8 list) \<Rightarrow> 'd fat_world \<Rightarrow> bool" where
  \<comment> \<open>the sector of the table that is said to be in the buffer is there\<close>
  "cached B disk w \<longleftrightarrow> (cache_valid w \<and> g_fat_sector w \<noteq> - 1 \<longrightarrow>
     bytes_at (mem w) (unat B) 512 = disk (unat (fs_offset (fs_info w)) + unat (g_fat_sector w)))"

abbreviation table_sector :: "fs_info_t \<Rightarrow> u32 \<Rightarrow> u32" where
  \<comment> \<open>the sector of the table with the entry of a cluster\<close>
  "table_sector f c \<equiv> fat1_start f + (c * 4) div SECTOR_SIZE"

lemma length_on_disk: "(\<And>k. length (disk k) = 512) \<Longrightarrow> length (on_disk disk b n) = 512 * n"
  by (induction n) (simp_all add: on_disk_def)

lemma on_disk_1: "on_disk disk b 1 = disk b" "on_disk disk b (Suc 0) = disk b"
  by (simp_all add: on_disk_def)

lemma on_disk_add: "on_disk disk b (n + k) = on_disk disk b n @ on_disk disk (b + n) k"
  by (induction k) (simp_all add: on_disk_def add.assoc)

lemma entry_offset: "4 * n mod 512 + 4 \<le> (512 :: nat)"
proof -
  have "4 * n mod 512 = 4 * (n mod 128)" using mult_mod_right [of 4 n 128] by simp
  moreover have "n mod 128 < 128" by simp
  ultimately show ?thesis by linarith
qed

lemma ld32_bytes: "unat B + k + 4 \<le> 2 ^ 32 \<Longrightarrow> k + 4 \<le> l \<Longrightarrow> ld32 m (B + of_nat k) = le32 (take 4 (drop k (bytes_at m (unat B) l)))"
  by (simp add: ld32_def unat_plus bytes_at_slice)

context block_device
begin

lemma read_one:
  assumes "good w" "unat b < cap"
  shows "yields (read_sector E b buf 1 w) (\<lambda>(r, w'). r = SDMMC_OK \<and> good w' \<and> same_vars w w' \<and> mem w' = put_bytes (unat buf) (disk (unat b)) (mem w))"
  using read_blocks [OF assms(1), of b 1 buf] assms(2) by (simp add: read_sector_def on_disk_1)

lemma entry32_run:
  assumes g: "good w" and V: "volume_ok cap (fs_info w)" and c: "cluster_ok cap (fs_info w) c" and B: "unat B + 512 \<le> 2 ^ 32" and k: "cached B disk w"
  shows "yields (fat_get_fat_entry E B c w) (\<lambda>(v, w'). v = fat32_entry disk (fs_info w) c \<and> good w' \<and> cached B disk w' \<and>
    fs_info w' = fs_info w \<and> cache_valid w' = cache_valid w \<and> blk w' = blk w \<and> g_fat_sector w' = table_sector (fs_info w) c \<and>
    frame (area B 512) (mem w) (mem w'))"
proof -
  let ?f = "fs_info w"
  let ?s = "fat1_start ?f + (c * 4) div SECTOR_SIZE" and ?o = "(c * 4) mod SECTOR_SIZE"
  have u4: "unat (c * 4) = 4 * unat c" using c by (simp add: cluster_ok_def unat_word_ariths)
  have ud: "unat ((c * 4) div SECTOR_SIZE) = 4 * unat c div 512" by (simp add: SECTOR_SIZE_def unat_div_distrib u4)
  have us: "unat ?s = unat (fat1_start ?f) + 4 * unat c div 512" using c by (subst unat_plus_w) (simp_all add: ud cluster_ok_def)
  have uo: "unat ?o = 4 * unat c mod 512" by (simp add: SECTOR_SIZE_def unat_mod_distrib u4)
  note o4 = entry_offset [of "unat c"]
  have ub: "unat (?s + fs_offset ?f) = unat (fs_offset ?f) + unat (fat1_start ?f) + 4 * unat c div 512"
    using c V by (subst unat_plus_w) (simp_all add: us cluster_ok_def volume_ok_def)
  then have ub2: "unat (?s + fs_offset ?f) = unat (fs_offset ?f) + unat ?s" by (simp add: us)
  have val: "ld32 m (B + ?o) AND 0x0fffffff = fat32_entry disk ?f c"
    if "bytes_at m (unat B) 512 = disk (unat (?s + fs_offset ?f))" for m
  proof -
    have e: "?o = of_nat (4 * unat c mod 512)" unfolding uo [symmetric] by simp
    have "ld32 m (B + of_nat (4 * unat c mod 512)) = le32 (take 4 (drop (4 * unat c mod 512) (disk (unat (?s + fs_offset ?f)))))"
      unfolding that [symmetric] by (rule ld32_bytes) (use o4 B in linarith)+
    then show ?thesis unfolding e fat32_entry_def ub by simp
  qed
  have s1: "?s \<noteq> - 1"
  proof
    assume "?s = - 1"
    moreover have "(- 1 :: u32) = 0xFFFFFFFF" by simp
    ultimately have "unat ?s = 2 ^ 32 - 1" by (simp only:) simp
    then show False using us c by (simp add: cluster_ok_def)
  qed
  show ?thesis
  proof (cases "cache_valid w \<and> g_fat_sector w = ?s")
    case True
    then have "bytes_at (mem w) (unat B) 512 = disk (unat (?s + fs_offset ?f))"
      using k s1 by (simp add: cached_def ub2)
    from val [OF this] True g k V show ?thesis by (simp add: fat_get_fat_entry_def get_fat_entry32_def volume_ok_def Let_def)
  next
    case False
    have r: "yields (read_sector E (?s + fs_offset ?f) B 1 w) (\<lambda>(r, w'). r = SDMMC_OK \<and> good w' \<and> same_vars w w' \<and>
        mem w' = put_bytes (unat B) (disk (unat (?s + fs_offset ?f))) (mem w))"
      by (rule read_one [OF g]) (use c in \<open>simp add: ub cluster_ok_def\<close>)
    have b: "bytes_at (put_bytes (unat B) (disk n) m) (unat B) 512 = disk n" for n m using bytes_at_put [of "unat B" "disk n" m] by (simp add: disk_length)
    have f: "frame (area B 512) m (put_bytes (unat B) (disk n) m)" for n m using frame_put [of "unat B" "disk n" m] by (simp add: disk_length)
    have t: "fat_type ?f = 32" using V by (simp add: volume_ok_def)
    have "fat_get_fat_entry E B c w = get_fat_entry32 E B c w" by (simp add: fat_get_fat_entry_def t)
    also have "\<dots> = read_fsector E ?s B 1 w \<bind> (\<lambda>(r, w). if r \<noteq> SDMMC_OK then Some (0, w)
        else let w = w\<lparr>g_fat_sector := ?s\<rparr> in Some (ld32 (mem w) (B + ?o) AND 0x0fffffff, w))"
      unfolding get_fat_entry32_def Let_def if_not_P [OF False] ..
    finally show ?thesis unfolding read_fsector_def
      apply simp
      apply (rule yields_bind2 [OF r])
      apply (use b f val good_vars(2) in \<open>auto simp: Let_def same_vars_def cached_def ub2\<close>)
      done
  qed
qed

end

subsection \<open>Files\<close>

definition chain :: "(nat \<Rightarrow> u8 list) \<Rightarrow> fs_info_t \<Rightarrow> u32 list \<Rightarrow> bool" where
  \<comment> \<open>clusters that the table links in this order\<close>
  "chain disk f cs \<longleftrightarrow> (\<forall>i. Suc i < length cs \<longrightarrow> fat32_entry disk f (cs ! i) = cs ! Suc i)"

abbreviation cluster_bytes :: "fs_info_t \<Rightarrow> nat" where
  "cluster_bytes f \<equiv> 512 * unat (cluster_size f)"

lemma chain_drop: "chain disk f cs \<Longrightarrow> chain disk f (drop n cs)"
  by (simp add: chain_def add.commute)

definition contiguous :: "u32 list \<Rightarrow> nat \<Rightarrow> bool" where
  \<comment> \<open>the first \<open>q\<close> clusters follow each other\<close>
  "contiguous cs q \<longleftrightarrow> (\<forall>i. 0 < i \<and> i < q \<longrightarrow> cs ! i = cs ! (i - 1) + 1)"

lemma contiguous_sector:
  assumes "contiguous cs q" "q \<le> length cs" "\<forall>c \<in> set cs. cluster_ok cap f c" "i < q"
  shows "cluster_sector f (cs ! i) = cluster_sector f (cs ! 0) + i * unat (cluster_size f)"
proof -
  have "unat (cs ! i) = unat (cs ! 0) + i" using assms(4)
  proof (induction i)
    case (Suc i)
    have "cluster_ok cap f (cs ! i)" using assms(2,3) Suc.prems by simp
    then have "unat (cs ! i + 1) = unat (cs ! i) + 1" using unat_plus [of "cs ! i" 1] by (simp add: cluster_ok_def)
    moreover have "cs ! Suc i = cs ! i + 1" using assms(1) [unfolded contiguous_def, rule_format, of "Suc i"] Suc.prems by simp
    ultimately show ?case using Suc by simp
  qed simp
  moreover have "cs ! 0 \<in> set cs" using assms(2,4) by (intro nth_mem) linarith
  then have "2 \<le> unat (cs ! 0)" using assms(3) by (simp add: cluster_ok_def)
  ultimately show ?thesis by (simp add: cluster_sector_def flip: add_mult_distrib)
qed

lemma contiguous_data:
  assumes "contiguous cs q" "q \<le> length cs" "\<forall>c \<in> set cs. cluster_ok cap f c"
  shows "concat (map (cluster_data disk f) (take q cs)) = on_disk disk (cluster_sector f (cs ! 0)) (q * unat (cluster_size f))"
proof -
  have "concat (map (cluster_data disk f) (take n cs)) = on_disk disk (cluster_sector f (cs ! 0)) (n * unat (cluster_size f))" if "n \<le> q" for n
    using that
  proof (induction n)
    case (Suc n)
    have "take (Suc n) cs = take n cs @ [cs ! n]" using Suc.prems assms(2) by (simp add: take_Suc_conv_app_nth)
    then show ?case
      using Suc contiguous_sector [OF assms, of n]
        on_disk_add [of disk "cluster_sector f (cs ! 0)" "n * unat (cluster_size f)" "unat (cluster_size f)"]
      by (simp add: cluster_data_def add.commute)
  qed (simp add: on_disk_def)
  from this [of q] show ?thesis by simp
qed

context block_device
begin

definition runs :: "u32 \<Rightarrow> nat set \<Rightarrow> 'd fat_world \<Rightarrow> 'd fat_world \<Rightarrow> bool" where
  \<comment> \<open>a run of the file system that changes memory at \<open>S\<close> only\<close>
  "runs B S w w' \<longleftrightarrow> good w' \<and> cached B disk w' \<and> fs_info w' = fs_info w \<and> cache_valid w' = cache_valid w \<and> blk w' = blk w \<and>
     frame S (mem w) (mem w')"

lemma runs_trans: "runs B S w w' \<Longrightarrow> runs B T w' w'' \<Longrightarrow> S \<subseteq> U \<Longrightarrow> T \<subseteq> U \<Longrightarrow> runs B U w w''"
  by (auto simp: runs_def intro: frame_trans)

lemma entry_runs:
  "good w \<Longrightarrow> cached B disk w \<Longrightarrow> volume_ok cap (fs_info w) \<Longrightarrow> cluster_ok cap (fs_info w) c \<Longrightarrow> unat B + 512 \<le> 2 ^ 32 \<Longrightarrow>
   yields (fat_get_fat_entry E B c w) (\<lambda>(v, w'). v = fat32_entry disk (fs_info w) c \<and> g_fat_sector w' = table_sector (fs_info w) c \<and>
     runs B (area B 512) w w')"
  by (rule yields_mono2 [OF entry32_run]) (auto simp: runs_def)

lemma consolidate_run:
  \<comment> \<open>the last entry that is read is that of the cluster before the end of the run, or of the last but one\<close>
  assumes B: "unat B + 512 \<le> 2 ^ 32" and cs: "chain disk f cs" "\<forall>c \<in> set cs. cluster_ok cap f c" and V: "volume_ok cap f"
    and sz: "int ((length cs - 1) * cluster_bytes f) < sz" "sz \<le> int (length cs * cluster_bytes f)"
    and w: "good w" "cached B disk w" "fs_info w = f" and p: "0 < p" "p \<le> length cs"
  shows "yields (consolidate E B (int (cluster_bytes f)) sz (int (p * cluster_bytes f)) (cs ! (p - 1)) w) (\<lambda>((txf, nx), w').
    \<exists>q. p \<le> q \<and> q \<le> length cs \<and> txf = int (q * cluster_bytes f) \<and> (\<forall>i. p \<le> i \<and> i < q \<longrightarrow> cs ! i = cs ! (i - 1) + 1) \<and>
      (q < length cs \<longrightarrow> nx = cs ! q) \<and> 
      g_fat_sector w' = (if q < length cs then table_sector f (cs ! (q - 1)) else if p < length cs then table_sector f (cs ! (length cs - 2)) else g_fat_sector w) \<and>
      runs B (area B 512) w w')"
  using p w
proof (induction "length cs - p" arbitrary: p w)
  case (0 p)
  then have p: "p = length cs" by simp
  then have "\<not> sz > int (p * cluster_bytes f)" using sz by simp
  then show ?case using 0 p by (subst consolidate.simps) (auto simp: runs_def)
next
  case (Suc n p)
  have p: "p < length cs" using Suc.hyps(2) by simp
  have "p * cluster_bytes f \<le> (length cs - 1) * cluster_bytes f" using p by (intro mult_right_mono) auto
  then have big: "sz > int (p * cluster_bytes f)" using sz(1) by linarith
  have e: "yields (fat_get_fat_entry E B (cs ! (p - 1)) w) (\<lambda>(v, w'). v = cs ! p \<and> g_fat_sector w' = table_sector f (cs ! (p - 1)) \<and> runs B (area B 512) w w')"
    using entry_runs [OF Suc.prems(3,4), of "cs ! (p - 1)"] Suc.prems p V cs B
    by (auto simp: chain_def dest: spec [of _ "p - 1"])
  show ?case
  proof (subst consolidate.simps, simp only: big if_True, rule yields_bind2 [OF e], elim conjE)
    fix v w' assume v: "v = cs ! p" and g: "g_fat_sector w' = table_sector f (cs ! (p - 1))" and r: "runs B (area B 512) w w'"
    have w': "good w'" "cached B disk w'" "fs_info w' = f" using r Suc.prems(5) by (simp_all add: runs_def)
    show "yields (case (v, w') of (next_c, w) \<Rightarrow>
        if next_c = cs ! (p - 1) + 1 \<and> int (p * cluster_bytes f) > 20 * 512
        then consolidate E B (int (cluster_bytes f)) sz (int (p * cluster_bytes f) + int (cluster_bytes f)) next_c w
        else Some ((int (p * cluster_bytes f), next_c), w))
      (\<lambda>((txf, nx), w'). \<exists>q. p \<le> q \<and> q \<le> length cs \<and> txf = int (q * cluster_bytes f) \<and>
        (\<forall>i. p \<le> i \<and> i < q \<longrightarrow> cs ! i = cs ! (i - 1) + 1) \<and> (q < length cs \<longrightarrow> nx = cs ! q) \<and> 
        g_fat_sector w' = (if q < length cs then table_sector f (cs ! (q - 1)) else if p < length cs then table_sector f (cs ! (length cs - 2)) else g_fat_sector w) \<and>
        runs B (area B 512) w w')"
    proof (cases "v = cs ! (p - 1) + 1 \<and> int (p * cluster_bytes f) > 20 * 512")
      case True
      have "int (p * cluster_bytes f) + int (cluster_bytes f) = int (Suc p * cluster_bytes f)" by simp
      moreover have "yields (consolidate E B (int (cluster_bytes f)) sz (int (Suc p * cluster_bytes f)) (cs ! (Suc p - 1)) w') (\<lambda>((txf, nx), w'').
          \<exists>q. Suc p \<le> q \<and> q \<le> length cs \<and> txf = int (q * cluster_bytes f) \<and> (\<forall>i. Suc p \<le> i \<and> i < q \<longrightarrow> cs ! i = cs ! (i - 1) + 1) \<and>
          (q < length cs \<longrightarrow> nx = cs ! q) \<and>
          g_fat_sector w'' = (if q < length cs then table_sector f (cs ! (q - 1)) else if Suc p < length cs then table_sector f (cs ! (length cs - 2)) else g_fat_sector w') \<and>
          runs B (area B 512) w' w'')"
        by (rule Suc.hyps(1)) (use Suc.hyps(2) p w' in auto)
      ultimately show ?thesis using True v
      proof (simp only: prod.case if_True simp_thms diff_Suc_1, elim yields_mono, goal_cases)
        case (1 x)
        then obtain txf nx w'' q where x: "x = ((txf, nx), w'')" "Suc p \<le> q" "q \<le> length cs" "txf = int (q * cluster_bytes f)"
          "\<forall>i. Suc p \<le> i \<and> i < q \<longrightarrow> cs ! i = cs ! (i - 1) + 1" "q < length cs \<longrightarrow> nx = cs ! q"
          "g_fat_sector w'' = (if q < length cs then table_sector f (cs ! (q - 1)) else if Suc p < length cs then table_sector f (cs ! (length cs - 2)) else g_fat_sector w')"
          "runs B (area B 512) w' w''" by auto
        have adj: "\<And>i. p \<le> i \<Longrightarrow> i < q \<Longrightarrow> cs ! i = cs ! (i - 1) + 1" using x(5) 1 by (metis Suc_leI le_neq_implies_less)
        have "Suc p = length cs \<Longrightarrow> p - 1 = length cs - 2" by simp
        then have "g_fat_sector w'' = (if q < length cs then table_sector f (cs ! (q - 1)) else if p < length cs then table_sector f (cs ! (length cs - 2)) else g_fat_sector w)"
          using x(7) g p by (cases "Suc p < length cs") auto
        moreover have "p \<le> q" using x(2) by simp
        moreover have "\<forall>i. p \<le> i \<and> i < q \<longrightarrow> cs ! i = cs ! (i - 1) + 1" using adj by blast
        ultimately show ?case unfolding x(1) prod.case
          by (intro exI [of _ q] conjI x(3,4,6) runs_trans [OF r x(8) subset_refl subset_refl])
      qed
    next
      case False
      show ?thesis unfolding prod.case if_not_P [OF False] yields_def
        by (rule exI [of _ "((int (p * cluster_bytes f), v), w')"], rule conjI [OF refl], unfold prod.case, rule exI [of _ p])
          (use v g r p in auto)
    qed
  qed
qed

end

lemma length_clusters: "(\<And>k. length (disk k) = 512) \<Longrightarrow> length (concat (map (cluster_data disk f) cs)) = length cs * cluster_bytes f"
  by (induction cs) (simp_all add: cluster_data_def length_on_disk)

context block_device
begin

lemma cluster_read:
  assumes w: "good w" "cached B disk w" "fs_info w = f" and V: "volume_ok cap f"
    and cs: "\<forall>c \<in> set cs. cluster_ok cap f c" and q: "0 < q" "q \<le> length cs" "contiguous cs q"
    and small: "q * unat (cluster_size f) < 2 ^ 16"
    and D: "area buf (q * cluster_bytes f) \<inter> area B 512 = {}"
  shows "yields (read_fsector E (cluster2fsector f (cs ! 0)) buf (of_int (int (q * cluster_bytes f) div 512)) w) (\<lambda>(r, w'). r = SDMMC_OK \<and>
    runs B (area buf (q * cluster_bytes f)) w w' \<and> g_fat_sector w' = g_fat_sector w \<and>
    mem w' = put_bytes (unat buf) (concat (map (cluster_data disk f) (take q cs))) (mem w))"
proof -
  let ?n = "of_int (int (q * cluster_bytes f) div 512) :: u32"
  have "int (q * cluster_bytes f) div 512 = int (q * unat (cluster_size f))" by (simp add: mult.left_commute)
  then have n: "?n = of_nat (q * unat (cluster_size f))" by (simp only: of_int_of_nat_eq)
  have un: "unat ?n = q * unat (cluster_size f)" using small unfolding n by (subst unat_of_nat) simp
  have pos: "0 < q * unat (cluster_size f)" using q V by (simp add: volume_ok_def word_less_nat_alt)
  have n0: "0 < ?n" "?n < 2 ^ 16" using un pos small by (simp_all add: word_less_nat_alt)
  have mem0: "cs ! 0 \<in> set cs" and memq: "cs ! (q - 1) \<in> set cs" using q by (auto intro!: nth_mem)
  have c0: "cluster_ok cap f (cs ! 0)" using cs mem0 by blast
  have "cluster_ok cap f (cs ! (q - 1))" using cs memq by blast
  moreover have "(q - 1) * unat (cluster_size f) + unat (cluster_size f) = q * unat (cluster_size f)" using q(1) by (cases q) auto
  ultimately have cap: "cluster_sector f (cs ! 0) + q * unat (cluster_size f) \<le> cap"
    using contiguous_sector [OF q(3,2) cs, of "q - 1"] q(1) by (simp add: cluster_ok_def)
  have c2: "2 \<le> unat (cs ! 0)" using c0 by (simp add: cluster_ok_def)
  then have u2: "unat (cs ! 0 - 2) = unat (cs ! 0) - 2" by (subst unat_sub) (simp_all add: word_le_nat_alt)
  have cap32: "cap < 2 ^ 32" using V by (simp add: volume_ok_def)
  have um: "unat ((cs ! 0 - 2) * cluster_size f) = (unat (cs ! 0) - 2) * unat (cluster_size f)"
    using cap cap32 by (simp add: unat_word_ariths u2 cluster_sector_def)
  have uc: "unat (cluster2fsector f (cs ! 0)) = unat (cluster2_start f) + (unat (cs ! 0) - 2) * unat (cluster_size f)"
    using cap cap32 unfolding cluster2fsector_def by (subst unat_plus_w) (simp_all add: um cluster_sector_def)
  have ub: "unat (cluster2fsector f (cs ! 0) + fs_offset f) = cluster_sector f (cs ! 0)"
    using cap cap32 by (subst unat_plus_w) (simp_all add: uc cluster_sector_def)
  have data: "on_disk disk (cluster_sector f (cs ! 0)) (q * unat (cluster_size f)) = concat (map (cluster_data disk f) (take q cs))"
    using contiguous_data [OF q(3,2) cs] by simp
  have len: "length (concat (map (cluster_data disk f) (take q cs))) = q * cluster_bytes f"
    using length_clusters [of disk f "take q cs", OF disk_length] q(2) by simp
  have rd: "yields (sdmmc_read E buf (cluster2fsector f (cs ! 0) + fs_offset f) ?n w) (\<lambda>(r, w'). r = SDMMC_OK \<and> good w' \<and> same_vars w w' \<and>
      mem w' = put_bytes (unat buf) (concat (map (cluster_data disk f) (take q cs))) (mem w))"
    using read_blocks [OF w(1), of "cluster2fsector f (cs ! 0) + fs_offset f" ?n buf] n0 cap unfolding ub un data by simp
  show ?thesis unfolding read_fsector_def read_sector_def w(3)
  proof (rule yields_mono2 [OF rd], elim conjE)
    fix r w' assume a: "r = SDMMC_OK" "good w'" "same_vars w w'" "mem w' = put_bytes (unat buf) (concat (map (cluster_data disk f) (take q cs))) (mem w)"
    have fr: "frame (area buf (q * cluster_bytes f)) (mem w) (mem w')"
      using frame_put [of "unat buf" "concat (map (cluster_data disk f) (take q cs))" "mem w"] unfolding a(4) len .
    have "bytes_at (mem w') (unat B) 512 = bytes_at (mem w) (unat B) 512" using D by (intro frame_bytes [OF fr]) (simp add: Int_commute)
    then have "cached B disk w'" using w(2) a(3) by (simp add: cached_def same_vars_def)
    with a fr show "case (r, w') of (r, w') \<Rightarrow> r = SDMMC_OK \<and> runs B (area buf (q * cluster_bytes f)) w w' \<and> g_fat_sector w' = g_fat_sector w \<and>
      mem w' = put_bytes (unat buf) (concat (map (cluster_data disk f) (take q cs))) (mem w)" by (simp add: runs_def same_vars_def)
  qed
qed

end

lemma ceil_step:
  assumes "int ((k - 1) * cb) < sz" "sz \<le> int (k * cb)" "q < k"
  shows "int ((k - q - 1) * cb) < sz - int (q * cb)" "sz - int (q * cb) \<le> int ((k - q) * cb)"
proof -
  have "(k - 1) * cb = (k - q - 1) * cb + q * cb" using assms(3) by (simp flip: add_mult_distrib)
  then show "int ((k - q - 1) * cb) < sz - int (q * cb)" using assms(1) by linarith
  have "k * cb = (k - q) * cb + q * cb" using assms(3) by (simp flip: add_mult_distrib)
  then show "sz - int (q * cb) \<le> int ((k - q) * cb)" using assms(2) by linarith
qed

lemma area_mono: "n \<le> k \<Longrightarrow> {a..<a + n} \<subseteq> {a..<a + k}" for a n k :: nat
  by auto

lemma area_sub: "p + n = k \<Longrightarrow> {a + p..<a + p + n} \<subseteq> {a..<a + k}" for a n k p :: nat
  by auto

lemma area_adjacent: "{a..<a + n} \<inter> {a + n..<a + n + k} = {}" for a n k :: nat
  by auto

context block_device
begin

lemma copy_run:
  assumes B: "unat B + 512 \<le> 2 ^ 32" and V: "volume_ok cap f" and cs: "chain disk f cs" "\<forall>c \<in> set cs. cluster_ok cap f c" "cs \<noteq> []"
    and sz: "int ((length cs - 1) * cluster_bytes f) < sz" "sz \<le> int (length cs * cluster_bytes f)"
    and w: "good w" "cached B disk w" "fs_info w = f" and small: "length cs * unat (cluster_size f) < 2 ^ 16"
    and D: "unat buf + length cs * cluster_bytes f \<le> 2 ^ 32" "area buf (length cs * cluster_bytes f) \<inter> area B 512 = {}"
  shows "yields (copy_loop E B (int (cluster_bytes f)) sz (cs ! 0) buf w) (\<lambda>(r, w'). r = SDMMC_OK \<and>
    runs B (area B 512 \<union> area buf (length cs * cluster_bytes f)) w w' \<and>
    g_fat_sector w' = (if 1 < length cs then table_sector f (cs ! (length cs - 2)) else g_fat_sector w) \<and>
    bytes_at (mem w') (unat buf) (length cs * cluster_bytes f) = concat (map (cluster_data disk f) cs))"
  using cs sz w small D
proof (induction "length cs" arbitrary: cs sz w buf rule: less_induct)
  case less
  let ?cb = "cluster_bytes f" and ?k = "length cs"
  have k: "0 < ?k" using less.prems(3) by simp
  have pos: "0 < sz" using less.prems(4) by (meson le_less_trans of_nat_0_le_iff)
  have con: "yields (consolidate E B (int ?cb) sz (int ?cb) (cs ! 0) w) (\<lambda>((txf, nx), w').
    \<exists>q. 1 \<le> q \<and> q \<le> ?k \<and> txf = int (q * ?cb) \<and> contiguous cs q \<and> (q < ?k \<longrightarrow> nx = cs ! q) \<and>
      g_fat_sector w' = (if q < ?k then table_sector f (cs ! (q - 1)) else if 1 < ?k then table_sector f (cs ! (?k - 2)) else g_fat_sector w) \<and>
      runs B (area B 512) w w')"
    using consolidate_run [OF B less.prems(1,2) V less.prems(4-8), of 1] k
    by (auto simp: contiguous_def Suc_le_eq elim!: yields_mono)
  from con obtain nx w1 q where c: "consolidate E B (int ?cb) sz (int ?cb) (cs ! 0) w = Some ((int (q * ?cb), nx), w1)"
    and q: "0 < q" "q \<le> ?k" "contiguous cs q" and nx: "q < ?k \<longrightarrow> nx = cs ! q"
    and g1: "g_fat_sector w1 = (if q < ?k then table_sector f (cs ! (q - 1)) else if 1 < ?k then table_sector f (cs ! (?k - 2)) else g_fat_sector w)"
    and r1: "runs B (area B 512) w w1"
    by (auto simp: yields_def Suc_le_eq)
  have w1: "good w1" "cached B disk w1" "fs_info w1 = f" using r1 less.prems(8) by (simp_all add: runs_def)
  have le: "q * ?cb \<le> ?k * ?cb" using q by simp
  have sm: "q * unat (cluster_size f) < 2 ^ 16" using mult_right_mono [OF q(2), of "unat (cluster_size f)"] less.prems(9) by linarith
  have Dq: "area buf (q * ?cb) \<inter> area B 512 = {}" by (rule disj_sub [OF less.prems(11) area_mono [OF le] subset_refl])
  let ?data = "concat (map (cluster_data disk f) (take q cs))" and ?rest = "concat (map (cluster_data disk f) (drop q cs))"
  have len: "length ?data = q * ?cb" using length_clusters [of disk f "take q cs", OF disk_length] q(2) by simp
  from cluster_read [OF w1 V less.prems(2) q sm Dq] obtain w2 where
    c2: "read_fsector E (cluster2fsector f (cs ! 0)) buf (of_int (int (q * ?cb) div 512)) w1 = Some (SDMMC_OK, w2)"
    and r2: "runs B (area buf (q * ?cb)) w1 w2" and g2: "g_fat_sector w2 = g_fat_sector w1" and m2: "mem w2 = put_bytes (unat buf) ?data (mem w1)" by (auto simp: yields_def)
  have step: "copy_loop E B (int ?cb) sz (cs ! 0) buf w = copy_loop E B (int ?cb) (sz - int (q * ?cb)) nx (buf + of_int (int (q * ?cb))) w2"
    by (subst copy_loop.simps) (simp only: pos if_True c bind.bind_lunit prod.case w1(3) c2 simp_thms if_False)
  have r12: "runs B (area B 512 \<union> area buf (?k * ?cb)) w w2" by (rule runs_trans [OF r1 r2 Un_upper1 subset_trans [OF area_mono [OF le] Un_upper2]])
  have b2: "bytes_at (mem w2) (unat buf) (q * ?cb) = ?data" unfolding m2 using bytes_at_put [of "unat buf" ?data "mem w1"] unfolding len .
  show ?case
  proof (cases "q = ?k")
    case True
    have "\<not> sz - int (q * ?cb) > 0" using less.prems(5) True by simp
    then show ?thesis unfolding step using r12 b2 g1 g2 True by (subst copy_loop.simps) simp
  next
    case False
    then have qk: "q < ?k" using q(2) by simp
    have w2: "good w2" "cached B disk w2" "fs_info w2 = f" using r2 w1(3) by (simp_all add: runs_def)
    have kk: "q * ?cb + (?k - q) * ?cb = ?k * ?cb" using q(2) by (simp flip: add_mult_distrib)
    have cbpos: "0 < (?k - q) * ?cb" using qk V by (simp add: volume_ok_def word_less_nat_alt)
    have ub: "unat (buf + of_int (int (q * ?cb))) = unat buf + q * ?cb"
      unfolding of_int_of_nat_eq by (rule unat_plus) (use kk cbpos less.prems(10) in linarith)
    have IH: "yields (copy_loop E B (int ?cb) (sz - int (q * ?cb)) (drop q cs ! 0) (buf + of_int (int (q * ?cb))) w2) (\<lambda>(r, w'). r = SDMMC_OK \<and>
      runs B (area B 512 \<union> area (buf + of_int (int (q * ?cb))) (length (drop q cs) * ?cb)) w2 w' \<and>
      g_fat_sector w' = (if 1 < length (drop q cs) then table_sector f (drop q cs ! (length (drop q cs) - 2)) else g_fat_sector w2) \<and>
      bytes_at (mem w') (unat (buf + of_int (int (q * ?cb)))) (length (drop q cs) * ?cb) = ?rest)"
    proof (rule less.hyps)
      show "length (drop q cs) < ?k" using q(1) k by simp
      show "chain disk f (drop q cs)" by (rule chain_drop [OF less.prems(1)])
      show "\<forall>c \<in> set (drop q cs). cluster_ok cap f c" using less.prems(2) set_drop_subset [of q cs] by blast
      show "drop q cs \<noteq> []" using qk by simp
      show "int ((length (drop q cs) - 1) * ?cb) < sz - int (q * ?cb)" "sz - int (q * ?cb) \<le> int (length (drop q cs) * ?cb)"
        unfolding length_drop using ceil_step [OF less.prems(4,5) qk] .
      show "length (drop q cs) * unat (cluster_size f) < 2 ^ 16"
      proof -
        have "(?k - q) * unat (cluster_size f) \<le> ?k * unat (cluster_size f)" by (rule mult_right_mono) simp_all
        then show ?thesis unfolding length_drop using less.prems(9) by linarith
      qed
      show "unat (buf + of_int (int (q * ?cb))) + length (drop q cs) * ?cb \<le> 2 ^ 32" using kk less.prems(10) unfolding ub by simp
      show "area (buf + of_int (int (q * ?cb))) (length (drop q cs) * ?cb) \<inter> area B 512 = {}"
        unfolding ub by (rule disj_sub [OF less.prems(11) area_sub subset_refl]) (use kk in simp)
    qed (use w2 in simp_all)
    have nx': "nx = drop q cs ! 0" using nx qk by simp
    show ?thesis unfolding step nx'
    proof (rule yields_mono2 [OF IH], elim conjE)
      fix r w' assume a: "r = SDMMC_OK" "runs B (area B 512 \<union> area (buf + of_int (int (q * ?cb))) (length (drop q cs) * ?cb)) w2 w'"
        "g_fat_sector w' = (if 1 < length (drop q cs) then table_sector f (drop q cs ! (length (drop q cs) - 2)) else g_fat_sector w2)"
        "bytes_at (mem w') (unat (buf + of_int (int (q * ?cb)))) (length (drop q cs) * ?cb) = ?rest"
      have "runs B (area B 512 \<union> area buf (?k * ?cb)) w w'" 
      proof (rule runs_trans [OF r12 a(2) subset_refl])
        show "area B 512 \<union> area (buf + of_int (int (q * ?cb))) (length (drop q cs) * ?cb) \<subseteq> area B 512 \<union> area buf (?k * ?cb)"
          unfolding ub by (rule Un_mono [OF subset_refl area_sub]) (use kk in simp)
      qed
      moreover have "bytes_at (mem w') (unat buf) (q * ?cb) = ?data"
      proof -
        have "area buf (q * ?cb) \<inter> (area B 512 \<union> area (buf + of_int (int (q * ?cb))) (length (drop q cs) * ?cb)) = {}"
          unfolding ub Int_Un_distrib Dq area_adjacent by simp
        moreover have "frame (area B 512 \<union> area (buf + of_int (int (q * ?cb))) (length (drop q cs) * ?cb)) (mem w2) (mem w')"
          using a(2) by (simp add: runs_def)
        ultimately show ?thesis unfolding b2 [symmetric] by (rule frame_bytes [rotated])
      qed
      moreover have "g_fat_sector w' = (if 1 < ?k then table_sector f (cs ! (?k - 2)) else g_fat_sector w)"
      proof (cases "1 < ?k - q")
        case True
        moreover from this have "1 < ?k" by linarith
        ultimately show ?thesis using a(3) by simp
      next
        case False
        then have "q - 1 = ?k - 2" "1 < ?k" using qk q(1) by simp_all
        then show ?thesis using a(3) False g1 g2 qk by simp
      qed
      moreover have "?data @ ?rest = concat (map (cluster_data disk f) cs)" by (simp flip: concat_append map_append)
      ultimately show "case (r, w') of (r, w') \<Rightarrow> r = SDMMC_OK \<and> runs B (area B 512 \<union> area buf (?k * ?cb)) w w' \<and>
          g_fat_sector w' = (if 1 < ?k then table_sector f (cs ! (?k - 2)) else g_fat_sector w) \<and>
          bytes_at (mem w') (unat buf) (?k * ?cb) = concat (map (cluster_data disk f) cs)"
        using a(1,4) bytes_at_append [of "mem w'" "unat buf" "q * ?cb" "(?k - q) * ?cb"] kk ub by simp
    qed
  qed
qed

end

lemma sint_unat: "unat x < 2 ^ 31 \<Longrightarrow> sint x = int (unat x)" for x :: u32
proof -
  assume "unat x < 2 ^ 31"
  then have "unat x < 2147483648" by simp
  moreover have "uint x = int (unat x)" by simp
  ultimately have "uint x < 2147483648" by linarith
  then have "uint x < 2 ^ 31" by simp
  then have "signed_take_bit 31 (uint x) = uint x" by (intro signed_take_bit_int_eq_self) (auto intro: order_trans [of _ 0])
  then show ?thesis by (simp add: sint_uint)
qed

definition file_ok :: "nat \<Rightarrow> (nat \<Rightarrow> u8 list) \<Rightarrow> fs_info_t \<Rightarrow> u32 list \<Rightarrow> u32 \<Rightarrow> bool" where
  \<comment> \<open>a file of less than 32 MB with its clusters, which are as many as it needs\<close>
  "file_ok cap disk f cs sz \<longleftrightarrow> cs \<noteq> [] \<and> chain disk f cs \<and> (\<forall>c \<in> set cs. cluster_ok cap f c) \<and>
     (length cs - 1) * cluster_bytes f < unat sz \<and> unat sz \<le> length cs * cluster_bytes f \<and> length cs * unat (cluster_size f) < 2 ^ 16"

definition file_data :: "(nat \<Rightarrow> u8 list) \<Rightarrow> fs_info_t \<Rightarrow> u32 list \<Rightarrow> u32 \<Rightarrow> u8 list" where
  "file_data disk f cs sz = take (unat sz) (concat (map (cluster_data disk f) cs))"

definition room_ok :: "u32 \<Rightarrow> u32 \<Rightarrow> nat \<Rightarrow> bool" where
  \<comment> \<open>room for the clusters of the file at \<open>buf\<close>, apart from the buffer for sectors\<close>
  "room_ok B buf n \<longleftrightarrow> unat B + 1024 \<le> 2 ^ 32 \<and> unat buf + n \<le> 2 ^ 32 \<and> area buf n \<inter> area B 1024 = {}"

lemma bytes_at_take: "n \<le> k \<Longrightarrow> bytes_at m a n = take n (bytes_at m a k)"
  by (simp add: bytes_at_def take_map)

context block_device
begin

lemma copy_file_run:
  assumes V: "volume_ok cap (fs_info w)" and F: "file_ok cap disk (fs_info w) cs sz" and w: "good w"
    and D: "room_ok B buf (length cs * cluster_bytes (fs_info w))"
  shows "yields (fat_copy_file E B (cs ! 0) sz buf w) (\<lambda>(r, w'). r = SDMMC_OK \<and> good w' \<and> fs_info w' = fs_info w \<and> blk w' = blk w \<and>
    cache_valid w' \<and> g_fat_sector w' = (if 1 < length cs then table_sector (fs_info w) (cs ! (length cs - 2)) else - 1) \<and>
    frame (area B 512 \<union> area buf (length cs * cluster_bytes (fs_info w))) (mem w) (mem w') \<and>
    bytes_at (mem w') (unat buf) (unat sz) = file_data disk (fs_info w) cs sz)"
proof -
  let ?f = "fs_info w" and ?w = "w\<lparr>cache_valid := True, g_fat_sector := - 1\<rparr>"
  note F = F [unfolded file_ok_def] and D = D [unfolded room_ok_def]
  have "unat (cluster_size ?f) < 2 ^ 8" using V by (simp add: volume_ok_def word_less_nat_alt)
  then have "unat (cluster_size ?f * SECTOR_SIZE) = cluster_bytes ?f" by (simp add: SECTOR_SIZE_def unat_word_ariths mult.commute)
  moreover from this have "unat (cluster_size ?f * SECTOR_SIZE) < 2 ^ 31" using \<open>unat (cluster_size ?f) < 2 ^ 8\<close> by simp
  ultimately have cb: "sint (cluster_size ?f * SECTOR_SIZE) = int (cluster_bytes ?f)" by (simp add: sint_unat)
  have "length cs * cluster_bytes ?f < 2 ^ 31" using F by simp
  then have sz: "sint sz = int (unat sz)" using F by (intro sint_unat) linarith
  have g: "good ?w" "cached B disk ?w" "fs_info ?w = ?f" using good_vars w by (simp_all add: cached_def)
  have D': "area buf (length cs * cluster_bytes ?f) \<inter> area B 512 = {}" by (rule disj_sub [of _ "area B 1024", OF _ subset_refl area_mono]) (use D in simp_all)
  have "yields (copy_loop E B (int (cluster_bytes ?f)) (int (unat sz)) (cs ! 0) buf ?w) (\<lambda>(r, w'). r = SDMMC_OK \<and>
    runs B (area B 512 \<union> area buf (length cs * cluster_bytes ?f)) ?w w' \<and>
    g_fat_sector w' = (if 1 < length cs then table_sector ?f (cs ! (length cs - 2)) else g_fat_sector ?w) \<and>
    bytes_at (mem w') (unat buf) (length cs * cluster_bytes ?f) = concat (map (cluster_data disk ?f) cs))"
  proof (rule copy_run [OF _ V])
    show "int ((length cs - 1) * cluster_bytes ?f) < int (unat sz)" "int (unat sz) \<le> int (length cs * cluster_bytes ?f)"
      using F by (simp_all only: of_nat_less_iff of_nat_le_iff)
  qed (use F D D' g in auto)
  moreover have "bytes_at m (unat buf) (unat sz) = take (unat sz) (bytes_at m (unat buf) (length cs * cluster_bytes ?f))" for m
    using F by (intro bytes_at_take) simp
  ultimately show ?thesis unfolding fat_copy_file_def Let_def
    by (auto simp: cb sz runs_def file_data_def elim!: yields_mono2)
qed

end

subsection \<open>The root directory\<close>

definition dir_entries :: "u8 list \<Rightarrow> u8 list list" where
  "dir_entries s = map (\<lambda>i. take 32 (drop (32 * i) s)) [0..<16]"

definition word16 :: "u8 list \<Rightarrow> nat \<Rightarrow> u16" where
  "word16 s i = ucast (s ! i) OR push_bit 8 (ucast (s ! (i + 1)))"

definition ent_cluster :: "u8 list \<Rightarrow> u32" where
  "ent_cluster e = ucast (word16 e 26) OR push_bit 16 (ucast (word16 e 20))"

definition ent_matches :: "u8 list \<Rightarrow> u8 list \<Rightarrow> bool" where
  \<comment> \<open>in use, with a cluster, and its name begins with the name that is looked for\<close>
  "ent_matches name e \<longleftrightarrow> e ! 0 \<noteq> ENT_UNUSED \<and> ent_cluster e \<noteq> 0 \<and> take (min (length name) 11) e = take 11 name"

primrec dir_lookup :: "u8 list \<Rightarrow> u8 list list \<Rightarrow> dir_search" where
  "dir_lookup name [] = Dir_more"
| "dir_lookup name (e # es) =
     (if e ! 0 = ENT_END then Dir_end
      else if ent_matches name e then Dir_found (ent_cluster e) (le32 (take 4 (drop 28 e)))
      else dir_lookup name es)"

primrec dir_scan :: "u8 list \<Rightarrow> u8 list list \<Rightarrow> dir_search" where
  \<comment> \<open>the sectors of a cluster\<close>
  "dir_scan name [] = Dir_more"
| "dir_scan name (s # ss) = (case dir_lookup name (dir_entries s) of Dir_more \<Rightarrow> dir_scan name ss | d \<Rightarrow> d)"

lemma dir_entries_simps:
  "length (dir_entries s) = 16" "i < 16 \<Longrightarrow> dir_entries s ! i = take 32 (drop (32 * i) s)"
  by (simp_all add: dir_entries_def del: upt_Suc)

lemma entry_bytes_eq:
  assumes e: "e = bytes_at m (unat a) 32" and a: "unat a + 32 \<le> 2 ^ 32"
  shows "m (unat a) = e ! 0" "dir_cluster m a = ent_cluster e" "name_matches name m a \<longleftrightarrow> take (min (length name) 11) e = take 11 name"
    "ld32 m (a + 28) = le32 (take 4 (drop 28 e))"
proof -
  have n: "e ! i = m (unat a + i)" if "i < 32" for i using that by (simp add: e bytes_at_nth)
  have u: "unat (a + of_nat i) = unat a + i" if "i < 32" for i using that a by (intro unat_plus) simp
  show "m (unat a) = e ! 0" using n [of 0] by simp
  have "unat (a + 20) = unat a + 20" "unat (a + 26) = unat a + 26" using u [of 20] u [of 26] by simp_all
  then show "dir_cluster m a = ent_cluster e"
    using n [of 20] n [of 21] n [of 26] n [of 27]
    by (simp add: dir_cluster_def ent_cluster_def ld16_def word16_def add.commute [of 21] add.commute [of 27])
  show "name_matches name m a \<longleftrightarrow> take (min (length name) 11) e = take 11 name"
  proof -
    let ?k = "min (length name) 11"
    have "name_matches name m a \<longleftrightarrow> (\<forall>i < ?k. name ! i = e ! i)"
      unfolding name_matches_def using n u by (auto simp: min_def)
    also have "\<dots> \<longleftrightarrow> take ?k e = take 11 name"
      by (auto simp: list_eq_iff_nth_eq e)
    finally show ?thesis .
  qed
  show "ld32 m (a + 28) = le32 (take 4 (drop 28 e))" using u [of 28] bytes_at_slice [of 28 4 32 m "unat a"] by (simp add: ld32_def e)
qed

lemma dir_sector_lookup:
  assumes s: "s = bytes_at m (unat B) 512" and B: "unat B + 512 \<le> 2 ^ 32" and n: "n \<le> 16"
  shows "dir_sector_search True name m n (B + of_nat (32 * (16 - n))) = dir_lookup name (drop (16 - n) (dir_entries s))"
  using n
proof (induction n)
  case (Suc n)
  let ?i = "16 - Suc n" and ?a = "B + of_nat (32 * (16 - Suc n))"
  have ua: "unat ?a = unat B + 32 * ?i" using B by (intro unat_plus) linarith
  have en: "dir_entries s ! ?i = bytes_at m (unat ?a) 32"
    using Suc.prems unfolding ua by (simp add: dir_entries_simps s) (subst bytes_at_slice [of _ _ 512], simp_all)
  have d: "drop ?i (dir_entries s) = dir_entries s ! ?i # drop (16 - n) (dir_entries s)"
  proof -
    have "Suc ?i = 16 - n" using Suc.prems by simp
    then show ?thesis using Suc.prems Cons_nth_drop_Suc [of ?i "dir_entries s"] by (simp only: dir_entries_simps)
  qed
  have nx: "?a + 32 = B + of_nat (32 * (16 - n))"
  proof -
    have "32 * (16 - n) = 32 * ?i + 32" using Suc.prems by simp
    then show ?thesis by (simp only: of_nat_add) simp
  qed
  have a: "unat ?a + 32 \<le> 2 ^ 32" unfolding ua using B Suc.prems by simp
  show ?case using Suc.IH Suc.prems entry_bytes_eq [OF en a] unfolding d
    by (simp only: dir_sector_search.simps dir_lookup.simps nx Let_def if_True) (auto simp: ent_matches_def)
qed (simp add: dir_entries_simps)

definition root_found :: "u8 list \<Rightarrow> (nat \<Rightarrow> u8 list) \<Rightarrow> fs_info_t \<Rightarrow> u32 list \<Rightarrow> u32 \<Rightarrow> u32 \<Rightarrow> bool" where
  \<comment> \<open>the file is in the last of the clusters \<open>rs\<close> of the root directory, and in none before\<close>
  "root_found name disk f rs c sz \<longleftrightarrow> rs \<noteq> [] \<and> rs ! 0 = root_dir_start f \<and> chain disk f rs \<and>
     (\<forall>i. Suc i < length rs \<longrightarrow> dir_scan name (map disk [cluster_sector f (rs ! i)..<cluster_sector f (rs ! i) + unat (cluster_size f)]) \<in> {Dir_end, Dir_more}) \<and>
     dir_scan name (map disk [cluster_sector f (last rs)..<cluster_sector f (last rs) + unat (cluster_size f)]) = Dir_found c sz"

lemma same_vars_trans: "same_vars w w' \<Longrightarrow> same_vars w' w'' \<Longrightarrow> same_vars w w''"
  by (simp add: same_vars_def)

abbreviation dir_cluster_scan :: "u8 list \<Rightarrow> (nat \<Rightarrow> u8 list) \<Rightarrow> fs_info_t \<Rightarrow> u32 \<Rightarrow> dir_search" where
  "dir_cluster_scan name disk f c \<equiv> dir_scan name (map disk [cluster_sector f c..<cluster_sector f c + unat (cluster_size f)])"

lemma cluster_fsector:
  assumes "cluster_ok cap f c" "volume_ok cap f"
  shows "unat (cluster2fsector f c + fs_offset f) = cluster_sector f c"
    "unat (cluster2fsector f c) = unat (cluster2_start f) + (unat c - 2) * unat (cluster_size f)"
proof -
  have cap: "cluster_sector f c < cap" "cap < 2 ^ 32" using assms by (auto simp: cluster_ok_def volume_ok_def word_less_nat_alt)
  have u2: "unat (c - 2) = unat c - 2" using assms(1) by (subst unat_sub) (simp_all add: word_le_nat_alt cluster_ok_def)
  have um: "unat ((c - 2) * cluster_size f) = (unat c - 2) * unat (cluster_size f)"
    using cap by (simp add: unat_word_ariths u2 cluster_sector_def)
  show uc: "unat (cluster2fsector f c) = unat (cluster2_start f) + (unat c - 2) * unat (cluster_size f)"
    using cap unfolding cluster2fsector_def by (subst unat_plus_w) (simp_all add: um cluster_sector_def)
  show "unat (cluster2fsector f c + fs_offset f) = cluster_sector f c"
    using cap by (subst unat_plus_w) (simp_all add: uc cluster_sector_def)
qed

context block_device
begin

lemma cluster_search_run:
  assumes B: "unat B + 512 \<le> 2 ^ 32" and w: "good w" "blk w = B" and s: "unat sector + unat (fs_offset (fs_info w)) + n \<le> cap" "cap < 2 ^ 32"
  shows "yields (cluster_search E name n sector w) (\<lambda>((r, d), w'). r = SDMMC_OK \<and>
    d = dir_scan name (map disk [unat sector + unat (fs_offset (fs_info w))..<unat sector + unat (fs_offset (fs_info w)) + n]) \<and>
    good w' \<and> same_vars w w' \<and> frame (area B 512) (mem w) (mem w'))"
  using w s
proof (induction n arbitrary: sector w)
  case (Suc n)
  let ?s = "unat sector + unat (fs_offset (fs_info w))"
  have us: "unat (sector + fs_offset (fs_info w)) = ?s" using Suc.prems(3,4) by (intro unat_plus_w) linarith
  have "yields (read_sector E (sector + fs_offset (fs_info w)) (blk w) 1 w) (\<lambda>(r, w'). r = SDMMC_OK \<and> good w' \<and> same_vars w w' \<and>
      mem w' = put_bytes (unat (blk w)) (disk (unat (sector + fs_offset (fs_info w)))) (mem w))"
    by (rule read_one [OF Suc.prems(1)]) (use Suc.prems(3) us in simp)
  then obtain w1 where rd: "read_fsector E sector (blk w) 1 w = Some (SDMMC_OK, w1)" and g1: "good w1" "same_vars w w1"
    and m1: "mem w1 = put_bytes (unat B) (disk ?s) (mem w)" unfolding us by (auto simp: yields_def read_fsector_def Suc.prems(2))
  have fr: "frame (area B 512) (mem w) (mem w1)" unfolding m1 using frame_put [of "unat B" "disk ?s" "mem w"] by (simp add: disk_length)
  have bt: "disk ?s = bytes_at (mem w1) (unat B) 512" unfolding m1 using bytes_at_put [of "unat B" "disk ?s" "mem w"] by (simp add: disk_length)
  have b1: "blk w1 = B" and f1: "fs_info w1 = fs_info w" using g1(2) Suc.prems(2) by (simp_all add: same_vars_def)
  have look: "dir_sector_search True name (mem w1) 16 B = dir_lookup name (dir_entries (disk ?s))"
    using dir_sector_lookup [OF bt B, of 16] by simp
  have u: "[?s..<?s + Suc n] = ?s # [?s + 1..<?s + 1 + n]" by (simp add: upt_rec)
  show ?case
  proof (cases "dir_lookup name (dir_entries (disk ?s)) = Dir_more")
    case False
    then show ?thesis using rd g1 fr look b1 unfolding u
      by (cases "dir_lookup name (dir_entries (disk ?s))") (simp_all add: SDMMC_OK_def)
  next
    case True
    have step: "cluster_search E name (Suc n) sector w = cluster_search E name n (sector + 1) w1"
      using rd look b1 True by (simp add: SDMMC_OK_def)
    show ?thesis
    proof (cases n)
      case 0
      then show ?thesis unfolding step u using True g1 fr by simp
    next
      case (Suc n')
      have us1: "unat (sector + 1) = unat sector + 1" using Suc.prems(3,4) unat_plus [of sector 1] Suc by simp
      have "unat (sector + 1) + unat (fs_offset (fs_info w1)) + n \<le> cap" using Suc.prems(3) by (simp add: us1 f1)
      from Suc.IH [OF g1(1) b1 this Suc.prems(4)] show ?thesis unfolding step u us1 f1
        using True g1(2) by (elim yields_mono) (auto intro: same_vars_trans frame_trans [OF fr])
    qed
  qed
qed (simp add: same_vars_def)

end

lemma not_end: "volume_ok cap f \<Longrightarrow> cluster_ok cap f c \<Longrightarrow> \<not> end_of_file f c"
  by (auto simp: end_of_file_def volume_ok_def cluster_ok_def)

context block_device
begin

lemma root_cluster_run:
  assumes B: "unat B + 512 \<le> 2 ^ 32" and w: "good w" "blk w = B" and V: "volume_ok cap (fs_info w)" and c: "cluster_ok cap (fs_info w) c"
  shows "yields (cluster_search E name (unat (cluster_size (fs_info w))) (cluster2fsector (fs_info w) c) w) (\<lambda>((r, d), w'). r = SDMMC_OK \<and>
    d = dir_cluster_scan name disk (fs_info w) c \<and> good w' \<and> same_vars w w' \<and> frame (area B 512) (mem w) (mem w'))"
proof -
  have u: "unat (cluster2fsector (fs_info w) c) + unat (fs_offset (fs_info w)) = cluster_sector (fs_info w) c"
    unfolding cluster_fsector [OF c V] by (simp add: cluster_sector_def)
  show ?thesis using cluster_search_run [OF B w, of "cluster2fsector (fs_info w) c" "unat (cluster_size (fs_info w))" name] c V
    unfolding u by (simp add: cluster_ok_def volume_ok_def)
qed

lemma root_search_run:
  assumes B: "unat B + 512 \<le> 2 ^ 32" and w: "good w" "blk w = B" "fs_info w = f" "\<not> cache_valid w \<or> length rs = 1" and V: "volume_ok cap f"
    and rs: "rs \<noteq> []" "chain disk f rs" "\<forall>c \<in> set rs. cluster_ok cap f c"
      "\<forall>i. Suc i < length rs \<longrightarrow> dir_cluster_scan name disk f (rs ! i) \<in> {Dir_end, Dir_more}"
    and found: "dir_cluster_scan name disk f (last rs) = Dir_found c sz"
  shows "\<exists>w'. root_search32 E B buf name (rs ! 0) w = fat_copy_file E B c sz buf w' \<and> good w' \<and> fs_info w' = f \<and> blk w' = B \<and>
    frame (area B 512) (mem w) (mem w')"
  using w rs found
proof (induction rs arbitrary: w)
  case (Cons d rs)
  have cd: "cluster_ok cap f d" using Cons.prems by simp
  have V': "volume_ok cap (fs_info w)" and cd': "cluster_ok cap (fs_info w) d" using V cd Cons.prems(3) by simp_all
  from root_cluster_run [OF B Cons.prems(1,2) V' cd', of name] obtain w1 where
    s: "cluster_search E name (unat (cluster_size f)) (cluster2fsector f d) w = Some ((SDMMC_OK, dir_cluster_scan name disk f d), w1)"
    and g1: "good w1" "same_vars w w1" "frame (area B 512) (mem w) (mem w1)" unfolding Cons.prems(3) by (auto simp: yields_def)
  have v1: "blk w1 = B" "fs_info w1 = f" "cache_valid w1 = cache_valid w" using g1(2) Cons.prems(2,3) by (simp_all add: same_vars_def)
  note eof = not_end [OF V cd]
  show ?case
  proof (cases "rs = []")
    case True
    then have "root_search32 E B buf name d w = fat_copy_file E B c sz buf w1"
      using s eof Cons.prems(3,9) by (subst root_search32.simps) (simp add: SDMMC_OK_def)
    with g1 v1 show ?thesis by auto
  next
    case False
    then have nocache: "\<not> cache_valid w" using Cons.prems(4) by simp
    have ch: "fat32_entry disk f d = rs ! 0" "chain disk f rs"
      using Cons.prems(6) False chain_drop [of disk f "d # rs" 1] by (auto simp: chain_def dest: spec [of _ 0])
    have c1: "cached B disk w1" using nocache v1(3) by (simp add: cached_def)
    have V1: "volume_ok cap (fs_info w1)" and cd1: "cluster_ok cap (fs_info w1) d" using V cd v1(2) by simp_all
    from entry_runs [OF g1(1) c1 V1 cd1 B] obtain w2 where
      e: "fat_get_fat_entry E B d w1 = Some (rs ! 0, w2)" and r2: "runs B (area B 512) w1 w2" using ch(1) v1(2) by (auto simp: yields_def)
    have v2: "good w2" "blk w2 = B" "fs_info w2 = f" "\<not> cache_valid w2 \<or> length rs = 1" using r2 v1 nocache by (simp_all add: runs_def)
    have no: "dir_cluster_scan name disk f d \<in> {Dir_end, Dir_more}" using Cons.prems(8) [rule_format, of 0] False by simp
    have step: "root_search32 E B buf name d w = root_search32 E B buf name (rs ! 0) w2"
      using s eof no e Cons.prems(3) by (subst root_search32.simps) (auto simp: SDMMC_OK_def)
    have ok: "\<forall>c \<in> set rs. cluster_ok cap f c" using Cons.prems(7) by simp
    have nf: "\<forall>i. Suc i < length rs \<longrightarrow> dir_cluster_scan name disk f (rs ! i) \<in> {Dir_end, Dir_more}"
    proof (intro allI impI)
      fix i assume "Suc i < length rs"
      then show "dir_cluster_scan name disk f (rs ! i) \<in> {Dir_end, Dir_more}" using Cons.prems(8) [rule_format, of "Suc i"] by simp
    qed
    have lst: "dir_cluster_scan name disk f (last rs) = Dir_found c sz" using Cons.prems(9) False by simp
    from Cons.IH [OF v2 False ch(2) ok nf lst] obtain w3 where
      "root_search32 E B buf name (rs ! 0) w2 = fat_copy_file E B c sz buf w3" "good w3" "fs_info w3 = f" "blk w3 = B" "frame (area B 512) (mem w2) (mem w3)" by blast
    moreover have "frame (area B 512) (mem w1) (mem w2)" using r2 by (simp add: runs_def)
    ultimately have "frame (area B 512) (mem w) (mem w3)" using g1(3) by (meson frame_trans subset_refl)
    with step show ?thesis using \<open>root_search32 E B buf name (rs ! 0) w2 = fat_copy_file E B c sz buf w3\<close> \<open>good w3\<close> \<open>fs_info w3 = f\<close> \<open>blk w3 = B\<close> by auto
  qed
qed simp

lemma named_file_run:
  assumes R: "root_found name disk (fs_info w) rs c sz" "\<forall>d \<in> set rs. cluster_ok cap (fs_info w) d"
    and V: "volume_ok cap (fs_info w)" and F: "file_ok cap disk (fs_info w) cs sz" "cs ! 0 = c"
    and w: "good w" "blk w = B" "\<not> cache_valid w \<or> length rs = 1"
    and D: "room_ok B buf (length cs * cluster_bytes (fs_info w))"
  shows "yields (fat_copy_named_file E B buf name w) (\<lambda>(r, w'). r = SDMMC_OK \<and> good w' \<and> fs_info w' = fs_info w \<and> blk w' = B \<and>
    frame (area B 512 \<union> area buf (length cs * cluster_bytes (fs_info w))) (mem w) (mem w') \<and>
    bytes_at (mem w') (unat buf) (unat sz) = file_data disk (fs_info w) cs sz)"
proof -
  note R' = R(1) [unfolded root_found_def]
  have B: "unat B + 512 \<le> 2 ^ 32" using D by (simp add: room_ok_def)
  have "\<exists>w'. root_search32 E B buf name (rs ! 0) w = fat_copy_file E B c sz buf w' \<and> good w' \<and> fs_info w' = fs_info w \<and> blk w' = B \<and>
    frame (area B 512) (mem w) (mem w')"
    by (rule root_search_run [OF B w(1,2) refl w(3) V]) (use R' R(2) in auto)
  then obtain w1 where w1: "root_search32 E B buf name (rs ! 0) w = fat_copy_file E B c sz buf w1" "good w1" "fs_info w1 = fs_info w" "blk w1 = B"
    "frame (area B 512) (mem w) (mem w1)" by blast
  have "yields (fat_copy_file E B c sz buf w1) (\<lambda>(r, w'). r = SDMMC_OK \<and> good w' \<and> fs_info w' = fs_info w1 \<and> blk w' = blk w1 \<and>
    frame (area B 512 \<union> area buf (length cs * cluster_bytes (fs_info w1))) (mem w1) (mem w') \<and>
    bytes_at (mem w') (unat buf) (unat sz) = file_data disk (fs_info w1) cs sz)"
    by (rule yields_mono2 [OF copy_file_run [of w1 cs sz B buf, unfolded F(2)]]) (use V F w1 D in auto)
  then obtain w2 where w2: "fat_copy_file E B c sz buf w1 = Some (SDMMC_OK, w2)" "good w2" "fs_info w2 = fs_info w" "blk w2 = B"
    "frame (area B 512 \<union> area buf (length cs * cluster_bytes (fs_info w))) (mem w1) (mem w2)"
    "bytes_at (mem w2) (unat buf) (unat sz) = file_data disk (fs_info w) cs sz" by (auto simp: yields_def w1(3,4))
  have "frame (area B 512 \<union> area buf (length cs * cluster_bytes (fs_info w))) (mem w) (mem w2)" by (rule frame_trans [OF w1(5) w2(5)]) auto
  moreover have "copy_named_file_fat32 E B buf name w = Some (SDMMC_OK, w2)" using R' w1(1) w2(1) by (simp add: copy_named_file_fat32_def)
  ultimately show ?thesis using w2(2-) V by (simp add: fat_copy_named_file_def volume_ok_def)
qed

end

end
