(* ===== verification/Ipl_Volume.thy ===== *)
theory Ipl_Volume
  imports Ipl_Files
begin

section \<open>The initial program loader: volumes\<close>

text \<open>
  The boot record and the parameter block of a volume (\<open>fat32_bpb\<close>), what \<open>fat_detect_type\<close> computes from them
  (\<open>detect_run\<close>) and that \<open>fat_read_mbr\<close> finds the volume (\<open>read_mbr_run\<close>). The locale \<open>sd_volume\<close> extends \<open>usdhc\<close>
  by a set of cards with the same blocks; it yields a \<open>block_device\<close>, so that the lemmas on files hold for the card
  (\<open>load_run\<close>).
\<close>

subsection \<open>The partition\<close>

abbreviation word32 :: "u8 list \<Rightarrow> nat \<Rightarrow> u32" where
  "word32 s i \<equiv> le32 (take 4 (drop i s))"

lemma u8_bit: "8 \<le> n \<Longrightarrow> \<not> bit (x :: u8) n"
  using bit_imp_le_length [of x n] by auto

lemma shift_no_overlap: "(ucast (x :: u8) :: u32) AND push_bit 8 y = 0"
  by (rule bit_eqI) (auto simp: bit_simps u8_bit)

lemma byte_sum: "ucast (a :: u8) + push_bit 8 (ucast (b :: u8)) = (ucast a OR push_bit 8 (ucast b) :: u32)"
  by (rule disjunctive_add_eq_or) (rule shift_no_overlap)

lemma ucast_word16: "ucast (ucast (a :: u8) OR push_bit 8 (ucast (b :: u8)) :: u16) = (ucast a OR push_bit 8 (ucast b) :: u32)"
  by (rule bit_eqI) (auto simp: bit_simps u8_bit dest: bit_imp_le_length)

lemma long_sum:
  "ucast (a :: u8) + push_bit 8 (ucast (b :: u8)) + push_bit 16 (ucast (c :: u8)) + push_bit 24 (ucast (d :: u8)) =
   (ucast a OR push_bit 8 (ucast b) OR push_bit 16 (ucast c) OR push_bit 24 (ucast d) :: u32)"
proof -
  have "(ucast a OR push_bit 8 (ucast b) :: u32) + push_bit 16 (ucast c) = (ucast a OR push_bit 8 (ucast b)) OR push_bit 16 (ucast c)"
    by (rule disjunctive_add_eq_or, rule bit_eqI) (auto simp: bit_simps u8_bit)
  moreover have "((ucast a OR push_bit 8 (ucast b)) OR push_bit 16 (ucast c) :: u32) + push_bit 24 (ucast d) =
      ((ucast a OR push_bit 8 (ucast b)) OR push_bit 16 (ucast c)) OR push_bit 24 (ucast d)"
    by (rule disjunctive_add_eq_or, rule bit_eqI) (auto simp: bit_simps u8_bit)
  ultimately show ?thesis by (simp add: byte_sum or.assoc)
qed

lemma get_bytes:
  assumes s: "bytes_at m (unat B) 512 = s" and B: "unat B + 512 \<le> 2 ^ 32"
  shows "i + 2 \<le> 512 \<Longrightarrow> GET_WORD m (B + of_nat i) = ucast (word16 s i)" "i + 4 \<le> 512 \<Longrightarrow> GET_LONG m (B + of_nat i) = word32 s i"
    "i < 512 \<Longrightarrow> m (unat (B + of_nat i)) = s ! i" "i + 2 \<le> 512 \<Longrightarrow> ld16 m (B + of_nat i) = word16 s i"
proof -
  have n: "m (unat (B + of_nat i)) = s ! i" if "i < 512" for i
  proof -
    have "unat (B + of_nat i) = unat B + i" using B that by (intro unat_plus) simp
    then show ?thesis using that by (simp add: s [symmetric] bytes_at_nth)
  qed
  have n1: "m (unat (B + of_nat i + 1)) = s ! (i + 1)" if "i + 1 < 512" for i using n [OF that] by (simp add: ac_simps)
  have n2: "m (unat (B + of_nat i + 2)) = s ! (i + 2)" if "i + 2 < 512" for i using n [OF that] by (simp add: ac_simps)
  have n3: "m (unat (B + of_nat i + 3)) = s ! (i + 3)" if "i + 3 < 512" for i using n [OF that] by (simp add: ac_simps)
  show "GET_WORD m (B + of_nat i) = ucast (word16 s i)" if "i + 2 \<le> 512"
    using that n [of i] n1 [of i] by (simp add: GET_WORD_def word16_def byte_sum ucast_word16)
  show "GET_LONG m (B + of_nat i) = word32 s i" if "i + 4 \<le> 512"
  proof -
    have "512 = length s" by (simp add: s [symmetric])
    then have "i + 4 \<le> length s" using that by simp
    then have "take 4 (drop i s) ! k = s ! (i + k)" if "k < 4" for k using that by simp
    from this [of 0] this [of 1] this [of 2] this [of 3] show ?thesis
      using that n [of i] n1 [of i] n2 [of i] n3 [of i] by (simp add: GET_LONG_def le32_def long_sum)
  qed
  show "m (unat (B + of_nat i)) = s ! i" if "i < 512" by (rule n [OF that])
  show "ld16 m (B + of_nat i) = word16 s i" if "i + 2 \<le> 512"
  proof -
    have "unat (B + of_nat i + 1) = unat (B + of_nat i) + 1"
      using unat_plus [of B i] unat_plus [of B "i + 1"] B that by (simp add: ac_simps)
    then show ?thesis using that n [of i] n1 [of i] by (simp add: ld16_def word16_def)
  qed
qed

lemma count_down_div: "0 \<le> a \<Longrightarrow> 0 < b \<Longrightarrow> count_down a b n = Some (n + of_int (a div b))"
proof (induction "nat a" arbitrary: a n rule: less_induct)
  case less
  show ?case
  proof (cases "a \<ge> b")
    case True
    then have "count_down (a - b) b (n + 1) = Some (n + 1 + of_int ((a - b) div b))" using less by (intro less.hyps) auto
    moreover have "(a - b) div b = a div b - 1" using less.prems div_add_self2 [of b "a - b"] by simp
    ultimately show ?thesis using True by (subst count_down.simps) simp
  next
    case False
    then show ?thesis using less.prems by (subst count_down.simps) (simp add: div_pos_pos_trivial)
  qed
qed

definition fat32_bpb :: "u8 list \<Rightarrow> bool" where
  \<comment> \<open>the first sector of a FAT32 volume with two tables\<close>
  "fat32_bpb s \<longleftrightarrow> word16 s 510 = 0xaa55 \<and> word16 s 11 = 512 \<and> word16 s 17 = 0 \<and> word16 s 19 = 0 \<and> word16 s 22 = 0 \<and> s ! 16 = 2 \<and>
     0 < unat (s ! 13) \<and> unat (word32 s 32) < 2 ^ 31 \<and> unat (word16 s 14) + 2 * unat (word32 s 36) \<le> unat (word32 s 32) \<and>
     65525 \<le> (unat (word32 s 32) - (unat (word16 s 14) + 2 * unat (word32 s 36))) div unat (s ! 13)"

definition fat32_info :: "u32 \<Rightarrow> u8 list \<Rightarrow> fs_info_t" where
  \<comment> \<open>what the sector says of the volume that starts at block \<open>off\<close>\<close>
  "fat32_info off s =
     \<lparr>fs_offset = off, fat_type = 32, total_sectors = word32 s 32, root_dir_sectors = 0, reserved_sectors = ucast (word16 s 14),
      data_sectors = word32 s 32 - (ucast (word16 s 14) + 2 * word32 s 36), fat_size = word32 s 36, number_of_fats = 2,
      cluster_size = ucast (s ! 13),
      count_of_clusters = of_nat ((unat (word32 s 32) - (unat (word16 s 14) + 2 * unat (word32 s 36))) div unat (s ! 13)),
      fat1_start = ucast (word16 s 14), fat2_start = ucast (word16 s 14) + word32 s 36, root_dir_start = word32 s 44, root_entry_count = 0,
      cluster2_start = ucast (word16 s 14) + 2 * word32 s 36\<rparr>"

lemma unat_ucast8: "unat (ucast (k :: u8) :: u32) = unat k"
proof -
  have "unat k < 2 ^ 8" by (rule order_less_le_trans [OF unsigned_less]) simp
  then show ?thesis by (simp add: unsigned_ucast_eq take_bit_nat_eq_self)
qed

lemma data_sectors_run:
  assumes "fat32_bpb s"
  shows "unat (word32 s 32 - (ucast (word16 s 14) + 2 * word32 s 36)) = unat (word32 s 32) - (unat (word16 s 14) + 2 * unat (word32 s 36))"
proof -
  note a = assms [unfolded fat32_bpb_def]
  have u2: "unat (2 * word32 s 36) = 2 * unat (word32 s 36)" using a by (simp add: unat_word_ariths)
  have "unat (ucast (word16 s 14) + 2 * word32 s 36) = unat (word16 s 14) + 2 * unat (word32 s 36)"
    using a by (subst unat_plus_w) (simp_all add: u2 unat_ucast16)
  then show ?thesis using a by (subst unat_sub) (simp_all add: word_le_nat_alt)
qed

lemma detect_run:
  assumes s: "fat32_bpb s" and b: "bytes_at m (unat B) 512 = s" and B: "unat B + 512 \<le> 2 ^ 32"
  shows "fat_detect_type B m f = Some (32, (fat32_info (fs_offset f) s)\<lparr>fat_type := fat_type f\<rparr>)"
proof -
  note a = s [unfolded fat32_bpb_def]
  note g = get_bytes [OF b B]
  let ?d = "unat (word32 s 32) - (unat (word16 s 14) + 2 * unat (word32 s 36))" and ?c = "unat (s ! 13)"
  have w: "GET_WORD m (B + 510) = 0xaa55" "GET_WORD m (B + 11) = 512" "GET_WORD m (B + 17) = 0" "GET_WORD m (B + 22) = 0" "GET_WORD m (B + 19) = 0"
    "GET_WORD m (B + 14) = ucast (word16 s 14)"
    using g(1) [of 510] g(1) [of 11] g(1) [of 17] g(1) [of 22] g(1) [of 19] g(1) [of 14] a by simp_all
  have l: "GET_LONG m (B + 36) = word32 s 36" "GET_LONG m (B + 32) = word32 s 32" "GET_LONG m (B + 44) = word32 s 44"
    using g(2) [of 36] g(2) [of 32] g(2) [of 44] by simp_all
  have y: "m (unat (B + 13)) = s ! 13" "m (unat (B + 16)) = 2" using g(3) [of 13] g(3) [of 16] a by simp_all
  have c1: "count_down 511 512 0 = Some 0" using count_down_div [of 511 512 0] by simp
  have c8: "?c < 2 ^ 8" by (rule order_less_le_trans [OF unsigned_less]) simp
  have c2: "count_down (sint (word32 s 32 - (ucast (word16 s 14) + 2 * word32 s 36))) (sint (ucast (s ! 13) :: u32)) 0 = Some (of_nat (?d div ?c))"
  proof -
    have "sint (ucast (s ! 13) :: u32) = int ?c" using c8 by (subst sint_unat) (simp_all add: unat_ucast8)
    moreover have "sint (word32 s 32 - (ucast (word16 s 14) + 2 * word32 s 36)) = int ?d"
    proof -
      have "?d < 2 ^ 31" using a by linarith
      then show ?thesis by (subst sint_unat) (simp_all only: data_sectors_run [OF s])
    qed
    moreover have "count_down (int ?d) (int ?c) 0 = Some (0 + of_int (int ?d div int ?c))" using a by (intro count_down_div of_nat_0_le_iff) (simp only: of_nat_0_less_iff)
    moreover have "int ?d div int ?c = int (?d div ?c)" by (simp only: zdiv_int)
    ultimately show ?thesis by (simp only: of_int_of_nat_eq add_0)
  qed
  have d31: "?d div ?c < 2 ^ 32"
  proof -
    have "unat (word32 s 32) < 2 ^ 31" using a by blast
    moreover have "?d \<le> unat (word32 s 32)" by (rule diff_le_self)
    ultimately have "?d div ?c < 2 ^ 31" using div_le_dividend [of ?d ?c] by (meson le_less_trans)
    then show ?thesis by simp
  qed
  have ct: "unat (of_nat (?d div ?c) :: u32) = ?d div ?c" using d31 by (subst unat_of_nat) simp
  have "\<not> (of_nat (?d div ?c) :: u32) < 4085" "\<not> (of_nat (?d div ?c) :: u32) < 65525"
    unfolding word_less_nat_alt ct using a by simp_all
  then show ?thesis unfolding fat_detect_type_def
    by (simp only: w l y c1 c2 Let_def fs_info_t.simps simp_thms if_False if_True bind.bind_lunit)
      (simp add: c1 c2 fat32_info_def)
qed

definition fat32_disk :: "nat \<Rightarrow> (nat \<Rightarrow> u8 list) \<Rightarrow> bool" where
  \<comment> \<open>a master boot record, and a FAT32 volume in its first partition\<close>
  "fat32_disk cap disk \<longleftrightarrow> word16 (disk 0) 510 = 0xaa55 \<and> word32 (disk 0) 458 \<noteq> 0 \<and> unat (word32 (disk 0) 454) < cap \<and> cap < 2 ^ 32 \<and>
     fat32_bpb (disk (unat (word32 (disk 0) 454)))"

definition disk_info :: "(nat \<Rightarrow> u8 list) \<Rightarrow> fs_info_t" where
  "disk_info disk = fat32_info (word32 (disk 0) 454) (disk (unat (word32 (disk 0) 454)))"

lemma disk_info_simps: "fat_type (disk_info disk) = 32" "root_dir_start (disk_info disk) = word32 (disk (unat (word32 (disk 0) 454))) 44"
  by (simp_all add: disk_info_def fat32_info_def)

lemma fat32_disk_volume: "fat32_disk cap disk \<Longrightarrow> volume_ok cap (disk_info disk)"
proof -
  assume a: "fat32_disk cap disk"
  have l: "unat (b :: u8) < 2 ^ 8" for b by (rule order_less_le_trans [OF unsigned_less]) simp
  show ?thesis using a l [of "disk (unat (word32 (disk 0) 454)) ! 13"]
    by (simp add: fat32_disk_def fat32_bpb_def volume_ok_def disk_info_def fat32_info_def word_less_nat_alt unat_ucast8)
qed

context block_device
begin

lemma read_mbr_run:
  assumes d: "fat32_disk cap disk" and w: "good w" and B: "unat B + 1024 \<le> 2 ^ 32"
  shows "yields (fat_read_mbr E B w) (\<lambda>(r, w'). r = SDMMC_OK \<and> good w' \<and> fs_info w' = disk_info disk \<and> blk w' = B \<and>
    cache_valid w' = cache_valid w \<and> frame (area B 1024) (mem w) (mem w'))"
proof -
  note a = d [unfolded fat32_disk_def]
  let ?o = "word32 (disk 0) 454" and ?w = "w\<lparr>blk := B\<rparr>"
  have g: "good ?w" using w good_vars by blast
  from read_one [OF g, of 0 B] a obtain w1 where r1: "read_sector E 0 B 1 ?w = Some (SDMMC_OK, w1)" and g1: "good w1" "same_vars ?w w1"
    and m1: "mem w1 = put_bytes (unat B) (disk 0) (mem w)" by (auto simp: yields_def)
  have b1: "bytes_at (mem w1) (unat B) 512 = disk 0" unfolding m1 using bytes_at_put [of "unat B" "disk 0" "mem w"] by (simp add: disk_length)
  have B1: "unat B + 512 \<le> 2 ^ 32" using B by simp
  note gb = get_bytes [OF b1 B1]
  have x: "ld16 (mem w1) (B + 510) = 0xaa55" "GET_LONG (mem w1) (B + 446 + 12) = word32 (disk 0) 458" "GET_LONG (mem w1) (B + 446 + 8) = ?o"
    using gb(4) [of 510] gb(2) [of 458] gb(2) [of 454] a by (simp_all add: add.assoc)
  let ?w1 = "w1\<lparr>fs_info := (fs_info w1)\<lparr>fs_offset := ?o\<rparr>\<rparr>"
  have g1': "good ?w1" using g1(1) good_vars by blast
  have uB: "unat (B + 512) = unat B + 512" using B by (intro unat_plus_num) simp
  from read_one [OF g1', of ?o "B + 512"] a obtain w2 where r2: "read_sector E ?o (B + 512) 1 ?w1 = Some (SDMMC_OK, w2)" and g2: "good w2" "same_vars ?w1 w2"
    and m2: "mem w2 = put_bytes (unat B + 512) (disk (unat ?o)) (mem w1)" by (auto simp: yields_def uB)
  have b2: "bytes_at (mem w2) (unat (B + 512)) 512 = disk (unat ?o)" unfolding m2 uB
    using bytes_at_put [of "unat B + 512" "disk (unat ?o)" "mem w1"] by (simp add: disk_length)
  have f2: "fs_offset (fs_info w2) = ?o" using g2(2) by (simp add: same_vars_def)
  have det: "fat_detect_type (B + 512) (mem w2) (fs_info w2) = Some (32, (disk_info disk)\<lparr>fat_type := fat_type (fs_info w2)\<rparr>)"
    using detect_run [OF _ b2, of "fs_info w2"] a B uB f2 by (simp add: disk_info_def)
  have fi: "(disk_info disk)\<lparr>fat_type := 32\<rparr> = disk_info disk" by (simp add: disk_info_def fat32_info_def)
  have fr: "frame (area B 1024) (mem w) (mem w2)"
  proof (rule frame_trans)
    show "frame (area B 512) (mem w) (mem w1)" unfolding m1 using frame_put [of "unat B" "disk 0" "mem w"] by (simp add: disk_length)
    show "frame {unat B + 512..<unat B + 512 + 512} (mem w1) (mem w2)" unfolding m2
      using frame_put [of "unat B + 512" "disk (unat ?o)" "mem w1"] by (simp add: disk_length)
  qed auto
  have v: "blk w2 = B" "cache_valid w2 = cache_valid w" using g1(2) g2(2) by (simp_all add: same_vars_def)
  have vb: "blk w1 = B" using g1(2) by (simp add: same_vars_def)
  have "fat_read_mbr E B w = Some (SDMMC_OK, w2\<lparr>fs_info := disk_info disk\<rparr>)"
    unfolding fat_read_mbr_def Let_def using x a r1 r2 det fi vb
    by (simp add: SECTOR_SIZE_def read_fsector_def SDMMC_OK_def)
  then show ?thesis using g2(1) good_vars(1) [OF g2(1)] v fr by simp
qed

end

subsection \<open>The card as a block device\<close>

lemma same_vars_more: "sd_world.more w' = sd_world.more w \<Longrightarrow> same_vars w w'" for w w' :: "'d fat_world"
  by (cases w; cases w') (simp add: same_vars_def)

locale sd_volume = usdhc E base idle view answer block capacity high_cap
  for E :: "'d sd_env" and base :: u32 and idle :: "'d \<Rightarrow> bool" and view :: "'d \<Rightarrow> 'c sd_view"
    and answer :: "nat \<Rightarrow> u32 \<Rightarrow> 'c \<Rightarrow> (nat \<Rightarrow> u32) option \<times> 'c"
    and block :: "'c \<Rightarrow> nat \<Rightarrow> u8 list" and capacity :: "'c \<Rightarrow> nat" and high_cap :: "'c \<Rightarrow> bool" +
  fixes T :: "'c set" and disk :: "nat \<Rightarrow> u8 list" and n :: u32
  assumes same_disk: "c \<in> T \<Longrightarrow> block c = disk" and high: "c \<in> T \<Longrightarrow> high_cap c" and fits: "c \<in> T \<Longrightarrow> unat n \<le> capacity c"
    and answers: "c \<in> T \<Longrightarrow> i \<in> {17, 18} \<Longrightarrow> \<exists>rs. answer i a c = (Some rs, c)"
    and nonempty: "T \<noteq> {}"
begin

definition ready :: "'d fat_world \<Rightarrow> bool" where
  "ready w \<longleftrightarrow> (\<exists>c \<in> T. sd w c w) \<and> cd_state (the_card w) = MMC_TRAN \<and> cd_type (the_card w) = eSDC_HC \<and> blk_num (the_card w) = n"

lemma sd_self: "sd w c w \<longleftrightarrow> sdmmc_pbase (sdmmc w) = base \<and> idle (ctl w) \<and> v_card (view (ctl w)) = c \<and>
    v_regs (view (ctl w)) MX6X_MMCINTRSTEN = ENABLED"
  by (auto simp: sd_def on_def)

lemma sd_to_self: "sd w0 c w \<Longrightarrow> sd w c w"
  by (auto simp: sd_def on_def)

lemma ready_read:
  assumes w: "ready w" and b: "unat b + unat k \<le> unat n" "0 < k" "k < 2 ^ 16"
  shows "yields (sdmmc_read E buf b k w) (\<lambda>(r, w'). r = SDMMC_OK \<and> ready w' \<and> same_vars w w' \<and>
    mem w' = put_bytes (unat buf) (on_disk disk (unat b) (unat k)) (mem w))"
proof -
  from w obtain c where c: "c \<in> T" "sd w c w" and k: "cd_state (the_card w) = MMC_TRAN" "cd_type (the_card w) = eSDC_HC" "blk_num (the_card w) = n"
    unfolding ready_def by blast
  have cr: "card_ready (the_card w) c" using k high [OF c(1)] fits [OF c(1)] answers [OF c(1)] by (simp add: card_ready_def)
  have "in_range (the_card w) b k" using b k(3) by (simp add: in_range_def word_less_nat_alt)
  from read_run [OF c(2) cr this b(2,3)] show ?thesis
  proof (rule yields_mono2, elim conjE)
    fix r w' assume a: "r = SDMMC_OK" "sd ((read_cmd buf b k w)\<lparr>mem := put_bytes (unat buf) (blocks c (unat b) (unat k)) (mem w)\<rparr>) c w'"
    have "the_card w' = the_card w" using sd_simps(1) [OF a(2)] by (simp add: read_cmd_simps)
    moreover have "sd_world.more w' = sd_world.more w" using a(2) by (auto simp: sd_def on_def read_cmd_def)
    moreover have "blocks c (unat b) (unat k) = on_disk disk (unat b) (unat k)" using same_disk [OF c(1)] by (simp add: blocks_def on_disk_def)
    ultimately show "case (r, w') of (r, w') \<Rightarrow> r = SDMMC_OK \<and> ready w' \<and> same_vars w w' \<and>
        mem w' = put_bytes (unat buf) (on_disk disk (unat b) (unat k)) (mem w)"
      using a(1) c(1) k sd_to_self [OF a(2)] sd_simps(2) [OF a(2)] by (auto simp: ready_def intro: same_vars_more)
  qed
qed

lemma disk_blocks: "length (disk k) = 512"
  using same_disk block_length nonempty by (metis ex_in_conv)

end

sublocale sd_volume \<subseteq> dev: block_device E ready disk "unat n"
  by unfold_locales (rule ready_read, assumption+, (simp add: ready_def sd_self)+, rule disk_blocks)

context sd_volume
begin

lemma load_run:
  assumes base: "base = MX6X_USDHC4_BASE" and w: "idle (ctl w)" "v_card (view (ctl w)) = c" and X: "sdhc_ok X" and t: "talk answer (sdhc_script X) c c'"
    and T: "c' \<in> T" "stays answer T" and n: "n = (sdhc_c_size X + 1) * 1024" and d: "fat32_disk (unat n) disk"
    and R: "root_found fn disk (disk_info disk) rs k sz" "\<forall>x \<in> set rs. cluster_ok (unat n) (disk_info disk) x"
    and F: "file_ok (unat n) disk (disk_info disk) cs sz" "cs ! 0 = k" and cache: "\<not> cache_valid w \<or> length rs = 1"
    and D: "room_ok B buf (length cs * cluster_bytes (disk_info disk))"
  shows "yields (sdmmc_load_file E B buf fn w) (\<lambda>(r, w'). r = SDMMC_OK \<and>
    frame (area B 1024 \<union> area buf (length cs * cluster_bytes (disk_info disk))) (mem w) (mem w') \<and>
    bytes_at (mem w') (unat buf) (unat sz) = file_data disk (disk_info disk) cs sz)"
proof -
  let ?w = "w\<lparr>sdmmc := (sdmmc w)\<lparr>sdmmc_pbase := MX6X_USDHC4_BASE\<rparr>\<rparr>"
  have on: "on ?w (view (ctl w)) ?w" unfolding on_def using w by (simp add: base)
  from init_ctrl_run [OF on] obtain w1 where i: "sdmmc_init_ctrl E ?w = Some (SDMMC_OK, w1)"
    and s1: "sd (?w\<lparr>sdmmc := (sdmmc ?w)\<lparr>icr := 0x000001aa, ocr := 0x00300000\<rparr>\<rparr>) c w1" using w(2) by (auto simp: yields_def)
  have m1: "mem w1 = mem w" "sd_world.more w1 = sd_world.more w" using s1 by (auto simp: sd_def on_def)
  have "yields (sdmmc_init_card E w1) (\<lambda>(r, w'). r = SDMMC_OK \<and> (\<exists>c \<in> T. \<exists>sp. knows (mem w) (sd_world.more w)
    \<lparr>cd_state = MMC_TRAN, cd_type = eSDC_HC, blk_size = 512, blk_num = (sdhc_c_size X + 1) * 1024, cd_speed = sp, rca = x_addr X\<rparr> c w'))"
    using init_card_run [OF T(2,1) X s1 _ _ t] by simp
  then obtain w2 c2 sp where i2: "sdmmc_init_card E w1 = Some (SDMMC_OK, w2)" and c2: "c2 \<in> T" and k2: "knows (mem w) (sd_world.more w)
    \<lparr>cd_state = MMC_TRAN, cd_type = eSDC_HC, blk_size = 512, blk_num = n, cd_speed = sp, rca = x_addr X\<rparr> c2 w2"
    by (auto simp: yields_def n)
  have r2: "ready w2" using k2 c2 has_sd [of w2 c2 w2] by (auto simp: knows_def ready_def)
  have m2: "mem w2 = mem w" and v2: "same_vars w w2" using k2 by (auto simp: knows_def intro: same_vars_more)
  have B: "unat B + 1024 \<le> 2 ^ 32" using D by (simp add: room_ok_def)
  from dev.read_mbr_run [OF d r2 B] obtain w3 where i3: "fat_read_mbr E B w2 = Some (SDMMC_OK, w3)" and r3: "ready w3" "fs_info w3 = disk_info disk"
    "blk w3 = B" "cache_valid w3 = cache_valid w" "frame (area B 1024) (mem w) (mem w3)" using v2 by (auto simp: yields_def m2 same_vars_def)
  have "yields (fat_copy_named_file E B buf fn w3) (\<lambda>(r, w'). r = SDMMC_OK \<and> ready w' \<and> fs_info w' = fs_info w3 \<and> blk w' = B \<and>
    frame (area B 512 \<union> area buf (length cs * cluster_bytes (fs_info w3))) (mem w3) (mem w') \<and>
    bytes_at (mem w') (unat buf) (unat sz) = file_data disk (fs_info w3) cs sz)"
    by (rule dev.named_file_run) (use R F D cache r3 fat32_disk_volume [OF d] in simp_all)
  then obtain w4 where i4: "fat_copy_named_file E B buf fn w3 = Some (SDMMC_OK, w4)" and r4: "ready w4"
    and f4: "frame (area B 512 \<union> area buf (length cs * cluster_bytes (disk_info disk))) (mem w3) (mem w4)"
      "bytes_at (mem w4) (unat buf) (unat sz) = file_data disk (disk_info disk) cs sz" unfolding r3(2) by (auto simp: yields_def)
  have on4: "on w4 (view (ctl w4)) w4" using r4 by (auto simp: ready_def sd_self on_def)
  from fini_run [OF on4] obtain w5 where i5: "sdmmc_fini E w4 = Some (0, w5)" and m5: "mem w5 = mem w4" by (auto simp: yields_def on_def)
  have fr: "frame (area B 1024 \<union> area buf (length cs * cluster_bytes (disk_info disk))) (mem w) (mem w5)" unfolding m5
    by (rule frame_trans [OF r3(5) f4(1)]) auto
  have "sdmmc_load_file E B buf fn w = Some (SDMMC_OK, w5)"
    using i i2 i3 i4 i5 r3(2) disk_info_simps(1) [of disk] by (simp add: sdmmc_load_file_def Let_def SDMMC_OK_def FAT32_def)
  then show ?thesis using fr f4(2) m5 by simp
qed

end

end
