(* ===== verification/Ipl_Claims.thy ===== *)
theory Ipl_Claims
  imports Ipl_Volume
begin

section \<open>The initial program loader: its correctness\<close>

text \<open>
  The theorems on images (\<open>image_scan_correct\<close>, \<open>image_scan_hangs\<close>, \<open>image_boot_correct\<close>,
  \<open>image_add_info_round_trip\<close>, \<open>checksum_equivalence\<close>) with an image in memory as their instance; a controller with a card, \<open>sim_sd\<close>, that meets
  the contract, and a disk with a FAT32 volume in it; and the theorems on the card and its files
  (\<open>sdmmc_read_correct\<close>, \<open>sdhc_init_correct\<close>, \<open>sdmmc_load_file_correct\<close>, \<open>fat_cache_stale\<close>), with that disk as their instance. The last one,
  \<open>ipl_reaches_startup\<close>, puts all of it together: from the card to the jump to the startup program.
\<close>

text \<open>
  C19: \<open>image_scan\<close>. In an area whose headers make sense and whose images do not overlap, \<open>image_scan\<close> always
  returns. It finds the images whose two sums are right, and of those the one with the highest version
  number, the first one if there are several; a version of 0 does not count, and without an image the
  result is -1. It changes nothing but the loader's own variables.
\<close>

theorem image_scan_correct:
  assumes "vars_ok V" "window_ok V m lo hi"
  shows "\<exists>r v m'. image_scan V lo hi m = Some (r, m') \<and> frame (vars_area V) m m' \<and> newest m (images m lo hi) r v"
  using image_scan_run [OF assms] .

definition word_mem :: "nat \<Rightarrow> u32 list \<Rightarrow> memory" where
  \<comment> \<open>memory with some words from an address on, and 0 elsewhere\<close>
  "word_mem a ws = put_bytes a (concat (map bytes32 ws)) (\<lambda>_. 0)"

lemma length_words: "length (concat (map bytes32 ws)) = 4 * length ws"
  by (induction ws) auto

lemma drop_words: "drop (4 * i) (concat (map bytes32 ws)) = concat (map bytes32 (drop i ws))"
proof (induction ws arbitrary: i)
  case (Cons w ws)
  then show ?case by (cases i) simp_all
qed simp

definition has_words :: "memory \<Rightarrow> nat \<Rightarrow> u32 list \<Rightarrow> bool" where
  "has_words m a ws \<longleftrightarrow> bytes_at m a (4 * length ws) = concat (map bytes32 ws)"

lemma word_mem_has: "has_words (word_mem a ws) a ws"
  unfolding has_words_def word_mem_def using bytes_at_put [of a "concat (map bytes32 ws)" "\<lambda>_. 0"] by (simp add: length_words)

lemma has_word: "has_words m a ws \<Longrightarrow> i < length ws \<Longrightarrow> le32 (bytes_at m (a + 4 * i) 4) = ws ! i"
proof -
  assume h: "has_words m a ws" and i: "i < length ws"
  have "bytes_at m (a + 4 * i) 4 = take 4 (drop (4 * i) (concat (map bytes32 ws)))"
    using h i unfolding has_words_def by (subst bytes_at_slice [where l = "4 * length ws"]) simp_all
  also have "\<dots> = bytes32 (ws ! i)" using i by (simp add: drop_words Cons_nth_drop_Suc [symmetric])
  finally show ?thesis using le32_bytes32 [of "ws ! i" "[]"] by simp
qed

lemma has_ld32: "has_words m a ws \<Longrightarrow> unat b = a + 4 * i \<Longrightarrow> i < length ws \<Longrightarrow> ld32 m b = ws ! i"
  by (simp add: ld32_def has_word)

lemmas word_mem_ld32 = has_ld32 [OF word_mem_has]

lemma has_words_sum: "has_words m a ws \<Longrightarrow> n \<le> length ws - j \<Longrightarrow> word_sum m (a + 4 * j) n = sum_list (take n (drop j ws))"
proof -
  assume h: "has_words m a ws" and n: "n \<le> length ws - j"
  have "word_sum m (a + 4 * j) n = (\<Sum>i<n. ws ! (j + i))" unfolding word_sum_def
    using n has_word [OF h, of "j + _"] by (intro sum.cong) (auto simp: algebra_simps)
  also have "\<dots> = (\<Sum>i<n. take n (drop j ws) ! i)" using n by (intro sum.cong) auto
  also have "\<dots> = sum_list (take n (drop j ws))" using n by (simp add: sum_list_sum_nth atLeast0LessThan)
  finally show ?thesis .
qed

lemma has_words_append: "has_words m a (ws @ vs) \<Longrightarrow> has_words m a ws"
proof -
  assume "has_words m a (ws @ vs)"
  then have "take (4 * length ws) (bytes_at m a (4 * length (ws @ vs))) = take (4 * length ws) (concat (map bytes32 (ws @ vs)))"
    unfolding has_words_def by simp
  then show ?thesis using length_words [of ws] by (simp add: has_words_def bytes_at_def take_map)
qed

lemma ld16_ld32: "ld16 m b = ucast (ld32 m b)"
  by (rule bit_eqI) (auto simp: ld16_def ld32_def le32_def bytes_at_nth bit_simps)

definition demo_vars :: ipl_vars where
  "demo_vars = \<lparr>startup_hdr = 0x900000, scratch = 0x901000\<rparr>"

definition demo_image :: "u32 list" where
  \<comment> \<open>a header with its words: signature, version 3, addresses, sizes, and the words that make the sums 0\<close>
  "demo_image = [STARTUP_HDR_SIGNATURE, 3, 0, 0x10001000, 0, 0, 0x10001000, 0x10800000, 264, 280]
     @ replicate 55 0 @ [0xCE805EF2, 7, 8, 9, - 24]"

lemma demo_image_word: "has_words m 0x18000000 demo_image \<Longrightarrow> unat b = 0x18000000 + 4 * i \<Longrightarrow> i < 70 \<Longrightarrow> ld32 m b = demo_image ! i"
  by (rule has_ld32) (simp_all add: demo_image_def)

lemma demo_image_hdr:
  assumes "has_words m 0x18000000 demo_image"
  shows "hdr_signature m 0x18000000 = STARTUP_HDR_SIGNATURE" "hdr_version m 0x18000000 = 3"
  "hdr_startup_size m 0x18000000 = 264" "hdr_stored_size m 0x18000000 = 280"
  "hdr_ram_paddr m 0x18000000 = 0x10001000" "hdr_paddr_bias m 0x18000000 = 0"
  "hdr_startup_vaddr m 0x18000000 = 0x10001000"
  using demo_image_word [OF assms, of "0x18000000" 0] demo_image_word [OF assms, of "0x18000004" 1] demo_image_word [OF assms, of "0x18000020" 8]
    demo_image_word [OF assms, of "0x18000024" 9] demo_image_word [OF assms, of "0x18000018" 6] demo_image_word [OF assms, of "0x18000010" 4]
    demo_image_word [OF assms, of "0x1800000C" 3]
  by (simp_all add: hdr_signature_def hdr_version_def ld16_ld32 hdr_startup_size_def hdr_stored_size_def hdr_ram_paddr_def
      hdr_paddr_bias_def hdr_startup_vaddr_def demo_image_def)

lemma demo_image_sums:
  assumes "has_words m 0x18000000 demo_image"
  shows "word_sum m 0x18000000 66 = 0" "word_sum m (0x18000000 + 264) 4 = 0"
  using has_words_sum [OF assms, of 66 0] has_words_sum [OF assms, of 4 66]
  by (simp_all add: demo_image_def STARTUP_HDR_SIGNATURE_def sum_list_replicate)

lemma demo_vars_ok: "vars_ok demo_vars"
  by (simp add: vars_ok_def demo_vars_def ivl_disjoint)

lemma demo_image_sizes: "has_words m 0x18000000 demo_image \<Longrightarrow> sizes_ok demo_vars m 0x18000000"
  by (simp add: sizes_ok_def demo_image_hdr demo_vars_def Int_Un_distrib ivl_disjoint)

lemma demo_image_at: "has_words m 0x18000000 demo_image \<Longrightarrow> image_at m 0x18000000"
  using demo_image_sums by (simp add: image_at_def demo_image_hdr)

lemma demo_ram_addr: "has_words m 0x18000000 demo_image \<Longrightarrow> ram_addr m 0x18000000 = 0x10001000"
  by (simp add: ram_addr_def demo_image_hdr)

lemma demo_image_setup: "has_words m 0x18000000 demo_image \<Longrightarrow> setup_ok demo_vars m 0x18000000"
  by (simp add: setup_ok_def demo_image_hdr demo_ram_addr demo_vars_def ivl_disjoint forward_def)

lemma demo_image_window:
  assumes m: "has_words m 0x18000000 demo_image" and hi: "unat hi < 2 ^ 31"
    and no: "\<And>a. 0x18000000 < a \<Longrightarrow> a < hi \<Longrightarrow> 4 dvd (unat a - 0x18000000) \<Longrightarrow> hdr_signature m a \<noteq> STARTUP_HDR_SIGNATURE" and lo: "0x18000000 < hi"
  shows "images m 0x18000000 hi = {0x18000000}" "window_ok demo_vars m 0x18000000 hi"
proof -
  have c: "a = 0x18000000" if "0x18000000 \<le> a" "a < hi" "4 dvd (unat a - 0x18000000)" "hdr_signature m a = STARTUP_HDR_SIGNATURE" for a :: u32
    using no [of a] that by (cases "a = 0x18000000") (auto simp: order.strict_iff_order)
  show i: "images m 0x18000000 hi = {0x18000000}" using c demo_image_at [OF m] lo by (auto simp: images_def image_at_def)
  show "window_ok demo_vars m 0x18000000 hi"
    unfolding window_ok_def i using c demo_image_sizes [OF m] hi by (auto simp: demo_vars_def)
qed

definition demo_mem :: memory where
  "demo_mem = word_mem 0x18000000 demo_image"

lemma demo_mem_has: "has_words demo_mem 0x18000000 demo_image"
  by (simp add: demo_mem_def word_mem_has)

lemmas demo_mem_hdr = demo_image_hdr [OF demo_mem_has]
  and demo_mem_sums = demo_image_sums [OF demo_mem_has]
  and demo_word = demo_image_word [OF demo_mem_has]

lemma demo_no_hdr: "hdr_signature demo_mem 0x18000004 \<noteq> STARTUP_HDR_SIGNATURE"
  using demo_word [of "0x18000004" 1] by (simp add: hdr_signature_def demo_image_def STARTUP_HDR_SIGNATURE_def)

lemma demo_window_cases:
  assumes "0x18000000 \<le> a" "a < 0x18000008" "4 dvd (unat a - 0x18000000)"
  shows "a = 0x18000000 \<or> a = (0x18000004 :: u32)"
proof -
  have "unat a = 0x18000000 \<or> unat a = 0x18000004" using assms unfolding word_le_nat_alt word_less_nat_alt by simp presburger
  then show ?thesis by (simp add: word_unat_eq_iff)
qed

lemma demo_window: "images demo_mem 0x18000000 0x18000008 = {0x18000000}" "window_ok demo_vars demo_mem 0x18000000 0x18000008"
proof -
  have "hdr_signature demo_mem a \<noteq> STARTUP_HDR_SIGNATURE" if "0x18000000 < a" "a < 0x18000008" "4 dvd (unat a - 0x18000000)" for a
    using demo_window_cases [of a] demo_no_hdr that by (auto simp: order.strict_iff_order)
  from demo_image_window [OF demo_mem_has _ this] show
    "images demo_mem 0x18000000 0x18000008 = {0x18000000}" "window_ok demo_vars demo_mem 0x18000000 0x18000008" by simp_all
qed

theorem image_scan_correct_witness:
  "\<exists>m'. image_scan demo_vars 0x18000000 0x18000008 demo_mem = Some (0x18000000, m')"
  using image_scan_correct [OF demo_vars_ok demo_window(2)] unfolding demo_window(1)
  by (auto simp: newest_def demo_mem_hdr)

text \<open>
  C25: \<open>image_scan\<close> does not return when it comes to a header whose two sizes are 0: the sums of no words are
  0, and the scan goes on at the place where it is.
\<close>

theorem image_scan_hangs:
  assumes "start < fin" "stuck V start m"
  shows "image_scan V start fin m = None"
  using scan_stuck [of V start fin "- 1" 0 m] assms by (cases "image_scan V start fin m") (auto simp: image_scan_def)

definition empty_image :: memory where
  "empty_image = word_mem 0x18000000 (STARTUP_HDR_SIGNATURE # replicate 9 0)"

lemma empty_image_hdr:
  "hdr_signature empty_image 0x18000000 = STARTUP_HDR_SIGNATURE" "hdr_startup_size empty_image 0x18000000 = 0"
  "hdr_stored_size empty_image 0x18000000 = 0"
  using word_mem_ld32 [of "0x18000000" "0x18000000" 0] word_mem_ld32 [of "0x18000020" "0x18000000" 8] word_mem_ld32 [of "0x18000024" "0x18000000" 9]
  by (simp_all add: hdr_signature_def hdr_startup_size_def hdr_stored_size_def empty_image_def)

theorem image_scan_hangs_witness: "image_scan demo_vars 0x18000000 0x18000200 empty_image = None"
  by (rule image_scan_hangs) (use demo_vars_ok in \<open>simp_all add: stuck_def empty_image_hdr ivl_disjoint demo_vars_def\<close>)

text \<open>
  C20: the start of an image. When there is room for the startup program where it is to run and the
  header of the image is not overwritten, \<open>image_setup\<close> followed by \<open>image_start\<close> jumps to the address that
  the header names; then the startup program is at its place in memory, with the physical address of the image
  file system in its header, and nothing else has changed but the variable \<open>startup_hdr\<close>.
\<close>

theorem image_boot_correct:
  assumes "vars_ok V" "setup_ok V m a" "area (ram_addr m a) (unat (hdr_startup_size m a)) \<inter> area a 256 = {}"
  shows "\<exists>m'. image_start V a (image_setup V a m) = (hdr_startup_vaddr m a, m') \<and>
    bytes_at m' (unat (ram_addr m a)) (unat (hdr_startup_size m a)) = startup_program m a \<and>
    frame (area (startup_hdr V) 256 \<union> area (ram_addr m a) (unat (hdr_startup_size m a))) m m'"
  using boot_run [OF assms] .

theorem image_boot_correct_witness:
  "fst (image_start demo_vars 0x18000000 (image_setup demo_vars 0x18000000 demo_mem)) = 0x10001000"
  using image_boot_correct [OF demo_vars_ok demo_image_setup [OF demo_mem_has]]
  by (auto simp: demo_ram_addr [OF demo_mem_has] demo_mem_hdr ivl_disjoint)

text \<open>
  C24: what \<open>image_add_info\<close> adds is what \<open>find_startup_info\<close> finds. With a list of entries in the header
  of the startup program and room behind it, the new entry is copied to the end of the list, the other entries
  stay, and the startup program finds the new entry when no other has its type.
\<close>

theorem image_add_info_round_trip:
  assumes "info_list m (ram_addr m a + o_info) es q" "ld16 m (info + 2) = k" "4 \<le> k" "unat info + unat k \<le> 2 ^ 32"
    "unat q + unat k + 4 \<le> unat (ram_addr m a) + 256" "unat (ram_addr m a) + 256 \<le> 2 ^ 32"
    "ld16 m (q + ucast k + 2) = 0" "area info (unat k) \<inter> area (ram_addr m a) 256 = {}"
  shows "\<exists>m'. image_add_info a info m = Some (True, m') \<and> bytes_at m' (unat q) (unat k) = bytes_at m (unat info) (unat k) \<and>
    (\<forall>ty. find_startup_info m' (ram_addr m a) 0 ty =
      Some (case filter (\<lambda>e. snd e = ty) (es @ [(q, ld16 m info)]) of [] \<Rightarrow> 0 | e # _ \<Rightarrow> fst e))"
proof -
  from add_info_run [OF assms] obtain m' where "image_add_info a info m = Some (True, m')"
    "bytes_at m' (unat q) (unat k) = bytes_at m (unat info) (unat k)"
    "info_list m' (ram_addr m a + o_info) (es @ [(q, ld16 m info)]) (q + ucast k)" by blast
  then show ?thesis using find_info_list by (intro exI [of _ m']) (simp add: find_startup_info_def)
qed

definition info_mem :: memory where
  \<comment> \<open>an image, its startup program at 0x10001000 without entries, and an entry of type 5 at 0x910000\<close>
  "info_mem = put_bytes 0x910000 [5, 0, 8, 0, 1, 2, 3, 4] demo_mem"

lemma info_mem_bytes:
  "frame {0x910000..<0x910008} demo_mem info_mem" "x < 0x18000000 \<Longrightarrow> demo_mem x = 0"
  "info_mem 0x910000 = 5" "info_mem 0x910001 = 0" "info_mem 0x910002 = 8" "info_mem 0x910003 = 0"
  using frame_put [of "0x910000" "[5, 0, 8, 0, 1, 2, 3, 4]" demo_mem]
  by (simp_all add: info_mem_def demo_mem_def word_mem_def put_bytes_simps)

lemma info_mem_words:
  "hdr_ram_paddr info_mem 0x18000000 = 0x10001000" "hdr_paddr_bias info_mem 0x18000000 = 0" "ld16 info_mem 0x10001042 = 0"
  "ld16 info_mem 0x910002 = 8" "ld16 info_mem 0x1000104A = 0" "ld16 info_mem 0x910000 = 5"
proof -
  note fr = info_mem_bytes(1) and z = info_mem_bytes(2)
  have "bytes_at info_mem (unat (0x18000000 :: u32)) 256 = bytes_at demo_mem (unat (0x18000000 :: u32)) 256"
    by (rule frame_bytes [OF fr]) auto
  from same_hdr [OF this] show "hdr_ram_paddr info_mem 0x18000000 = 0x10001000" "hdr_paddr_bias info_mem 0x18000000 = 0"
    by (simp_all add: demo_mem_hdr)
  show "ld16 info_mem 0x10001042 = 0" "ld16 info_mem 0x1000104A = 0"
    using ld16_frame [OF fr, of "0x10001042"] ld16_frame [OF fr, of "0x1000104A"] by (simp_all add: ld16_def z)
  show "ld16 info_mem 0x910002 = 8" "ld16 info_mem 0x910000 = 5" by (simp_all add: ld16_def info_mem_bytes(3-))
qed

lemma info_mem_list: "info_list info_mem 0x10001040 [] 0x10001040"
  by (rule info_list.free) (simp_all add: info_mem_words)

theorem image_add_info_round_trip_witness:
  "\<exists>m'. image_add_info 0x18000000 0x910000 info_mem = Some (True, m') \<and> find_startup_info m' 0x10001000 0 5 = Some 0x10001040"
  using image_add_info_round_trip [of info_mem "0x18000000" "[]" "0x10001040" "0x910000" 8]
  by (auto simp: info_mem_list info_mem_words ram_addr_def o_info_def ivl_disjoint)

subsection \<open>A controller with a card\<close>

definition sector_of :: "(nat \<times> u8) list \<Rightarrow> u8 list" where
  "sector_of l = map (\<lambda>i. case map_of l i of Some b \<Rightarrow> b | None \<Rightarrow> 0) [0..<512]"

definition demo_response :: "nat \<Rightarrow> nat \<Rightarrow> u32" where
  "demo_response i = (if i = 41 then (\<lambda>_. 0xC0300000) else if i = 3 then (\<lambda>_. 0x12340000) else if i = 13 then (\<lambda>_. 0x800)
     else if i = 9 then (\<lambda>k. if k = 3 then 0x400000 else if k = 1 then 0x4000 else 0) else (\<lambda>_. 0))"

definition demo_answer :: "nat \<Rightarrow> u32 \<Rightarrow> unit \<Rightarrow> (nat \<Rightarrow> u32) option \<times> unit" where
  "demo_answer i a c = (Some (demo_response i), c)"

definition sim_command :: "(nat \<Rightarrow> u8 list) \<Rightarrow> u32 \<Rightarrow> unit sd_view \<times> memory \<Rightarrow> unit sd_view \<times> memory" where
  "sim_command disk x = (\<lambda>(d, m).
     let b = first_block True (v_regs d MX6X_MMCCMDARG); k = block_count d;
         dma = (x AND MMCCMDXTYPE_DPSEL \<noteq> 0 \<and> v_regs d MX6X_MMCMIX_CTRL AND MMCCMDXTYPE_DMAEN \<noteq> 0);
         ev = (if dma then MMCINTR_CC OR MMCINTR_TC else if x AND MMCCMDXTYPE_DPSEL \<noteq> 0 then MMCINTR_CC OR MMCINTR_BRR else MMCINTR_CC)
     in (d\<lparr>v_intr := raised ev d, v_resp := demo_response (cmd_index x)\<rparr>,
         if dma then put_bytes (unat (v_regs d MX6X_MMCDMASYSADD)) (concat (map disk [b..<b + k])) m else m))"

definition sim_value :: "unit sd_view \<Rightarrow> u32 \<Rightarrow> u32" where
  "sim_value d r =
     (if r \<in> plain_regs then v_regs d r else if r = MX6X_MMCINTRST then v_intr d
      else if r = MX6X_MMCCMDRSP0 then v_resp d 0 else if r = MX6X_MMCCMDRSP1 then v_resp d 1
      else if r = MX6X_MMCCMDRSP2 then v_resp d 2 else if r = MX6X_MMCCMDRSP3 then v_resp d 3
      else if r = MX6X_MMCPRSNTST then MMCPRSNTST_SDSTB else 0)"

definition sim_sd :: "(nat \<Rightarrow> u8 list) \<Rightarrow> unit sd_view sd_env" where
  "sim_sd disk =
     \<lparr>reg_in = (\<lambda>a (d, m). (sim_value d (a - MX6X_USDHC4_BASE), d, m)),
      reg_out = (\<lambda>a x (d, m). let r = a - MX6X_USDHC4_BASE in
        if r \<in> plain_regs then (d\<lparr>v_regs := (v_regs d)(r := x)\<rparr>, m)
        else if r = MX6X_MMCINTRST then (d\<lparr>v_intr := v_intr d AND NOT x\<rparr>, m)
        else if r = MX6X_MMCCMDXTYPE then sim_command disk x (d, m) else (d, m))\<rparr>"

lemma other_regs [simp]:
  "MX6X_MMCINTRST \<notin> plain_regs" "MX6X_MMCSYSCTL \<notin> plain_regs" "MX6X_MMCCMDXTYPE \<notin> plain_regs" "MX6X_MMCPRSNTST \<notin> plain_regs"
  "MX6X_MMCCMDRSP0 \<notin> plain_regs" "MX6X_MMCCMDRSP1 \<notin> plain_regs" "MX6X_MMCCMDRSP2 \<notin> plain_regs" "MX6X_MMCCMDRSP3 \<notin> plain_regs"
  by (simp_all add: plain_regs_def sd_offsets)

lemma other_distinct [simp]:
  "MX6X_MMCINTRST \<noteq> MX6X_MMCSYSCTL" "MX6X_MMCINTRST \<noteq> MX6X_MMCCMDXTYPE" "MX6X_MMCSYSCTL \<noteq> MX6X_MMCCMDXTYPE"
  by (simp_all add: sd_offsets)

declare other_distinct [symmetric, simp]

lemma sim_values:
  "r \<in> plain_regs \<Longrightarrow> sim_value d r = v_regs d r" "sim_value d MX6X_MMCINTRST = v_intr d" "sim_value d MX6X_MMCCMDRSP0 = v_resp d 0"
  "sim_value d MX6X_MMCCMDRSP1 = v_resp d 1" "sim_value d MX6X_MMCCMDRSP2 = v_resp d 2" "sim_value d MX6X_MMCCMDRSP3 = v_resp d 3"
  "sim_value d MX6X_MMCPRSNTST = MMCPRSNTST_SDSTB" "sim_value d MX6X_MMCSYSCTL = 0"
  by (simp add: sim_value_def) (simp_all add: sim_value_def plain_regs_def sd_offsets)

lemma length_sector_of [simp]: "length (sector_of l) = 512"
  by (simp add: sector_of_def)

lemma sector_of_nth: "i < 512 \<Longrightarrow> sector_of l ! i = (case map_of l i of Some b \<Rightarrow> b | None \<Rightarrow> 0)"
  by (simp add: sector_of_def del: upt_Suc)

lemma sim_volume:
  assumes "\<And>k. length (disk k) = 512"
  shows "sd_volume (sim_sd disk) MX6X_USDHC4_BASE (\<lambda>_. True) (\<lambda>d. d) demo_answer (\<lambda>_. disk) (\<lambda>_. unat n) (\<lambda>_. True) UNIV disk n"
proof
  fix d :: "unit sd_view" and m r
  show "\<exists>v d'. reg_in (sim_sd disk) (MX6X_USDHC4_BASE + r) (d, m) = (v, d', m) \<and> True \<and> d' = d \<and>
      (r \<in> plain_regs \<longrightarrow> v = v_regs d r) \<and> (r = MX6X_MMCINTRST \<longrightarrow> v = v_intr d) \<and>
      (r = MX6X_MMCCMDRSP0 \<longrightarrow> v = v_resp d 0) \<and> (r = MX6X_MMCCMDRSP1 \<longrightarrow> v = v_resp d 1) \<and>
      (r = MX6X_MMCCMDRSP2 \<longrightarrow> v = v_resp d 2) \<and> (r = MX6X_MMCCMDRSP3 \<longrightarrow> v = v_resp d 3) \<and>
      (r = MX6X_MMCPRSNTST \<longrightarrow> v AND (MMCPRSNTST_CDIHB OR MMCPRSNTST_CIHB OR MMCPRSNTST_DLA) = 0 \<and> v AND MMCPRSNTST_SDSTB \<noteq> 0) \<and>
      (r = MX6X_MMCSYSCTL \<longrightarrow> v AND (MMCSYSCTL_RSTA OR MMCSYSCTL_RSTC OR MMCSYSCTL_INITA) = 0)"
    by (auto simp: sim_sd_def sim_values) (simp_all add: sd_bits)
qed (use assms in \<open>auto simp: sim_sd_def Let_def sim_command_def demo_answer_def\<close>)

subsection \<open>A disk\<close>

definition demo_mbr :: "u8 list" where
  "demo_mbr = sector_of [(454, 8), (458, 0xF7), (459, 3), (460, 1), (510, 0x55), (511, 0xAA)]"

definition demo_bpb :: "u8 list" where
  \<comment> \<open>clusters of one sector, two reserved sectors, two tables of 512 sectors, 66551 sectors, the root directory in cluster 2\<close>
  "demo_bpb = sector_of [(11, 0), (12, 2), (13, 1), (14, 2), (16, 2), (32, 0xF7), (33, 3), (34, 1), (37, 2), (44, 2), (510, 0x55), (511, 0xAA)]"

definition demo_table :: "u8 list" where
  \<comment> \<open>the clusters 3 and 5 are a file\<close>
  "demo_table = sector_of [(8, 0xFF), (9, 0xFF), (10, 0xFF), (11, 0x0F), (12, 5), (20, 0xFF), (21, 0xFF), (22, 0xFF), (23, 0x0F)]"

definition demo_name :: "u8 list" where
  \<comment> \<open>\<open>QNX-IFS\<close>\<close>
  "demo_name = [0x51, 0x4E, 0x58, 0x2D, 0x49, 0x46, 0x53]"

definition demo_root :: "u8 list" where
  "demo_root = sector_of (zip [0..<7] demo_name @ [(26, 3), (28, 0x58), (29, 2)])"

definition demo_sector :: "u8 list" where
  \<comment> \<open>the first cluster of the file: an image, and zeros behind it\<close>
  "demo_sector = concat (map bytes32 (demo_image @ replicate 58 0))"

definition demo_disk :: "nat \<Rightarrow> u8 list" where
  "demo_disk k = (if k = 0 then demo_mbr else if k = 8 then demo_bpb else if k = 10 then demo_table else if k = 1034 then demo_root
     else if k = 1035 then demo_sector
     else replicate 512 (of_nat k))"

lemma length_demo_sector [simp]: "length demo_sector = 512"
  unfolding demo_sector_def length_words by (simp add: demo_image_def)

lemma demo_disk_length [simp]: "length (demo_disk k) = 512"
  by (simp add: demo_disk_def demo_mbr_def demo_bpb_def demo_table_def demo_root_def)

interpretation simcard: sd_volume "sim_sd demo_disk" MX6X_USDHC4_BASE "\<lambda>_. True" "\<lambda>d. d" demo_answer "\<lambda>_. demo_disk"
  "\<lambda>_. unat (66560 :: u32)" "\<lambda>_. True" UNIV demo_disk 66560
  by (rule sim_volume) simp

lemma word32_nth: "i + 4 \<le> length s \<Longrightarrow> word32 s i =
    ucast (s ! i) OR push_bit 8 (ucast (s ! (i + 1))) OR push_bit 16 (ucast (s ! (i + 2))) OR push_bit 24 (ucast (s ! (i + 3)))"
  by (simp add: le32_def)

lemma demo_words:
  "word16 demo_mbr 510 = 0xaa55" "word32 demo_mbr 454 = 8" "word32 demo_mbr 458 = 66551"
  "word16 demo_bpb 510 = 0xaa55" "word16 demo_bpb 11 = 512" "word16 demo_bpb 17 = 0" "word16 demo_bpb 19 = 0" "word16 demo_bpb 22 = 0"
  "demo_bpb ! 16 = 2" "demo_bpb ! 13 = 1" "word16 demo_bpb 14 = 2" "word32 demo_bpb 32 = 66551" "word32 demo_bpb 36 = 512" "word32 demo_bpb 44 = 2"
  "word32 demo_table 12 = 5"
  by (simp_all add: word16_def word32_nth demo_mbr_def demo_bpb_def demo_table_def sector_of_nth)

lemma demo_fat32_disk: "fat32_disk 66560 demo_disk"
  by (simp add: fat32_disk_def fat32_bpb_def demo_disk_def demo_words)

lemma demo_info: "disk_info demo_disk =
    \<lparr>fs_offset = 8, fat_type = 32, total_sectors = 66551, root_dir_sectors = 0, reserved_sectors = 2, data_sectors = 65525, fat_size = 512,
     number_of_fats = 2, cluster_size = 1, count_of_clusters = 65525, fat1_start = 2, fat2_start = 514, root_dir_start = 2, root_entry_count = 0,
     cluster2_start = 1026\<rparr>"
  by (simp add: disk_info_def fat32_info_def demo_disk_def demo_words)

lemma demo_clusters: "2 \<le> unat c \<Longrightarrow> unat c < 100 \<Longrightarrow> cluster_ok 66560 (disk_info demo_disk) c"
  by (auto simp: cluster_ok_def cluster_sector_def demo_info)

lemma demo_file: "file_ok 66560 demo_disk (disk_info demo_disk) [3, 5] 600"
proof -
  have "chain demo_disk (disk_info demo_disk) [3, 5]"
    by (auto simp: chain_def fat32_entry_def demo_info demo_disk_def demo_words less_Suc_eq)
  then show ?thesis using demo_clusters [of 3] demo_clusters [of 5] by (simp add: file_ok_def) (simp add: demo_info)
qed

lemma demo_entry: "dir_lookup demo_name (dir_entries demo_root) = Dir_found 3 600"
proof -
  have d: "dir_entries demo_root = take 32 demo_root # map (\<lambda>i. take 32 (drop (32 * i) demo_root)) [1..<16]"
    by (simp add: dir_entries_def upt_conv_Cons)
  let ?e = "take 32 demo_root"
  have z: "zip [0..<7] demo_name = [(0, 0x51), (1, 0x4E), (2, 0x58), (3, 0x2D), (4, 0x49), (5, 0x46), (6, 0x53)]"
    by (simp add: demo_name_def upt_conv_Cons)
  have n: "demo_root ! i = (case map_of ([(0, 0x51), (1, 0x4E), (2, 0x58), (3, 0x2D), (4, 0x49), (5, 0x46), (6, 0x53)] @ [(26, 3), (28, 0x58), (29, 2)]) i
      of Some b \<Rightarrow> b | None \<Rightarrow> 0)" if "i < 512" for i
    using that by (simp add: demo_root_def sector_of_nth z)
  have l: "length demo_root = 512" by (simp add: demo_root_def)
  have u: "[0..<7] = [0, 1, 2, 3, 4, 5, 6 :: nat]" by (simp add: upt_conv_Cons)
  have "take 7 ?e = map (\<lambda>i. ?e ! i) [0..<7]" by (rule nth_equalityI) (simp_all add: demo_root_def)
  then have "take 7 ?e = demo_name" unfolding u by (simp add: n demo_name_def)
  moreover have "ent_cluster ?e = 3" by (simp add: ent_cluster_def word16_def n)
  moreover have "word32 ?e 28 = 600" by (subst word32_nth) (simp_all add: l n)
  moreover have "?e ! 0 = 0x51" by (simp add: n)
  moreover have "length demo_name = 7" "take 11 demo_name = demo_name" by (simp_all add: demo_name_def)
  ultimately show ?thesis unfolding d by (simp add: ent_matches_def ENT_END_def ENT_UNUSED_def)
qed

lemma demo_root_found: "root_found demo_name demo_disk (disk_info demo_disk) [2] 3 600"
proof -
  have "[cluster_sector (disk_info demo_disk) 2..<cluster_sector (disk_info demo_disk) 2 + 1] = [1034]"
    by (simp add: cluster_sector_def demo_info)
  moreover have "dir_scan demo_name [demo_disk 1034] = Dir_found 3 600" using demo_entry by (simp add: demo_disk_def)
  moreover have "unat (cluster_size (disk_info demo_disk)) = 1" "root_dir_start (disk_info demo_disk) = 2" by (simp_all add: demo_info)
  ultimately show ?thesis unfolding root_found_def by (simp add: chain_def)
qed

subsection \<open>The card\<close>

context usdhc
begin

lemma sdmmc_read_run:
  assumes "sdmmc_pbase (sdmmc w) = base" "idle (ctl w)" "v_card (view (ctl w)) = c" "v_regs (view (ctl w)) MX6X_MMCINTRSTEN = 0x017F8033"
    and "card_ready (the_card w) c" "in_range (the_card w) b n" "0 < n" "n < 2 ^ 16"
  shows "\<exists>w'. sdmmc_read E buf b n w = Some (SDMMC_OK, w') \<and> the_card w' = the_card w \<and> idle (ctl w') \<and> v_card (view (ctl w')) = c \<and>
    mem w' = put_bytes (unat buf) (concat (map (block c) [unat b..<unat b + unat n])) (mem w)"
proof -
  have "sd w c w" using assms(1-4) by (auto simp: sd_def on_def)
  from read_run [OF this assms(5-8)] obtain w' where "sdmmc_read E buf b n w = Some (SDMMC_OK, w')"
    and s: "sd ((read_cmd buf b n w)\<lparr>mem := put_bytes (unat buf) (blocks c (unat b) (unat n)) (mem w)\<rparr>) c w'" by (auto simp: yields_def)
  moreover have "idle (ctl w')" "v_card (view (ctl w')) = c" using s by (auto simp: sd_def on_def)
  ultimately show ?thesis using sd_simps [OF s] by (simp add: read_cmd_simps blocks_def)
qed

lemma sdhc_init_run:
  assumes "sdmmc_pbase (sdmmc w) = base" "idle (ctl w)" "sdhc_ok X" "talk answer (sdhc_script X) (v_card (view (ctl w))) c'"
    and "c' \<in> T" "stays answer T"
  shows "\<exists>w1 w2 sp. sdmmc_init_ctrl E w = Some (SDMMC_OK, w1) \<and> sdmmc_init_card E w1 = Some (SDMMC_OK, w2) \<and>
    the_card w2 = \<lparr>cd_state = MMC_TRAN, cd_type = eSDC_HC, blk_size = 512, blk_num = (sdhc_c_size X + 1) * 1024, cd_speed = sp, rca = x_addr X\<rparr> \<and>
    mem w2 = mem w \<and> idle (ctl w2) \<and> v_card (view (ctl w2)) \<in> T \<and> v_regs (view (ctl w2)) MX6X_MMCINTRSTEN = 0x017F8033"
proof -
  have "on w (view (ctl w)) w" using assms(1,2) by (simp add: on_def)
  from init_ctrl_run [OF this] obtain w1 where w1: "sdmmc_init_ctrl E w = Some (SDMMC_OK, w1)"
    "sd (w\<lparr>sdmmc := (sdmmc w)\<lparr>icr := 0x000001aa, ocr := 0x00300000\<rparr>\<rparr>) (v_card (view (ctl w))) w1" by (auto simp: yields_def)
  from init_card_run [OF assms(6,5,3) w1(2) _ _ assms(4)] obtain w2 c sp where "sdmmc_init_card E w1 = Some (SDMMC_OK, w2)" "c \<in> T"
    and k: "knows (mem w) (sd_world.more w)
    \<lparr>cd_state = MMC_TRAN, cd_type = eSDC_HC, blk_size = 512, blk_num = (sdhc_c_size X + 1) * 1024, cd_speed = sp, rca = x_addr X\<rparr> c w2"
    by (auto simp: yields_def)
  with w1(1) show ?thesis by (intro exI [of _ w1] exI [of _ w2] exI [of _ sp]) (auto simp: knows_def has_iff)
qed

end

text \<open>
  C18: \<open>sdmmc_read\<close>. A range of blocks that goes beyond the card is refused without any effect. A range of at
  least one and less than 65536 blocks on the card is read: the function returns \<open>SDMMC_OK\<close>, the blocks are in memory from the
  address of the buffer on, in order, and nothing else has changed. The card is a standard or a high-capacity one, and
  the driver knows which.
\<close>

theorem sdmmc_read_correct:
  assumes "usdhc E base idle view answer block capacity high_cap" and "sdmmc_pbase (sdmmc w) = base" "idle (ctl w)"
    and "v_regs (view (ctl w)) MX6X_MMCINTRSTEN = 0x017F8033" and "v_card (view (ctl w)) = c"
    and "cd_state (the_card w) = MMC_TRAN" "unat (blk_num (the_card w)) \<le> capacity c"
    and "high_cap c \<longleftrightarrow> \<not> (cd_type (the_card w) = eMMC \<or> cd_type (the_card w) = eSDC)" "\<not> high_cap c \<longrightarrow> 512 * capacity c \<le> 2 ^ 32"
    and "\<forall>i \<in> {17, 18}. \<forall>a. \<exists>rs. answer i a c = (Some rs, c)" and "0 < n" "n < 2 ^ 16"
  shows "if unat b + unat n \<le> unat (blk_num (the_card w))
     then \<exists>w'. sdmmc_read E buf b n w = Some (SDMMC_OK, w') \<and> the_card w' = the_card w \<and> idle (ctl w') \<and> v_card (view (ctl w')) = c \<and>
       mem w' = put_bytes (unat buf) (concat (map (block c) [unat b..<unat b + unat n])) (mem w)
     else sdmmc_read E buf b n w = Some (SDMMC_ERROR, w)"
proof -
  have n: "0 < unat n" using assms(11) by (simp add: word_less_nat_alt)
  show ?thesis
  proof (cases "unat b + unat n \<le> unat (blk_num (the_card w))")
    case True
    then have r: "in_range (the_card w) b n" using n by (simp add: in_range_def)
    have k: "usdhc.card_ready answer capacity high_cap (the_card w) c"
      using assms(6-10) by (simp add: usdhc.card_ready_def [OF assms(1)])
    from usdhc.sdmmc_read_run [OF assms(1,2,3,5,4) k r assms(11,12)] True show ?thesis by simp
  next
    case False
    then show ?thesis by (simp add: sdmmc_read_range in_range_def)
  qed
qed

definition demo_card :: card_t where
  "demo_card = \<lparr>cd_state = MMC_TRAN, cd_type = eSDC_HC, blk_size = 512, blk_num = 66560, cd_speed = 25000000, rca = 0x1234\<rparr>"

definition demo_driver :: mx6x_sdmmc_t where
  "demo_driver =
     \<lparr>sdmmc_pbase = MX6X_USDHC4_BASE, icr = 0, ocr = 0,
      cmd = \<lparr>c_cmd = 0, c_arg = 0, c_rsp = None, c_bsize = 0, c_bcnt = 0, c_dbuf = 0, c_erintsts = 0\<rparr>, card = demo_card,
      sd_cid = \<lparr>scid_mid = 0, scid_oid = [], scid_pnm = [], scid_prv = 0, scid_psn = 0, scid_mdt = 0\<rparr>,
      mmc_cid = \<lparr>mcid_mid = 0, mcid_oid = 0, mcid_ycd = 0, mcid_pnm = (\<lambda>_. 0), mcid_hwr = 0, mcid_fwr = 0, mcid_mcd = 0, mcid_psn = 0\<rparr>,
      sd_csd = \<lparr>csd_structure = 0, taac = 0, nsac = 0, tran_speed = 0, ccc = 0, read_bl_len = 0, read_bl_partial = 0, write_blk_misalign = 0,
        read_blk_misalign = 0, dsr_imp = 0, ver1_c_size = 0, vdd_r_curr_min = 0, vdd_r_curr_max = 0, vdd_w_curr_min = 0, vdd_w_curr_max = 0,
        ver1_c_size_mult = 0, ver2_c_size = 0, erase_blk_en = 0, sector_size = 0, wp_grp_size = 0, wp_grp_enable = 0, r2w_factor = 0,
        write_bl_len = 0, write_bl_partial = 0, file_format_grp = 0, csd_copy = 0, perm_write_protect = 0, tmp_write_protect = 0, file_format = 0\<rparr>,
      mmc_csd = \<lparr>m_csd_structure = 0, m_mmc_prot = 0, m_tran_speed = 0, m_read_bl_len = 0, m_c_size = 0, m_c_size_mult = 0\<rparr>\<rparr>"

definition demo_world :: "unit sd_view fat_world" where
  "demo_world =
     \<lparr>sdmmc = demo_driver, mem = (\<lambda>_. 0), ctl = \<lparr>v_regs = (\<lambda>r. if r = MX6X_MMCINTRSTEN then 0x017F8033 else 0), v_intr = 0, v_resp = (\<lambda>_. 0), v_card = ()\<rparr>,
      fs_info = disk_info demo_disk, g_fat_sector = 0, cache_valid = False, blk = 0x900000\<rparr>"

lemma demo_world_simps:
  "sdmmc_pbase (sdmmc demo_world) = MX6X_USDHC4_BASE" "the_card demo_world = demo_card" "v_regs (ctl demo_world) MX6X_MMCINTRSTEN = 0x017F8033"
  "cache_valid demo_world = False" "blk demo_world = 0x900000" "fs_info demo_world = disk_info demo_disk"
  by (simp_all add: demo_world_def demo_driver_def)

lemma demo_ready: "cd_state demo_card = MMC_TRAN" "blk_num demo_card = 66560" "cd_type demo_card = eSDC_HC"
  by (simp_all add: demo_card_def)

theorem sdmmc_read_correct_witness:
  "\<exists>w'. sdmmc_read (sim_sd demo_disk) 0x18000000 1034 2 demo_world = Some (SDMMC_OK, w') \<and>
     mem w' = put_bytes 0x18000000 (demo_root @ demo_sector) (mem demo_world)"
  using sdmmc_read_correct [OF simcard.usdhc_axioms, of demo_world "()" 2 1034 "0x18000000"]
  by (auto simp: demo_world_simps demo_ready demo_answer_def upt_conv_Cons demo_disk_def)

text \<open>
  C17: initialisation. With a high-capacity SD card that answers the commands as the standard says and is powered up within
  40 rounds, \<open>sdmmc_init_ctrl\<close> and \<open>sdmmc_init_card\<close> return \<open>SDMMC_OK\<close>; then the driver knows the type
  of the card, its address, that it is in the transfer state, and its number of blocks, which is 1024 for each unit of
  \<open>C_SIZE\<close> + 1. What the card answers to the commands for the high speed does not matter.
\<close>

theorem sdhc_init_correct:
  assumes "usdhc E base idle view answer block capacity high_cap" and "sdmmc_pbase (sdmmc w) = base" "idle (ctl w)"
    and "sdhc_ok X" "talk answer (sdhc_script X) (v_card (view (ctl w))) c'" "c' \<in> T" "stays answer T"
  shows "\<exists>w1 w2 sp. sdmmc_init_ctrl E w = Some (SDMMC_OK, w1) \<and> sdmmc_init_card E w1 = Some (SDMMC_OK, w2) \<and>
    the_card w2 = \<lparr>cd_state = MMC_TRAN, cd_type = eSDC_HC, blk_size = 512, blk_num = (sdhc_c_size X + 1) * 1024, cd_speed = sp, rca = x_addr X\<rparr> \<and>
    mem w2 = mem w \<and> idle (ctl w2) \<and> v_card (view (ctl w2)) \<in> T \<and> v_regs (view (ctl w2)) MX6X_MMCINTRSTEN = 0x017F8033"
  by (rule usdhc.sdhc_init_run [OF assms])

definition demo_sdhc :: sdhc_card where
  "demo_sdhc = \<lparr>x_rounds = 0, x_ocr = (\<lambda>_. demo_response 41), x_cid = demo_response 2, x_rca = demo_response 3, x_csd = demo_response 9,
     x_other = (\<lambda>i. if i \<in> {100, 101, 103} then demo_response 13 else demo_response 0), x_state = demo_response 13\<rparr>"

lemma demo_sdhc_ok: "sdhc_ok demo_sdhc"
  by (simp add: sdhc_ok_def demo_sdhc_def demo_response_def POWER_UP_WAIT_def MMC_TRAN_def long_words_def)

lemma demo_talk: "talk demo_answer (sdhc_script demo_sdhc) () ()"
  by (simp add: sdhc_script_def sdhc_power_def sdhc_ident_def Let_def demo_sdhc_def demo_answer_def demo_response_def fun_eq_iff)

lemma demo_size: "(sdhc_c_size demo_sdhc + 1) * 1024 = 66560"
  by (simp add: sdhc_c_size_def demo_sdhc_def demo_response_def long_words_def)

lemma demo_stays: "stays demo_answer UNIV"
  by (simp add: stays_def)

theorem sdhc_init_correct_witness:
  "\<exists>w1 w2. sdmmc_init_ctrl (sim_sd demo_disk) demo_world = Some (SDMMC_OK, w1) \<and> sdmmc_init_card (sim_sd demo_disk) w1 = Some (SDMMC_OK, w2) \<and>
     blk_num (the_card w2) = 66560"
  using sdhc_init_correct [OF simcard.usdhc_axioms demo_world_simps(1) TrueI demo_sdhc_ok _ UNIV_I demo_stays] demo_talk demo_size by fastforce

text \<open>
  C4: \<open>sdmmc_load_file\<close>. A controller with a high-capacity card, on it a FAT32 volume with two tables in the first
  partition, and in its root directory, in the cluster where the search ends, a file of less than 32 MB whose name
  begins with the given one. Then the whole sequence of initialisation, reading the partition, searching the directory and
  following the clusters of the file returns \<open>SDMMC_OK\<close>, and the contents of the file are in memory at the given
  address. Apart from the area of its clusters there only the sector buffer has changed. On a retry, when the cache flag is
  set, this needs a directory that is found in its first cluster.
\<close>

theorem sdmmc_load_file_correct:
  assumes "sd_volume E MX6X_USDHC4_BASE idle view answer block capacity high_cap T disk n" and "idle (ctl w)"
    and "sdhc_ok X" "talk answer (sdhc_script X) (v_card (view (ctl w))) c'" "c' \<in> T" "stays answer T" and "n = (sdhc_c_size X + 1) * 1024"
    and "fat32_disk (unat n) disk" "root_found fn disk (disk_info disk) rs k sz" "\<forall>x \<in> set rs. cluster_ok (unat n) (disk_info disk) x"
    and "file_ok (unat n) disk (disk_info disk) cs sz" "cs ! 0 = k" "\<not> cache_valid w \<or> length rs = 1"
    and "room_ok B buf (length cs * cluster_bytes (disk_info disk))"
  shows "\<exists>w'. sdmmc_load_file E B buf fn w = Some (SDMMC_OK, w') \<and>
    bytes_at (mem w') (unat buf) (unat sz) = file_data disk (disk_info disk) cs sz \<and>
    frame (area B 1024 \<union> area buf (length cs * cluster_bytes (disk_info disk))) (mem w) (mem w')"
  using sd_volume.load_run [OF assms(1) refl assms(2) refl assms(3-14)] by (auto simp: yields_def)

lemma demo_volume:
  "sd_volume (sim_sd demo_disk) MX6X_USDHC4_BASE (\<lambda>_. True) (\<lambda>d. d) demo_answer (\<lambda>_. demo_disk)
     (\<lambda>_. unat (66560 :: u32)) (\<lambda>_. True) UNIV demo_disk 66560"
  by (rule sim_volume) simp

lemma demo_file_data:
  "file_data demo_disk (disk_info demo_disk) [3, 5] 600 = demo_sector @ replicate 88 (of_nat 1037)"
  by (simp add: file_data_def cluster_data_def cluster_sector_def demo_info on_disk_def demo_disk_def)

lemma demo_room: "room_ok 0x900000 0x18000000 (length [3, 5 :: u32] * cluster_bytes (disk_info demo_disk))"
  by (simp add: room_ok_def demo_info)

lemma demo_root_cluster: "\<forall>x \<in> set [2]. cluster_ok (unat (66560 :: u32)) (disk_info demo_disk) x"
  using demo_clusters [of 2] by simp

theorem sdmmc_load_file_correct_witness:
  "\<exists>w'. sdmmc_load_file (sim_sd demo_disk) 0x900000 0x18000000 demo_name demo_world = Some (SDMMC_OK, w') \<and>
    bytes_at (mem w') 0x18000000 600 = demo_sector @ replicate 88 (of_nat 1037)"
proof -
  have t: "talk demo_answer (sdhc_script demo_sdhc) (v_card (ctl demo_world)) ()" using demo_talk by simp
  have "\<exists>w'. sdmmc_load_file (sim_sd demo_disk) 0x900000 0x18000000 demo_name demo_world = Some (SDMMC_OK, w') \<and>
    bytes_at (mem w') (unat (0x18000000 :: u32)) (unat (600 :: u32)) = file_data demo_disk (disk_info demo_disk) [3, 5] 600 \<and>
    frame (area 0x900000 1024 \<union> area 0x18000000 (length [3, 5 :: u32] * cluster_bytes (disk_info demo_disk))) (mem demo_world) (mem w')"
    by (rule sdmmc_load_file_correct [OF demo_volume TrueI demo_sdhc_ok t UNIV_I demo_stays demo_size [symmetric] _ _ demo_root_cluster _ _ _ demo_room])
      (simp_all add: demo_fat32_disk demo_root_found demo_file demo_world_simps)
  then show ?thesis unfolding demo_file_data by auto
qed

text \<open>
  C21: \<open>checksum\<close> adds the words of an area, although it goes through a buffer: it copies the area there in pieces of 512
  bytes, adds each piece, and the sum is that of all words where they are. Only the buffer changes.
\<close>

theorem checksum_equivalence:
  assumes "unat len = 4 * n" "unat addr + 4 * n \<le> 2 ^ 32" "unat (scratch V) + 512 \<le> 2 ^ 32" "area addr (4 * n) \<inter> area (scratch V) 512 = {}"
  shows "\<exists>m'. checksum V addr len sm m = (sm + word_sum m (unat addr) n, m') \<and> frame (area (scratch V) 512) m m'"
  using checksum_sum [OF assms, of sm m] by (metis prod.collapse)

theorem checksum_equivalence_witness:
  "\<exists>m'. checksum demo_vars 0x18000000 264 5 demo_mem = (5, m') \<and> frame (area 0x901000 512) demo_mem m'"
  using checksum_equivalence [of 264 66 "0x18000000" demo_vars 5 demo_mem] demo_mem_sums by (simp add: demo_vars_def ivl_disjoint)

lemma stale_entry:
  assumes "block_device E good disk cap" "good w" "blk w = B" "unat B + 512 \<le> 2 ^ 32"
    and "fat_type (fs_info w) = 32" "cache_valid w" "g_fat_sector w = table_sector (fs_info w) c" "unat c < 2 ^ 30"
    and "unat sector + unat (fs_offset (fs_info w)) < cap" "cap < 2 ^ 32"
  shows "\<exists>w'. cluster_search E name 1 sector w = Some ((SDMMC_OK, dir_scan name [disk (unat sector + unat (fs_offset (fs_info w)))]), w') \<and>
    fat_get_fat_entry E B c w' =
      Some (le32 (take 4 (drop (4 * unat c mod 512) (disk (unat sector + unat (fs_offset (fs_info w)))))) AND 0x0fffffff, w')"
proof -
  let ?k = "unat sector + unat (fs_offset (fs_info w))" and ?o = "4 * unat c mod 512"
  have us: "unat (sector + fs_offset (fs_info w)) = ?k" using assms(9,10) by (intro unat_plus_w) linarith
  from block_device.read_one [OF assms(1,2), of "sector + fs_offset (fs_info w)" B] assms(9) us obtain w1
    where rd: "read_fsector E sector B 1 w = Some (SDMMC_OK, w1)" and v: "same_vars w w1" and m: "mem w1 = put_bytes (unat B) (disk ?k) (mem w)"
    by (auto simp: yields_def read_fsector_def)
  note l = block_device.disk_length [OF assms(1), of ?k]
  have bt: "disk ?k = bytes_at (mem w1) (unat B) 512" using bytes_at_put [of "unat B" "disk ?k" "mem w"] by (simp add: l m)
  have d: "dir_sector_search True name (mem w1) 16 B = dir_lookup name (dir_entries (disk ?k))"
    using dir_sector_lookup [OF bt assms(4), of 16 name] by simp
  have s: "cluster_search E name 1 sector w = Some ((SDMMC_OK, dir_scan name [disk ?k]), w1)"
    using rd d v by (cases "dir_lookup name (dir_entries (disk ?k))") (simp_all add: assms(3) same_vars_def SDMMC_OK_def)
  have e: "(c * 4) mod SECTOR_SIZE = of_nat ?o"
  proof -
    have o: "unat ((c * 4) mod SECTOR_SIZE) = ?o" using assms(8) by (simp add: SECTOR_SIZE_def unat_mod_distrib unat_word_ariths mult.commute)
    then show ?thesis unfolding o [symmetric] by simp
  qed
  have "ld32 (mem w1) (B + of_nat ?o) = le32 (take 4 (drop ?o (disk ?k)))"
    unfolding bt by (rule ld32_bytes) (use entry_offset [of "unat c"] assms(4) in linarith)+
  moreover have "cache_valid w1" "g_fat_sector w1 = fat1_start (fs_info w1) + (c * 4) div SECTOR_SIZE" "fat_type (fs_info w1) = 32"
    using v assms(5-7) by (simp_all add: same_vars_def)
  ultimately show ?thesis using s by (intro exI [of _ w1]) (simp add: fat_get_fat_entry_def get_fat_entry32_def Let_def e)
qed

text \<open>
  C26: the cached sector of the table can be stale. \<open>fat_copy_file\<close> of a file with at least two clusters leaves the flag of the
  cache set and, as the number of the cached sector, that with the entry of the last cluster but one. The search of a directory
  that comes next, when the load is tried again, reads a sector of the directory into the same buffer; flag and number stay.
  The entry of any cluster of that sector of the table is then taken from the sector of the directory.
\<close>

theorem fat_cache_stale:
  assumes "block_device E good disk cap" "good w" "blk w = B"
    and "volume_ok cap (fs_info w)" "file_ok cap disk (fs_info w) cs sz" "1 < length cs" "room_ok B buf (length cs * cluster_bytes (fs_info w))"
    and "table_sector (fs_info w) c = table_sector (fs_info w) (cs ! (length cs - 2))" "unat c < 2 ^ 30"
    and "k = unat sector + unat (fs_offset (fs_info w))" "k < cap"
  shows "\<exists>w1 w2. fat_copy_file E B (cs ! 0) sz buf w = Some (SDMMC_OK, w1) \<and> cache_valid w1 \<and>
    g_fat_sector w1 = table_sector (fs_info w) (cs ! (length cs - 2)) \<and>
    cluster_search E name 1 sector w1 = Some ((SDMMC_OK, dir_scan name [disk k]), w2) \<and>
    fat_get_fat_entry E B c w2 = Some (le32 (take 4 (drop (4 * unat c mod 512) (disk k))) AND 0x0fffffff, w2)"
proof -
  from block_device.copy_file_run [OF assms(1,4,5,2,7)] assms(6) obtain w1
    where l: "fat_copy_file E B (cs ! 0) sz buf w = Some (SDMMC_OK, w1)" "cache_valid w1" "g_fat_sector w1 = table_sector (fs_info w) (cs ! (length cs - 2))"
      and v: "good w1" "blk w1 = B" "fs_info w1 = fs_info w" by (auto simp: yields_def assms(3))
  have "unat B + 512 \<le> 2 ^ 32" "fat_type (fs_info w1) = 32" "cap < 2 ^ 32" using assms(4,7) v(3) by (simp_all add: room_ok_def volume_ok_def)
  moreover have "g_fat_sector w1 = table_sector (fs_info w1) c" using l(3) assms(8) v(3) by simp
  ultimately show ?thesis using stale_entry [OF assms(1) v(1,2) _ _ l(2) _ assms(9), of sector name] l assms(10,11) v(3) by fastforce
qed

lemma demo_root_bytes: "le32 (take 4 (drop 8 demo_root)) = 0" "le32 (take 4 (drop 8 demo_table)) AND 0x0fffffff = 0x0fffffff"
  by (simp_all add: word32_nth demo_root_def demo_table_def sector_of_nth demo_name_def upt_conv_Cons)

lemma demo_world_ready: "simcard.ready demo_world"
  unfolding simcard.ready_def simcard.sd_self by (simp add: demo_world_simps demo_ready)

theorem fat_cache_stale_witness:
  \<comment> \<open>the entry of cluster 2 on the card is the mark of the end; after a load and a search it is read as 0\<close>
  "fat32_entry demo_disk (disk_info demo_disk) 2 = 0x0fffffff \<and>
   (\<exists>w1 d w2. fat_copy_file (sim_sd demo_disk) 0x900000 3 600 0x18000000 demo_world = Some (SDMMC_OK, w1) \<and> cache_valid w1 \<and>
      cluster_search (sim_sd demo_disk) [0x58] 1 1026 w1 = Some ((SDMMC_OK, d), w2) \<and>
      fat_get_fat_entry (sim_sd demo_disk) 0x900000 2 w2 = Some (0, w2))"
proof
  show "fat32_entry demo_disk (disk_info demo_disk) 2 = 0x0fffffff"
    using demo_root_bytes(2) by (simp add: fat32_entry_def demo_info demo_disk_def)
  have f: "fs_info demo_world = disk_info demo_disk" "blk demo_world = 0x900000" by (simp_all add: demo_world_def)
  have v: "volume_ok 66560 (fs_info demo_world)" by (simp add: f demo_info volume_ok_def)
  have t: "table_sector (fs_info demo_world) 2 = table_sector (fs_info demo_world) ([3, 5] ! (length [3, 5 :: u32] - 2))"
    by (simp add: f demo_info SECTOR_SIZE_def)
  from fat_cache_stale [OF simcard.dev.block_device_axioms demo_world_ready f(2) _ _ _ _ t, of 600 "0x18000000" 1034 1026 "[0x58]"]
    demo_file demo_room v demo_root_bytes(1)
  show "\<exists>w1 d w2. fat_copy_file (sim_sd demo_disk) 0x900000 3 600 0x18000000 demo_world = Some (SDMMC_OK, w1) \<and> cache_valid w1 \<and>
      cluster_search (sim_sd demo_disk) [0x58] 1 1026 w1 = Some ((SDMMC_OK, d), w2) \<and>
      fat_get_fat_entry (sim_sd demo_disk) 0x900000 2 w2 = Some (0, w2)"
    by (fastforce simp: f demo_info demo_disk_def)
qed

subsection \<open>From the card to the jump\<close>

definition boot_file :: "ipl_vars \<Rightarrow> u32 \<Rightarrow> u8 list \<Rightarrow> bool" where
  \<comment> \<open>a file that is an image: loaded at \<open>img\<close>, it is what the scan finds, and there is room for its startup program,
      whatever else is in memory\<close>
  "boot_file V img fl \<longleftrightarrow> 256 \<le> length fl \<and> unat img + length fl < 2 ^ 32 \<and> area img (length fl) \<inter> vars_area V = {} \<and>
     (\<forall>m. bytes_at m (unat img) (length fl) = fl \<longrightarrow>
        window_ok V m img (img + 0x200) \<and> images m img (img + 0x200) = {img} \<and> hdr_version m img \<noteq> 0 \<and>
        unat (hdr_startup_size m img) \<le> length fl \<and> setup_ok V m img \<and>
        area (ram_addr m img) (unat (hdr_startup_size m img)) \<inter> area img 256 = {})"

lemma boot_file_run:
  assumes V: "vars_ok V" and F: "boot_file V img fl" and b: "bytes_at m (unat img) (length fl) = fl"
    and m0: "m0 = put_bytes (unat img) fl m1"
  shows "\<exists>m2 m'. image_scan V img (img + 0x200) m = Some (img, m2) \<and> img \<noteq> 0xffffffff \<and>
    image_start V img (image_setup V img m2) = (hdr_startup_vaddr m0 img, m') \<and>
    bytes_at m' (unat (ram_addr m0 img)) (unat (hdr_startup_size m0 img)) = startup_program m0 img \<and>
    frame (vars_area V \<union> area (ram_addr m0 img) (unat (hdr_startup_size m0 img))) m m'"
proof -
  note f = F [unfolded boot_file_def]
  have ok: "window_ok V x img (img + 0x200) \<and> images x img (img + 0x200) = {img} \<and> hdr_version x img \<noteq> 0 \<and>
        unat (hdr_startup_size x img) \<le> length fl \<and> setup_ok V x img \<and>
        area (ram_addr x img) (unat (hdr_startup_size x img)) \<inter> area img 256 = {}" if "bytes_at x (unat img) (length fl) = fl" for x
    using f that by blast
  have n: "img \<noteq> 0xffffffff" using f by auto
  from image_scan_run [OF V] ok [OF b] obtain r v m2 where s: "image_scan V img (img + 0x200) m = Some (r, m2)" "frame (vars_area V) m m2"
    "newest m {img} r v" by fastforce
  have r: "r = img" using s(3) ok [OF b] by (auto simp: newest_def)
  have b2: "bytes_at m2 (unat img) (length fl) = fl" using frame_bytes [OF s(2)] f b by simp
  have b0: "bytes_at m0 (unat img) (length fl) = fl" unfolding m0 by (rule bytes_at_put)
  have same: "bytes_at m2 (unat img) k = bytes_at m0 (unat img) k" if "k \<le> length fl" for k
    using bytes_at_take [OF that] b2 b0 by metis
  note h = same_hdr [OF same [of 256]]
  have img: "unat img + 256 \<le> 2 ^ 32" using f by linarith
  have e: "hdr_startup_vaddr m2 img = hdr_startup_vaddr m0 img" "ram_addr m2 img = ram_addr m0 img"
    "hdr_startup_size m2 img = hdr_startup_size m0 img" "hdr_paddr_bias m2 img = hdr_paddr_bias m0 img"
    using h f img by (simp_all add: ram_addr_def)
  have p: "startup_program m2 img = startup_program m0 img"
    using same [of "unat (hdr_startup_size m0 img)"] ok [OF b0] by (simp add: startup_program_def e)
  from boot_run [OF V, of m2 img] ok [OF b2] obtain m' where "image_start V img (image_setup V img m2) = (hdr_startup_vaddr m2 img, m')"
    "bytes_at m' (unat (ram_addr m2 img)) (unat (hdr_startup_size m2 img)) = startup_program m2 img"
    and fr: "frame (area (startup_hdr V) 256 \<union> area (ram_addr m2 img) (unat (hdr_startup_size m2 img))) m2 m'" by blast
  moreover have "frame (vars_area V \<union> area (ram_addr m0 img) (unat (hdr_startup_size m0 img))) m m'"
    by (rule frame_trans [OF s(2) fr]) (auto simp: e)
  ultimately show ?thesis using s(1) n r p e by metis
qed

text \<open>
  C3: from the card to the jump. With the card and the volume of the load, and with a file (of less than 32 MB) that is an image when it is loaded at
  \<open>img\<close>, the loop of \<open>main\<close> ends: the loader jumps to the address that the header of the image names, the
  startup program is where the header says, and nothing else in memory has changed but the buffer for sectors, the area of the file
  and the loader's variables.
\<close>

theorem ipl_reaches_startup:
  assumes "sd_volume E MX6X_USDHC4_BASE idle view answer block capacity high_cap T disk n" and "idle (ctl w)"
    and "sdhc_ok X" "talk answer (sdhc_script X) (v_card (view (ctl w))) c'" "c' \<in> T" "stays answer T" and "n = (sdhc_c_size X + 1) * 1024"
    and "fat32_disk (unat n) disk" "root_found fn disk (disk_info disk) rs k sz" "\<forall>x \<in> set rs. cluster_ok (unat n) (disk_info disk) x"
    and "file_ok (unat n) disk (disk_info disk) cs sz" "cs ! 0 = k" "\<not> cache_valid w \<or> length rs = 1"
    and "room_ok B img (length cs * cluster_bytes (disk_info disk))"
    and "vars_ok V" "fl = file_data disk (disk_info disk) cs sz" "boot_file V img fl" "m0 = put_bytes (unat img) fl (mem w)"
  shows "\<exists>m'. ipl_loop E V B fn img w = Some (hdr_startup_vaddr m0 img, m') \<and>
    bytes_at m' (unat (ram_addr m0 img)) (unat (hdr_startup_size m0 img)) = startup_program m0 img \<and>
    frame (area B 1024 \<union> area img (length cs * cluster_bytes (disk_info disk)) \<union> vars_area V \<union>
      area (ram_addr m0 img) (unat (hdr_startup_size m0 img))) (mem w) m'"
proof -
  from sd_volume.load_run [OF assms(1) refl assms(2) refl assms(3-14)] obtain w1 where l: "sdmmc_load_file E B img fn w = Some (SDMMC_OK, w1)"
    and f1: "frame (area B 1024 \<union> area img (length cs * cluster_bytes (disk_info disk))) (mem w) (mem w1)"
    and b: "bytes_at (mem w1) (unat img) (unat sz) = fl" unfolding assms(16) by (auto simp: yields_def)
  have len: "length fl = unat sz" using b by (metis length_bytes_at)
  from boot_file_run [OF assms(15,17) _ assms(18)] b len obtain m2 m' where i: "image_scan V img (img + 0x200) (mem w1) = Some (img, m2)" "img \<noteq> 0xffffffff"
    "image_start V img (image_setup V img m2) = (hdr_startup_vaddr m0 img, m')"
    and p: "bytes_at m' (unat (ram_addr m0 img)) (unat (hdr_startup_size m0 img)) = startup_program m0 img"
    and f2: "frame (vars_area V \<union> area (ram_addr m0 img) (unat (hdr_startup_size m0 img))) (mem w1) m'" by metis
  have "ipl_loop E V B fn img w = Some (hdr_startup_vaddr m0 img, m')"
    by (subst ipl_loop.simps) (use l i in \<open>simp add: SDMMC_OK_def\<close>)
  moreover have "frame (area B 1024 \<union> area img (length cs * cluster_bytes (disk_info disk)) \<union> vars_area V \<union>
      area (ram_addr m0 img) (unat (hdr_startup_size m0 img))) (mem w) m'"
    by (rule frame_trans [OF f1 f2]) auto
  ultimately show ?thesis using p by blast
qed

abbreviation demo_contents :: "u8 list" where
  "demo_contents \<equiv> demo_sector @ replicate 88 (of_nat 1037)"

lemma demo_contents_words: "bytes_at m 0x18000000 600 = demo_contents \<Longrightarrow> has_words m 0x18000000 (demo_image @ replicate 58 0)"
proof -
  assume "bytes_at m 0x18000000 600 = demo_contents"
  then have "take 512 (bytes_at m 0x18000000 600) = demo_sector" by simp
  then show ?thesis unfolding has_words_def demo_sector_def by (simp add: demo_image_def bytes_at_def take_map del: upt_Suc)
qed

lemma demo_contents_no_hdr:
  assumes "has_words m 0x18000000 (demo_image @ replicate 58 0)" "0x18000000 < a" "a < 0x18000200" "4 dvd (unat a - 0x18000000)"
  shows "hdr_signature m a \<noteq> STARTUP_HDR_SIGNATURE"
proof -
  obtain i where i: "unat a - 0x18000000 = 4 * i" using assms(4) by (auto elim: dvdE)
  then have u: "unat a = 0x18000000 + 4 * i" "0 < i" "i < 128" using assms(2,3) by (auto simp: word_less_nat_alt)
  let ?l = "demo_image @ replicate 58 0"
  have "STARTUP_HDR_SIGNATURE \<notin> set (tl ?l)"
    by (simp add: demo_image_def STARTUP_HDR_SIGNATURE_def)
  moreover have l: "length ?l = 128" by (simp add: demo_image_def)
  then have "?l ! i \<in> set (tl ?l)" using u by (cases i) (auto simp: nth_tl [symmetric] simp del: tl_append intro: nth_mem)
  ultimately have "?l ! i \<noteq> STARTUP_HDR_SIGNATURE" by metis
  then show ?thesis using has_ld32 [OF assms(1) u(1)] u l by (simp add: hdr_signature_def)
qed

lemma demo_boot_file: "boot_file demo_vars 0x18000000 demo_contents"
proof -
  have "window_ok demo_vars m 0x18000000 0x18000200 \<and> images m 0x18000000 0x18000200 = {0x18000000} \<and> hdr_version m 0x18000000 \<noteq> 0 \<and>
      unat (hdr_startup_size m 0x18000000) \<le> 600 \<and> setup_ok demo_vars m 0x18000000 \<and>
      area (ram_addr m 0x18000000) (unat (hdr_startup_size m 0x18000000)) \<inter> area 0x18000000 256 = {}"
    if "bytes_at m 0x18000000 600 = demo_contents" for m
  proof -
    note w = demo_contents_words [OF that]
    note i = has_words_append [OF w]
    from demo_image_window [OF i, of "0x18000200"] demo_contents_no_hdr [OF w] demo_image_setup [OF i]
    show ?thesis by (simp add: demo_image_hdr [OF i] demo_ram_addr [OF i] ivl_disjoint)
  qed
  then show ?thesis by (simp add: boot_file_def demo_vars_def Int_Un_distrib ivl_disjoint)
qed

theorem ipl_reaches_startup_witness:
  "\<exists>m'. ipl_loop (sim_sd demo_disk) demo_vars 0x910000 demo_name 0x18000000 demo_world = Some (0x10001000, m')"
proof -
  let ?m0 = "put_bytes (unat (0x18000000 :: u32)) demo_contents (mem demo_world)"
  have t: "talk demo_answer (sdhc_script demo_sdhc) (v_card (ctl demo_world)) ()" using demo_talk by simp
  have room: "room_ok 0x910000 0x18000000 (length [3, 5 :: u32] * cluster_bytes (disk_info demo_disk))" by (simp add: room_ok_def demo_info)
  have "has_words ?m0 0x18000000 demo_image"
    using has_words_append [OF demo_contents_words [of ?m0]] bytes_at_put [of "0x18000000" demo_contents "mem demo_world"] by simp
  from demo_image_hdr(7) [OF this] ipl_reaches_startup [OF demo_volume TrueI demo_sdhc_ok t UNIV_I demo_stays demo_size [symmetric]
      _ _ _ _ _ _ room demo_vars_ok _ demo_boot_file refl] demo_fat32_disk demo_root_found demo_root_cluster demo_file demo_file_data
  show ?thesis by (fastforce simp: demo_world_simps)
qed

end
