(* ===== verification/Mdriver.thy ===== *)
theory Mdriver
  imports Mini_Can Strings
begin

section \<open>Calling mini-drivers\<close>

text \<open>
  The startup library's side of mini-drivers: \<^verbatim>\<open>mdriver.c\<close>, \<^verbatim>\<open>interrupt_valid.c\<close>, \<^verbatim>\<open>arm/cpu_mdriver.c\<close>, and the work that is
  interrupted by calls of them, \<^verbatim>\<open>memfuncs.c\<close> and the checksum of \<^verbatim>\<open>restore_ifs.c\<close>. A mini-driver is a handler that startup calls now and then
  while it works; before the kernel takes over, its entry is changed so that the kernel finds handler
  and data where they are in its address space.

  The section \<open>mdriver\<close> of the system page is a list of entries here, which grows with the section. Handlers are a
  parameter: \<open>md_call\<close> gives the result and the new state of a call at an address with a state and a data pointer,
  for a state of any type that holds memory, devices and the variable \<open>mdriver_max\<close>. The mapping of memory for the
  kernel builds page tables and is a parameter too. A handler of the model does not itself use \<open>kprintf\<close>, which would
  call the handlers again.
\<close>

subsection \<open>Data\<close>

record md_entry =
  e_intr :: u32
  e_name :: nat
  e_internal :: u32
  e_handler :: u32
  e_data :: u32
  e_data_paddr :: u32
  e_data_size :: u32

record intr_entry =
  vector_base :: u32
  num_vectors :: u32

record 's md_env =
  md_call :: "u32 \<Rightarrow> mdriver_state \<Rightarrow> u32 \<Rightarrow> 's \<Rightarrow> int \<times> 's"
  map_memory :: "u32 \<Rightarrow> u32 \<Rightarrow> bool \<Rightarrow> 's \<Rightarrow> u32 \<times> 's"
    \<comment> \<open>\<open>callout_memory_map(size, paddr, flags)\<close>; the flag tells code from data that is not cached\<close>
  read_mem :: "'s \<Rightarrow> nat \<Rightarrow> u8"
  write_mem :: "(nat \<Rightarrow> u8) \<Rightarrow> 's \<Rightarrow> 's"
  poll_max :: "'s \<Rightarrow> u32"       \<comment> \<open>\<open>mdriver_max\<close>\<close>
  INTR_SPARE :: u32              \<comment> \<open>\<open>_NTO_INTR_SPARE\<close>\<close>
  sizeof_mdriver_entry :: nat
  shdr_virtual :: bool            \<comment> \<open>\<open>shdr->flags1 & STARTUP_HDR_FLAGS1_VIRTUAL\<close>\<close>
  shdr_ram_paddr :: u32
  shdr_startup_size :: u32
  shdr_paddr_bias :: u32

datatype md_hook = Hook_dummy | Hook_prepare | Hook_fini

record 's md_world =
  page :: syspage_mem
  entries :: "md_entry list"      \<comment> \<open>\<open>lsp.mdriver\<close>\<close>
  intrinfo :: "intr_entry list"   \<comment> \<open>\<open>lsp.intrinfo\<close>\<close>
  check_on :: bool                \<comment> \<open>\<open>mdriver_check\<close> is \<open>mdriver_docheck\<close>, not \<open>hook_dummy\<close>\<close>
  hook :: md_hook                 \<comment> \<open>\<open>mdriver_hook\<close>\<close>
  func_diff :: u32
  rest :: 's

datatype mdriver_error = Invalid_interrupt | Syspage_error startup_error

subsection \<open>Operations\<close>

fun interrupt_valid :: "u32 \<Rightarrow> intr_entry list \<Rightarrow> bool" where
  "interrupt_valid interrupt [] = False"
| "interrupt_valid interrupt (intr # intrs) =
     (let vect = vector_base intr
      in if interrupt \<ge> vect \<and> interrupt < vect + num_vectors intr then True
      else interrupt_valid interrupt intrs)"

definition TRUNCPG :: "u32 \<Rightarrow> u32" where
  "TRUNCPG a = word_of_nat (TRUNC (unat a) 4096)"

definition ROUNDPG :: "u32 \<Rightarrow> u32" where
  "ROUNDPG a = word_of_nat (ROUND (unat a) 4096)"

definition cpu_mdriver_map :: "'s md_env \<Rightarrow> 's \<Rightarrow> u32 \<times> 's" where
  "cpu_mdriver_map E s =
     (if \<not> shdr_virtual E then (0, s)
      else
        let start = TRUNCPG (shdr_ram_paddr E);
            end1 = ROUNDPG (shdr_ram_paddr E + shdr_startup_size E);
            (new, s) = map_memory E (end1 - start) start True s
        in (new - start, s))"

definition cpu_mdriver_prepare :: "'s md_env \<Rightarrow> md_entry \<Rightarrow> 's \<Rightarrow> u32 \<times> 's" where
  "cpu_mdriver_prepare E md s =
     (if \<not> shdr_virtual E then (e_data md, s)
      else
        let start = TRUNCPG (e_data_paddr md);
            end1 = ROUNDPG (e_data_paddr md + e_data_size md);
            (new, s) = map_memory E (end1 - start) start False s
        in (new + (e_data_paddr md AND (4096 - 1)), s))"

definition md_visit :: "'s md_env \<Rightarrow> mdriver_state \<Rightarrow> (md_entry \<Rightarrow> 's \<Rightarrow> md_entry \<times> 's) \<Rightarrow> md_entry \<Rightarrow> 's \<Rightarrow> md_entry \<times> 's" where
  \<comment> \<open>the body of the three loops over the entries: call the handler, drop the entry when it asks for that, otherwise do
     what the loop does in the \<open>else\<close> branch\<close>
  "md_visit E st upd md s =
     (if e_intr md \<noteq> INTR_SPARE E then
        let (r, s) = md_call E (e_handler md) st (e_data md) s
        in if r \<noteq> 0 then (md\<lparr>e_intr := INTR_SPARE E\<rparr>, s) else upd md s
      else (md, s))"

primrec md_loop :: "(md_entry \<Rightarrow> 's \<Rightarrow> md_entry \<times> 's) \<Rightarrow> md_entry list \<Rightarrow> 's \<Rightarrow> md_entry list \<times> 's" where
  "md_loop f [] s = ([], s)"
| "md_loop f (md # mds) s =
     (let (md, s) = f md s; (mds, s) = md_loop f mds s in (md # mds, s))"

definition mdriver_docheck :: "'s md_env \<Rightarrow> 's md_world \<Rightarrow> 's md_world" where
  "mdriver_docheck E w =
     (let (mds, s) = md_loop (md_visit E MDRIVER_STARTUP Pair) (entries w) (rest w)
      in w\<lparr>entries := mds, rest := s\<rparr>)"

definition prepare_entry :: "'s md_env \<Rightarrow> md_entry \<Rightarrow> 's \<Rightarrow> md_entry \<times> 's" where
  "prepare_entry E md s = (let (d, s) = cpu_mdriver_prepare E md s in (md\<lparr>e_internal := d\<rparr>, s))"

definition mdriver_prepare :: "'s md_env \<Rightarrow> 's md_world \<Rightarrow> 's md_world" where
  "mdriver_prepare E w =
     (if entries w \<noteq> [] then
        let (diff, s) = cpu_mdriver_map E (rest w);
            (mds, s) = md_loop (md_visit E MDRIVER_STARTUP_PREPARE (prepare_entry E)) (entries w) s
        in w\<lparr>entries := mds, rest := s, func_diff := diff, hook := Hook_fini\<rparr>
      else w\<lparr>hook := Hook_fini\<rparr>)"

definition fini_entry :: "u32 \<Rightarrow> md_entry \<Rightarrow> 's \<Rightarrow> md_entry \<times> 's" where
  "fini_entry diff md s =
     (md\<lparr>e_handler := e_handler md + diff, e_data := e_internal md, e_internal := - 1\<rparr>, s)"

definition mdriver_fini :: "'s md_env \<Rightarrow> 's md_world \<Rightarrow> 's md_world" where
  "mdriver_fini E w =
     (let (mds, s) = md_loop (md_visit E MDRIVER_STARTUP_FINI (fini_entry (func_diff w))) (entries w) (rest w)
      in w\<lparr>entries := mds, rest := s\<rparr>)"

text \<open>The two function pointers of \<^verbatim>\<open>_main.c\<close>.\<close>

definition mdriver_check :: "'s md_env \<Rightarrow> 's md_world \<Rightarrow> 's md_world" where
  "mdriver_check E w = (if check_on w then mdriver_docheck E w else w)"

definition mdriver_hook :: "'s md_env \<Rightarrow> 's md_world \<Rightarrow> 's md_world" where
  "mdriver_hook E w =
     (case hook w of Hook_dummy \<Rightarrow> w | Hook_prepare \<Rightarrow> mdriver_prepare E w | Hook_fini \<Rightarrow> mdriver_fini E w)"

text \<open>Growing a section and entering a string, with the calls of the mini-drivers.\<close>

definition polled_grow :: "'s md_env \<Rightarrow> sect_id \<Rightarrow> nat \<Rightarrow> 's md_world \<Rightarrow> mdriver_error + 's md_world" where
  "polled_grow E i n w =
     (let w = mdriver_check E w
      in case grow_syspage_section i n (page w) of
           Inl e \<Rightarrow> Inl (Syspage_error e)
         | Inr p \<Rightarrow> Inr (w\<lparr>page := p\<rparr>))"

definition polled_add_string :: "'s md_env \<Rightarrow> cstr \<Rightarrow> 's md_world \<Rightarrow> mdriver_error + nat \<times> 's md_world" where
  "polled_add_string E name w =
     (case str_scan name 0 (contents (page w) S_strings) of
        None \<Rightarrow> Inl (Syspage_error (Bad_section S_strings))
      | Some (True, i) \<Rightarrow> Inr (i, w)
      | Some (False, i) \<Rightarrow>
          let len = length name + 2;
              spare = length (contents (page w) S_strings) - i
          in bindE (if len > spare then polled_grow E S_strings (len - spare) w else Inr w)
               (\<lambda>w. Inr (i, w\<lparr>page := poke S_strings i (name @ [0]) (page w)\<rparr>)))"

definition mdriver_add ::
  "'s md_env \<Rightarrow> cstr \<Rightarrow> u32 \<Rightarrow> u32 \<Rightarrow> u32 \<Rightarrow> u32 \<Rightarrow> 's md_world \<Rightarrow> mdriver_error + int \<times> 's md_world" where
  "mdriver_add E name intr handler data_paddr data_size w =
     (if \<not> interrupt_valid intr (intrinfo w) then Inl Invalid_interrupt
      else
        let data = data_paddr + shdr_paddr_bias E;
            (r, s) = md_call E handler MDRIVER_INIT data (rest w);
            w = w\<lparr>rest := s\<rparr>
        in if r \<noteq> 0 then Inr (- 1, w)
        else
          bindE (polled_add_string E name w) (\<lambda>(name_off, w).
          bindE (polled_grow E S_mdriver (sizeof_mdriver_entry E) w) (\<lambda>w.
            let md = \<lparr>e_intr = intr, e_name = name_off, e_internal = 0, e_handler = handler, e_data = data,
                      e_data_paddr = data_paddr, e_data_size = data_size\<rparr>
            in Inr (int (length (entries w)),
                    w\<lparr>entries := entries w @ [md], check_on := True, hook := Hook_prepare\<rparr>))))"

subsection \<open>Work with calls of the mini-drivers in between\<close>

partial_function (option) copy_pieces :: "'s md_env \<Rightarrow> nat \<Rightarrow> nat \<Rightarrow> nat \<Rightarrow> nat \<Rightarrow> 's md_world \<Rightarrow> 's md_world option" where
  "copy_pieces E most dst src len w =
     (let w = mdriver_check E w;
          amount = (if len > most then most else len);
          w = w\<lparr>rest := write_mem E (memmove (add32 dst (unat (shdr_paddr_bias E))) src amount (read_mem E (rest w))) (rest w)\<rparr>;
          len = len - amount
      in if len = 0 then Some w
      else copy_pieces E most (add32 dst amount) (add32 src amount) len w)"

definition startup_copy_memory :: "'s md_env \<Rightarrow> nat \<Rightarrow> nat \<Rightarrow> nat \<Rightarrow> 's md_world \<Rightarrow> 's md_world option" where
  "startup_copy_memory E dst src len w =
     (let most = (if entries w \<noteq> [] then unat (poll_max E (rest w)) else len)
      in copy_pieces E most dst src len w)"

definition word_at :: "(nat \<Rightarrow> u8) \<Rightarrow> nat \<Rightarrow> u32" where
  "word_at m a = le32 (bytes_at m a 4)"

definition mdriver_cksum_max :: int where
  "mdriver_cksum_max = 500 * 1024"

function cksum_pieces :: "'s md_env \<Rightarrow> int \<Rightarrow> nat \<Rightarrow> int \<Rightarrow> int \<Rightarrow> u32 \<Rightarrow> 's md_world \<Rightarrow> u32 \<times> 's md_world" where
  "cksum_pieces E most data len count acc w =
     (if len > 0 then
        let acc = acc + word_at (read_mem E (rest w)) data;
            count = count + 4
        in if count \<ge> most then cksum_pieces E most (add32 data 4) (len - 4) 0 acc (mdriver_check E w)
        else cksum_pieces E most (add32 data 4) (len - 4) count acc w
      else (acc, w))"
  by pat_completeness auto
termination
  by (relation "measure (\<lambda>(E, most, data, len, count, acc, w). nat len)") auto

declare cksum_pieces.simps [simp del]

definition rifs_checksum :: "'s md_env \<Rightarrow> nat \<Rightarrow> int \<Rightarrow> 's md_world \<Rightarrow> u32 \<times> 's md_world" where
  "rifs_checksum E ptr len w =
     (let most = (if entries w \<noteq> [] then mdriver_cksum_max else len)
      in cksum_pieces E most ptr len 0 0 w)"

end
