(* ===== verification/Mdriver_Calls.thy ===== *)
theory Mdriver_Calls
  imports Mdriver
begin

section \<open>The protocol of calls\<close>

text \<open>
  What a mini-driver can rely on, as an automaton over the states it is called with and its results: first \<open>MDRIVER_INIT\<close>, then any number
  of \<open>MDRIVER_STARTUP\<close>, then \<open>MDRIVER_STARTUP_PREPARE\<close>, again any number of \<open>MDRIVER_STARTUP\<close>, and last \<open>MDRIVER_STARTUP_FINI\<close>; a
  result other than 0 ends the calls. To state it, the calls are recorded in a log beside the state, which changes nothing
  else (\<open>startup_calls_log\<close>); the invariant relates the phase that the log of a driver is in to the entry it has.
\<close>

datatype md_driver = Driver u32 u32 \<comment> \<open>a handler and its data\<close>

type_synonym md_event = "md_driver \<times> mdriver_state \<times> int"

datatype md_phase = Fresh | Started | Prepared | Handed_over | Gone

fun md_next :: "md_phase \<Rightarrow> mdriver_state \<times> int \<Rightarrow> md_phase option" where
  "md_next Fresh (MDRIVER_INIT, r) = Some (if r = 0 then Started else Gone)"
| "md_next Started (MDRIVER_STARTUP, r) = Some (if r = 0 then Started else Gone)"
| "md_next Started (MDRIVER_STARTUP_PREPARE, r) = Some (if r = 0 then Prepared else Gone)"
| "md_next Prepared (MDRIVER_STARTUP, r) = Some (if r = 0 then Prepared else Gone)"
| "md_next Prepared (MDRIVER_STARTUP_FINI, r) = Some (if r = 0 then Handed_over else Gone)"
| "md_next _ _ = None"

primrec md_run :: "md_phase \<Rightarrow> (mdriver_state \<times> int) list \<Rightarrow> md_phase option" where
  "md_run p [] = Some p"
| "md_run p (e # es) = Option.bind (md_next p e) (\<lambda>p. md_run p es)"

definition md_phase_of :: "md_driver \<Rightarrow> md_event list \<Rightarrow> md_phase option" where
  \<comment> \<open>where the calls of a handler with a data pointer have led\<close>
  "md_phase_of k l = md_run Fresh (map snd (filter (\<lambda>e. fst e = k) l))"

definition md_key :: "md_entry \<Rightarrow> md_driver" where
  "md_key md = Driver (e_handler md) (e_data md)"

lemma md_run_append: "md_run p (es @ fs) = Option.bind (md_run p es) (\<lambda>p. md_run p fs)"
  by (induction es arbitrary: p) auto

lemma md_phase_of_snoc:
  "md_phase_of k (l @ [(k', e)]) = (if k = k' then Option.bind (md_phase_of k l) (\<lambda>p. md_next p e) else md_phase_of k l)"
  by (simp add: md_phase_of_def md_run_append)

lemma md_phase_of_Nil [simp]: "md_phase_of k [] = Some Fresh"
  by (simp add: md_phase_of_def)

subsection \<open>The log\<close>

definition logged :: "'s md_env \<Rightarrow> ('s \<times> md_event list) md_env" where
  "logged E =
     \<lparr>md_call = (\<lambda>h st d (s, l). let (r, s) = md_call E h st d s in (r, s, l @ [(Driver h d, st, r)])),
      map_memory = (\<lambda>n a x (s, l). let (v, s) = map_memory E n a x s in (v, s, l)),
      read_mem = (\<lambda>(s, l). read_mem E s),
      write_mem = (\<lambda>m (s, l). (write_mem E m s, l)),
      poll_max = (\<lambda>(s, l). poll_max E s),
      INTR_SPARE = INTR_SPARE E,
      sizeof_mdriver_entry = sizeof_mdriver_entry E,
      shdr_virtual = shdr_virtual E,
      shdr_ram_paddr = shdr_ram_paddr E,
      shdr_startup_size = shdr_startup_size E,
      shdr_paddr_bias = shdr_paddr_bias E\<rparr>"

definition with_log :: "'s md_world \<Rightarrow> md_event list \<Rightarrow> ('s \<times> md_event list) md_world" where
  "with_log w l =
     \<lparr>page = page w, entries = entries w, intrinfo = intrinfo w, check_on = check_on w, hook = hook w,
      func_diff = func_diff w, rest = (rest w, l)\<rparr>"

lemma logged_simps [simp]:
  "md_call (logged E) h st d (s, l) = (fst (md_call E h st d s), snd (md_call E h st d s), l @ [(Driver h d, st, fst (md_call E h st d s))])"
  "map_memory (logged E) n a x (s, l) = (fst (map_memory E n a x s), snd (map_memory E n a x s), l)"
  "INTR_SPARE (logged E) = INTR_SPARE E" "sizeof_mdriver_entry (logged E) = sizeof_mdriver_entry E"
  "shdr_virtual (logged E) = shdr_virtual E" "shdr_ram_paddr (logged E) = shdr_ram_paddr E"
  "shdr_startup_size (logged E) = shdr_startup_size E" "shdr_paddr_bias (logged E) = shdr_paddr_bias E"
  by (simp_all add: logged_def split_beta)

lemma with_log_simps [simp]:
  "page (with_log w l) = page w" "entries (with_log w l) = entries w" "intrinfo (with_log w l) = intrinfo w"
  "check_on (with_log w l) = check_on w" "hook (with_log w l) = hook w" "func_diff (with_log w l) = func_diff w"
  "rest (with_log w l) = (rest w, l)"
  "(with_log w l)\<lparr>page := p\<rparr> = with_log (w\<lparr>page := p\<rparr>) l"
  "(with_log w l)\<lparr>entries := mds\<rparr> = with_log (w\<lparr>entries := mds\<rparr>) l"
  "(with_log w l)\<lparr>check_on := c\<rparr> = with_log (w\<lparr>check_on := c\<rparr>) l"
  "(with_log w l)\<lparr>hook := h\<rparr> = with_log (w\<lparr>hook := h\<rparr>) l"
  "(with_log w l)\<lparr>func_diff := d\<rparr> = with_log (w\<lparr>func_diff := d\<rparr>) l"
  "(with_log w l)\<lparr>rest := (s, l')\<rparr> = with_log (w\<lparr>rest := s\<rparr>) l'"
  by (simp_all add: with_log_def)

lemma visit_log:
  assumes "\<And>md s l. \<exists>l'. updl md (s, l) = (fst (upd md s), snd (upd md s), l')"
  shows "\<exists>l'. md_visit (logged E) st updl md (s, l) = (fst (md_visit E st upd md s), snd (md_visit E st upd md s), l')"
  using assms by (auto simp: md_visit_def split_beta)

lemma loop_log:
  assumes "\<And>md s l. \<exists>l'. fl md (s, l) = (fst (f md s), snd (f md s), l')"
  shows "\<exists>l'. md_loop fl mds (s, l) = (fst (md_loop f mds s), snd (md_loop f mds s), l')"
proof (induction mds arbitrary: s l)
  case (Cons md mds)
  obtain l1 where "fl md (s, l) = (fst (f md s), snd (f md s), l1)" using assms by blast
  moreover obtain l2 where "md_loop fl mds (snd (f md s), l1) =
      (fst (md_loop f mds (snd (f md s))), snd (md_loop f mds (snd (f md s))), l2)" using Cons by blast
  ultimately show ?case by (auto simp: split_beta)
qed simp

lemma prepare_entry_log: "prepare_entry (logged E) md (s, l) = (fst (prepare_entry E md s), snd (prepare_entry E md s), l)"
  by (auto simp: prepare_entry_def cpu_mdriver_prepare_def Let_def split_beta)

lemma visit_loop_log:
  assumes "\<And>md s l. \<exists>l'. updl md (s, l) = (fst (upd md s), snd (upd md s), l')"
  obtains l' where "md_loop (md_visit (logged E) st updl) mds (s, l) =
    (fst (md_loop (md_visit E st upd) mds s), snd (md_loop (md_visit E st upd) mds s), l')"
proof -
  have "\<And>md s l. \<exists>l'. md_visit (logged E) st updl md (s, l) = (fst (md_visit E st upd md s), snd (md_visit E st upd md s), l')"
    using assms by (rule visit_log)
  from loop_log [of "md_visit (logged E) st updl" "md_visit E st upd", OF this] show thesis using that by blast
qed

lemma docheck_log: "\<exists>l'. mdriver_docheck (logged E) (with_log w l) = with_log (mdriver_docheck E w) l'"
  by (rule visit_loop_log [of Pair Pair E MDRIVER_STARTUP "entries w" "rest w" l])
    (auto simp: mdriver_docheck_def split_beta)

lemma check_log: "\<exists>l'. mdriver_check (logged E) (with_log w l) = with_log (mdriver_check E w) l'"
  using docheck_log by (auto simp: mdriver_check_def)

lemma map_log: "cpu_mdriver_map (logged E) (s, l) = (fst (cpu_mdriver_map E s), snd (cpu_mdriver_map E s), l)"
  by (simp add: cpu_mdriver_map_def Let_def split_beta)

lemma prepare_log: "\<exists>l'. mdriver_prepare (logged E) (with_log w l) = with_log (mdriver_prepare E w) l'"
  by (rule visit_loop_log [of "prepare_entry (logged E)" "prepare_entry E" E MDRIVER_STARTUP_PREPARE "entries w"
        "snd (cpu_mdriver_map E (rest w))" l])
    (auto simp: mdriver_prepare_def map_log prepare_entry_log split_beta)

lemma fini_log: "\<exists>l'. mdriver_fini (logged E) (with_log w l) = with_log (mdriver_fini E w) l'"
  by (rule visit_loop_log [of "fini_entry (func_diff w)" "fini_entry (func_diff w)" E MDRIVER_STARTUP_FINI "entries w" "rest w" l])
    (auto simp: mdriver_fini_def fini_entry_def split_beta)

lemma hook_log: "\<exists>l'. mdriver_hook (logged E) (with_log w l) = with_log (mdriver_hook E w) l'"
  using prepare_log fini_log by (auto simp: mdriver_hook_def split: md_hook.splits)

lemma grow_log:
  "\<exists>l'. polled_grow (logged E) i n (with_log w l) = map_sum id (\<lambda>w. with_log w l') (polled_grow E i n w)"
proof -
  obtain l' where "mdriver_check (logged E) (with_log w l) = with_log (mdriver_check E w) l'" using check_log by blast
  then show ?thesis by (auto simp: polled_grow_def split: sum.splits)
qed

lemma add_string_log:
  "\<exists>l'. polled_add_string (logged E) name (with_log w l) = map_sum id (\<lambda>(i, w). (i, with_log w l')) (polled_add_string E name w)"
proof -
  define n where "n = length name + 2 - (length (contents (page w) S_strings) - snd (the (str_scan name 0 (contents (page w) S_strings))))"
  obtain l' where l': "polled_grow (logged E) S_strings n (with_log w l) = map_sum id (\<lambda>w. with_log w l') (polled_grow E S_strings n w)"
    using grow_log by blast
  show ?thesis
    by (cases "polled_grow E S_strings n w") (use l' in \<open>auto simp: polled_add_string_def n_def Let_def split: option.splits bool.splits\<close>)
qed

lemma add_log:
  "\<exists>l'. mdriver_add (logged E) name intr h p n (with_log w l) =
     map_sum id (\<lambda>(i, w). (i, with_log w l')) (mdriver_add E name intr h p n w)"
proof (cases "interrupt_valid intr (intrinfo w) \<and> fst (md_call E h MDRIVER_INIT (p + shdr_paddr_bias E) (rest w)) = 0")
  case False
  then show ?thesis by (auto simp: mdriver_add_def split_beta Let_def)
next
  case True
  define d where "d = p + shdr_paddr_bias E"
  define w1 where "w1 = w\<lparr>rest := snd (md_call E h MDRIVER_INIT d (rest w))\<rparr>"
  define l1 where "l1 = l @ [(Driver h d, MDRIVER_INIT, 0 :: int)]"
  obtain l2 where l2: "polled_add_string (logged E) name (with_log w1 l1) =
      map_sum id (\<lambda>(i, w). (i, with_log w l2)) (polled_add_string E name w1)"
    using add_string_log by blast
  show ?thesis
  proof (cases "polled_add_string E name w1")
    case Inl
    then show ?thesis using True l2 by (auto simp: mdriver_add_def split_beta d_def w1_def l1_def)
  next
    case (Inr r)
    obtain i w2 where r: "r = (i, w2)" by force
    obtain l3 where "polled_grow (logged E) S_mdriver (sizeof_mdriver_entry E) (with_log w2 l2) =
        map_sum id (\<lambda>w. with_log w l3) (polled_grow E S_mdriver (sizeof_mdriver_entry E) w2)"
      using grow_log by blast
    then show ?thesis
      using True l2 Inr r
      by (cases "polled_grow E S_mdriver (sizeof_mdriver_entry E) w2")
        (auto simp: mdriver_add_def split_beta d_def w1_def l1_def Let_def)
  qed
qed

subsection \<open>What startup does with mini-drivers\<close>

text \<open>
  The main program of a board adds drivers and works, calling the drivers on the way; then \<^verbatim>\<open>init_system_private.c\<close> calls
  the hook, which prepares them; startup works on, and \<^verbatim>\<open>_main.c\<close> calls the hook again.
\<close>

datatype 's md_op =
    Op_add cstr u32 u32 u32 u32
  | Op_poll
  | Op_work "'s \<Rightarrow> 's"   \<comment> \<open>anything else the program does\<close>

primrec md_step :: "'s md_env \<Rightarrow> 's md_op \<Rightarrow> 's md_world \<Rightarrow> mdriver_error + 's md_world" where
  "md_step E (Op_add name intr handler paddr sz) w = map_sum id snd (mdriver_add E name intr handler paddr sz w)"
| "md_step E Op_poll w = Inr (mdriver_check E w)"
| "md_step E (Op_work f) w = Inr (w\<lparr>rest := f (rest w)\<rparr>)"

primrec md_ops :: "'s md_env \<Rightarrow> 's md_op list \<Rightarrow> 's md_world \<Rightarrow> mdriver_error + 's md_world" where
  "md_ops E [] w = Inr w"
| "md_ops E (op # ops) w = bindE (md_step E op w) (md_ops E ops)"

definition no_add :: "'s md_op \<Rightarrow> bool" where
  "no_add op \<longleftrightarrow> (case op of Op_add _ _ _ _ _ \<Rightarrow> False | _ \<Rightarrow> True)"

definition startup_calls :: "'s md_env \<Rightarrow> 's md_op list \<Rightarrow> 's md_op list \<Rightarrow> 's md_world \<Rightarrow> mdriver_error + 's md_world" where
  "startup_calls E ops1 ops2 w =
     bindE (md_ops E ops1 w) (\<lambda>w.
     bindE (md_ops E ops2 (mdriver_hook E w)) (\<lambda>w. Inr (mdriver_hook E w)))"

primrec lift_op :: "'s md_op \<Rightarrow> ('s \<times> md_event list) md_op" where
  "lift_op (Op_add name intr handler paddr sz) = Op_add name intr handler paddr sz"
| "lift_op Op_poll = Op_poll"
| "lift_op (Op_work f) = Op_work (\<lambda>(s, l). (f s, l))"

lemma op_log: "\<exists>l'. md_step (logged E) (lift_op op) (with_log w l) = map_sum id (\<lambda>w. with_log w l') (md_step E op w)"
proof (cases op)
  case (Op_add name intr handler paddr sz)
  obtain l' where "mdriver_add (logged E) name intr handler paddr sz (with_log w l) =
      map_sum id (\<lambda>(i, w). (i, with_log w l')) (mdriver_add E name intr handler paddr sz w)" using add_log by blast
  then show ?thesis using Op_add by (cases "mdriver_add E name intr handler paddr sz w") auto
qed (use check_log in auto)

lemma ops_log:
  "\<exists>l'. md_ops (logged E) (map lift_op ops) (with_log w l) = map_sum id (\<lambda>w. with_log w l') (md_ops E ops w)"
proof (induction ops arbitrary: w l)
  case (Cons op ops)
  obtain l1 where l1: "md_step (logged E) (lift_op op) (with_log w l) = map_sum id (\<lambda>w. with_log w l1) (md_step E op w)"
    using op_log by blast
  then show ?case
    using Cons by (cases "md_step E op w") auto
qed auto

lemma startup_calls_log:
  "\<exists>l'. startup_calls (logged E) (map lift_op ops1) (map lift_op ops2) (with_log w l) =
     map_sum id (\<lambda>w. with_log w l') (startup_calls E ops1 ops2 w)"
proof -
  obtain l1 where l1: "md_ops (logged E) (map lift_op ops1) (with_log w l) = map_sum id (\<lambda>w. with_log w l1) (md_ops E ops1 w)"
    using ops_log by blast
  show ?thesis
  proof (cases "md_ops E ops1 w")
    case Inl
    then show ?thesis using l1 by (simp add: startup_calls_def)
  next
    case (Inr w1)
    obtain l2 where l2: "mdriver_hook (logged E) (with_log w1 l1) = with_log (mdriver_hook E w1) l2" using hook_log by blast
    obtain l3 where l3: "md_ops (logged E) (map lift_op ops2) (with_log (mdriver_hook E w1) l2) =
        map_sum id (\<lambda>w. with_log w l3) (md_ops E ops2 (mdriver_hook E w1))" using ops_log by blast
    show ?thesis
      using l1 l2 l3 Inr hook_log [of E _ l3]
      by (cases "md_ops E ops2 (mdriver_hook E w1)") (auto simp: startup_calls_def)
  qed
qed

subsection \<open>The phase of every driver\<close>

abbreviation live :: "'s md_env \<Rightarrow> md_entry \<Rightarrow> bool" where
  "live E md \<equiv> e_intr md \<noteq> INTR_SPARE E"

definition protocol_ok :: "md_event list \<Rightarrow> bool" where
  "protocol_ok l \<longleftrightarrow> (\<forall>k. md_phase_of k l \<noteq> None)"

definition same_elsewhere :: "md_event list \<Rightarrow> md_event list \<Rightarrow> md_driver set \<Rightarrow> bool" where
  "same_elsewhere l l' K \<longleftrightarrow> (\<forall>k. k \<notin> K \<longrightarrow> md_phase_of k l' = md_phase_of k l)"

lemma same_elsewhereD: "same_elsewhere l l' K \<Longrightarrow> k \<notin> K \<Longrightarrow> md_phase_of k l' = md_phase_of k l"
  unfolding same_elsewhere_def by blast

lemma same_elsewhere_trans: "same_elsewhere l l1 {k} \<Longrightarrow> same_elsewhere l1 l2 K \<Longrightarrow> same_elsewhere l l2 (insert k K)"
  by (simp add: same_elsewhere_def)

lemma call_log:
  assumes "protocol_ok l" and "md_phase_of k l = Some p" and "md_next p (st, r) = Some q"
  shows "protocol_ok (l @ [(k, st, r)])" and "md_phase_of k (l @ [(k, st, r)]) = Some q"
    and "same_elsewhere l (l @ [(k, st, r)]) {k}"
  using assms by (auto simp: protocol_ok_def md_phase_of_snoc same_elsewhere_def)

definition visited :: "'s md_env \<Rightarrow> (md_entry \<Rightarrow> 's \<times> md_event list \<Rightarrow> md_entry \<times> 's \<times> md_event list) \<Rightarrow> md_phase \<Rightarrow>
    md_event list \<Rightarrow> md_entry \<Rightarrow> md_entry \<Rightarrow> bool" where
  \<comment> \<open>an entry before and after a visit: unless it is dropped, its driver has reached the phase\<close>
  "visited E upd q l md md' \<longleftrightarrow>
     (\<exists>s. md' = fst (upd md s) \<and> live E md' \<and> md_phase_of (md_key md) l = Some q) \<or>
     (\<not> live E md' \<and> md_key md' = md_key md)"

lemma loop_phases:
  assumes "\<And>r. md_next p (st, r) = Some (if r = 0 then q else Gone)"
    and upd: "\<And>md s l. snd (snd (upd md (s, l))) = l" "\<And>md s. e_intr (fst (upd md s)) = e_intr md"
    and "protocol_ok l" and "distinct (map md_key mds)" and "\<forall>md \<in> set mds. live E md \<longrightarrow> md_phase_of (md_key md) l = Some p"
    and "md_loop (md_visit (logged E) st upd) mds (s, l) = (mds', s', l')"
  shows "protocol_ok l' \<and> same_elsewhere l l' (md_key ` set mds) \<and> list_all2 (visited E upd q l') mds mds'"
  using assms(4-)
proof (induction mds arbitrary: s l mds')
  case Nil
  then show ?case by (auto simp: same_elsewhere_def)
next
  case (Cons md mds)
  obtain md1 s1 l1 where v: "md_visit (logged E) st upd md (s, l) = (md1, s1, l1)" by (metis prod_cases3)
  obtain mds1 where m: "md_loop (md_visit (logged E) st upd) mds (s1, l1) = (mds1, s', l')" "mds' = md1 # mds1"
    using Cons.prems(4) v by (auto simp: split_beta prod_eq_iff)
  have one: "protocol_ok l1 \<and> same_elsewhere l l1 {md_key md} \<and> visited E upd q l1 md md1"
  proof (cases "live E md")
    case False
    then have "l1 = l \<and> md1 = md" using v by (simp add: md_visit_def)
    then show ?thesis using False Cons.prems by (simp add: same_elsewhere_def visited_def)
  next
    case True
    define r where "r = fst (md_call E (e_handler md) st (e_data md) s)"
    have ph: "md_phase_of (md_key md) l = Some p" using Cons.prems(3) True by simp
    note c = call_log [OF Cons.prems(1) ph assms(1), of r]
    have k: "Driver (e_handler md) (e_data md) = md_key md" by (simp add: md_key_def)
    show ?thesis
    proof (cases "r = 0")
      case False
      then have "l1 = l @ [(md_key md, st, r)] \<and> md1 = md\<lparr>e_intr := INTR_SPARE E\<rparr>"
        using v True by (auto simp: md_visit_def r_def k)
      then show ?thesis using c by (simp add: visited_def md_key_def)
    next
      case z: True
      let ?a = "(snd (md_call E (e_handler md) st (e_data md) s), l @ [(md_key md, st, r)])"
      have "(md1, s1, l1) = upd md ?a" using v True z by (simp add: md_visit_def r_def k)
      then have "l1 = l @ [(md_key md, st, r)]" "md1 = fst (upd md ?a)"
        using upd(1) [of md "fst ?a" "snd ?a"] by (metis prod.collapse snd_conv, metis fst_conv)
      then show ?thesis using c z True upd(2) by (auto simp: visited_def)
    qed
  qed
  have d: "md_key md \<notin> md_key ` set mds" "distinct (map md_key mds)" using Cons.prems(2) by auto
  have "md_phase_of (md_key x) l1 = Some p" if "x \<in> set mds" "live E x" for x
  proof -
    have "md_key x \<notin> {md_key md}" using d(1) that by (metis imageI singletonD)
    then show ?thesis using Cons.prems(3) that one same_elsewhereD by fastforce
  qed
  then have "\<forall>x \<in> set mds. live E x \<longrightarrow> md_phase_of (md_key x) l1 = Some p" by blast
  from Cons.IH [OF _ d(2) this m(1)] one have IH: "protocol_ok l'" "same_elsewhere l1 l' (md_key ` set mds)"
      "list_all2 (visited E upd q l') mds mds1" by auto
  moreover have "visited E upd q l' md md1"
    using one same_elsewhereD [OF IH(2) d(1)] by (auto simp: visited_def)
  ultimately show ?case using one m(2) same_elsewhere_trans by auto
qed

definition prepared_entry :: "'s md_env \<Rightarrow> md_entry \<Rightarrow> bool" where
  "prepared_entry E md \<longleftrightarrow> (\<exists>s. e_internal md = fst (cpu_mdriver_prepare E md s))"

definition md_inv :: "'s md_env \<Rightarrow> md_phase \<Rightarrow> md_driver set \<Rightarrow> md_driver set \<Rightarrow> ('s \<times> md_event list) md_world \<Rightarrow> bool" where
  \<comment> \<open>the drivers that have an entry are in the phase \<open>p\<close>; those of \<open>pend\<close> are initialised and have no entry yet; those
     outside \<open>used\<close> have not been called\<close>
  "md_inv E p used pend w \<longleftrightarrow>
     protocol_ok (snd (rest w)) \<and> (\<forall>k. k \<notin> used \<longrightarrow> md_phase_of k (snd (rest w)) = Some Fresh) \<and>
     distinct (map md_key (entries w)) \<and> md_key ` set (entries w) \<union> pend \<subseteq> used \<and> md_key ` set (entries w) \<inter> pend = {} \<and>
     (\<forall>k \<in> pend. md_phase_of k (snd (rest w)) = Some Started) \<and>
     (\<forall>md \<in> set (entries w). live E md \<longrightarrow>
        md_phase_of (md_key md) (snd (rest w)) = Some p \<and> (p = Prepared \<longrightarrow> prepared_entry E md))"

lemma list_all2_key:
  assumes "\<And>x y. R x y \<Longrightarrow> f y = f x" and "list_all2 R xs ys"
  shows "map f ys = map f xs"
  using assms(2) by (induction rule: list_all2_induct) (simp_all add: assms(1))

lemma list_all2_source: "list_all2 R xs ys \<Longrightarrow> y \<in> set ys \<Longrightarrow> \<exists>x \<in> set xs. R x y"
  by (induction rule: list_all2_induct) auto

lemma loop_inv:
  assumes "\<And>r. md_next p (st, r) = Some (if r = 0 then q else Gone)"
    and upd: "\<And>md s l. snd (snd (upd md (s, l))) = l" "\<And>md s. e_intr (fst (upd md s)) = e_intr md"
      "\<And>md s. md_key (fst (upd md s)) = md_key md"
      "\<And>md s. q = Prepared \<Longrightarrow> (p = Prepared \<longrightarrow> prepared_entry E md) \<Longrightarrow> prepared_entry E (fst (upd md s))"
    and inv: "md_inv E p used pend w"
    and loop: "md_loop (md_visit (logged E) st upd) (entries w) (rest w) = (mds', s')"
  shows "md_inv E q used pend (w\<lparr>entries := mds', rest := s', func_diff := d, hook := h\<rparr>)"
proof -
  obtain s l s1 l' where sl: "rest w = (s, l)" "s' = (s1, l')" by fastforce
  have I: "protocol_ok l" "distinct (map md_key (entries w))"
      "\<forall>md \<in> set (entries w). live E md \<longrightarrow> md_phase_of (md_key md) l = Some p"
    using inv sl by (simp_all add: md_inv_def)
  from loop_phases [where upd = upd, OF assms(1) upd(1,2) I, of s mds' s1 l'] loop sl
  have L: "protocol_ok l'" "same_elsewhere l l' (md_key ` set (entries w))" "list_all2 (visited E upd q l') (entries w) mds'"
    by auto
  have keys: "map md_key mds' = map md_key (entries w)"
    by (rule list_all2_key [OF _ L(3)]) (auto simp: visited_def upd(3))
  then have sets: "md_key ` set mds' = md_key ` set (entries w)" by (metis set_map)
  have ph: "md_phase_of (md_key md') l' = Some q \<and> (q = Prepared \<longrightarrow> prepared_entry E md')"
    if m: "md' \<in> set mds'" "live E md'" for md'
  proof -
    note src = list_all2_source [OF L(3) m(1)]
    obtain md where md: "md \<in> set (entries w)" "visited E upd q l' md md'"
      using src by blast
    then obtain s where "md' = fst (upd md s)" "md_phase_of (md_key md) l' = Some q"
      using m(2) by (auto simp: visited_def)
    then show ?thesis using inv md(1) m(2) upd(2-4) by (auto simp: md_inv_def)
  qed
  have "md_phase_of k l' = md_phase_of k l" if "k \<notin> used \<or> k \<in> pend" for k
    using inv that by (intro same_elsewhereD [OF L(2)]) (auto simp: md_inv_def)
  then have "(\<forall>k. k \<notin> used \<longrightarrow> md_phase_of k l' = Some Fresh) \<and> (\<forall>k \<in> pend. md_phase_of k l' = Some Started)"
    using inv sl by (simp add: md_inv_def)
  then show ?thesis
    using inv L(1) keys sets ph sl by (simp add: md_inv_def)
qed

lemma check_inv:
  assumes "md_inv E p used pend w" and "p = Started \<or> p = Prepared"
  shows "md_inv E p used pend (mdriver_check (logged E) w)"
proof -
  obtain mds s where l: "md_loop (md_visit (logged E) MDRIVER_STARTUP Pair) (entries w) (rest w) = (mds, s)" by (metis surj_pair)
  have "md_inv E p used pend (w\<lparr>entries := mds, rest := s, func_diff := func_diff w, hook := hook w\<rparr>)"
    by (rule loop_inv [where upd = Pair, OF _ _ _ _ _ assms(1) l]) (use assms(2) in auto)
  then show ?thesis using assms l by (simp add: mdriver_check_def mdriver_docheck_def)
qed

lemma check_simps [simp]:
  "hook (mdriver_check E w) = hook w" "func_diff (mdriver_check E w) = func_diff w"
  "page (mdriver_check E w) = page w" "check_on (mdriver_check E w) = check_on w"
  by (simp_all add: mdriver_check_def mdriver_docheck_def split_beta)

lemma md_loop_length [simp]: "length (fst (md_loop f mds s)) = length mds"
  by (induction mds arbitrary: s) (simp_all add: split_beta)

lemma check_entries [simp]: "entries (mdriver_check E w) = [] \<longleftrightarrow> entries w = []"
  by (simp add: mdriver_check_def mdriver_docheck_def split_beta flip: length_0_conv)

lemma inv_page [simp]: "md_inv E p used pend (w\<lparr>page := x\<rparr>) = md_inv E p used pend w"
  by (simp add: md_inv_def)

lemma grow_inv2:
  assumes "polled_grow (logged E) i n w = Inr w'" and "md_inv E Started used pend w"
  shows "md_inv E Started used pend w'"
  using assms check_inv [OF assms(2)] by (auto simp: polled_grow_def split: sum.splits)

lemma add_string_inv:
  assumes "polled_add_string (logged E) name w = Inr (i, w')" and "md_inv E Started used pend w"
  shows "md_inv E Started used pend w'"
  using assms by (auto simp: polled_add_string_def Let_def bindE_Inr_iff grow_inv2 split: option.splits bool.splits if_splits)

lemma add_inv:
  assumes "mdriver_add (logged E) name intr h p n w = Inr (i, w')" and "md_inv E Started used {} w"
    and new: "(Driver h (p + shdr_paddr_bias E)) \<notin> used"
  shows "md_inv E Started (insert (Driver h (p + shdr_paddr_bias E)) used) {} w' \<and> 
     (if i = - 1 then hook w' = hook w \<and> check_on w' = check_on w \<and> entries w' = entries w
      else hook w' = Hook_prepare \<and> check_on w')"
proof -
  let ?k = "(Driver h (p + shdr_paddr_bias E))"
  obtain s l where sl: "rest w = (s, l)" by fastforce
  obtain r s1 where r: "md_call E h MDRIVER_INIT (p + shdr_paddr_bias E) s = (r, s1)" by fastforce
  have I: "protocol_ok l" "\<forall>k. k \<notin> used \<longrightarrow> md_phase_of k l = Some Fresh" using assms(2) sl by (simp_all add: md_inv_def)
  note c = call_log [OF I(1) _ , of ?k Fresh MDRIVER_INIT r "if r = 0 then Started else Gone"]
  have c: "protocol_ok (l @ [(?k, MDRIVER_INIT, r)])" "md_phase_of ?k (l @ [(?k, MDRIVER_INIT, r)]) = Some (if r = 0 then Started else Gone)"
      "\<And>k. k \<noteq> ?k \<Longrightarrow> md_phase_of k (l @ [(?k, MDRIVER_INIT, r)]) = md_phase_of k l"
    using I new c same_elsewhereD by auto
  define w1 where "w1 = w\<lparr>rest := (s1, l @ [(?k, MDRIVER_INIT, r)])\<rparr>"
  have w1: "md_inv E Started (insert ?k used) (if r = 0 then {?k} else {}) w1"
  proof -
    have "md_key md \<noteq> ?k" if "md \<in> set (entries w)" for md using assms(2) new that by (auto simp: md_inv_def)
    then show ?thesis using assms(2) c new sl by (auto simp: md_inv_def w1_def)
  qed
  show ?thesis
  proof (cases "r = 0")
    case False
    then have "i = - 1 \<and> w' = w1" using assms(1) r sl by (simp add: mdriver_add_def w1_def Let_def split: if_splits)
    then show ?thesis using w1 False by (simp add: w1_def)
  next
    case True
    then obtain j w2 w3 where a: "polled_add_string (logged E) name w1 = Inr (j, w2)"
        "polled_grow (logged E) S_mdriver (sizeof_mdriver_entry E) w2 = Inr w3" and
      w': "i = int (length (entries w3))" "w' = w3\<lparr>entries := entries w3 @ [\<lparr>e_intr = intr, e_name = j, e_internal = 0, e_handler = h,
         e_data = p + shdr_paddr_bias E, e_data_paddr = p, e_data_size = n\<rparr>], check_on := True, hook := Hook_prepare\<rparr>"
      using assms(1) r sl by (auto simp: mdriver_add_def w1_def Let_def bindE_Inr_iff split: if_splits)
    have "md_inv E Started (insert ?k used) {?k} w3"
      using grow_inv2 [OF a(2) add_string_inv [OF a(1)]] w1 True by simp
    then show ?thesis using w' by (auto simp: md_inv_def md_key_def)
  qed
qed

primrec op_keys :: "'s md_env \<Rightarrow> 's md_op list \<Rightarrow> md_driver list" where
  "op_keys E [] = []"
| "op_keys E (op # ops) =
     (case op of Op_add _ _ handler paddr _ \<Rightarrow> [Driver handler (paddr + shdr_paddr_bias E)] | _ \<Rightarrow> []) @ op_keys E ops"

lemma work_inv: "md_inv E p used pend w \<Longrightarrow> md_inv E p used pend (w\<lparr>rest := (f (fst (rest w)), snd (rest w))\<rparr>)"
  by (simp add: md_inv_def)

definition dummy_or :: "md_hook \<Rightarrow> 's md_world \<Rightarrow> bool" where
  "dummy_or h w \<longleftrightarrow> hook w = h \<and> check_on w \<or> hook w = Hook_dummy \<and> entries w = []"

lemma ops_inv:
  assumes "md_ops (logged E) (map lift_op ops) w = Inr w'" and "md_inv E Started used {} w" and "dummy_or Hook_prepare w"
    and "distinct (op_keys E ops)" and "used \<inter> set (op_keys E ops) = {}"
  shows "md_inv E Started (used \<union> set (op_keys E ops)) {} w' \<and> dummy_or Hook_prepare w'"
  using assms
proof (induction ops arbitrary: w used)
  case (Cons op ops)
  obtain w1 where w1: "md_step (logged E) (lift_op op) w = Inr w1" "md_ops (logged E) (map lift_op ops) w1 = Inr w'"
    using Cons.prems(1) by (auto simp: bindE_Inr_iff)
  show ?case
  proof (cases op)
    case (Op_add name intr h p n)
    obtain i where i: "mdriver_add (logged E) name intr h p n w = Inr (i, w1)"
      using w1(1) Op_add by (cases "mdriver_add (logged E) name intr h p n w") auto
    let ?k = "Driver h (p + shdr_paddr_bias E)"
    have "md_inv E Started (insert ?k used) {} w1 \<and> dummy_or Hook_prepare w1"
      using add_inv [OF i Cons.prems(2)] Cons.prems Op_add by (auto simp: dummy_or_def split: if_splits)
    then show ?thesis using Cons.IH [OF w1(2), of "insert ?k used"] Cons.prems Op_add by auto
  next
    case Op_poll
    then have "md_inv E Started used {} w1" "dummy_or Hook_prepare w1"
      using w1 Cons.prems check_inv [OF Cons.prems(2)] by (auto simp: dummy_or_def)
    then show ?thesis using Cons.IH [OF w1(2)] Cons.prems Op_poll by simp
  next
    case (Op_work f)
    then have "md_inv E Started used {} w1" "dummy_or Hook_prepare w1"
      using w1 Cons.prems work_inv [OF Cons.prems(2)] by (auto simp: dummy_or_def split_beta)
    then show ?thesis using Cons.IH [OF w1(2)] Cons.prems Op_work by simp
  qed
qed simp

lemma prepare_inv:
  assumes "md_inv E Started used {} w"
  shows "md_inv E Prepared used {} (mdriver_prepare (logged E) w)"
proof (cases "entries w = []")
  case True
  then show ?thesis using assms by (simp add: md_inv_def mdriver_prepare_def)
next
  case False
  obtain diff s where m: "cpu_mdriver_map (logged E) (rest w) = (diff, s)" by (metis surj_pair)
  have "snd s = snd (rest w)" using m map_log [of E "fst (rest w)" "snd (rest w)"] by auto
  then have inv: "md_inv E Started used {} (w\<lparr>rest := s\<rparr>)" using assms by (simp add: md_inv_def)
  obtain mds s1 where l: "md_loop (md_visit (logged E) MDRIVER_STARTUP_PREPARE (prepare_entry (logged E))) (entries w) s = (mds, s1)"
    by (metis surj_pair)
  have "md_inv E Prepared used {} ((w\<lparr>rest := s\<rparr>)\<lparr>entries := mds, rest := s1, func_diff := diff, hook := Hook_fini\<rparr>)"
  proof (rule loop_inv [where upd = "prepare_entry (logged E)", OF _ _ _ _ _ inv])
    show "prepared_entry E (fst (prepare_entry (logged E) md s))" for md s
      using prepare_entry_log [of E md "fst s" "snd s"]
      by (auto simp: prepared_entry_def prepare_entry_def cpu_mdriver_prepare_def Let_def split_beta)
  qed (use l in \<open>auto simp: prepare_entry_log\<close>, auto simp: prepare_entry_def md_key_def split_beta)
  then show ?thesis using False m l by (simp add: mdriver_prepare_def)
qed

lemma late_ops:
  assumes "md_ops (logged E) (map lift_op ops) w = Inr w'" and "md_inv E Prepared used {} w" and "dummy_or Hook_fini w"
    and "list_all no_add ops"
  shows "md_inv E Prepared used {} w' \<and> dummy_or Hook_fini w' \<and> func_diff w' = func_diff w"
  using assms
proof (induction ops arbitrary: w)
  case (Cons op ops)
  show ?case
  proof (cases op)
    case Op_poll
    then show ?thesis
      using Cons check_inv [OF Cons.prems(2)] by (simp add: dummy_or_def)
  next
    case (Op_work f)
    then show ?thesis
      using Cons work_inv [OF Cons.prems(2), of f] by (simp add: dummy_or_def split_beta)
  qed (use Cons in \<open>simp add: no_add_def\<close>)
qed simp

definition handed_over :: "'s md_env \<Rightarrow> md_event list \<Rightarrow> u32 \<Rightarrow> md_entry \<Rightarrow> bool" where
  \<comment> \<open>the entry is that of a driver whose calls in startup are complete; the handler is moved, and the data is where it was
     mapped for the kernel, at the same place in the page\<close>
  "handed_over E l diff md \<longleftrightarrow>
     (\<exists>h d. md_phase_of (Driver h d) l = Some Handed_over \<and> e_handler md = h + diff \<and> e_internal md = - 1 \<and>
        (if shdr_virtual E
         then \<exists>s. e_data md = fst (map_memory E (ROUNDPG (e_data_paddr md + e_data_size md) - TRUNCPG (e_data_paddr md))
                                  (TRUNCPG (e_data_paddr md)) False s) + (e_data_paddr md AND 4095)
         else e_data md = d))"

lemma fini_phases:
  assumes "md_inv E Prepared used {} w"
  shows "protocol_ok (snd (rest (mdriver_fini (logged E) w))) \<and>
     (\<forall>md \<in> set (entries (mdriver_fini (logged E) w)). live E md \<longrightarrow>
        handed_over E (snd (rest (mdriver_fini (logged E) w))) (func_diff w) md)"
proof -
  obtain s l where sl: "rest w = (s, l)" by fastforce
  let ?f = "fini_entry (func_diff w)"
  obtain mds s1 l1 where m: "md_loop (md_visit (logged E) MDRIVER_STARTUP_FINI ?f) (entries w) (s, l) = (mds, s1, l1)"
    by (metis prod_cases3)
  have L: "protocol_ok l1" "list_all2 (visited E ?f Handed_over l1) (entries w) mds"
    using loop_phases [where upd = ?f and p = Prepared and q = Handed_over, OF _ _ _ _ _ _ m] assms sl
    by (auto simp: md_inv_def fini_entry_def)
  have "handed_over E l1 (func_diff w) md'" if a: "md' \<in> set mds" "live E md'" for md'
  proof -
    note src = list_all2_source [OF L(2) a(1)]
    obtain md where md: "md \<in> set (entries w)" "visited E ?f Handed_over l1 md md'"
      using src by blast
    then have t: "md' = fst (fini_entry (func_diff w) md ())" "md_phase_of (md_key md) l1 = Some Handed_over"
      using a(2) by (auto simp: visited_def fini_entry_def)
    then have "prepared_entry E md" using assms md(1) a(2) by (simp add: md_inv_def fini_entry_def)
    then obtain s where s: "e_internal md = fst (cpu_mdriver_prepare E md s)" by (auto simp: prepared_entry_def)
    have "\<exists>s. x = fst (map_memory E a b c s) + z" if "x = fst (map_memory E a b c s) + z" for x a b c s z
      using that by blast
    then show ?thesis
      using t s unfolding handed_over_def
      by (intro exI [of _ "e_handler md"] exI [of _ "e_data md"])
        (auto simp: fini_entry_def md_key_def cpu_mdriver_prepare_def Let_def split_beta)
  qed
  then show ?thesis using m sl L(1) by (simp add: mdriver_fini_def)
qed

lemma startup_calls_protocol:
  assumes "startup_calls E ops1 ops2 w = Inr w'" and "entries w = []" and "hook w = Hook_dummy"
    and "distinct (op_keys E ops1)" and "list_all no_add ops2"
  shows "\<exists>log. startup_calls (logged E) (map lift_op ops1) (map lift_op ops2) (with_log w []) = Inr (with_log w' log) \<and>
     protocol_ok log \<and> (\<forall>md \<in> set (entries w'). live E md \<longrightarrow> handed_over E log (func_diff w') md) \<and>
     (entries w' \<noteq> [] \<longrightarrow> check_on w')"
proof -
  obtain log where log: "startup_calls (logged E) (map lift_op ops1) (map lift_op ops2) (with_log w []) = Inr (with_log w' log)"
    using startup_calls_log [of E ops1 ops2 w "[]"] assms(1) by auto
  then obtain w1 w2 where w12: "md_ops (logged E) (map lift_op ops1) (with_log w []) = Inr w1"
      "md_ops (logged E) (map lift_op ops2) (mdriver_hook (logged E) w1) = Inr w2" "with_log w' log = mdriver_hook (logged E) w2"
    by (auto simp: startup_calls_def bindE_Inr_iff)
  have "md_inv E Started {} {} (with_log w [])" "dummy_or Hook_prepare (with_log w [])"
    using assms(2,3) by (simp_all add: md_inv_def dummy_or_def protocol_ok_def)
  from ops_inv [OF w12(1) this] have i1: "md_inv E Started (set (op_keys E ops1)) {} w1" "dummy_or Hook_prepare w1"
    using assms(4) by auto
  have i2: "md_inv E Prepared (set (op_keys E ops1)) {} (mdriver_hook (logged E) w1) \<and> dummy_or Hook_fini (mdriver_hook (logged E) w1)"
  proof (cases "hook w1")
    case Hook_dummy
    then show ?thesis using i1 by (simp add: mdriver_hook_def dummy_or_def md_inv_def)
  next
    case Hook_prepare
    then show ?thesis using prepare_inv [OF i1(1)] i1(2)
      by (simp add: mdriver_hook_def dummy_or_def mdriver_prepare_def split_beta)
  qed (use i1 in \<open>simp add: dummy_or_def\<close>)
  with late_ops [OF w12(2)] assms(5) have i3: "md_inv E Prepared (set (op_keys E ops1)) {} w2" "dummy_or Hook_fini w2" by blast+
  show ?thesis
  proof (cases "hook w2 = Hook_fini")
    case True
    then have e: "with_log w' log = mdriver_fini (logged E) w2" using w12(3) by (simp add: mdriver_hook_def)
    have "protocol_ok log \<and> (\<forall>md \<in> set (entries w'). live E md \<longrightarrow> handed_over E log (func_diff w2) md)"
      using fini_phases [OF i3(1)] by (simp flip: e)
    moreover have "func_diff w' = func_diff w2 \<and> check_on w' = check_on w2"
      using arg_cong [OF e, of func_diff] arg_cong [OF e, of check_on] by (simp add: mdriver_fini_def split_beta)
    moreover have "check_on w2" using True i3(2) by (simp add: dummy_or_def)
    ultimately show ?thesis using log by auto
  next
    case False
    then have e: "with_log w' log = w2" "entries w2 = []" using w12(3) i3(2) by (auto simp: mdriver_hook_def dummy_or_def)
    then have "protocol_ok log" "entries w' = []" using i3(1) arg_cong [OF e(1), of rest] arg_cong [OF e(1), of entries]
      by (auto simp: md_inv_def)
    then show ?thesis using log by auto
  qed
qed

end
