(* ===== verification/Kprintf.thy ===== *)
theory Kprintf
  imports Mdriver Numbers
begin

section \<open>Formatted output\<close>

text \<open>
  \<^verbatim>\<open>kprintf.c\<close>. The text of a message is computed from the format and the arguments; then each character is
  written, with a call of the mini-drivers before it. An argument is one of the types that the
  conversions take; a conversion that finds another type, or none, is undefined in C and gives \<open>None\<close>, as does a
  format that ends with \<open>%\<close>, where the code reads on behind the end of the format.
\<close>

datatype karg = Arg_unsigned u32 | Arg_ulong u32 | Arg_paddr u32 | Arg_uint64 u64 | Arg_string string

primrec vdigits :: "nat \<Rightarrow> nat \<Rightarrow> nat \<Rightarrow> string \<Rightarrow> string option" where
  \<comment> \<open>the digits, written down from the end of the buffer, with the room that is left in it\<close>
  "vdigits 0 radix num vs = None"
| "vdigits (Suc room) radix num vs =
     (let vs = digit_chars ! (num mod radix) # vs;
          num = num div radix
      in if num = 0 then Some vs else vdigits room radix num vs)"

definition vnumber :: "nat \<Rightarrow> nat \<Rightarrow> nat \<Rightarrow> string option" where
  \<comment> \<open>a number with leading zeros; the buffer has 64 bytes, one of them for the terminating zero\<close>
  "vnumber dig radix num =
     map_option (\<lambda>vs. replicate (dig - length vs) (CHR ''0'') @ vs) (vdigits 63 radix num [])"

definition conversion :: "char \<Rightarrow> karg list \<Rightarrow> (string \<times> karg list) option" where
  "conversion c args =
     (if c = CHR ''b'' then
        (case args of Arg_unsigned v # as \<Rightarrow> map_option (\<lambda>s. (s, as)) (vnumber 2 16 (unat v)) | _ \<Rightarrow> None)
      else if c = CHR ''w'' then
        (case args of Arg_unsigned v # as \<Rightarrow> map_option (\<lambda>s. (s, as)) (vnumber 4 16 (unat v)) | _ \<Rightarrow> None)
      else if c = CHR ''P'' then
        (case args of Arg_paddr v # as \<Rightarrow> map_option (\<lambda>s. (s, as)) (vnumber 8 16 (unat v)) | _ \<Rightarrow> None)
      else if c = CHR ''x'' \<or> c = CHR ''X'' \<or> c = CHR ''l'' then
        (case args of Arg_ulong v # as \<Rightarrow> map_option (\<lambda>s. (s, as)) (vnumber 8 16 (unat v)) | _ \<Rightarrow> None)
      else if c = CHR ''L'' then
        (case args of Arg_uint64 v # as \<Rightarrow> map_option (\<lambda>s. (s, as)) (vnumber 16 16 (unat v)) | _ \<Rightarrow> None)
      else if c = CHR ''d'' \<or> c = CHR ''u'' then
        (case args of Arg_unsigned v # as \<Rightarrow> map_option (\<lambda>s. (s, as)) (vnumber 0 10 (unat v)) | _ \<Rightarrow> None)
      else if c = CHR ''s'' then
        (case args of Arg_string s # as \<Rightarrow> Some (s, as) | _ \<Rightarrow> None)
      else Some ([c], args))"

fun vmsg :: "string \<Rightarrow> karg list \<Rightarrow> string option" where
  "vmsg [] args = Some []"
| "vmsg [c] args = (if c \<noteq> CHR ''%'' then Some [c] else None)"
| "vmsg (c # d # fmt) args =
     (if c \<noteq> CHR ''%'' then map_option ((#) c) (vmsg (d # fmt) args)
      else Option.bind (conversion d args) (\<lambda>(s, args). map_option ((@) s) (vmsg fmt args)))"

text \<open>Writing a character, on a device or into a string.\<close>

definition newline :: char where "newline = CHR 0x0A"
definition carriage_return :: char where "carriage_return = CHR 0x0D"

definition one_char :: "'s md_env \<Rightarrow> (char \<Rightarrow> 's \<Rightarrow> 's) \<Rightarrow> char \<Rightarrow> 's md_world \<Rightarrow> 's md_world" where
  "one_char E print_char c w =
     (let w = mdriver_check E w;
          w = (if c = newline then w\<lparr>rest := print_char carriage_return (rest w)\<rparr> else w)
      in w\<lparr>rest := print_char c (rest w)\<rparr>)"

definition kprintf :: "'s md_env \<Rightarrow> (char \<Rightarrow> 's \<Rightarrow> 's) \<Rightarrow> string \<Rightarrow> karg list \<Rightarrow> 's md_world \<Rightarrow> 's md_world option" where
  "kprintf E print_char fmt args w = map_option (\<lambda>s. fold (one_char E print_char) s w) (vmsg fmt args)"

definition one_char_string :: "'s md_env \<Rightarrow> char \<Rightarrow> string \<times> 's md_world \<Rightarrow> string \<times> 's md_world" where
  \<comment> \<open>with \<open>string_print_char\<close> in the place of the device's function\<close>
  "one_char_string E c bw =
     (let (buff, w) = bw;
          w = mdriver_check E w;
          buff = (if c = newline then buff @ [carriage_return] else buff)
      in (buff @ [c], w))"

definition ksprintf :: "'s md_env \<Rightarrow> string \<Rightarrow> karg list \<Rightarrow> 's md_world \<Rightarrow> (string \<times> 's md_world) option" where
  "ksprintf E fmt args w = map_option (\<lambda>s. fold (one_char_string E) s ([], w)) (vmsg fmt args)"

subsection \<open>Numbers\<close>

lemma vdigits_correct:
  assumes "2 \<le> b" "v < b ^ n" "n \<le> room" "0 < n"
  shows "\<exists>ds. vdigits room b v acc = Some (map ((!) digit_chars) ds @ acc) \<and> (\<forall>d \<in> set ds. d < b) \<and>
     (\<forall>a. digits_val b a ds = a * b ^ length ds + v) \<and> ds \<noteq> [] \<and> length ds \<le> n"
  using assms
proof (induction n arbitrary: v room acc)
  case (Suc n)
  obtain r where r: "room = Suc r" using Suc.prems by (cases room) auto
  show ?case
  proof (cases "v div b = 0")
    case True
    then have "v < b" using Suc.prems by (simp add: div_eq_0_iff)
    then show ?thesis using True by (intro exI [of _ "[v]"]) (simp add: r Let_def digits_val_def)
  next
    case False
    then have n: "0 < n" using Suc.prems by (cases n) auto
    have "v div b < b ^ n" using Suc.prems(2) by (simp add: less_mult_imp_div_less mult.commute)
    then obtain ds where ds: "vdigits r b (v div b) (digit_chars ! (v mod b) # acc) =
        Some (map ((!) digit_chars) ds @ digit_chars ! (v mod b) # acc)" "\<forall>d \<in> set ds. d < b"
        "\<forall>a. digits_val b a ds = a * b ^ length ds + v div b" "length ds \<le> n"
      using Suc.IH [of "v div b" r] n Suc.prems r by fastforce
    have "digits_val b a (ds @ [v mod b]) = a * b ^ length (ds @ [v mod b]) + v" for a
      using ds(3) by (simp add: digits_val_def distrib_right)
    then show ?thesis
      using ds False Suc.prems(1) by (intro exI [of _ "ds @ [v mod b]"]) (auto simp: r Let_def)
  qed
qed simp

lemma digits_val_zeros: "digits_val b 0 (replicate k 0 @ ds) = digits_val b 0 ds"
  by (induction k) (simp_all add: digits_val_def)

lemma vnumber_correct:
  assumes "2 \<le> b" "b \<le> 16" "v < b ^ n" "0 < n" "n \<le> 63" "v < 2 ^ 32"
  shows "\<exists>s. vnumber dig b v = Some s \<and> dig \<le> length s \<and> length s \<le> max dig n \<and> (\<forall>c \<in> set s. c \<noteq> CHR ''x'' \<and> c \<noteq> CHR ''X'') \<and>
     strtopaddr s (int b) = (word_of_nat v, [])"
proof -
  obtain ds where ds: "vdigits 63 b v [] = Some (map ((!) digit_chars) ds @ [])" "\<forall>d \<in> set ds. d < b"
      "\<forall>a. digits_val b a ds = a * b ^ length ds + v" "ds \<noteq> []" "length ds \<le> n"
    using vdigits_correct [of b v n 63 "[]"] assms by auto
  define es where "es = replicate (dig - length ds) 0 @ ds"
  have es: "\<forall>d \<in> set es. d < b" "digits_val b 0 es = v" "es \<noteq> []"
    using ds assms(1) digits_val_zeros [of b "dig - length ds" ds] by (auto simp: es_def)
  let ?s = "map ((!) digit_chars) es"
  have "digit_chars ! 0 = CHR ''0''" by (simp add: digit_chars_def)
  then have s: "vnumber dig b v = Some ?s" using ds(1) by (simp add: vnumber_def es_def)
  have x: "digit_chars ! d \<noteq> CHR ''x'' \<and> digit_chars ! d \<noteq> CHR ''X''" if "d \<in> set es" for d
    using digit_value [of d] es(1) assms(2) that by (force simp: radix_value_def code_def)
  then have "\<not> hexstr ?s" by (auto simp: hexstr_def split: list.splits)
  then have "strtopaddr ?s (int b) = (word_of_nat v, [])"
    using radix_loop_digits [OF es(1) assms(2), of "[]" 0] es assms(1) by (simp add: strtopaddr_def)
  moreover have "dig \<le> length ?s" "length ?s \<le> max dig n" using ds(5) by (auto simp: es_def)
  ultimately show ?thesis using s x by auto
qed

text \<open>
  A number printed by \<open>kprintf\<close> is read back by \<open>strtopaddr\<close>: in decimal with \<open>%d\<close>, and with eight hexadecimal digits with \<open>%x\<close>; the
  text around it is kept.
\<close>

theorem kprintf_number_round_trip:
  "(\<exists>s. vmsg (''%d'') [Arg_unsigned v] = Some s \<and> length s \<le> 10 \<and> strtopaddr s 10 = (v, [])) \<and>
   (\<exists>s. vmsg (''%x'') [Arg_ulong v] = Some s \<and> length s = 8 \<and> strtopaddr s 16 = (v, []))"
proof
  have v: "unat v < 2 ^ 32" "unat v < 10 ^ 10" "unat v < 16 ^ 8" using unat32_less [of v] by simp_all
  obtain s where s: "vnumber 0 10 (unat v) = Some s" "length s \<le> max 0 10" "strtopaddr s (int 10) = (word_of_nat (unat v), [])"
    using vnumber_correct [OF _ _ v(2) _ _ v(1), of 0] by force
  have "int 10 = 10" "max 0 (10 :: nat) = 10" by simp_all
  then show "\<exists>s. vmsg (''%d'') [Arg_unsigned v] = Some s \<and> length s \<le> 10 \<and> strtopaddr s 10 = (v, [])"
    using s by (simp add: conversion_def)
  obtain t where t: "vnumber 8 16 (unat v) = Some t" "8 \<le> length t" "length t \<le> max 8 8"
      "strtopaddr t (int 16) = (word_of_nat (unat v), [])"
    using vnumber_correct [OF _ _ v(3) _ _ v(1), of 8] by force
  have "int 16 = 16" by simp
  then show "\<exists>s. vmsg (''%x'') [Arg_ulong v] = Some s \<and> length s = 8 \<and> strtopaddr s 16 = (v, [])"
    using t by (simp add: conversion_def)
qed

lemma vmsg_append: "CHR ''%'' \<notin> set s \<Longrightarrow> vmsg (s @ fmt) args = map_option ((@) s) (vmsg fmt args)"
proof (induction s)
  case (Cons c s)
  then have "vmsg (c # x) args = map_option ((#) c) (vmsg x args)" for x
    by (cases x) auto
  then show ?case using Cons by (simp add: option.map_comp comp_def)
next
  case Nil
  have "(@) [] = (\<lambda>x :: string. x)" by auto
  then show ?case by (simp add: option.map_ident)
qed

end
