(* ===== verification/Mdriver_Claims.thy ===== *)
theory Mdriver_Claims
  imports Mdriver_Calls Kprintf
begin

section \<open>Mini-drivers: the handler for tests, and the theorems\<close>

subsection \<open>The handler of mini-data\<close>

text \<open>
  \<^verbatim>\<open>mini_data.c\<close>: a handler that counts its calls and keeps the states it was called with behind its data. The numbers of the states
  are those of a system header and are a parameter.
\<close>

record mini_data_t =
  md_nstartup :: u16
  md_nstartupp :: u16
  md_nstartupf :: u16
  md_nkernel :: u16
  md_nprocess :: u16
  data_len :: u16
  md_buf :: "nat \<Rightarrow> u8"   \<comment> \<open>the memory behind the structure\<close>

definition mini_data_room :: nat where
  "mini_data_room = MINI_DATA_BUF_SIZE - 12"

definition mini_data_init :: "mini_data_t \<Rightarrow> mini_data_t" where
  "mini_data_init m = m\<lparr>md_nstartup := 0, md_nstartupf := 0, md_nstartupp := 0, md_nkernel := 0, md_nprocess := 0, data_len := 0\<rparr>"

definition mini_data_count :: "mdriver_state \<Rightarrow> mini_data_t \<Rightarrow> mini_data_t" where
  "mini_data_count st m =
     (case st of
        MDRIVER_STARTUP \<Rightarrow> m\<lparr>md_nstartup := md_nstartup m + 1\<rparr>
      | MDRIVER_STARTUP_PREPARE \<Rightarrow> m\<lparr>md_nstartupp := md_nstartupp m + 1\<rparr>
      | MDRIVER_STARTUP_FINI \<Rightarrow> m\<lparr>md_nstartupf := md_nstartupf m + 1\<rparr>
      | MDRIVER_KERNEL \<Rightarrow> m\<lparr>md_nkernel := md_nkernel m + 1\<rparr>
      | MDRIVER_PROCESS \<Rightarrow> m\<lparr>md_nprocess := md_nprocess m + 1\<rparr>
      | _ \<Rightarrow> m)"

definition mini_data :: "(mdriver_state \<Rightarrow> u8) \<Rightarrow> mdriver_state \<Rightarrow> mini_data_t \<times> u32 \<Rightarrow> int \<times> mini_data_t \<times> u32" where
  \<comment> \<open>on the data and \<open>mdriver_max\<close>\<close>
  "mini_data num st mx =
     (let (m, most) = mx;
          (m, most) = (if st = MDRIVER_INIT then (mini_data_init m, 16 * 1024) else (m, most));
          m = mini_data_count st m
      in if st = MDRIVER_INTR_ATTACH then (1, m, most)
      else if unat (data_len m) < mini_data_room
      then (0, m\<lparr>md_buf := (md_buf m)(unat (data_len m) := num st), data_len := data_len m + 1\<rparr>, most)
      else (0, m, most))"

definition mini_data_call :: "(mdriver_state \<Rightarrow> u8) \<Rightarrow> mdriver_state \<Rightarrow> mini_data_t \<Rightarrow> mini_data_t" where
  "mini_data_call num st m = fst (snd (mini_data num st (m, 0)))"

lemma mini_data_fst: "st \<noteq> MDRIVER_INTR_ATTACH \<Longrightarrow> fst (mini_data num st mx) = 0"
  by (simp add: mini_data_def split_beta Let_def)

text \<open>An image with this handler: the data of the drivers by address, the rest of the memory, and \<open>mdriver_max\<close>.\<close>

record mini_store =
  drivers :: "u32 \<Rightarrow> mini_data_t"
  memory :: "nat \<Rightarrow> u8"
  rate_max :: u32

definition mini_data_env :: "(mdriver_state \<Rightarrow> u8) \<Rightarrow> u32 \<Rightarrow> mini_store md_env" where
  "mini_data_env num handler =
     \<lparr>md_call = (\<lambda>h st d s.
        if h = handler then
          let (r, m, mx) = mini_data num st (drivers s d, rate_max s)
          in (r, s\<lparr>drivers := (drivers s)(d := m), rate_max := mx\<rparr>)
        else (1, s)),
      map_memory = (\<lambda>n a x s. (a + 0xFC000000, s)),
      read_mem = memory,
      write_mem = (\<lambda>m s. s\<lparr>memory := m\<rparr>),
      poll_max = rate_max,
      INTR_SPARE = 0xFFFFFFFF,
      sizeof_mdriver_entry = 32,
      shdr_virtual = True,
      shdr_ram_paddr = 0x10800000,
      shdr_startup_size = 0x20000,
      shdr_paddr_bias = 0\<rparr>"

lemma mini_data_records:
  assumes "MDRIVER_INIT \<notin> set sts" and "MDRIVER_INTR_ATTACH \<notin> set sts" and "length sts < mini_data_room"
    and "m' = fold (mini_data_call num) (MDRIVER_INIT # sts) m"
  shows "unat (data_len m') = length sts + 1" "md_nstartup m' = word_of_nat (count_list sts MDRIVER_STARTUP)"
    "map (md_buf m') [0..<length sts + 1] = map num (MDRIVER_INIT # sts)"
proof -
  have room: "mini_data_room = 65524" by (simp add: mini_data_room_def MINI_DATA_BUF_SIZE_def)
  have "unat (data_len m') = length sts + 1 \<and> (\<forall>i < length sts + 1. md_buf m' i = num ((MDRIVER_INIT # sts) ! i)) \<and>
      md_nstartup m' = word_of_nat (count_list sts MDRIVER_STARTUP)"
    using assms
  proof (induction sts arbitrary: m' rule: rev_induct)
    case Nil
    then show ?case
      by (simp add: mini_data_call_def mini_data_def mini_data_init_def mini_data_count_def room)
  next
    case (snoc st sts)
    define m1 where "m1 = fold (mini_data_call num) (MDRIVER_INIT # sts) m"
    have IH: "unat (data_len m1) = length sts + 1" "\<forall>i < length sts + 1. md_buf m1 i = num ((MDRIVER_INIT # sts) ! i)"
        "md_nstartup m1 = word_of_nat (count_list sts MDRIVER_STARTUP)"
      using snoc.IH [OF _ _ _ m1_def] snoc.prems by auto
    have m': "m' = mini_data_call num st m1" using snoc.prems(4) by (simp add: m1_def)
    have len: "data_len (mini_data_count st x) = data_len x" "md_buf (mini_data_count st x) = md_buf x" for x
      by (cases st; simp add: mini_data_count_def)+
    have st: "st \<noteq> MDRIVER_INIT" "st \<noteq> MDRIVER_INTR_ATTACH" using snoc.prems by auto
    then have e: "m' = (mini_data_count st m1)\<lparr>md_buf := (md_buf m1)(length sts + 1 := num st), data_len := data_len m1 + 1\<rparr>"
      using snoc.prems(3) IH(1) by (simp add: m' mini_data_call_def mini_data_def len room Let_def)
    have "unat (data_len m1 + 1) = length sts + 2"
      using IH(1) snoc.prems(3) room by (simp add: unat_word_ariths)
    moreover have "md_buf m' i = num ((MDRIVER_INIT # sts @ [st]) ! i)" if "i < length sts + 2" for i
      using IH(2) that nth_append [of "MDRIVER_INIT # sts" "[st]" i] by (cases "i < length sts + 1") (simp_all add: e)
    moreover have "md_nstartup m' = word_of_nat (count_list (sts @ [st]) MDRIVER_STARTUP)"
      using IH(3) by (cases st) (simp_all add: e mini_data_count_def)
    ultimately show ?case by (simp add: e)
  qed
  then show "unat (data_len m') = length sts + 1" "md_nstartup m' = word_of_nat (count_list sts MDRIVER_STARTUP)"
    "map (md_buf m') [0..<length sts + 1] = map num (MDRIVER_INIT # sts)"
    by (auto intro!: nth_equalityI simp: nth_Cons simp del: upt_Suc split: nat.splits)
qed

subsection \<open>Drivers that leave memory alone\<close>

locale quiet_drivers =
  fixes E :: "'s md_env" and A :: "nat set"
  assumes read_write: "read_mem E (write_mem E m s) = m"
    and call_quiet: "a \<in> A \<Longrightarrow> read_mem E (snd (md_call E h st d s)) a = read_mem E s a"
begin

lemma loop_quiet:
  assumes "a \<in> A"
  shows "read_mem E (snd (md_loop (md_visit E st Pair) mds s)) a = read_mem E s a"
  by (induction mds arbitrary: s) (simp_all add: md_visit_def split_beta call_quiet [OF assms])

lemma check_quiet: "a \<in> A \<Longrightarrow> read_mem E (rest (mdriver_check E w)) a = read_mem E (rest w) a"
  by (simp add: mdriver_check_def mdriver_docheck_def split_beta loop_quiet)

lemma copy_piece:
  assumes "{src..<src + k} \<subseteq> A" and "a \<in> A"
  shows "memmove d src k (read_mem E (rest (mdriver_check E w))) a = memmove d src k (read_mem E (rest w)) a"
proof -
  have "d \<le> a \<Longrightarrow> a < d + k \<Longrightarrow> src + (a - d) \<in> A" by (rule subsetD [OF assms(1)]) (simp, arith)
  then show ?thesis using assms(2) by (simp add: memmove_def check_quiet)
qed

lemma memmove_cong: "{src..<src + k} \<subseteq> A \<Longrightarrow> (\<And>a. a \<in> A \<Longrightarrow> m a = m' a) \<Longrightarrow> a \<in> A \<Longrightarrow> memmove d src k m a = memmove d src k m' a"
proof -
  assume a: "{src..<src + k} \<subseteq> A" "\<And>a. a \<in> A \<Longrightarrow> m a = m' a" "a \<in> A"
  have "d \<le> a \<Longrightarrow> a < d + k \<Longrightarrow> src + (a - d) \<in> A" by (rule subsetD [OF a(1)]) (simp, arith)
  then show ?thesis using a(2,3) by (simp add: memmove_def)
qed

lemma memmove_pieces:
  assumes "d \<le> src \<or> src + len \<le> d" and "k \<le> len"
  shows "memmove (d + k) (src + k) (len - k) (memmove d src k m) = memmove d src len m"
  using assms by (auto simp: memmove_def fun_eq_iff)

lemma pieces_correct:
  assumes "0 < most" and "src + len \<le> 2 ^ 32" and "dst + unat (shdr_paddr_bias E) + len \<le> 2 ^ 32"
    and "{src..<src + len} \<subseteq> A" and "{dst + unat (shdr_paddr_bias E)..<dst + unat (shdr_paddr_bias E) + len} \<subseteq> A"
    and "len \<le> most \<or> dst + unat (shdr_paddr_bias E) \<le> src \<or> src + len \<le> dst + unat (shdr_paddr_bias E)"
  shows "\<exists>w'. copy_pieces E most dst src len w = Some w' \<and>
     (\<forall>a \<in> A. read_mem E (rest w') a = memmove (dst + unat (shdr_paddr_bias E)) src len (read_mem E (rest w)) a)"
  using assms
proof (induction len arbitrary: dst src w rule: less_induct)
  case (less len)
  let ?b = "unat (shdr_paddr_bias E)"
  show ?case
  proof (cases "len \<le> most")
    case True
    have "len = 0 \<or> add32 dst ?b = dst + ?b" using less.prems(3) by (cases "len = 0") (auto intro!: add32_eq)
    then have "memmove (add32 dst ?b) src len = memmove (dst + ?b) src len" by (auto simp: memmove_def fun_eq_iff)
    then show ?thesis
      using True copy_piece [OF less.prems(4)] by (subst copy_pieces.simps) (simp add: read_write Let_def)
  next
    case False
    let ?w = "mdriver_check E w"
    let ?m = "memmove (dst + ?b) src most (read_mem E (rest ?w))"
    let ?w1 = "?w\<lparr>rest := write_mem E ?m (rest ?w)\<rparr>"
    have wrap: "add32 dst ?b = dst + ?b" "add32 dst most = dst + most" "add32 src most = src + most"
      using less.prems False by (auto intro!: add32_eq)
    have "\<exists>w'. copy_pieces E most (dst + most) (src + most) (len - most) ?w1 = Some w' \<and>
       (\<forall>a \<in> A. read_mem E (rest w') a = memmove (dst + most + ?b) (src + most) (len - most) (read_mem E (rest ?w1)) a)"
      using less.prems False by (intro less.IH) (auto simp: subset_eq)
    then obtain w' where w': "copy_pieces E most (dst + most) (src + most) (len - most) ?w1 = Some w'"
        "\<forall>a \<in> A. read_mem E (rest w') a = memmove (dst + most + ?b) (src + most) (len - most) ?m a"
      by (auto simp: read_write)
    have c: "copy_pieces E most dst src len w = Some w'"
      using False w'(1) by (subst copy_pieces.simps) (simp add: wrap Let_def)
    have "read_mem E (rest w') a = memmove (dst + ?b) src len (read_mem E (rest w)) a" if "a \<in> A" for a
    proof -
      have s: "{src + most..<src + most + (len - most)} \<subseteq> A" "{src..<src + most} \<subseteq> A" using less.prems(4) False by auto
      have "memmove (dst + most + ?b) (src + most) (len - most) ?m a =
          memmove (dst + ?b + most) (src + most) (len - most) (memmove (dst + ?b) src most (read_mem E (rest w))) a"
        unfolding add.assoc [of dst most] add.commute [of most ?b] add.assoc [of dst ?b, symmetric]
        by (rule memmove_cong [OF s(1) _ that]) (rule copy_piece [OF s(2)])
      also have "\<dots> = memmove (dst + ?b) src len (read_mem E (rest w)) a"
        using memmove_pieces [of "dst + ?b" src len most] less.prems(6) False by simp
      finally show ?thesis using w'(2) that by simp
    qed
    then show ?thesis using c by blast
  qed
qed

lemma pieces_sum:
  assumes "\<forall>k. k < 4 * n \<longrightarrow> data + k \<in> A" and "data + 4 * n \<le> 2 ^ 32"
    and "\<forall>a \<in> A. read_mem E (rest w) a = m a"
  shows "fst (cksum_pieces E most data (4 * int n) count acc w) = acc + (\<Sum>i<n. word_at m (data + 4 * i))"
  using assms
proof (induction n arbitrary: data count acc w)
  case 0
  then show ?case by (subst cksum_pieces.simps) simp
next
  case (Suc n)
  have "word_at (read_mem E (rest w)) data = word_at m data"
    unfolding word_at_def
    by (intro arg_cong [where f = le32] bytes_at_cong) (use Suc.prems(1,3) in auto)
  moreover have "(\<Sum>i<Suc n. word_at m (data + 4 * i)) = word_at m data + (\<Sum>i<n. word_at m (data + 4 + 4 * i))"
    by (subst sum.lessThan_Suc_shift) (simp add: algebra_simps)
  moreover have c: "fst (cksum_pieces E most (data + 4) (4 * int n) cnt x w1) = x + (\<Sum>i<n. word_at m (data + 4 + 4 * i))"
    if "\<forall>a \<in> A. read_mem E (rest w1) a = m a" for cnt x w1
  proof (rule Suc.IH [OF _ _ that])
    show "\<forall>k. k < 4 * n \<longrightarrow> data + 4 + k \<in> A" using Suc.prems(1) by (simp add: add.assoc)
    show "data + 4 + 4 * n \<le> 2 ^ 32" using Suc.prems(2) by simp
  qed
  moreover have "n = 0 \<or> add32 data 4 = data + 4" using Suc.prems(2) by (cases "n = 0") (auto intro!: add32_eq)
  moreover have "fst (cksum_pieces E most x 0 cnt y w1) = y" for x cnt y w1 by (subst cksum_pieces.simps) simp
  ultimately show ?case
    using Suc.prems(3) check_quiet
    by (subst cksum_pieces.simps) (cases "n = 0"; simp add: Let_def algebra_simps)
qed

end

lemma mini_data_quiet: "quiet_drivers (mini_data_env num h) UNIV"
  by unfold_locales (auto simp: mini_data_env_def split_beta)

interpretation mini_drivers: quiet_drivers "mini_data_env num h" UNIV for num h
  by (rule mini_data_quiet)

subsection \<open>An example\<close>

definition demo_store :: mini_store where
  "demo_store = \<lparr>drivers = (\<lambda>_. \<lparr>md_nstartup = 7, md_nstartupp = 7, md_nstartupf = 7, md_nkernel = 7, md_nprocess = 7,
     data_len = 7, md_buf = (\<lambda>_. 0)\<rparr>), memory = (\<lambda>a. word_of_nat a), rate_max = 1024\<rparr>"

definition demo_state_number :: "mdriver_state \<Rightarrow> u8" where
  "demo_state_number st =
     (case st of MDRIVER_INIT \<Rightarrow> 0 | MDRIVER_STARTUP \<Rightarrow> 1 | MDRIVER_STARTUP_PREPARE \<Rightarrow> 2 | MDRIVER_STARTUP_FINI \<Rightarrow> 3
      | MDRIVER_KERNEL \<Rightarrow> 4 | MDRIVER_PROCESS \<Rightarrow> 5 | MDRIVER_INTR_ATTACH \<Rightarrow> 6)"

abbreviation demo_md_env :: "mini_store md_env" where
  "demo_md_env \<equiv> mini_data_env demo_state_number 0x10801000"

definition demo_md_world :: "mini_store md_world" where
  "demo_md_world = \<lparr>page = demo_strings, entries = [], intrinfo = [\<lparr>vector_base = 0, num_vectors = 160\<rparr>],
     check_on = False, hook = Hook_dummy, func_diff = 0, rest = demo_store\<rparr>"

definition demo_polled :: md_entry where
  "demo_polled = \<lparr>e_intr = 45, e_name = 0, e_internal = 0, e_handler = 0x10801000, e_data = 0x20000010,
     e_data_paddr = 0x20000010, e_data_size = 0x10000\<rparr>"

definition demo_ops :: "mini_store md_op list" where
  "demo_ops = [Op_poll, Op_add (str ''mini'') 45 0x10801000 0x20000010 0x10000, Op_poll]"

lemma md_call_demo:
  "fst (md_call demo_md_env 0x10801000 st d s) = (if st = MDRIVER_INTR_ATTACH then 1 else 0)"
  by (simp add: mini_data_env_def mini_data_def split_beta Let_def)

lemma docheck_demo:
  assumes "entries w = [md]" and "e_handler md = 0x10801000"
  shows "entries (mdriver_check demo_md_env w) = [md]"
  using assms md_call_demo [of MDRIVER_STARTUP]
  by (simp add: mdriver_check_def mdriver_docheck_def md_visit_def split_beta)

lemma demo_add:
  assumes "w = demo_md_world"
  shows "\<exists>i w'. mdriver_add demo_md_env (str ''mini'') 45 0x10801000 0x20000010 0x10000 w = Inr (i, w') \<and>
     entries w' = [demo_polled] \<and> check_on w' \<and> hook w' = Hook_prepare"
proof -
  have p: "page w = demo_strings" "entries w = []" "\<not> check_on w" "intrinfo w = [\<lparr>vector_base = 0, num_vectors = 160\<rparr>]"
    using assms by (simp_all add: demo_md_world_def)
  have scan: "str_scan (str ''mini'') 0 (contents demo_strings S_strings) = Some (False, 0)"
    by (simp add: demo_strings_contents str_def numeral_eq_Suc)
  have sz: "total_size demo_strings = 80" "max_size demo_strings = 4096"
    by (simp_all add: demo_strings_def demo_page_def)
  let ?p = "poke S_strings 0 (str ''mini'' @ [0]) demo_strings"
  have "grow_fits 32 ?p" "total_size ?p + ROUND 32 8 \<le> max_size ?p"
    using sz by (simp_all add: poke_def grow_fits_def ROUND_def TRUNC_def)
  from grow_returns [OF this, of S_mdriver] obtain q where q: "grow_syspage_section S_mdriver 32 ?p = Inr q" by blast
  have e: "shdr_paddr_bias demo_md_env = 0" "sizeof_mdriver_entry demo_md_env = 32" by (simp_all add: mini_data_env_def)
  have c: "mdriver_check demo_md_env x = x" if "\<not> check_on x" for x using that by (simp add: mdriver_check_def)
  have l: "length (str ''mini'') = 4" "ssize (lsp demo_strings S_strings) = 8"
    by (simp add: str_def) (metis length_contents demo_strings_contents(1) length_replicate)
  show ?thesis
    using p q md_call_demo [of MDRIVER_INIT]
    by (simp add: mdriver_add_def Let_def split_beta e demo_polled_def polled_add_string_def scan l polled_grow_def c)
qed

lemma demo_startup:
  "\<exists>w'. startup_calls demo_md_env demo_ops [Op_poll] demo_md_world = Inr w' \<and>
     (\<exists>md. entries w' = [md] \<and> live demo_md_env md \<and> e_handler md = 0xC801000)"
proof -
  have c0: "mdriver_check demo_md_env demo_md_world = demo_md_world" by (simp add: mdriver_check_def demo_md_world_def)
  obtain i w1 where w1: "mdriver_add demo_md_env (str ''mini'') 45 0x10801000 0x20000010 0x10000 demo_md_world = Inr (i, w1)"
      "entries w1 = [demo_polled]" "hook w1 = Hook_prepare" "check_on w1"
    using demo_add [OF refl] by blast
  define w2 where "w2 = mdriver_check demo_md_env w1"
  have w2: "entries w2 = entries w1" "hook w2 = Hook_prepare" using w1 docheck_demo [of w1] by (simp_all add: w2_def demo_polled_def)
  define w3 where "w3 = mdriver_hook demo_md_env w2"
  have sp: "INTR_SPARE demo_md_env = 0xFFFFFFFF" by (simp add: mini_data_env_def)
  have w3: "hook w3 = Hook_fini" "func_diff w3 = 0xFC000000"
      "\<exists>md. entries w3 = [md] \<and> e_intr md = 45 \<and> e_handler md = 0x10801000"
    using w2 w1(2) md_call_demo [of MDRIVER_STARTUP_PREPARE]
    by (simp_all add: demo_polled_def w3_def mdriver_hook_def mdriver_prepare_def cpu_mdriver_map_def md_visit_def split_beta Let_def
        prepare_entry_def sp) (simp add: mini_data_env_def)
  then obtain md where md: "entries w3 = [md]" "e_intr md = 45" "e_handler md = 0x10801000" by blast
  define w4 where "w4 = mdriver_check demo_md_env w3"
  have w4: "entries w4 = [md]" "hook w4 = Hook_fini" "func_diff w4 = 0xFC000000"
    using docheck_demo [OF md(1,3)] w3 by (simp_all add: w4_def)
  have "startup_calls demo_md_env demo_ops [Op_poll] demo_md_world = Inr (mdriver_fini demo_md_env w4)"
    using w4(2) by (simp add: startup_calls_def demo_ops_def c0 w1(1) mdriver_hook_def w3_def [symmetric] w4_def [symmetric]
        flip: w2_def) (simp add: w3_def w4_def mdriver_hook_def)
  moreover have "\<exists>md. entries (mdriver_fini demo_md_env w4) = [md] \<and> live demo_md_env md \<and> e_handler md = 0xC801000"
    using w4 md md_call_demo [of MDRIVER_STARTUP_FINI]
    by (simp add: mdriver_fini_def md_visit_def split_beta sp fini_entry_def)
  ultimately show ?thesis by blast
qed

subsection \<open>Theorems\<close>



lemma fold_log_mono:
  assumes "\<And>c w. set (snd (rest w)) \<subseteq> set (snd (rest (f c w)))"
  shows "set (snd (rest w)) \<subseteq> set (snd (rest (fold f cs w)))"
  using assms by (induction cs arbitrary: w) (auto dest!: subsetD)

lemma loop_calls:
  "md_loop (md_visit (logged E) st Pair) mds (s, l) = (mds', s', l') \<Longrightarrow>
   set l \<subseteq> set l' \<and> (\<forall>md \<in> set mds. live E md \<longrightarrow> (\<exists>r. (md_key md, st, r) \<in> set l'))"
proof (induction mds arbitrary: s l mds')
  case (Cons md mds)
  obtain md1 s1 l1 where v: "md_visit (logged E) st Pair md (s, l) = (md1, s1, l1)" by (metis prod_cases3)
  obtain mds1 where m: "md_loop (md_visit (logged E) st Pair) mds (s1, l1) = (mds1, s', l')"
    using Cons.prems v by (auto simp: split_beta prod_eq_iff)
  have "set l \<subseteq> set l1 \<and> (live E md \<longrightarrow> (\<exists>r. (md_key md, st, r) \<in> set l1))"
    using v by (auto simp: md_visit_def md_key_def split: if_splits)
  then show ?case using Cons.IH [OF m] by auto
qed simp

lemma check_mono: "set (snd (rest w)) \<subseteq> set (snd (rest (mdriver_check (logged E) w)))"
proof -
  obtain s l where sl: "rest w = (s, l)" by fastforce
  obtain mds s' l' where m: "md_loop (md_visit (logged E) MDRIVER_STARTUP Pair) (entries w) (s, l) = (mds, s', l')"
    by (metis prod_cases3)
  from loop_calls [OF m] show ?thesis using sl m by (auto simp: mdriver_check_def mdriver_docheck_def)
qed

lemma check_calls:
  assumes "check_on w" and "md \<in> set (entries w)" and "live E md"
  shows "\<exists>r. (md_key md, MDRIVER_STARTUP, r) \<in> set (snd (rest (mdriver_check (logged E) w)))"
proof -
  obtain s l where sl: "rest w = (s, l)" by fastforce
  obtain mds s' l' where m: "md_loop (md_visit (logged E) MDRIVER_STARTUP Pair) (entries w) (s, l) = (mds, s', l')"
    by (metis prod_cases3)
  from loop_calls [OF m] show ?thesis using assms sl m by (auto simp: mdriver_check_def mdriver_docheck_def)
qed

definition lift_put :: "(char \<Rightarrow> 's \<Rightarrow> 's) \<Rightarrow> char \<Rightarrow> 's \<times> md_event list \<Rightarrow> 's \<times> md_event list" where
  "lift_put put c sl = (put c (fst sl), snd sl)"

lemma one_char_log:
  "set (snd (rest (mdriver_check (logged E) w))) \<subseteq> set (snd (rest (one_char (logged E) (lift_put put) c w)))"
  by (simp add: one_char_def lift_put_def Let_def)

lemma one_char_mono: "set (snd (rest w)) \<subseteq> set (snd (rest (one_char (logged E) (lift_put put) c w)))"
  using check_mono one_char_log by (rule subset_trans)

text \<open>
  The entries are meant for the kernel when they have been handed over, but \<open>mdriver_check\<close> goes on calling. When startup prints a
  message after that, as \<^verbatim>\<open>startnext.c\<close> and \<^verbatim>\<open>cpu_startnext.c\<close> do when \<open>debug_flag\<close> is set, the driver is called at the address that its handler has in the
  kernel, with the state of startup.
\<close>

theorem kprintf_calls_moved_handler:
  assumes "startup_calls E ops1 ops2 w = Inr w'" and "entries w = []" and "hook w = Hook_dummy"
    and "distinct (op_keys E ops1)" and "list_all no_add ops2"
    and "md \<in> set (entries w')" and "live E md" and "vmsg fmt args = Some (c # cs)"
  shows "\<exists>log h d w''. md_phase_of (Driver h d) log = Some Handed_over \<and> e_handler md = h + func_diff w' \<and>
     kprintf (logged E) (lift_put put) fmt args (with_log w' log) = Some w'' \<and>
     (\<exists>r. (Driver (h + func_diff w') (e_data md), MDRIVER_STARTUP, r) \<in> set (snd (rest w'')))"
proof -
  obtain log where log: "handed_over E log (func_diff w') md" "check_on w'"
    using startup_calls_protocol [OF assms(1-5)] assms(6,7) by force
  then obtain h d where hd: "md_phase_of (Driver h d) log = Some Handed_over" "e_handler md = h + func_diff w'"
    by (auto simp: handed_over_def)
  let ?w = "one_char (logged E) (lift_put put) c (with_log w' log)"
  obtain r where "(md_key md, MDRIVER_STARTUP, r) \<in> set (snd (rest (mdriver_check (logged E) (with_log w' log))))"
    using check_calls [of "with_log w' log" md E] log(2) assms(6,7) by auto
  then have "(md_key md, MDRIVER_STARTUP, r) \<in> set (snd (rest ?w))" using one_char_log by blast
  then have "(md_key md, MDRIVER_STARTUP, r) \<in> set (snd (rest (fold (one_char (logged E) (lift_put put)) cs ?w)))"
    using fold_log_mono [of "one_char (logged E) (lift_put put)", OF one_char_mono] by blast
  moreover have "md_key md = Driver (h + func_diff w') (e_data md)" using hd(2) by (simp add: md_key_def)
  ultimately show ?thesis
    using hd assms(8) by (intro exI [of _ log] exI [of _ h] exI [of _ d]) (auto simp: kprintf_def)
qed

theorem kprintf_calls_moved_handler_witness:
  "\<exists>w' log w''. startup_calls demo_md_env demo_ops [Op_poll] demo_md_world = Inr w' \<and>
     kprintf (logged demo_md_env) (lift_put (\<lambda>c s. s)) ''ok'' [] (with_log w' log) = Some w'' \<and>
     (\<exists>h d x r. md_phase_of (Driver h d) log = Some Handed_over \<and> (Driver (h + func_diff w') x, MDRIVER_STARTUP, r) \<in> set (snd (rest w'')))"
proof -
  obtain w' md where w': "startup_calls demo_md_env demo_ops [Op_poll] demo_md_world = Inr w'" "entries w' = [md]" "live demo_md_env md"
    using demo_startup by blast
  have e: "entries demo_md_world = []" "hook demo_md_world = Hook_dummy" "distinct (op_keys demo_md_env demo_ops)" "list_all no_add [Op_poll]"
    by (simp_all add: demo_md_world_def demo_ops_def no_add_def)
  have m: "md \<in> set (entries w')" using w'(2) by simp
  have v: "vmsg ''ok'' [] = Some (CHR ''o'' # ''k'')" by simp
  from kprintf_calls_moved_handler [OF w'(1) e m w'(3) v, of "\<lambda>c s. s"] w'(1) show ?thesis by blast
qed

text \<open>
  C23: \<open>copy_memory\<close> copies as \<open>memmove\<close> does, in pieces of at most \<open>mdriver_max\<close> bytes with a call of the drivers before each, provided that
  the drivers leave the two areas alone, which end below 4 GB, and that, when there are drivers, \<open>mdriver_max\<close> is not 0 and the
  copy goes downwards or the areas do not overlap. It returns for every length.
\<close>

theorem copy_memory_correct:
  fixes E :: "'s md_env"
  defines "b \<equiv> unat (shdr_paddr_bias E)"
  assumes "quiet_drivers E A" and "src + len \<le> 2 ^ 32" and "dst + b + len \<le> 2 ^ 32"
    and "{src..<src + len} \<union> {dst + b..<dst + b + len} \<subseteq> A"
    and "entries w = [] \<or> 0 < poll_max E (rest w) \<and> (dst + b \<le> src \<or> src + len \<le> dst + b)"
  shows "\<exists>w'. startup_copy_memory E dst src len w = Some w' \<and>
     (\<forall>a \<in> A. read_mem E (rest w') a = memmove (dst + b) src len (read_mem E (rest w)) a)"
proof -
  note quiet = assms(2)
  define most where "most = (if entries w \<noteq> [] then unat (poll_max E (rest w)) else len)"
  show ?thesis
  proof (cases "len = 0")
    case True
    have "copy_pieces E most dst src len w = Some ((mdriver_check E w)\<lparr>rest := write_mem E
        (memmove (add32 dst b) src 0 (read_mem E (rest (mdriver_check E w)))) (rest (mdriver_check E w))\<rparr>)"
      using True by (subst copy_pieces.simps) (simp add: b_def Let_def)
    moreover have "memmove x src 0 m = m" for x m by (auto simp: memmove_def fun_eq_iff)
    ultimately show ?thesis
      using True quiet_drivers.check_quiet [OF quiet] quiet_drivers.read_write [OF quiet]
      by (auto simp: startup_copy_memory_def most_def Let_def)
  next
    case False
    then have "0 < most" using assms(6) by (auto simp: most_def unat_gt_0)
    then show ?thesis
      using quiet_drivers.pieces_correct [OF quiet, of most src len dst w] assms(3-6) unfolding b_def
      by (auto simp: startup_copy_memory_def most_def)
  qed
qed

theorem copy_memory_correct_witness:
  "\<exists>w'. startup_copy_memory demo_md_env 0x1000 0x2000 5000 (demo_md_world\<lparr>entries := [demo_polled]\<rparr>) = Some w' \<and>
     (\<forall>i < 5000. memory (rest w') (0x1000 + i) = word_of_nat (0x2000 + i))"
proof -
  have e: "shdr_paddr_bias demo_md_env = 0" "read_mem demo_md_env = memory" "poll_max demo_md_env = rate_max"
    "memory (rest demo_md_world) = word_of_nat" "rate_max (rest demo_md_world) = 1024"
    by (simp_all add: mini_data_env_def demo_md_world_def demo_store_def fun_eq_iff)
  have "\<exists>w'. startup_copy_memory demo_md_env 0x1000 0x2000 5000 (demo_md_world\<lparr>entries := [demo_polled]\<rparr>) = Some w' \<and>
     (\<forall>a \<in> UNIV. read_mem demo_md_env (rest w') a = memmove (0x1000 + unat (shdr_paddr_bias demo_md_env)) 0x2000 5000
        (read_mem demo_md_env (rest (demo_md_world\<lparr>entries := [demo_polled]\<rparr>))) a)"
    by (rule copy_memory_correct [OF mini_data_quiet]) (simp_all add: e)
  then show ?thesis by (auto simp: e memmove_def)
qed

text \<open>
  Every piece begins with a call of each driver in force, so that no driver waits for longer than the copy of
  \<open>mdriver_max\<close> bytes takes.
\<close>

lemma loop_log_length:
  assumes "\<forall>h st d s. fst (md_call E h st d s) = 0"
    and "md_loop (md_visit (logged E) st Pair) mds (s, l) = (mds', s', l')"
  shows "mds' = mds \<and> length l' = length l + length (filter (live E) mds)"
  using assms(2)
proof (induction mds arbitrary: s l mds')
  case (Cons md mds)
  obtain md1 s1 l1 where v: "md_visit (logged E) st Pair md (s, l) = (md1, s1, l1)" by (metis prod_cases3)
  obtain mds1 where m: "md_loop (md_visit (logged E) st Pair) mds (s1, l1) = (mds1, s', l')" "mds' = md1 # mds1"
    using Cons.prems v by (auto simp: split_beta prod_eq_iff)
  have "md1 = md \<and> length l1 = length l + (if live E md then 1 else 0)"
    using v assms(1) by (auto simp: md_visit_def split: if_splits)
  then show ?case using Cons.IH [OF m(1)] m(2) by simp
qed simp

lemma check_log_length:
  assumes "\<forall>h st d s. fst (md_call E h st d s) = 0" and "check_on w"
  shows "entries (mdriver_check (logged E) w) = entries w \<and>
     length (snd (rest (mdriver_check (logged E) w))) = length (snd (rest w)) + length (filter (live E) (entries w))"
proof -
  obtain s l where sl: "rest w = (s, l)" by fastforce
  obtain mds s' l' where m: "md_loop (md_visit (logged E) MDRIVER_STARTUP Pair) (entries w) (s, l) = (mds, s', l')"
    by (metis prod_cases3)
  from loop_log_length [OF assms(1) m] show ?thesis using assms sl m by (auto simp: mdriver_check_def mdriver_docheck_def)
qed

lemma write_log [simp]: "snd (write_mem (logged E) m s) = snd s"
  by (cases s) (simp add: logged_def)

lemma copy_pieces_polls:
  assumes "\<forall>h st d s. fst (md_call E h st d s) = 0" and "check_on w" and "0 < most" and "0 < len"
    and "copy_pieces (logged E) most dst src len w = Some w'"
  shows "length (snd (rest w')) = length (snd (rest w)) + (len + most - 1) div most * length (filter (live E) (entries w))"
  using assms(2-)
proof (induction len arbitrary: dst src w rule: less_induct)
  case (less len)
  define n where "n = length (filter (live E) (entries w))"
  let ?w = "mdriver_check (logged E) w"
  note c = check_log_length [OF assms(1) less.prems(1)]
  show ?case
  proof (cases "len \<le> most")
    case True
    then have "(len + most - 1) div most = 1" using less.prems by (simp add: div_nat_eqI)
    then show ?thesis
      using True less.prems(4) c by (subst (asm) copy_pieces.simps) (auto simp: Let_def)
  next
    case False
    define w1 where "w1 = ?w\<lparr>rest := write_mem (logged E) (memmove (add32 dst (unat (shdr_paddr_bias E))) src most
      (read_mem (logged E) (rest ?w))) (rest ?w)\<rparr>"
    have w1: "check_on w1" "entries w1 = entries w" "length (snd (rest w1)) = length (snd (rest w)) + n"
      using c less.prems(1) by (simp_all add: w1_def n_def)
    have r: "copy_pieces (logged E) most (add32 dst most) (add32 src most) (len - most) w1 = Some w'"
      using less.prems(4) False by (subst (asm) copy_pieces.simps) (simp add: Let_def w1_def)
    have "length (snd (rest w')) = length (snd (rest w1)) + (len - most + most - 1) div most * n"
      using less.IH [OF _ w1(1) less.prems(2) _ r] False less.prems(2) w1(2) by (simp add: n_def)
    moreover have "(len + most - 1) div most = (len - 1) div most + 1"
      using False less.prems(2) by (metis Nat.add_diff_assoc2 Nat.diff_add_assoc2 One_nat_def Suc_leI add.commute div_add_self2 less.prems(3) less_numeral_extra(3))
    ultimately show ?thesis using w1(3) False by (simp add: n_def algebra_simps)
  qed
qed

text \<open>
  With a driver installed a copy upwards to an overlapping area is not a \<open>memmove\<close>: a copy of two pieces to the address one piece
  further up leaves the first piece twice, as the second piece was overwritten before it was read. Without drivers
  the copy is right (\<open>copy_memory_correct\<close>).
\<close>

theorem copy_memory_overlap:
  assumes "quiet_drivers E A" and "shdr_paddr_bias E = 0" and "entries w \<noteq> []"
    and "p = unat (poll_max E (rest w))" and "0 < p" and "src + 3 * p \<le> 2 ^ 32" and "{src..<src + 3 * p} \<subseteq> A"
  shows "\<exists>w'. startup_copy_memory E (src + p) src (2 * p) w = Some w' \<and>
     (\<forall>i < p. read_mem E (rest w') (src + 2 * p + i) = read_mem E (rest w) (src + i))"
proof -
  note q = quiet_drivers.read_write [OF assms(1)] quiet_drivers.check_quiet [OF assms(1)]
  define w1 where "w1 = mdriver_check E w"
  define w2 where "w2 = mdriver_check E (w1\<lparr>rest := write_mem E (memmove (src + p) src p (read_mem E (rest w1))) (rest w1)\<rparr>)"
  define w' where "w' = w2\<lparr>rest := write_mem E (memmove (src + p + p) (src + p) p (read_mem E (rest w2))) (rest w2)\<rparr>"
  have wrap: "add32 (src + p) 0 = src + p" "add32 (src + p + p) 0 = src + p + p" "add32 (src + p) p = src + p + p" "add32 src p = src + p"
    using assms(5,6) by (simp_all add: add32_def)
  have "copy_pieces E p (src + p + p) (src + p) p (w1\<lparr>rest := write_mem E (memmove (src + p) src p (read_mem E (rest w1))) (rest w1)\<rparr>) = Some w'"
    by (subst copy_pieces.simps) (simp add: assms(2) wrap Let_def w2_def [symmetric] w'_def)
  then have c: "copy_pieces E p (src + p) src (2 * p) w = Some w'"
    using assms(5) by (subst copy_pieces.simps) (simp add: assms(2) wrap Let_def w1_def [symmetric])
  have "read_mem E (rest w') (src + 2 * p + i) = read_mem E (rest w) (src + i)" if "i < p" for i
  proof -
    have A: "src + p + i \<in> A" "src + i \<in> A" by (rule subsetD [OF assms(7)], use that in simp)+
    have "read_mem E (rest w') (src + 2 * p + i) = read_mem E (rest w2) (src + p + i)"
      using that by (simp add: w'_def q(1) memmove_def)
    also have "\<dots> = read_mem E (rest w1) (src + i)"
      using that A(1) by (simp add: w2_def q memmove_def)
    also have "\<dots> = read_mem E (rest w) (src + i)" using A(2) by (simp add: w1_def q(2))
    finally show ?thesis .
  qed
  then show ?thesis using c assms(3,4) by (simp add: startup_copy_memory_def)
qed

theorem copy_memory_overlap_witness:
  "\<exists>w'. startup_copy_memory demo_md_env 0x1400 0x1000 2048 (demo_md_world\<lparr>entries := [demo_polled]\<rparr>) = Some w' \<and>
     memory (rest w') 0x1823 = 0x23 \<and> memory (rest w') 0x1AFF = word_of_nat 0x12FF"
proof -
  let ?w = "demo_md_world\<lparr>entries := [demo_polled]\<rparr>"
  have e: "shdr_paddr_bias demo_md_env = 0" "read_mem demo_md_env = memory" "poll_max demo_md_env = rate_max"
    "memory (rest demo_md_world) = word_of_nat" "rate_max (rest demo_md_world) = 1024"
    by (simp_all add: mini_data_env_def demo_md_world_def demo_store_def fun_eq_iff)
  have "\<exists>w'. startup_copy_memory demo_md_env (0x1000 + 1024) 0x1000 (2 * 1024) ?w = Some w' \<and>
     (\<forall>i < 1024. read_mem demo_md_env (rest w') (0x1000 + 2 * 1024 + i) = read_mem demo_md_env (rest ?w) (0x1000 + i))"
    by (rule copy_memory_overlap [OF mini_data_quiet]) (simp_all add: e)
  then obtain w' where w': "startup_copy_memory demo_md_env 0x1400 0x1000 2048 ?w = Some w'"
      "\<And>i. i < 1024 \<Longrightarrow> memory (rest w') (0x1800 + i) = word_of_nat (0x1000 + i)"
    by (auto simp: e)
  show ?thesis using w'(1) w'(2) [of "0x23"] w'(2) [of "0x2FF"] by simp
qed

text \<open>
  The checksum of \<^verbatim>\<open>restore_ifs.c\<close>, which calls the drivers whenever it has done 500 KB, is the sum of the words of the area if the drivers leave it
  alone.
\<close>

theorem rifs_checksum_correct:
  assumes "quiet_drivers E A" and "ptr + 4 * n \<le> 2 ^ 32" and "{ptr..<ptr + 4 * n} \<subseteq> A"
  shows "fst (rifs_checksum E ptr (4 * int n) w) = (\<Sum>i<n. word_at (read_mem E (rest w)) (ptr + 4 * i))"
  using quiet_drivers.pieces_sum [OF assms(1), of n ptr w "read_mem E (rest w)"] assms(2,3)
  by (auto simp: rifs_checksum_def Let_def subset_eq)

end
