(* ===== verification/Ipl_Serial.thy ===== *)
theory Ipl_Serial
  imports Ipl_Image Numbers
begin

section \<open>The initial program loader: the serial line\<close>

text \<open>
  \<^verbatim>\<open>lib/ser_dev.c\<close>, the registered device and the output of text and numbers, \<^verbatim>\<open>lib/image_download_ser.c\<close>, the download
  of an image, and the functions of \<^verbatim>\<open>boards/mx6x-sabreARD/serial.c\<close> that send, receive and poll.

  A device is three functions on a state of any type; \<open>None\<close> is that a function waits for ever. The contract \<open>serial_line\<close> has
  a device as two lists, the bytes that will arrive and those that have been sent. The functions of the board meet it on a
  simulated UART whose receiver and transmitter are ready only after some polls. In the download a
  record is the command, seven bytes of header, and as many bytes of data as the header says, less one.
\<close>

subsection \<open>The serial device\<close>

record 's ser_dev =
  get_byte :: "'s \<Rightarrow> (u8 \<times> 's) option"
  put_byte :: "u8 \<Rightarrow> 's \<Rightarrow> 's option"
  poll_key :: "'s \<Rightarrow> u8 \<times> 's"

definition ser_poll :: "'s ser_dev option \<Rightarrow> 's \<Rightarrow> u8 \<times> 's" where
  "ser_poll ser s = (case ser of None \<Rightarrow> (0, s) | Some dev \<Rightarrow> poll_key dev s)"

definition ser_getchar :: "'s ser_dev option \<Rightarrow> 's \<Rightarrow> (u8 \<times> 's) option" where
  "ser_getchar ser s = (case ser of None \<Rightarrow> Some (0, s) | Some dev \<Rightarrow> get_byte dev s)"

definition ser_putchar :: "'s ser_dev option \<Rightarrow> u8 \<Rightarrow> 's \<Rightarrow> 's option" where
  "ser_putchar ser c s =
     (case ser of
        None \<Rightarrow> Some s
      | Some dev \<Rightarrow> do { s \<leftarrow> (if c = 10 then put_byte dev 13 s else Some s); put_byte dev c s })"

primrec ser_putchars :: "'s ser_dev option \<Rightarrow> u8 list \<Rightarrow> 's \<Rightarrow> 's option" where
  "ser_putchars ser [] s = Some s"
| "ser_putchars ser (c # cs) s = do { s \<leftarrow> ser_putchar ser c s; ser_putchars ser cs s }"

definition ser_putstr :: "'s ser_dev option \<Rightarrow> cstr \<Rightarrow> 's \<Rightarrow> 's option" where
  "ser_putstr ser st s = (if ser = None then Some s else ser_putchars ser st s)"

primrec hex_buf :: "nat \<Rightarrow> u32 \<Rightarrow> string \<Rightarrow> string" where
  "hex_buf 0 x buf = buf"
| "hex_buf (Suc n) x buf = hex_buf n (drop_bit 4 x) (''0123456789ABCDEF'' ! unat (x AND 15) # buf)"

definition ser_puthexn :: "'s ser_dev option \<Rightarrow> u32 \<Rightarrow> nat \<Rightarrow> 's \<Rightarrow> 's option" where
  \<comment> \<open>\<open>_ser_puthex\<close>\<close>
  "ser_puthexn ser x sz s = (if ser = None then Some s else ser_putstr ser (str (hex_buf sz x [])) s)"

definition ser_puthex32 :: "'s ser_dev option \<Rightarrow> u32 \<Rightarrow> 's \<Rightarrow> 's option" where "ser_puthex32 ser x = ser_puthexn ser x 8"
definition ser_puthex16 :: "'s ser_dev option \<Rightarrow> u32 \<Rightarrow> 's \<Rightarrow> 's option" where "ser_puthex16 ser x = ser_puthexn ser x 4"
definition ser_puthex8 :: "'s ser_dev option \<Rightarrow> u32 \<Rightarrow> 's \<Rightarrow> 's option" where "ser_puthex8 ser x = ser_puthexn ser x 2"

primrec dec_buf :: "nat \<Rightarrow> u32 \<Rightarrow> string \<Rightarrow> string option" where
  \<comment> \<open>the digits with the last one first; \<open>None\<close> when the buffer is too small\<close>
  "dec_buf 0 n buf = None"
| "dec_buf (Suc room) n buf =
     (let m = n;
          n = n div 10;
          buf = buf @ [''0123456789'' ! unat (m - n * 10)]
      in if n > 0 then dec_buf room n buf else Some buf)"

definition ser_putdec :: "'s ser_dev option \<Rightarrow> u32 \<Rightarrow> 's \<Rightarrow> 's option" where
  "ser_putdec ser n s = do { buf \<leftarrow> dec_buf 10 n []; ser_putchars ser (str (rev buf)) s }"

subsection \<open>The UART of the board\<close>

definition MXC_UART_RXDATA :: u32 where "MXC_UART_RXDATA = 0x00"
definition MXC_UART_TXDATA :: u32 where "MXC_UART_TXDATA = 0x40"
definition MXC_UART_SR1 :: u32 where "MXC_UART_SR1 = 0x94"
definition MXC_UART_SR2 :: u32 where "MXC_UART_SR2 = 0x98"
definition MXC_USR1_TRDY :: u16 where "MXC_USR1_TRDY = push_bit 13 1"
definition MXC_USR2_RDR :: u16 where "MXC_USR2_RDR = 1"

record 's uart_env =
  uart_rd :: "u32 \<Rightarrow> 's \<Rightarrow> u16 \<times> 's"
  uart_wr :: "u32 \<Rightarrow> u16 \<Rightarrow> 's \<Rightarrow> 's"

definition mx6q_uart_pollkey :: "'s uart_env \<Rightarrow> 's \<Rightarrow> u8 \<times> 's" where
  "mx6q_uart_pollkey U s =
     (let (v, s) = uart_rd U MXC_UART_SR2 s in if v AND MXC_USR2_RDR \<noteq> 0 then (1, s) else (0, s))"

partial_function (option) mx6q_uart_getchar :: "'s uart_env \<Rightarrow> 's \<Rightarrow> (u8 \<times> 's) option" where
  "mx6q_uart_getchar U s =
     (let (k, s) = mx6q_uart_pollkey U s
      in if k = 0 then mx6q_uart_getchar U s
      else let (v, s) = uart_rd U MXC_UART_RXDATA s in Some (ucast v, s))"

partial_function (option) mx6q_uart_putchar :: "'s uart_env \<Rightarrow> u8 \<Rightarrow> 's \<Rightarrow> 's option" where
  "mx6q_uart_putchar U data1 s =
     (let (v, s) = uart_rd U MXC_UART_SR1 s
      in if v AND MXC_USR1_TRDY = 0 then mx6q_uart_putchar U data1 s
      else Some (uart_wr U MXC_UART_TXDATA (ucast data1) s))"

definition mx6q_dev :: "'s uart_env \<Rightarrow> 's ser_dev" where
  "mx6q_dev U = \<lparr>get_byte = mx6q_uart_getchar U, put_byte = mx6q_uart_putchar U, poll_key = mx6q_uart_pollkey U\<rparr>"

subsection \<open>The download\<close>

definition DATA_RECORD_HEADER :: nat where "DATA_RECORD_HEADER = 8"
definition START_CMD :: u8 where "START_CMD = 0x80"
definition DATA_CMD :: u8 where "DATA_CMD = 0x81"
definition GO_CMD :: u8 where "GO_CMD = 0x82"
definition ABORT_CMD :: u8 where "ABORT_CMD = 0x88"
definition ABORT_SEQ :: u8 where "ABORT_SEQ = 2"
definition ABORT_PROTOCOL :: u8 where "ABORT_PROTOCOL = 3"

definition download_abort :: "'s ser_dev option \<Rightarrow> u8 \<Rightarrow> 's \<Rightarrow> 's option" where
  "download_abort ser abort s = do { s \<leftarrow> ser_putchar ser ABORT_CMD s; ser_putchar ser abort s }"

partial_function (option) wait_start :: "'s ser_dev option \<Rightarrow> 's \<Rightarrow> 's option" where
  "wait_start ser s = do { (c, s) \<leftarrow> ser_getchar ser s; if c \<noteq> START_CMD then wait_start ser s else Some s }"

primrec get_header :: "'s ser_dev option \<Rightarrow> nat \<Rightarrow> 's \<Rightarrow> (u8 list \<times> 's) option" where
  "get_header ser 0 s = Some ([], s)"
| "get_header ser (Suc n) s = do { (c, s) \<leftarrow> ser_getchar ser s; (cs, s) \<leftarrow> get_header ser n s; Some (c # cs, s) }"

primrec get_data :: "'s ser_dev option \<Rightarrow> nat \<Rightarrow> u32 \<Rightarrow> memory \<Rightarrow> 's \<Rightarrow> (u32 \<times> memory \<times> 's) option" where
  "get_data ser 0 dst m s = Some (dst, m, s)"
| "get_data ser (Suc n) dst m s =
     do { (c, s) \<leftarrow> ser_getchar ser s; get_data ser n (dst + 1) (m(unat dst := c)) s }"

partial_function (option) download_records ::
  "'s ser_dev option \<Rightarrow> u8 \<Rightarrow> u32 \<Rightarrow> memory \<Rightarrow> 's \<Rightarrow> (u32 \<times> memory \<times> 's) option" where
  "download_records ser seq dst m s =
     do {
       (cmd, s) \<leftarrow> ser_getchar ser s;
       if cmd \<noteq> DATA_CMD then
         if cmd = GO_CMD then Some (0, m, s)
         else do { s \<leftarrow> download_abort ser ABORT_PROTOCOL s; Some (1, m, s) }
       else do {
         (header, s) \<leftarrow> get_header ser (DATA_RECORD_HEADER - 1) s;
         if seq \<noteq> header ! 0 then do { s \<leftarrow> download_abort ser ABORT_SEQ s; Some (1, m, s) }
         else do {
           (dst, m, s) \<leftarrow> get_data ser (unat (header ! 2) + 1) dst m s;
           download_records ser ((seq + 1) AND 0x7f) dst m s
         }
       }
     }"

definition image_download_ser :: "'s ser_dev option \<Rightarrow> u32 \<Rightarrow> memory \<Rightarrow> 's \<Rightarrow> (u32 \<times> memory \<times> 's) option" where
  "image_download_ser ser dst_address m s =
     do { s \<leftarrow> wait_start ser s; download_records ser 0 dst_address m s }"

subsection \<open>The sender\<close>

text \<open>What a sender transmits. The check sum and the address of a record can be anything, for the code does not look at them.\<close>

record dl_record =
  r_cksum :: u8
  r_daddr :: "u8 list"
  r_data :: "u8 list"

definition good_record :: "dl_record \<Rightarrow> bool" where
  "good_record r \<longleftrightarrow> length (r_daddr r) = 4 \<and> 1 \<le> length (r_data r) \<and> length (r_data r) \<le> 256"

definition record_bytes :: "u8 \<Rightarrow> dl_record \<Rightarrow> u8 list" where
  "record_bytes seq r = [DATA_CMD, seq, r_cksum r, word_of_nat (length (r_data r) - 1)] @ r_daddr r @ r_data r"

definition next_seq :: "u8 \<Rightarrow> u8" where
  "next_seq seq = (seq + 1) AND 0x7f"

primrec frames :: "u8 \<Rightarrow> dl_record list \<Rightarrow> u8 list" where
  "frames seq [] = []"
| "frames seq (r # rs) = record_bytes seq r @ frames (next_seq seq) rs"

definition image_of :: "dl_record list \<Rightarrow> u8 list" where
  "image_of rs = concat (map r_data rs)"

lemma put_none: "put_bytes a [] m = m"
  by (auto simp: put_bytes_def fun_eq_iff)

subsection \<open>A line\<close>

locale serial_line =
  fixes dev :: "'s ser_dev" and rx tx :: "'s \<Rightarrow> u8 list"
  assumes get: "rx s = b # bs \<Longrightarrow> \<exists>s'. get_byte dev s = Some (b, s') \<and> rx s' = bs \<and> tx s' = tx s"
    and put: "\<exists>s'. put_byte dev c s = Some s' \<and> rx s' = rx s \<and> tx s' = tx s @ [c]"
begin

lemma getchar: "rx s = b # bs \<Longrightarrow> \<exists>s'. ser_getchar (Some dev) s = Some (b, s') \<and> rx s' = bs \<and> tx s' = tx s"
  by (simp add: ser_getchar_def get)

lemma putchar: "c \<noteq> 10 \<Longrightarrow> \<exists>s'. ser_putchar (Some dev) c s = Some s' \<and> rx s' = rx s \<and> tx s' = tx s @ [c]"
  by (simp add: ser_putchar_def put)

lemma putchars:
  "10 \<notin> set cs \<Longrightarrow> \<exists>s'. ser_putchars (Some dev) cs s = Some s' \<and> rx s' = rx s \<and> tx s' = tx s @ cs"
proof (induction cs arbitrary: s)
  case (Cons c cs)
  obtain s1 where "ser_putchar (Some dev) c s = Some s1" "rx s1 = rx s" "tx s1 = tx s @ [c]"
    using putchar [of c s] Cons.prems by auto
  then show ?case using Cons.IH [of s1] Cons.prems by auto
qed simp

lemma abort: "\<exists>s'. download_abort (Some dev) c s = Some s' \<and> rx s' = rx s \<and> tx s' = tx s @ [ABORT_CMD, c]" if "c \<noteq> 10"
proof -
  obtain s1 where "ser_putchar (Some dev) ABORT_CMD s = Some s1" "rx s1 = rx s" "tx s1 = tx s @ [ABORT_CMD]"
    using putchar [of ABORT_CMD s] by (auto simp: ABORT_CMD_def)
  then show ?thesis using putchar [OF that, of s1] by (auto simp: download_abort_def)
qed

lemma start:
  "START_CMD \<notin> set junk \<Longrightarrow> rx s = junk @ START_CMD # bs \<Longrightarrow>
   \<exists>s'. wait_start (Some dev) s = Some s' \<and> rx s' = bs \<and> tx s' = tx s"
proof (induction junk arbitrary: s)
  case Nil
  then obtain s1 where "ser_getchar (Some dev) s = Some (START_CMD, s1)" "rx s1 = bs" "tx s1 = tx s"
    using getchar [of s START_CMD bs] by auto
  then show ?case by (subst wait_start.simps) simp
next
  case (Cons c junk)
  then obtain s1 where s1: "ser_getchar (Some dev) s = Some (c, s1)" "rx s1 = junk @ START_CMD # bs" "tx s1 = tx s"
    using getchar [of s c "junk @ START_CMD # bs"] by auto
  then show ?case using Cons.IH [OF _ s1(2)] Cons.prems by (subst wait_start.simps) auto
qed

lemma header:
  "rx s = hs @ bs \<Longrightarrow> \<exists>s'. get_header (Some dev) (length hs) s = Some (hs, s') \<and> rx s' = bs \<and> tx s' = tx s"
proof (induction hs arbitrary: s)
  case (Cons h hs)
  then obtain s1 where s1: "ser_getchar (Some dev) s = Some (h, s1)" "rx s1 = hs @ bs" "tx s1 = tx s"
    using getchar [of s h "hs @ bs"] by auto
  then show ?case using Cons.IH [OF s1(2)] by auto
qed simp

lemma data:
  "rx s = ds @ bs \<Longrightarrow> unat dst + length ds \<le> 2 ^ 32 \<Longrightarrow>
   \<exists>s'. get_data (Some dev) (length ds) dst m s = Some (dst + word_of_nat (length ds), put_bytes (unat dst) ds m, s') \<and>
     rx s' = bs \<and> tx s' = tx s"
proof (induction ds arbitrary: s dst m)
  case Nil
  then show ?case by (simp add: put_none)
next
  case (Cons d ds)
  then obtain s1 where s1: "ser_getchar (Some dev) s = Some (d, s1)" "rx s1 = ds @ bs" "tx s1 = tx s"
    using getchar [of s d "ds @ bs"] by auto
  show ?case
  proof (cases "ds = []")
    case True
    then show ?thesis using s1 by (auto simp: put_bytes_def fun_eq_iff)
  next
    case False
    then have u: "unat (dst + 1) = unat dst + 1" using Cons.prems(2) by (cases ds) (auto simp: unat_word_ariths)
    have p: "put_bytes (unat dst + 1) ds (m(unat dst := d)) = put_bytes (unat dst) (d # ds) m"
      by (auto simp: put_bytes_def fun_eq_iff nth_Cons')
    have "unat (dst + 1) + length ds \<le> 2 ^ 32" using Cons.prems(2) u by simp
    from Cons.IH [OF s1(2) this, of "m(unat dst := d)"] obtain s' where
      "get_data (Some dev) (length ds) (dst + 1) (m(unat dst := d)) s1 =
        Some (dst + 1 + word_of_nat (length ds), put_bytes (unat dst) (d # ds) m, s')" "rx s' = bs" "tx s' = tx s1"
      unfolding u p by blast
    then show ?thesis using s1 by (simp add: add.assoc)
  qed
qed

lemma one_record:
  assumes "good_record r" and "rx s = record_bytes seq r @ bs" and "unat dst + length (r_data r) \<le> 2 ^ 32"
  shows "\<exists>s'. download_records (Some dev) seq dst m s =
      download_records (Some dev) (next_seq seq) (dst + word_of_nat (length (r_data r))) (put_bytes (unat dst) (r_data r) m) s' \<and>
     rx s' = bs \<and> tx s' = tx s"
proof -
  obtain h where h: "h = [seq, r_cksum r, word_of_nat (length (r_data r) - 1)] @ r_daddr r" by blast
  have rx: "rx s = DATA_CMD # h @ r_data r @ bs" using assms(2) by (simp add: record_bytes_def h)
  have l: "length h = DATA_RECORD_HEADER - 1" using assms(1) by (simp add: good_record_def DATA_RECORD_HEADER_def h)
  have n: "unat (h ! 2) + 1 = length (r_data r)" and q: "h ! 0 = seq"
    using assms(1) by (cases "length (r_data r)"; simp add: good_record_def unsigned_of_nat take_bit_nat_eq_self h)+
  obtain s1 where s1: "ser_getchar (Some dev) s = Some (DATA_CMD, s1)" "rx s1 = h @ r_data r @ bs" "tx s1 = tx s"
    using getchar [OF rx] by auto
  obtain s2 where s2: "get_header (Some dev) (DATA_RECORD_HEADER - 1) s1 = Some (h, s2)" "rx s2 = r_data r @ bs" "tx s2 = tx s"
    using header [OF s1(2)] s1(3) l by auto
  obtain s3 where s3: "get_data (Some dev) (unat (h ! 2) + 1) dst m s2 =
      Some (dst + word_of_nat (length (r_data r)), put_bytes (unat dst) (r_data r) m, s3)" "rx s3 = bs" "tx s3 = tx s"
    using data [OF s2(2) assms(3), of m] s2(3) unfolding n by auto
  then show ?thesis
    using s1(1) s2(1) q by (subst download_records.simps) (auto simp: next_seq_def simp del: get_data.simps)
qed

lemma records:
  assumes "\<forall>r \<in> set rs. good_record r" and "rx s = frames seq rs @ bs" and "unat dst + length (image_of rs) \<le> 2 ^ 32"
  shows "\<exists>s'. download_records (Some dev) seq dst m s =
      download_records (Some dev) ((next_seq ^^ length rs) seq) (dst + word_of_nat (length (image_of rs)))
        (put_bytes (unat dst) (image_of rs) m) s' \<and> rx s' = bs \<and> tx s' = tx s"
  using assms
proof (induction rs arbitrary: seq dst m s)
  case Nil
  then show ?case by (auto simp: image_of_def put_none)
next
  case (Cons r rs)
  let ?n = "length (r_data r)"
  have i: "image_of (r # rs) = r_data r @ image_of rs" by (simp add: image_of_def)
  have l: "unat dst + ?n + length (image_of rs) \<le> 2 ^ 32" using Cons.prems(3) by (simp add: i)
  obtain s1 where s1: "download_records (Some dev) seq dst m s =
      download_records (Some dev) (next_seq seq) (dst + word_of_nat ?n) (put_bytes (unat dst) (r_data r) m) s1"
      "rx s1 = frames (next_seq seq) rs @ bs" "tx s1 = tx s"
    using one_record [of r s seq "frames (next_seq seq) rs @ bs" dst m] Cons.prems l by auto
  show ?case
  proof (cases "image_of rs = []")
    case True
    have "rs = []"
    proof (cases rs)
      case (Cons r' rs')
      then show ?thesis using True Cons.prems(1) by (auto simp: image_of_def good_record_def)
    qed
    then show ?thesis using s1 i by (auto simp: image_of_def)
  next
    case False
    then have "unat dst + ?n < 2 ^ 32" using l by (cases "image_of rs") auto
    then have u: "unat (dst + word_of_nat ?n) = unat dst + ?n"
      by (simp add: unat_word_ariths unsigned_of_nat take_bit_nat_def)
    have p: "put_bytes (unat dst + ?n) (image_of rs) (put_bytes (unat dst) (r_data r) m) = put_bytes (unat dst) (image_of (r # rs)) m"
      by (auto simp: put_bytes_def fun_eq_iff i nth_append)
    have "unat (dst + word_of_nat ?n) + length (image_of rs) \<le> 2 ^ 32" using u l by simp
    from Cons.IH [OF _ s1(2) this, of "put_bytes (unat dst) (r_data r) m"] show ?thesis
      using s1 Cons.prems(1) by (auto simp: u p i funpow_swap1 add.assoc)
  qed
qed

lemma download_ok:
  assumes "START_CMD \<notin> set junk" and "\<forall>r \<in> set rs. good_record r" and "unat dst + length (image_of rs) \<le> 2 ^ 32"
    and "rx s = junk @ START_CMD # frames 0 rs @ GO_CMD # later"
  shows "\<exists>s'. image_download_ser (Some dev) dst m s = Some (0, put_bytes (unat dst) (image_of rs) m, s') \<and>
     rx s' = later \<and> tx s' = tx s"
proof -
  obtain s1 where s1: "wait_start (Some dev) s = Some s1" "rx s1 = frames 0 rs @ GO_CMD # later" "tx s1 = tx s"
    using start [OF assms(1,4)] by auto
  obtain s2 where s2: "download_records (Some dev) 0 dst m s1 =
      download_records (Some dev) ((next_seq ^^ length rs) 0) (dst + word_of_nat (length (image_of rs))) (put_bytes (unat dst) (image_of rs) m) s2"
      "rx s2 = GO_CMD # later" "tx s2 = tx s"
    using records [OF assms(2) s1(2) assms(3), of m] s1(3) by auto
  obtain s3 where "ser_getchar (Some dev) s2 = Some (GO_CMD, s3)" "rx s3 = later" "tx s3 = tx s"
    using getchar [OF s2(2)] s2(3) by auto
  then show ?thesis
    using s1(1) s2(1)
    by (auto simp: image_download_ser_def DATA_CMD_def GO_CMD_def download_records.simps [of "Some dev" _ _ _ s2])
qed

lemma download_error:
  assumes "START_CMD \<notin> set junk" and "\<forall>r \<in> set rs. good_record r" and "unat dst + length (image_of rs) \<le> 2 ^ 32"
    and "rx s = junk @ START_CMD # frames 0 rs @ bad @ later"
    and bad: "bad = [c] \<and> c \<noteq> DATA_CMD \<and> c \<noteq> GO_CMD \<and> reason = ABORT_PROTOCOL \<or>
      bad = [DATA_CMD, q] @ hs \<and> length hs = 6 \<and> q \<noteq> (next_seq ^^ length rs) 0 \<and> reason = ABORT_SEQ"
  shows "\<exists>s'. image_download_ser (Some dev) dst m s = Some (1, put_bytes (unat dst) (image_of rs) m, s') \<and>
     rx s' = later \<and> tx s' = tx s @ [ABORT_CMD, reason]"
proof -
  obtain s1 where s1: "wait_start (Some dev) s = Some s1" "rx s1 = frames 0 rs @ bad @ later" "tx s1 = tx s"
    using start [OF assms(1,4)] by auto
  obtain s2 where s2: "download_records (Some dev) 0 dst m s1 =
      download_records (Some dev) ((next_seq ^^ length rs) 0) (dst + word_of_nat (length (image_of rs))) (put_bytes (unat dst) (image_of rs) m) s2"
      "rx s2 = bad @ later" "tx s2 = tx s"
    using records [OF assms(2) s1(2) assms(3), of m] s1(3) by auto
  from bad show ?thesis
  proof
    assume b: "bad = [c] \<and> c \<noteq> DATA_CMD \<and> c \<noteq> GO_CMD \<and> reason = ABORT_PROTOCOL"
    obtain s3 where s3: "ser_getchar (Some dev) s2 = Some (c, s3)" "rx s3 = later" "tx s3 = tx s"
      using getchar [of s2 c later] s2 b by auto
    then show ?thesis
      using s1(1) s2(1) b abort [of ABORT_PROTOCOL s3]
      by (auto simp: image_download_ser_def ABORT_PROTOCOL_def download_records.simps [of "Some dev" _ _ _ s2])
  next
    assume b: "bad = [DATA_CMD, q] @ hs \<and> length hs = 6 \<and> q \<noteq> (next_seq ^^ length rs) 0 \<and> reason = ABORT_SEQ"
    obtain s3 where s3: "ser_getchar (Some dev) s2 = Some (DATA_CMD, s3)" "rx s3 = (q # hs) @ later" "tx s3 = tx s"
      using getchar [of s2 DATA_CMD "(q # hs) @ later"] s2 b by auto
    have "length (q # hs) = DATA_RECORD_HEADER - 1" using b by (simp add: DATA_RECORD_HEADER_def)
    then obtain s4 where s4: "get_header (Some dev) (DATA_RECORD_HEADER - 1) s3 = Some (q # hs, s4)" "rx s4 = later" "tx s4 = tx s"
      using header [OF s3(2)] s3(3) by auto
    then show ?thesis
      using s1(1) s2(1) s3(1) b abort [of ABORT_SEQ s4]
      by (auto simp: image_download_ser_def ABORT_SEQ_def download_records.simps [of "Some dev" _ _ _ s2])
  qed
qed

end

subsection \<open>A UART whose parts are ready after some polls\<close>

record uart_sim =
  arriving :: "(nat \<times> u8) list"   \<comment> \<open>the bytes to come, each with the number of polls it takes\<close>
  tx_busy :: nat
  tx_delay :: nat
  sent :: "u8 list"

definition sim_uart :: "uart_sim uart_env" where
  "sim_uart =
     \<lparr>uart_rd = (\<lambda>r s.
        if r = MXC_UART_SR2 then
          (case arriving s of
             [] \<Rightarrow> (0, s)
           | (0, b) # q \<Rightarrow> (MXC_USR2_RDR, s)
           | (Suc n, b) # q \<Rightarrow> (0, s\<lparr>arriving := (n, b) # q\<rparr>))
        else if r = MXC_UART_RXDATA then
          (case arriving s of [] \<Rightarrow> (0, s) | (n, b) # q \<Rightarrow> (0x8000 OR ucast b, s\<lparr>arriving := q\<rparr>))
        else if r = MXC_UART_SR1 then
          (case tx_busy s of 0 \<Rightarrow> (MXC_USR1_TRDY, s) | Suc n \<Rightarrow> (0, s\<lparr>tx_busy := n\<rparr>))
        else (0, s)),
      uart_wr = (\<lambda>r v s.
        if r = MXC_UART_TXDATA then s\<lparr>sent := sent s @ [ucast v], tx_busy := tx_delay s\<rparr> else s)\<rparr>"

lemma sim_getchar:
  "arriving s = (n, b) # q \<Longrightarrow> mx6q_uart_getchar sim_uart s = Some (b, s\<lparr>arriving := q\<rparr>)"
proof (induction n arbitrary: s)
  case 0
  have "(ucast (0x8000 OR ucast b :: u16) :: u8) = (ucast (0x8000 :: u16) OR ucast (ucast b :: u16))"
    by (rule unsigned_or_eq)
  moreover have "(ucast (ucast b :: u16) :: u8) = b" by (rule bit_word_eqI) (auto simp: bit_simps)
  moreover have "(ucast (0x8000 :: u16) :: u8) = 0" by simp
  ultimately have c: "(ucast (0x8000 OR ucast b :: u16) :: u8) = b" by (simp only: or.left_neutral)
  then show ?case
    using 0 by (subst mx6q_uart_getchar.simps)
      (simp add: mx6q_uart_pollkey_def sim_uart_def MXC_UART_SR2_def MXC_UART_RXDATA_def MXC_USR2_RDR_def)
next
  case (Suc n)
  have "mx6q_uart_getchar sim_uart s = mx6q_uart_getchar sim_uart (s\<lparr>arriving := (n, b) # q\<rparr>)"
    using Suc.prems by (subst mx6q_uart_getchar.simps) (simp add: mx6q_uart_pollkey_def sim_uart_def)
  then show ?case using Suc.IH [of "s\<lparr>arriving := (n, b) # q\<rparr>"] by simp
qed

lemma sim_putchar:
  "mx6q_uart_putchar sim_uart c s = Some (s\<lparr>sent := sent s @ [c], tx_busy := tx_delay s\<rparr>)"
proof (induction "tx_busy s" arbitrary: s)
  case 0
  have "(ucast (ucast c :: u16) :: u8) = c" by (rule bit_word_eqI) (auto simp: bit_simps)
  then show ?case
    using 0 by (subst mx6q_uart_putchar.simps)
      (simp add: sim_uart_def MXC_UART_SR1_def MXC_UART_SR2_def MXC_UART_RXDATA_def MXC_USR1_TRDY_def)
next
  case (Suc n)
  have "mx6q_uart_putchar sim_uart c s = mx6q_uart_putchar sim_uart c (s\<lparr>tx_busy := n\<rparr>)"
    using Suc(2) [symmetric]
    by (subst mx6q_uart_putchar.simps) (simp add: sim_uart_def MXC_UART_SR1_def MXC_UART_SR2_def MXC_UART_RXDATA_def)
  then show ?case using Suc(1) [of "s\<lparr>tx_busy := n\<rparr>"] by simp
qed

lemma sim_line: "serial_line (mx6q_dev sim_uart) (\<lambda>s. map snd (arriving s)) sent"
proof
  fix s :: uart_sim and b bs
  assume "map snd (arriving s) = b # bs"
  then obtain n q where "arriving s = (n, b) # q" "map snd q = bs" by (cases "arriving s") auto
  then show "\<exists>s'. get_byte (mx6q_dev sim_uart) s = Some (b, s') \<and> map snd (arriving s') = bs \<and> sent s' = sent s"
    using sim_getchar [of s n b q] by (simp add: mx6q_dev_def)
next
  fix c s
  show "\<exists>s'. put_byte (mx6q_dev sim_uart) c s = Some s' \<and> map snd (arriving s') = map snd (arriving s) \<and> sent s' = sent s @ [c]"
    by (simp add: mx6q_dev_def sim_putchar)
qed

interpretation uart: serial_line "mx6q_dev sim_uart" "\<lambda>s. map snd (arriving s)" sent
  by (rule sim_line)

subsection \<open>Theorems\<close>

text \<open>
  C22: An image that is sent in records of 1 to 256 bytes is in memory byte by byte at the address given, nothing else of memory is changed, nothing is
  sent, and what follows the command to go is left on the line; whatever comes before the first start command
  is skipped. The check sums and the addresses in the records have no influence.
\<close>

theorem image_download_round_trip:
  assumes "serial_line dev rx tx" and "START_CMD \<notin> set junk" and "\<forall>r \<in> set rs. good_record r"
    and "unat dst + length (image_of rs) \<le> 2 ^ 32"
    and "rx s = junk @ START_CMD # frames 0 rs @ GO_CMD # later"
  shows "\<exists>s'. image_download_ser (Some dev) dst m s = Some (0, put_bytes (unat dst) (image_of rs) m, s') \<and>
     rx s' = later \<and> tx s' = tx s"
  by (rule serial_line.download_ok [OF assms])

theorem image_download_round_trip_witness:
  "\<exists>s'. image_download_ser (Some (mx6q_dev sim_uart)) 0x10800000 (\<lambda>_. 0)
     \<lparr>arriving = map (Pair 2) ([13, START_CMD] @ frames 0 [\<lparr>r_cksum = 0, r_daddr = [0, 0, 0, 0], r_data = [1, 2, 3]\<rparr>,
        \<lparr>r_cksum = 7, r_daddr = [0, 0, 0, 0], r_data = [4]\<rparr>] @ [GO_CMD]), tx_busy = 1, tx_delay = 5, sent = []\<rparr> =
     Some (0, put_bytes 0x10800000 [1, 2, 3, 4] (\<lambda>_. 0), s')"
proof -
  let ?rs = "[\<lparr>r_cksum = 0, r_daddr = [0, 0, 0, 0], r_data = [1, 2, 3]\<rparr>, \<lparr>r_cksum = 7, r_daddr = [0, 0, 0, 0], r_data = [4]\<rparr>]"
  let ?s = "\<lparr>arriving = map (Pair 2) ([13, START_CMD] @ frames 0 ?rs @ [GO_CMD]), tx_busy = 1, tx_delay = 5, sent = []\<rparr>"
  have i: "image_of ?rs = [1, 2, 3, 4]" by (simp add: image_of_def)
  have "\<exists>s'. image_download_ser (Some (mx6q_dev sim_uart)) 0x10800000 (\<lambda>_. 0) ?s =
      Some (0, put_bytes (unat (0x10800000 :: u32)) (image_of ?rs) (\<lambda>_. 0), s') \<and> map snd (arriving s') = [] \<and> sent s' = sent ?s"
    by (rule image_download_round_trip [OF sim_line, where junk = "[13]"])
      (simp_all add: i good_record_def record_bytes_def START_CMD_def comp_def)
  then show ?thesis by (auto simp: i)
qed

text \<open>
  A record with the wrong number, or a command that is neither data nor go, ends the download with the result 1; the abort command is sent with
  the reason, the records before it are in memory, and its header has been taken from the line.
\<close>

theorem image_download_error:
  assumes "serial_line dev rx tx" and "START_CMD \<notin> set junk" and "\<forall>r \<in> set rs. good_record r"
    and "unat dst + length (image_of rs) \<le> 2 ^ 32"
    and "rx s = junk @ START_CMD # frames 0 rs @ bad @ later"
    and "bad = [c] \<and> c \<noteq> DATA_CMD \<and> c \<noteq> GO_CMD \<and> reason = ABORT_PROTOCOL \<or>
      bad = [DATA_CMD, q] @ hs \<and> length hs = 6 \<and> q \<noteq> (next_seq ^^ length rs) 0 \<and> reason = ABORT_SEQ"
  shows "\<exists>s'. image_download_ser (Some dev) dst m s = Some (1, put_bytes (unat dst) (image_of rs) m, s') \<and>
     rx s' = later \<and> tx s' = tx s @ [ABORT_CMD, reason]"
  by (rule serial_line.download_error [OF assms])

theorem image_download_error_witness:
  "\<exists>s'. image_download_ser (Some (mx6q_dev sim_uart)) 0x10800000 (\<lambda>_. 0)
     \<lparr>arriving = map (Pair 2) ([START_CMD] @ frames 0 [\<lparr>r_cksum = 0, r_daddr = [0, 0, 0, 0], r_data = [9]\<rparr>] @
        [DATA_CMD, 0, 0, 0, 0, 0, 0, 0]), tx_busy = 1, tx_delay = 5, sent = []\<rparr> =
     Some (1, put_bytes 0x10800000 [9] (\<lambda>_. 0), s') \<and> sent s' = [0x88, 2]"
proof -
  let ?rs = "[\<lparr>r_cksum = 0, r_daddr = [0, 0, 0, 0], r_data = [9]\<rparr>]"
  let ?s = "\<lparr>arriving = map (Pair 2) ([START_CMD] @ frames 0 ?rs @ [DATA_CMD, 0, 0, 0, 0, 0, 0, 0]),
    tx_busy = 1, tx_delay = 5, sent = []\<rparr>"
  have i: "image_of ?rs = [9]" by (simp add: image_of_def)
  have "\<exists>s'. image_download_ser (Some (mx6q_dev sim_uart)) 0x10800000 (\<lambda>_. 0) ?s =
      Some (1, put_bytes (unat (0x10800000 :: u32)) (image_of ?rs) (\<lambda>_. 0), s') \<and> map snd (arriving s') = [] \<and>
      sent s' = sent ?s @ [ABORT_CMD, ABORT_SEQ]"
    by (rule image_download_error [OF sim_line, where junk = "[]" and bad = "[DATA_CMD, 0] @ [0, 0, 0, 0, 0, 0]" and q = 0 and hs = "[0, 0, 0, 0, 0, 0]"])
      (simp_all add: i next_seq_def good_record_def record_bytes_def START_CMD_def comp_def)
  then show ?thesis by (auto simp: i ABORT_CMD_def ABORT_SEQ_def)
qed

end
