(* ===== verification/Spec2Isabelle.thy ===== *)
theory Spec2Isabelle
  imports Prelude Syspage Strings Asinfo Ram Rtc_Parallel Rtc_I2c Rtc_Soc Timer Can_Claims Mini_Claims Ipl_Claims
    Mdriver_Claims Ipl_Serial
begin

text \<open>
  Verification development of the board support package for the i.MX6 SABRE board: the boot loader, the startup
  library, the CAN driver with its mini-driver, and the clock utility. Paths are below \<^verbatim>\<open>src/src\<close>.


  The program and its parts. \<^verbatim>\<open>hardware/ipl\<close>, the initial program loader, runs first: it reads an image from the SD card,
  checks it, puts the startup program in its place and jumps to it. \<^verbatim>\<open>hardware/startup\<close>, the startup program, finds out
  what memory there is, builds the system page that tells the kernel about the machine, and calls small drivers while
  it works; one of them, \<^verbatim>\<open>mini-can\<close>, receives CAN messages from the first moments on. \<^verbatim>\<open>hardware/can/mx6x\<close> is the CAN driver
  proper, which later takes over what the mini-driver has received. \<^verbatim>\<open>utils/r/rtc\<close> sets the time from a
  clock chip and the chip from the time. The parts meet in memory: the loader leaves information items in the header
  of the startup program, which startup finds (\<open>image_add_info_round_trip\<close>); the mini-driver leaves
  messages in its data, which the driver finds (\<open>minican_handover\<close>); strings, address spaces and other data go into
  sections of the system page, which all grow by \<open>grow_syspage_section\<close>.


  The theories. \<open>Prelude\<close> has the names of the machine types, arithmetic at a width, intervals of addresses, and the
  hints that the other theories share.

  Startup library (\<^verbatim>\<open>hardware/startup/lib\<close>).
  \<open>Syspage\<close>: \<^verbatim>\<open>syspage_memory.c\<close>, the storage of the system page as memory and a table of sections. Growing a section moves
  what lies behind it; the lemmas say that every other section keeps its bytes and that the layout stays
  valid. \<open>section_store\<close> is the interface on which string tables rest.
  \<open>Strings\<close>: \<^verbatim>\<open>strings.c\<close>, the table of strings and the table of typed strings as bytes of their sections.
  \<open>Asinfo\<close>: \<^verbatim>\<open>as_*.c\<close>, address spaces with owners; \<open>as_add_containing\<close> is related to sets of addresses.
  \<open>Ram\<close>: \<^verbatim>\<open>ram.c\<close>, the list of free memory and the list of ranges to avoid. The invariant \<open>ram_ok\<close> has the list sorted
  and disjoint; \<open>free_set\<close> is the set it stands for. The interface \<open>allocator\<close> gives that blocks granted by any
  sequence of requests are disjoint.
  \<open>Mdriver\<close>: \<^verbatim>\<open>mdriver.c\<close>, \<^verbatim>\<open>interrupt_valid.c\<close>, \<^verbatim>\<open>arm/cpu_mdriver.c\<close>, the list of mini-drivers, and \<^verbatim>\<open>memfuncs.c\<close> and the sum of
  \<^verbatim>\<open>restore_ifs.c\<close>, which call them as they work. \<open>Mdriver_Calls\<close>: the order of calls as an automaton, and the log that states it.
  \<open>Kprintf\<close>: \<^verbatim>\<open>kprintf.c\<close>, formatted output with the calls in it. \<open>Mdriver_Claims\<close>: the handler \<^verbatim>\<open>mini_data.c\<close>, which serves as the
  instance of the parameters, and the theorems.
  \<open>Numbers\<close>, \<open>Calendar\<close>, \<open>Timer\<close>: numbers as text (\<^verbatim>\<open>strtoul.c\<close>, \<^verbatim>\<open>ultoa_end.c\<close> and others), seconds and dates (\<^verbatim>\<open>calc_time_t.c\<close>,
  \<^verbatim>\<open>gmtime.c\<close>), the rates of the timer (\<^verbatim>\<open>invert_timer_freq.c\<close> and others).

  Clock utility (\<^verbatim>\<open>utils/r/rtc\<close>).
  \<open>Rtc_Chip\<close>: where a chip is and how it is accessed (\<^verbatim>\<open>rtc.h\<close>, \<^verbatim>\<open>qnxrtc.c\<close>). \<open>Rtc_Parallel\<close>, \<open>Rtc_I2c\<close>, \<open>Rtc_Soc\<close>: \<open>init\<close>, \<open>get\<close> and \<open>set\<close> of
  32 drivers, by the way the chip is reached. The round trips say that the time that was set is read back.

  CAN driver (\<^verbatim>\<open>hardware/can/mx6x\<close>).
  \<open>Can_Regs\<close>: the constants of \<^verbatim>\<open>mx6x-can.h\<close>. \<open>Can_Driver\<close>: the interrupt handler, transmission, device control, the initialisation of
  the controller, the command line and the take-over from the mini-driver. \<open>Can_Queues\<close>: what the operations do to the driver's data,
  whatever the controller does. \<open>Can_Flex\<close>: what they do on a controller that meets the contract \<open>flexcan\<close>. \<open>Can_Init\<close>: the state of
  the mailboxes after initialisation. \<open>Can_Claims\<close>: the theorems. \<open>Mini_Can\<close> and \<open>Mini_Claims\<close>: the mini-driver
  (\<^verbatim>\<open>hardware/startup/boards/imx6x/mini-can\<close>).

  Boot loader (\<^verbatim>\<open>hardware/ipl\<close>).
  \<open>Ipl_Image\<close>: images in memory (\<^verbatim>\<open>lib/image_*.c\<close>, \<^verbatim>\<open>lib/copy.c\<close>) and \<^verbatim>\<open>startup_info.c\<close>, the reader of the items. \<open>Ipl_Scan\<close>: what these
  functions do. \<open>Ipl_Card\<close>: the driver of the SD/MMC controller, \<^verbatim>\<open>boards/mx6x-sabreARD/sdmmc.c\<close>. \<open>Ipl_Usdhc\<close>, \<open>Ipl_Init\<close>: commands, reads and
  the initialisation of a card under the contract \<open>usdhc\<close>. \<open>Ipl_Fat\<close>: the FAT file system of \<^verbatim>\<open>fat-fs.c\<close> and the loop of \<^verbatim>\<open>main.c\<close>.
  \<open>Ipl_Files\<close>, \<open>Ipl_Volume\<close>: files and directories on a block device (\<open>block_device\<close>), and the volume on a card
  (\<open>sd_volume\<close>), which is such a device. \<open>Ipl_Claims\<close>: the theorems, up to \<open>ipl_reaches_startup\<close>.
  \<open>Ipl_Serial\<close>: the serial line (\<^verbatim>\<open>lib/ser_dev.c\<close>, \<^verbatim>\<open>serial.c\<close> of the board) and the download of an image over it
  (\<^verbatim>\<open>lib/image_download_ser.c\<close>), on a line that meets \<open>serial_line\<close>.


  How the code is modelled. A structure is a record with the fields of the source, an enumeration a datatype, a
  C function a function from the state before to the result and the state after. Unsigned integers are words of their
  width, or natural numbers with the truncation written out (\<open>add32\<close> and the like); a signed integer is an
  \<open>int\<close> where it cannot overflow. The sizes in the header of the system page are fields of the record beside the bytes of the page.
  The data of the mini-driver hold 4094 messages; a store behind them, which the code does not prevent, is \<open>Fault\<close>. \<open>long\<close> and pointers have 32 bits. Memory is a function from addresses to
  bytes where the code reads and writes it in different ways (system page, loader), and a record or a list where
  it does not. An error that the code reports, an exit and a crash are values of a sum or an option.


  Parameters. What is outside the repository is an argument of the definitions: the sizes of structures of the
  system's headers (\<open>sp_sizes\<close>, \<open>as_cfg\<close>), the handlers of mini-drivers and the mapping of memory for the kernel (\<open>md_env\<close>), the hardware (\<open>chip_env\<close>, \<open>i2c_env\<close>, \<open>can_env\<close>, \<open>mini_env\<close>, \<open>sd_env\<close>: reads and
  writes on a state of any type), the CAN library's queues (\<open>can_lib\<close>), the C library (\<open>strtoul\<close>, \<open>c_time\<close>), and functions in
  assembly language or of devices (\<open>checksum_2\<close>, \<open>xip_load\<close>, \<open>callout_io_map\<close>). What the theorems assume of them are the
  laws of locales, and of the predicate \<open>fifo_lib\<close>: \<open>rtc_regs\<close>, \<open>gpio_chip\<close>, \<open>cmos_chip\<close>, \<open>i2c_regs\<close>, \<open>i2c_blocks\<close> (a register gives back what was written),
  \<open>c_calendar\<close> (\<open>mktime\<close> of a standard time that \<open>time_t\<close> can hold gives its seconds and the time zone, \<open>gmtime\<close> the date of the
  seconds), \<open>serial_line\<close> (bytes arrive in order and are sent in order), \<open>quiet_drivers\<close> (the mini-drivers leave an area of memory alone),
  \<open>flexcan\<close> and \<open>fifo_lib\<close> (the reference manual's rules for mailboxes and flags;
  queues are first in first out), \<open>usdhc\<close> (registers between two commands, what a command does, where a transfer goes).
  Three of them idealise the device. \<open>flexcan\<close>: the controller acknowledges a reset and the freeze mode at once, so that of the loops that
  wait for it only the first round is taken (their timeouts are part of the model, not of the theorems), reading a register has no effect,
  and no mailbox is busy. \<open>rtc_regs\<close>: a register holds at once what was written. \<open>usdhc\<close>: a command has completed when its status is read,
  and a transfer has less than 65536 blocks, the width of the field that holds the number.
  Each is interpreted, by the access functions of the code where it has them and by a simulation of the
  device otherwise, and each theorem with hypotheses has an instance at concrete values (\<open>*_witness\<close>).


  Loops and bounds. A loop whose end the code itself secures is a recursion with a measure. A loop that counts keeps the
  source's number: 20000 for the timeouts of the CAN driver, which makes 20001 rounds; 40 for the power-up of a card. A loop that
  waits for the hardware is a \<open>partial_function\<close> in the loader, \<open>None\<close> being that it does not return, or takes the number of
  its rounds as fuel: 19 steps are enough for \<open>invert_loop\<close> (\<open>invert_timer_freq_correct\<close>), two rounds for a clock
  that is not just being updated, two rounds for the interrupt handler with one flag, as many rounds as there are
  entries for the lists of \<open>Ram\<close> and \<open>Asinfo\<close>. The theorems say that the code returns, not only what holds if it
  does. \<open>image_scan_hangs\<close> is a case where it does not.


  What the theorems show. Physical memory: an allocation returns a free, aligned block and takes exactly it away;
  blocks are disjoint; the list stays in order. System page: growing, moving and string tables lose nothing. CAN: no
  queue element is ever lost, transmission is an ordered channel, a received message is what was in the mailbox, the
  mini-driver's messages arrive in the driver. Loader: a file of a FAT32 volume is in memory byte by byte, the scan finds the newest valid
  image, the startup program is in place when the jump comes. Mini-drivers: each is called in the
  order of the protocol, and copies of memory do not depend on the calls in between. Serial download: what is sent is in memory.
  Clocks and numbers: what is written is read back. Others show where the
  code fails: a block that ends at 4 GB, a deleted typed string, a second transmission that completes
  with the first, a stale sector of the file allocation table, an image header that stops the scan, a failed transfer that goes unnoticed,
  a mini-driver that is called at its address in the kernel (\<open>kprintf_calls_moved_handler\<close>), a copy in pieces that overwrites its source (\<open>copy_memory_overlap\<close>).


  Not modelled. Writing the system page to its final place, hardware information tags: bytes
  laid out for readers outside the repository. Command line, page tables, caches, callouts: text, assembly language, or
  privileged instructions. Decompression: third-party code. Clocks, pins and memory controller of the board: register
  values without state. Drivers for SD/MMC, serial lines, SPI, audio, network, flash and display and the SDMA library: they are built on
  libraries of the operating system (io-char, io-pkt, io-audio, CAM, F3S) that are not in the repository, so most of what they do is
  calls whose meaning cannot be read here.
\<close>

end
